(* ===== verification/Prelude.thy ===== *)
theory Prelude
  imports Main
begin

text \<open>
  Shared vocabulary of the development: the result type of the HTTP handlers, the oracle that says
  which database statement of a request fails, durations in nanoseconds, and the generic lemmas on
  lists that the component theories use.

  A handler of the source has the shape \<open>func(ctx, in) (out, error)\<close>.  Its model takes the state and
  the input and returns \<open>Inl e\<close> for every early \<open>return nil, e\<close> and \<open>Inr out\<close> otherwise, together
  with the state it leaves behind.
\<close>

section \<open>Results of handlers\<close>

datatype http_error = HTTP (status_of: nat) (message_of: string)

type_synonym 'a result = "http_error + 'a"

text \<open>\<open>internalError(msg, err)\<close> answers a generic 500 with only its label.\<close>

definition internal_error :: "string \<Rightarrow> http_error" where
  "internal_error msg = HTTP 500 msg"

abbreviation (input) not_authenticated :: http_error where
  "not_authenticated \<equiv> HTTP 401 ''not authenticated''"

text \<open>
  Which statements against a service outside the process fail during one request, by the label the
  source passes to \<open>internalError\<close> (or wraps the error with).  \<open>no_faults\<close> is the run in which the
  database answers everything.
\<close>

type_synonym faults = "string \<Rightarrow> bool"

definition no_faults :: faults where
  "no_faults = (\<lambda>_. False)"

lemma no_faults [simp]: "no_faults l = False"
  by (simp add: no_faults_def)

section \<open>Durations\<close>

type_synonym time = int

definition second :: time where "second = 1000000000"
definition minute :: time where "minute = 60 * second"
definition hour :: time where "hour = 60 * minute"
definition millisecond :: time where "millisecond = 1000000"

named_theorems duration_defs
declare second_def [duration_defs] minute_def [duration_defs] hour_def [duration_defs]
  millisecond_def [duration_defs]

section \<open>Collections of lemmas\<close>

named_theorems handler_defs \<open>definitions of handlers, unfolded by the proofs about them\<close>
named_theorems state_inv \<open>preservation lemmas, one per operation\<close>

section \<open>Lists\<close>

lemma sorted_wrt_filter [intro]: "sorted_wrt P xs \<Longrightarrow> sorted_wrt P (filter Q xs)"
  by (induction xs) auto

lemma set_take_filter: "x \<in> set (take n (filter P xs)) \<Longrightarrow> x \<in> set xs \<and> P x"
  using set_take_subset by fastforce

lemma distinct_map_filter': "distinct (map f xs) \<Longrightarrow> distinct (map f (filter P xs))"
  by (induction xs) auto

lemma filter_map_upd_other:
  "(\<And>x. x \<in> set xs \<Longrightarrow> P (f x) = P x) \<Longrightarrow> filter P (map f xs) = map f (filter P xs)"
  by (induction xs) auto

lemma length_filter_mono:
  "(\<And>x. x \<in> set xs \<Longrightarrow> P x \<Longrightarrow> Q x) \<Longrightarrow> length (filter P xs) \<le> length (filter Q xs)"
  by (induction xs) auto

lemma find_Some_set: "find P xs = Some x \<Longrightarrow> x \<in> set xs \<and> P x"
  by (auto simp: find_Some_iff)

lemma find_None_set: "find P xs = None \<longleftrightarrow> (\<forall>x \<in> set xs. \<not> P x)"
  by (auto simp: find_None_iff)

lemma find_append:
  "find P (xs @ ys) = (case find P xs of None \<Rightarrow> find P ys | Some x \<Rightarrow> Some x)"
  by (induction xs) auto

lemma find_unique:
  assumes "distinct (map key xs)" "x \<in> set xs" "key x = k"
  shows "find (\<lambda>y. key y = k) xs = Some x"
  using assms by (induction xs) (auto simp: image_iff)

lemma map_key_map: "(\<And>x. k (h x) = k x) \<Longrightarrow> map k (map h xs) = map k xs"
  by simp

lemma sorted_wrt_map_filter: "sorted_wrt R (map f xs) \<Longrightarrow> sorted_wrt R (map f (filter P xs))"
  by (induction xs) auto

lemma distinct_key_eq: "distinct (map k xs) \<Longrightarrow> x \<in> set xs \<Longrightarrow> y \<in> set xs \<Longrightarrow> k x = k y \<Longrightarrow> x = y"
  by (auto simp: distinct_map inj_on_def)

lemma distinct_mapI:
  "distinct xs \<Longrightarrow> (\<And>x y. x \<in> set xs \<Longrightarrow> y \<in> set xs \<Longrightarrow> x \<noteq> y \<Longrightarrow> f x \<noteq> f y) \<Longrightarrow> distinct (map f xs)"
  by (auto simp: distinct_map inj_on_def)

lemma list_all_concat: "list_all P (concat xss) = list_all (list_all P) xss"
  by (induction xss) auto

text \<open>\<open>ORDER BY\<close>: insertion into a list ordered by \<open>before\<close>; rows that compare equal keep their order.\<close>

fun insert_by :: "('a \<Rightarrow> 'a \<Rightarrow> bool) \<Rightarrow> 'a \<Rightarrow> 'a list \<Rightarrow> 'a list" where
  "insert_by before x [] = [x]"
| "insert_by before x (y # ys) = (if before y x then y # insert_by before x ys else x # y # ys)"

definition order_by :: "('a \<Rightarrow> 'a \<Rightarrow> bool) \<Rightarrow> 'a list \<Rightarrow> 'a list" where
  "order_by before xs = foldr (insert_by before) xs []"

lemma set_insert_by [simp]: "set (insert_by before x ys) = insert x (set ys)"
  by (induction ys) auto


lemma length_insert_by [simp]: "length (insert_by before x ys) = Suc (length ys)"
  by (induction ys) auto


lemma order_by_simps [simp]:
  "order_by before [] = []"
  "order_by before (x # xs) = insert_by before x (order_by before xs)"
  by (simp_all add: order_by_def)

lemma distinct_insert_by [simp]: "distinct (insert_by before x ys) \<longleftrightarrow> x \<notin> set ys \<and> distinct ys"
  by (induction ys) auto

lemma set_order_by [simp]: "set (order_by before xs) = set xs"
  by (induction xs) auto

lemma length_order_by [simp]: "length (order_by before xs) = length xs"
  by (induction xs) auto

lemma distinct_order_by [simp]: "distinct (order_by before xs) = distinct xs"
  by (induction xs) auto

lemma map_of_filter_keys: "map_of (filter (\<lambda>(k, v). P k) m) x = (if P x then map_of m x else None)"
  by (induction m) auto

end
