(* ===== verification/GoStd.thy ===== *)
theory GoStd
  imports Prelude
begin

text \<open>
  The parts of the Go standard library the sources lean on, over strings as byte lists: splitting,
  joining, trimming, replacing, \<open>strconv\<close>, UTF-8 decoding with Go's rules for malformed input,
  hexadecimal encoding and \<open>path.Clean\<close>.  Nothing here models a file of the repository; the
  component theories call these functions where the sources call the package functions of the same
  name.
\<close>

section \<open>Splitting and joining\<close>

text \<open>\<open>strings.Split(s, sep)\<close> for a separator of one byte.\<close>

fun split_chr :: "char \<Rightarrow> string \<Rightarrow> string list" where
  "split_chr c [] = [[]]"
| "split_chr c (x # xs) =
     (if x = c then [] # split_chr c xs
      else (case split_chr c xs of [] \<Rightarrow> [[x]] | y # ys \<Rightarrow> (x # y) # ys))"

text \<open>\<open>strings.Join(xs, sep)\<close>.\<close>

fun join :: "string \<Rightarrow> string list \<Rightarrow> string" where
  "join sep [] = []"
| "join sep [x] = x"
| "join sep (x # y # ys) = x @ sep @ join sep (y # ys)"

lemma split_chr_nonempty [simp]: "split_chr c s \<noteq> []"
  by (induction s) (auto split: list.splits)

lemma join_Cons: "xs \<noteq> [] \<Longrightarrow> join sep (x # xs) = x @ sep @ join sep xs"
  by (cases xs) auto

lemma join_head: "join sep ((x # y) # ys) = x # join sep (y # ys)"
  by (cases ys) auto

lemma join_split [simp]: "join [c] (split_chr c s) = s"
proof (induction s)
  case Nil
  show ?case by simp
next
  case (Cons x xs)
  show ?case
  proof (cases "x = c")
    case True
    then show ?thesis using Cons by (simp add: join_Cons)
  next
    case False
    obtain y ys where eq: "split_chr c xs = y # ys"
      by (meson neq_Nil_conv split_chr_nonempty)
    then show ?thesis using False Cons by (simp add: join_head)
  qed
qed

lemma split_no_sep: "c \<notin> set s \<Longrightarrow> split_chr c s = [s]"
  by (induction s) auto

lemma split_append_sep: "c \<notin> set s \<Longrightarrow> split_chr c (s @ c # t) = s # split_chr c t"
  by (induction s) auto

lemma split_join:
  "xs \<noteq> [] \<Longrightarrow> \<forall>x \<in> set xs. c \<notin> set x \<Longrightarrow> split_chr c (join [c] xs) = xs"
proof (induction xs)
  case Nil
  then show ?case by simp
next
  case (Cons x xs)
  then show ?case
    by (cases xs) (auto simp: split_no_sep split_append_sep)
qed

lemma split_parts_no_sep: "p \<in> set (split_chr c s) \<Longrightarrow> c \<notin> set p"
proof (induction s arbitrary: p)
  case Nil
  then show ?case by simp
next
  case (Cons x xs)
  then show ?case
    by (cases "split_chr c xs") (auto split: if_splits)
qed

lemma split_parts_subset: "p \<in> set (split_chr c s) \<Longrightarrow> set p \<subseteq> set s"
proof (induction s arbitrary: p)
  case Nil
  then show ?case by simp
next
  case (Cons x xs)
  show ?case
  proof (cases "split_chr c xs")
    case Nil
    then show ?thesis by simp
  next
    case (Cons y ys)
    have "y \<in> set (split_chr c xs)" using Cons by simp
    with Cons.IH have sub: "\<And>q. q = y \<or> q \<in> set ys \<Longrightarrow> set q \<subseteq> set xs"
      using Cons by auto
    then have "set y \<subseteq> set xs" and "\<And>q. q \<in> set ys \<Longrightarrow> set q \<subseteq> set xs"
      by auto
    then show ?thesis using Cons.prems Cons by (fastforce split: if_splits)
  qed
qed

lemma join_inj:
  assumes "join [c] xs = join [c] ys" "length xs = length ys"
    and "\<forall>x \<in> set xs. c \<notin> set x" "\<forall>y \<in> set ys. c \<notin> set y"
  shows "xs = ys"
proof (cases "xs = []")
  case True
  then show ?thesis using assms(2) by simp
next
  case False
  then have "ys \<noteq> []" using assms(2) by auto
  then show ?thesis using False assms by (metis split_join)
qed

lemma set_join: "set (join sep xs) \<subseteq> set sep \<union> (\<Union>x \<in> set xs. set x)"
  by (induction sep xs rule: join.induct) auto

text \<open>\<open>strings.Cut(s, sep)\<close> for a separator of one byte: before, after, found.\<close>

fun cut_chr :: "char \<Rightarrow> string \<Rightarrow> string \<times> string \<times> bool" where
  "cut_chr c [] = ([], [], False)"
| "cut_chr c (x # xs) =
     (if x = c then ([], xs, True)
      else (case cut_chr c xs of (a, b, ok) \<Rightarrow> (x # a, b, ok)))"

lemma cut_chr_before: "fst (cut_chr c s) = takeWhile (\<lambda>x. x \<noteq> c) s"
  by (induction s) (auto split: prod.splits)

lemma cut_chr_found: "snd (snd (cut_chr c s)) = (c \<in> set s)"
  by (induction s) (auto split: prod.splits)

lemma cut_chr_append: "c \<notin> set k \<Longrightarrow> cut_chr c (k @ c # r) = (k, r, True)"
  by (induction k) auto

text \<open>\<open>strings.HasPrefix\<close>, \<open>strings.Index\<close>, \<open>strings.Contains\<close>.\<close>

fun has_prefix :: "string \<Rightarrow> string \<Rightarrow> bool" where
  "has_prefix s [] = True"
| "has_prefix [] (p # ps) = False"
| "has_prefix (x # xs) (p # ps) = (x = p \<and> has_prefix xs ps)"

lemma has_prefix_iff: "has_prefix s p \<longleftrightarrow> (\<exists>r. s = p @ r)"
  by (induction s p rule: has_prefix.induct) auto

lemma has_prefix_append [simp]: "has_prefix (p @ r) p"
  by (auto simp: has_prefix_iff)

text \<open>\<open>strings.ReplaceAll(s, x, "")\<close> for one byte \<open>x\<close>, and \<open>strings.Replace(s, old, new, 1)\<close>.\<close>

definition remove_chr :: "char \<Rightarrow> string \<Rightarrow> string" where
  "remove_chr c = filter (\<lambda>x. x \<noteq> c)"

fun replace_first :: "string \<Rightarrow> string \<Rightarrow> string \<Rightarrow> string" where
  "replace_first old new [] = (if old = [] then new else [])"
| "replace_first old new (x # xs) =
     (if has_prefix (x # xs) old then new @ drop (length old) (x # xs)
      else x # replace_first old new xs)"

definition trim_chr :: "char \<Rightarrow> string \<Rightarrow> string" where
  "trim_chr c s = rev (dropWhile (\<lambda>x. x = c) (rev (dropWhile (\<lambda>x. x = c) s)))"

lemma rev_dropWhile_rev_last:
  "xs = rev (dropWhile P (rev ys)) \<Longrightarrow> xs \<noteq> [] \<Longrightarrow> \<not> P (last xs)"
  by (metis hd_dropWhile last_rev rev_is_Nil_conv)

lemma set_trim_chr: "set (trim_chr c s) \<subseteq> set s"
  unfolding trim_chr_def
  by (metis set_dropWhileD set_rev subsetI)

section \<open>Numbers\<close>

definition digit_chr :: "nat \<Rightarrow> char" where
  "digit_chr d = char_of (48 + d)"

definition is_digit :: "char \<Rightarrow> bool" where
  "is_digit c \<longleftrightarrow> 48 \<le> (of_char c :: nat) \<and> (of_char c :: nat) \<le> 57"

definition digit_val :: "char \<Rightarrow> nat" where
  "digit_val c = of_char c - 48"

text \<open>Decimal text of a number, as \<open>fmt.Sprint\<close> and \<open>%d\<close> write it.\<close>

fun nat_str :: "nat \<Rightarrow> string" where
  "nat_str n = (if n < 10 then [digit_chr n] else nat_str (n div 10) @ [digit_chr (n mod 10)])"

declare nat_str.simps [simp del]

definition int_str :: "int \<Rightarrow> string" where
  "int_str i = (if i < 0 then CHR ''-'' # nat_str (nat (- i)) else nat_str (nat i))"

fun digits_val :: "nat \<Rightarrow> string \<Rightarrow> nat" where
  "digits_val acc [] = acc"
| "digits_val acc (c # cs) = digits_val (10 * acc + digit_val c) cs"

lemma digits_val_append: "digits_val acc (xs @ [c]) = 10 * digits_val acc xs + digit_val c"
  by (induction xs arbitrary: acc) auto

lemma digit_chr_digit: "d < 10 \<Longrightarrow> is_digit (digit_chr d) \<and> digit_val (digit_chr d) = d"
  by (simp add: is_digit_def digit_val_def digit_chr_def)

lemma nat_str_digits: "c \<in> set (nat_str n) \<Longrightarrow> is_digit c"
proof (induction n rule: nat_str.induct)
  case (1 n)
  show ?case
  proof (cases "n < 10")
    case True
    then show ?thesis using "1.prems" by (simp add: nat_str.simps [of n] digit_chr_digit)
  next
    case False
    then show ?thesis using 1 by (auto simp: nat_str.simps [of n] digit_chr_digit)
  qed
qed

lemma nat_str_nonempty [simp]: "nat_str n \<noteq> []"
  by (subst nat_str.simps) simp

lemma digits_val_nat_str [simp]: "digits_val 0 (nat_str n) = n"
proof (induction n rule: nat_str.induct)
  case (1 n)
  show ?case
  proof (cases "n < 10")
    case True
    then show ?thesis by (simp add: nat_str.simps [of n] digit_chr_digit)
  next
    case False
    then show ?thesis
      using 1 by (simp add: nat_str.simps [of n] digits_val_append digit_chr_digit)
  qed
qed

lemma nat_str_inj [simp]: "nat_str m = nat_str n \<longleftrightarrow> m = n"
  by (metis digits_val_nat_str)

lemma digit_not_special:
  "is_digit c \<Longrightarrow> c \<noteq> CHR ''.'' \<and> c \<noteq> CHR ''-'' \<and> c \<noteq> CHR ''+'' \<and> c \<noteq> CHR ''/'' \<and> c \<noteq> CHR '':''
     \<and> c \<noteq> CHR 0x0A \<and> c \<noteq> CHR '' '' \<and> c \<noteq> CHR 0x1F \<and> c \<noteq> CHR '','' \<and> c \<noteq> CHR '';''"
  by (auto simp: is_digit_def)

text \<open>
  \<open>strconv.Atoi\<close> as the callers use it, with the error dropped: text that is not a number reads as
  0, a number outside the 64-bit range as the nearest bound.
\<close>

definition max_int :: int where "max_int = 2 ^ 63 - 1"
definition min_int :: int where "min_int = - (2 ^ 63)"

definition atoi_digits :: "string \<Rightarrow> nat option" where
  "atoi_digits s = (if s \<noteq> [] \<and> list_all is_digit s then Some (digits_val 0 s) else None)"

definition atoi_opt :: "string \<Rightarrow> int option" where
  "atoi_opt s =
     (case s of
        [] \<Rightarrow> None
      | c # r \<Rightarrow>
          if c = CHR ''-'' then map_option (\<lambda>n. - int n) (atoi_digits r)
          else if c = CHR ''+'' then map_option int (atoi_digits r)
          else map_option int (atoi_digits s))"

definition atoi :: "string \<Rightarrow> int" where
  "atoi s = (case atoi_opt s of None \<Rightarrow> 0 | Some v \<Rightarrow> max min_int (min max_int v))"

lemma atoi_range: "min_int \<le> atoi s \<and> atoi s \<le> max_int"
  by (auto simp: atoi_def min_int_def max_int_def split: option.splits)

lemma atoi_nat_str:
  assumes "int n \<le> max_int"
  shows "atoi (nat_str n) = int n"
proof -
  obtain c r where s: "nat_str n = c # r" by (meson neq_Nil_conv nat_str_nonempty)
  then have c: "is_digit c" using nat_str_digits [of c n] by simp
  have all: "list_all is_digit (nat_str n)" by (auto simp: list_all_iff nat_str_digits)
  have "atoi_opt (nat_str n) = Some (int n)"
    using s c all digit_not_special [OF c] digits_val_nat_str [of n]
    by (simp add: atoi_opt_def atoi_digits_def)
  then show ?thesis using assms by (simp add: atoi_def min_int_def max_int_def)
qed

section \<open>UTF-8\<close>

definition byte :: "char \<Rightarrow> nat" where
  "byte c = of_char c"

definition in_range :: "nat \<Rightarrow> nat \<Rightarrow> char \<Rightarrow> bool" where
  "in_range lo hi c \<longleftrightarrow> lo \<le> byte c \<and> byte c \<le> hi"

abbreviation rune_error :: nat where "rune_error \<equiv> 0xFFFD"

text \<open>\<open>utf8.DecodeRune\<close> on a non-empty string: the rune and how many bytes it takes.\<close>

definition decode_rune :: "string \<Rightarrow> nat \<times> nat" where
  "decode_rune s =
     (case s of
        [] \<Rightarrow> (rune_error, 0)
      | c0 # r \<Rightarrow>
          let b0 = byte c0 in
          if b0 < 0x80 then (b0, 1)
          else if 0xC2 \<le> b0 \<and> b0 \<le> 0xDF then
            (case r of
               c1 # _ \<Rightarrow> if in_range 0x80 0xBF c1 then ((b0 - 0xC0) * 64 + (byte c1 - 0x80), 2)
                         else (rune_error, 1)
             | _ \<Rightarrow> (rune_error, 1))
          else if 0xE0 \<le> b0 \<and> b0 \<le> 0xEF then
            (case r of
               c1 # c2 # _ \<Rightarrow>
                 if in_range (if b0 = 0xE0 then 0xA0 else 0x80) (if b0 = 0xED then 0x9F else 0xBF) c1
                    \<and> in_range 0x80 0xBF c2
                 then ((b0 - 0xE0) * 4096 + (byte c1 - 0x80) * 64 + (byte c2 - 0x80), 3)
                 else (rune_error, 1)
             | _ \<Rightarrow> (rune_error, 1))
          else if 0xF0 \<le> b0 \<and> b0 \<le> 0xF4 then
            (case r of
               c1 # c2 # c3 # _ \<Rightarrow>
                 if in_range (if b0 = 0xF0 then 0x90 else 0x80) (if b0 = 0xF4 then 0x8F else 0xBF) c1
                    \<and> in_range 0x80 0xBF c2 \<and> in_range 0x80 0xBF c3
                 then ((b0 - 0xF0) * 262144 + (byte c1 - 0x80) * 4096 + (byte c2 - 0x80) * 64
                         + (byte c3 - 0x80), 4)
                 else (rune_error, 1)
             | _ \<Rightarrow> (rune_error, 1))
          else (rune_error, 1))"

lemma decode_rune_width:
  "s \<noteq> [] \<Longrightarrow> 1 \<le> snd (decode_rune s) \<and> snd (decode_rune s) \<le> length s"
  by (auto simp: decode_rune_def Let_def split: list.splits)

lemma decode_rune_ascii: "byte c < 0x80 \<Longrightarrow> decode_rune (c # r) = (byte c, 1)"
  by (simp add: decode_rune_def)

text \<open>The runes of a string with the bytes each came from (\<open>for _, r := range s\<close>).\<close>

function runes :: "string \<Rightarrow> (nat \<times> string) list" where
  "runes s =
     (if s = [] then []
      else (fst (decode_rune s), take (snd (decode_rune s)) s) # runes (drop (snd (decode_rune s)) s))"
  by pat_completeness auto
termination
  by (relation "measure length") (use decode_rune_width in \<open>fastforce+\<close>)

declare runes.simps [simp del]

lemma runes_Nil [simp]: "runes [] = []"
  by (simp add: runes.simps)

lemma runes_concat [simp]: "concat (map snd (runes s)) = s"
proof (induction s rule: runes.induct)
  case (1 s)
  then show ?case
    by (cases "s = []") (simp_all add: runes.simps [of s])
qed

definition ascii :: "string \<Rightarrow> bool" where
  "ascii s \<longleftrightarrow> list_all (\<lambda>c. byte c < 0x80) s"

lemma runes_Cons_ascii [simp]: "byte c < 0x80 \<Longrightarrow> runes (c # r) = (byte c, [c]) # runes r"
  by (subst runes.simps) (simp add: decode_rune_ascii)

lemma runes_ascii: "ascii s \<Longrightarrow> runes s = map (\<lambda>c. (byte c, [c])) s"
  by (induction s) (auto simp: ascii_def)

definition rune_count :: "string \<Rightarrow> nat" where
  "rune_count s = length (runes s)"

lemma rune_count_ascii: "ascii s \<Longrightarrow> rune_count s = length s"
  by (simp add: rune_count_def runes_ascii)

lemma rune_count_le_length: "rune_count s \<le> length s"
proof (induction s rule: runes.induct)
  case (1 s)
  show ?case
  proof (cases "s = []")
    case True
    then show ?thesis by (simp add: rune_count_def)
  next
    case False
    with 1 have "rune_count (drop (snd (decode_rune s)) s) \<le> length s - snd (decode_rune s)"
      by simp
    then show ?thesis
      using False decode_rune_width [OF False] by (simp add: rune_count_def runes.simps [of s]) linarith
  qed
qed

text \<open>\<open>utf8.ValidString\<close>; a text column of PostgreSQL accepts exactly the valid strings.\<close>

definition valid_utf8 :: "string \<Rightarrow> bool" where
  "valid_utf8 s \<longleftrightarrow> list_all (\<lambda>(r, bs). \<not> (r = rune_error \<and> length bs = 1)) (runes s)"

lemma valid_utf8_ascii: "ascii s \<Longrightarrow> valid_utf8 s"
  by (induction s) (auto simp: ascii_def valid_utf8_def)

section \<open>White space\<close>

text \<open>\<open>unicode.IsSpace\<close>.\<close>

definition space_rune :: "nat \<Rightarrow> bool" where
  "space_rune r \<longleftrightarrow>
     (9 \<le> r \<and> r \<le> 13) \<or> r = 0x20 \<or> r = 0x85 \<or> r = 0xA0 \<or> r = 0x1680 \<or> (0x2000 \<le> r \<and> r \<le> 0x200A)
     \<or> r = 0x2028 \<or> r = 0x2029 \<or> r = 0x202F \<or> r = 0x205F \<or> r = 0x3000"

definition trim_space :: "string \<Rightarrow> string" where
  "trim_space s =
     concat (map snd (rev (dropWhile (space_rune \<circ> fst)
       (rev (dropWhile (space_rune \<circ> fst) (runes s))))))"

lemma set_concat_subset: "set xs \<subseteq> set ys \<Longrightarrow> set (concat xs) \<subseteq> set (concat ys)"
  by auto

lemma set_trim_space: "set (trim_space s) \<subseteq> set s"
proof -
  let ?t = "rev (dropWhile (space_rune \<circ> fst) (rev (dropWhile (space_rune \<circ> fst) (runes s))))"
  have "set ?t \<subseteq> set (runes s)"
    by (metis set_dropWhileD set_rev subsetI)
  then have "set (concat (map snd ?t)) \<subseteq> set (concat (map snd (runes s)))"
    by (intro set_concat_subset) auto
  then show ?thesis by (simp add: trim_space_def)
qed

lemma trim_space_Nil [simp]: "trim_space [] = []"
  by (simp add: trim_space_def)

lemma concat_map_single: "concat (map (\<lambda>c. [c]) s) = s"
  by (induction s) auto

lemma dropWhile_map: "dropWhile P (map f xs) = map f (dropWhile (P \<circ> f) xs)"
  by (induction xs) auto

lemma trim_space_ascii:
  assumes "ascii s"
  shows "trim_space s =
    rev (dropWhile (space_rune \<circ> byte) (rev (dropWhile (space_rune \<circ> byte) s)))"
  by (simp add: trim_space_def runes_ascii [OF assms] dropWhile_map rev_map comp_def
      concat_map_single)

text \<open>\<open>strings.Fields\<close>: the maximal runs of non-space runes.\<close>

fun fields_aux :: "(nat \<times> string) list \<Rightarrow> string \<Rightarrow> string list" where
  "fields_aux [] acc = (if acc = [] then [] else [acc])"
| "fields_aux ((r, bs) # rest) acc =
     (if space_rune r then (if acc = [] then fields_aux rest [] else acc # fields_aux rest [])
      else fields_aux rest (acc @ bs))"

definition fields :: "string \<Rightarrow> string list" where
  "fields s = fields_aux (runes s) []"

lemma fields_aux_nonempty:
  "\<forall>(r, bs) \<in> set rs. bs \<noteq> [] \<Longrightarrow> f \<in> set (fields_aux rs acc) \<Longrightarrow> f \<noteq> []"
  by (induction rs acc rule: fields_aux.induct) (auto split: if_splits)

section \<open>Hexadecimal\<close>

definition hex_digit :: "nat \<Rightarrow> char" where
  "hex_digit d = ''0123456789abcdef'' ! d"

definition hex_encode :: "string \<Rightarrow> string" where
  "hex_encode bs = concat (map (\<lambda>c. [hex_digit (byte c div 16), hex_digit (byte c mod 16)]) bs)"

lemma byte_less: "byte c < 256"
  by (simp add: byte_def)

lemma length_hex_encode [simp]: "length (hex_encode bs) = 2 * length bs"
  by (induction bs) (auto simp: hex_encode_def)

definition hex_chars :: string where
  "hex_chars = ''0123456789abcdef''"

lemma hex_digit_in: "d < 16 \<Longrightarrow> hex_digit d \<in> set hex_chars"
  unfolding hex_digit_def hex_chars_def by (rule nth_mem) simp

lemma hex_digit_inj: "a < 16 \<Longrightarrow> b < 16 \<Longrightarrow> hex_digit a = hex_digit b \<longleftrightarrow> a = b"
  unfolding hex_digit_def by (rule nth_eq_iff_index_eq) simp_all

lemma byte_inj: "byte a = byte b \<longleftrightarrow> a = b"
  by (simp add: byte_def)

lemma byte_nibbles: "byte a div 16 = byte b div 16 \<and> byte a mod 16 = byte b mod 16 \<longleftrightarrow> a = b"
  by (metis byte_inj div_mult_mod_eq)

lemma hex_encode_inj [simp]: "hex_encode xs = hex_encode ys \<longleftrightarrow> xs = ys"
proof (induction xs arbitrary: ys)
  case Nil
  show ?case by (cases ys) (auto simp: hex_encode_def)
next
  case (Cons x xs)
  show ?case
  proof (cases ys)
    case Nil
    then show ?thesis by (simp add: hex_encode_def)
  next
    case ys: (Cons y zs)
    have "byte x div 16 < 16" "byte y div 16 < 16" using byte_less [of x] byte_less [of y] by auto
    then show ?thesis
      using ys Cons.IH [of zs] byte_nibbles [of x y]
      by (auto simp: hex_encode_def hex_digit_inj)
  qed
qed

lemma set_hex_encode: "set (hex_encode bs) \<subseteq> set hex_chars"
proof
  fix x assume "x \<in> set (hex_encode bs)"
  then obtain c where "x = hex_digit (byte c div 16) \<or> x = hex_digit (byte c mod 16)"
    by (auto simp: hex_encode_def)
  then show "x \<in> set hex_chars"
    using byte_less [of c] by (auto intro!: hex_digit_in)
qed

end
