(* ===== verification/RateLimit.thy ===== *)
theory RateLimit
  imports GoStd "HOL-Library.AList"
begin

text \<open>
  Everything in the platform that says "not so fast": the login limiter
  (\<open>backend/internal/ratelimit/ratelimit.go\<close>), the chat module's message limiter and typing floor
  (\<open>modules/chat/service/internal/api/limits.go\<close>, \<open>ws.go\<close>) and the once-a-minute throttle of the
  modules' system log (\<open>internal/dbx/systemlog.go\<close>).  Time is an argument of each operation.

  The two limiters are sliding windows over recorded instants.  The locale \<open>sliding_window\<close> states the
  one law both rely on, that an instant which has left the window never comes back, and derives once
  that forgetting old instants early does not change what the window contains.
\<close>

section \<open>The contract of a sliding window\<close>

locale sliding_window =
  fixes live :: "time \<Rightarrow> time \<Rightarrow> bool"
  assumes live_antimono: "now \<le> now' \<Longrightarrow> live now' t \<Longrightarrow> live now t"
begin

lemma forget_old:
  "now \<le> now' \<Longrightarrow> filter (live now') (filter (live now) ts) = filter (live now') ts"
  using live_antimono by (auto simp: filter_filter intro!: filter_cong)

lemma forget_old_eq:
  assumes "filter (live now) ts = filter (live now) us" "now \<le> now'"
  shows "filter (live now') ts = filter (live now') us"
  by (metis assms forget_old)

text \<open>
  A store that keeps, of everything recorded, a list with the same live part keeps doing so when it
  forgets what has left the window and records the current instant.
\<close>

lemma record_live:
  assumes "filter (live t) kept = filter (live t) all" "t \<le> now"
  shows "filter (live now) (filter (live now) kept @ [now]) = filter (live now) (all @ [now])"
  using forget_old_eq [OF assms] by simp

end

section \<open>The login limiter\<close>

record limiter =
  attempts :: "string \<Rightarrow> time list"
  lim_max :: int
  lim_window :: time

definition new_limiter :: "int \<Rightarrow> time \<Rightarrow> limiter" where
  "new_limiter m w = \<lparr>attempts = (\<lambda>_. []), lim_max = m, lim_window = w\<rparr>"

definition after_cutoff :: "time \<Rightarrow> time \<Rightarrow> time \<Rightarrow> bool" where
  "after_cutoff w now t \<longleftrightarrow> now - w < t"

definition lim_prune :: "limiter \<Rightarrow> time \<Rightarrow> string \<Rightarrow> time list" where
  "lim_prune l now key = filter (after_cutoff (lim_window l) now) (attempts l key)"

definition allowed :: "limiter \<Rightarrow> time \<Rightarrow> string \<Rightarrow> bool \<times> limiter" where
  "allowed l now key =
     (let kept = lim_prune l now key
      in (int (length kept) < lim_max l, l\<lparr>attempts := (attempts l)(key := kept)\<rparr>))"

definition record_failure :: "limiter \<Rightarrow> time \<Rightarrow> string \<Rightarrow> limiter" where
  "record_failure l now key = l\<lparr>attempts := (attempts l)(key := lim_prune l now key @ [now])\<rparr>"

definition lim_reset :: "limiter \<Rightarrow> string \<Rightarrow> limiter" where
  "lim_reset l key = l\<lparr>attempts := (attempts l)(key := [])\<rparr>"

interpretation win: sliding_window "after_cutoff w" for w
  by unfold_locales (auto simp: after_cutoff_def)

text \<open>
  What the limiter promises, without saying how it stores anything: the failures of a key since its last
  success, of which those within the window count.
\<close>

datatype lim_op = Ask string | Fail string | Success string

fun op_key :: "lim_op \<Rightarrow> string" where
  "op_key (Ask k) = k" | "op_key (Fail k) = k" | "op_key (Success k) = k"

fun failures_since_success :: "(time \<times> lim_op) list \<Rightarrow> string \<Rightarrow> time list" where
  "failures_since_success [] key = []"
| "failures_since_success ((t, op) # earlier) key =
     (if op_key op \<noteq> key then failures_since_success earlier key
      else case op of Ask _ \<Rightarrow> failures_since_success earlier key
         | Fail _ \<Rightarrow> failures_since_success earlier key @ [t]
         | Success _ \<Rightarrow> [])"

fun lim_step :: "limiter \<Rightarrow> time \<times> lim_op \<Rightarrow> limiter" where
  "lim_step l (t, Ask k) = snd (allowed l t k)"
| "lim_step l (t, Fail k) = record_failure l t k"
| "lim_step l (t, Success k) = lim_reset l k"

text \<open>The limiter after a history, newest operation first.\<close>

fun lim_run :: "int \<Rightarrow> time \<Rightarrow> (time \<times> lim_op) list \<Rightarrow> limiter" where
  "lim_run m w [] = new_limiter m w"
| "lim_run m w (e # earlier) = lim_step (lim_run m w earlier) e"

definition clock_ok :: "(time \<times> 'a) list \<Rightarrow> bool" where
  "clock_ok hist \<longleftrightarrow> sorted_wrt (\<ge>) (map fst hist)"

lemma clock_ok_Cons:
  "clock_ok ((t, x) # hist) \<longleftrightarrow> clock_ok hist \<and> (\<forall>e \<in> set hist. fst e \<le> t)"
  by (auto simp: clock_ok_def)

lemma lim_run_config [simp]:
  "lim_max (lim_run m w hist) = m \<and> lim_window (lim_run m w hist) = w"
proof (induction hist)
  case (Cons e hist)
  obtain t p where "e = (t, p)" by fastforce
  with Cons show ?case
    by (cases p) (simp_all add: allowed_def record_failure_def lim_reset_def Let_def)
qed (simp add: new_limiter_def)

text \<open>The stored instants and the promised ones have the same live part, now and later.\<close>

lemma lim_run_live:
  assumes "clock_ok hist" "\<forall>e \<in> set hist. fst e \<le> now"
  shows "filter (after_cutoff w now) (attempts (lim_run m w hist) key) =
    filter (after_cutoff w now) (failures_since_success hist key)"
  using assms
proof (induction hist arbitrary: now)
  case Nil
  then show ?case by (simp add: new_limiter_def)
next
  case (Cons e hist)
  obtain t p where e: "e = (t, p)" by fastforce
  have clock: "clock_ok hist" "\<forall>e \<in> set hist. fst e \<le> t" "t \<le> now"
    using Cons.prems e by (auto simp: clock_ok_Cons)
  note IH = Cons.IH [OF clock(1,2)]
  have now: "filter (after_cutoff w now) (attempts (lim_run m w hist) key) =
      filter (after_cutoff w now) (failures_since_success hist key)"
    by (rule win.forget_old_eq [OF IH clock(3)])
  show ?case
  proof (cases p)
    case (Ask k)
    then show ?thesis
      using e now win.forget_old [OF clock(3)] by (simp add: allowed_def lim_prune_def Let_def)
  next
    case (Fail k)
    then show ?thesis
      using e now win.forget_old [OF clock(3)] by (simp add: record_failure_def lim_prune_def)
  next
    case (Success k)
    then show ?thesis using e now by (simp add: lim_reset_def)
  qed
qed

text \<open>C7: The limiter refines its contract: after any sequence of questions, failures and successes, from
  any keys, a key is allowed exactly when fewer than the maximum of its failures since its last success
  lie within the window.\<close>

theorem limiter_refines:
  assumes "clock_ok hist" "\<forall>e \<in> set hist. fst e \<le> now"
  shows "fst (allowed (lim_run m w hist) now key) \<longleftrightarrow>
    int (length (filter (\<lambda>t. now - t < w) (failures_since_success hist key))) < m"
proof -
  have live: "after_cutoff w now = (\<lambda>t. now - t < w)" by (auto simp: after_cutoff_def)
  show ?thesis
    using lim_run_live [OF assms, of w m key]
    by (simp add: allowed_def lim_prune_def Let_def live)
qed

theorem limiter_refines_witness:
  "\<not> fst (allowed (lim_run 2 100 [(8, Fail ''a''), (5, Fail ''b''), (3, Fail ''a'')]) 9 ''a'')
   \<and> fst (allowed (lim_run 2 100 [(8, Fail ''a''), (5, Fail ''b''), (3, Fail ''a'')]) 9 ''b'')"
  using limiter_refines [of "[(8, Fail ''a''), (5, Fail ''b''), (3, Fail ''a'')]" 9 2 100]
  by (simp add: clock_ok_def)

section \<open>The chat message limiter\<close>

definition rate_limit_max :: nat where "rate_limit_max = 20"
definition rate_limit_window :: time where "rate_limit_window = 10 * second"

type_synonym chat_limiter = "string \<Rightarrow> time list"

definition within_window :: "time \<Rightarrow> time \<Rightarrow> bool" where
  "within_window now t \<longleftrightarrow> now - t < rate_limit_window"

definition chat_allow :: "chat_limiter \<Rightarrow> string \<Rightarrow> time \<Rightarrow> bool \<times> chat_limiter" where
  "chat_allow sent user now =
     (let recent = filter (within_window now) (sent user)
      in if rate_limit_max \<le> length recent then (False, sent(user := recent))
         else (True, sent(user := recent @ [now])))"

interpretation chat_win: sliding_window within_window
  by unfold_locales (auto simp: within_window_def)

text \<open>A run of requests, newest first, and the instants at which one user's requests were let through.\<close>

fun chat_run :: "(time \<times> string) list \<Rightarrow> chat_limiter" where
  "chat_run [] = (\<lambda>_. [])"
| "chat_run ((t, u) # earlier) = snd (chat_allow (chat_run earlier) u t)"

fun accepted :: "(time \<times> string) list \<Rightarrow> string \<Rightarrow> time list" where
  "accepted [] user = []"
| "accepted ((t, u) # earlier) user =
     (if u = user \<and> fst (chat_allow (chat_run earlier) u t) then accepted earlier user @ [t]
      else accepted earlier user)"

lemma chat_run_live:
  assumes "clock_ok hist" "\<forall>e \<in> set hist. fst e \<le> now"
  shows "filter (within_window now) (chat_run hist user) = filter (within_window now) (accepted hist user)"
  using assms
proof (induction hist arbitrary: now)
  case Nil
  then show ?case by simp
next
  case (Cons e hist)
  obtain t u where e: "e = (t, u)" by fastforce
  have clock: "clock_ok hist" "\<forall>e \<in> set hist. fst e \<le> t" "t \<le> now"
    using Cons.prems e by (auto simp: clock_ok_Cons)
  have now: "filter (within_window now) (chat_run hist user) = filter (within_window now) (accepted hist user)"
    by (rule chat_win.forget_old_eq [OF Cons.IH [OF clock(1,2)] clock(3)])
  then show ?case
    using e chat_win.forget_old [OF clock(3)] by (auto simp: chat_allow_def Let_def)
qed

lemma accepted_times: "t \<in> set (accepted hist user) \<Longrightarrow> t \<in> fst ` set hist"
  by (induction hist user rule: accepted.induct) (auto split: if_splits)

text \<open>However the requests of all users interleave, no user gets more than 20 messages through in any
  stretch of 10 seconds.\<close>

theorem chat_rate_bounded:
  assumes "clock_ok hist"
  shows "length (filter (\<lambda>t. x \<le> t \<and> t < x + rate_limit_window) (accepted hist user)) \<le> rate_limit_max"
  using assms
proof (induction hist)
  case Nil
  then show ?case by simp
next
  case (Cons e hist)
  obtain t u where e: "e = (t, u)" by fastforce
  let ?in = "\<lambda>t. x \<le> t \<and> t < x + rate_limit_window"
  have clock: "clock_ok hist" "\<forall>e \<in> set hist. fst e \<le> t"
    using Cons.prems e by (auto simp: clock_ok_Cons)
  note IH = Cons.IH [OF clock(1)]
  show ?case
  proof (cases "u = user \<and> fst (chat_allow (chat_run hist) u t) \<and> ?in t")
    case True
    have "length (filter (within_window t) (chat_run hist user)) < rate_limit_max"
      using True by (auto simp: chat_allow_def Let_def split: if_splits)
    then have "length (filter (within_window t) (accepted hist user)) < rate_limit_max"
      by (simp add: chat_run_live [OF clock])
    moreover have "length (filter ?in (accepted hist user)) \<le>
        length (filter (within_window t) (accepted hist user))"
      using True by (intro length_filter_mono) (auto simp: within_window_def)
    ultimately show ?thesis using True e by simp
  next
    case False
    then show ?thesis using IH e by auto
  qed
qed

theorem chat_rate_bounded_witness:
  "length (filter (\<lambda>t. 0 \<le> t \<and> t < 0 + rate_limit_window)
     (accepted [(7, ''ann''), (6, ''bob''), (5, ''ann'')] ''ann'')) \<le> rate_limit_max"
  by (rule chat_rate_bounded) (simp add: clock_ok_def)

section \<open>The floor under typing notices\<close>

definition typing_min_gap :: time where "typing_min_gap = 1500 * millisecond"

definition typing_allowed :: "(string \<rightharpoonup> time) \<Rightarrow> string \<Rightarrow> time \<Rightarrow> bool \<times> (string \<rightharpoonup> time)" where
  "typing_allowed typing_at user now =
     (case typing_at user of
        Some t \<Rightarrow> if now - t < typing_min_gap then (False, typing_at) else (True, typing_at(user \<mapsto> now))
      | None \<Rightarrow> (True, typing_at(user \<mapsto> now)))"

lemma typing_allowed_gap:
  "fst (typing_allowed m user now) \<Longrightarrow> m user = Some t \<Longrightarrow> typing_min_gap \<le> now - t"
  by (auto simp: typing_allowed_def split: if_splits)

lemma typing_allowed_state:
  "snd (typing_allowed m user now) =
     (if fst (typing_allowed m user now) then m(user \<mapsto> now) else m)"
  by (auto simp: typing_allowed_def split: option.splits)

section \<open>The system log throttle of the modules\<close>

record sys_throttle =
  sys_recent :: "(string \<times> time) list"
  sys_written :: "(string \<times> string) list"

definition sys_clip :: "string \<Rightarrow> string" where
  "sys_clip msg = (if length msg > 2000 then take 2000 msg else msg)"

definition sys_key :: "string \<Rightarrow> string \<Rightarrow> string" where
  "sys_key level msg = level @ ''|'' @ msg"

text \<open>
  \<open>SystemLog\<close>: \<open>enabled\<close> says whether \<open>EnableSystemLog\<close> has set a pool, \<open>f\<close> whether the insert fails.
  The message counts as recent before the insert is tried.
\<close>

definition system_log ::
  "bool \<Rightarrow> faults \<Rightarrow> time \<Rightarrow> sys_throttle \<Rightarrow> string \<Rightarrow> string \<Rightarrow> sys_throttle" where
  "system_log enabled f now s level msg0 =
     (let msg = sys_clip msg0; key = sys_key level msg in
      case map_of (sys_recent s) key of
        Some t \<Rightarrow> if now - t < minute then s else
          let base = if length (sys_recent s) > 200 then [] else AList.delete key (sys_recent s) in
          s\<lparr>sys_recent := (key, now) # base,
            sys_written := (if enabled \<and> \<not> f ''insert'' then (level, msg) # sys_written s else sys_written s)\<rparr>
      | None \<Rightarrow>
          let base = if length (sys_recent s) > 200 then [] else sys_recent s in
          s\<lparr>sys_recent := (key, now) # base,
            sys_written := (if enabled \<and> \<not> f ''insert'' then (level, msg) # sys_written s else sys_written s)\<rparr>)"

end
