(* ===== verification/GoTime.thy ===== *)
theory GoTime
  imports GoStd
begin

text \<open>
  UTC calendar time as the sources print it: the civil date of a day number counted from 1970-01-01
  and the layouts \<open>time.RFC3339\<close> and \<open>time.RFC3339Nano\<close>.  Instants are microseconds since the
  epoch, the precision PostgreSQL keeps.
\<close>

definition leap_year :: "nat \<Rightarrow> bool" where
  "leap_year y \<longleftrightarrow> (4 dvd y \<and> \<not> 100 dvd y) \<or> 400 dvd y"

definition year_days :: "nat \<Rightarrow> nat" where
  "year_days y = (if leap_year y then 366 else 365)"

lemma year_days_pos: "365 \<le> year_days y"
  by (simp add: year_days_def)

text \<open>The year a day falls in, counting from day 0 of year \<open>y\<close>, and its day within that year.\<close>

function year_of :: "nat \<Rightarrow> nat \<Rightarrow> nat \<times> nat" where
  "year_of y d = (if d < year_days y then (y, d) else year_of (Suc y) (d - year_days y))"
  by pat_completeness auto
termination
proof (relation "measure snd")
  fix y d :: nat
  assume "\<not> d < year_days y"
  then show "((Suc y, d - year_days y), (y, d)) \<in> measure snd"
    using year_days_pos [of y] by simp
qed simp

declare year_of.simps [simp del]

lemma year_of_stop: "d < year_days y \<Longrightarrow> year_of y d = (y, d)"
  by (simp add: year_of.simps [of y d])

lemma year_of_step: "\<not> d < year_days y \<Longrightarrow> year_of y d = year_of (Suc y) (d - year_days y)"
  by (simp add: year_of.simps [of y d])

lemmas year_of_eval = year_of_stop year_of_step year_days_def leap_year_def

definition month_days :: "nat \<Rightarrow> nat list" where
  "month_days y = [31, if leap_year y then 29 else 28, 31, 30, 31, 30, 31, 31, 30, 31, 30, 31]"

fun month_of :: "nat list \<Rightarrow> nat \<Rightarrow> nat \<Rightarrow> nat \<times> nat" where
  "month_of [] m d = (m, d)"
| "month_of (l # ls) m d = (if d < l then (m, d) else month_of ls (Suc m) (d - l))"

text \<open>Year, month and day of the month, the last two counted from 1.\<close>

definition civil :: "nat \<Rightarrow> nat \<times> nat \<times> nat" where
  "civil day =
     (let (y, doy) = year_of 1970 day; (m, d) = month_of (month_days y) 1 doy in (y, m, Suc d))"

lemma year_of_bound: "snd (year_of y d) < year_days (fst (year_of y d))"
proof (induction y d rule: year_of.induct)
  case (1 y d)
  then show ?case by (cases "d < year_days y") (simp_all add: year_of.simps [of y d])
qed

lemma year_of_start: "y \<le> fst (year_of y d)"
proof (induction y d rule: year_of.induct)
  case (1 y d)
  then show ?case by (cases "d < year_days y") (simp_all add: year_of.simps [of y d])
qed

text \<open>The year and the day of the year determine the day.\<close>

lemma year_of_sum: "(\<Sum>k = y..<fst (year_of y d). year_days k) + snd (year_of y d) = d"
proof (induction y d rule: year_of.induct)
  case (1 y d)
  show ?case
  proof (cases "d < year_days y")
    case True
    then show ?thesis by (simp add: year_of.simps [of y d])
  next
    case False
    have "Suc y \<le> fst (year_of (Suc y) (d - year_days y))" by (rule year_of_start)
    then show ?thesis
      using False 1 by (simp add: year_of.simps [of y d] sum.atLeast_Suc_lessThan)
  qed
qed

lemma year_of_inj: "year_of y d = year_of y d' \<Longrightarrow> d = d'"
  by (metis year_of_sum)

definition pad2 :: "nat \<Rightarrow> string" where
  "pad2 n = [digit_chr (n div 10 mod 10), digit_chr (n mod 10)]"

definition pad4 :: "nat \<Rightarrow> string" where
  "pad4 n = (if n < 10000 then [digit_chr (n div 1000), digit_chr (n div 100 mod 10)] @ pad2 (n mod 100)
             else nat_str n)"

definition pad6 :: "nat \<Rightarrow> string" where
  "pad6 n = pad2 (n div 10000) @ pad2 (n div 100 mod 100) @ pad2 (n mod 100)"

text \<open>The fraction of the second in the layout \<open>.999999999\<close>: trailing zeros dropped, nothing for 0.\<close>

definition fraction :: "nat \<Rightarrow> string" where
  "fraction us = (if us = 0 then []
     else CHR ''.'' # rev (dropWhile (\<lambda>c. c = CHR ''0'') (rev (pad6 us))))"

definition date_str :: "nat \<Rightarrow> string" where
  "date_str day = (case civil day of (y, m, d) \<Rightarrow> pad4 y @ ''-'' @ pad2 m @ ''-'' @ pad2 d)"

definition clock_str :: "nat \<Rightarrow> string" where
  "clock_str sec = pad2 (sec div 3600) @ '':'' @ pad2 (sec div 60 mod 60) @ '':'' @ pad2 (sec mod 60)"

definition us_per_sec :: nat where "us_per_sec = 1000000"
definition us_per_day :: nat where "us_per_day = 86400 * us_per_sec"

definition rfc3339_nano :: "nat \<Rightarrow> string" where
  "rfc3339_nano t = date_str (t div us_per_day) @ ''T''
     @ clock_str (t mod us_per_day div us_per_sec) @ fraction (t mod us_per_sec) @ ''Z''"

definition rfc3339 :: "nat \<Rightarrow> string" where
  "rfc3339 t = date_str (t div us_per_day) @ ''T''
     @ clock_str (t mod us_per_day div us_per_sec) @ ''Z''"

lemma rfc3339_nonempty [simp]: "rfc3339 t \<noteq> []"
  by (simp add: rfc3339_def)

text \<open>Time stamps consist of digits and \<open>-:T.Z\<close>.\<close>

definition stamp_chr :: "char \<Rightarrow> bool" where
  "stamp_chr c \<longleftrightarrow> is_digit c \<or> c \<in> set ''-:T.Z''"

lemma pad2_digits: "c \<in> set (pad2 n) \<Longrightarrow> is_digit c"
  by (auto simp: pad2_def digit_chr_digit)

lemma pad4_digits: "c \<in> set (pad4 n) \<Longrightarrow> is_digit c"
  by (auto simp: pad4_def digit_chr_digit nat_str_digits dest: pad2_digits split: if_splits)

lemma pad6_digits: "c \<in> set (pad6 n) \<Longrightarrow> is_digit c"
  by (auto simp: pad6_def dest: pad2_digits)

lemma fraction_chars: "c \<in> set (fraction n) \<Longrightarrow> stamp_chr c"
  by (auto simp: fraction_def stamp_chr_def dest!: set_dropWhileD pad6_digits split: if_splits)

lemma rfc3339_nano_chars: "c \<in> set (rfc3339_nano t) \<Longrightarrow> stamp_chr c"
  by (auto simp: rfc3339_nano_def date_str_def clock_str_def stamp_chr_def
      dest: pad2_digits pad4_digits dest!: fraction_chars split: prod.splits)

end
