(* ===== verification/GoText.thy ===== *)
theory GoText
  imports GoStd "HOL-Library.AList"
begin

text \<open>Text written line by line: the pieces the generated configuration files are made of.\<close>

abbreviation newline :: char where "newline \<equiv> CHR 0x0A"

definition quoted :: "string \<Rightarrow> string" where
  "quoted x = [CHR 0x22] @ x @ [CHR 0x22]"

definition em_dash :: string where
  "em_dash = [CHR 0xE2, CHR 0x80, CHR 0x94]"

definition en_dash :: string where
  "en_dash = [CHR 0xE2, CHR 0x80, CHR 0x93]"

fun text_lines :: "string list \<Rightarrow> string" where
  "text_lines [] = []"
| "text_lines (l # ls) = l @ newline # text_lines ls"

lemma text_lines_append: "text_lines (xs @ ys) = text_lines xs @ text_lines ys"
  by (induction xs) auto

lemma set_text_lines: "set (text_lines ls) \<subseteq> insert newline (\<Union>l \<in> set ls. set l)"
  by (induction ls) auto

lemma split_text_lines: "\<forall>l \<in> set ls. newline \<notin> set l \<Longrightarrow> split_chr newline (text_lines ls) = ls @ [[]]"
  by (induction ls) (auto simp: split_append_sep)

text \<open>Replacing the first occurrence of a text that holds a character the text before it lacks.\<close>

lemma replace_first_at:
  assumes "c \<notin> set a" "c \<notin> set o1"
  shows "replace_first (o1 @ c # o2) new (a @ (o1 @ c # o2) @ b) = a @ new @ b"
  using assms(1)
proof (induction a)
  case Nil
  have "has_prefix ((o1 @ c # o2) @ b) (o1 @ c # o2)" by (rule has_prefix_append)
  then show ?case by (cases "o1 @ c # o2") auto
next
  case (Cons x a)
  have "\<not> has_prefix (x # a @ (o1 @ c # o2) @ b) (o1 @ c # o2)"
  proof
    assume "has_prefix (x # a @ (o1 @ c # o2) @ b) (o1 @ c # o2)"
    then obtain r where "(x # a @ o1) @ c # (o2 @ b) = o1 @ c # (o2 @ r)" by (auto simp: has_prefix_iff)
    then have "takeWhile (\<lambda>y. y \<noteq> c) ((x # a @ o1) @ c # (o2 @ b)) = takeWhile (\<lambda>y. y \<noteq> c) (o1 @ c # (o2 @ r))"
      by simp
    moreover have "c \<notin> set (x # a @ o1)" using Cons.prems assms(2) by simp
    moreover have tw: "c \<notin> set xs \<Longrightarrow> takeWhile (\<lambda>y. y \<noteq> c) (xs @ c # ys) = xs" for xs ys
      by (induction xs) auto
    ultimately have "x # a @ o1 = o1" using assms(2) by (metis tw)
    then have "length (x # a @ o1) = length o1" by (rule arg_cong)
    then show False by simp
  qed
  then show ?case using Cons by simp
qed

text \<open>A byte below 0x80 is a rune of its own.\<close>

lemma decode_rune_bytes:
  assumes "c \<in> set (take (snd (decode_rune s)) s)" "byte c < 0x80"
  shows "fst (decode_rune s) = byte c"
proof (cases s)
  case (Cons c0 r)
  let ?b = "byte c0"
  consider "?b < 0x80" | "0xC2 \<le> ?b \<and> ?b \<le> 0xDF" | "0xE0 \<le> ?b \<and> ?b \<le> 0xEF" | "0xF0 \<le> ?b \<and> ?b \<le> 0xF4"
    | "\<not> ?b < 0x80" "\<not> (0xC2 \<le> ?b \<and> ?b \<le> 0xDF)" "\<not> (0xE0 \<le> ?b \<and> ?b \<le> 0xEF)" "\<not> (0xF0 \<le> ?b \<and> ?b \<le> 0xF4)"
    by blast
  then show ?thesis
  proof cases
    case 1
    then show ?thesis using assms by (simp add: Cons decode_rune_ascii)
  next
    case 2
    then show ?thesis
      using assms by (cases r) (simp_all add: Cons decode_rune_def Let_def in_range_def split: if_splits, auto)
  next
    case 3
    then show ?thesis
      using assms by (cases r; cases "tl r") (simp_all add: Cons decode_rune_def Let_def in_range_def split: if_splits, auto)
  next
    case 4
    then show ?thesis
      using assms by (cases r; cases "tl r"; cases "tl (tl r)")
        (simp_all add: Cons decode_rune_def Let_def in_range_def split: if_splits, auto)
  next
    case 5
    then have "decode_rune s = (rune_error, 1)"
      by (simp only: Cons decode_rune_def Let_def list.case if_False)
    then show ?thesis using assms 5(1) by (simp add: Cons)
  qed
qed (use assms in simp)

lemma runes_bytes: "(r, bs) \<in> set (runes s) \<Longrightarrow> c \<in> set bs \<Longrightarrow> byte c < 0x80 \<Longrightarrow> r = byte c"
proof (induction s rule: runes.induct)
  case (1 s)
  show ?case
  proof (cases "s = []")
    case False
    then have "runes s = (fst (decode_rune s), take (snd (decode_rune s)) s) # runes (drop (snd (decode_rune s)) s)"
      by (simp add: runes.simps [of s])
    then show ?thesis using 1 False decode_rune_bytes [of c s] by auto
  qed (use 1 in simp)
qed

text \<open>\<open>strings.ToLower\<close> changes the letters of ASCII text; what it makes of other text (\<open>unicode.ToLower\<close> on every
  rune) is an argument.\<close>

definition lower_chr :: "char \<Rightarrow> char" where
  "lower_chr c = (if 65 \<le> byte c \<and> byte c \<le> 90 then char_of (byte c + 32) else c)"

definition to_lower :: "(string \<Rightarrow> string) \<Rightarrow> string \<Rightarrow> string" where
  "to_lower other s = (if ascii s then map lower_chr s else other s)"

text \<open>\<open>strings.Contains\<close>, and the text around the last occurrence of a byte.\<close>

fun contains_text :: "string \<Rightarrow> string \<Rightarrow> bool" where
  "contains_text [] p = (p = [])"
| "contains_text (x # xs) p = (has_prefix (x # xs) p \<or> contains_text xs p)"

definition cut_last :: "char \<Rightarrow> string \<Rightarrow> (string \<times> string) option" where
  "cut_last c s = (case cut_chr c (rev s) of (b, a, ok) \<Rightarrow> if ok then Some (rev a, rev b) else None)"

lemma cut_last_append: "c \<notin> set b \<Longrightarrow> cut_last c (a @ c # b) = Some (a, b)"
proof -
  assume "c \<notin> set b"
  then have "cut_chr c (rev b @ c # rev a) = (rev b, rev a, True)" by (intro cut_chr_append) simp
  then show ?thesis by (simp add: cut_last_def)
qed

lemma fold_update_fresh:
  "distinct (map fst (t @ src)) \<Longrightarrow> fold (\<lambda>(k, v). AList.update k v) src t = t @ src"
proof (induction src arbitrary: t)
  case (Cons e src)
  obtain k v where e: "e = (k, v)" by fastforce
  have "AList.update k v t = t @ [(k, v)]" using Cons.prems e by (induction t) auto
  then show ?case using Cons.IH [of "t @ [(k, v)]"] Cons.prems e by simp
qed simp

end
