(* ===== verification/AuditLog.thy ===== *)
theory AuditLog
  imports GoTime GoText
begin

text \<open>
  The audit log (\<open>backend/internal/audit/audit.go\<close> and its trigger in migration 0017): entries, the
  hash chain that \<open>record\<close> extends, \<open>Verify\<close>, \<open>List\<close>, \<open>Each\<close> and \<open>Prune\<close>.

  SHA-256 is the parameter \<open>H\<close> of every definition that hashes.  The theorems about tampering need no
  assumption on it: they conclude that the log is unchanged or that two different inputs with the
  same hash are at hand.
\<close>

section \<open>Entries and the table\<close>

record entry =
  eid :: int
  e_at :: nat
  e_actor :: string
  e_kind :: string
  e_action :: string
  e_target :: string
  e_ip :: string
  e_status :: int
  e_detail :: string

record audit_row = entry +
  prev_hash :: string
  row_hash :: string

text \<open>The table in the order of its ids, and the next value of the id sequence.\<close>

record audit_log =
  log_rows :: "audit_row list"
  log_next :: int

definition retention :: nat where
  "retention = 365 * 24 * 3600 * us_per_sec"

definition unit_sep :: char where "unit_sep = CHR 0x1F"

text \<open>\<open>hashEntry\<close>: the fields it covers, the text that is hashed, the hash.\<close>

definition hashed_fields :: "string \<Rightarrow> 'a entry_scheme \<Rightarrow> string list" where
  "hashed_fields prev e =
     [prev, rfc3339_nano (e_at e), e_actor e, e_kind e, e_action e, e_target e, e_ip e,
      int_str (e_status e), e_detail e]"

definition hash_entry :: "(string \<Rightarrow> string) \<Rightarrow> string \<Rightarrow> 'a entry_scheme \<Rightarrow> string" where
  "hash_entry H prev e = hex_encode (H (join [unit_sep] (hashed_fields prev e)))"

definition clip :: "string \<Rightarrow> nat \<Rightarrow> string" where
  "clip s n = (if length s \<le> n then s else take n s)"

lemma length_clip [simp]: "length (clip s n) \<le> n"
  by (simp add: clip_def)

section \<open>Recording\<close>

text \<open>A text column takes valid UTF-8 without the zero byte.\<close>

definition pg_text :: "string \<Rightarrow> bool" where
  "pg_text s \<longleftrightarrow> valid_utf8 s \<and> CHR 0x00 \<notin> set s"

definition storable :: "'a entry_scheme \<Rightarrow> bool" where
  "storable e \<longleftrightarrow> pg_text (e_actor e) \<and> pg_text (e_kind e) \<and> pg_text (e_action e)
     \<and> pg_text (e_target e) \<and> pg_text (e_ip e) \<and> pg_text (e_detail e)"

definition last_hash :: "audit_row list \<Rightarrow> string" where
  "last_hash rs = (if rs = [] then [] else row_hash (last rs))"

definition stamped :: "nat \<Rightarrow> entry \<Rightarrow> entry" where
  "stamped now e = e\<lparr>e_at := now, e_detail := clip (e_detail e) 500, e_target := clip (e_target e) 300,
                     e_actor := clip (e_actor e) 200\<rparr>"

definition make_row :: "(string \<Rightarrow> string) \<Rightarrow> int \<Rightarrow> string \<Rightarrow> entry \<Rightarrow> audit_row" where
  "make_row H i prev e =
     \<lparr>eid = i, e_at = e_at e, e_actor = e_actor e, e_kind = e_kind e, e_action = e_action e,
      e_target = e_target e, e_ip = e_ip e, e_status = e_status e, e_detail = e_detail e,
      prev_hash = prev, row_hash = hash_entry H prev e\<rparr>"

text \<open>
  \<open>record\<close>: one transaction under the chain lock.  An insert that reached the server has taken a
  value of the id sequence even when the commit fails afterwards.
\<close>

definition audit_record ::
  "(string \<Rightarrow> string) \<Rightarrow> faults \<Rightarrow> nat \<Rightarrow> audit_log \<Rightarrow> entry \<Rightarrow> (string + unit) \<times> audit_log" where
  "audit_record H f now s e0 =
     (let e = stamped now e0 in
      if f ''begin'' then (Inl ''begin'', s)
      else if f ''lock'' then (Inl ''lock'', s)
      else if f ''select'' then (Inl ''select'', s)
      else let prev = last_hash (log_rows s); s' = s\<lparr>log_next := log_next s + 1\<rparr> in
      if f ''insert'' \<or> \<not> storable e then (Inl ''insert'', s')
      else if f ''commit'' then (Inl ''commit'', s')
      else (Inr (), s'\<lparr>log_rows := log_rows s @ [make_row H (log_next s) prev e]\<rparr>))"

text \<open>\<open>Record\<close> drops the error: an action that happened is never failed by its bookkeeping.\<close>

definition audit_Record ::
  "(string \<Rightarrow> string) \<Rightarrow> faults \<Rightarrow> nat \<Rightarrow> audit_log \<Rightarrow> entry \<Rightarrow> audit_log" where
  "audit_Record H f now s e = snd (audit_record H f now s e)"

section \<open>Verifying\<close>

record verify_result =
  vr_ok :: bool
  vr_checked :: nat
  vr_broke_at :: int
  vr_missing :: bool

fun verify_from ::
  "(string \<Rightarrow> string) \<Rightarrow> string \<Rightarrow> nat \<Rightarrow> audit_row list \<Rightarrow> verify_result" where
  "verify_from H lasth n [] = \<lparr>vr_ok = True, vr_checked = n, vr_broke_at = 0, vr_missing = False\<rparr>"
| "verify_from H lasth n (r # rs) =
     (if 0 < n \<and> prev_hash r \<noteq> lasth
      then \<lparr>vr_ok = False, vr_checked = n, vr_broke_at = eid r, vr_missing = True\<rparr>
      else if hash_entry H (prev_hash r) r \<noteq> row_hash r
      then \<lparr>vr_ok = False, vr_checked = n, vr_broke_at = eid r, vr_missing = False\<rparr>
      else verify_from H (row_hash r) (Suc n) rs)"

definition verify :: "(string \<Rightarrow> string) \<Rightarrow> audit_row list \<Rightarrow> verify_result" where
  "verify H rs = verify_from H [] 0 rs"

section \<open>Pruning\<close>

text \<open>
  The trigger of migration 0017 refuses to delete a row younger than PostgreSQL's \<open>interval '1
  year'\<close>, which is a calendar year: the same date one year back, 28 February for 29 February.
\<close>

definition days_before_month :: "nat \<Rightarrow> nat \<Rightarrow> nat" where
  "days_before_month y m = sum_list (take (m - 1) (month_days y))"

definition year_ago :: "nat \<Rightarrow> nat" where
  "year_ago t =
     (case civil (t div us_per_day) of (y, m, d) \<Rightarrow>
        let y' = y - 1; d' = min d (month_days y' ! (m - 1));
            day = (\<Sum>k = 1970..<y'. year_days k) + days_before_month y' m + (d' - 1)
        in day * us_per_day + t mod us_per_day)"

definition guard_refuses :: "nat \<Rightarrow> audit_row \<Rightarrow> bool" where
  "guard_refuses now r \<longleftrightarrow> year_ago now < e_at r"

text \<open>\<open>Prune\<close> is one statement: a single refused row makes the whole delete fail.\<close>

definition prune :: "nat \<Rightarrow> audit_log \<Rightarrow> (string + unit) \<times> audit_log" where
  "prune now s =
     (let old = (\<lambda>r. e_at r < now - retention) in
      if \<exists>r \<in> set (log_rows s). old r \<and> guard_refuses now r
      then (Inl ''the audit log keeps entries for one year'', s)
      else (Inr (), s\<lparr>log_rows := filter (\<lambda>r. \<not> old r) (log_rows s)\<rparr>))"

section \<open>Listing\<close>

text \<open>
  \<open>Filter.where\<close> numbers its placeholders by the length of the argument list at the time each
  condition is added; the conditions are evaluated against that list.  \<open>ILIKE\<close> is PostgreSQL's
  case-insensitive pattern match on ASCII text, with \<open>%\<close> and \<open>_\<close> in the searched text keeping their
  meaning as wildcards and the backslash as the escape, as the source does not escape them.
\<close>

record audit_filter =
  f_actor :: string
  f_action :: string
  f_from :: "nat option"
  f_to :: "nat option"
  f_limit :: int
  f_offset :: int

datatype sql_arg = Txt string | Tim nat

datatype sql_cond = Actor_like nat | Action_like nat | At_ge nat | At_lt nat

definition add_cond ::
  "bool \<Rightarrow> (nat \<Rightarrow> sql_cond) \<Rightarrow> sql_arg \<Rightarrow> sql_cond list \<times> sql_arg list \<Rightarrow> sql_cond list \<times> sql_arg list" where
  "add_cond b c v acc =
     (if b then (fst acc @ [c (Suc (length (snd acc)))], snd acc @ [v]) else acc)"

definition filter_where :: "audit_filter \<Rightarrow> sql_cond list \<times> sql_arg list" where
  "filter_where f =
     add_cond (f_to f \<noteq> None) At_lt (Tim (the (f_to f)))
      (add_cond (f_from f \<noteq> None) At_ge (Tim (the (f_from f)))
       (add_cond (f_action f \<noteq> []) Action_like (Txt (f_action f))
        (add_cond (f_actor f \<noteq> []) Actor_like (Txt (f_actor f)) ([], []))))"

fun like_match :: "string \<Rightarrow> string \<Rightarrow> bool" where
  "like_match [] s = (s = [])"
| "like_match (p # ps) [] = (p = CHR ''%'' \<and> like_match ps [])"
| "like_match (p # ps) (x # xs) =
     (if p = CHR ''%'' then like_match ps (x # xs) \<or> like_match (p # ps) xs
      else if p = CHR 0x5C then (case ps of [] \<Rightarrow> False | q # qs \<Rightarrow> lower_chr q = lower_chr x \<and> like_match qs xs)
      else (p = CHR ''_'' \<or> lower_chr p = lower_chr x) \<and> like_match ps xs)"

definition ilike_sub :: "string \<Rightarrow> string \<Rightarrow> bool" where
  "ilike_sub x s = like_match (''%'' @ x @ ''%'') s"

definition arg_txt :: "sql_arg list \<Rightarrow> nat \<Rightarrow> string" where
  "arg_txt as n = (case as ! (n - 1) of Txt x \<Rightarrow> x | Tim _ \<Rightarrow> [])"

definition arg_tim :: "sql_arg list \<Rightarrow> nat \<Rightarrow> nat" where
  "arg_tim as n = (case as ! (n - 1) of Tim x \<Rightarrow> x | Txt _ \<Rightarrow> 0)"

fun cond_holds :: "sql_arg list \<Rightarrow> audit_row \<Rightarrow> sql_cond \<Rightarrow> bool" where
  "cond_holds as r (Actor_like n) = ilike_sub (arg_txt as n) (e_actor r)"
| "cond_holds as r (Action_like n) = ilike_sub (arg_txt as n) (e_action r)"
| "cond_holds as r (At_ge n) = (arg_tim as n \<le> e_at r)"
| "cond_holds as r (At_lt n) = (e_at r < arg_tim as n)"

definition where_holds :: "audit_filter \<Rightarrow> audit_row \<Rightarrow> bool" where
  "where_holds f r = (case filter_where f of (cs, as) \<Rightarrow> list_all (cond_holds as r) cs)"

text \<open>\<open>List\<close>: the page, newest first, and how many rows match; \<open>Each\<close>: all of them, oldest first.
  The database refuses a searched text that is not valid text.\<close>

definition page_limit :: "int \<Rightarrow> nat" where
  "page_limit l = (if l \<le> 0 \<or> l > 500 then 100 else nat l)"

definition filter_args_ok :: "audit_filter \<Rightarrow> bool" where
  "filter_args_ok f \<longleftrightarrow> pg_text (f_actor f) \<and> pg_text (f_action f)"

definition audit_list ::
  "faults \<Rightarrow> audit_log \<Rightarrow> audit_filter \<Rightarrow> string + (audit_row list \<times> nat)" where
  "audit_list ft s f =
     (if ft ''count'' \<or> \<not> filter_args_ok f then Inl ''count''
      else let hits = filter (where_holds f) (log_rows s) in
      if ft ''query'' \<or> f_offset f < 0 then Inl ''query''
      else Inr (take (page_limit (f_limit f)) (drop (nat (f_offset f)) (rev hits)), length hits))"

fun audit_each_loop :: "('b \<Rightarrow> audit_row \<Rightarrow> string + 'b) \<Rightarrow> 'b \<Rightarrow> audit_row list \<Rightarrow> string + 'b" where
  "audit_each_loop fn b [] = Inr b"
| "audit_each_loop fn b (r # rs) =
     (case fn b r of Inl e \<Rightarrow> Inl e | Inr b' \<Rightarrow> audit_each_loop fn b' rs)"

definition audit_each ::
  "faults \<Rightarrow> audit_log \<Rightarrow> audit_filter \<Rightarrow> ('b \<Rightarrow> audit_row \<Rightarrow> string + 'b) \<Rightarrow> 'b \<Rightarrow> string + 'b" where
  "audit_each ft s f fn b =
     (if ft ''query'' \<or> \<not> filter_args_ok f then Inl ''query''
      else audit_each_loop fn b (filter (where_holds f) (log_rows s)))"

section \<open>The chain\<close>

definition preimage :: "'a audit_row_scheme \<Rightarrow> string" where
  "preimage r = join [unit_sep] (hashed_fields (prev_hash r) r)"

definition sealed :: "(string \<Rightarrow> string) \<Rightarrow> audit_row \<Rightarrow> bool" where
  "sealed H r \<longleftrightarrow> row_hash r = hex_encode (H (preimage r))"

fun linked :: "string \<Rightarrow> audit_row list \<Rightarrow> bool" where
  "linked l [] = True"
| "linked l (r # rs) = (prev_hash r = l \<and> linked (row_hash r) rs)"

definition intact :: "(string \<Rightarrow> string) \<Rightarrow> audit_row list \<Rightarrow> bool" where
  "intact H rs \<longleftrightarrow> list_all (sealed H) rs \<and> (rs \<noteq> [] \<longrightarrow> linked (prev_hash (hd rs)) rs)"

lemma hash_entry_sealed: "hash_entry H (prev_hash r) r = row_hash r \<longleftrightarrow> sealed H r"
  by (auto simp: hash_entry_def sealed_def preimage_def)

lemma linked_append:
  "linked l (xs @ ys) \<longleftrightarrow> linked l xs \<and> linked (if xs = [] then l else row_hash (last xs)) ys"
  by (induction xs arbitrary: l) auto

lemma verify_from_Suc:
  "vr_ok (verify_from H l (Suc n) rs) \<longleftrightarrow> list_all (sealed H) rs \<and> linked l rs"
  by (induction rs arbitrary: l n) (auto simp: hash_entry_sealed)

lemma verify_ok_iff: "vr_ok (verify H rs) \<longleftrightarrow> intact H rs"
  by (cases rs) (auto simp: verify_def intact_def verify_from_Suc hash_entry_sealed)

lemma verify_from_ok_result:
  "vr_ok (verify_from H l n rs) \<Longrightarrow>
   verify_from H l n rs = \<lparr>vr_ok = True, vr_checked = n + length rs, vr_broke_at = 0, vr_missing = False\<rparr>"
proof (induction rs arbitrary: l n)
  case Nil
  then show ?case by simp
next
  case (Cons r rs)
  then have "\<not> (0 < n \<and> prev_hash r \<noteq> l)" "hash_entry H (prev_hash r) r = row_hash r"
    by (auto split: if_splits)
  then have step: "verify_from H l n (r # rs) = verify_from H (row_hash r) (Suc n) rs"
    by auto
  with Cons.prems have "vr_ok (verify_from H (row_hash r) (Suc n) rs)" by simp
  from Cons.IH [OF this] show ?case by (simp only: step) simp
qed

text \<open>Walking over an intact stretch leaves the walk at its last hash.\<close>

lemma verify_from_skip:
  assumes "list_all (sealed H) xs" "linked l xs"
  shows "verify_from H l (Suc n) (xs @ ys) =
    verify_from H (if xs = [] then l else row_hash (last xs)) (Suc (n + length xs)) ys"
  using assms by (induction xs arbitrary: l n) (auto simp: hash_entry_sealed)

lemma verify_skip:
  assumes "intact H xs" "xs \<noteq> []"
  shows "verify H (xs @ ys) = verify_from H (row_hash (last xs)) (length xs) ys"
proof -
  obtain x xs' where xs: "xs = x # xs'" using assms(2) by (cases xs) auto
  then have "list_all (sealed H) xs'" "linked (row_hash x) xs'" "hash_entry H (prev_hash x) x = row_hash x"
    using assms(1) by (auto simp: intact_def hash_entry_sealed)
  then show ?thesis using verify_from_skip [of H xs' "row_hash x" 0 ys] xs
    by (auto simp: verify_def)
qed

lemma intact_append:
  "intact H (xs @ ys) \<Longrightarrow> intact H xs \<and> intact H ys \<and>
     (xs \<noteq> [] \<and> ys \<noteq> [] \<longrightarrow> prev_hash (hd ys) = row_hash (last xs))"
  by (cases xs; cases ys) (auto simp: intact_def linked_append split: if_splits)

lemma intact_snoc:
  assumes "intact H xs" "sealed H r" "prev_hash r = last_hash xs"
  shows "intact H (xs @ [r])"
  using assms by (cases xs) (auto simp: intact_def linked_append last_hash_def)

lemma sealed_make_row: "sealed H (make_row H i prev e)"
  by (simp add: sealed_def make_row_def hash_entry_def preimage_def hashed_fields_def)

section \<open>Every log the service produces\<close>

definition empty_log :: audit_log where
  "empty_log = \<lparr>log_rows = [], log_next = 1\<rparr>"

text \<open>Any number of recordings and prunings, each failing or not, under a clock that never goes back.\<close>

inductive audit_reach :: "(string \<Rightarrow> string) \<Rightarrow> nat \<Rightarrow> audit_log \<Rightarrow> bool" for H where
  start: "audit_reach H 0 empty_log"
| recorded: "audit_reach H t s \<Longrightarrow> t \<le> now \<Longrightarrow> audit_reach H now (audit_Record H f now s e)"
| pruned: "audit_reach H t s \<Longrightarrow> t \<le> now \<Longrightarrow> audit_reach H now (snd (prune now s))"

definition log_inv :: "(string \<Rightarrow> string) \<Rightarrow> nat \<Rightarrow> audit_log \<Rightarrow> bool" where
  "log_inv H t s \<longleftrightarrow> intact H (log_rows s) \<and> sorted (map e_at (log_rows s))
     \<and> (\<forall>r \<in> set (log_rows s). e_at r \<le> t) \<and> sorted_wrt (<) (map eid (log_rows s))
     \<and> (\<forall>r \<in> set (log_rows s). eid r < log_next s)"

lemma audit_Record_cases:
  "audit_Record H f now s e = s \<or> audit_Record H f now s e = s\<lparr>log_next := log_next s + 1\<rparr> \<or>
   audit_Record H f now s e = s\<lparr>log_next := log_next s + 1,
     log_rows := log_rows s @ [make_row H (log_next s) (last_hash (log_rows s)) (stamped now e)]\<rparr>"
  by (simp add: audit_Record_def audit_record_def Let_def)

lemma log_inv_record [state_inv]:
  assumes inv: "log_inv H t s" and now: "t \<le> now"
  shows "log_inv H now (audit_Record H f now s e)"
proof -
  let ?r = "make_row H (log_next s) (last_hash (log_rows s)) (stamped now e)"
  have new: "e_at ?r = now" "eid ?r = log_next s" "prev_hash ?r = last_hash (log_rows s)"
    by (simp_all add: make_row_def stamped_def)
  have "intact H (log_rows s @ [?r])"
    using inv new(3) by (auto intro: intact_snoc sealed_make_row simp: log_inv_def)
  then show ?thesis
    using audit_Record_cases [of H f now s e] inv now new
    by (auto simp: log_inv_def sorted_append sorted_wrt_append intro: order_trans le_less_trans)
       (fastforce+)?
qed

lemma filter_sorted_suffix:
  "sorted (map f xs) \<Longrightarrow> filter (\<lambda>x. \<not> f x < (c::nat)) xs = dropWhile (\<lambda>x. f x < c) xs"
proof (induction xs)
  case Nil
  then show ?case by simp
next
  case (Cons x xs)
  show ?case
  proof (cases "f x < c")
    case True
    then show ?thesis using Cons by simp
  next
    case False
    then have "\<forall>y \<in> set xs. \<not> f y < c" using Cons.prems by auto
    then show ?thesis using False by (simp add: filter_id_conv)
  qed
qed

lemma log_inv_prune [state_inv]:
  assumes inv: "log_inv H t s" and now: "t \<le> now"
  shows "log_inv H now (snd (prune now s))"
proof -
  let ?old = "\<lambda>r. e_at r < now - retention"
  let ?kept = "dropWhile ?old (log_rows s)"
  have kept: "filter (\<lambda>r. \<not> ?old r) (log_rows s) = ?kept"
    using inv by (intro filter_sorted_suffix) (simp add: log_inv_def)
  have split: "log_rows s = takeWhile ?old (log_rows s) @ ?kept" by simp
  have "intact H ?kept" "sorted (map e_at ?kept)" "sorted_wrt (<) (map eid ?kept)"
    using inv split unfolding log_inv_def
    by (metis intact_append, metis map_append sorted_append, metis map_append sorted_wrt_append)
  moreover have "set ?kept \<subseteq> set (log_rows s)" by (metis set_dropWhileD subsetI)
  ultimately have "log_inv H now (s\<lparr>log_rows := ?kept\<rparr>)"
    using inv now by (auto simp: log_inv_def intro: order_trans)
  moreover have "log_inv H now s"
    using inv now by (auto simp: log_inv_def intro: order_trans)
  ultimately show ?thesis by (simp add: prune_def kept)
qed

lemma audit_reach_inv: "audit_reach H t s \<Longrightarrow> log_inv H t s"
proof (induction rule: audit_reach.induct)
  case start
  show ?case by (simp add: log_inv_def empty_log_def intact_def)
qed (auto intro: state_inv)

section \<open>What verification shows\<close>


definition example_entry :: entry where
  "example_entry = \<lparr>eid = 0, e_at = 0, e_actor = ''ann@x'', e_kind = ''admin'', e_action = ''login'',
     e_target = [], e_ip = ''10.0.0.1'', e_status = 200, e_detail = []\<rparr>"

lemma audit_Record_stored:
  "storable (stamped now e) \<Longrightarrow> audit_Record H no_faults now s e = s\<lparr>log_next := log_next s + 1,
     log_rows := log_rows s @ [make_row H (log_next s) (last_hash (log_rows s)) (stamped now e)]\<rparr>"
  by (simp add: audit_Record_def audit_record_def Let_def)

text \<open>A log of three entries, built by the service, for the concrete instances below.\<close>

definition ex_row1 :: "(string \<Rightarrow> string) \<Rightarrow> audit_row" where
  "ex_row1 H = make_row H 1 [] (stamped 5 example_entry)"

definition ex_row2 :: "(string \<Rightarrow> string) \<Rightarrow> audit_row" where
  "ex_row2 H = make_row H 2 (row_hash (ex_row1 H)) (stamped 9 example_entry)"

definition ex_row3 :: "(string \<Rightarrow> string) \<Rightarrow> audit_row" where
  "ex_row3 H = make_row H 3 (row_hash (ex_row2 H)) (stamped 12 example_entry)"

definition ex_log :: "(string \<Rightarrow> string) \<Rightarrow> audit_log" where
  "ex_log H = \<lparr>log_rows = [ex_row1 H, ex_row2 H, ex_row3 H], log_next = 4\<rparr>"

lemma example_storable: "storable (stamped now example_entry)"
  by (simp add: storable_def stamped_def example_entry_def pg_text_def clip_def valid_utf8_def byte_def)

lemma ex_log_reach: "audit_reach H 12 (ex_log H)"
proof -
  have "ex_log H = audit_Record H no_faults 12 (audit_Record H no_faults 9
      (audit_Record H no_faults 5 empty_log example_entry) example_entry) example_entry"
    by (simp add: audit_Record_stored example_storable ex_log_def ex_row1_def ex_row2_def ex_row3_def
        empty_log_def last_hash_def)
  moreover have "audit_reach H 12 \<dots>"
    by (rule recorded [OF recorded [OF recorded [OF audit_reach.start]]]) simp_all
  ultimately show ?thesis by simp
qed

lemma ex_log_ok: "vr_ok (verify H [ex_row1 H, ex_row2 H, ex_row3 H])"
  using audit_reach_inv [OF ex_log_reach [of H]] by (simp add: verify_ok_iff log_inv_def ex_log_def)

lemma ex_row_actor: "e_actor (ex_row2 H) = ''ann@x''" "eid (ex_row2 H) = 2" "eid (ex_row3 H) = 3"
  by (simp_all add: ex_row2_def ex_row3_def make_row_def stamped_def example_entry_def clip_def)

lemma ex_rows_distinct: "row_hash (ex_row1 id) \<noteq> row_hash (ex_row2 id)"
proof -
  have "length (row_hash (ex_row1 id)) < length (row_hash (ex_row2 id))"
    by (simp add: ex_row2_def make_row_def hash_entry_def hashed_fields_def)
  then show ?thesis by auto
qed


text \<open>
  Two logs in which the same position hashes different texts to the same value.
\<close>

definition collides_at :: "(string \<Rightarrow> string) \<Rightarrow> audit_row list \<Rightarrow> audit_row list \<Rightarrow> nat \<Rightarrow> bool" where
  "collides_at H xs ys i \<longleftrightarrow> i < length xs \<and> i < length ys \<and> preimage (xs ! i) \<noteq> preimage (ys ! i)
     \<and> H (preimage (xs ! i)) = H (preimage (ys ! i))"

definition no_sep :: "audit_row \<Rightarrow> bool" where
  "no_sep r \<longleftrightarrow> (\<forall>x \<in> set (hashed_fields (prev_hash r) r). unit_sep \<notin> set x)"

lemma preimage_inj:
  assumes "preimage r = preimage r'" "no_sep r" "no_sep r'"
  shows "hashed_fields (prev_hash r) r = hashed_fields (prev_hash r') r'"
  by (rule join_inj [of unit_sep]) (use assms in \<open>auto simp: preimage_def no_sep_def hashed_fields_def\<close>)

lemma collides_at_butlast: "collides_at H xs ys i \<Longrightarrow> collides_at H (xs @ [x]) (ys @ [y]) i"
  by (auto simp: collides_at_def nth_append)


lemma sep_free:
  "unit_sep \<notin> set (hex_encode z)" "unit_sep \<notin> set (rfc3339_nano t)" "unit_sep \<notin> set (nat_str n)"
  using set_hex_encode [of z] rfc3339_nano_chars [of unit_sep t] nat_str_digits [of unit_sep n]
  by (auto simp: hex_chars_def unit_sep_def stamp_chr_def is_digit_def)

lemma ex_no_sep: "no_sep (ex_row1 H)" "no_sep (ex_row2 H)" "no_sep (ex_row3 H)"
  by (simp_all add: no_sep_def hashed_fields_def ex_row1_def ex_row2_def ex_row3_def make_row_def
      stamped_def example_entry_def clip_def hash_entry_def int_str_def sep_free)
     (simp_all add: unit_sep_def)


text \<open>Removing entries from the middle of an intact log is found at the first entry after the gap,
  which is reported as having a missing predecessor, unless the entries on both sides of the gap carry
  the same hash.\<close>

theorem gap_detected:
  assumes "vr_ok (verify H (xs @ ys @ z # zs))" "xs \<noteq> []" "ys \<noteq> []"
    and "row_hash (last xs) \<noteq> row_hash (last ys)"
  shows "verify H (xs @ z # zs) =
    \<lparr>vr_ok = False, vr_checked = length xs, vr_broke_at = eid z, vr_missing = True\<rparr>"
proof -
  have "intact H (xs @ ys @ z # zs)" using assms(1) by (simp add: verify_ok_iff)
  then have xs: "intact H xs" and "intact H (ys @ z # zs)" by (auto dest: intact_append)
  then have "prev_hash z = row_hash (last ys)"
    using intact_append [of H ys "z # zs"] assms(3) by simp
  then show ?thesis using assms(2,4) by (simp add: verify_skip [OF xs])
qed

theorem gap_detected_witness:
  "verify id [ex_row1 id, ex_row3 id] =
    \<lparr>vr_ok = False, vr_checked = 1, vr_broke_at = 3, vr_missing = True\<rparr>"
  using gap_detected [of id "[ex_row1 id]" "[ex_row2 id]" "ex_row3 id" "[]"] ex_log_ok [of id]
    ex_rows_distinct by (simp add: ex_row_actor)

text \<open>Changing what an entry says without recomputing its hash is found at that entry, unless the
  changed text has the SHA-256 value of the original one.\<close>

theorem edit_detected:
  assumes "vr_ok (verify H (xs @ r # zs))" "prev_hash r' = prev_hash r" "row_hash r' = row_hash r"
    and "H (preimage r') \<noteq> H (preimage r)"
  shows "verify H (xs @ r' # zs) =
    \<lparr>vr_ok = False, vr_checked = length xs, vr_broke_at = eid r', vr_missing = False\<rparr>"
proof -
  have all: "intact H (xs @ r # zs)" using assms(1) by (simp add: verify_ok_iff)
  then have xs: "intact H xs" by (auto dest: intact_append)
  have "sealed H r" using all by (simp add: intact_def)
  then have unsealed: "hash_entry H (prev_hash r') r' \<noteq> row_hash r'"
    using assms(2-4) by (simp add: hash_entry_def sealed_def preimage_def)
  show ?thesis
  proof (cases "xs = []")
    case True
    then show ?thesis using unsealed by (simp add: verify_def)
  next
    case False
    then have "prev_hash r = row_hash (last xs)" using intact_append [OF all] by simp
    then show ?thesis using False unsealed assms(2) by (simp add: verify_skip [OF xs])
  qed
qed

theorem edit_detected_witness:
  "verify id [ex_row1 id, (ex_row2 id)\<lparr>e_actor := ''eve''\<rparr>, ex_row3 id] =
    \<lparr>vr_ok = False, vr_checked = 1, vr_broke_at = 2, vr_missing = False\<rparr>"
proof -
  let ?r' = "(ex_row2 id)\<lparr>e_actor := ''eve''\<rparr>"
  have "no_sep ?r'"
    using ex_no_sep(2) [of id] by (simp add: no_sep_def hashed_fields_def unit_sep_def)
  then have "preimage ?r' \<noteq> preimage (ex_row2 id)"
    using preimage_inj [of ?r' "ex_row2 id"] ex_no_sep(2)
    by (auto simp: hashed_fields_def ex_row_actor)
  then have "verify id ([ex_row1 id] @ ?r' # [ex_row3 id]) =
      \<lparr>vr_ok = False, vr_checked = length [ex_row1 id], vr_broke_at = eid ?r', vr_missing = False\<rparr>"
    using ex_log_ok [of id] by (intro edit_detected [of id _ "ex_row2 id"]) auto
  then show ?thesis by (simp add: ex_row_actor)
qed

text \<open>The chain is anchored at neither end: any contiguous stretch of an intact log verifies, so
  removing the newest entries, or the oldest, goes unseen by Verify.\<close>

theorem ends_not_anchored:
  assumes "vr_ok (verify H (xs @ ys @ zs))"
  shows "vr_ok (verify H ys)"
proof -
  have "intact H (xs @ ys @ zs)" using assms by (simp add: verify_ok_iff)
  then have "intact H (ys @ zs)" by (auto dest: intact_append)
  then show ?thesis by (auto dest: intact_append simp: verify_ok_iff)
qed

theorem ends_not_anchored_witness: "vr_ok (verify id [ex_row1 id])"
  using ends_not_anchored [of id "[]" "[ex_row1 id]" "[ex_row2 id, ex_row3 id]"] ex_log_ok [of id]
  by simp

section \<open>Retention, clipping and listing\<close>

text \<open>Pruning never removes an entry that is a year old or younger, whatever the clock says, and what
  it leaves is the newest part of the log.\<close>

theorem prune_keeps_a_year:
  assumes "audit_reach H t s" "prune now s = (res, s')"
  shows "\<exists>old. log_rows s = old @ log_rows s' \<and> (\<forall>r \<in> set old. e_at r + retention < now)"
proof -
  let ?old = "\<lambda>r. e_at r < now - retention"
  have "filter (\<lambda>r. \<not> ?old r) (log_rows s) = dropWhile ?old (log_rows s)"
    using audit_reach_inv [OF assms(1)] by (intro filter_sorted_suffix) (simp add: log_inv_def)
  then consider "s' = s" | "log_rows s' = dropWhile ?old (log_rows s)"
    using assms(2) by (auto simp: prune_def Let_def split: if_splits)
  then show ?thesis
  proof cases
    case 1
    then show ?thesis by simp
  next
    case 2
    then have "log_rows s = takeWhile ?old (log_rows s) @ log_rows s'" by simp
    moreover have "\<forall>r \<in> set (takeWhile ?old (log_rows s)). e_at r + retention < now"
      by (auto dest: set_takeWhileD)
    ultimately show ?thesis by blast
  qed
qed

theorem prune_keeps_a_year_witness:
  "\<exists>old. log_rows (ex_log id) = old @ log_rows (snd (prune 20 (ex_log id)))
     \<and> (\<forall>r \<in> set old. e_at r + retention < 20)"
  by (rule prune_keeps_a_year [OF ex_log_reach]) (rule surjective_pairing)

text \<open>
  After a leap day a calendar year has 366 days while \<open>Retention\<close> has 365: on 15 January 2025 the log
  still holds the entry of 15 January 2024, 12:00, and the statement that would delete what is older
  than 365 days is refused as a whole.
\<close>

lemma days_2024: "civil 20103 = (2025, 1, 15)" "civil 19737 = (2024, 1, 15)"
  by (simp_all add: civil_def year_of_eval month_days_def leap_year_def)

lemma days_to_2024: "(\<Sum>k = 1970..<2024. year_days k) = 19723"
proof -
  have "(\<Sum>k = 1970..<2024. year_days k) = sum_list (map year_days [1970..<2024])"
    by (simp only: interv_sum_list_conv_sum_set_nat atLeastLessThan_upt)
  also have "\<dots> = 19723" by (simp add: upt_rec_numeral year_days_def leap_year_def)
  finally show ?thesis .
qed

text \<open>In the year after a leap day one entry aged between 365 and 366 days blocks the whole prune, also
  for entries that are many years old.\<close>

theorem prune_blocked_after_leap_day:
  assumes "r \<in> set (log_rows s)" "e_at r = 19737 * us_per_day + 12 * 3600 * us_per_sec + 1"
    and "now = 20103 * us_per_day + 12 * 3600 * us_per_sec"
  shows "prune now s = (Inl ''the audit log keeps entries for one year'', s)"
proof -
  have ago: "year_ago now = 19737 * us_per_day + 12 * 3600 * us_per_sec"
    unfolding assms(3) by (simp add: year_ago_def us_per_day_def us_per_sec_def days_2024
      days_to_2024 days_before_month_def month_days_def Let_def)
  have "e_at r < now - retention"
    unfolding assms(2,3) by (simp add: retention_def us_per_day_def us_per_sec_def)
  moreover have "guard_refuses now r" using ago assms(2) by (simp add: guard_refuses_def)
  ultimately have "\<exists>r \<in> set (log_rows s). e_at r < now - retention \<and> guard_refuses now r"
    using assms(1) by blast
  then show ?thesis by (simp add: prune_def)
qed

theorem prune_blocked_after_leap_day_witness:
  "prune (20103 * us_per_day + 12 * 3600 * us_per_sec)
      \<lparr>log_rows = [(ex_row1 id), (ex_row2 id)\<lparr>e_at := 19737 * us_per_day + 12 * 3600 * us_per_sec + 1\<rparr>],
       log_next = 3\<rparr>
    = (Inl ''the audit log keeps entries for one year'',
      \<lparr>log_rows = [(ex_row1 id), (ex_row2 id)\<lparr>e_at := 19737 * us_per_day + 12 * 3600 * us_per_sec + 1\<rparr>],
       log_next = 3\<rparr>)"
  by (rule prune_blocked_after_leap_day
      [of "(ex_row2 id)\<lparr>e_at := 19737 * us_per_day + 12 * 3600 * us_per_sec + 1\<rparr>"]) simp_all

text \<open>Every recorded entry respects the column limits, whatever a client sent.\<close>

theorem recorded_fields_bounded:
  "\<forall>r \<in> set (log_rows (audit_Record H f now s e)) - set (log_rows s).
     length (e_actor r) \<le> 200 \<and> length (e_target r) \<le> 300 \<and> length (e_detail r) \<le> 500 \<and> e_at r = now"
  using audit_Record_cases [of H f now s e]
  by (auto simp: make_row_def stamped_def)

text \<open>An entry that stays within the limits and is valid text is stored exactly once, after all others,
  when the database answers.\<close>

theorem record_appends:
  assumes "storable (stamped now e)"
  shows "log_rows (audit_Record H no_faults now s e) =
    log_rows s @ [make_row H (log_next s) (last_hash (log_rows s)) (stamped now e)]"
  by (simp add: audit_Record_stored [OF assms])

theorem record_appends_witness:
  "log_rows (audit_Record id no_faults 5 empty_log example_entry) = [ex_row1 id]"
  using record_appends [OF example_storable, of id 5 empty_log]
  by (simp add: ex_row1_def empty_log_def last_hash_def)

text \<open>Clipping cuts at a byte, not at a character: an actor of 199 letters followed by a two-byte
  letter is valid text, but its clipped form is not, and the entry is lost.\<close>

theorem clipped_entry_lost:
  assumes "e_actor e = replicate 199 (CHR ''a'') @ [CHR 0xC3, CHR 0xA9]"
  shows "valid_utf8 (e_actor e) \<and> log_rows (audit_Record H f now s e) = log_rows s"
proof -
  have run: "runes (replicate n (CHR ''a'') @ x) = replicate n (byte (CHR ''a''), [CHR ''a'']) @ runes x" for n x
    by (induction n) (simp_all add: byte_def)
  have two: "runes [CHR 0xC3, CHR 0xA9] = [(233, [CHR 0xC3, CHR 0xA9])]"
    by (simp add: runes.simps decode_rune_def byte_def in_range_def)
  have one: "runes [CHR 0xC3] = [(rune_error, [CHR 0xC3])]"
    by (simp add: runes.simps decode_rune_def byte_def)
  have "valid_utf8 (e_actor e)" by (simp add: assms valid_utf8_def run two byte_def list_all_iff)
  moreover have "clip (e_actor e) 200 = replicate 199 (CHR ''a'') @ [CHR 0xC3]"
    by (simp add: clip_def assms)
  then have "\<not> valid_utf8 (clip (e_actor e) 200)" by (simp add: valid_utf8_def run one)
  then have "\<not> storable (stamped now e)" by (simp add: storable_def stamped_def pg_text_def)
  ultimately show ?thesis by (simp add: audit_Record_def audit_record_def Let_def)
qed

theorem clipped_entry_lost_witness:
  "log_rows (audit_Record id no_faults 5 empty_log
     (example_entry\<lparr>e_actor := replicate 199 (CHR ''a'') @ [CHR 0xC3, CHR 0xA9]\<rparr>)) = []"
  using clipped_entry_lost [of "example_entry\<lparr>e_actor := replicate 199 (CHR ''a'') @ [CHR 0xC3, CHR 0xA9]\<rparr>"]
  by (simp add: empty_log_def)

lemma where_holds_iff:
  "where_holds f r \<longleftrightarrow> (f_actor f \<noteq> [] \<longrightarrow> ilike_sub (f_actor f) (e_actor r))
     \<and> (f_action f \<noteq> [] \<longrightarrow> ilike_sub (f_action f) (e_action r))
     \<and> (\<forall>t. f_from f = Some t \<longrightarrow> t \<le> e_at r) \<and> (\<forall>t. f_to f = Some t \<longrightarrow> e_at r < t)"
  by (cases "f_from f"; cases "f_to f")
     (auto simp: where_holds_def filter_where_def add_cond_def arg_txt_def arg_tim_def nth_append)

text \<open>The page the log viewer shows holds at most 500 rows, all of which match the filter with its
  placeholders resolved to the right arguments, newest first; the count says how many match.\<close>

theorem audit_page_correct:
  assumes "audit_reach H t s" "audit_list ft s f = Inr (page, n)"
  shows "length page \<le> 500 \<and> sorted_wrt (>) (map eid page)
    \<and> (\<forall>r \<in> set page. r \<in> set (log_rows s)
      \<and> (f_actor f \<noteq> [] \<longrightarrow> ilike_sub (f_actor f) (e_actor r))
      \<and> (f_action f \<noteq> [] \<longrightarrow> ilike_sub (f_action f) (e_action r))
      \<and> (\<forall>t. f_from f = Some t \<longrightarrow> t \<le> e_at r) \<and> (\<forall>t. f_to f = Some t \<longrightarrow> e_at r < t))
    \<and> n = length (filter (where_holds f) (log_rows s))"
proof -
  let ?hits = "filter (where_holds f) (log_rows s)"
  have page: "page = take (page_limit (f_limit f)) (drop (nat (f_offset f)) (rev ?hits))"
    and n: "n = length ?hits"
    using assms(2) by (auto simp: audit_list_def Let_def split: if_splits)
  have "page_limit (f_limit f) \<le> 500" by (auto simp: page_limit_def)
  then have len: "length page \<le> 500" by (simp add: page)
  have "sorted_wrt (<) (map eid (log_rows s))"
    using audit_reach_inv [OF assms(1)] by (simp add: log_inv_def)
  then have "sorted_wrt (\<lambda>a b. eid a < eid b) ?hits" by (auto simp: sorted_wrt_map)
  then have "sorted_wrt (\<lambda>a b. eid b < eid a) (rev ?hits)" by (simp add: sorted_wrt_rev)
  then have sorted: "sorted_wrt (>) (map eid page)"
    unfolding page sorted_wrt_map by (intro sorted_wrt_take sorted_wrt_drop) simp
  have "r \<in> set (log_rows s) \<and> where_holds f r" if "r \<in> set page" for r
    using that unfolding page by (auto dest!: in_set_takeD in_set_dropD)
  then show ?thesis using len sorted n unfolding where_holds_iff by blast
qed

definition all_filter :: audit_filter where
  "all_filter = \<lparr>f_actor = [], f_action = [], f_from = Some 6, f_to = None, f_limit = 0, f_offset = 0\<rparr>"

theorem audit_page_correct_witness:
  "\<exists>page. audit_list no_faults (ex_log id) all_filter = Inr (page, 2) \<and> length page \<le> 500"
proof -
  have "where_holds all_filter r \<longleftrightarrow> 6 \<le> e_at r" for r
    by (simp add: where_holds_iff all_filter_def)
  then have l: "audit_list no_faults (ex_log id) all_filter = Inr ([ex_row3 id, ex_row2 id], 2)"
    by (simp add: audit_list_def filter_args_ok_def pg_text_def valid_utf8_def ex_log_def all_filter_def page_limit_def
        ex_row1_def ex_row2_def ex_row3_def make_row_def stamped_def)
  show ?thesis using audit_page_correct [OF ex_log_reach l] l by blast
qed

end
