(* ===== verification/Sessions.thy ===== *)
theory Sessions
  imports RateLimit AuditLog
begin

text \<open>
  Sessions: the admin sessions of \<open>backend/internal/auth/auth.go\<close>, the employee sessions of
  \<open>backend/internal/employee/auth.go\<close>, and the read-only check every feature module makes on the same
  tables (\<open>modules/*/service/internal/auth/auth.go\<close>).  Both stores implement the interface
  \<open>session_store\<close>, whose one consequence is that access, once gone, comes back only through a login.

  \<open>bcrypt\<close> and the random source are arguments: \<open>cmp hash password\<close> says whether the password fits,
  \<open>gen password\<close> is the hash (or \<open>None\<close> for the failure of \<open>GenerateFromPassword\<close>), \<open>rnd\<close> the 32 bytes
  read for a token.
\<close>

section \<open>The interface\<close>

locale session_store =
  fixes step :: "time \<Rightarrow> 'op \<Rightarrow> 's \<Rightarrow> 's"
    and validates :: "time \<Rightarrow> 's \<Rightarrow> string \<Rightarrow> string option"
    and grants :: "'op \<Rightarrow> string \<Rightarrow> bool"
    and inv :: "'s \<Rightarrow> bool"
  assumes inv_step: "inv s \<Longrightarrow> inv (step t op s)"
    and only_login_grants:
      "inv s \<Longrightarrow> validates now (step t op s) tok = Some u \<Longrightarrow> \<not> grants op u \<Longrightarrow> validates now s tok = Some u"
    and expiry: "inv s \<Longrightarrow> validates now' s tok = Some u \<Longrightarrow> now \<le> now' \<Longrightarrow> validates now s tok = Some u"
begin

fun run :: "(time \<times> 'op) list \<Rightarrow> 's \<Rightarrow> 's" where
  "run [] s = s"
| "run ((t, op) # ops) s = run ops (step t op s)"

lemma run_append: "run (xs @ ys) s = run ys (run xs s)"
  by (induction xs arbitrary: s) auto

lemma inv_run: "inv s \<Longrightarrow> inv (run ops s)"
  by (induction ops arbitrary: s) (auto simp: inv_step)

lemma no_login_no_access:
  assumes "inv s" "validates now (run ops s) tok = Some u" "\<forall>(t, op) \<in> set ops. \<not> grants op u"
  shows "validates now s tok = Some u"
  using assms
proof (induction ops arbitrary: s)
  case Nil
  then show ?case by simp
next
  case (Cons e ops)
  obtain t op where e: "e = (t, op)" by (cases e)
  have "validates now (step t op s) tok = Some u"
    using Cons e by (auto intro: inv_step)
  then show ?case using Cons.prems e by (auto intro: only_login_grants)
qed

lemma stays_out:
  assumes "inv s" "\<And>now. validates now s tok \<noteq> Some u" "\<forall>(t, op) \<in> set ops. \<not> grants op u"
  shows "validates now (run ops s) tok \<noteq> Some u"
  using assms no_login_no_access by blast

lemma expired_stays_out:
  assumes "inv s" "validates t s tok \<noteq> Some u" "t \<le> now" "\<forall>(t, op) \<in> set ops. \<not> grants op u"
  shows "validates now (run ops s) tok \<noteq> Some u"
  using assms expiry no_login_no_access by blast

end

section \<open>The tables\<close>

definition session_ttl :: time where "session_ttl = 7 * 24 * hour"

record admin_user =
  au_id :: int
  au_email :: string
  au_hash :: string

record admin_session =
  as_token :: string
  as_user :: int
  as_expires :: time

record admin_db =
  admins :: "admin_user list"
  admin_next :: int
  admin_sessions :: "admin_session list"

record emp_session =
  es_token :: string
  es_user :: string
  es_expires :: time

record login_info =
  li_user :: string
  li_at :: time
  li_ip :: string
  li_count :: nat

record emp_db =
  emp_sessions :: "emp_session list"
  user_logins :: "login_info list"

definition random_token :: "string option \<Rightarrow> string option" where
  "random_token rnd = map_option hex_encode rnd"

section \<open>Admin sessions\<close>

datatype login_error = Invalid_credentials | Other_error string

definition ensure_admin ::
  "(string \<Rightarrow> string option) \<Rightarrow> faults \<Rightarrow> admin_db \<Rightarrow> string \<Rightarrow> string \<Rightarrow> (string + unit) \<times> admin_db" where
  "ensure_admin gen f s email password =
     (if email = [] \<or> password = [] then (Inr (), s)
      else if f ''count'' then (Inl ''count'', s)
      else if 0 < length (admins s) then (Inr (), s)
      else case gen password of
        None \<Rightarrow> (Inl ''bcrypt'', s)
      | Some h \<Rightarrow>
          if f ''insert'' then (Inl ''insert'', s)
          else (Inr (), s\<lparr>admins := admins s @ [\<lparr>au_id = admin_next s, au_email = email, au_hash = h\<rparr>],
                         admin_next := admin_next s + 1\<rparr>))"

definition admin_login ::
  "(string \<Rightarrow> string \<Rightarrow> bool) \<Rightarrow> string option \<Rightarrow> faults \<Rightarrow> time \<Rightarrow> admin_db \<Rightarrow> string \<Rightarrow> string
     \<Rightarrow> (login_error + string) \<times> admin_db" where
  "admin_login cmp rnd f now s email password =
     (if f ''select'' then (Inl (Other_error ''select''), s)
      else case find (\<lambda>a. au_email a = email) (admins s) of
        None \<Rightarrow> (Inl Invalid_credentials, s)
      | Some a \<Rightarrow>
          if \<not> cmp (au_hash a) password then (Inl Invalid_credentials, s)
          else case random_token rnd of
            None \<Rightarrow> (Inl (Other_error ''rand''), s)
          | Some tok \<Rightarrow>
              if f ''insert'' \<or> tok \<in> as_token ` set (admin_sessions s)
              then (Inl (Other_error ''insert''), s)
              else (Inr tok, s\<lparr>admin_sessions := admin_sessions s @
                      [\<lparr>as_token = tok, as_user = au_id a, as_expires = now + session_ttl\<rparr>]\<rparr>))"

definition admin_logout :: "faults \<Rightarrow> admin_db \<Rightarrow> string \<Rightarrow> (string + unit) \<times> admin_db" where
  "admin_logout f s tok =
     (if f ''delete'' then (Inl ''delete'', s)
      else (Inr (), s\<lparr>admin_sessions := filter (\<lambda>x. as_token x \<noteq> tok) (admin_sessions s)\<rparr>))"

definition email_of :: "admin_db \<Rightarrow> int \<Rightarrow> string option" where
  "email_of s i = map_option au_email (find (\<lambda>a. au_id a = i) (admins s))"

text \<open>The row of the join, if there is one: the token is a primary key.\<close>

definition admin_row :: "time \<Rightarrow> admin_db \<Rightarrow> string \<Rightarrow> string option" where
  "admin_row now s tok =
     (case find (\<lambda>x. as_token x = tok \<and> now < as_expires x) (admin_sessions s) of
        None \<Rightarrow> None
      | Some x \<Rightarrow> email_of s (as_user x))"

definition admin_validate :: "faults \<Rightarrow> time \<Rightarrow> admin_db \<Rightarrow> string \<Rightarrow> string + string" where
  "admin_validate f now s tok =
     (if f ''select'' then Inl ''select''
      else case admin_row now s tok of
        None \<Rightarrow> Inl ''session not found or expired''
      | Some email \<Rightarrow> Inr email)"

section \<open>Employee sessions\<close>

definition emp_login ::
  "(string + bool) \<Rightarrow> string option \<Rightarrow> faults \<Rightarrow> time \<Rightarrow> emp_db \<Rightarrow> string
     \<Rightarrow> (login_error + string) \<times> emp_db" where
  "emp_login verified rnd f now s username =
     (case verified of
        Inl e \<Rightarrow> (Inl (Other_error e), s)
      | Inr ok \<Rightarrow>
          if \<not> ok then (Inl Invalid_credentials, s)
          else case random_token rnd of
            None \<Rightarrow> (Inl (Other_error ''rand''), s)
          | Some tok \<Rightarrow>
              let s1 = (if f ''sweep'' then s
                        else s\<lparr>emp_sessions := filter (\<lambda>x. \<not> es_expires x < now) (emp_sessions s)\<rparr>) in
              if f ''insert'' \<or> tok \<in> es_token ` set (emp_sessions s1)
              then (Inl (Other_error ''insert''), s1)
              else (Inr tok, s1\<lparr>emp_sessions := emp_sessions s1 @
                      [\<lparr>es_token = tok, es_user = username, es_expires = now + session_ttl\<rparr>]\<rparr>))"

definition record_login :: "faults \<Rightarrow> time \<Rightarrow> emp_db \<Rightarrow> string \<Rightarrow> string \<Rightarrow> (string + unit) \<times> emp_db" where
  "record_login f now s username ip =
     (if f ''record login'' then (Inl ''record login'', s)
      else (Inr (), s\<lparr>user_logins :=
        (if username \<in> li_user ` set (user_logins s)
         then map (\<lambda>l. if li_user l = username
                       then l\<lparr>li_at := now, li_ip := ip, li_count := li_count l + 1\<rparr> else l) (user_logins s)
         else user_logins s @ [\<lparr>li_user = username, li_at = now, li_ip = ip, li_count = 1\<rparr>])\<rparr>))"

definition revoke_all :: "faults \<Rightarrow> emp_db \<Rightarrow> string \<Rightarrow> (string + unit) \<times> emp_db" where
  "revoke_all f s username =
     (if f ''revoke'' then (Inl ''revoke'', s)
      else (Inr (), s\<lparr>emp_sessions := filter (\<lambda>x. es_user x \<noteq> username) (emp_sessions s)\<rparr>))"

definition emp_logout :: "faults \<Rightarrow> emp_db \<Rightarrow> string \<Rightarrow> (string + unit) \<times> emp_db" where
  "emp_logout f s tok =
     (if f ''delete'' then (Inl ''delete'', s)
      else (Inr (), s\<lparr>emp_sessions := filter (\<lambda>x. es_token x \<noteq> tok) (emp_sessions s)\<rparr>))"

definition emp_row :: "time \<Rightarrow> emp_db \<Rightarrow> string \<Rightarrow> string option" where
  "emp_row now s tok =
     map_option es_user (find (\<lambda>x. es_token x = tok \<and> now < es_expires x) (emp_sessions s))"

definition emp_validate :: "faults \<Rightarrow> time \<Rightarrow> emp_db \<Rightarrow> string \<Rightarrow> string + string" where
  "emp_validate f now s tok =
     (if f ''select'' then Inl ''select''
      else case emp_row now s tok of
        None \<Rightarrow> Inl ''session not found or expired''
      | Some u \<Rightarrow> Inr u)"

text \<open>\<open>ValidateAdminSession\<close> and \<open>ValidateEmployeeSession\<close> of the modules.\<close>

definition module_admin_session :: "faults \<Rightarrow> time \<Rightarrow> admin_db \<Rightarrow> string \<Rightarrow> string + string" where
  "module_admin_session f now s tok =
     (if tok = [] then Inl ''session not found or expired'' else admin_validate f now s tok)"

definition module_employee_session :: "faults \<Rightarrow> time \<Rightarrow> emp_db \<Rightarrow> string \<Rightarrow> string + string" where
  "module_employee_session f now s tok =
     (if tok = [] then Inl ''session not found or expired'' else emp_validate f now s tok)"

section \<open>Both stores keep the interface\<close>

lemmas session_defs = admin_login_def admin_logout_def ensure_admin_def emp_login_def record_login_def
  revoke_all_def emp_logout_def admin_row_def emp_row_def Let_def

lemma find_filter: "find P (filter Q xs) = find (\<lambda>x. P x \<and> Q x) xs"
  by (induction xs) auto

datatype emp_op =
    E_login "string + bool" "string option" faults string
  | E_logout faults string
  | E_revoke faults string
  | E_record faults string string

fun emp_step :: "time \<Rightarrow> emp_op \<Rightarrow> emp_db \<Rightarrow> emp_db" where
  "emp_step t (E_login v rnd f u) s = snd (emp_login v rnd f t s u)"
| "emp_step t (E_logout f tok) s = snd (emp_logout f s tok)"
| "emp_step t (E_revoke f u) s = snd (revoke_all f s u)"
| "emp_step t (E_record f u ip) s = snd (record_login f t s u ip)"

fun emp_grants :: "emp_op \<Rightarrow> string \<Rightarrow> bool" where
  "emp_grants (E_login v rnd f u') u = (v = Inr True \<and> u' = u)"
| "emp_grants op u = False"

text \<open>No two sessions of the table share a token; \<open>find\<close> may then be read as the row of the token.\<close>

definition emp_inv :: "emp_db \<Rightarrow> bool" where
  "emp_inv s \<longleftrightarrow> distinct (map es_token (emp_sessions s)) \<and> distinct (map li_user (user_logins s))"

definition admin_inv :: "admin_db \<Rightarrow> bool" where
  "admin_inv s \<longleftrightarrow> distinct (map as_token (admin_sessions s)) \<and> distinct (map au_id (admins s))
     \<and> (\<forall>a \<in> set (admins s). au_id a < admin_next s)
     \<and> (\<forall>x \<in> set (admin_sessions s). as_user x \<in> au_id ` set (admins s))"

lemma emp_row_iff:
  assumes "emp_inv s"
  shows "emp_row now s tok = Some u \<longleftrightarrow>
    (\<exists>x \<in> set (emp_sessions s). es_token x = tok \<and> now < es_expires x \<and> es_user x = u)"
proof -
  have uniq: "\<And>x y. x \<in> set (emp_sessions s) \<Longrightarrow> y \<in> set (emp_sessions s) \<Longrightarrow> es_token x = es_token y \<Longrightarrow> x = y"
    using assms by (auto simp: emp_inv_def distinct_map inj_on_def)
  show ?thesis
  proof
    assume "emp_row now s tok = Some u"
    then show "\<exists>x \<in> set (emp_sessions s). es_token x = tok \<and> now < es_expires x \<and> es_user x = u"
      by (auto simp: emp_row_def dest!: find_Some_set)
  next
    assume "\<exists>x \<in> set (emp_sessions s). es_token x = tok \<and> now < es_expires x \<and> es_user x = u"
    then obtain x where x: "x \<in> set (emp_sessions s)" "es_token x = tok" "now < es_expires x" "es_user x = u"
      by blast
    then obtain y where y: "find (\<lambda>x. es_token x = tok \<and> now < es_expires x) (emp_sessions s) = Some y"
      by (metis (mono_tags, lifting) find_None_set not_None_eq)
    then have "y = x" using uniq x by (auto dest!: find_Some_set)
    then show "emp_row now s tok = Some u" using y x by (simp add: emp_row_def)
  qed
qed

lemma emp_inv_step [state_inv]: "emp_inv s \<Longrightarrow> emp_inv (emp_step t op s)"
proof (cases op)
  case (E_record f u ip)
  have "map li_user (map (\<lambda>l. if li_user l = u then l\<lparr>li_at := t, li_ip := ip, li_count := li_count l + 1\<rparr> else l) ls)
      = map li_user ls" for ls :: "login_info list" by simp
  moreover assume "emp_inv s"
  ultimately show ?thesis using E_record
    by (simp add: emp_inv_def record_login_def del: map_map)
qed (auto simp: emp_inv_def session_defs distinct_map_filter' split: sum.splits option.splits)

lemma emp_row_step:
  assumes "emp_inv s" "emp_row now (emp_step t op s) tok = Some u" "\<not> emp_grants op u"
  shows "emp_row now s tok = Some u"
proof -
  have "emp_inv (emp_step t op s)" using assms(1) by (rule emp_inv_step)
  then obtain x where x: "x \<in> set (emp_sessions (emp_step t op s))" "es_token x = tok"
      "now < es_expires x" "es_user x = u"
    using assms(2) emp_row_iff by blast
  then have "x \<in> set (emp_sessions s)"
    using assms(3) by (cases op) (auto simp: session_defs split: sum.splits option.splits if_splits)
  then show ?thesis using x emp_row_iff [OF assms(1)] by blast
qed

lemma emp_row_expiry: "emp_inv s \<Longrightarrow> emp_row now' s tok = Some u \<Longrightarrow> now \<le> now' \<Longrightarrow> emp_row now s tok = Some u"
  by (fastforce simp: emp_row_iff)

interpretation emp_store: session_store emp_step emp_row emp_grants emp_inv
  by unfold_locales (auto intro: emp_inv_step emp_row_step emp_row_expiry)

datatype admin_op =
    A_ensure "string \<Rightarrow> string option" faults string string
  | A_login "string \<Rightarrow> string \<Rightarrow> bool" "string option" faults string string
  | A_logout faults string

fun admin_step :: "time \<Rightarrow> admin_op \<Rightarrow> admin_db \<Rightarrow> admin_db" where
  "admin_step t (A_ensure gen f e p) s = snd (ensure_admin gen f s e p)"
| "admin_step t (A_login cmp rnd f e p) s = snd (admin_login cmp rnd f t s e p)"
| "admin_step t (A_logout f tok) s = snd (admin_logout f s tok)"

fun admin_grants :: "admin_op \<Rightarrow> string \<Rightarrow> bool" where
  "admin_grants (A_login cmp rnd f e p) u = (e = u)"
| "admin_grants op u = False"

lemma admin_inv_step [state_inv]: "admin_inv s \<Longrightarrow> admin_inv (admin_step t op s)"
  by (cases op)
    (auto simp: admin_inv_def session_defs distinct_map_filter' split: option.splits dest!: find_Some_set)

lemma admin_row_iff:
  assumes "admin_inv s"
  shows "admin_row now s tok = Some u \<longleftrightarrow>
    (\<exists>x \<in> set (admin_sessions s). \<exists>a \<in> set (admins s).
       as_token x = tok \<and> now < as_expires x \<and> au_id a = as_user x \<and> au_email a = u)"
    (is "_ \<longleftrightarrow> ?R")
proof -
  have tok: "\<And>x y. x \<in> set (admin_sessions s) \<Longrightarrow> y \<in> set (admin_sessions s) \<Longrightarrow>
      as_token x = as_token y \<Longrightarrow> x = y"
    and ids: "distinct (map au_id (admins s))"
    using assms by (auto simp: admin_inv_def distinct_map inj_on_def)
  have mail: "email_of s i = Some u \<longleftrightarrow> (\<exists>a \<in> set (admins s). au_id a = i \<and> au_email a = u)" for i
    using find_unique [OF ids] by (auto simp: email_of_def dest!: find_Some_set)
  show ?thesis
  proof
    assume "admin_row now s tok = Some u"
    then show ?R by (auto simp: admin_row_def mail split: option.splits dest!: find_Some_set)
  next
    assume ?R
    then obtain x where x: "x \<in> set (admin_sessions s)" "as_token x = tok" "now < as_expires x"
        "email_of s (as_user x) = Some u"
      by (auto simp: mail)
    then obtain y where y: "find (\<lambda>x. as_token x = tok \<and> now < as_expires x) (admin_sessions s) = Some y"
      by (metis (mono_tags, lifting) find_None_set not_None_eq)
    then have "y = x" using tok x by (auto dest!: find_Some_set)
    then show "admin_row now s tok = Some u" using y x by (simp add: admin_row_def)
  qed
qed

lemma admin_row_step:
  assumes inv: "admin_inv s" and row: "admin_row now (admin_step t op s) tok = Some u"
    and no: "\<not> admin_grants op u"
  shows "admin_row now s tok = Some u"
proof -
  have inv': "admin_inv (admin_step t op s)" using inv by (rule admin_inv_step)
  obtain x a where x: "x \<in> set (admin_sessions (admin_step t op s))" "as_token x = tok" "now < as_expires x"
    and a: "a \<in> set (admins (admin_step t op s))" "au_id a = as_user x" "au_email a = u"
    using row admin_row_iff [OF inv'] by blast
  have ids: "\<And>a b. a \<in> set (admins s) \<Longrightarrow> b \<in> set (admins s) \<Longrightarrow> au_id a = au_id b \<Longrightarrow> a = b"
    using inv by (auto simp: admin_inv_def distinct_map inj_on_def)
  have "x \<in> set (admin_sessions s) \<and> a \<in> set (admins s)"
  proof (cases op)
    case (A_ensure gen f e p)
    then have "x \<in> set (admin_sessions s)"
      using x by (auto simp: session_defs split: option.splits if_splits)
    moreover have "a \<in> set (admins s)"
      using A_ensure a calculation inv
      by (fastforce simp: session_defs admin_inv_def split: option.splits if_splits)
    ultimately show ?thesis by blast
  next
    case (A_login cmp rnd f e p)
    then have "a \<in> set (admins s)" using a by (auto simp: session_defs split: option.splits if_splits)
    moreover have "x \<in> set (admin_sessions s)"
      using A_login x a no calculation
      by (auto simp: session_defs split: option.splits if_splits dest!: find_Some_set) (metis ids)+
    ultimately show ?thesis by blast
  next
    case (A_logout f tk)
    then show ?thesis using x a by (auto simp: session_defs split: if_splits)
  qed
  then show ?thesis using x a admin_row_iff [OF inv] by blast
qed

lemma admin_row_expiry: "admin_inv s \<Longrightarrow> admin_row now' s tok = Some u \<Longrightarrow> now \<le> now' \<Longrightarrow> admin_row now s tok = Some u"
  by (fastforce simp: admin_row_iff)

interpretation admin_store: session_store admin_step admin_row admin_grants admin_inv
  by unfold_locales (auto intro: admin_inv_step admin_row_step admin_row_expiry)

section \<open>Access that is gone stays gone\<close>

text \<open>C4: Once RevokeAll has succeeded for an employee (account disabled, deleted, or password reset), no
  token validates as that employee any more, neither in the core nor in any module, whatever else
  happens to the session table in any order and with any failures, until that employee logs in again.\<close>

theorem revoked_stays_out:
  assumes "emp_inv s" "\<not> f ''revoke''"
    and "\<forall>(t, op) \<in> set ops. \<not> emp_grants op u"
  shows "emp_validate f' now (emp_store.run ops (snd (revoke_all f s u))) tok \<noteq> Inr u \<and>
         module_employee_session f' now (emp_store.run ops (snd (revoke_all f s u))) tok \<noteq> Inr u"
proof -
  let ?s = "snd (revoke_all f s u)"
  have inv: "emp_inv ?s" using emp_inv_step [OF assms(1), of 0 "E_revoke f u"] by simp
  have "emp_row t ?s tok \<noteq> Some u" for t
    using assms(2) by (auto simp: emp_row_iff [OF inv]) (auto simp: revoke_all_def)
  then have "emp_row now (emp_store.run ops ?s) tok \<noteq> Some u"
    using emp_store.stays_out inv assms(3) by blast
  then show ?thesis by (auto simp: emp_validate_def module_employee_session_def split: option.splits)
qed

text \<open>A store with two sessions of one employee and one of another, for the witnesses.\<close>

definition example_emp :: emp_db where
  "example_emp = \<lparr>emp_sessions =
     [\<lparr>es_token = ''t1'', es_user = ''ann'', es_expires = 1000\<rparr>,
      \<lparr>es_token = ''t2'', es_user = ''bob'', es_expires = 1000\<rparr>], user_logins = []\<rparr>"

lemma example_emp_inv: "emp_inv example_emp"
  by (simp add: emp_inv_def example_emp_def)

theorem revoked_stays_out_witness:
  "emp_validate no_faults 5 example_emp ''t1'' = Inr ''ann'' \<and>
   emp_validate no_faults 9 (emp_store.run [(7, E_login (Inr True) (Some ''x'') no_faults ''bob'')]
     (snd (revoke_all no_faults example_emp ''ann''))) ''t1'' \<noteq> Inr ''ann''"
proof
  show "emp_validate no_faults 5 example_emp ''t1'' = Inr ''ann''"
    by (simp add: emp_validate_def emp_row_def example_emp_def)
  show "emp_validate no_faults 9 (emp_store.run [(7, E_login (Inr True) (Some ''x'') no_faults ''bob'')]
     (snd (revoke_all no_faults example_emp ''ann''))) ''t1'' \<noteq> Inr ''ann''"
    using revoked_stays_out [OF example_emp_inv, of no_faults
        "[(7, E_login (Inr True) (Some ''x'') no_faults ''bob'')]" "''ann''" no_faults 9 "''t1''"]
    by simp
qed

end
