(* ===== verification/Login.thy ===== *)
theory Login
  imports Sessions
begin

text \<open>
  The login, logout and who-am-I handlers of the core (\<open>backend/internal/api/auth.go\<close>, \<open>portal.go\<close>) with
  the parts of the server they share (\<open>api.go\<close>): the two limiters, the two session tables and the audit
  log.  \<open>H\<close> is SHA-256, \<open>f\<close> the faults of the session statements, \<open>fa\<close> those of the audit log, \<open>cmp\<close> and
  \<open>rnd\<close> as in the session theory.  The calendar call of the employee login reaches no state modelled
  here; the model keeps the list of the calls made.
\<close>

section \<open>The server\<close>

record platform =
  pf_admin :: admin_db
  pf_emp :: emp_db
  pf_admin_lim :: limiter
  pf_emp_lim :: limiter
  pf_audit :: audit_log
  pf_calendar :: "(string \<times> string) list"

definition login_rate_limit_max :: int where "login_rate_limit_max = 10"
definition login_rate_limit_window :: time where "login_rate_limit_window = 15 * minute"

definition secure_cookie :: "string \<Rightarrow> bool" where
  "secure_cookie forwarded_proto \<longleftrightarrow> forwarded_proto = ''https''"

definition rate_limit_key :: "string \<Rightarrow> string" where
  "rate_limit_key ip = (if ip = [] then ''unknown'' else ip)"

definition require_auth :: "faults \<Rightarrow> time \<Rightarrow> admin_db \<Rightarrow> string \<Rightarrow> string result" where
  "require_auth f now s tok =
     (if tok = [] then Inl not_authenticated
      else case admin_validate f now s tok of
        Inl _ \<Rightarrow> Inl not_authenticated
      | Inr email \<Rightarrow> Inr email)"

definition require_employee_auth :: "faults \<Rightarrow> time \<Rightarrow> emp_db \<Rightarrow> string \<Rightarrow> string result" where
  "require_employee_auth f now s tok =
     (if tok = [] then Inl not_authenticated
      else case emp_validate f now s tok of
        Inl _ \<Rightarrow> Inl not_authenticated
      | Inr u \<Rightarrow> Inr u)"

text \<open>The audit log's clock counts microseconds.\<close>

definition audit_clock :: "time \<Rightarrow> nat" where
  "audit_clock now = nat (now div 1000)"

definition login_entry :: "string \<Rightarrow> string \<Rightarrow> string \<Rightarrow> string \<Rightarrow> int \<Rightarrow> entry" where
  "login_entry actor kind action ip status =
     \<lparr>eid = 0, e_at = 0, e_actor = actor, e_kind = kind, e_action = action, e_target = [], e_ip = ip,
      e_status = status, e_detail = []\<rparr>"

definition audit_note ::
  "(string \<Rightarrow> string) \<Rightarrow> faults \<Rightarrow> time \<Rightarrow> entry \<Rightarrow> platform \<Rightarrow> platform" where
  "audit_note H fa now e pf = pf\<lparr>pf_audit := audit_Record H fa (audit_clock now) (pf_audit pf) e\<rparr>"

record cookie =
  ck_name :: string
  ck_value :: string
  ck_secure :: bool
  ck_expires :: time

text \<open>\<open>Path: "/"\<close>, \<open>HttpOnly\<close> and \<open>SameSite: Lax\<close> are the same for every cookie the server sets.\<close>

definition session_cookie :: "string \<Rightarrow> string \<Rightarrow> string \<Rightarrow> time \<Rightarrow> cookie" where
  "session_cookie name value proto expires =
     \<lparr>ck_name = name, ck_value = value, ck_secure = secure_cookie proto, ck_expires = expires\<rparr>"

section \<open>Admin handlers\<close>

definition login_handler ::
  "(string \<Rightarrow> string) \<Rightarrow> (string \<Rightarrow> string \<Rightarrow> bool) \<Rightarrow> string option \<Rightarrow> faults \<Rightarrow> faults \<Rightarrow> time \<Rightarrow> platform
     \<Rightarrow> string \<Rightarrow> string \<Rightarrow> string \<Rightarrow> string \<Rightarrow> (cookie \<times> string) result \<times> platform" where
  "login_handler H cmp rnd f fa now pf ip proto email password =
     (let key = rate_limit_key ip; ask = allowed (pf_admin_lim pf) now key;
          pf1 = pf\<lparr>pf_admin_lim := snd ask\<rparr> in
      if \<not> fst ask
      then (Inl (HTTP 429 ''too many failed login attempts''),
            audit_note H fa now (login_entry email ''admin'' ''login-blocked'' ip 429) pf1)
      else case admin_login cmp rnd f now (pf_admin pf1) email password of
        (Inl err, db) \<Rightarrow>
          (Inl (case err of Invalid_credentials \<Rightarrow> HTTP 401 ''invalid email or password''
                          | Other_error _ \<Rightarrow> internal_error ''login failed''),
           audit_note H fa now (login_entry email ''admin'' ''login-failed'' ip 401)
             (pf1\<lparr>pf_admin := db, pf_admin_lim := record_failure (pf_admin_lim pf1) now key\<rparr>))
      | (Inr tok, db) \<Rightarrow>
          (Inr (session_cookie ''itp_session'' tok proto (now + 7 * 24 * hour), email),
           audit_note H fa now (login_entry email ''admin'' ''login'' ip 200)
             (pf1\<lparr>pf_admin := db, pf_admin_lim := lim_reset (pf_admin_lim pf1) key\<rparr>)))"

definition logout_handler :: "faults \<Rightarrow> platform \<Rightarrow> string \<Rightarrow> string \<Rightarrow> cookie result \<times> platform" where
  "logout_handler f pf proto tok =
     (Inr (session_cookie ''itp_session'' [] proto 0),
      pf\<lparr>pf_admin := snd (admin_logout f (pf_admin pf) tok)\<rparr>)"

definition me_handler :: "faults \<Rightarrow> time \<Rightarrow> platform \<Rightarrow> string \<Rightarrow> string result" where
  "me_handler f now pf tok = require_auth f now (pf_admin pf) tok"

section \<open>Employee handlers\<close>

text \<open>
  \<open>dir\<close> is what \<open>directoryClient\<close> returns: an error, no running directory, or the directory's
  \<open>VerifyPassword\<close>.
\<close>

definition portal_login_handler ::
  "(string \<Rightarrow> string) \<Rightarrow> string + (string \<Rightarrow> string \<Rightarrow> string + bool) option \<Rightarrow> string option \<Rightarrow> faults \<Rightarrow> faults
     \<Rightarrow> time \<Rightarrow> platform \<Rightarrow> string \<Rightarrow> string \<Rightarrow> string \<Rightarrow> string \<Rightarrow> (cookie \<times> string) result \<times> platform" where
  "portal_login_handler H dir rnd f fa now pf ip proto username password =
     (let key = rate_limit_key ip; ask = allowed (pf_emp_lim pf) now key;
          pf1 = pf\<lparr>pf_emp_lim := snd ask\<rparr> in
      if \<not> fst ask
      then (Inl (HTTP 429 ''too many failed login attempts''),
            audit_note H fa now (login_entry username ''employee'' ''portal-login-blocked'' ip 429) pf1)
      else case dir of
        Inl _ \<Rightarrow> (Inl (internal_error ''check identity module''), pf1)
      | Inr None \<Rightarrow> (Inl (HTTP 400 ''the Identity module isn't installed yet''), pf1)
      | Inr (Some verify_password) \<Rightarrow>
          (case emp_login (verify_password username password) rnd f now (pf_emp pf1) username of
             (Inl _, db) \<Rightarrow>
               (Inl (HTTP 401 ''invalid username or password''),
                audit_note H fa now (login_entry username ''employee'' ''portal-login-failed'' ip 401)
                  (pf1\<lparr>pf_emp := db, pf_emp_lim := record_failure (pf_emp_lim pf1) now key\<rparr>))
           | (Inr tok, db) \<Rightarrow>
               (let pf2 = audit_note H fa now (login_entry username ''employee'' ''portal-login'' ip 200)
                      (pf1\<lparr>pf_emp := db, pf_emp_lim := lim_reset (pf_emp_lim pf1) key\<rparr>);
                    pf3 = pf2\<lparr>pf_emp := snd (record_login f now (pf_emp pf2) username ip),
                              pf_calendar := pf_calendar pf2 @ [(username, password)]\<rparr>
                in (Inr (session_cookie ''itp_employee_session'' tok proto (now + 7 * 24 * hour), username),
                    pf3))))"

definition portal_logout_handler :: "faults \<Rightarrow> platform \<Rightarrow> string \<Rightarrow> string \<Rightarrow> cookie result \<times> platform" where
  "portal_logout_handler f pf proto tok =
     (Inr (session_cookie ''itp_employee_session'' [] proto 0),
      if tok \<noteq> [] then pf\<lparr>pf_emp := snd (emp_logout f (pf_emp pf) tok)\<rparr> else pf)"

text \<open>The first group that lists the member; \<open>groups\<close> is what the directory's \<open>ListGroups\<close> returns.\<close>

definition employee_group :: "string + (string + (string \<times> string list) list) option \<Rightarrow> string \<Rightarrow> string + string" where
  "employee_group dir username =
     (case dir of
        Inl e \<Rightarrow> Inl e
      | Inr None \<Rightarrow> Inr []
      | Inr (Some (Inl e)) \<Rightarrow> Inl e
      | Inr (Some (Inr groups)) \<Rightarrow>
          (case find (\<lambda>g. username \<in> set (snd g)) groups of None \<Rightarrow> Inr [] | Some g \<Rightarrow> Inr (fst g)))"

definition portal_me_handler ::
  "faults \<Rightarrow> time \<Rightarrow> string + (string + (string \<times> string list) list) option \<Rightarrow> platform \<Rightarrow> string
     \<Rightarrow> (string \<times> string) result" where
  "portal_me_handler f now dir pf tok =
     (case require_employee_auth f now (pf_emp pf) tok of
        Inl e \<Rightarrow> Inl e
      | Inr u \<Rightarrow> Inr (u, case employee_group dir u of Inl _ \<Rightarrow> [] | Inr g \<Rightarrow> g))"

section \<open>What the handlers guarantee\<close>

lemma audit_note_simps [simp]:
  "pf_admin (audit_note H fa now e pf) = pf_admin pf" "pf_emp (audit_note H fa now e pf) = pf_emp pf"
  "pf_admin_lim (audit_note H fa now e pf) = pf_admin_lim pf"
  "pf_emp_lim (audit_note H fa now e pf) = pf_emp_lim pf"
  by (simp_all add: audit_note_def)

lemma admin_login_ok:
  assumes "admin_login cmp rnd f now s email password = (Inr tok, s')"
  shows "\<exists>a \<in> set (admins s). au_email a = email \<and> cmp (au_hash a) password
    \<and> tok \<notin> as_token ` set (admin_sessions s)
    \<and> s' = s\<lparr>admin_sessions := admin_sessions s @
          [\<lparr>as_token = tok, as_user = au_id a, as_expires = now + session_ttl\<rparr>]\<rparr>"
proof -
  obtain a where "find (\<lambda>a. au_email a = email) (admins s) = Some a"
    using assms by (auto simp: admin_login_def split: option.splits if_splits)
  moreover from this have "a \<in> set (admins s)" "au_email a = email" by (auto dest: find_Some_set)
  ultimately show ?thesis
    using assms by (intro bexI [of _ a]) (auto simp: admin_login_def split: option.splits if_splits)
qed

lemma admin_login_no_session:
  "admin_login cmp rnd f now s email password = (Inl e, s') \<Longrightarrow> s' = s"
  by (auto simp: admin_login_def split: option.splits if_splits)

lemma login_handler_ok:
  assumes "login_handler H cmp rnd f fa now pf ip proto email password = (Inr (c, who), pf')"
  shows "who = email \<and> admin_login cmp rnd f now (pf_admin pf) email password = (Inr (ck_value c), pf_admin pf')
    \<and> ck_name c = ''itp_session'' \<and> fst (allowed (pf_admin_lim pf) now (rate_limit_key ip))"
  using assms
  by (auto simp: login_handler_def session_cookie_def Let_def split: if_splits prod.splits sum.splits)

text \<open>C5: The admin login lets in only who knows a password: a successful answer means an admin row with
  that email whose hash fits the password, and its cookie is accepted by requireAuth as that admin from
  then on for exactly seven days.\<close>

theorem login_requires_password:
  assumes "admin_inv (pf_admin pf)"
    and "login_handler H cmp rnd f fa now pf ip proto email password = (Inr (c, who), pf')"
    and "ck_value c \<noteq> []"
  shows "(\<exists>a \<in> set (admins (pf_admin pf)). au_email a = email \<and> cmp (au_hash a) password) \<and>
    (require_auth no_faults t (pf_admin pf') (ck_value c) = Inr email \<longleftrightarrow> t < now + 7 * 24 * hour)"
proof -
  have login: "admin_login cmp rnd f now (pf_admin pf) email password = (Inr (ck_value c), pf_admin pf')"
    using login_handler_ok [OF assms(2)] by simp
  obtain a where a: "a \<in> set (admins (pf_admin pf))" "au_email a = email" "cmp (au_hash a) password"
    and fresh: "ck_value c \<notin> as_token ` set (admin_sessions (pf_admin pf))"
    and db: "pf_admin pf' = (pf_admin pf)\<lparr>admin_sessions := admin_sessions (pf_admin pf) @
          [\<lparr>as_token = ck_value c, as_user = au_id a, as_expires = now + session_ttl\<rparr>]\<rparr>"
    using admin_login_ok [OF login] by blast
  have inv: "admin_inv (pf_admin pf')"
    using admin_inv_step [OF assms(1), of now "A_login cmp rnd f email password"] login by simp
  have "admin_row t (pf_admin pf') (ck_value c) = Some email \<longleftrightarrow> t < now + session_ttl"
    unfolding admin_row_iff [OF inv] using a fresh db by force
  then show ?thesis
    using a assms(3)
    by (auto simp: require_auth_def admin_validate_def session_ttl_def split: option.splits sum.splits)
qed

definition example_platform :: platform where
  "example_platform = \<lparr>
     pf_admin = \<lparr>admins = [\<lparr>au_id = 1, au_email = ''a@x'', au_hash = ''h:pw''\<rparr>], admin_next = 2, admin_sessions = []\<rparr>,
     pf_emp = \<lparr>emp_sessions = [], user_logins = []\<rparr>,
     pf_admin_lim = new_limiter login_rate_limit_max login_rate_limit_window,
     pf_emp_lim = new_limiter login_rate_limit_max login_rate_limit_window,
     pf_audit = empty_log, pf_calendar = []\<rparr>"

definition example_cmp :: "string \<Rightarrow> string \<Rightarrow> bool" where
  "example_cmp h p \<longleftrightarrow> h = ''h:'' @ p"

lemma example_login:
  "\<exists>c pf'. login_handler H example_cmp (Some ''r'') no_faults fa now example_platform ip proto ''a@x'' ''pw''
     = (Inr (c, ''a@x''), pf') \<and> ck_value c \<noteq> []"
  by (simp add: login_handler_def example_platform_def example_cmp_def new_limiter_def allowed_def
      lim_prune_def login_rate_limit_max_def login_rate_limit_window_def admin_login_def random_token_def
      session_cookie_def Let_def hex_encode_def)

lemma example_platform_inv: "admin_inv (pf_admin example_platform)"
  by (simp add: example_platform_def admin_inv_def)

theorem login_requires_password_witness:
  "\<exists>c pf'. login_handler (\<lambda>x. x) example_cmp (Some ''r'') no_faults no_faults 0 example_platform [] [] ''a@x'' ''pw''
      = (Inr (c, ''a@x''), pf')
    \<and> require_auth no_faults 5 (pf_admin pf') (ck_value c) = Inr ''a@x''"
proof -
  obtain c pf' where run: "login_handler (\<lambda>x. x) example_cmp (Some ''r'') no_faults no_faults 0 example_platform [] []
      ''a@x'' ''pw'' = (Inr (c, ''a@x''), pf')" "ck_value c \<noteq> []"
    using example_login by blast
  have "require_auth no_faults 5 (pf_admin pf') (ck_value c) = Inr ''a@x''"
    using login_requires_password [OF example_platform_inv run, of 5] by (simp add: duration_defs)
  with run show ?thesis by blast
qed

section \<open>Guessing is slowed down\<close>

record login_try =
  lt_at :: time
  lt_ip :: string
  lt_email :: string
  lt_password :: string
  lt_rnd :: "string option"
  lt_faults :: faults
  lt_audit_faults :: faults

definition try_login ::
  "(string \<Rightarrow> string) \<Rightarrow> (string \<Rightarrow> string \<Rightarrow> bool) \<Rightarrow> platform \<Rightarrow> login_try
     \<Rightarrow> (cookie \<times> string) result \<times> platform" where
  "try_login H cmp pf x = login_handler H cmp (lt_rnd x) (lt_faults x) (lt_audit_faults x) (lt_at x) pf
     (lt_ip x) [] (lt_email x) (lt_password x)"

text \<open>A run in which every try reached the password check and was refused there.\<close>

fun all_refused ::
  "(string \<Rightarrow> string) \<Rightarrow> (string \<Rightarrow> string \<Rightarrow> bool) \<Rightarrow> platform \<Rightarrow> login_try list \<Rightarrow> bool" where
  "all_refused H cmp pf [] = True"
| "all_refused H cmp pf (x # xs) =
     ((case fst (try_login H cmp pf x) of Inl e \<Rightarrow> status_of e \<noteq> 429 | Inr _ \<Rightarrow> False)
      \<and> all_refused H cmp (snd (try_login H cmp pf x)) xs)"

fun after_tries ::
  "(string \<Rightarrow> string) \<Rightarrow> (string \<Rightarrow> string \<Rightarrow> bool) \<Rightarrow> platform \<Rightarrow> login_try list \<Rightarrow> platform" where
  "after_tries H cmp pf [] = pf"
| "after_tries H cmp pf (x # xs) = after_tries H cmp (snd (try_login H cmp pf x)) xs"

lemma try_login_blocked:
  assumes "\<not> fst (allowed (pf_admin_lim pf) (lt_at x) (rate_limit_key (lt_ip x)))"
  shows "fst (try_login H cmp pf x) = Inl (HTTP 429 ''too many failed login attempts'')
    \<and> pf_admin (snd (try_login H cmp pf x)) = pf_admin pf"
  using assms by (simp add: try_login_def login_handler_def Let_def)

lemma try_login_refused:
  assumes "fst (try_login H cmp pf x) = Inl e" "status_of e \<noteq> 429"
  shows "pf_admin_lim (snd (try_login H cmp pf x)) =
    record_failure (snd (allowed (pf_admin_lim pf) (lt_at x) (rate_limit_key (lt_ip x)))) (lt_at x)
      (rate_limit_key (lt_ip x))"
  using assms
  by (auto simp: try_login_def login_handler_def Let_def split: if_splits prod.splits sum.splits)

lemma failure_counts:
  assumes "lim_window l = w" "t \<le> now" "now - w < t"
  shows "length (lim_prune (record_failure (snd (allowed l t k)) t k) now k) = length (lim_prune l now k) + 1"
proof -
  have "filter (after_cutoff w now) (filter (after_cutoff w t) xs) = filter (after_cutoff w now) xs" for xs
    by (rule win.forget_old [OF assms(2)])
  then show ?thesis
    using assms by (simp add: allowed_def record_failure_def lim_prune_def Let_def after_cutoff_def)
qed

lemma refused_tries_count:
  assumes "all_refused H cmp pf tries" "lim_window (pf_admin_lim pf) = w"
    and "\<forall>x \<in> set tries. rate_limit_key (lt_ip x) = k \<and> lt_at x \<le> now \<and> now - w < lt_at x"
  shows "length tries + length (lim_prune (pf_admin_lim pf) now k)
      = length (lim_prune (pf_admin_lim (after_tries H cmp pf tries)) now k)
    \<and> lim_max (pf_admin_lim (after_tries H cmp pf tries)) = lim_max (pf_admin_lim pf)"
  using assms
proof (induction tries arbitrary: pf)
  case Nil
  then show ?case by simp
next
  case (Cons x xs)
  obtain e where e: "fst (try_login H cmp pf x) = Inl e" "status_of e \<noteq> 429"
    using Cons.prems(1) by (auto split: sum.splits)
  note lim = try_login_refused [OF e]
  have key: "rate_limit_key (lt_ip x) = k" "lt_at x \<le> now" "now - w < lt_at x" using Cons.prems(3) by auto
  have win: "lim_window (pf_admin_lim (snd (try_login H cmp pf x))) = w"
    and max: "lim_max (pf_admin_lim (snd (try_login H cmp pf x))) = lim_max (pf_admin_lim pf)"
    using Cons.prems(2) by (simp_all add: lim allowed_def record_failure_def Let_def)
  show ?case
    using Cons.IH [OF _ win] Cons.prems failure_counts [OF Cons.prems(2) key(2,3), of k] max
    by (simp add: lim key)
qed

text \<open>Ten refused passwords from one address within fifteen minutes shut that address out: the next
  attempt is answered 429 and opens no session, even with a correct password.\<close>

theorem login_lockout:
  assumes "all_refused H cmp pf tries" "10 \<le> length tries"
    and "lim_window (pf_admin_lim pf) = login_rate_limit_window"
    and "lim_max (pf_admin_lim pf) = login_rate_limit_max"
    and "\<forall>y \<in> set tries. rate_limit_key (lt_ip y) = rate_limit_key (lt_ip x) \<and> lt_at y \<le> lt_at x
           \<and> lt_at x - 15 * minute < lt_at y"
  shows "fst (try_login H cmp (after_tries H cmp pf tries) x) = Inl (HTTP 429 ''too many failed login attempts'')
    \<and> pf_admin (snd (try_login H cmp (after_tries H cmp pf tries) x)) = pf_admin (after_tries H cmp pf tries)"
proof -
  have "\<not> fst (allowed (pf_admin_lim (after_tries H cmp pf tries)) (lt_at x) (rate_limit_key (lt_ip x)))"
    using refused_tries_count [OF assms(1,3), of "rate_limit_key (lt_ip x)" "lt_at x"] assms(2,4,5)
    by (simp add: allowed_def Let_def login_rate_limit_max_def login_rate_limit_window_def)
  then show ?thesis by (rule try_login_blocked)
qed

definition wrong_try :: "time \<Rightarrow> login_try" where
  "wrong_try t = \<lparr>lt_at = t, lt_ip = ''10.0.0.9'', lt_email = ''a@x'', lt_password = ''guess'',
     lt_rnd = Some ''r'', lt_faults = no_faults, lt_audit_faults = (\<lambda>_. True)\<rparr>"

definition right_try :: "time \<Rightarrow> login_try" where
  "right_try t = (wrong_try t)\<lparr>lt_password := ''pw''\<rparr>"

lemma wrong_try_refused:
  assumes "length (lim_prune (pf_admin_lim pf) t ''10.0.0.9'') < 10"
    "lim_max (pf_admin_lim pf) = 10" "pf_admin pf = pf_admin example_platform"
  shows "try_login H example_cmp pf (wrong_try t) =
    (Inl (HTTP 401 ''invalid email or password''),
     pf\<lparr>pf_admin_lim := record_failure (snd (allowed (pf_admin_lim pf) t ''10.0.0.9'')) t ''10.0.0.9'' \<rparr>)"
  using assms
  by (simp add: try_login_def wrong_try_def login_handler_def Let_def rate_limit_key_def allowed_def
      admin_login_def example_platform_def example_cmp_def audit_note_def audit_Record_def audit_record_def)

definition ten_tries :: "login_try list" where
  "ten_tries = map wrong_try [1, 2, 3, 4, 5, 6, 7, 8, 9, 10]"

lemma wrong_tries_refused:
  assumes "length (attempts (pf_admin_lim pf) ''10.0.0.9'') + length ts \<le> 10"
    "lim_max (pf_admin_lim pf) = 10" "pf_admin pf = pf_admin example_platform"
  shows "all_refused H example_cmp pf (map wrong_try ts)"
  using assms
proof (induction ts arbitrary: pf)
  case Nil
  then show ?case by simp
next
  case (Cons t ts)
  let ?pf' = "pf\<lparr>pf_admin_lim := record_failure (snd (allowed (pf_admin_lim pf) t ''10.0.0.9'')) t ''10.0.0.9'' \<rparr>"
  have "length (lim_prune (pf_admin_lim pf) t ''10.0.0.9'') < 10"
    unfolding lim_prune_def using Cons.prems(1) by (intro le_less_trans [OF length_filter_le]) simp
  note step = wrong_try_refused [OF this Cons.prems(2,3)]
  have "all_refused H example_cmp ?pf' (map wrong_try ts)"
  proof (rule Cons.IH)
    have "attempts (pf_admin_lim ?pf') ''10.0.0.9'' =
        filter (after_cutoff (lim_window (pf_admin_lim pf)) t)
          (filter (after_cutoff (lim_window (pf_admin_lim pf)) t) (attempts (pf_admin_lim pf) ''10.0.0.9'')) @ [t]"
      by (simp add: record_failure_def allowed_def lim_prune_def Let_def)
    then have "length (attempts (pf_admin_lim ?pf') ''10.0.0.9'')
        \<le> Suc (length (attempts (pf_admin_lim pf) ''10.0.0.9''))"
      by (simp only: length_append list.size)
        (use order_trans [OF length_filter_le length_filter_le] in simp)
    then show "length (attempts (pf_admin_lim ?pf') ''10.0.0.9'') + length ts \<le> 10"
      using Cons.prems(1) by simp
  qed (use Cons.prems in \<open>simp_all add: record_failure_def allowed_def Let_def\<close>)
  then show ?case by (simp add: step)
qed

lemma ten_tries_refused: "all_refused H example_cmp example_platform ten_tries"
  unfolding ten_tries_def
  by (rule wrong_tries_refused) (simp_all add: example_platform_def new_limiter_def login_rate_limit_max_def)

theorem login_lockout_witness:
  "fst (try_login (\<lambda>x. x) example_cmp (after_tries (\<lambda>x. x) example_cmp example_platform ten_tries) (right_try 11))
    = Inl (HTTP 429 ''too many failed login attempts'')"
proof -
  have "\<forall>y \<in> set ten_tries. rate_limit_key (lt_ip y) = rate_limit_key (lt_ip (right_try 11))
      \<and> lt_at y \<le> lt_at (right_try 11) \<and> lt_at (right_try 11) - 15 * minute < lt_at y"
    by (simp add: ten_tries_def wrong_try_def right_try_def duration_defs)
  then show ?thesis
    using login_lockout [OF ten_tries_refused, where x = "right_try 11"]
    by (simp add: ten_tries_def example_platform_def new_limiter_def)
qed

section \<open>A lockout ends\<close>

definition quiet_until :: "time \<Rightarrow> platform \<Rightarrow> bool" where
  "quiet_until t pf \<longleftrightarrow> (\<forall>k. list_all (\<lambda>a. a \<le> t) (attempts (pf_admin_lim pf) k))
     \<and> lim_window (pf_admin_lim pf) = login_rate_limit_window \<and> lim_max (pf_admin_lim pf) = login_rate_limit_max"

lemma limiter_quiet:
  "\<forall>k. list_all (\<lambda>a. a \<le> t) (attempts l k) \<Longrightarrow> list_all (\<lambda>a. a \<le> t) (attempts (snd (allowed l n key)) k)"
  "\<forall>k. list_all (\<lambda>a. a \<le> t) (attempts l k) \<Longrightarrow> n \<le> t \<Longrightarrow> list_all (\<lambda>a. a \<le> t) (attempts (record_failure l n key) k)"
  "\<forall>k. list_all (\<lambda>a. a \<le> t) (attempts l k) \<Longrightarrow> list_all (\<lambda>a. a \<le> t) (attempts (lim_reset l key) k)"
  by (auto simp: allowed_def record_failure_def lim_reset_def lim_prune_def Let_def list_all_iff)

lemma limiter_config [simp]:
  "lim_window (snd (allowed l n key)) = lim_window l" "lim_max (snd (allowed l n key)) = lim_max l"
  "lim_window (record_failure l n key) = lim_window l" "lim_max (record_failure l n key) = lim_max l"
  "lim_window (lim_reset l key) = lim_window l" "lim_max (lim_reset l key) = lim_max l"
  by (simp_all add: allowed_def record_failure_def lim_reset_def Let_def)

lemma admin_login_keeps: "admins (snd (admin_login cmp rnd f now s e p)) = admins s"
  by (auto simp: admin_login_def split: option.splits)

lemma try_login_quiet:
  assumes "quiet_until t pf" "lt_at x \<le> t"
  shows "quiet_until t (snd (try_login H cmp pf x))" "admins (pf_admin (snd (try_login H cmp pf x))) = admins (pf_admin pf)"
proof -
  obtain r db where login: "admin_login cmp (lt_rnd x) (lt_faults x) (lt_at x) (pf_admin pf) (lt_email x) (lt_password x) = (r, db)"
    by fastforce
  have db: "admins db = admins (pf_admin pf)"
    using admin_login_keeps [of cmp "lt_rnd x" "lt_faults x" "lt_at x" "pf_admin pf" "lt_email x" "lt_password x"] login by simp
  let ?key = "rate_limit_key (lt_ip x)"
  let ?l = "snd (allowed (pf_admin_lim pf) (lt_at x) ?key)"
  have cases: "pf_admin_lim (snd (try_login H cmp pf x)) \<in> {?l, record_failure ?l (lt_at x) ?key, lim_reset ?l ?key}"
    by (auto simp: try_login_def login_handler_def Let_def login split: sum.splits)
  have q: "\<forall>k. list_all (\<lambda>a. a \<le> t) (attempts (pf_admin_lim pf) k)" using assms(1) by (simp add: quiet_until_def)
  have l: "\<forall>k. list_all (\<lambda>a. a \<le> t) (attempts ?l k)" using limiter_quiet(1) [OF q] by blast
  have "\<forall>k. list_all (\<lambda>a. a \<le> t) (attempts (pf_admin_lim (snd (try_login H cmp pf x))) k)"
    using cases l limiter_quiet(2) [OF l assms(2)] limiter_quiet(3) [OF l] by auto
  moreover have "lim_window (pf_admin_lim (snd (try_login H cmp pf x))) = login_rate_limit_window
      \<and> lim_max (pf_admin_lim (snd (try_login H cmp pf x))) = login_rate_limit_max"
    using cases assms(1) by (auto simp: quiet_until_def)
  ultimately show "quiet_until t (snd (try_login H cmp pf x))" by (simp add: quiet_until_def)
  show "admins (pf_admin (snd (try_login H cmp pf x))) = admins (pf_admin pf)"
    by (simp add: try_login_def login_handler_def Let_def login db split: sum.splits)
qed

lemma after_tries_quiet:
  assumes "quiet_until t pf" "\<forall>x \<in> set tries. lt_at x \<le> t"
  shows "quiet_until t (after_tries H cmp pf tries) \<and> admins (pf_admin (after_tries H cmp pf tries)) = admins (pf_admin pf)"
  using assms by (induction tries arbitrary: pf) (auto simp: try_login_quiet)

text \<open>C6: A lockout ends: whatever was tried from wherever up to some time, fifteen minutes later the administrator gets in with
  the right password, from any address (given a working database and a fresh random token).\<close>

theorem lockout_ends:
  assumes "quiet_until t pf" "\<forall>x \<in> set tries. lt_at x \<le> t" "t + 15 * minute \<le> lt_at y"
    and "find (\<lambda>a. au_email a = lt_email y) (admins (pf_admin pf)) = Some a" "cmp (au_hash a) (lt_password y)"
    and "lt_rnd y = Some bytes" "hex_encode bytes \<notin> as_token ` set (admin_sessions (pf_admin (after_tries H cmp pf tries)))"
    and "\<not> lt_faults y ''select''" "\<not> lt_faults y ''insert''"
  shows "\<exists>c. fst (try_login H cmp (after_tries H cmp pf tries) y) = Inr (c, lt_email y)"
proof -
  let ?pf = "after_tries H cmp pf tries"
  note after = after_tries_quiet [OF assms(1,2), of H cmp]
  have "lim_prune (pf_admin_lim ?pf) (lt_at y) k = []" for k
    using after assms(3)
    by (force simp: lim_prune_def filter_empty_conv after_cutoff_def quiet_until_def login_rate_limit_window_def list_all_iff)
  then have "fst (allowed (pf_admin_lim ?pf) (lt_at y) (rate_limit_key (lt_ip y)))"
    using after by (simp add: allowed_def Let_def quiet_until_def login_rate_limit_max_def)
  then show ?thesis
    using assms(4-9) after
    by (simp add: try_login_def login_handler_def Let_def admin_login_def random_token_def)
qed

theorem lockout_ends_witness:
  "\<exists>c. fst (try_login (\<lambda>x. x) example_cmp (after_tries (\<lambda>x. x) example_cmp example_platform ten_tries)
      (right_try (10 + 15 * minute))) = Inr (c, ''a@x'')"
proof -
  have start: "quiet_until 10 example_platform"
    by (simp add: quiet_until_def example_platform_def new_limiter_def)
  have "pf_admin (after_tries H example_cmp pf (map wrong_try ts)) = pf_admin pf" if "pf_admin pf = pf_admin example_platform" for ts pf and H
    using that
  proof (induction ts arbitrary: pf)
    case (Cons t ts)
    have "pf_admin (snd (try_login H example_cmp pf (wrong_try t))) = pf_admin pf"
      using Cons.prems
      by (simp add: try_login_def wrong_try_def login_handler_def Let_def admin_login_def example_platform_def example_cmp_def)
    then show ?case using Cons by simp
  qed simp
  from this [of example_platform "\<lambda>x. x" "[1, 2, 3, 4, 5, 6, 7, 8, 9, 10]"]
  have none: "admin_sessions (pf_admin (after_tries (\<lambda>x. x) example_cmp example_platform ten_tries)) = []"
    by (simp add: ten_tries_def example_platform_def)
  have "\<forall>x \<in> set ten_tries. lt_at x \<le> 10" by (simp add: ten_tries_def wrong_try_def)
  from lockout_ends [OF start this, of "right_try (10 + 15 * minute)" "\<lparr>au_id = 1, au_email = ''a@x'', au_hash = ''h:pw''\<rparr>"
      example_cmp "''r''" "\<lambda>x. x"] none
  show ?thesis by (simp add: right_try_def wrong_try_def example_platform_def example_cmp_def no_faults_def)
qed

end
