(* ===== verification/ChatHub.thy ===== *)
theory ChatHub
  imports GoStd
begin

text \<open>
  The live side of chat (\<open>modules/chat/service/internal/hub/hub.go\<close>): connections and their bounded
  outboxes, delivery to named users and to everyone, and the presence announcements \<open>Serve\<close> makes when
  a connection comes and goes.  Every method of \<open>Hub\<close> holds the mutex, so each is one transition; the
  two transitions \<open>register\<close> and \<open>isOnlyConn\<close>, and likewise \<open>unregister\<close> and the final \<open>Broadcast\<close>, are
  separate critical sections, which is how \<open>hub_step\<close> interleaves the connections.

  The map from user names to sets of connections is the list \<open>hb_conns\<close> with the user in each
  connection; a user is a key of the map exactly when some connection carries the name.
\<close>

section \<open>Events\<close>

record hub_reply =
  hr_id :: int
  hr_sender :: string
  hr_content :: string
  hr_deleted :: bool

record hub_attachment =
  ha_id :: int
  ha_filename :: string
  ha_size :: nat

record message_out =
  mo_id :: int
  mo_sender :: string
  mo_group :: string
  mo_recipient :: string
  mo_custom :: int
  mo_content :: string
  mo_created :: string
  mo_edited :: string
  mo_deleted :: string
  mo_attachment :: "hub_attachment option"
  mo_reply :: "hub_reply option"

record typing_note =
  ty_username :: string
  ty_group :: string
  ty_recipient :: string
  ty_custom :: int

datatype hub_event =
    Message string message_out
  | Presence string bool
  | Group_event string int string
  | Typing typing_note

section \<open>The hub\<close>

record hub_conn =
  cn_id :: nat
  cn_user :: string
  cn_outbox :: "hub_event list"

record hub =
  hb_conns :: "hub_conn list"
  hb_next :: nat
  hb_closed :: "nat list"

definition new_hub :: hub where
  "new_hub = \<lparr>hb_conns = [], hb_next = 0, hb_closed = []\<rparr>"

definition outbox_size :: nat where "outbox_size = 32"

definition conns_of :: "hub \<Rightarrow> string \<Rightarrow> hub_conn list" where
  "conns_of h u = filter (\<lambda>c. cn_user c = u) (hb_conns h)"

definition online :: "hub \<Rightarrow> string list" where
  "online h = remdups (map cn_user (hb_conns h))"

definition is_online :: "hub \<Rightarrow> string \<Rightarrow> bool" where
  "is_online h u \<longleftrightarrow> 0 < length (conns_of h u)"

text \<open>A send into a full channel is dropped.\<close>

definition offer :: "hub_event \<Rightarrow> hub_conn \<Rightarrow> hub_conn" where
  "offer e c = (if length (cn_outbox c) < outbox_size then c\<lparr>cn_outbox := cn_outbox c @ [e]\<rparr> else c)"

definition offer_to_user :: "hub_event \<Rightarrow> string \<Rightarrow> hub \<Rightarrow> hub" where
  "offer_to_user e u h = h\<lparr>hb_conns := map (\<lambda>c. if cn_user c = u then offer e c else c) (hb_conns h)\<rparr>"

definition send_to :: "string list \<Rightarrow> hub_event \<Rightarrow> hub \<Rightarrow> hub" where
  "send_to us e h = fold (offer_to_user e) us h"

definition broadcast :: "hub_event \<Rightarrow> hub \<Rightarrow> hub" where
  "broadcast e h = h\<lparr>hb_conns := map (offer e) (hb_conns h)\<rparr>"

definition register :: "string \<Rightarrow> hub \<Rightarrow> nat \<times> hub" where
  "register u h =
     (hb_next h, h\<lparr>hb_conns := hb_conns h @ [\<lparr>cn_id = hb_next h, cn_user = u, cn_outbox = []\<rparr>],
                   hb_next := hb_next h + 1\<rparr>)"

definition unregister :: "nat \<Rightarrow> string \<Rightarrow> hub \<Rightarrow> bool \<times> hub" where
  "unregister c u h =
     (let h1 = h\<lparr>hb_conns := filter (\<lambda>x. \<not> (cn_id x = c \<and> cn_user x = u)) (hb_conns h)\<rparr>
      in (conns_of h1 u = [], h1\<lparr>hb_closed := c # hb_closed h\<rparr>))"

definition is_only_conn :: "string \<Rightarrow> nat \<Rightarrow> hub \<Rightarrow> bool" where
  "is_only_conn u c h \<longleftrightarrow> length (conns_of h u) = 1 \<and> c \<in> cn_id ` set (conns_of h u)"

section \<open>Delivery\<close>

lemma offer_simps [simp]: "cn_user (offer e c) = cn_user c" "cn_id (offer e c) = cn_id c"
  by (simp_all add: offer_def)

lemma offer_outbox: "cn_outbox (offer e c) =
    (if length (cn_outbox c) < outbox_size then cn_outbox c @ [e] else cn_outbox c)"
  by (simp add: offer_def)

fun offer_times :: "hub_event \<Rightarrow> nat \<Rightarrow> hub_conn \<Rightarrow> hub_conn" where
  "offer_times e 0 c = c"
| "offer_times e (Suc n) c = offer_times e n (offer e c)"

lemma offer_times_simps [simp]: "cn_user (offer_times e n c) = cn_user c" "cn_id (offer_times e n c) = cn_id c"
  by (induction n arbitrary: c) auto

lemma send_to_conns:
  "hb_conns (send_to us e h) = map (\<lambda>c. offer_times e (count_list us (cn_user c)) c) (hb_conns h)
   \<and> hb_next (send_to us e h) = hb_next h \<and> hb_closed (send_to us e h) = hb_closed h"
proof (induction us arbitrary: h)
  case Nil
  show ?case by (simp add: send_to_def)
next
  case (Cons u us)
  have "send_to (u # us) e h = send_to us e (offer_to_user e u h)" by (simp add: send_to_def)
  then show ?case using Cons [of "offer_to_user e u h"] by (simp add: offer_to_user_def)
qed

lemma send_to_simps [simp]:
  "map cn_id (hb_conns (send_to us e h)) = map cn_id (hb_conns h)"
  "map cn_user (hb_conns (send_to us e h)) = map cn_user (hb_conns h)"
  "hb_next (send_to us e h) = hb_next h" "hb_closed (send_to us e h) = hb_closed h"
  by (simp_all add: send_to_conns)

lemma send_to_Nil [simp]: "send_to [] e h = h"
  by (simp add: send_to_def)

lemma offer_times_bound:
  "length (cn_outbox c) \<le> outbox_size \<Longrightarrow> length (cn_outbox (offer_times e n c)) \<le> outbox_size"
  by (induction n arbitrary: c) (auto simp: offer_outbox)

lemma offer_times_outbox:
  "\<exists>k \<le> n. cn_outbox (offer_times e n c) = cn_outbox c @ replicate k e"
proof (induction n arbitrary: c)
  case 0
  show ?case by simp
next
  case (Suc n)
  obtain k where k: "k \<le> n" "cn_outbox (offer_times e n (offer e c)) = cn_outbox (offer e c) @ replicate k e"
    using Suc by blast
  then show ?case
    by (cases "length (cn_outbox c) < outbox_size") (auto simp: offer_outbox intro: exI [of _ "Suc k"] exI [of _ k])
qed

text \<open>What an outbox gained, and whether anyone else's changed.\<close>

definition gained :: "hub \<Rightarrow> hub \<Rightarrow> nat \<Rightarrow> hub_event list" where
  "gained h h' i = drop (length (cn_outbox (hb_conns h ! i))) (cn_outbox (hb_conns h' ! i))"

lemma send_to_gained:
  assumes "i < length (hb_conns h)" "ev \<in> set (gained h (send_to us e h) i)"
  shows "ev = e \<and> cn_user (hb_conns h ! i) \<in> set us"
proof -
  let ?c = "hb_conns h ! i"
  have c': "hb_conns (send_to us e h) ! i = offer_times e (count_list us (cn_user ?c)) ?c"
    using assms(1) by (simp add: send_to_conns)
  obtain k where k: "k \<le> count_list us (cn_user ?c)"
    "cn_outbox (hb_conns (send_to us e h) ! i) = cn_outbox ?c @ replicate k e"
    using offer_times_outbox c' by metis
  then have "ev \<in> set (replicate k e)" using assms(2) by (simp add: gained_def)
  then have "ev = e" "0 < k" by auto
  then show ?thesis using k(1) by (metis count_list_0_iff less_le_trans less_numeral_extra(3))
qed

text \<open>An online user who is named and whose outbox has room gets the event.\<close>

lemma send_to_delivers:
  assumes "i < length (hb_conns h)" "cn_user (hb_conns h ! i) \<in> set us"
    and "length (cn_outbox (hb_conns h ! i)) < outbox_size"
  shows "e \<in> set (gained h (send_to us e h) i)"
proof -
  let ?c = "hb_conns h ! i"
  have c': "hb_conns (send_to us e h) ! i = offer_times e (count_list us (cn_user ?c)) ?c"
    using assms(1) by (simp add: send_to_conns)
  obtain n where n: "count_list us (cn_user ?c) = Suc n"
    using assms(2) by (metis count_list_0_iff not0_implies_Suc)
  obtain k where "cn_outbox (offer_times e n (offer e ?c)) = cn_outbox (offer e ?c) @ replicate k e"
    using offer_times_outbox by metis
  then show ?thesis using assms(3) by (simp add: gained_def c' n offer_outbox)
qed

section \<open>Connections coming and going\<close>

datatype phase = Absent | Arrived | Announcing | Up | Leaving bool | Gone

record hub_world =
  hw_hub :: hub
  hw_phase :: "nat \<Rightarrow> phase"
  hw_user :: "nat \<Rightarrow> string"
  hw_said :: "(string \<times> bool) list"

definition idle_world :: hub_world where
  "idle_world = \<lparr>hw_hub = new_hub, hw_phase = (\<lambda>_. Absent), hw_user = (\<lambda>_. []), hw_said = []\<rparr>"

definition on_connect :: "string \<Rightarrow> hub_world \<Rightarrow> hub_world" where
  "on_connect u w = (case register u (hw_hub w) of
     (c, h) \<Rightarrow> w\<lparr>hw_hub := h, hw_phase := (hw_phase w)(c := Arrived), hw_user := (hw_user w)(c := u)\<rparr>)"

definition on_check :: "nat \<Rightarrow> hub_world \<Rightarrow> hub_world" where
  "on_check c w = w\<lparr>hw_phase := (hw_phase w)(c :=
     if is_only_conn (hw_user w c) c (hw_hub w) then Announcing else Up)\<rparr>"

definition say :: "string \<Rightarrow> bool \<Rightarrow> hub_world \<Rightarrow> hub_world" where
  "say u up w = w\<lparr>hw_hub := broadcast (Presence u up) (hw_hub w), hw_said := (u, up) # hw_said w\<rparr>"

definition on_announce :: "nat \<Rightarrow> hub_world \<Rightarrow> hub_world" where
  "on_announce c w = say (hw_user w c) True (w\<lparr>hw_phase := (hw_phase w)(c := Up)\<rparr>)"

definition on_leave :: "nat \<Rightarrow> hub_world \<Rightarrow> hub_world" where
  "on_leave c w = (case unregister c (hw_user w c) (hw_hub w) of
     (wl, h) \<Rightarrow> w\<lparr>hw_hub := h, hw_phase := (hw_phase w)(c := Leaving wl)\<rparr>)"

definition on_farewell :: "nat \<Rightarrow> bool \<Rightarrow> hub_world \<Rightarrow> hub_world" where
  "on_farewell c wl w =
     (let w' = w\<lparr>hw_phase := (hw_phase w)(c := Gone)\<rparr> in if wl then say (hw_user w c) False w' else w')"

definition drain :: "nat \<Rightarrow> hub_conn \<Rightarrow> hub_conn" where
  "drain c x = (if cn_id x = c then x\<lparr>cn_outbox := tl (cn_outbox x)\<rparr> else x)"

lemma drain_simps [simp]: "cn_id (drain c x) = cn_id x" "cn_user (drain c x) = cn_user x"
  by (simp_all add: drain_def)

definition on_write :: "nat \<Rightarrow> hub_world \<Rightarrow> hub_world" where
  "on_write c w = w\<lparr>hw_hub := (hw_hub w)\<lparr>hb_conns := map (drain c) (hb_conns (hw_hub w))\<rparr>\<rparr>"

inductive hub_reach :: "hub_world \<Rightarrow> bool" where
  idle: "hub_reach idle_world"
| connect: "hub_reach w \<Longrightarrow> hub_reach (on_connect u w)"
| check: "hub_reach w \<Longrightarrow> hw_phase w c = Arrived \<Longrightarrow> hub_reach (on_check c w)"
| announce: "hub_reach w \<Longrightarrow> hw_phase w c = Announcing \<Longrightarrow> hub_reach (on_announce c w)"
| send: "hub_reach w \<Longrightarrow> hub_reach (w\<lparr>hw_hub := send_to us e (hw_hub w)\<rparr>)"
| "write": "hub_reach w \<Longrightarrow> hub_reach (on_write c w)"
| leave: "hub_reach w \<Longrightarrow> hw_phase w c = Up \<Longrightarrow> hub_reach (on_leave c w)"
| farewell: "hub_reach w \<Longrightarrow> hw_phase w c = Leaving wl \<Longrightarrow> hub_reach (on_farewell c wl w)"

fun connected :: "phase \<Rightarrow> bool" where
  "connected Absent = False"
| "connected Arrived = True"
| "connected Announcing = True"
| "connected Up = True"
| "connected (Leaving l) = False"
| "connected Gone = False"

fun retired :: "phase \<Rightarrow> bool" where
  "retired (Leaving l) = True"
| "retired Gone = True"
| "retired p = False"

lemma phase_exclusive: "connected p \<Longrightarrow> \<not> retired p \<and> p \<noteq> Absent" "retired p \<Longrightarrow> p \<noteq> Absent"
  by (cases p; simp)+

definition hub_inv :: "hub_world \<Rightarrow> bool" where
  "hub_inv w \<longleftrightarrow>
     distinct (map cn_id (hb_conns (hw_hub w))) \<and> distinct (hb_closed (hw_hub w))
     \<and> (\<forall>c. connected (hw_phase w c) \<longleftrightarrow> c \<in> cn_id ` set (hb_conns (hw_hub w)))
     \<and> (\<forall>c \<in> set (hb_closed (hw_hub w)). retired (hw_phase w c))
     \<and> (\<forall>c. hw_phase w c \<noteq> Absent \<longrightarrow> c < hb_next (hw_hub w))
     \<and> (\<forall>x \<in> set (hb_conns (hw_hub w)). cn_user x = hw_user w (cn_id x) \<and> length (cn_outbox x) \<le> outbox_size)"

lemma hub_invI:
  assumes "distinct (map cn_id (hb_conns (hw_hub w)))" "distinct (hb_closed (hw_hub w))"
    and "\<And>c. connected (hw_phase w c) \<longleftrightarrow> c \<in> cn_id ` set (hb_conns (hw_hub w))"
    and "\<And>c. c \<in> set (hb_closed (hw_hub w)) \<Longrightarrow> retired (hw_phase w c)"
    and "\<And>c. hw_phase w c \<noteq> Absent \<Longrightarrow> c < hb_next (hw_hub w)"
    and "\<And>x. x \<in> set (hb_conns (hw_hub w)) \<Longrightarrow>
      cn_user x = hw_user w (cn_id x) \<and> length (cn_outbox x) \<le> outbox_size"
  shows "hub_inv w"
  using assms by (simp add: hub_inv_def)

lemma hub_invD:
  assumes "hub_inv w"
  shows "distinct (map cn_id (hb_conns (hw_hub w)))" "distinct (hb_closed (hw_hub w))"
    and "connected (hw_phase w c) \<longleftrightarrow> c \<in> cn_id ` set (hb_conns (hw_hub w))"
    and "c \<in> set (hb_closed (hw_hub w)) \<Longrightarrow> retired (hw_phase w c)"
    and "hw_phase w c \<noteq> Absent \<Longrightarrow> c < hb_next (hw_hub w)"
    and "x \<in> set (hb_conns (hw_hub w)) \<Longrightarrow>
      cn_user x = hw_user w (cn_id x) \<and> length (cn_outbox x) \<le> outbox_size"
  using assms by (simp_all add: hub_inv_def)

text \<open>A number not given out yet belongs to no connection and no closed one.\<close>

lemma hub_inv_fresh:
  assumes "hub_inv w"
  shows "hb_next (hw_hub w) \<notin> cn_id ` set (hb_conns (hw_hub w))"
    "hb_next (hw_hub w) \<notin> set (hb_closed (hw_hub w))" "hw_phase w (hb_next (hw_hub w)) = Absent"
  using hub_invD [OF assms] phase_exclusive by (metis less_irrefl)+

lemma offer_bound: "length (cn_outbox c) \<le> outbox_size \<Longrightarrow> length (cn_outbox (offer e c)) \<le> outbox_size"
  by (simp add: offer_outbox)

lemma hub_inv_say [state_inv]: "hub_inv w \<Longrightarrow> hub_inv (say u b w)"
  by (auto simp: hub_inv_def say_def broadcast_def comp_def image_image offer_bound)

lemma hub_inv_phase:
  assumes "hub_inv w" "connected (hw_phase w c)" "connected p"
  shows "hub_inv (w\<lparr>hw_phase := (hw_phase w)(c := p)\<rparr>)"
proof (rule hub_invI)
  fix i assume "i \<in> set (hb_closed (hw_hub (w\<lparr>hw_phase := (hw_phase w)(c := p)\<rparr>)))"
  then show "retired (hw_phase (w\<lparr>hw_phase := (hw_phase w)(c := p)\<rparr>) i)"
    using hub_invD(4) [OF assms(1), of i] assms(2) phase_exclusive by auto
next
  fix i assume "hw_phase (w\<lparr>hw_phase := (hw_phase w)(c := p)\<rparr>) i \<noteq> Absent"
  then show "i < hb_next (hw_hub (w\<lparr>hw_phase := (hw_phase w)(c := p)\<rparr>))"
    using hub_invD(5) [OF assms(1), of i] assms(2) phase_exclusive by (auto split: if_splits)
qed (use assms hub_invD [OF assms(1)] in auto)

lemma hub_inv_connect [state_inv]:
  assumes "hub_inv w"
  shows "hub_inv (on_connect u w)"
proof (rule hub_invI)
  fix i assume "hw_phase (on_connect u w) i \<noteq> Absent"
  then show "i < hb_next (hw_hub (on_connect u w))"
    using hub_invD(5) [OF assms, of i] by (auto simp: on_connect_def register_def split: if_splits)
next
  fix x assume "x \<in> set (hb_conns (hw_hub (on_connect u w)))"
  then show "cn_user x = hw_user (on_connect u w) (cn_id x) \<and> length (cn_outbox x) \<le> outbox_size"
    using hub_invD(6) [OF assms, of x] hub_inv_fresh(1) [OF assms]
    by (auto simp: on_connect_def register_def image_iff)
qed (use hub_invD [OF assms] hub_inv_fresh [OF assms] in
    \<open>auto simp: on_connect_def register_def\<close>)

lemma hub_inv_send [state_inv]: "hub_inv w \<Longrightarrow> hub_inv (w\<lparr>hw_hub := send_to us e (hw_hub w)\<rparr>)"
  by (auto simp: hub_inv_def send_to_conns comp_def image_image offer_times_bound)

lemma hub_inv_write [state_inv]:
  assumes "hub_inv w"
  shows "hub_inv (on_write c w)"
proof -
  have "length (cn_outbox x) \<le> n \<Longrightarrow> length (cn_outbox (drain c x)) \<le> n" for x n
    by (auto simp: drain_def)
  then show ?thesis
    using assms unfolding hub_inv_def on_write_def
    by (auto simp: comp_def image_image)
qed

lemma hub_inv_leave [state_inv]:
  assumes inv: "hub_inv w" and up: "hw_phase w c = Up"
  shows "hub_inv (on_leave c w)"
proof -
  have user: "x \<in> set (hb_conns (hw_hub w)) \<Longrightarrow> cn_id x = c \<Longrightarrow> cn_user x = hw_user w c" for x
    using hub_invD(6) [OF inv] by blast
  have kept: "hb_conns (hw_hub (on_leave c w)) = filter (\<lambda>x. cn_id x \<noteq> c) (hb_conns (hw_hub w))"
    using user by (auto simp: on_leave_def unregister_def Let_def intro!: filter_cong)
  have phase: "\<exists>l. hw_phase (on_leave c w) = (hw_phase w)(c := Leaving l)"
    by (auto simp: on_leave_def unregister_def Let_def)
  have rest: "hb_closed (hw_hub (on_leave c w)) = c # hb_closed (hw_hub w)"
    "hb_next (hw_hub (on_leave c w)) = hb_next (hw_hub w)" "hw_user (on_leave c w) = hw_user w"
    by (simp_all add: on_leave_def unregister_def Let_def)
  show ?thesis
  proof (rule hub_invI)
    show "distinct (hb_closed (hw_hub (on_leave c w)))"
      using hub_invD(2) [OF inv] hub_invD(4) [OF inv, of c] up by (auto simp: rest)
    show "connected (hw_phase (on_leave c w) i) = (i \<in> cn_id ` set (hb_conns (hw_hub (on_leave c w))))" for i
      using hub_invD(3) [OF inv, of i] phase by (auto simp: kept split: if_splits)
    show "hw_phase (on_leave c w) i \<noteq> Absent \<Longrightarrow> i < hb_next (hw_hub (on_leave c w))" for i
      using hub_invD(5) [OF inv, of i] phase up by (auto simp: rest split: if_splits)
  qed (use hub_invD [OF inv] phase up in \<open>auto simp: kept rest distinct_map_filter'\<close>)
qed

lemma hub_inv_gone:
  assumes "hub_inv w" "hw_phase w c = Leaving l"
  shows "hub_inv (w\<lparr>hw_phase := (hw_phase w)(c := Gone)\<rparr>)"
proof (rule hub_invI)
  show "connected (hw_phase (w\<lparr>hw_phase := (hw_phase w)(c := Gone)\<rparr>) i)
      = (i \<in> cn_id ` set (hb_conns (hw_hub (w\<lparr>hw_phase := (hw_phase w)(c := Gone)\<rparr>))))" for i
    using hub_invD(3) [OF assms(1), of i] assms(2) by auto
  show "hw_phase (w\<lparr>hw_phase := (hw_phase w)(c := Gone)\<rparr>) i \<noteq> Absent \<Longrightarrow>
      i < hb_next (hw_hub (w\<lparr>hw_phase := (hw_phase w)(c := Gone)\<rparr>))" for i
    using hub_invD(5) [OF assms(1), of i] assms(2) by (auto split: if_splits)
qed (use hub_invD [OF assms(1)] assms(2) in auto)

lemma hub_reach_inv: "hub_reach w \<Longrightarrow> hub_inv w"
proof (induction rule: hub_reach.induct)
  case idle
  show ?case by (simp add: hub_inv_def idle_world_def new_hub_def)
next
  case (check w c)
  then show ?case by (auto simp: on_check_def intro!: hub_inv_phase)
next
  case (announce w c)
  then show ?case by (auto simp: on_announce_def intro!: hub_inv_phase hub_inv_say)
next
  case (farewell w c l)
  then show ?case by (auto simp: on_farewell_def Let_def intro: hub_inv_gone hub_inv_say)
qed (auto intro: state_inv)

section \<open>What holds and what does not\<close>

text \<open>C12: However connections arrive, leave, write and receive, no outbox ever holds more than 32 events, no
  connection is closed twice, and the hub never holds a connection that was closed, so no send can hit
  a closed channel.\<close>

theorem hub_safe:
  assumes "hub_reach w"
  shows "distinct (hb_closed (hw_hub w)) \<and>
    (\<forall>x \<in> set (hb_conns (hw_hub w)). length (cn_outbox x) \<le> 32 \<and> cn_id x \<notin> set (hb_closed (hw_hub w)))"
proof
  have inv: "hub_inv w" using assms by (rule hub_reach_inv)
  show "distinct (hb_closed (hw_hub w))" using inv by (rule hub_invD)
  show "\<forall>x \<in> set (hb_conns (hw_hub w)). length (cn_outbox x) \<le> 32 \<and> cn_id x \<notin> set (hb_closed (hw_hub w))"
  proof
    fix x assume x: "x \<in> set (hb_conns (hw_hub w))"
    then have "connected (hw_phase w (cn_id x))" using hub_invD(3) [OF inv] by simp
    then have "cn_id x \<notin> set (hb_closed (hw_hub w))" using hub_invD(4) [OF inv] phase_exclusive by blast
    then show "length (cn_outbox x) \<le> 32 \<and> cn_id x \<notin> set (hb_closed (hw_hub w))"
      using hub_invD(6) [OF inv x] by (simp add: outbox_size_def)
  qed
qed

definition two_tabs :: hub_world where
  "two_tabs = on_check 1 (on_check 0 (on_connect ''ann'' (on_connect ''ann'' idle_world)))"

lemmas hub_eval = on_connect_def on_check_def on_announce_def on_leave_def on_farewell_def say_def
  register_def unregister_def is_only_conn_def conns_of_def broadcast_def send_to_def offer_to_user_def
  offer_def outbox_size_def idle_world_def new_hub_def is_online_def Let_def

lemma two_tabs_reach: "hub_reach two_tabs"
  unfolding two_tabs_def by (intro hub_reach.intros) (simp_all add: hub_eval)

theorem hub_safe_witness:
  "list_all (\<lambda>x. length (cn_outbox x) \<le> 32 \<and> cn_id x \<notin> set (hb_closed (hw_hub two_tabs)))
     (hb_conns (hw_hub two_tabs))"
  using hub_safe [OF two_tabs_reach] by (simp add: list_all_iff)

text \<open>Two tabs of one person that connect at the same time can both miss being the only connection:
  everything has settled, the person is online, and nobody was ever told.\<close>

theorem online_never_announced:
  "\<exists>w. hub_reach w \<and> is_online (hw_hub w) ''ann'' \<and> (\<forall>c. hw_phase w c \<in> {Absent, Up}) \<and> hw_said w = []"
proof (intro exI conjI)
  show "hub_reach two_tabs" by (rule two_tabs_reach)
  show "is_online (hw_hub two_tabs) ''ann''" by (simp add: two_tabs_def hub_eval)
  show "\<forall>c. hw_phase two_tabs c \<in> {Absent, Up}" by (simp add: two_tabs_def hub_eval)
  show "hw_said two_tabs = []" by (simp add: two_tabs_def hub_eval)
qed

text \<open>A reconnect between the last unregister and its announcement leaves the last word to the old
  connection: the person is online while the newest announcement says they went offline.\<close>

theorem stale_offline_announced:
  "\<exists>w. hub_reach w \<and> is_online (hw_hub w) ''ann'' \<and> (\<forall>c. hw_phase w c \<in> {Absent, Up, Gone})
     \<and> hd (hw_said w) = (''ann'', False)"
proof -
  let ?w1 = "on_announce 0 (on_check 0 (on_connect ''ann'' idle_world))"
  let ?w2 = "on_announce 1 (on_check 1 (on_connect ''ann'' (on_leave 0 ?w1)))"
  let ?w = "on_farewell 0 True ?w2"
  have 1: "hub_reach (on_leave 0 ?w1)" by (intro hub_reach.intros) (simp_all add: hub_eval)
  have 2: "hub_reach ?w2"
    by (rule hub_reach.announce, rule hub_reach.check, rule hub_reach.connect, rule 1) (simp_all add: hub_eval)
  have "hub_reach ?w" by (rule hub_reach.farewell, rule 2) (simp add: hub_eval)
  moreover have "is_online (hw_hub ?w) ''ann''" "\<forall>c. hw_phase ?w c \<in> {Absent, Up, Gone}"
    "hd (hw_said ?w) = (''ann'', False)"
    by (simp_all add: hub_eval)
  ultimately show ?thesis by blast
qed

end
