(* ===== verification/ChatDirectory.thy ===== *)
theory ChatDirectory
  imports GoStd
begin

text \<open>
  Chat's view of the company directory (\<open>modules/chat/service/internal/directory/directory.go\<close>): one
  cached snapshot of users and group members, refreshed when older than thirty seconds.

  The LDAP server is an argument: \<open>lo_bind base password\<close> is the outcome of dialling and binding, and the
  two searches give the entries of the people and the groups subtree.  \<open>row\<close> is what reading the
  \<open>installed_modules\<close> row of the directory gives: \<open>None\<close> for every error of that query, a missing row
  included, otherwise the status and the decoded configuration.
\<close>

section \<open>Reading the directory\<close>

record ldap_outside =
  lo_bind :: "string \<Rightarrow> string \<Rightarrow> string + unit"
  lo_people :: "string \<Rightarrow> string + (string \<times> string) list"
  lo_groups :: "string \<Rightarrow> string + (string \<times> string list) list"

type_synonym ldap_row = "(string \<times> (string \<times> string) option) option"

record snapshot =
  sn_users :: "string list"
  sn_groups :: "string list"
  sn_members :: "string \<Rightarrow> string list"

text \<open>\<open>connect\<close>: the base DN of a bound connection, \<open>None\<close> when the directory is not available.\<close>

definition dir_connect :: "ldap_outside \<Rightarrow> ldap_row \<Rightarrow> string + string option" where
  "dir_connect o' row =
     (case row of
        None \<Rightarrow> Inr None
      | Some (status, config) \<Rightarrow>
          if status \<noteq> ''running'' then Inr None
          else case config of
            None \<Rightarrow> Inl ''parse ldap-openldap config''
          | Some (base_dn, password) \<Rightarrow>
              (case lo_bind o' base_dn password of Inl e \<Rightarrow> Inl e | Inr _ \<Rightarrow> Inr (Some base_dn)))"

definition add_group ::
  "(string \<times> string) list \<Rightarrow> string \<times> string list \<Rightarrow> snapshot \<Rightarrow> snapshot" where
  "add_group people g sn =
     (let uids = List.map_filter (\<lambda>dn. map_of (rev people) dn) (snd g)
      in sn\<lparr>sn_groups := sn_groups sn @ [fst g],
            sn_members := (sn_members sn)(fst g := sn_members sn (fst g) @ uids)\<rparr>)"

definition dir_fetch :: "ldap_outside \<Rightarrow> ldap_row \<Rightarrow> string + snapshot option" where
  "dir_fetch o' row =
     (case dir_connect o' row of
        Inl e \<Rightarrow> Inl e
      | Inr None \<Rightarrow> Inr None
      | Inr (Some base_dn) \<Rightarrow>
          (case lo_people o' base_dn of
             Inl e \<Rightarrow> Inl ''search users''
           | Inr people \<Rightarrow>
               (case lo_groups o' base_dn of
                  Inl e \<Rightarrow> Inl ''search groups''
                | Inr groups \<Rightarrow>
                    Inr (Some (fold (add_group people) groups
                      \<lparr>sn_users = map snd people, sn_groups = [], sn_members = (\<lambda>_. [])\<rparr>)))))"

section \<open>The cache\<close>

definition cache_ttl :: time where "cache_ttl = 30 * second"

record dir_cache =
  dc_snap :: "snapshot option"
  dc_at :: time

definition no_cache :: dir_cache where
  "no_cache = \<lparr>dc_snap = None, dc_at = 0\<rparr>"

definition dir_load ::
  "time \<Rightarrow> (string + snapshot option) \<Rightarrow> dir_cache \<Rightarrow> (string + snapshot option) \<times> dir_cache" where
  "dir_load now fetched c =
     (if dc_snap c \<noteq> None \<and> now - dc_at c < cache_ttl then (Inr (dc_snap c), c)
      else case fetched of
        Inl e \<Rightarrow> if dc_snap c \<noteq> None then (Inr (dc_snap c), c) else (Inl e, c)
      | Inr snap \<Rightarrow> (Inr snap, \<lparr>dc_snap = snap, dc_at = now\<rparr>))"

definition group_in :: "snapshot \<Rightarrow> string \<Rightarrow> string" where
  "group_in sn u =
     (case find (\<lambda>g. u \<in> set (sn_members sn g)) (sn_groups sn) of None \<Rightarrow> [] | Some g \<Rightarrow> g)"

text \<open>\<open>GroupFor\<close>, \<open>ListUsers\<close> and \<open>MembersOf\<close> on what \<open>load\<close> returned.\<close>

definition group_for :: "string + snapshot option \<Rightarrow> string \<Rightarrow> string + string" where
  "group_for loaded u =
     (case loaded of Inl e \<Rightarrow> Inl e | Inr None \<Rightarrow> Inr [] | Inr (Some sn) \<Rightarrow> Inr (group_in sn u))"

definition list_users :: "string + snapshot option \<Rightarrow> string + string list" where
  "list_users loaded =
     (case loaded of Inl e \<Rightarrow> Inl e | Inr None \<Rightarrow> Inr [] | Inr (Some sn) \<Rightarrow> Inr (sn_users sn))"

definition members_of :: "string + snapshot option \<Rightarrow> string \<Rightarrow> string + string list" where
  "members_of loaded g =
     (case loaded of Inl e \<Rightarrow> Inl e | Inr None \<Rightarrow> Inr [] | Inr (Some sn) \<Rightarrow> Inr (sn_members sn g))"

section \<open>Snapshots\<close>

lemma add_group_members:
  "u \<in> set (sn_members (add_group people g sn) h) \<Longrightarrow>
   u \<in> set (sn_members sn h) \<or> u \<in> snd ` set people"
proof -
  have "the (map_of (rev people) dn) \<in> snd ` set people" if some: "map_of (rev people) dn \<noteq> None" for dn
  proof -
    obtain v where "map_of (rev people) dn = Some v" using some by blast
    then have "(dn, v) \<in> set people" by (metis map_of_SomeD set_rev)
    then show ?thesis using \<open>map_of (rev people) dn = Some v\<close> by force
  qed
  moreover assume "u \<in> set (sn_members (add_group people g sn) h)"
  ultimately show ?thesis
    by (auto simp: add_group_def Let_def List.map_filter_def simp del: map_of_eq_None_iff split: if_splits)
qed

lemma fold_add_group:
  "u \<in> set (sn_members (fold (add_group people) gs sn) h) \<Longrightarrow>
   u \<in> set (sn_members sn h) \<or> u \<in> snd ` set people"
  by (induction gs arbitrary: sn) (auto dest: add_group_members)

lemma fold_add_group_users: "sn_users (fold (add_group people) gs sn) = sn_users sn"
  by (induction gs arbitrary: sn) (auto simp: add_group_def Let_def)

lemma fetch_members_are_users:
  assumes "dir_fetch o' row = Inr (Some sn)" "u \<in> set (sn_members sn g)"
  shows "u \<in> set (sn_users sn)"
proof -
  obtain people groups where sn: "sn = fold (add_group people) groups
      \<lparr>sn_users = map snd people, sn_groups = [], sn_members = (\<lambda>_. [])\<rparr>"
    using assms(1) by (auto simp: dir_fetch_def split: sum.splits option.splits)
  then show ?thesis using fold_add_group assms(2) by (fastforce simp: fold_add_group_users)
qed

lemma group_in_member: "group_in sn u = g \<Longrightarrow> g \<noteq> [] \<Longrightarrow> u \<in> set (sn_members sn g)"
  by (auto simp: group_in_def split: option.splits dest: find_Some_set)

section \<open>Staleness\<close>

text \<open>Every request that asks the directory, with what a fetch would have given at that moment.\<close>

fun load_run :: "(time \<times> (string + snapshot option)) list \<Rightarrow> dir_cache \<Rightarrow> dir_cache" where
  "load_run [] c = c"
| "load_run ((t, x) # rest) c = load_run rest (snd (dir_load t x c))"

lemma dir_load_from:
  assumes "dir_load now fetched c = (Inr (Some sn), c')"
  shows "dc_snap c = Some sn \<and> (now - dc_at c < cache_ttl \<or> (\<exists>e. fetched = Inl e)) \<or> fetched = Inr (Some sn)"
  using assms by (auto simp: dir_load_def split: if_splits sum.splits)

lemma load_run_cache:
  assumes "dc_snap (load_run hist no_cache) = Some sn"
  shows "(dc_at (load_run hist no_cache), Inr (Some sn)) \<in> set hist"
proof -
  have gen: "dc_snap (load_run hist c) = Some sn \<Longrightarrow>
      (dc_at (load_run hist c), Inr (Some sn)) \<in> set hist \<or> (dc_snap c = Some sn \<and> dc_at (load_run hist c) = dc_at c)"
    for c
  proof (induction hist arbitrary: c)
    case Nil
    then show ?case by simp
  next
    case (Cons e hist)
    obtain t x where e: "e = (t, x)" by fastforce
    have "snd (dir_load t x c) = c \<or> (\<exists>s. x = Inr s \<and> snd (dir_load t x c) = \<lparr>dc_snap = s, dc_at = t\<rparr>)"
      by (auto simp: dir_load_def split: sum.splits)
    then show ?case using Cons.IH [of "snd (dir_load t x c)"] Cons.prems e by auto
  qed
  show ?thesis using gen [OF assms] by (simp add: no_cache_def)
qed

text \<open>Whatever requests came before, an answer from the cache is never made up: it is a snapshot the
  directory gave at some earlier moment, less than thirty seconds ago unless the directory failed just
  now, or it is what the directory gives now.\<close>

theorem directory_answer_recent:
  assumes "fst (dir_load now fetched (load_run hist no_cache)) = Inr (Some sn)"
  shows "fetched = Inr (Some sn) \<or>
    (\<exists>t. (t, Inr (Some sn)) \<in> set hist \<and> (now - t < cache_ttl \<or> (\<exists>e. fetched = Inl e)))"
proof -
  obtain c' where "dir_load now fetched (load_run hist no_cache) = (Inr (Some sn), c')"
    using assms by (metis prod.collapse)
  from dir_load_from [OF this] show ?thesis using load_run_cache by blast
qed

definition small_snapshot :: snapshot where
  "small_snapshot = \<lparr>sn_users = [''ann'', ''bob''], sn_groups = [''sales''],
     sn_members = (\<lambda>g. if g = ''sales'' then [''ann''] else [])\<rparr>"

theorem directory_answer_recent_witness:
  "fst (dir_load (10 * second) (Inl ''dial ldap'') (load_run [(0, Inr (Some small_snapshot))] no_cache))
     = Inr (Some small_snapshot)
   \<and> (\<exists>t. (t, Inr (Some small_snapshot)) \<in> set [(0 :: time, Inr (Some small_snapshot) :: string + snapshot option)])"
proof -
  have "fst (dir_load (10 * second) (Inl ''dial ldap'') (load_run [(0, Inr (Some small_snapshot))] no_cache))
     = Inr (Some small_snapshot)"
    by (simp add: dir_load_def no_cache_def cache_ttl_def second_def)
  from directory_answer_recent [OF this] this show ?thesis by auto
qed

text \<open>A failed refresh is meant to fall back to the stale snapshot, but a failing read of the module row
  is taken for "not installed": the cached snapshot is thrown away, every user loses the group and no
  user exists any more, without an error.\<close>

theorem db_error_forgets_directory:
  assumes "dc_snap c = Some sn" "cache_ttl \<le> now - dc_at c"
  shows "dir_load now (dir_fetch o' None) c = (Inr None, \<lparr>dc_snap = None, dc_at = now\<rparr>)
    \<and> group_for (fst (dir_load now (dir_fetch o' None) c)) u = Inr []
    \<and> list_users (fst (dir_load now (dir_fetch o' None) c)) = Inr []"
  using assms by (simp add: dir_load_def dir_fetch_def dir_connect_def group_for_def list_users_def)

theorem db_error_forgets_directory_witness:
  "dir_load (40 * second) (dir_fetch \<lparr>lo_bind = (\<lambda>_ _. Inr ()), lo_people = (\<lambda>_. Inr []), lo_groups = (\<lambda>_. Inr [])\<rparr> None)
     \<lparr>dc_snap = Some small_snapshot, dc_at = 0\<rparr> = (Inr None, \<lparr>dc_snap = None, dc_at = 40 * second\<rparr>)"
  using db_error_forgets_directory [of "\<lparr>dc_snap = Some small_snapshot, dc_at = 0\<rparr>" small_snapshot "40 * second"]
  by (simp add: cache_ttl_def second_def)

end
