(* ===== verification/Chat.thy ===== *)
theory Chat
  imports ChatHub ChatDirectory Sessions
begin

text \<open>
  The chat module's tables and handlers (\<open>modules/chat/service/internal/api\<close>).  A request is handled at
  one instant \<open>ce_now\<close> with one oracle \<open>ce_faults\<close> for its database statements and one answer
  \<open>ce_fetch\<close> the directory would give; the cache in front of the directory, the rate limiter, the
  typing floor and the hub are part of the server's state.  Tables are lists in the order of their ids.
  A text column is \<open>option\<close> where it may be NULL.
\<close>

section \<open>Tables\<close>

record msg_row =
  m_id :: int
  m_sender :: string
  m_group :: "string option"
  m_to :: "string option"
  m_custom :: "int option"
  m_content :: string
  m_created :: nat
  m_edited :: "nat option"
  m_deleted :: "nat option"
  m_reply :: "int option"

record att_row =
  t_id :: int
  t_message :: int
  t_filename :: string
  t_key :: string
  t_size :: nat
  t_by :: string

record group_row =
  g_id :: int
  g_name :: string
  g_creator :: string

record chat_db =
  db_msgs :: "msg_row list"
  db_msg_next :: int
  db_atts :: "att_row list"
  db_att_next :: int
  db_groups :: "group_row list"
  db_group_next :: int
  db_members :: "(int \<times> string) list"
  db_reads :: "((string \<times> string) \<times> int) list"
  db_baseline :: int

definition empty_chat_db :: chat_db where
  "empty_chat_db = \<lparr>db_msgs = [], db_msg_next = 1, db_atts = [], db_att_next = 1, db_groups = [],
     db_group_next = 1, db_members = [], db_reads = [], db_baseline = 0\<rparr>"

record chat_srv =
  cv_db :: chat_db
  cv_hub :: hub
  cv_limiter :: "string \<Rightarrow> time list"
  cv_typing :: "string \<rightharpoonup> time"
  cv_cache :: dir_cache
  cv_emp :: emp_db

record chat_env =
  ce_now :: time
  ce_faults :: faults
  ce_fetch :: "string + snapshot option"

definition stamp_now :: "chat_env \<Rightarrow> nat" where
  "stamp_now env = nat (ce_now env div 1000)"

section \<open>Shared checks\<close>

definition chat_auth :: "chat_env \<Rightarrow> chat_srv \<Rightarrow> string \<Rightarrow> string result" where
  "chat_auth env s tok =
     (case module_employee_session (ce_faults env) (ce_now env) (cv_emp s) tok of
        Inl _ \<Rightarrow> Inl not_authenticated
      | Inr u \<Rightarrow> Inr u)"

definition ask_dir :: "chat_env \<Rightarrow> chat_srv \<Rightarrow> (string + snapshot option) \<times> chat_srv" where
  "ask_dir env s =
     (case dir_load (ce_now env) (ce_fetch env) (cv_cache s) of
        (r, c) \<Rightarrow> (r, s\<lparr>cv_cache := c\<rparr>))"

definition max_message_chars :: nat where "max_message_chars = 4000"

definition check_length :: "string \<Rightarrow> unit result" where
  "check_length content =
     (if rune_count content > max_message_chars then Inl (HTTP 400 ''message is too long'') else Inr ())"

definition target_count :: "string \<Rightarrow> string \<Rightarrow> int \<Rightarrow> nat" where
  "target_count grp to custom =
     (if grp \<noteq> [] then 1 else 0) + (if to \<noteq> [] then 1 else 0) + (if custom \<noteq> 0 then 1 else 0)"

definition is_group_member :: "chat_db \<Rightarrow> int \<Rightarrow> string \<Rightarrow> bool" where
  "is_group_member db gid u \<longleftrightarrow> (gid, u) \<in> set (db_members db)"

text \<open>\<open>ORDER BY username\<close>; members of a group are distinct by the primary key.\<close>

fun insert_sorted :: "string \<Rightarrow> string list \<Rightarrow> string list" where
  "insert_sorted x [] = [x]"
| "insert_sorted x (y # ys) =
     (if ord.lexordp (\<lambda>a b. byte a < byte b) y x then y # insert_sorted x ys else x # y # ys)"

definition group_members :: "chat_db \<Rightarrow> int \<Rightarrow> string list" where
  "group_members db gid =
     foldr insert_sorted (map snd (filter (\<lambda>p. fst p = gid) (db_members db))) []"

definition require_channel_member :: "chat_env \<Rightarrow> chat_srv \<Rightarrow> string \<Rightarrow> string \<Rightarrow> unit result \<times> chat_srv" where
  "require_channel_member env s u grp =
     (case ask_dir env s of
        (loaded, s1) \<Rightarrow>
          (case group_for loaded u of
             Inl _ \<Rightarrow> (Inl (internal_error ''check group membership''), s1)
           | Inr mine \<Rightarrow>
               if mine = [] \<or> mine \<noteq> grp
               then (Inl (HTTP 403 ''you're not a member of this channel''), s1)
               else (Inr (), s1)))"

definition require_recipient_exists :: "chat_env \<Rightarrow> chat_srv \<Rightarrow> string \<Rightarrow> unit result \<times> chat_srv" where
  "require_recipient_exists env s recipient =
     (case ask_dir env s of
        (loaded, s1) \<Rightarrow>
          (case list_users loaded of
             Inl _ \<Rightarrow> (Inl (internal_error ''check recipient''), s1)
           | Inr users \<Rightarrow>
               if recipient \<in> set users then (Inr (), s1) else (Inl (HTTP 400 ''no such user''), s1)))"

definition require_group_member :: "chat_env \<Rightarrow> chat_srv \<Rightarrow> int \<Rightarrow> string \<Rightarrow> unit result" where
  "require_group_member env s gid u =
     (if ce_faults env ''check membership'' then Inl (internal_error ''check membership'')
      else if \<not> is_group_member (cv_db s) gid u then Inl (HTTP 403 ''you're not a member of this group'')
      else Inr ())"

text \<open>The checks a send and an upload make on their target, in the order of the code.\<close>

definition check_target ::
  "chat_env \<Rightarrow> chat_srv \<Rightarrow> string \<Rightarrow> string \<Rightarrow> string \<Rightarrow> int \<Rightarrow> unit result \<times> chat_srv" where
  "check_target env s me grp to custom =
     (if target_count grp to custom \<noteq> 1
      then (Inl (HTTP 400 ''specify exactly one of group_name, recipient_username, or custom_group_id''), s)
      else case (if grp \<noteq> [] then require_channel_member env s me grp else (Inr (), s)) of
        (Inl e, s1) \<Rightarrow> (Inl e, s1)
      | (Inr _, s1) \<Rightarrow>
          (case (if to \<noteq> [] then require_recipient_exists env s1 to else (Inr (), s1)) of
             (Inl e, s2) \<Rightarrow> (Inl e, s2)
           | (Inr _, s2) \<Rightarrow>
               ((if custom \<noteq> 0 then require_group_member env s2 custom me else Inr ()), s2)))"

section \<open>Reading messages\<close>

definition nonempty_opt :: "string \<Rightarrow> string option" where
  "nonempty_opt x = (if x \<noteq> [] then Some x else None)"

definition or_empty :: "string option \<Rightarrow> string" where
  "or_empty x = (case x of None \<Rightarrow> [] | Some v \<Rightarrow> v)"

definition left_chars :: "nat \<Rightarrow> string \<Rightarrow> string" where
  "left_chars n t = concat (map snd (take n (runes t)))"

definition find_msg :: "chat_db \<Rightarrow> int \<Rightarrow> msg_row option" where
  "find_msg db i = find (\<lambda>m. m_id m = i) (db_msgs db)"

text \<open>The quote of a reply: the joined row of \<open>repliesFor\<close>.\<close>

definition reply_of :: "chat_db \<Rightarrow> int \<Rightarrow> hub_reply option" where
  "reply_of db i =
     (case find_msg db i of
        None \<Rightarrow> None
      | Some m \<Rightarrow>
          (case m_reply m of
             None \<Rightarrow> None
           | Some r \<Rightarrow>
               (case find_msg db r of
                  None \<Rightarrow> None
                | Some q \<Rightarrow> Some \<lparr>hr_id = m_id q, hr_sender = m_sender q,
                    hr_content = left_chars 140 (m_content q), hr_deleted = m_deleted q \<noteq> None\<rparr>)))"

definition attachment_of :: "chat_db \<Rightarrow> int \<Rightarrow> hub_attachment option" where
  "attachment_of db i =
     map_option (\<lambda>t. \<lparr>ha_id = t_id t, ha_filename = t_filename t, ha_size = t_size t\<rparr>)
       (find (\<lambda>t. t_message t = i) (rev (db_atts db)))"

definition row_out :: "msg_row \<Rightarrow> message_out" where
  "row_out m = \<lparr>mo_id = m_id m, mo_sender = m_sender m, mo_group = or_empty (m_group m),
     mo_recipient = or_empty (m_to m), mo_custom = (case m_custom m of None \<Rightarrow> 0 | Some c \<Rightarrow> c),
     mo_content = m_content m, mo_created = rfc3339 (m_created m),
     mo_edited = (case m_edited m of None \<Rightarrow> [] | Some t \<Rightarrow> rfc3339 t),
     mo_deleted = (case m_deleted m of None \<Rightarrow> [] | Some t \<Rightarrow> rfc3339 t),
     mo_attachment = None, mo_reply = None\<rparr>"

definition decorate :: "chat_db \<Rightarrow> message_out \<Rightarrow> message_out" where
  "decorate db o' = o'\<lparr>mo_attachment := attachment_of db (mo_id o'), mo_reply := reply_of db (mo_id o')\<rparr>"

definition collect_messages :: "faults \<Rightarrow> chat_db \<Rightarrow> msg_row list \<Rightarrow> string + message_out list" where
  "collect_messages f db rows =
     (if f ''scan'' then Inl ''scan''
      else if rows \<noteq> [] \<and> f ''attachments'' then Inl ''attachments''
      else if rows \<noteq> [] \<and> f ''replies'' then Inl ''replies''
      else Inr (map (\<lambda>m. decorate db (row_out m)) rows))"

definition in_thread :: "string \<Rightarrow> string \<Rightarrow> string \<Rightarrow> int \<Rightarrow> msg_row \<Rightarrow> bool" where
  "in_thread me grp other custom m \<longleftrightarrow>
     (if grp \<noteq> [] then m_group m = Some grp
      else if custom \<noteq> 0 then m_custom m = Some custom
      else (m_sender m = me \<and> m_to m = Some other) \<or> (m_sender m = other \<and> m_to m = Some me))"

definition page_size :: nat where "page_size = 50"
definition backfill_limit :: nat where "backfill_limit = 500"

definition take_last :: "nat \<Rightarrow> 'a list \<Rightarrow> 'a list" where
  "take_last n xs = drop (length xs - n) xs"

definition select_messages ::
  "chat_db \<Rightarrow> string \<Rightarrow> string \<Rightarrow> string \<Rightarrow> int \<Rightarrow> int \<Rightarrow> int \<Rightarrow> msg_row list" where
  "select_messages db me grp other custom after before =
     (let thread = filter (in_thread me grp other custom) (db_msgs db) in
      if after > 0 then take backfill_limit (filter (\<lambda>m. after < m_id m) thread)
      else if before > 0 then take_last page_size (filter (\<lambda>m. m_id m < before) thread)
      else take_last page_size thread)"

definition fetch_messages ::
  "faults \<Rightarrow> chat_db \<Rightarrow> string \<Rightarrow> string \<Rightarrow> string \<Rightarrow> int \<Rightarrow> int \<Rightarrow> int \<Rightarrow> string + message_out list" where
  "fetch_messages f db me grp other custom after before =
     (if f ''query'' then Inl ''query''
      else collect_messages f db (select_messages db me grp other custom after before))"

definition get_messages ::
  "chat_env \<Rightarrow> chat_srv \<Rightarrow> string \<Rightarrow> string \<Rightarrow> string \<Rightarrow> int \<Rightarrow> int \<Rightarrow> int \<Rightarrow> message_out list result \<times> chat_srv" where
  "get_messages env s tok grp other custom after before =
     (case chat_auth env s tok of
        Inl e \<Rightarrow> (Inl e, s)
      | Inr me \<Rightarrow>
          if target_count grp other custom \<noteq> 1
          then (Inl (HTTP 400 ''specify exactly one of group, with, or custom_group''), s)
          else case (if grp \<noteq> [] then require_channel_member env s me grp else (Inr (), s)) of
            (Inl e, s1) \<Rightarrow> (Inl e, s1)
          | (Inr _, s1) \<Rightarrow>
              (case (if custom \<noteq> 0 then require_group_member env s1 custom me else Inr ()) of
                 Inl e \<Rightarrow> (Inl e, s1)
               | Inr _ \<Rightarrow>
                   (case fetch_messages (ce_faults env) (cv_db s1) me grp other custom after before of
                      Inl _ \<Rightarrow> (Inl (internal_error ''load messages''), s1)
                    | Inr ms \<Rightarrow> (Inr ms, s1))))"

end
