(* ===== verification/ChatWrite.thy ===== *)
theory ChatWrite
  imports Chat
begin

text \<open>
  The chat handlers that change something: sending, attachments, editing and deleting, private groups,
  read state and typing notices, and the live delivery they trigger.  The object store is a record of
  operations on a state of its own; \<open>sniff\<close> is the content type detection of the Go library.
\<close>

section \<open>Saving and delivering\<close>

definition insert_message ::
  "chat_env \<Rightarrow> chat_db \<Rightarrow> string \<Rightarrow> string \<Rightarrow> string \<Rightarrow> int \<Rightarrow> string \<Rightarrow> int \<Rightarrow> (string + message_out) \<times> chat_db" where
  "insert_message env db sender grp to custom content reply =
     (let row = \<lparr>m_id = db_msg_next db, m_sender = sender, m_group = nonempty_opt grp, m_to = nonempty_opt to,
            m_custom = (if custom \<noteq> 0 then Some custom else None), m_content = content,
            m_created = stamp_now env, m_edited = None, m_deleted = None,
            m_reply = (if reply \<noteq> 0 then Some reply else None)\<rparr>;
          db1 = db\<lparr>db_msg_next := db_msg_next db + 1\<rparr>;
          db2 = db1\<lparr>db_msgs := db_msgs db @ [row]\<rparr> in
      if ce_faults env ''insert'' then (Inl ''insert'', db)
      else if target_count grp to custom \<noteq> 1 \<or> \<not> pg_text content
        \<or> (custom \<noteq> 0 \<and> custom \<notin> g_id ` set (db_groups db))
        \<or> (reply \<noteq> 0 \<and> find_msg db reply = None)
      then (Inl ''constraint'', db1)
      else if reply \<noteq> 0 \<and> ce_faults env ''replies'' then (Inl ''replies'', db2)
      else (Inr ((row_out row)\<lparr>mo_reply := (if reply \<noteq> 0 then reply_of db2 (m_id row) else None)\<rparr>), db2))"

text \<open>\<open>pushEvent\<close>: whom a message concerns, and the delivery.\<close>

definition push_event ::
  "chat_env \<Rightarrow> chat_srv \<Rightarrow> string \<Rightarrow> message_out \<Rightarrow> (string + unit) \<times> chat_srv" where
  "push_event env s kind m =
     (if mo_group m \<noteq> [] then
        (case ask_dir env s of
           (loaded, s1) \<Rightarrow>
             (case members_of loaded (mo_group m) of
                Inl e \<Rightarrow> (Inl e, s1)
              | Inr members \<Rightarrow> (Inr (), s1\<lparr>cv_hub := send_to members (Message kind m) (cv_hub s1)\<rparr>)))
      else if mo_custom m \<noteq> 0 then
        (if ce_faults env ''members'' then (Inl ''members'', s)
         else (Inr (), s\<lparr>cv_hub := send_to (group_members (cv_db s) (mo_custom m)) (Message kind m) (cv_hub s)\<rparr>))
      else (Inr (), s\<lparr>cv_hub := send_to [mo_sender m, mo_recipient m] (Message kind m) (cv_hub s)\<rparr>))"

definition require_reply_in_thread ::
  "faults \<Rightarrow> chat_db \<Rightarrow> int \<Rightarrow> string \<Rightarrow> string \<Rightarrow> string \<Rightarrow> int \<Rightarrow> unit result" where
  "require_reply_in_thread f db reply me grp other custom =
     (case (if f ''reply row'' then None else find_msg db reply) of
        None \<Rightarrow> Inl (HTTP 400 ''the message you're replying to doesn't exist'')
      | Some r \<Rightarrow>
          if (if grp \<noteq> [] then m_group r = Some grp
              else if custom \<noteq> 0 then m_custom r = Some custom
              else m_to r \<noteq> None
                \<and> ((m_sender r = me \<and> m_to r = Some other) \<or> (m_sender r = other \<and> m_to r = Some me)))
          then Inr ()
          else Inl (HTTP 400 ''you can only reply to a message in the same conversation''))"

section \<open>Sending\<close>

record send_body =
  sb_group :: string
  sb_to :: string
  sb_custom :: int
  sb_content :: string
  sb_reply :: int

definition check_rate :: "chat_env \<Rightarrow> chat_srv \<Rightarrow> string \<Rightarrow> unit result \<times> chat_srv" where
  "check_rate env s me =
     (case chat_allow (cv_limiter s) me (ce_now env) of
        (ok, l) \<Rightarrow>
          (if ok then Inr () else Inl (HTTP 429 ''you're sending too fast''), s\<lparr>cv_limiter := l\<rparr>))"

definition save_and_push ::
  "chat_env \<Rightarrow> chat_srv \<Rightarrow> string \<Rightarrow> string \<Rightarrow> string \<Rightarrow> int \<Rightarrow> string \<Rightarrow> int \<Rightarrow> message_out result \<times> chat_srv" where
  "save_and_push env s me grp to custom content reply =
     (case insert_message env (cv_db s) me grp to custom content reply of
        (Inl _, db) \<Rightarrow> (Inl (internal_error ''save message''), s\<lparr>cv_db := db\<rparr>)
      | (Inr m, db) \<Rightarrow>
          (case push_event env (s\<lparr>cv_db := db\<rparr>) ''message'' m of
             (Inl _, s1) \<Rightarrow> (Inl (internal_error ''deliver message''), s1)
           | (Inr _, s1) \<Rightarrow> (Inr m, s1)))"

definition post_message ::
  "chat_env \<Rightarrow> chat_srv \<Rightarrow> string \<Rightarrow> send_body \<Rightarrow> string \<Rightarrow> message_out result \<times> chat_srv" where
  "post_message env s me b content =
     (case check_target env s me (sb_group b) (sb_to b) (sb_custom b) of
        (Inl e, s1) \<Rightarrow> (Inl e, s1)
      | (Inr _, s1) \<Rightarrow>
          (case (if sb_reply b \<noteq> 0
                 then require_reply_in_thread (ce_faults env) (cv_db s1) (sb_reply b) me
                        (sb_group b) (sb_to b) (sb_custom b)
                 else Inr ()) of
             Inl e \<Rightarrow> (Inl e, s1)
           | Inr _ \<Rightarrow> save_and_push env s1 me (sb_group b) (sb_to b) (sb_custom b) content (sb_reply b)))"

definition send_message ::
  "chat_env \<Rightarrow> chat_srv \<Rightarrow> string \<Rightarrow> send_body \<Rightarrow> message_out result \<times> chat_srv" where
  "send_message env s tok b =
     (case chat_auth env s tok of
        Inl e \<Rightarrow> (Inl e, s)
      | Inr me \<Rightarrow>
          (let content = trim_space (sb_content b) in
           if content = [] then (Inl (HTTP 400 ''message can't be empty''), s)
           else case check_length content of
             Inl e \<Rightarrow> (Inl e, s)
           | Inr _ \<Rightarrow>
               (case check_rate env s me of
                  (Inl e, s1) \<Rightarrow> (Inl e, s1)
                | (Inr _, s1) \<Rightarrow> post_message env s1 me b content)))"

section \<open>Attachments\<close>

record 'o object_store =
  os_upload :: "'o \<Rightarrow> string \<Rightarrow> string \<Rightarrow> string \<Rightarrow> (string + unit) \<times> 'o"
  os_download :: "'o \<Rightarrow> string \<Rightarrow> string + string \<times> string"
  os_delete :: "'o \<Rightarrow> string \<Rightarrow> (string + unit) \<times> 'o"

definition max_attachment_size :: nat where "max_attachment_size = 25 * 1024 * 1024"

definition safe_disposition_filename :: "string \<Rightarrow> string" where
  "safe_disposition_filename name =
     remove_chr (CHR 0x0A) (remove_chr (CHR 0x0D) (remove_chr (CHR 0x22) name))"

definition inline_safe :: "string \<Rightarrow> bool" where
  "inline_safe t \<longleftrightarrow> t \<in> {''image/png'', ''image/jpeg'', ''image/gif'', ''image/webp''}"

definition upload_content_type :: "(string \<Rightarrow> string) \<Rightarrow> string \<Rightarrow> string" where
  "upload_content_type sniff bytes = sniff (take 512 bytes)"

record upload_form =
  uf_group :: string
  uf_to :: string
  uf_custom :: int
  uf_caption :: string
  uf_filename :: string
  uf_bytes :: string

definition attachment_key :: "int \<Rightarrow> string \<Rightarrow> string" where
  "attachment_key i filename = ''chat/'' @ int_str i @ ''/'' @ filename"

text \<open>Saving the message, storing the file, recording it, and telling the others, in that order.\<close>

definition save_upload ::
  "(string \<Rightarrow> string) \<Rightarrow> 'o object_store \<Rightarrow> chat_env \<Rightarrow> chat_srv \<Rightarrow> 'o \<Rightarrow> string \<Rightarrow> upload_form
     \<Rightarrow> message_out result \<times> chat_srv \<times> 'o" where
  "save_upload sniff ops env s os me d =
     (case insert_message env (cv_db s) me (uf_group d) (uf_to d) (uf_custom d) (uf_caption d) 0 of
        (Inl _, db) \<Rightarrow> (Inl (internal_error ''save message''), s\<lparr>cv_db := db\<rparr>, os)
      | (Inr m, db) \<Rightarrow>
          (let key = attachment_key (mo_id m) (uf_filename d); s1 = s\<lparr>cv_db := db\<rparr> in
           case os_upload ops os key (uf_bytes d) (upload_content_type sniff (uf_bytes d)) of
             (Inl _, os') \<Rightarrow> (Inl (internal_error ''upload attachment''), s1, os')
           | (Inr _, os') \<Rightarrow>
               if ce_faults env ''record attachment'' \<or> \<not> pg_text (uf_filename d)
               then (Inl (internal_error ''record attachment''), s1, os')
               else
                 (let t = \<lparr>t_id = db_att_next db, t_message = mo_id m, t_filename = uf_filename d, t_key = key,
                        t_size = length (uf_bytes d), t_by = me\<rparr>;
                      db' = db\<lparr>db_atts := db_atts db @ [t], db_att_next := db_att_next db + 1\<rparr>;
                      m' = m\<lparr>mo_attachment := Some \<lparr>ha_id = t_id t, ha_filename = t_filename t, ha_size = t_size t\<rparr>\<rparr> in
                  case push_event env (s1\<lparr>cv_db := db'\<rparr>) ''message'' m' of
                    (Inl _, s2) \<Rightarrow> (Inl (internal_error ''deliver message''), s2, os')
                  | (Inr _, s2) \<Rightarrow> (Inr m', s2, os'))))"

text \<open>\<open>s3\<close> is what \<open>chatS3Client\<close> gives: an error, not available, or the operations.\<close>

definition upload_attachment ::
  "(string \<Rightarrow> string) \<Rightarrow> string + 'o object_store option \<Rightarrow> chat_env \<Rightarrow> chat_srv \<Rightarrow> 'o \<Rightarrow> string \<Rightarrow> upload_form
     \<Rightarrow> message_out result \<times> chat_srv \<times> 'o" where
  "upload_attachment sniff s3 env s os tok d =
     (case chat_auth env s tok of
        Inl e \<Rightarrow> (Inl e, s, os)
      | Inr me \<Rightarrow>
          (case check_length (uf_caption d) of
             Inl e \<Rightarrow> (Inl e, s, os)
           | Inr _ \<Rightarrow>
               (case check_rate env s me of
                  (Inl e, s1) \<Rightarrow> (Inl e, s1, os)
                | (Inr _, s1) \<Rightarrow>
                    (case check_target env s1 me (uf_group d) (uf_to d) (uf_custom d) of
                       (Inl e, s2) \<Rightarrow> (Inl e, s2, os)
                     | (Inr _, s2) \<Rightarrow>
                         (case s3 of
                            Inl _ \<Rightarrow> (Inl (internal_error ''check backup storage''), s2, os)
                          | Inr None \<Rightarrow> (Inl (HTTP 400 ''install the Backup Storage module first''), s2, os)
                          | Inr (Some ops) \<Rightarrow>
                              if ce_faults env ''read upload'' then (Inl (HTTP 400 ''read upload''), s2, os)
                              else if length (uf_bytes d) > max_attachment_size
                              then (Inl (HTTP 400 ''file too large''), s2, os)
                              else save_upload sniff ops env s2 os me d)))))"

record download =
  dl_type :: string
  dl_disposition :: string
  dl_body :: string

definition download_attachment ::
  "string + 'o object_store option \<Rightarrow> chat_env \<Rightarrow> chat_srv \<Rightarrow> 'o \<Rightarrow> string \<Rightarrow> int \<Rightarrow> download result \<times> chat_srv" where
  "download_attachment s3 env s os tok i =
     (case chat_auth env s tok of
        Inl e \<Rightarrow> (Inl e, s)
      | Inr me \<Rightarrow>
          (case (if ce_faults env ''attachment row'' then None
                 else case find (\<lambda>t. t_id t = i) (db_atts (cv_db s)) of
                   None \<Rightarrow> None
                 | Some t \<Rightarrow> map_option (\<lambda>m. (t, m)) (find_msg (cv_db s) (t_message t))) of
             None \<Rightarrow> (Inl (HTTP 404 ''no such attachment''), s)
           | Some (t, m) \<Rightarrow>
               if m_to m \<noteq> None \<and> me \<noteq> m_sender m \<and> m_to m \<noteq> Some me
               then (Inl (HTTP 403 ''this file was sent to someone else''), s)
               else case (case m_group m of None \<Rightarrow> (Inr (), s) | Some grp \<Rightarrow> require_channel_member env s me grp) of
                 (Inl e, s1) \<Rightarrow> (Inl e, s1)
               | (Inr _, s1) \<Rightarrow>
                   (case (case m_custom m of None \<Rightarrow> Inr () | Some c \<Rightarrow> require_group_member env s1 c me) of
                      Inl e \<Rightarrow> (Inl e, s1)
                    | Inr _ \<Rightarrow>
                        (case s3 of
                           Inl _ \<Rightarrow> (Inl (internal_error ''check backup storage''), s1)
                         | Inr None \<Rightarrow> (Inl (HTTP 500 ''attachment storage unavailable''), s1)
                         | Inr (Some ops) \<Rightarrow>
                             (case os_download ops os (t_key t) of
                                Inl _ \<Rightarrow> (Inl (internal_error ''download attachment''), s1)
                              | Inr (body, ctype) \<Rightarrow>
                                  (Inr \<lparr>dl_type = ctype,
                                        dl_disposition = (if inline_safe ctype then ''inline'' else ''attachment'')
                                          @ ''; filename='' @ [CHR 0x22] @ safe_disposition_filename (t_filename t)
                                          @ [CHR 0x22],
                                        dl_body = body\<rparr>, s1))))))"

end
