(* ===== verification/ChatGroups.thy ===== *)
theory ChatGroups
  imports ChatWrite
begin

text \<open>
  The rest of the chat handlers: editing and deleting, private groups, read state, search, the two
  sidebar lists and typing notices.  \<open>fts q content\<close> stands for PostgreSQL's full-text match.
\<close>

section \<open>Editing and deleting\<close>

definition load_for_mutation :: "faults \<Rightarrow> chat_db \<Rightarrow> int \<Rightarrow> string \<Rightarrow> message_out result" where
  "load_for_mutation f db i me =
     (case (if f ''message row'' then None else find_msg db i) of
        None \<Rightarrow> Inl (HTTP 404 ''no such message'')
      | Some m \<Rightarrow>
          if m_sender m \<noteq> me then Inl (HTTP 403 ''you can only edit or delete your own messages'')
          else if f ''attachments'' then Inl (internal_error ''load attachment'')
          else if f ''replies'' then Inl (internal_error ''load reply'')
          else Inr (decorate db (row_out m)))"

definition update_msg :: "int \<Rightarrow> (msg_row \<Rightarrow> msg_row) \<Rightarrow> chat_db \<Rightarrow> chat_db" where
  "update_msg i g db = db\<lparr>db_msgs := map (\<lambda>m. if m_id m = i then g m else m) (db_msgs db)\<rparr>"

definition save_edit ::
  "chat_env \<Rightarrow> chat_srv \<Rightarrow> message_out \<Rightarrow> string \<Rightarrow> message_out result \<times> chat_srv" where
  "save_edit env s m content =
     (if ce_faults env ''save edit'' \<or> \<not> pg_text content then (Inl (internal_error ''save edit''), s)
      else
        (let now = stamp_now env;
             s1 = s\<lparr>cv_db := update_msg (mo_id m) (\<lambda>r. r\<lparr>m_content := content, m_edited := Some now\<rparr>) (cv_db s)\<rparr>;
             m' = m\<lparr>mo_content := content, mo_edited := rfc3339 now\<rparr> in
         case push_event env s1 ''message_updated'' m' of
           (Inl _, s2) \<Rightarrow> (Inl (internal_error ''deliver edit''), s2)
         | (Inr _, s2) \<Rightarrow> (Inr m', s2)))"

definition edit_message ::
  "chat_env \<Rightarrow> chat_srv \<Rightarrow> string \<Rightarrow> int \<Rightarrow> string \<Rightarrow> message_out result \<times> chat_srv" where
  "edit_message env s tok i content0 =
     (case chat_auth env s tok of
        Inl e \<Rightarrow> (Inl e, s)
      | Inr me \<Rightarrow>
          (let content = trim_space content0 in
           if content = [] then (Inl (HTTP 400 ''message can't be empty''), s)
           else case check_length content of
             Inl e \<Rightarrow> (Inl e, s)
           | Inr _ \<Rightarrow>
               (case load_for_mutation (ce_faults env) (cv_db s) i me of
                  Inl e \<Rightarrow> (Inl e, s)
                | Inr m \<Rightarrow>
                    if mo_deleted m \<noteq> [] then (Inl (HTTP 400 ''can't edit a deleted message''), s)
                    else save_edit env s m content)))"

definition delete_attachment ::
  "string + 'o object_store option \<Rightarrow> faults \<Rightarrow> chat_db \<Rightarrow> 'o \<Rightarrow> int \<Rightarrow> (string + unit) \<times> chat_db \<times> 'o" where
  "delete_attachment s3 f db os i =
     (case (if f ''attachment key'' then None else find (\<lambda>t. t_id t = i) (db_atts db)) of
        None \<Rightarrow> (Inl ''attachment key'', db, os)
      | Some t \<Rightarrow>
          (let gone = db\<lparr>db_atts := filter (\<lambda>t. t_id t \<noteq> i) (db_atts db)\<rparr> in
           case s3 of
             Inl e \<Rightarrow> (Inl e, db, os)
           | Inr None \<Rightarrow> if f ''delete attachment'' then (Inl ''delete attachment'', db, os) else (Inr (), gone, os)
           | Inr (Some ops) \<Rightarrow>
               (case os_delete ops os (t_key t) of
                  (Inl e, os') \<Rightarrow> (Inl e, db, os')
                | (Inr _, os') \<Rightarrow>
                    if f ''delete attachment'' then (Inl ''delete attachment'', db, os') else (Inr (), gone, os'))))"

definition bury_message ::
  "chat_env \<Rightarrow> chat_srv \<Rightarrow> message_out \<Rightarrow> message_out result \<times> chat_srv" where
  "bury_message env s m =
     (if ce_faults env ''delete message'' then (Inl (internal_error ''delete message''), s)
      else
        (let now = stamp_now env;
             s1 = s\<lparr>cv_db := update_msg (mo_id m) (\<lambda>r. r\<lparr>m_content := [], m_deleted := Some now\<rparr>) (cv_db s)\<rparr>;
             m' = m\<lparr>mo_attachment := None, mo_content := [], mo_deleted := rfc3339 now\<rparr> in
         case push_event env s1 ''message_updated'' m' of
           (Inl _, s2) \<Rightarrow> (Inl (internal_error ''deliver delete''), s2)
         | (Inr _, s2) \<Rightarrow> (Inr m', s2)))"

definition delete_message ::
  "string + 'o object_store option \<Rightarrow> chat_env \<Rightarrow> chat_srv \<Rightarrow> 'o \<Rightarrow> string \<Rightarrow> int
     \<Rightarrow> message_out result \<times> chat_srv \<times> 'o" where
  "delete_message s3 env s os tok i =
     (case chat_auth env s tok of
        Inl e \<Rightarrow> (Inl e, s, os)
      | Inr me \<Rightarrow>
          (case load_for_mutation (ce_faults env) (cv_db s) i me of
             Inl e \<Rightarrow> (Inl e, s, os)
           | Inr m \<Rightarrow>
               if mo_deleted m \<noteq> [] then (Inr m, s, os)
               else case (case mo_attachment m of
                            None \<Rightarrow> (Inr (), cv_db s, os)
                          | Some a \<Rightarrow> delete_attachment s3 (ce_faults env) (cv_db s) os (ha_id a)) of
                 (Inl _, db, os') \<Rightarrow> (Inl (internal_error ''remove attachment''), s\<lparr>cv_db := db\<rparr>, os')
               | (Inr _, db, os') \<Rightarrow>
                   (case bury_message env (s\<lparr>cv_db := db\<rparr>) m of (r, s1) \<Rightarrow> (r, s1, os'))))"

section \<open>Private groups\<close>

record group_out =
  go_id :: int
  go_name :: string
  go_creator :: string
  go_members :: "string list"

definition my_groups :: "chat_db \<Rightarrow> string \<Rightarrow> group_out list" where
  "my_groups db me =
     map (\<lambda>g. \<lparr>go_id = g_id g, go_name = g_name g, go_creator = g_creator g, go_members = group_members db (g_id g)\<rparr>)
       (filter (\<lambda>g. is_group_member db (g_id g) me) (db_groups db))"

definition list_my_groups :: "chat_env \<Rightarrow> chat_srv \<Rightarrow> string \<Rightarrow> group_out list result" where
  "list_my_groups env s tok =
     (case chat_auth env s tok of
        Inl e \<Rightarrow> Inl e
      | Inr me \<Rightarrow>
          if ce_faults env ''list groups'' then Inl (internal_error ''list groups'')
          else Inr (my_groups (cv_db s) me))"

text \<open>The first name of the request that is neither blank nor a real user.\<close>

definition bad_member :: "string list \<Rightarrow> string list \<Rightarrow> string option" where
  "bad_member users ms = find (\<lambda>m. m \<noteq> [] \<and> m \<notin> set users) (map trim_space ms)"

definition new_members :: "string \<Rightarrow> string list \<Rightarrow> string list" where
  "new_members me ms = me # filter (\<lambda>m. m \<noteq> me) (remdups (filter (\<lambda>m. m \<noteq> []) (map trim_space ms)))"

definition create_group ::
  "chat_env \<Rightarrow> chat_srv \<Rightarrow> string \<Rightarrow> string \<Rightarrow> string list \<Rightarrow> group_out result \<times> chat_srv" where
  "create_group env s tok name0 ms =
     (case chat_auth env s tok of
        Inl e \<Rightarrow> (Inl e, s)
      | Inr me \<Rightarrow>
          (let name = trim_space name0 in
           if name = [] then (Inl (HTTP 400 ''group name can't be empty''), s)
           else case ask_dir env s of
             (loaded, s1) \<Rightarrow>
               (case list_users loaded of
                  Inl _ \<Rightarrow> (Inl (internal_error ''check directory''), s1)
                | Inr users \<Rightarrow>
                    (case bad_member users ms of
                       Some m \<Rightarrow> (Inl (HTTP 400 (''no such employee: '' @ m)), s1)
                     | None \<Rightarrow>
                         (let db = cv_db s1; gid = db_group_next db; members = new_members me ms;
                              db1 = db\<lparr>db_group_next := gid + 1\<rparr> in
                          if ce_faults env ''begin transaction'' then (Inl (internal_error ''begin transaction''), s1)
                          else if ce_faults env ''create group'' \<or> \<not> pg_text name
                          then (Inl (internal_error ''create group''), s1\<lparr>cv_db := db1\<rparr>)
                          else if ce_faults env ''add member'' then (Inl (internal_error ''add member''), s1\<lparr>cv_db := db1\<rparr>)
                          else if ce_faults env ''commit'' then (Inl (internal_error ''commit''), s1\<lparr>cv_db := db1\<rparr>)
                          else
                            (let db2 = db1\<lparr>db_groups := db_groups db @ [\<lparr>g_id = gid, g_name = name, g_creator = me\<rparr>],
                                           db_members := db_members db @ map (Pair gid) members\<rparr> in
                             (Inr \<lparr>go_id = gid, go_name = name, go_creator = me, go_members = members\<rparr>,
                              s1\<lparr>cv_db := db2,
                                 cv_hub := send_to (filter (\<lambda>m. m \<noteq> me) members)
                                   (Group_event ''group_invite'' gid name) (cv_hub s1)\<rparr>)))))))"

definition find_group :: "chat_db \<Rightarrow> int \<Rightarrow> group_row option" where
  "find_group db gid = find (\<lambda>g. g_id g = gid) (db_groups db)"

definition add_member :: "chat_env \<Rightarrow> chat_srv \<Rightarrow> string \<Rightarrow> int \<Rightarrow> string \<Rightarrow> unit result \<times> chat_srv" where
  "add_member env s tok gid username =
     (case chat_auth env s tok of
        Inl e \<Rightarrow> (Inl e, s)
      | Inr me \<Rightarrow>
          (let who = trim_space username in
           if who = [] then (Inl (HTTP 400 ''username can't be empty''), s)
           else case ask_dir env s of
             (loaded, s1) \<Rightarrow>
               (case list_users loaded of
                  Inl _ \<Rightarrow> (Inl (internal_error ''check directory''), s1)
                | Inr users \<Rightarrow>
                    if who \<notin> set users then (Inl (HTTP 400 (''no such employee: '' @ who)), s1)
                    else case require_group_member env s1 gid me of
                      Inl e \<Rightarrow> (Inl e, s1)
                    | Inr _ \<Rightarrow>
                        if ce_faults env ''add member'' then (Inl (internal_error ''add member''), s1)
                        else
                          (let db = cv_db s1;
                               db1 = (if (gid, who) \<in> set (db_members db) then db
                                      else db\<lparr>db_members := db_members db @ [(gid, who)]\<rparr>);
                               s2 = s1\<lparr>cv_db := db1\<rparr> in
                           case (if ce_faults env ''group name'' then None else find_group db1 gid) of
                             None \<Rightarrow> (Inr (), s2)
                           | Some g \<Rightarrow>
                               (let s3 = s2\<lparr>cv_hub := send_to [who] (Group_event ''group_invite'' gid (g_name g)) (cv_hub s2)\<rparr> in
                                if ce_faults env ''members'' then (Inr (), s3)
                                else (Inr (), s3\<lparr>cv_hub := send_to (group_members db1 gid)
                                       (Group_event ''group_changed'' gid (g_name g)) (cv_hub s3)\<rparr>))))))"

text \<open>Deleting a group deletes its members and messages, and their attachment rows, by cascade.\<close>

definition drop_group :: "int \<Rightarrow> chat_db \<Rightarrow> chat_db" where
  "drop_group gid db =
     (let gone = m_id ` set (filter (\<lambda>m. m_custom m = Some gid) (db_msgs db)) in
      db\<lparr>db_groups := filter (\<lambda>g. g_id g \<noteq> gid) (db_groups db),
         db_members := filter (\<lambda>p. fst p \<noteq> gid) (db_members db),
         db_msgs := map (\<lambda>m. if \<exists>r. m_reply m = Some r \<and> r \<in> gone then m\<lparr>m_reply := None\<rparr> else m)
                      (filter (\<lambda>m. m_custom m \<noteq> Some gid) (db_msgs db)),
         db_atts := filter (\<lambda>t. t_message t \<notin> gone) (db_atts db)\<rparr>)"

definition remove_member :: "chat_env \<Rightarrow> chat_srv \<Rightarrow> string \<Rightarrow> int \<Rightarrow> string \<Rightarrow> unit result \<times> chat_srv" where
  "remove_member env s tok gid who =
     (case chat_auth env s tok of
        Inl e \<Rightarrow> (Inl e, s)
      | Inr me \<Rightarrow>
          (case require_group_member env s gid me of
             Inl e \<Rightarrow> (Inl e, s)
           | Inr _ \<Rightarrow>
               (case (if ce_faults env ''group row'' then None else find_group (cv_db s) gid) of
                  None \<Rightarrow> (Inl (HTTP 404 ''no such group''), s)
                | Some g \<Rightarrow>
                    if who \<noteq> me \<and> ce_faults env ''creator'' then (Inl (internal_error ''check membership''), s)
                    else if who \<noteq> me \<and> is_group_member (cv_db s) gid (g_creator g) \<and> g_creator g \<noteq> me
                    then (Inl (HTTP 403 ''only the person who made the group can remove others''), s)
                    else if ce_faults env ''remove member'' then (Inl (internal_error ''remove member''), s)
                    else
                      (let db = cv_db s; db1 = db\<lparr>db_members := filter (\<lambda>p. p \<noteq> (gid, who)) (db_members db)\<rparr>;
                           s1 = s\<lparr>cv_db := db1\<rparr>; remaining = group_members db1 gid in
                       if (gid, who) \<notin> set (db_members db)
                       then (Inl (HTTP 404 ''that person isn't in this group''), s1)
                       else if ce_faults env ''members'' then (Inl (internal_error ''list members''), s1)
                       else if remaining = [] \<and> ce_faults env ''delete empty group''
                       then (Inl (internal_error ''delete empty group''), s1)
                       else
                         (Inr (),
                          s1\<lparr>cv_db := (if remaining = [] then drop_group gid db1 else db1),
                             cv_hub := send_to (remaining @ [who])
                               (Group_event ''group_changed'' gid (g_name g)) (cv_hub s1)\<rparr>)))))"

section \<open>Read state\<close>

definition last_read :: "chat_db \<Rightarrow> string \<Rightarrow> string \<Rightarrow> int" where
  "last_read db me key = (case map_of (db_reads db) (me, key) of None \<Rightarrow> db_baseline db | Some i \<Rightarrow> i)"

definition count_by :: "('a \<Rightarrow> string) \<Rightarrow> 'a list \<Rightarrow> (string \<times> nat) list" where
  "count_by key xs = map (\<lambda>k. (k, length (filter (\<lambda>x. key x = k) xs))) (remdups (map key xs))"

definition unread_dms :: "chat_db \<Rightarrow> string \<Rightarrow> msg_row list" where
  "unread_dms db me = filter (\<lambda>m. m_to m = Some me \<and> m_deleted m = None
     \<and> last_read db me (''dm:'' @ m_sender m) < m_id m) (db_msgs db)"

definition custom_key :: "msg_row \<Rightarrow> string" where
  "custom_key m = ''custom:'' @ (case m_custom m of None \<Rightarrow> [] | Some c \<Rightarrow> int_str c)"

definition unread_customs :: "chat_db \<Rightarrow> string \<Rightarrow> msg_row list" where
  "unread_customs db me = filter (\<lambda>m. (\<exists>c. m_custom m = Some c \<and> is_group_member db c me) \<and> m_sender m \<noteq> me
     \<and> m_deleted m = None \<and> last_read db me (custom_key m) < m_id m) (db_msgs db)"

definition unread_channel :: "chat_db \<Rightarrow> string \<Rightarrow> string \<Rightarrow> msg_row list" where
  "unread_channel db me grp = filter (\<lambda>m. m_group m = Some grp \<and> m_sender m \<noteq> me \<and> m_deleted m = None
     \<and> last_read db me (''group:'' @ grp) < m_id m) (db_msgs db)"

definition get_unread :: "chat_env \<Rightarrow> chat_srv \<Rightarrow> string \<Rightarrow> (string \<times> nat) list result \<times> chat_srv" where
  "get_unread env s tok =
     (case chat_auth env s tok of
        Inl e \<Rightarrow> (Inl e, s)
      | Inr me \<Rightarrow>
          if ce_faults env ''count unread DMs'' then (Inl (internal_error ''count unread DMs''), s)
          else if ce_faults env ''count unread group messages''
          then (Inl (internal_error ''count unread group messages''), s)
          else case ask_dir env s of
            (loaded, s1) \<Rightarrow>
              (case group_for loaded me of
                 Inl _ \<Rightarrow> (Inl (internal_error ''look up group''), s1)
               | Inr grp \<Rightarrow>
                   (let counts = count_by (\<lambda>m. ''dm:'' @ m_sender m) (unread_dms (cv_db s) me)
                          @ count_by custom_key (unread_customs (cv_db s) me) in
                    if grp = [] then (Inr counts, s1)
                    else if ce_faults env ''count unread channel messages''
                    then (Inl (internal_error ''count unread channel messages''), s1)
                    else (Inr (counts @ count_by (\<lambda>_. ''group:'' @ grp) (unread_channel (cv_db s) me grp)), s1))))"

definition mark_read :: "chat_env \<Rightarrow> chat_srv \<Rightarrow> string \<Rightarrow> string \<Rightarrow> int \<Rightarrow> unit result \<times> chat_srv" where
  "mark_read env s tok key i =
     (case chat_auth env s tok of
        Inl e \<Rightarrow> (Inl e, s)
      | Inr me \<Rightarrow>
          if length key > 200 \<or> i \<le> 0 \<or>
             \<not> (has_prefix key ''group:'' \<or> has_prefix key ''custom:'' \<or> has_prefix key ''dm:'')
          then (Inl (HTTP 400 ''bad thread key or message id''), s)
          else if ce_faults env ''save read state'' \<or> \<not> pg_text key
          then (Inl (internal_error ''save read state''), s)
          else
            (let db = cv_db s;
                 v = (case map_of (db_reads db) (me, key) of None \<Rightarrow> i | Some old \<Rightarrow> max old i) in
             (Inr (), s\<lparr>cv_db := db\<lparr>db_reads := AList.update (me, key) v (db_reads db)\<rparr>\<rparr>)))"

section \<open>Search and the sidebar\<close>

definition search_limit :: nat where "search_limit = 30"

definition search_hits :: "(string \<Rightarrow> string \<Rightarrow> bool) \<Rightarrow> chat_db \<Rightarrow> string \<Rightarrow> string \<Rightarrow> string \<Rightarrow> msg_row list" where
  "search_hits fts db q me grp =
     take search_limit (rev (filter (\<lambda>m. m_deleted m = None \<and> fts q (m_content m)
       \<and> (m_group m = Some grp
          \<or> (\<exists>c. m_custom m = Some c \<and> is_group_member db c me)
          \<or> (m_to m \<noteq> None \<and> (m_sender m = me \<or> m_to m = Some me)))) (db_msgs db)))"

definition search_messages ::
  "(string \<Rightarrow> string \<Rightarrow> bool) \<Rightarrow> chat_env \<Rightarrow> chat_srv \<Rightarrow> string \<Rightarrow> string \<Rightarrow> message_out list result \<times> chat_srv" where
  "search_messages fts env s tok q0 =
     (case chat_auth env s tok of
        Inl e \<Rightarrow> (Inl e, s)
      | Inr me \<Rightarrow>
          (let q = trim_space q0 in
           if rune_count q < 2 \<or> 100 < rune_count q
           then (Inl (HTTP 400 ''search needs 2 to 100 characters''), s)
           else case ask_dir env s of
             (loaded, s1) \<Rightarrow>
               (case group_for loaded me of
                  Inl _ \<Rightarrow> (Inl (internal_error ''look up group''), s1)
                | Inr grp \<Rightarrow>
                    if ce_faults env ''search'' then (Inl (internal_error ''search messages''), s1)
                    else case collect_messages (ce_faults env) (cv_db s1) (search_hits fts (cv_db s1) q me grp) of
                      Inl _ \<Rightarrow> (Inl (internal_error ''search messages''), s1)
                    | Inr ms \<Rightarrow> (Inr ms, s1))))"

definition list_channels :: "chat_env \<Rightarrow> chat_srv \<Rightarrow> string \<Rightarrow> string list result \<times> chat_srv" where
  "list_channels env s tok =
     (case chat_auth env s tok of
        Inl e \<Rightarrow> (Inl e, s)
      | Inr me \<Rightarrow>
          (case ask_dir env s of
             (loaded, s1) \<Rightarrow>
               (case group_for loaded me of
                  Inl _ \<Rightarrow> (Inl (internal_error ''look up group''), s1)
                | Inr grp \<Rightarrow> (Inr (if grp \<noteq> [] then [grp] else []), s1))))"

definition list_chat_users :: "chat_env \<Rightarrow> chat_srv \<Rightarrow> string \<Rightarrow> (string \<times> bool) list result \<times> chat_srv" where
  "list_chat_users env s tok =
     (case chat_auth env s tok of
        Inl e \<Rightarrow> (Inl e, s)
      | Inr me \<Rightarrow>
          (case ask_dir env s of
             (loaded, s1) \<Rightarrow>
               (case list_users loaded of
                  Inl _ \<Rightarrow> (Inl (internal_error ''list users''), s1)
                | Inr users \<Rightarrow>
                    (Inr (map (\<lambda>u. (u, is_online (cv_hub s1) u)) (filter (\<lambda>u. u \<noteq> me) users)), s1))))"

section \<open>The socket\<close>

text \<open>\<open>data\<close> is the decoded notice, \<open>None\<close> when it is not the expected JSON.\<close>

definition relay_typing :: "string \<Rightarrow> typing_note \<Rightarrow> string list \<Rightarrow> chat_srv \<Rightarrow> chat_srv" where
  "relay_typing me n to s = s\<lparr>cv_hub := send_to (filter (\<lambda>u. u \<noteq> me) to) (Typing n) (cv_hub s)\<rparr>"

definition handle_typing :: "chat_env \<Rightarrow> chat_srv \<Rightarrow> string \<Rightarrow> (string \<times> typing_note) option \<Rightarrow> chat_srv" where
  "handle_typing env s me data =
     (case data of
        None \<Rightarrow> s
      | Some (kind, n0) \<Rightarrow>
          if kind \<noteq> ''typing'' \<or> target_count (ty_group n0) (ty_recipient n0) (ty_custom n0) \<noteq> 1 then s
          else case typing_allowed (cv_typing s) me (ce_now env) of
            (ok, ty) \<Rightarrow>
              (let s1 = s\<lparr>cv_typing := ty\<rparr>; n = n0\<lparr>ty_username := me\<rparr> in
               if \<not> ok then s1
               else if ty_group n \<noteq> [] then
                 (case require_channel_member env s1 me (ty_group n) of
                    (Inl _, s2) \<Rightarrow> s2
                  | (Inr _, s2) \<Rightarrow>
                      (case ask_dir env s2 of
                         (loaded, s3) \<Rightarrow>
                           (case members_of loaded (ty_group n) of
                              Inl _ \<Rightarrow> s3
                            | Inr members \<Rightarrow> relay_typing me n members s3)))
               else if ty_custom n \<noteq> 0 then
                 (case require_group_member env s1 (ty_custom n) me of
                    Inl _ \<Rightarrow> s1
                  | Inr _ \<Rightarrow>
                      if ce_faults env ''members'' then s1
                      else relay_typing me n (group_members (cv_db s1) (ty_custom n)) s1)
               else relay_typing me n [ty_recipient n] s1))"

text \<open>
  The upgrade: who the socket is served for, and the question \<open>Serve\<close> asks on every ping and before every
  write.
\<close>

definition ws_user :: "chat_env \<Rightarrow> chat_srv \<Rightarrow> string option \<Rightarrow> string result" where
  "ws_user env s ck =
     (case ck of None \<Rightarrow> Inl not_authenticated | Some tok \<Rightarrow> chat_auth env s tok)"

definition ws_still_valid :: "chat_env \<Rightarrow> chat_srv \<Rightarrow> string \<Rightarrow> bool" where
  "ws_still_valid env s tok \<longleftrightarrow> (case chat_auth env s tok of Inl _ \<Rightarrow> False | Inr _ \<Rightarrow> True)"

end
