(* ===== verification/ChatChanges.thy ===== *)
theory ChatChanges
  imports ChatGroups
begin

text \<open>
  What the chat handlers may do to the database, stated once: \<open>change me db db'\<close> lists the atomic changes
  an employee \<open>me\<close> can cause, with the condition under which each is allowed.  Every handler is shown to
  perform a sequence of such changes, whatever fails in between; invariants are then proved on the
  changes alone.
\<close>

section \<open>The changes\<close>

definition same_conversation :: "msg_row \<Rightarrow> msg_row \<Rightarrow> bool" where
  "same_conversation m q \<longleftrightarrow>
     (m_group m \<noteq> None \<and> m_group q = m_group m) \<or> (m_custom m \<noteq> None \<and> m_custom q = m_custom m) \<or>
     (m_to m \<noteq> None \<and> ((m_sender q = m_sender m \<and> m_to q = m_to m)
                        \<or> (m_to q = Some (m_sender m) \<and> Some (m_sender q) = m_to m)))"

definition one_target :: "msg_row \<Rightarrow> bool" where
  "one_target m \<longleftrightarrow> (if m_group m \<noteq> None then 1 else 0) + (if m_to m \<noteq> None then 1 else 0)
     + (if m_custom m \<noteq> None then 1 else 0) = (1::nat)"

definition row_allowed :: "string \<Rightarrow> chat_db \<Rightarrow> msg_row \<Rightarrow> bool" where
  "row_allowed me db m \<longleftrightarrow> m_id m = db_msg_next db \<and> m_sender m = me \<and> one_target m \<and> m_deleted m = None
     \<and> m_group m \<noteq> Some [] \<and> rune_count (m_content m) \<le> max_message_chars
     \<and> (\<forall>c. m_custom m = Some c \<longrightarrow> c \<in> g_id ` set (db_groups db) \<and> is_group_member db c me)
     \<and> (\<forall>r. m_reply m = Some r \<longrightarrow> (\<exists>q. find_msg db r = Some q \<and> same_conversation m q))"

inductive change :: "string \<Rightarrow> chat_db \<Rightarrow> chat_db \<Rightarrow> bool" for me where
  skip_id: "change me db (db\<lparr>db_msg_next := db_msg_next db + 1\<rparr>)"
| skip_gid: "change me db (db\<lparr>db_group_next := db_group_next db + 1\<rparr>)"
| post: "row_allowed me db m \<Longrightarrow>
    change me db (db\<lparr>db_msg_next := db_msg_next db + 1, db_msgs := db_msgs db @ [m]\<rparr>)"
| attach: "t_by t = me \<Longrightarrow> m \<in> set (db_msgs db) \<Longrightarrow> m_id m = t_message t \<Longrightarrow> m_sender m = me \<Longrightarrow>
    change me db (db\<lparr>db_atts := db_atts db @ [t], db_att_next := db_att_next db + 1\<rparr>)"
| edit: "find_msg db i = Some m \<Longrightarrow> m_sender m = me \<Longrightarrow> m_deleted m = None \<Longrightarrow>
    rune_count c \<le> max_message_chars \<Longrightarrow>
    change me db (update_msg i (\<lambda>r. r\<lparr>m_content := c, m_edited := Some now\<rparr>) db)"
| unattach: "change me db (db\<lparr>db_atts := filter (\<lambda>t. t_id t \<noteq> i) (db_atts db)\<rparr>)"
| tombstone: "find_msg db i = Some m \<Longrightarrow> m_sender m = me \<Longrightarrow> m_deleted m = None \<Longrightarrow>
    change me db (update_msg i (\<lambda>r. r\<lparr>m_content := [], m_deleted := Some now\<rparr>) db)"
| found: "me \<in> set ms \<Longrightarrow> distinct ms \<Longrightarrow>
    change me db (db\<lparr>db_group_next := db_group_next db + 1,
      db_groups := db_groups db @ [\<lparr>g_id = db_group_next db, g_name = n, g_creator = me\<rparr>],
      db_members := db_members db @ map (Pair (db_group_next db)) ms\<rparr>)"
| join: "is_group_member db gid me \<Longrightarrow> (gid, who) \<notin> set (db_members db) \<Longrightarrow>
    change me db (db\<lparr>db_members := db_members db @ [(gid, who)]\<rparr>)"
| expel: "is_group_member db gid me \<Longrightarrow> find_group db gid = Some g \<Longrightarrow>
    who = me \<or> g_creator g = me \<or> \<not> is_group_member db gid (g_creator g) \<Longrightarrow>
    change me db (db\<lparr>db_members := filter (\<lambda>p. p \<noteq> (gid, who)) (db_members db)\<rparr>)"
| drop: "\<not> (\<exists>u. is_group_member db gid u) \<Longrightarrow> change me db (drop_group gid db)"
| mark: "v = (case map_of (db_reads db) (me, key) of None \<Rightarrow> i | Some old \<Rightarrow> max old i) \<Longrightarrow>
    change me db (db\<lparr>db_reads := AList.update (me, key) v (db_reads db)\<rparr>)"

abbreviation changes :: "string \<Rightarrow> chat_db \<Rightarrow> chat_db \<Rightarrow> bool" where
  "changes me \<equiv> (change me)\<^sup>*\<^sup>*"

lemma change_one: "change me a b \<Longrightarrow> changes me a b"
  by auto

lemma change_two: "change me a b \<Longrightarrow> change me b c \<Longrightarrow> changes me a c"
  by (meson r_into_rtranclp rtranclp.rtrancl_into_rtrancl)

section \<open>What the shared parts leave alone\<close>

lemma ask_dir_keeps:
  "ask_dir env s = (r, s1) \<Longrightarrow> cv_db s1 = cv_db s \<and> cv_hub s1 = cv_hub s \<and> cv_emp s1 = cv_emp s"
  by (auto simp: ask_dir_def split: prod.splits)

lemma require_channel_member_keeps:
  "require_channel_member env s u g = (r, s1) \<Longrightarrow> cv_db s1 = cv_db s \<and> cv_hub s1 = cv_hub s \<and> cv_emp s1 = cv_emp s"
  by (auto simp: require_channel_member_def split: prod.splits sum.splits if_splits dest: ask_dir_keeps)

lemma require_recipient_keeps:
  "require_recipient_exists env s u = (r, s1) \<Longrightarrow> cv_db s1 = cv_db s \<and> cv_hub s1 = cv_hub s \<and> cv_emp s1 = cv_emp s"
  by (auto simp: require_recipient_exists_def split: prod.splits sum.splits if_splits dest: ask_dir_keeps)

lemma check_rate_keeps:
  "check_rate env s u = (r, s1) \<Longrightarrow> cv_db s1 = cv_db s \<and> cv_hub s1 = cv_hub s \<and> cv_emp s1 = cv_emp s"
  by (auto simp: check_rate_def split: prod.splits)

lemma check_target_keeps:
  "check_target env s me g t c = (r, s1) \<Longrightarrow> cv_db s1 = cv_db s \<and> cv_hub s1 = cv_hub s \<and> cv_emp s1 = cv_emp s"
  by (auto simp: check_target_def split: prod.splits sum.splits if_splits
      dest!: require_channel_member_keeps require_recipient_keeps)

lemma push_event_keeps:
  "push_event env s k m = (r, s1) \<Longrightarrow> cv_db s1 = cv_db s \<and> cv_emp s1 = cv_emp s"
  by (auto simp: push_event_def split: prod.splits sum.splits if_splits dest!: ask_dir_keeps)

lemmas keeps = ask_dir_keeps require_channel_member_keeps require_recipient_keeps check_rate_keeps
  check_target_keeps push_event_keeps

lemma check_target_ok:
  assumes "check_target env s me g t c = (Inr x, s1)"
  shows "target_count g t c = 1 \<and> (c \<noteq> 0 \<longrightarrow> is_group_member (cv_db s) c me)"
proof -
  have "c \<noteq> 0 \<longrightarrow> is_group_member (cv_db s) c me"
  proof
    assume "c \<noteq> 0"
    then obtain s' where "require_group_member env s' c me = Inr x" "cv_db s' = cv_db s"
      using assms by (auto simp: check_target_def split: prod.splits sum.splits if_splits
          dest!: require_channel_member_keeps require_recipient_keeps)
    then show "is_group_member (cv_db s) c me"
      by (auto simp: require_group_member_def split: if_splits)
  qed
  then show ?thesis using assms by (auto simp: check_target_def split: if_splits)
qed

lemma check_length_ok: "check_length c = Inr x \<Longrightarrow> rune_count c \<le> max_message_chars"
  by (auto simp: check_length_def split: if_splits)

section \<open>Every handler is a sequence of changes\<close>

lemma reply_ok_same_conversation:
  assumes "require_reply_in_thread f db r me g t c = Inr x"
    and "target_count g t c = 1"
    and "m_sender m = me" "m_group m = nonempty_opt g" "m_to m = nonempty_opt t"
      "m_custom m = (if c \<noteq> 0 then Some c else None)"
  shows "\<exists>q. find_msg db r = Some q \<and> same_conversation m q"
proof -
  obtain q where q: "find_msg db r = Some q"
    using assms(1) by (auto simp: require_reply_in_thread_def split: option.splits if_splits)
  consider "g \<noteq> []" "t = []" "c = 0" | "g = []" "t \<noteq> []" "c = 0" | "g = []" "t = []" "c \<noteq> 0"
    using assms(2) by (cases "g = []"; cases "t = []"; cases "c = 0") (auto simp: target_count_def)
  then have "same_conversation m q"
    by cases (use assms q in \<open>auto simp: require_reply_in_thread_def same_conversation_def nonempty_opt_def
        split: if_splits\<close>)
  then show ?thesis using q by blast
qed

lemma insert_message_changes:
  assumes "insert_message env db me g t c content r = (res, db')"
    and "rune_count content \<le> max_message_chars" "c \<noteq> 0 \<Longrightarrow> is_group_member db c me"
    and "r \<noteq> 0 \<Longrightarrow> require_reply_in_thread f db r me g t c = Inr x"
  shows "changes me db db'"
proof -
  let ?row = "\<lparr>m_id = db_msg_next db, m_sender = me, m_group = nonempty_opt g, m_to = nonempty_opt t,
            m_custom = (if c \<noteq> 0 then Some c else None), m_content = content,
            m_created = stamp_now env, m_edited = None, m_deleted = None,
            m_reply = (if r \<noteq> 0 then Some r else None)\<rparr>"
  have "row_allowed me db ?row"
    if "target_count g t c = 1" "c \<noteq> 0 \<longrightarrow> c \<in> g_id ` set (db_groups db)"
  proof -
    have "one_target ?row"
      using that(1) by (cases "g = []"; cases "t = []"; cases "c = 0")
        (auto simp: one_target_def target_count_def nonempty_opt_def)
    moreover have "m_group ?row \<noteq> Some []" by (simp add: nonempty_opt_def)
    moreover have "r \<noteq> 0 \<Longrightarrow> \<exists>q. find_msg db r = Some q \<and> same_conversation ?row q"
      using reply_ok_same_conversation [OF assms(4) that(1)] by simp
    ultimately show ?thesis using assms(2,3) that(2) by (auto simp: row_allowed_def split: if_splits)
  qed
  then have "target_count g t c = 1 \<Longrightarrow> c \<noteq> 0 \<longrightarrow> c \<in> g_id ` set (db_groups db) \<Longrightarrow>
      change me db (db\<lparr>db_msg_next := db_msg_next db + 1, db_msgs := db_msgs db @ [?row]\<rparr>)"
    by (rule change.post)
  moreover have "changes me db (db\<lparr>db_msg_next := db_msg_next db + 1\<rparr>)"
    by (rule change_one) (rule change.skip_id)
  ultimately show ?thesis
    using assms(1) by (auto simp: insert_message_def Let_def split: if_splits)
qed

lemma insert_message_row:
  assumes "insert_message env db me g t c content r = (Inr m, db')"
  shows "\<exists>row \<in> set (db_msgs db'). m_id row = mo_id m \<and> m_sender row = me \<and> db_msgs db' = db_msgs db @ [row]"
  using assms by (auto simp: insert_message_def Let_def row_out_def split: if_splits)

lemma save_and_push_changes:
  assumes "save_and_push env s me g t c content r = (res, s')"
    and "rune_count content \<le> max_message_chars" "c \<noteq> 0 \<Longrightarrow> is_group_member (cv_db s) c me"
    and "r \<noteq> 0 \<Longrightarrow> require_reply_in_thread f (cv_db s) r me g t c = Inr x"
  shows "changes me (cv_db s) (cv_db s')"
proof -
  obtain res' db where ins: "insert_message env (cv_db s) me g t c content r = (res', db)" by fastforce
  have "cv_db s' = db"
    using assms(1) ins by (auto simp: save_and_push_def split: sum.splits prod.splits dest!: keeps)
  then show ?thesis using insert_message_changes [OF ins assms(2-4)] by simp
qed

lemma post_message_changes:
  assumes "post_message env s me b content = (res, s')" "rune_count content \<le> max_message_chars"
  shows "changes me (cv_db s) (cv_db s')"
proof -
  obtain y s2 where tgt: "check_target env s me (sb_group b) (sb_to b) (sb_custom b) = (y, s2)" by fastforce
  have s2: "cv_db s2 = cv_db s" using keeps(5) [OF tgt] by simp
  let ?rep = "if sb_reply b \<noteq> 0 then require_reply_in_thread (ce_faults env) (cv_db s2) (sb_reply b) me
      (sb_group b) (sb_to b) (sb_custom b) else Inr ()"
  show ?thesis
  proof (cases "\<exists>x z. y = Inr x \<and> ?rep = Inr z")
    case True
    then obtain x z where ok: "y = Inr x" "?rep = Inr z" by blast
    then have run: "save_and_push env s2 me (sb_group b) (sb_to b) (sb_custom b) content (sb_reply b) = (res, s')"
      using assms(1) tgt by (simp add: post_message_def)
    have "sb_reply b \<noteq> 0 \<Longrightarrow> require_reply_in_thread (ce_faults env) (cv_db s2) (sb_reply b) me
        (sb_group b) (sb_to b) (sb_custom b) = Inr z"
      using ok(2) by simp
    from save_and_push_changes [OF run assms(2) _ this] show ?thesis
      using check_target_ok [of env s me "sb_group b" "sb_to b" "sb_custom b" x s2] tgt ok(1) s2 by auto
  next
    case False
    then have "cv_db s' = cv_db s2"
      using assms(1) tgt by (auto simp: post_message_def split: sum.splits if_splits)
    then show ?thesis using s2 by simp
  qed
qed

lemma send_message_changes:
  assumes "send_message env s tok b = (res, s')"
  shows "cv_db s' = cv_db s \<or> (\<exists>me. chat_auth env s tok = Inr me \<and> changes me (cv_db s) (cv_db s'))"
proof (cases "chat_auth env s tok")
  case (Inl e)
  then show ?thesis using assms by (auto simp: send_message_def)
next
  case (Inr me)
  obtain r s1 where rate: "check_rate env s me = (r, s1)" by fastforce
  have s1: "cv_db s1 = cv_db s" using keeps(4) [OF rate] by simp
  show ?thesis
    using assms Inr rate s1 post_message_changes [of env s1 me b "trim_space (sb_content b)" res s']
    by (auto simp: send_message_def Let_def split: if_splits sum.splits dest!: check_length_ok)
qed

lemma load_for_mutation_ok:
  assumes "load_for_mutation f db i me = Inr m"
  shows "\<exists>row. find_msg db i = Some row \<and> m_sender row = me \<and> m = decorate db (row_out row) \<and> mo_id m = i
    \<and> (mo_deleted m = [] \<longrightarrow> m_deleted row = None)"
proof -
  obtain row where row: "find_msg db i = Some row" "m_sender row = me" "m = decorate db (row_out row)"
    using assms by (auto simp: load_for_mutation_def split: option.splits if_splits)
  moreover have "m_id row = i" using row(1) by (auto simp: find_msg_def dest: find_Some_set)
  moreover have "mo_deleted m = [] \<longrightarrow> m_deleted row = None"
    using row(3) by (auto simp: decorate_def row_out_def rfc3339_nonempty split: option.splits)
  ultimately show ?thesis by (auto simp: decorate_def row_out_def)
qed

lemma save_edit_db:
  assumes "save_edit env s m c = (res, s')"
  shows "cv_db s' = cv_db s \<or>
    cv_db s' = update_msg (mo_id m) (\<lambda>r. r\<lparr>m_content := c, m_edited := Some (stamp_now env)\<rparr>) (cv_db s)"
  using assms by (auto simp: save_edit_def Let_def split: if_splits sum.splits prod.splits dest!: push_event_keeps)

lemma bury_message_db:
  assumes "bury_message env s m = (res, s')"
  shows "cv_db s' = cv_db s \<or>
    cv_db s' = update_msg (mo_id m) (\<lambda>r. r\<lparr>m_content := [], m_deleted := Some (stamp_now env)\<rparr>) (cv_db s)"
  using assms by (auto simp: bury_message_def Let_def split: if_splits sum.splits prod.splits dest!: push_event_keeps)

lemma edit_message_changes:
  assumes "edit_message env s tok i c0 = (res, s')"
  shows "cv_db s' = cv_db s \<or> (\<exists>me. chat_auth env s tok = Inr me \<and> changes me (cv_db s) (cv_db s'))"
proof (cases "chat_auth env s tok")
  case (Inl e)
  then show ?thesis using assms by (auto simp: edit_message_def)
next
  case (Inr me)
  show ?thesis
  proof (cases "cv_db s' = cv_db s")
    case False
    then obtain z m where len: "check_length (trim_space c0) = Inr z"
      and load: "load_for_mutation (ce_faults env) (cv_db s) i me = Inr m" and live: "mo_deleted m = []"
      and run: "save_edit env s m (trim_space c0) = (res, s')"
      using assms Inr by (auto simp: edit_message_def Let_def split: if_splits sum.splits)
    obtain row where row: "find_msg (cv_db s) i = Some row" "m_sender row = me" "m_deleted row = None" "mo_id m = i"
      using load_for_mutation_ok [OF load] live by auto
    have "change me (cv_db s) (cv_db s')"
      using save_edit_db [OF run] False change.edit [OF row(1-3) check_length_ok [OF len]] row(4) by auto
    then show ?thesis using Inr by auto
  qed simp
qed

lemma find_msg_atts: "find_msg (db\<lparr>db_atts := x\<rparr>) i = find_msg db i"
  by (simp add: find_msg_def)

lemma delete_attachment_changes:
  assumes "delete_attachment s3 f db os i = (r, db', os')"
  shows "db' = db \<or> db' = db\<lparr>db_atts := filter (\<lambda>t. t_id t \<noteq> i) (db_atts db)\<rparr>"
  using assms by (auto simp: delete_attachment_def Let_def split: if_splits option.splits sum.splits prod.splits)

lemma delete_message_changes:
  assumes "delete_message s3 env s os tok i = (res, s', os'')"
  shows "cv_db s' = cv_db s \<or> (\<exists>me. chat_auth env s tok = Inr me \<and> changes me (cv_db s) (cv_db s'))"
proof (cases "chat_auth env s tok")
  case (Inl e)
  then show ?thesis using assms by (auto simp: delete_message_def)
next
  case (Inr me)
  show ?thesis
  proof (cases "cv_db s' = cv_db s")
    case False
    then obtain m where load: "load_for_mutation (ce_faults env) (cv_db s) i me = Inr m" and live: "mo_deleted m = []"
      using assms Inr by (auto simp: delete_message_def split: if_splits sum.splits)
    obtain r1 db os1 where att: "(case mo_attachment m of None \<Rightarrow> (Inr (), cv_db s, os)
        | Some a \<Rightarrow> delete_attachment s3 (ce_faults env) (cv_db s) os (ha_id a)) = (r1, db, os1)"
      by (metis prod_cases3)
    have db: "db = cv_db s \<or> (\<exists>k. db = (cv_db s)\<lparr>db_atts := filter (\<lambda>t. t_id t \<noteq> k) (db_atts (cv_db s))\<rparr>)"
      using att by (auto split: option.splits dest!: delete_attachment_changes)
    then have step: "changes me (cv_db s) db" by (auto intro: change.unattach)
    obtain row where row: "find_msg (cv_db s) i = Some row" "m_sender row = me" "m_deleted row = None" "mo_id m = i"
      using load_for_mutation_ok [OF load] live by auto
    have found: "find_msg db i = Some row" using db row(1) by (auto simp: find_msg_atts)
    have "cv_db s' = db \<or> cv_db s' = update_msg i (\<lambda>r. r\<lparr>m_content := [], m_deleted := Some (stamp_now env)\<rparr>) db"
      using assms Inr load live att row(4)
      by (auto simp: delete_message_def split: sum.splits prod.splits dest!: bury_message_db)
    then have "changes me db (cv_db s')"
      using change.tombstone [OF found row(2,3)] by auto
    then show ?thesis using step Inr by (meson rtranclp_trans)
  qed simp
qed

lemma save_upload_changes:
  assumes "save_upload sniff ops env s os me d = (res, s', os')"
    and "rune_count (uf_caption d) \<le> max_message_chars" "uf_custom d \<noteq> 0 \<Longrightarrow> is_group_member (cv_db s) (uf_custom d) me"
  shows "changes me (cv_db s) (cv_db s')"
proof -
  obtain r db where ins: "insert_message env (cv_db s) me (uf_group d) (uf_to d) (uf_custom d) (uf_caption d) 0 = (r, db)"
    by fastforce
  have step: "changes me (cv_db s) db"
    using insert_message_changes [OF ins assms(2,3), of undefined undefined] by simp
  show ?thesis
  proof (cases "cv_db s' = db")
    case False
    then obtain m where m: "r = Inr m"
      using assms(1) ins by (auto simp: save_upload_def split: sum.splits)
    obtain row where row: "row \<in> set (db_msgs db)" "m_id row = mo_id m" "m_sender row = me"
      using insert_message_row ins m by metis
    let ?t = "\<lparr>t_id = db_att_next db, t_message = mo_id m, t_filename = uf_filename d,
        t_key = attachment_key (mo_id m) (uf_filename d), t_size = length (uf_bytes d), t_by = me\<rparr>"
    have "cv_db s' = db\<lparr>db_atts := db_atts db @ [?t], db_att_next := db_att_next db + 1\<rparr>"
      using assms(1) ins m False
      by (auto simp: save_upload_def Let_def split: sum.splits prod.splits if_splits dest!: push_event_keeps)
    then have "change me db (cv_db s')" using change.attach [of ?t me row db] row by simp
    then show ?thesis using step by (meson rtranclp.rtrancl_into_rtrancl)
  qed (use step in simp)
qed

lemma upload_attachment_changes:
  assumes "upload_attachment sniff s3 env s os tok d = (res, s', os')"
  shows "cv_db s' = cv_db s \<or> (\<exists>me. chat_auth env s tok = Inr me \<and> changes me (cv_db s) (cv_db s'))"
proof (cases "chat_auth env s tok")
  case (Inl e)
  then show ?thesis using assms by (auto simp: upload_attachment_def)
next
  case (Inr me)
  obtain r s1 where rate: "check_rate env s me = (r, s1)" by fastforce
  obtain y s2 where tgt: "check_target env s1 me (uf_group d) (uf_to d) (uf_custom d) = (y, s2)" by fastforce
  have s2: "cv_db s2 = cv_db s" "cv_db s1 = cv_db s" using keeps(4) [OF rate] keeps(5) [OF tgt] by auto
  show ?thesis
  proof (cases "cv_db s' = cv_db s")
    case False
    then obtain ops z x where ok: "check_length (uf_caption d) = Inr z" "y = Inr x"
      and run: "save_upload sniff ops env s2 os me d = (res, s', os')"
      using assms Inr rate tgt s2
      by (auto simp: upload_attachment_def split: if_splits sum.splits option.splits)
    have "uf_custom d \<noteq> 0 \<Longrightarrow> is_group_member (cv_db s2) (uf_custom d) me"
      using check_target_ok tgt ok(2) s2 by metis
    then show ?thesis
      using save_upload_changes [OF run check_length_ok [OF ok(1)]] s2 Inr by auto
  qed simp
qed

lemma create_group_changes:
  assumes "create_group env s tok n ms = (res, s')"
  shows "cv_db s' = cv_db s \<or> (\<exists>me. chat_auth env s tok = Inr me \<and> changes me (cv_db s) (cv_db s'))"
proof (cases "chat_auth env s tok")
  case (Inl e)
  then show ?thesis using assms by (auto simp: create_group_def)
next
  case (Inr me)
  obtain l s1 where dir: "ask_dir env s = (l, s1)" by fastforce
  have s1: "cv_db s1 = cv_db s" using ask_dir_keeps [OF dir] by simp
  have mem: "me \<in> set (new_members me ms)" "distinct (new_members me ms)" by (simp_all add: new_members_def)
  show ?thesis
  proof (cases "cv_db s' = cv_db s")
    case False
    then have "cv_db s' = (cv_db s)\<lparr>db_group_next := db_group_next (cv_db s) + 1\<rparr> \<or>
      cv_db s' = (cv_db s)\<lparr>db_group_next := db_group_next (cv_db s) + 1,
        db_groups := db_groups (cv_db s) @ [\<lparr>g_id = db_group_next (cv_db s), g_name = trim_space n, g_creator = me\<rparr>],
        db_members := db_members (cv_db s) @ map (Pair (db_group_next (cv_db s))) (new_members me ms)\<rparr>"
      using assms Inr dir s1
      by (auto simp: create_group_def Let_def split: if_splits sum.splits option.splits)
    then have "change me (cv_db s) (cv_db s')"
      using change.skip_gid [of me "cv_db s"] change.found [OF mem, of "cv_db s" "trim_space n"] by auto
    then show ?thesis using Inr by auto
  qed simp
qed

lemma require_group_member_ok: "require_group_member env s gid me = Inr x \<Longrightarrow> is_group_member (cv_db s) gid me"
  by (auto simp: require_group_member_def split: if_splits)

lemma add_member_changes:
  assumes "add_member env s tok gid u = (res, s')"
  shows "cv_db s' = cv_db s \<or> (\<exists>me. chat_auth env s tok = Inr me \<and> changes me (cv_db s) (cv_db s'))"
proof (cases "chat_auth env s tok")
  case (Inl e)
  then show ?thesis using assms by (auto simp: add_member_def)
next
  case (Inr me)
  obtain l s1 where dir: "ask_dir env s = (l, s1)" by fastforce
  have s1: "cv_db s1 = cv_db s" using ask_dir_keeps [OF dir] by simp
  show ?thesis
  proof (cases "cv_db s' = cv_db s")
    case False
    then have ok: "is_group_member (cv_db s) gid me" "(gid, trim_space u) \<notin> set (db_members (cv_db s))"
      and db: "cv_db s' = (cv_db s)\<lparr>db_members := db_members (cv_db s) @ [(gid, trim_space u)]\<rparr>"
      using assms Inr dir s1
      by (auto simp: add_member_def Let_def split: if_splits sum.splits option.splits
          dest!: require_group_member_ok require_group_member_ok [OF sym])
    show ?thesis using change.join [OF ok] Inr by (auto simp: db)
  qed simp
qed

lemma set_insert_sorted: "set (insert_sorted x xs) = insert x (set xs)"
  by (induction xs) auto

lemma set_group_members: "set (group_members db gid) = {u. is_group_member db gid u}"
proof -
  have "set (foldr insert_sorted xs []) = set xs" for xs
    by (induction xs) (auto simp: set_insert_sorted)
  then show ?thesis by (force simp: group_members_def is_group_member_def)
qed

lemma group_members_empty: "group_members db gid = [] \<longleftrightarrow> \<not> (\<exists>u. is_group_member db gid u)"
  using set_group_members [of db gid] by auto

lemma remove_member_changes:
  assumes "remove_member env s tok gid who = (res, s')"
  shows "cv_db s' = cv_db s \<or> (\<exists>me. chat_auth env s tok = Inr me \<and> changes me (cv_db s) (cv_db s'))"
proof (cases "chat_auth env s tok")
  case (Inl e)
  then show ?thesis using assms by (auto simp: remove_member_def)
next
  case (Inr me)
  let ?db1 = "(cv_db s)\<lparr>db_members := filter (\<lambda>p. p \<noteq> (gid, who)) (db_members (cv_db s))\<rparr>"
  show ?thesis
  proof (cases "cv_db s' = cv_db s")
    case False
    then obtain x g where mem: "require_group_member env s gid me = Inr x" and g: "find_group (cv_db s) gid = Some g"
      and may: "who = me \<or> g_creator g = me \<or> \<not> is_group_member (cv_db s) gid (g_creator g)"
      and db: "cv_db s' = ?db1 \<or> (group_members ?db1 gid = [] \<and> cv_db s' = drop_group gid ?db1)"
      using assms Inr
      by (auto simp: remove_member_def Let_def split: if_splits sum.splits option.splits)
    have expel: "change me (cv_db s) ?db1"
      by (rule change.expel [OF require_group_member_ok [OF mem] g may])
    have "changes me (cv_db s) (cv_db s')" using db
    proof
      assume "group_members ?db1 gid = [] \<and> cv_db s' = drop_group gid ?db1"
      then show ?thesis
        using change_two [OF expel change.drop [of ?db1 gid me]] by (simp add: group_members_empty)
    qed (use expel in auto)
    then show ?thesis using Inr by auto
  qed simp
qed

lemma mark_read_changes:
  assumes "mark_read env s tok key i = (res, s')"
  shows "cv_db s' = cv_db s \<or> (\<exists>me. chat_auth env s tok = Inr me \<and> changes me (cv_db s) (cv_db s'))"
proof (cases "cv_db s' = cv_db s")
  case False
  then obtain me where me: "chat_auth env s tok = Inr me"
    using assms by (auto simp: mark_read_def split: sum.splits)
  then have "cv_db s' = (cv_db s)\<lparr>db_reads := AList.update (me, key)
      (case map_of (db_reads (cv_db s)) (me, key) of None \<Rightarrow> i | Some old \<Rightarrow> max old i) (db_reads (cv_db s))\<rparr>"
    using assms False by (auto simp: mark_read_def Let_def split: if_splits)
  then have "change me (cv_db s) (cv_db s')" by (metis change.mark)
  then show ?thesis using me by auto
qed simp

end
