(* ===== verification/ChatProps.thy ===== *)
theory ChatProps
  imports ChatChanges
begin

text \<open>
  What the chat module guarantees: the invariant of its tables, who can change which message, who can
  read, find, download and be sent what, how history pages fit together, and the places where the code
  does not do what its comments say.
\<close>

section \<open>The invariant of the tables\<close>

definition msg_ok :: "chat_db \<Rightarrow> msg_row \<Rightarrow> bool" where
  "msg_ok db m \<longleftrightarrow> one_target m \<and> m_group m \<noteq> Some [] \<and> rune_count (m_content m) \<le> max_message_chars
     \<and> (m_deleted m \<noteq> None \<longrightarrow> m_content m = [])
     \<and> (\<forall>r. m_reply m = Some r \<longrightarrow> (\<exists>q \<in> set (db_msgs db). m_id q = r \<and> same_conversation m q))"

definition chat_inv :: "chat_db \<Rightarrow> bool" where
  "chat_inv db \<longleftrightarrow> sorted_wrt (<) (map m_id (db_msgs db)) \<and> (\<forall>m \<in> set (db_msgs db). m_id m < db_msg_next db)
     \<and> (\<forall>m \<in> set (db_msgs db). msg_ok db m)"

lemma chat_inv_distinct: "chat_inv db \<Longrightarrow> distinct (map m_id (db_msgs db))"
  by (auto simp: chat_inv_def strict_sorted_iff)

lemma find_msg_iff:
  assumes "chat_inv db"
  shows "find_msg db i = Some m \<longleftrightarrow> m \<in> set (db_msgs db) \<and> m_id m = i"
  using find_unique [OF chat_inv_distinct [OF assms]] by (auto simp: find_msg_def dest: find_Some_set)

lemma rune_count_Nil [simp]: "rune_count [] = 0"
  by (simp add: rune_count_def)

lemma same_conversation_cong:
  "m_group m' = m_group m \<Longrightarrow> m_to m' = m_to m \<Longrightarrow> m_custom m' = m_custom m \<Longrightarrow> m_sender m' = m_sender m \<Longrightarrow>
   m_group q' = m_group q \<Longrightarrow> m_to q' = m_to q \<Longrightarrow> m_custom q' = m_custom q \<Longrightarrow> m_sender q' = m_sender q \<Longrightarrow>
   same_conversation m' q' = same_conversation m q"
  by (simp add: same_conversation_def)

lemma msg_ok_more:
  "msg_ok db m \<Longrightarrow> set (db_msgs db) \<subseteq> set (db_msgs db') \<Longrightarrow> msg_ok db' m"
  by (fastforce simp: msg_ok_def)

lemma chat_inv_cong: "db_msgs db' = db_msgs db \<Longrightarrow> db_msg_next db' = db_msg_next db \<Longrightarrow> chat_inv db' = chat_inv db"
  by (simp add: chat_inv_def msg_ok_def)

lemma chat_inv_post:
  assumes inv: "chat_inv db" and row: "row_allowed me db m"
  shows "chat_inv (db\<lparr>db_msg_next := db_msg_next db + 1, db_msgs := db_msgs db @ [m]\<rparr>)"
    (is "chat_inv ?db'")
proof -
  have new: "m_id m = db_msg_next db" using row by (simp add: row_allowed_def)
  have "msg_ok ?db' m"
    using row inv by (fastforce simp: row_allowed_def msg_ok_def find_msg_iff)
  moreover have "\<forall>r \<in> set (db_msgs db). msg_ok ?db' r"
    using inv by (auto simp: chat_inv_def intro: msg_ok_more)
  ultimately show ?thesis
    using inv new by (auto simp: chat_inv_def sorted_wrt_append)
qed

text \<open>Dropping rows and changing others, addresses kept, keeps the invariant.\<close>

lemma chat_inv_remap:
  assumes inv: "chat_inv db"
    and msgs: "db_msgs db' = map h (filter P (db_msgs db))" "db_msg_next db' = db_msg_next db"
    and addr: "\<And>r. m_id (h r) = m_id r" "\<And>r. m_group (h r) = m_group r" "\<And>r. m_to (h r) = m_to r"
      "\<And>r. m_custom (h r) = m_custom r" "\<And>r. m_sender (h r) = m_sender r"
    and reply: "\<And>r k. r \<in> set (db_msgs db) \<Longrightarrow> P r \<Longrightarrow> m_reply (h r) = Some k \<Longrightarrow>
      m_reply r = Some k \<and> (\<forall>q \<in> set (db_msgs db). m_id q = k \<longrightarrow> P q)"
    and ok: "\<And>r. r \<in> set (db_msgs db) \<Longrightarrow> P r \<Longrightarrow>
      rune_count (m_content (h r)) \<le> max_message_chars \<and> (m_deleted (h r) \<noteq> None \<longrightarrow> m_content (h r) = [])"
  shows "chat_inv db'"
proof -
  have sorted: "sorted_wrt (<) (map m_id (db_msgs db'))"
    using inv unfolding msgs map_key_map [of m_id h, OF addr(1)]
    by (simp add: chat_inv_def sorted_wrt_map_filter)
  have good: "msg_ok db' (h r)" if r: "r \<in> set (db_msgs db)" "P r" for r
  proof -
    have old: "msg_ok db r" using inv r by (simp add: chat_inv_def)
    have "\<exists>q \<in> set (db_msgs db'). m_id q = k \<and> same_conversation (h r) q" if k: "m_reply (h r) = Some k" for k
    proof -
      obtain q where q: "q \<in> set (db_msgs db)" "m_id q = k" "same_conversation r q"
        using old reply [OF r k] by (auto simp: msg_ok_def)
      have "same_conversation (h r) (h q)"
        using q(3) by (subst same_conversation_cong [of _ r _ q]) (rule addr)+
      moreover have "h q \<in> set (db_msgs db')" using q reply [OF r k] by (auto simp: msgs)
      ultimately show ?thesis using q(2) addr(1) by blast
    qed
    then show ?thesis using old ok [OF r] addr by (auto simp: msg_ok_def one_target_def)
  qed
  then show ?thesis using inv sorted addr(1) by (auto simp: chat_inv_def msgs)
qed

lemma chat_inv_update:
  assumes inv: "chat_inv db"
    and keep: "\<And>r. m_id (g r) = m_id r \<and> m_group (g r) = m_group r \<and> m_to (g r) = m_to r \<and>
      m_custom (g r) = m_custom r \<and> m_sender (g r) = m_sender r \<and> m_reply (g r) = m_reply r"
    and ok: "\<And>r. r \<in> set (db_msgs db) \<Longrightarrow> m_id r = i \<Longrightarrow>
      rune_count (m_content (g r)) \<le> max_message_chars \<and> (m_deleted (g r) \<noteq> None \<longrightarrow> m_content (g r) = [])"
  shows "chat_inv (update_msg i g db)"
proof (rule chat_inv_remap [OF inv, where h = "\<lambda>m. if m_id m = i then g m else m" and P = "\<lambda>_. True"])
  fix r k assume "m_reply (if m_id r = i then g r else r) = Some k"
  then show "m_reply r = Some k \<and> (\<forall>q \<in> set (db_msgs db). m_id q = k \<longrightarrow> True)"
    using keep by (auto split: if_splits)
next
  fix r assume "r \<in> set (db_msgs db)"
  then show "rune_count (m_content (if m_id r = i then g r else r)) \<le> max_message_chars
      \<and> (m_deleted (if m_id r = i then g r else r) \<noteq> None \<longrightarrow> m_content (if m_id r = i then g r else r) = [])"
    using ok [of r] inv by (cases "m_id r = i") (simp_all add: chat_inv_def msg_ok_def)
qed (use keep in \<open>simp_all add: update_msg_def\<close>)

lemma chat_inv_drop:
  assumes inv: "chat_inv db"
  shows "chat_inv (drop_group gid db)"
proof -
  define gone where "gone = m_id ` set (filter (\<lambda>m. m_custom m = Some gid) (db_msgs db))"
  show ?thesis
  proof (rule chat_inv_remap [OF inv, where P = "\<lambda>m. m_custom m \<noteq> Some gid"
        and h = "\<lambda>m. if \<exists>r. m_reply m = Some r \<and> r \<in> gone then m\<lparr>m_reply := None\<rparr> else m"])
    show "db_msgs (drop_group gid db) = map (\<lambda>m. if \<exists>r. m_reply m = Some r \<and> r \<in> gone then m\<lparr>m_reply := None\<rparr> else m)
        (filter (\<lambda>m. m_custom m \<noteq> Some gid) (db_msgs db))"
      by (simp add: drop_group_def gone_def Let_def)
    show "db_msg_next (drop_group gid db) = db_msg_next db" by (simp add: drop_group_def Let_def)
  next
    fix r k assume "m_reply (if \<exists>r'. m_reply r = Some r' \<and> r' \<in> gone then r\<lparr>m_reply := None\<rparr> else r) = Some k"
    then show "m_reply r = Some k \<and> (\<forall>q \<in> set (db_msgs db). m_id q = k \<longrightarrow> m_custom q \<noteq> Some gid)"
      by (auto simp: gone_def split: if_splits)
  next
    fix r assume "r \<in> set (db_msgs db)"
    then have "msg_ok db r" using inv by (simp add: chat_inv_def)
    then show "rune_count (m_content (if \<exists>r'. m_reply r = Some r' \<and> r' \<in> gone then r\<lparr>m_reply := None\<rparr> else r))
        \<le> max_message_chars
      \<and> (m_deleted (if \<exists>r'. m_reply r = Some r' \<and> r' \<in> gone then r\<lparr>m_reply := None\<rparr> else r) \<noteq> None
        \<longrightarrow> m_content (if \<exists>r'. m_reply r = Some r' \<and> r' \<in> gone then r\<lparr>m_reply := None\<rparr> else r) = [])"
      by (simp add: msg_ok_def)
  qed simp_all
qed

lemma change_inv [state_inv]: "change me db db' \<Longrightarrow> chat_inv db \<Longrightarrow> chat_inv db'"
proof (induction rule: change.induct)
  case (post db m)
  then show ?case by (rule chat_inv_post [rotated])
next
  case (edit db i m c now)
  have "r = m" if "r \<in> set (db_msgs db)" "m_id r = i" for r
    using distinct_key_eq [OF chat_inv_distinct [OF edit(5)]] that edit(1) find_msg_iff [OF edit(5)] by blast
  then show ?case using edit by (intro chat_inv_update) auto
next
  case (tombstone db i m now)
  then show ?case by (intro chat_inv_update) auto
next
  case (drop db gid)
  then show ?case by (intro chat_inv_drop)
next
  case (skip_id db)
  then show ?case by (force simp: chat_inv_def msg_ok_def)
qed (simp_all add: chat_inv_def msg_ok_def)

lemma changes_inv: "changes me db db' \<Longrightarrow> chat_inv db \<Longrightarrow> chat_inv db'"
  by (induction rule: rtranclp_induct) (auto intro: change_inv)

section \<open>Requests\<close>

text \<open>Every request that may write, with everything it depends on; the object store is an argument.\<close>

datatype 'o chat_request =
    R_send chat_env string send_body
  | R_upload "string \<Rightarrow> string" "string + 'o object_store option" chat_env string upload_form
  | R_edit chat_env string int string
  | R_delete "string + 'o object_store option" chat_env string int
  | R_create chat_env string string "string list"
  | R_add chat_env string int string
  | R_remove chat_env string int string
  | R_mark chat_env string string int

fun chat_step :: "'o chat_request \<Rightarrow> chat_srv \<times> 'o \<Rightarrow> chat_srv \<times> 'o" where
  "chat_step (R_send env tok b) (s, os) = (snd (send_message env s tok b), os)"
| "chat_step (R_upload sniff s3 env tok d) (s, os) = snd (upload_attachment sniff s3 env s os tok d)"
| "chat_step (R_edit env tok i c) (s, os) = (snd (edit_message env s tok i c), os)"
| "chat_step (R_delete s3 env tok i) (s, os) = snd (delete_message s3 env s os tok i)"
| "chat_step (R_create env tok n ms) (s, os) = (snd (create_group env s tok n ms), os)"
| "chat_step (R_add env tok gid u) (s, os) = (snd (add_member env s tok gid u), os)"
| "chat_step (R_remove env tok gid u) (s, os) = (snd (remove_member env s tok gid u), os)"
| "chat_step (R_mark env tok k i) (s, os) = (snd (mark_read env s tok k i), os)"

fun actor :: "'o chat_request \<Rightarrow> chat_srv \<Rightarrow> string result" where
  "actor (R_send env tok b) s = chat_auth env s tok"
| "actor (R_upload sniff s3 env tok d) s = chat_auth env s tok"
| "actor (R_edit env tok i c) s = chat_auth env s tok"
| "actor (R_delete s3 env tok i) s = chat_auth env s tok"
| "actor (R_create env tok n ms) s = chat_auth env s tok"
| "actor (R_add env tok gid u) s = chat_auth env s tok"
| "actor (R_remove env tok gid u) s = chat_auth env s tok"
| "actor (R_mark env tok k i) s = chat_auth env s tok"

lemmas handler_changes = send_message_changes [OF surjective_pairing] edit_message_changes [OF surjective_pairing]
  create_group_changes [OF surjective_pairing] add_member_changes [OF surjective_pairing]
  remove_member_changes [OF surjective_pairing] mark_read_changes [OF surjective_pairing]

lemma chat_step_changes:
  "cv_db (fst (chat_step r (s, os))) = cv_db s \<or>
   (\<exists>me. actor r s = Inr me \<and> changes me (cv_db s) (cv_db (fst (chat_step r (s, os)))))"
proof (cases r)
  case (R_upload sniff s3 env tok d)
  then show ?thesis
    using upload_attachment_changes [of sniff s3 env s os tok d] by (cases "upload_attachment sniff s3 env s os tok d") auto
next
  case (R_delete s3 env tok i)
  then show ?thesis
    using delete_message_changes [of s3 env s os tok i] by (cases "delete_message s3 env s os tok i") auto
qed (hypsubst, simp only: chat_step.simps actor.simps fst_conv, rule handler_changes)+

section \<open>Who may change which message\<close>

definition preserved :: "string \<Rightarrow> msg_row \<Rightarrow> msg_row \<Rightarrow> bool" where
  "preserved me m m' \<longleftrightarrow> m_id m' = m_id m \<and> m_sender m' = m_sender m \<and> m_group m' = m_group m \<and> m_to m' = m_to m
     \<and> m_custom m' = m_custom m \<and> m_created m' = m_created m
     \<and> (m_sender m \<noteq> me \<or> m_deleted m \<noteq> None \<longrightarrow>
          m_content m' = m_content m \<and> m_edited m' = m_edited m \<and> m_deleted m' = m_deleted m)"

definition evolves :: "string \<Rightarrow> chat_db \<Rightarrow> chat_db \<Rightarrow> bool" where
  "evolves me db db' \<longleftrightarrow> db_msg_next db \<le> db_msg_next db' \<and>
     (\<forall>m' \<in> set (db_msgs db'). m_id m' < db_msg_next db \<longrightarrow> (\<exists>m \<in> set (db_msgs db). preserved me m m'))"

lemma preserved_refl [simp]: "preserved me m m"
  by (simp add: preserved_def)

lemma preserved_trans: "preserved me a b \<Longrightarrow> preserved me b c \<Longrightarrow> preserved me a c"
  by (auto simp: preserved_def)

lemma evolves_refl [simp]: "evolves me db db"
  by (auto simp: evolves_def intro: preserved_refl)

lemma evolves_trans:
  assumes "evolves me a b" "evolves me b c"
  shows "evolves me a c"
  unfolding evolves_def
proof (intro conjI ballI impI)
  show "db_msg_next a \<le> db_msg_next c" using assms by (simp add: evolves_def)
  fix m'' assume m'': "m'' \<in> set (db_msgs c)" "m_id m'' < db_msg_next a"
  then obtain m' where m': "m' \<in> set (db_msgs b)" "preserved me m' m''"
    using assms by (fastforce simp: evolves_def)
  then have "m_id m' < db_msg_next a" using m''(2) by (simp add: preserved_def)
  then obtain m where "m \<in> set (db_msgs a)" "preserved me m m'" using assms(1) m'(1) by (auto simp: evolves_def)
  then show "\<exists>m \<in> set (db_msgs a). preserved me m m''" using m'(2) preserved_trans by blast
qed

lemma evolves_update:
  assumes "\<And>r. r \<in> set (db_msgs db) \<Longrightarrow> m_id r = i \<Longrightarrow> preserved me r (g r)"
  shows "evolves me db (update_msg i g db)"
proof -
  have "\<exists>m \<in> set (db_msgs db). preserved me m m'" if m': "m' \<in> set (db_msgs (update_msg i g db))" for m'
  proof -
    obtain m where m: "m \<in> set (db_msgs db)" "m' = (if m_id m = i then g m else m)"
      using m' by (auto simp: update_msg_def)
    then have "preserved me m m'" using assms by auto
    then show ?thesis using m(1) by blast
  qed
  then show ?thesis by (simp add: evolves_def update_msg_def)
qed

lemma change_evolves: "change me db db' \<Longrightarrow> chat_inv db \<Longrightarrow> evolves me db db'"
proof (induction rule: change.induct)
  case (post db m)
  then show ?case by (auto simp: evolves_def row_allowed_def intro: preserved_refl)
next
  case (edit db i m c now)
  have "r = m" if "r \<in> set (db_msgs db)" "m_id r = i" for r
    using distinct_key_eq [OF chat_inv_distinct [OF edit(5)]] that edit(1) find_msg_iff [OF edit(5)] by blast
  then show ?case using edit by (intro evolves_update) (auto simp: preserved_def)
next
  case (tombstone db i m now)
  have "r = m" if "r \<in> set (db_msgs db)" "m_id r = i" for r
    using distinct_key_eq [OF chat_inv_distinct [OF tombstone(4)]] that tombstone(1) find_msg_iff [OF tombstone(4)]
    by blast
  then show ?case using tombstone by (intro evolves_update) (auto simp: preserved_def)
next
  case (drop db gid)
  have "preserved me m (m\<lparr>m_reply := None\<rparr>)" for m by (simp add: preserved_def)
  then show ?case by (auto simp: evolves_def drop_group_def Let_def intro: preserved_refl)
qed (auto simp: evolves_def intro: preserved_refl)

lemma changes_evolve: "changes me db db' \<Longrightarrow> chat_inv db \<Longrightarrow> evolves me db db'"
proof (induction rule: rtranclp_induct)
  case (step y z)
  then show ?case using changes_inv change_evolves evolves_trans by blast
qed simp

lemma chat_step_inv [state_inv]:
  "chat_inv (cv_db s) \<Longrightarrow> chat_inv (cv_db (fst (chat_step r (s, os))))"
  using chat_step_changes [of r s os] changes_inv by auto

lemma chat_step_evolves:
  assumes "chat_inv (cv_db s)"
  shows "\<exists>me. (actor r s = Inr me \<or> cv_db (fst (chat_step r (s, os))) = cv_db s)
    \<and> evolves me (cv_db s) (cv_db (fst (chat_step r (s, os))))"
  using chat_step_changes [of r s os] changes_evolve assms by (metis evolves_refl)

text \<open>Every sequence of requests from the empty tables on.\<close>

fun chat_requests :: "'o chat_request list \<Rightarrow> chat_srv \<times> 'o \<Rightarrow> chat_srv \<times> 'o" where
  "chat_requests [] s = s"
| "chat_requests (r # rs) s = chat_requests rs (chat_step r s)"

lemma chat_requests_inv: "chat_inv (cv_db (fst s)) \<Longrightarrow> chat_inv (cv_db (fst (chat_requests rs s)))"
proof (induction rs arbitrary: s)
  case (Cons r rs)
  then show ?case using chat_step_inv [of "fst s" r "snd s"] by simp
qed simp

lemma empty_chat_inv: "chat_inv empty_chat_db"
  by (simp add: chat_inv_def empty_chat_db_def)



section \<open>Who may see what\<close>

definition my_group :: "chat_env \<Rightarrow> chat_srv \<Rightarrow> string \<Rightarrow> string" where
  "my_group env s u = (case group_for (fst (ask_dir env s)) u of Inl _ \<Rightarrow> [] | Inr g \<Rightarrow> g)"

definition can_see :: "chat_db \<Rightarrow> string \<Rightarrow> string \<Rightarrow> msg_row \<Rightarrow> bool" where
  "can_see db mine u m \<longleftrightarrow> (mine \<noteq> [] \<and> m_group m = Some mine)
     \<or> (\<exists>c. m_custom m = Some c \<and> is_group_member db c u)
     \<or> (m_to m \<noteq> None \<and> (m_sender m = u \<or> m_to m = Some u))"

lemma dir_load_again: "dir_load now x c = (r, c') \<Longrightarrow> dir_load now x c' = (r, c')"
  by (auto simp: dir_load_def cache_ttl_def second_def split: if_splits sum.splits)

lemma ask_dir_again: "ask_dir env s = (r, s1) \<Longrightarrow> fst (ask_dir env s1) = r"
  by (auto simp: ask_dir_def dest: dir_load_again split: prod.splits)

lemma ask_dir_cache: "cv_cache s1 = cv_cache s \<Longrightarrow> fst (ask_dir env s1) = fst (ask_dir env s)"
  by (auto simp: ask_dir_def split: prod.splits)

lemma require_channel_member_ok:
  assumes "require_channel_member env s u g = (Inr x, s1)"
  shows "my_group env s u = g \<and> g \<noteq> []"
  using assms by (auto simp: require_channel_member_def my_group_def split: prod.splits sum.splits if_splits)

lemma take_last_subset: "x \<in> set (take_last n xs) \<Longrightarrow> x \<in> set xs"
  by (auto simp: take_last_def dest: in_set_dropD)

lemma take_last_Nil: "0 < n \<Longrightarrow> take_last n xs = [] \<Longrightarrow> xs = []"
  by (cases xs) (auto simp: take_last_def)

lemma length_take_last: "length (take_last n xs) \<le> n"
  by (simp add: take_last_def)

lemma select_in_thread:
  "m \<in> set (select_messages db me g t c a b) \<Longrightarrow> m \<in> set (db_msgs db) \<and> in_thread me g t c m"
  by (auto simp: select_messages_def Let_def split: if_splits dest!: take_last_subset in_set_takeD)

lemma length_select: "length (select_messages db me g t c a b) \<le> 500"
  by (auto simp: select_messages_def Let_def backfill_limit_def page_size_def
      intro: order_trans [OF length_take_last])

lemma in_thread_can_see:
  assumes "in_thread me g t c m" "target_count g t c = 1"
    and "g \<noteq> [] \<Longrightarrow> mine = g" "c \<noteq> 0 \<Longrightarrow> is_group_member db c me"
  shows "can_see db mine me m"
  using assms by (cases "g = []"; cases "t = []"; cases "c = 0")
    (auto simp: in_thread_def can_see_def target_count_def split: if_splits)

lemma collect_messages_ok: "collect_messages f db rows = Inr ms \<Longrightarrow> ms = map (\<lambda>m. decorate db (row_out m)) rows"
  by (auto simp: collect_messages_def split: if_splits)

text \<open>Reading history gives nobody a message they may not see: every message of the answer is a stored
  one of the thread asked for, and the reader is in its channel's group, in its private group, or one of
  the two people of the direct conversation; an answer has at most 500 messages.\<close>

theorem history_visible:
  assumes "get_messages env s tok g t c a b = (Inr ms, s')"
  shows "\<exists>me rows. chat_auth env s tok = Inr me \<and> ms = map (\<lambda>m. decorate (cv_db s) (row_out m)) rows
    \<and> length rows \<le> 500
    \<and> (\<forall>m \<in> set rows. m \<in> set (db_msgs (cv_db s)) \<and> in_thread me g t c m
         \<and> can_see (cv_db s) (my_group env s me) me m)"
proof -
  obtain me where me: "chat_auth env s tok = Inr me"
    using assms by (auto simp: get_messages_def split: sum.splits)
  obtain r s1 where chan: "(if g \<noteq> [] then require_channel_member env s me g else (Inr (), s)) = (r, s1)"
    by fastforce
  have s1: "cv_db s1 = cv_db s"
    using chan by (auto split: if_splits dest!: require_channel_member_keeps)
  have run: "target_count g t c = 1" "r = Inr ()"
      "(if c \<noteq> 0 then require_group_member env s1 c me else Inr ()) = Inr ()"
      "fetch_messages (ce_faults env) (cv_db s1) me g t c a b = Inr ms"
    using assms me chan by (auto simp: get_messages_def split: sum.splits if_splits)
  have "g \<noteq> [] \<Longrightarrow> my_group env s me = g"
    using chan run(2) require_channel_member_ok by auto
  moreover have "c \<noteq> 0 \<Longrightarrow> is_group_member (cv_db s) c me"
    using run(3) s1 by (auto dest: require_group_member_ok)
  ultimately have see: "m \<in> set (select_messages (cv_db s) me g t c a b) \<Longrightarrow>
      m \<in> set (db_msgs (cv_db s)) \<and> in_thread me g t c m \<and> can_see (cv_db s) (my_group env s me) me m" for m
    using select_in_thread [of m "cv_db s" me g t c a b] in_thread_can_see [OF _ run(1)] by metis
  have "ms = map (\<lambda>m. decorate (cv_db s) (row_out m)) (select_messages (cv_db s) me g t c a b)"
    using run(4) s1 by (auto simp: fetch_messages_def split: if_splits dest!: collect_messages_ok)
  then show ?thesis using me see length_select [of "cv_db s" me g t c a b] by blast
qed

text \<open>Search finds only undeleted messages that match and that the searcher may see, at most thirty.\<close>

theorem search_visible:
  assumes "chat_inv (cv_db s)" "search_messages fts env s tok q0 = (Inr ms, s')"
  shows "\<exists>me rows. chat_auth env s tok = Inr me \<and> ms = map (\<lambda>m. decorate (cv_db s) (row_out m)) rows
    \<and> length rows \<le> 30
    \<and> (\<forall>m \<in> set rows. m \<in> set (db_msgs (cv_db s)) \<and> m_deleted m = None \<and> fts (trim_space q0) (m_content m)
         \<and> can_see (cv_db s) (my_group env s me) me m)"
proof -
  obtain me where me: "chat_auth env s tok = Inr me"
    using assms by (auto simp: search_messages_def split: sum.splits)
  obtain l s1 where dir: "ask_dir env s = (l, s1)" by fastforce
  have s1: "cv_db s1 = cv_db s" using ask_dir_keeps [OF dir] by simp
  obtain grp where grp: "group_for l me = Inr grp"
    and run: "collect_messages (ce_faults env) (cv_db s) (search_hits fts (cv_db s) (trim_space q0) me grp) = Inr ms"
    using assms me dir s1 by (auto simp: search_messages_def Let_def split: sum.splits if_splits)
  have mine: "my_group env s me = grp" using dir grp by (simp add: my_group_def)
  have "m \<in> set (db_msgs (cv_db s)) \<and> m_deleted m = None \<and> fts (trim_space q0) (m_content m)
      \<and> can_see (cv_db s) (my_group env s me) me m"
    if m: "m \<in> set (search_hits fts (cv_db s) (trim_space q0) me grp)" for m
  proof -
    have hit: "m \<in> set (db_msgs (cv_db s))" "m_deleted m = None" "fts (trim_space q0) (m_content m)"
      "m_group m = Some grp \<or> can_see (cv_db s) (my_group env s me) me m"
      using m unfolding search_hits_def mine by (auto simp: can_see_def dest!: in_set_takeD)
    moreover have "m_group m \<noteq> Some []" using hit(1) assms(1) by (simp add: chat_inv_def msg_ok_def)
    ultimately show ?thesis using mine by (auto simp: can_see_def)
  qed
  moreover have "length (search_hits fts (cv_db s) (trim_space q0) me grp) \<le> 30"
    by (simp add: search_hits_def search_limit_def)
  ultimately show ?thesis using me collect_messages_ok [OF run] by blast
qed

text \<open>A file is only as visible as the message it was sent in: whoever gets it may see that message; it
  is shown inline only when it is one of four image types.\<close>

theorem download_visible:
  assumes "chat_inv (cv_db s)" "download_attachment s3 env s os tok i = (Inr d, s')"
  shows "\<exists>me t m. chat_auth env s tok = Inr me \<and> t \<in> set (db_atts (cv_db s)) \<and> t_id t = i
    \<and> m \<in> set (db_msgs (cv_db s)) \<and> m_id m = t_message t \<and> can_see (cv_db s) (my_group env s me) me m
    \<and> (has_prefix (dl_disposition d) ''inline'' \<longrightarrow>
         dl_type d \<in> {''image/png'', ''image/jpeg'', ''image/gif'', ''image/webp''})"
proof -
  obtain me where me: "chat_auth env s tok = Inr me"
    using assms by (auto simp: download_attachment_def split: sum.splits)
  obtain t m where tm: "find (\<lambda>t. t_id t = i) (db_atts (cv_db s)) = Some t"
      "find_msg (cv_db s) (t_message t) = Some m"
    using assms me
    by (auto simp: download_attachment_def split: if_splits option.splits)
  obtain r s1 where chan: "(case m_group m of None \<Rightarrow> (Inr (), s) | Some grp \<Rightarrow> require_channel_member env s me grp) = (r, s1)"
    by fastforce
  have s1: "cv_db s1 = cv_db s"
    using chan by (auto split: option.splits dest!: require_channel_member_keeps)
  have run: "\<not> (m_to m \<noteq> None \<and> me \<noteq> m_sender m \<and> m_to m \<noteq> Some me)" "r = Inr ()"
      "(case m_custom m of None \<Rightarrow> Inr () | Some c \<Rightarrow> require_group_member env s1 c me) = Inr ()"
      "inline_safe (dl_type d) \<or> \<not> has_prefix (dl_disposition d) ''inline''"
    using assms(2) me tm chan
    by (auto simp: download_attachment_def split: sum.splits if_splits option.splits)
  have m: "m \<in> set (db_msgs (cv_db s))" "m_id m = t_message t" using tm(2) assms(1) by (auto simp: find_msg_iff)
  then have one: "one_target m" using assms(1) by (auto simp: chat_inv_def msg_ok_def)
  have "m_group m = Some g \<Longrightarrow> my_group env s me = g \<and> g \<noteq> []" for g
    using chan run(2) by (auto dest: require_channel_member_ok)
  moreover have "m_custom m = Some c \<Longrightarrow> is_group_member (cv_db s) c me" for c
    using run(3) s1 by (auto dest: require_group_member_ok)
  ultimately have "can_see (cv_db s) (my_group env s me) me m"
    using one run(1) by (cases "m_group m"; cases "m_custom m"; cases "m_to m")
      (auto simp: can_see_def one_target_def)
  then show ?thesis using me tm m run(4) by (auto simp: inline_safe_def dest!: find_Some_set)
qed

section \<open>Delivery\<close>

text \<open>Nobody is listed in two groups of the directory.\<close>

definition one_group :: "snapshot \<Rightarrow> bool" where
  "one_group sn \<longleftrightarrow> (\<forall>g u. u \<in> set (sn_members sn g) \<longrightarrow> group_in sn u = g)"

lemma push_event_gained:
  assumes push: "push_event env s k m = (r, s1)" and i: "i < length (hb_conns (cv_hub s))"
    and ev: "ev \<in> set (gained (cv_hub s) (cv_hub s1) i)"
  shows "ev = Message k m \<and>
    (if mo_group m \<noteq> [] then \<exists>sn. fst (ask_dir env s) = Inr (Some sn)
        \<and> cn_user (hb_conns (cv_hub s) ! i) \<in> set (sn_members sn (mo_group m))
     else if mo_custom m \<noteq> 0 then is_group_member (cv_db s) (mo_custom m) (cn_user (hb_conns (cv_hub s) ! i))
     else cn_user (hb_conns (cv_hub s) ! i) \<in> {mo_sender m, mo_recipient m})"
proof -
  have none: "gained h h i = []" for h by (simp add: gained_def)
  show ?thesis
  proof (cases "mo_group m = []")
    case False
    obtain l s0 where dir: "ask_dir env s = (l, s0)" by fastforce
    have s0: "cv_hub s0 = cv_hub s" using ask_dir_keeps [OF dir] by simp
    show ?thesis
      using push ev False dir s0 none
      by (auto simp: push_event_def members_of_def split: sum.splits option.splits dest!: send_to_gained [OF i])
  next
    case True
    then show ?thesis
      using push ev none set_group_members [of "cv_db s" "mo_custom m"]
      by (auto simp: push_event_def split: if_splits dest!: send_to_gained [OF i])
  qed
qed

text \<open>Asking the directory twice within a request gives the same answer.\<close>

lemma dir_same:
  "ask_dir env s = (l, s1) \<Longrightarrow> fst (ask_dir env s1) = fst (ask_dir env s)"
  using ask_dir_again by fastforce

lemma require_channel_member_same:
  "require_channel_member env s u g = (r, s1) \<Longrightarrow> fst (ask_dir env s1) = fst (ask_dir env s)"
  by (auto simp: require_channel_member_def dir_same split: prod.splits sum.splits if_splits)

lemma require_recipient_same:
  "require_recipient_exists env s u = (r, s1) \<Longrightarrow> fst (ask_dir env s1) = fst (ask_dir env s)"
  by (auto simp: require_recipient_exists_def dir_same split: prod.splits sum.splits if_splits)

lemma check_rate_same: "check_rate env s u = (r, s1) \<Longrightarrow> fst (ask_dir env s1) = fst (ask_dir env s)"
  by (rule ask_dir_cache) (auto simp: check_rate_def split: prod.splits)

lemma check_target_same:
  "check_target env s me g t c = (r, s1) \<Longrightarrow> fst (ask_dir env s1) = fst (ask_dir env s)"
  by (auto simp: check_target_def require_channel_member_same require_recipient_same
      split: prod.splits sum.splits if_splits)

lemma save_and_push_ok:
  assumes "save_and_push env s me g t c content r = (Inr m, s')"
  shows "\<exists>db row x. push_event env (s\<lparr>cv_db := db\<rparr>) ''message'' m = (Inr x, s') \<and> row \<in> set (db_msgs db)
    \<and> db_members db = db_members (cv_db s) \<and> m_id row = mo_id m \<and> m_sender row = mo_sender m
    \<and> m_group row = nonempty_opt (mo_group m) \<and> m_to row = nonempty_opt (mo_recipient m)
    \<and> m_custom row = (if mo_custom m \<noteq> 0 then Some (mo_custom m) else None)
    \<and> target_count (mo_group m) (mo_recipient m) (mo_custom m) = 1"
proof -
  obtain res db where ins: "insert_message env (cv_db s) me g t c content r = (res, db)" by fastforce
  then obtain x where res: "res = Inr m" and push: "push_event env (s\<lparr>cv_db := db\<rparr>) ''message'' m = (Inr x, s')"
    using assms by (auto simp: save_and_push_def split: sum.splits prod.splits)
  let ?row = "\<lparr>m_id = db_msg_next (cv_db s), m_sender = me, m_group = nonempty_opt g, m_to = nonempty_opt t,
            m_custom = (if c \<noteq> 0 then Some c else None), m_content = content,
            m_created = stamp_now env, m_edited = None, m_deleted = None,
            m_reply = (if r \<noteq> 0 then Some r else None)\<rparr>"
  have "?row \<in> set (db_msgs db)" "db_members db = db_members (cv_db s)" "mo_id m = m_id ?row" "mo_sender m = me"
    "mo_group m = g" "mo_recipient m = t" "mo_custom m = c" "target_count g t c = 1"
    using ins res
    by (auto simp: insert_message_def Let_def row_out_def or_empty_def nonempty_opt_def split: if_splits)
  then show ?thesis using push by (intro exI conjI bexI) (assumption | simp)+
qed

lemma post_message_ok:
  assumes "post_message env s me b content = (Inr m, s')"
  shows "\<exists>s1. check_target env s me (sb_group b) (sb_to b) (sb_custom b) = (Inr (), s1)
    \<and> save_and_push env s1 me (sb_group b) (sb_to b) (sb_custom b) content (sb_reply b) = (Inr m, s')"
  using assms by (auto simp: post_message_def split: sum.splits prod.splits)


section \<open>Private groups\<close>

lemma change_members:
  assumes "change me db db'" "gid < db_group_next db"
    and "(gid, u) \<in> set (db_members db') \<longleftrightarrow> (gid, u) \<notin> set (db_members db)"
  shows "is_group_member db gid me"
  using assms
  by (cases rule: change.cases) (auto simp: update_msg_def drop_group_def Let_def is_group_member_def)

lemma change_group_next: "change me db db' \<Longrightarrow> db_group_next db \<le> db_group_next db'"
  by (induction rule: change.induct) (auto simp: update_msg_def drop_group_def Let_def)

lemma changes_members:
  assumes "changes me db db'" "gid < db_group_next db"
    and "(gid, u) \<in> set (db_members db') \<longleftrightarrow> (gid, u) \<notin> set (db_members db)"
  shows "is_group_member db gid me"
proof -
  have "db_group_next db \<le> db_group_next db' \<and>
    (\<forall>u. ((gid, u) \<in> set (db_members db') \<longleftrightarrow> (gid, u) \<notin> set (db_members db)) \<longrightarrow> is_group_member db gid me)"
    using assms(1,2)
  proof (induction rule: rtranclp_induct)
    case (step y z)
    have next': "gid < db_group_next y" using step by simp
    have "is_group_member y gid me \<Longrightarrow> is_group_member db gid me"
      using step by (auto simp: is_group_member_def)
    then show ?case
      using step change_members [OF step(2) next'] change_group_next [OF step(2)] by fastforce
  qed simp
  then show ?thesis using assms(3) by blast
qed

text \<open>Nobody gets into or out of an existing private group except through a request of somebody who is
  in it at that moment.\<close>

theorem membership_by_members:
  assumes "gid < db_group_next (cv_db s)"
    and "is_group_member (cv_db (fst (chat_step r (s, os)))) gid u \<noteq> is_group_member (cv_db s) gid u"
  shows "\<exists>me. actor r s = Inr me \<and> is_group_member (cv_db s) gid me"
proof -
  obtain me where "actor r s = Inr me" "changes me (cv_db s) (cv_db (fst (chat_step r (s, os))))"
    using chat_step_changes [of r s os] assms(2) by auto
  moreover from this have "is_group_member (cv_db s) gid me"
    using changes_members [OF _ assms(1), of me _ u] assms(2) by (auto simp: is_group_member_def)
  ultimately show ?thesis by blast
qed

text \<open>Taking somebody else out of a private group is for its creator, or for anyone in it once the
  creator has left.\<close>

theorem only_creator_removes:
  assumes "remove_member env s tok gid who = (Inr x, s')" "chat_auth env s tok = Inr me" "who \<noteq> me"
  shows "\<exists>g. find_group (cv_db s) gid = Some g \<and> is_group_member (cv_db s) gid me
    \<and> is_group_member (cv_db s) gid who \<and> \<not> is_group_member (cv_db s') gid who
    \<and> (g_creator g = me \<or> \<not> is_group_member (cv_db s) gid (g_creator g))"
  using assms
  by (auto simp: remove_member_def Let_def drop_group_def is_group_member_def require_group_member_def
      split: if_splits sum.splits option.splits)

section \<open>Read marks\<close>

lemma change_reads:
  assumes "change me db db'" "map_of (db_reads db) k = Some v"
  shows "\<exists>v' \<ge> v. map_of (db_reads db') k = Some v'"
  using assms
  by (cases rule: change.cases)
    (auto simp: update_msg_def drop_group_def Let_def update_conv' split: option.splits)

text \<open>A read mark only moves forward: no request of anybody lowers a mark that is set.\<close>

theorem read_mark_forward:
  assumes "map_of (db_reads (cv_db s)) (u, key) = Some v"
  shows "\<exists>v' \<ge> v. map_of (db_reads (cv_db (fst (chat_step r (s, os))))) (u, key) = Some v'"
proof -
  have "\<exists>v' \<ge> v. map_of (db_reads db') (u, key) = Some v'" if "changes me (cv_db s) db'" for me db'
    using that
  proof (induction rule: rtranclp_induct)
    case base
    then show ?case using assms by blast
  next
    case (step y z)
    then show ?case using change_reads [OF step(2)] order_trans by meson
  qed
  then show ?thesis using chat_step_changes [of r s os] assms by (metis order_refl)
qed

text \<open>The first mark of a thread can move backwards: it replaces the baseline of the installation even
  when it is lower, and old history counts as unread again.\<close>

theorem first_mark_below_baseline:
  assumes "chat_auth env s tok = Inr me" "map_of (db_reads (cv_db s)) (me, key) = None"
    and "0 < i" "i < db_baseline (cv_db s)" "length key \<le> 200" "has_prefix key ''dm:''" "pg_text key"
    and "\<not> ce_faults env ''save read state''"
  shows "last_read (cv_db (snd (mark_read env s tok key i))) me key = i
    \<and> i < last_read (cv_db s) me key"
  using assms by (simp add: mark_read_def Let_def last_read_def update_conv')

section \<open>Pages of history\<close>

text \<open>What a client collects by scrolling up: one page, then the page before its oldest message, and so on.\<close>

fun scroll_up :: "nat \<Rightarrow> chat_db \<Rightarrow> string \<Rightarrow> string \<Rightarrow> string \<Rightarrow> int \<Rightarrow> int \<Rightarrow> msg_row list" where
  "scroll_up 0 db me g t c before = []"
| "scroll_up (Suc n) db me g t c before =
     (case select_messages db me g t c 0 before of
        [] \<Rightarrow> []
      | m # ms \<Rightarrow> scroll_up n db me g t c (m_id m) @ m # ms)"

lemma filter_below_take_last:
  assumes "sorted_wrt (<) (map k xs)" "take_last n xs = m # ms"
  shows "filter (\<lambda>x. k x < (k m :: int)) xs @ m # ms = xs"
proof -
  have xs: "xs = take (length xs - n) xs @ m # ms"
    using assms(2) by (metis append_take_drop_id take_last_def)
  have "sorted_wrt (<) (map k (take (length xs - n) xs @ m # ms))" using assms(1) xs by simp
  then have "filter (\<lambda>x. k x < k m) (take (length xs - n) xs @ m # ms) = take (length xs - n) xs"
    by (auto simp: sorted_wrt_append filter_empty_conv intro!: filter_True)
  then show ?thesis using xs by metis
qed

lemma scroll_up_complete:
  assumes sorted: "sorted_wrt (<) (map m_id (db_msgs db))" and pos: "\<forall>m \<in> set (db_msgs db). 0 < m_id m"
    and "0 < before"
    and "length (filter (\<lambda>m. m_id m < before) (filter (in_thread me g t c) (db_msgs db))) \<le> 50 * n"
  shows "scroll_up n db me g t c before = filter (\<lambda>m. m_id m < before) (filter (in_thread me g t c) (db_msgs db))"
  using assms(3,4)
proof (induction n arbitrary: before)
  case 0
  then show ?case by simp
next
  case (Suc n)
  let ?old = "\<lambda>b. filter (\<lambda>m. m_id m < b) (filter (in_thread me g t c) (db_msgs db))"
  have page: "select_messages db me g t c 0 before = take_last 50 (?old before)"
    using Suc.prems(1) by (simp add: select_messages_def Let_def page_size_def)
  show ?case
  proof (cases "take_last 50 (?old before)")
    case Nil
    then have "?old before = []" by (rule take_last_Nil [rotated]) simp
    then show ?thesis using Nil page by simp
  next
    case (Cons m ms)
    have step: "scroll_up (Suc n) db me g t c before = scroll_up n db me g t c (m_id m) @ m # ms"
      by (simp only: scroll_up.simps page Cons list.case)
    have srt: "sorted_wrt (<) (map m_id (?old before))" using sorted by (simp add: sorted_wrt_map_filter)
    have m: "m \<in> set (?old before)" using Cons take_last_subset [of m 50] by (metis list.set_intros(1))
    have below: "filter (\<lambda>x. m_id x < m_id m) (?old before) = ?old (m_id m)"
      using m by (auto intro: filter_cong)
    have split: "?old (m_id m) @ m # ms = ?old before"
      using filter_below_take_last [OF srt Cons] below by simp
    show ?thesis
    proof (cases "length (?old before) \<le> 50")
      case True
      then have "?old (m_id m) = []" using split Cons by (simp add: take_last_def)
      moreover have "scroll_up n db me g t c (m_id m) = []"
        using calculation m pos by (cases n) (auto simp: select_messages_def Let_def take_last_def)
      ultimately show ?thesis using split step by (metis append_Nil)
    next
      case False
      then have "length (m # ms) = 50" using Cons by (metis length_drop diff_diff_cancel nat_le_linear take_last_def)
      moreover have "length (?old (m_id m)) + length (m # ms) = length (?old before)"
        using split by (metis length_append)
      ultimately have "length (?old (m_id m)) \<le> 50 * n" using Suc.prems(2) by simp
      then have "scroll_up n db me g t c (m_id m) = ?old (m_id m)"
        using Suc.IH [of "m_id m"] m pos by auto
      then show ?thesis using split step by metis
    qed
  qed
qed

text \<open>C11: Scrolling up loses and repeats nothing: following the page cursor from any message gives exactly the
  messages of the thread before it, in order, once there were enough requests for their number.\<close>

theorem scrolling_complete:
  assumes "chat_inv db" "\<forall>m \<in> set (db_msgs db). 0 < m_id m" "0 < before"
    and "length (filter (\<lambda>m. m_id m < before) (filter (in_thread me g t c) (db_msgs db))) \<le> 50 * n"
  shows "scroll_up n db me g t c before = filter (\<lambda>m. m_id m < before) (filter (in_thread me g t c) (db_msgs db))"
  using scroll_up_complete assms by (simp add: chat_inv_def)

lemma sorted_last_greatest:
  assumes "sorted_wrt (<) (map (k :: 'a \<Rightarrow> int) xs)" "x \<in> set xs"
  shows "k x \<le> k (last xs)"
proof -
  have xs: "xs = butlast xs @ [last xs]" using assms(2) by (metis append_butlast_last_id empty_iff list.set(1))
  then have "sorted_wrt (<) (map k (butlast xs @ [last xs]))" using assms(1) by simp
  moreover have "x \<in> set (butlast xs @ [last xs])" using xs assms(2) by simp
  ultimately show ?thesis by (auto simp: sorted_wrt_append)
qed

text \<open>"Everything since this id" is at most 500 messages: after a longer absence the newest message of
  the thread is not in the answer.\<close>

theorem backfill_capped:
  assumes "chat_inv db" "0 < after"
    and "500 < length (filter (\<lambda>m. after < m_id m) (filter (in_thread me g t c) (db_msgs db)))"
  shows "length (select_messages db me g t c after before) = 500
    \<and> last (filter (in_thread me g t c) (db_msgs db)) \<notin> set (select_messages db me g t c after before)"
proof -
  let ?new = "filter (\<lambda>m. after < m_id m) (filter (in_thread me g t c) (db_msgs db))"
  let ?thread = "filter (in_thread me g t c) (db_msgs db)"
  have sel: "select_messages db me g t c after before = take 500 ?new"
    using assms(2) by (simp add: select_messages_def Let_def backfill_limit_def)
  have srt: "sorted_wrt (<) (map m_id ?new)" "sorted_wrt (<) (map m_id ?thread)"
    using assms(1) by (simp_all add: chat_inv_def sorted_wrt_map_filter)
  have ne: "?new \<noteq> []" using assms(3) by (metis list.size(3) not_less_zero)
  then have ne: "?new \<noteq> []" "?thread \<noteq> []" by (blast, metis filter.simps(1))
  have "m_id (last ?thread) = m_id (last ?new)"
  proof -
    have "last ?thread \<in> set ?thread" "last ?new \<in> set ?thread" using ne by (auto dest: last_in_set)
    have max: "sorted_wrt (<) (map m_id xs) \<Longrightarrow> x \<in> set xs \<Longrightarrow> m_id x \<le> m_id (last xs)" for xs and x :: msg_row
      by (rule sorted_last_greatest)
    have "after < m_id (last ?thread)"
      using max [OF srt(2) \<open>last ?new \<in> set ?thread\<close>] last_in_set [OF ne(1)] by auto
    then have "last ?thread \<in> set ?new" using \<open>last ?thread \<in> set ?thread\<close> by simp
    then show ?thesis
      using max [OF srt(1)] max [OF srt(2) \<open>last ?new \<in> set ?thread\<close>] by fastforce
  qed
  moreover have "x \<in> set (take 500 ?new) \<Longrightarrow> m_id x < m_id (last ?new)" for x
  proof -
    assume x: "x \<in> set (take 500 ?new)"
    have "last ?new \<in> set (drop 500 ?new)" using assms(3) by (metis drop_eq_Nil last_drop last_in_set not_less)
    moreover have "sorted_wrt (<) (map m_id (take 500 ?new @ drop 500 ?new))" using srt(1) by simp
    ultimately show ?thesis using x by (auto simp: sorted_wrt_append simp del: append_take_drop_id)
  qed
  ultimately have "last ?thread \<notin> set (take 500 ?new)" by (metis less_irrefl)
  moreover have "length (take 500 ?new) = 500"
    unfolding length_take by (rule min_absorb2) (rule less_imp_le [OF assms(3)])
  ultimately show ?thesis unfolding sel by blast
qed

section \<open>A small chat server\<close>

definition ex_msg :: "int \<Rightarrow> string \<Rightarrow> string option \<Rightarrow> string option \<Rightarrow> string \<Rightarrow> msg_row" where
  "ex_msg i from grp to content = \<lparr>m_id = i, m_sender = from, m_group = grp, m_to = to, m_custom = None,
     m_content = content, m_created = 0, m_edited = None, m_deleted = None, m_reply = None\<rparr>"

definition ex_db :: chat_db where
  "ex_db = \<lparr>db_msgs = [ex_msg 1 ''ann'' None (Some ''bob'') ''hi'', ex_msg 2 ''ann'' (Some ''sales'') None ''all''],
     db_msg_next = 3,
     db_atts = [\<lparr>t_id = 1, t_message = 1, t_filename = ''a.png'', t_key = ''chat/1/a.png'', t_size = 3, t_by = ''ann''\<rparr>],
     db_att_next = 2, db_groups = [\<lparr>g_id = 1, g_name = ''team'', g_creator = ''ann''\<rparr>], db_group_next = 2,
     db_members = [(1, ''ann''), (1, ''bob'')], db_reads = [((''bob'', ''dm:ann''), 1)], db_baseline = 9\<rparr>"

definition ex_env :: chat_env where
  "ex_env = \<lparr>ce_now = 5 * second, ce_faults = no_faults, ce_fetch = Inr (Some small_snapshot)\<rparr>"

definition ex_srv :: chat_srv where
  "ex_srv = \<lparr>cv_db = ex_db,
     cv_hub = \<lparr>hb_conns = [\<lparr>cn_id = 0, cn_user = ''bob'', cn_outbox = []\<rparr>], hb_next = 1, hb_closed = []\<rparr>,
     cv_limiter = (\<lambda>_. []), cv_typing = Map.empty, cv_cache = no_cache,
     cv_emp = \<lparr>emp_sessions =
       [\<lparr>es_token = ''t1'', es_user = ''ann'', es_expires = 9 * second\<rparr>,
        \<lparr>es_token = ''t2'', es_user = ''bob'', es_expires = 9 * second\<rparr>], user_logins = []\<rparr>\<rparr>"

lemmas ex_defs = ex_msg_def ex_db_def ex_env_def ex_srv_def small_snapshot_def no_cache_def

lemma ex_inv: "chat_inv ex_db"
  by (simp add: chat_inv_def msg_ok_def ex_defs one_target_def max_message_chars_def rune_count_def byte_def)

lemma ex_auth: "chat_auth ex_env ex_srv ''t1'' = Inr ''ann''" "chat_auth ex_env ex_srv ''t2'' = Inr ''bob''"
  by (simp_all add: chat_auth_def module_employee_session_def emp_validate_def emp_row_def ex_defs second_def)

lemma ex_ask: "ask_dir ex_env ex_srv = (Inr (Some small_snapshot),
    ex_srv\<lparr>cv_cache := \<lparr>dc_snap = Some small_snapshot, dc_at = 5 * second\<rparr>\<rparr>)"
  by (simp add: ask_dir_def dir_load_def ex_env_def ex_srv_def no_cache_def)



theorem history_visible_witness:
  "\<exists>me rows. chat_auth ex_env ex_srv ''t2'' = Inr me \<and> length rows \<le> 500 \<and> length rows = 1
     \<and> list_all (can_see ex_db (my_group ex_env ex_srv me) me) rows"
proof -
  have "\<exists>ms. get_messages ex_env ex_srv ''t2'' [] ''ann'' 0 0 0 = (Inr ms, ex_srv) \<and> length ms = 1"
    by (simp add: get_messages_def ex_auth target_count_def fetch_messages_def collect_messages_def)
      (simp add: ex_defs select_messages_def in_thread_def take_last_def page_size_def)
  then obtain ms where run: "get_messages ex_env ex_srv ''t2'' [] ''ann'' 0 0 0 = (Inr ms, ex_srv)" "length ms = 1"
    by blast
  have "cv_db ex_srv = ex_db" by (simp add: ex_srv_def)
  then show ?thesis using history_visible [OF run(1)] run(2) by (metis length_map list_all_iff)
qed

theorem search_visible_witness:
  "\<exists>me rows. chat_auth ex_env ex_srv ''t1'' = Inr me \<and> length rows \<le> 30 \<and> length rows = 2
     \<and> list_all (can_see ex_db (my_group ex_env ex_srv me) me) rows"
proof -
  have "\<exists>ms s'. search_messages (\<lambda>_ _. True) ex_env ex_srv ''t1'' ''abc'' = (Inr ms, s') \<and> length ms = 2"
    by (simp add: search_messages_def ex_auth ex_ask Let_def collect_messages_def group_for_def rune_count_def
        trim_space_def comp_def space_rune_def byte_def group_in_def)
      (simp add: ex_defs search_hits_def search_limit_def)
  then obtain ms s' where run: "search_messages (\<lambda>_ _. True) ex_env ex_srv ''t1'' ''abc'' = (Inr ms, s')" "length ms = 2"
    by blast
  have db: "cv_db ex_srv = ex_db" by (simp add: ex_srv_def)
  with search_visible [OF _ run(1)] ex_inv run(2) show ?thesis by (metis length_map list_all_iff)
qed

definition ex_store :: "unit object_store" where
  "ex_store = \<lparr>os_upload = (\<lambda>_ _ _ _. (Inr (), ())), os_download = (\<lambda>_ _. Inr (''xyz'', ''image/png'')),
     os_delete = (\<lambda>_ _. (Inr (), ()))\<rparr>"

lemma ex_env_simps [simp]: "ce_faults ex_env = no_faults" "ce_now ex_env = 5 * second"
  by (simp_all add: ex_env_def)

lemma ex_find:
  "find (\<lambda>t. t_id t = 1) (db_atts ex_db) =
    Some \<lparr>t_id = 1, t_message = 1, t_filename = ''a.png'', t_key = ''chat/1/a.png'', t_size = 3, t_by = ''ann''\<rparr>"
  "find_msg ex_db 1 = Some (ex_msg 1 ''ann'' None (Some ''bob'') ''hi'')"
  by (simp_all add: ex_db_def find_msg_def ex_msg_def)

theorem download_visible_witness:
  "\<exists>t m. t \<in> set (db_atts ex_db) \<and> m \<in> set (db_msgs ex_db) \<and> m_id m = t_message t
     \<and> can_see ex_db (my_group ex_env ex_srv ''bob'') ''bob'' m"
proof -
  have db: "cv_db ex_srv = ex_db" by (simp add: ex_srv_def)
  have "\<exists>d. download_attachment (Inr (Some ex_store)) ex_env ex_srv () ''t2'' 1 = (Inr d, ex_srv)"
    by (simp add: download_attachment_def ex_auth db ex_find ex_env_simps ex_store_def)
      (simp add: ex_msg_def)
  then obtain d where run: "download_attachment (Inr (Some ex_store)) ex_env ex_srv () ''t2'' 1 = (Inr d, ex_srv)"
    by blast
  from download_visible [OF _ run] show ?thesis using ex_inv ex_auth(2) db by auto
qed

definition ex_hello :: send_body where
  "ex_hello = \<lparr>sb_group = [], sb_to = ''bob'', sb_custom = 0, sb_content = ''yo'', sb_reply = 0\<rparr>"

lemma ex_yo: "trim_space ''yo'' = ''yo''" "check_length ''yo'' = Inr ()" "pg_text ''yo''"
  by (simp_all add: trim_space_def comp_def space_rune_def byte_def check_length_def rune_count_def
      max_message_chars_def pg_text_def valid_utf8_def)

lemma ex_send: "\<exists>m s'. send_message ex_env ex_srv ''t1'' ex_hello = (Inr m, s')
    \<and> gained (cv_hub ex_srv) (cv_hub s') 0 = [Message ''message'' m]"
proof -
  obtain s1 where rate: "check_rate ex_env ex_srv ''ann'' = (Inr (), s1)"
    and keep: "cv_db s1 = ex_db" "cv_hub s1 = cv_hub ex_srv" "cv_cache s1 = no_cache"
    by (simp add: check_rate_def chat_allow_def Let_def ex_srv_def rate_limit_max_def)
  have ask: "ask_dir ex_env s1 = (Inr (Some small_snapshot),
      s1\<lparr>cv_cache := \<lparr>dc_snap = Some small_snapshot, dc_at = 5 * second\<rparr>\<rparr>)"
    using keep(3) by (simp add: ask_dir_def dir_load_def ex_env_def no_cache_def)
  let ?s2 = "s1\<lparr>cv_cache := \<lparr>dc_snap = Some small_snapshot, dc_at = 5 * second\<rparr>\<rparr>"
  have tgt: "check_target ex_env s1 ''ann'' [] ''bob'' 0 = (Inr (), ?s2)"
    by (simp add: check_target_def target_count_def require_recipient_exists_def ask list_users_def)
      (simp add: small_snapshot_def)
  obtain m db where ins: "insert_message ex_env ex_db ''ann'' [] ''bob'' 0 ''yo'' 0 = (Inr m, db)"
    and m: "mo_group m = []" "mo_custom m = 0" "mo_sender m = ''ann''" "mo_recipient m = ''bob''"
    by (auto simp: insert_message_def Let_def ex_yo target_count_def row_out_def or_empty_def nonempty_opt_def)
  let ?s3 = "?s2\<lparr>cv_db := db, cv_hub := send_to [''ann'', ''bob''] (Message ''message'' m) (cv_hub ex_srv)\<rparr>"
  have push: "push_event ex_env (?s2\<lparr>cv_db := db\<rparr>) ''message'' m = (Inr (), ?s3)"
    by (simp add: push_event_def m keep)
  have "send_message ex_env ex_srv ''t1'' ex_hello = (Inr m, ?s3)"
    unfolding send_message_def ex_auth sum.case Let_def
    by (simp add: ex_hello_def ex_yo rate post_message_def tgt save_and_push_def keep ins push)
  moreover have "gained (cv_hub ex_srv) (cv_hub ?s3) 0 = [Message ''message'' m]"
    by (simp add: ex_srv_def gained_def send_to_def offer_to_user_def offer_def outbox_size_def)
  ultimately show ?thesis by blast
qed


lemma ex_remove: "fst (remove_member ex_env ex_srv ''t1'' 1 ''bob'') = Inr ()
    \<and> \<not> is_group_member (cv_db (snd (remove_member ex_env ex_srv ''t1'' 1 ''bob''))) 1 ''bob''"
  by (simp add: remove_member_def ex_auth require_group_member_def Let_def)
    (simp add: ex_defs is_group_member_def find_group_def group_members_def)

theorem membership_by_members_witness:
  "\<exists>me. actor (R_remove ex_env ''t1'' 1 ''bob'' :: unit chat_request) ex_srv = Inr me \<and> is_group_member (cv_db ex_srv) 1 me"
proof (rule membership_by_members [of 1 ex_srv "R_remove ex_env ''t1'' 1 ''bob''" "()" "''bob''"])
  show "1 < db_group_next (cv_db ex_srv)" by (simp add: ex_defs)
  show "is_group_member (cv_db (fst (chat_step (R_remove ex_env ''t1'' 1 ''bob'') (ex_srv, ())))) 1 ''bob''
      \<noteq> is_group_member (cv_db ex_srv) 1 ''bob''"
    using ex_remove by (simp add: is_group_member_def [of "cv_db ex_srv"]) (simp add: ex_defs)
qed

theorem only_creator_removes_witness:
  "\<exists>g. find_group ex_db 1 = Some g \<and> (g_creator g = ''ann'' \<or> \<not> is_group_member ex_db 1 (g_creator g))"
proof -
  obtain s' where "remove_member ex_env ex_srv ''t1'' 1 ''bob'' = (Inr (), s')"
    using ex_remove by (metis prod.collapse)
  from only_creator_removes [OF this ex_auth(1)] show ?thesis by (auto simp: ex_srv_def)
qed

theorem read_mark_forward_witness:
  "\<exists>v' \<ge> 1. map_of (db_reads (cv_db (fst (chat_step (R_mark ex_env ''t2'' ''dm:ann'' 2) (ex_srv, ()))))) (''bob'', ''dm:ann'')
     = Some v'"
  by (rule read_mark_forward) (simp add: ex_defs)

theorem first_mark_below_baseline_witness:
  "last_read (cv_db (snd (mark_read ex_env ex_srv ''t1'' ''dm:bob'' 5))) ''ann'' ''dm:bob'' = 5
   \<and> 5 < last_read (cv_db ex_srv) ''ann'' ''dm:bob''"
proof (rule first_mark_below_baseline [OF ex_auth(1)])
  show "pg_text ''dm:bob''" by (simp add: pg_text_def valid_utf8_def byte_def)
qed (simp_all add: ex_defs)

theorem scrolling_complete_witness:
  "scroll_up 1 ex_db ''bob'' [] ''ann'' 0 3 = [ex_msg 1 ''ann'' None (Some ''bob'') ''hi'']"
proof -
  have "scroll_up 1 ex_db ''bob'' [] ''ann'' 0 3
      = filter (\<lambda>m. m_id m < 3) (filter (in_thread ''bob'' [] ''ann'' 0) (db_msgs ex_db))"
    by (rule scrolling_complete [OF ex_inv]) (simp_all add: ex_defs in_thread_def)
  also have "\<dots> = [ex_msg 1 ''ann'' None (Some ''bob'') ''hi'']" by (simp add: ex_defs in_thread_def)
  finally show ?thesis .
qed

definition long_absence :: chat_db where
  "long_absence = empty_chat_db\<lparr>db_msg_next := 600,
     db_msgs := map (\<lambda>i. ex_msg i ''ann'' None (Some ''bob'') ''hi'') [1..599]\<rparr>"

theorem backfill_capped_witness:
  "length (select_messages long_absence ''bob'' [] ''ann'' 0 1 0) = 500"
proof -
  have msgs: "db_msgs long_absence = map (\<lambda>i. ex_msg i ''ann'' None (Some ''bob'') ''hi'') [1..599]"
    by (simp add: long_absence_def)
  have ids: "map m_id (db_msgs long_absence) = [1..599]"
    unfolding msgs map_map by (simp add: ex_msg_def comp_def)
  have "msg_ok long_absence (ex_msg i ''ann'' None (Some ''bob'') ''hi'')" for i
    by (simp add: msg_ok_def ex_msg_def one_target_def rune_count_def max_message_chars_def byte_def)
  then have inv: "chat_inv long_absence"
    unfolding chat_inv_def ids by (auto simp: msgs strict_sorted_iff) (simp_all add: ex_msg_def long_absence_def)
  have thread: "filter (in_thread ''bob'' [] ''ann'' 0) (db_msgs long_absence) = db_msgs long_absence"
    by (auto simp: msgs in_thread_def ex_msg_def intro!: filter_True)
  have "filter (\<lambda>m. 1 < m_id m) (db_msgs long_absence) = map (\<lambda>i. ex_msg i ''ann'' None (Some ''bob'') ''hi'') [2..599]"
    unfolding msgs filter_map by (subst upto_rec1) (auto simp: comp_def ex_msg_def intro!: map_cong filter_True)
  then have "500 < length (filter (\<lambda>m. 1 < m_id m) (filter (in_thread ''bob'' [] ''ann'' 0) (db_msgs long_absence)))"
    unfolding thread by simp
  from backfill_capped [OF inv _ this] show ?thesis by simp
qed

end
