(* ===== verification/Wiki.thy ===== *)
theory Wiki
  imports ChatWrite
begin

text \<open>
  The wiki module (\<open>modules/wiki/service/internal\<close>): pages addressed by a path, a history of revisions
  per page, access rules per page and group, and attached files.  This theory holds the tables, the
  directory lookup behind the rules, the rules themselves and the handlers that only read; \<open>WikiWrite\<close>
  holds those that change something.

  A request is handled with one environment: its instant, the statements that fail, what the directory
  answers, and the text functions of PostgreSQL and the HTML package (\<open>wx_before\<close> is the collation the
  paths are ordered by).  Tables are lists in the order of their ids.
\<close>

section \<open>Tables\<close>

record page_row =
  pg_id :: int
  pg_path :: string
  pg_title :: string
  pg_updated :: nat

record rev_row =
  rv_id :: int
  rv_page :: int
  rv_content :: string
  rv_author :: string
  rv_created :: nat

record rule_row =
  rl_page :: int
  rl_group :: string
  rl_access :: string

record file_row =
  fl_id :: int
  fl_page :: int
  fl_name :: string
  fl_key :: string
  fl_size :: nat
  fl_by :: string
  fl_at :: nat

record wiki_db =
  wd_pages :: "page_row list"
  wd_page_next :: int
  wd_revs :: "rev_row list"
  wd_rev_next :: int
  wd_rules :: "rule_row list"
  wd_files :: "file_row list"
  wd_file_next :: int

definition empty_wiki_db :: wiki_db where
  "empty_wiki_db = \<lparr>wd_pages = [], wd_page_next = 1, wd_revs = [], wd_rev_next = 1, wd_rules = [],
     wd_files = [], wd_file_next = 1\<rparr>"

record wiki_srv =
  wv_db :: wiki_db
  wv_emp :: emp_db
  wv_admin :: admin_db

text \<open>The LDAP server: binding, the group entries with their members, and the escaping of a name in a DN.\<close>

record group_server =
  gs_bind :: "string \<Rightarrow> string \<Rightarrow> string + unit"
  gs_groups :: "string \<Rightarrow> string + (string \<times> string list) list"
  gs_escape :: "string \<Rightarrow> string"

text \<open>Full-text search on one page: whether the query matches, how well, and the marked extract.\<close>

record text_search =
  ts_match :: "string \<Rightarrow> string \<Rightarrow> string \<Rightarrow> bool"
  ts_rank :: "string \<Rightarrow> string \<Rightarrow> string \<Rightarrow> nat"
  ts_headline :: "string \<Rightarrow> string \<Rightarrow> string"

record wiki_env =
  wx_now :: time
  wx_faults :: faults
  wx_row :: ldap_row
  wx_ldap :: group_server
  wx_before :: "string \<Rightarrow> string \<Rightarrow> bool"
  wx_search :: text_search
  wx_letter :: "nat \<Rightarrow> bool"
  wx_unescape :: "string \<Rightarrow> string"
  wx_sanitize :: "string \<Rightarrow> string"
  wx_random :: string

definition wiki_stamp :: "wiki_env \<Rightarrow> nat" where
  "wiki_stamp env = nat (wx_now env div 1000)"

section \<open>Who is asking\<close>

definition wiki_auth :: "wiki_env \<Rightarrow> wiki_srv \<Rightarrow> string \<Rightarrow> string result" where
  "wiki_auth env s tok =
     (case module_employee_session (wx_faults env) (wx_now env) (wv_emp s) tok of
        Inl _ \<Rightarrow> Inl not_authenticated
      | Inr u \<Rightarrow> Inr u)"

definition wiki_admin :: "wiki_env \<Rightarrow> wiki_srv \<Rightarrow> string \<Rightarrow> string result" where
  "wiki_admin env s tok =
     (case module_admin_session (wx_faults env) (wx_now env) (wv_admin s) tok of
        Inl _ \<Rightarrow> Inl not_authenticated
      | Inr e \<Rightarrow> Inr e)"

text \<open>\<open>clientFromDB\<close>: base DN and password of an installed, running directory.\<close>

definition wiki_client :: "ldap_row \<Rightarrow> string + (string \<times> string) option" where
  "wiki_client row =
     (case row of
        None \<Rightarrow> Inr None
      | Some (status, config) \<Rightarrow>
          if status \<noteq> ''running'' then Inr None
          else case config of None \<Rightarrow> Inl ''parse ldap-openldap config'' | Some c \<Rightarrow> Inr (Some c))"

definition user_dn :: "group_server \<Rightarrow> string \<Rightarrow> string \<Rightarrow> string" where
  "user_dn ldap base_dn u = ''uid='' @ gs_escape ldap u @ '',ou=people,'' @ base_dn"

definition wiki_group_for :: "group_server \<Rightarrow> ldap_row \<Rightarrow> string \<Rightarrow> string + string" where
  "wiki_group_for ldap row u =
     (case wiki_client row of
        Inl e \<Rightarrow> Inl e
      | Inr None \<Rightarrow> Inr []
      | Inr (Some (base_dn, password)) \<Rightarrow>
          (case gs_bind ldap base_dn password of
             Inl e \<Rightarrow> Inl ''bind''
           | Inr _ \<Rightarrow>
               (case gs_groups ldap base_dn of
                  Inl e \<Rightarrow> Inl ''search groups''
                | Inr entries \<Rightarrow>
                    (case find (\<lambda>g. user_dn ldap base_dn u \<in> set (snd g)) entries of
                       None \<Rightarrow> Inr []
                     | Some g \<Rightarrow> Inr (fst g)))))"

text \<open>The handlers drop the error: \<open>group, _ := s.employeeGroup(ctx, username)\<close>.\<close>

definition wiki_employee_group :: "wiki_env \<Rightarrow> string \<Rightarrow> string" where
  "wiki_employee_group env u =
     (case wiki_group_for (wx_ldap env) (wx_row env) u of Inl _ \<Rightarrow> [] | Inr g \<Rightarrow> g)"

section \<open>Access rules\<close>

fun rule_matches :: "rule_row list \<Rightarrow> string \<Rightarrow> bool \<Rightarrow> bool" where
  "rule_matches [] grp need_write = False"
| "rule_matches (r # rs) grp need_write =
     (if rl_group r \<noteq> grp then rule_matches rs grp need_write
      else if \<not> need_write \<or> rl_access r = ''write'' then True
      else rule_matches rs grp need_write)"

definition rule_allows :: "rule_row list \<Rightarrow> string \<Rightarrow> bool \<Rightarrow> bool" where
  "rule_allows rules grp need_write = (if rules = [] then True else rule_matches rules grp need_write)"

definition rules_of :: "wiki_db \<Rightarrow> int \<Rightarrow> rule_row list" where
  "rules_of db pid = filter (\<lambda>r. rl_page r = pid) (wd_rules db)"

definition page_access :: "faults \<Rightarrow> wiki_db \<Rightarrow> int \<Rightarrow> string \<Rightarrow> bool \<Rightarrow> bool \<Rightarrow> string + bool" where
  "page_access f db pid grp is_admin need_write =
     (if is_admin then Inr True
      else if f ''rules'' then Inl ''rules''
      else Inr (rule_allows (rules_of db pid) grp need_write))"

text \<open>The check most handlers make on a page before they go on.\<close>

definition require_access :: "wiki_env \<Rightarrow> wiki_db \<Rightarrow> int \<Rightarrow> string \<Rightarrow> bool \<Rightarrow> unit result" where
  "require_access env db pid grp need_write =
     (case page_access (wx_faults env) db pid grp False need_write of
        Inl _ \<Rightarrow> Inl (internal_error ''check access'')
      | Inr ok \<Rightarrow>
          if ok then Inr ()
          else if need_write then Inl (HTTP 403 ''you don't have write access to this page'')
          else Inl (HTTP 403 ''you don't have access to this page''))"

section \<open>Paths\<close>

definition check_segment :: "string \<Rightarrow> unit result" where
  "check_segment seg =
     (if trim_space seg = [] \<or> seg = ''.'' \<or> seg = ''..''
      then Inl (HTTP 400 (''page path can't contain empty, '' @ [CHR 0x22] @ ''.'' @ [CHR 0x22] @ '' or ''
             @ [CHR 0x22] @ ''..'' @ [CHR 0x22] @ '' parts''))
      else if length seg > 100
      then Inl (HTTP 400 ''a part of the page path is too long (100 characters max)'')
      else if \<exists>r \<in> set (runes seg). fst r < 0x20 \<or> fst r = 0x7F
      then Inl (HTTP 400 ''page path can't contain control characters'')
      else Inr ())"

fun check_segments :: "string list \<Rightarrow> unit result" where
  "check_segments [] = Inr ()"
| "check_segments (seg # segs) = (case check_segment seg of Inl e \<Rightarrow> Inl e | Inr _ \<Rightarrow> check_segments segs)"

definition clean_page_path :: "string \<Rightarrow> string result" where
  "clean_page_path raw =
     (let path = trim_chr (CHR ''/'') (trim_space raw) in
      if path = [] then Inl (HTTP 400 ''page path can't be empty'')
      else if length path > 300 then Inl (HTTP 400 ''page path is too long'')
      else case check_segments (split_chr (CHR ''/'') path) of Inl e \<Rightarrow> Inl e | Inr _ \<Rightarrow> Inr path)"

definition page_by_path :: "faults \<Rightarrow> wiki_db \<Rightarrow> string \<Rightarrow> page_row option" where
  "page_by_path f db path =
     (if f ''page row'' then None else find (\<lambda>p. pg_path p = path) (wd_pages db))"

definition latest_rev :: "wiki_db \<Rightarrow> int \<Rightarrow> rev_row option" where
  "latest_rev db pid = find (\<lambda>r. rv_page r = pid) (rev (wd_revs db))"

section \<open>Reading\<close>

record summary =
  su_id :: int
  su_path :: string
  su_title :: string
  su_snippet :: string

definition summary_of :: "page_row \<Rightarrow> summary" where
  "summary_of p = \<lparr>su_id = pg_id p, su_path = pg_path p, su_title = pg_title p, su_snippet = []\<rparr>"

definition pages_by_path :: "wiki_env \<Rightarrow> wiki_db \<Rightarrow> page_row list" where
  "pages_by_path env db = order_by (\<lambda>p q. wx_before env (pg_path p) (pg_path q)) (wd_pages db)"

definition list_pages :: "wiki_env \<Rightarrow> wiki_srv \<Rightarrow> string \<Rightarrow> summary list result" where
  "list_pages env s tok =
     (case wiki_auth env s tok of
        Inl e \<Rightarrow> Inl e
      | Inr me \<Rightarrow>
          if wx_faults env ''all rules'' then Inl (internal_error ''check access'')
          else if wx_faults env ''list pages'' then Inl (internal_error ''list pages'')
          else if wx_faults env ''scan page'' then Inl (internal_error ''scan page'')
          else Inr (map summary_of
            (filter (\<lambda>p. rule_allows (rules_of (wv_db s) (pg_id p)) (wiki_employee_group env me) False)
              (pages_by_path env (wv_db s)))))"

record page_out =
  po_id :: int
  po_path :: string
  po_title :: string
  po_content :: string
  po_can_write :: bool
  po_updated :: string
  po_author :: string
  po_revision :: int

definition page_content :: "wiki_env \<Rightarrow> wiki_db \<Rightarrow> page_row \<Rightarrow> string \<Rightarrow> bool \<Rightarrow> page_out result" where
  "page_content env db p path can_write =
     (case (if wx_faults env ''load content'' then None else latest_rev db (pg_id p)) of
        None \<Rightarrow> Inl (internal_error ''load content'')
      | Some r \<Rightarrow> Inr \<lparr>po_id = pg_id p, po_path = path, po_title = pg_title p, po_content = rv_content r,
          po_can_write = can_write, po_updated = rfc3339 (rv_created r), po_author = rv_author r,
          po_revision = rv_id r\<rparr>)"

definition get_page :: "wiki_env \<Rightarrow> wiki_srv \<Rightarrow> string \<Rightarrow> string \<Rightarrow> page_out result" where
  "get_page env s tok path =
     (case wiki_auth env s tok of
        Inl e \<Rightarrow> Inl e
      | Inr me \<Rightarrow>
          (let grp = wiki_employee_group env me in
           case page_by_path (wx_faults env) (wv_db s) path of
             None \<Rightarrow> Inl (HTTP 404 ''no such page'')
           | Some p \<Rightarrow>
               (case require_access env (wv_db s) (pg_id p) grp False of
                  Inl e \<Rightarrow> Inl e
                | Inr _ \<Rightarrow>
                    (case page_access (wx_faults env) (wv_db s) (pg_id p) grp False True of
                       Inl _ \<Rightarrow> Inl (internal_error ''check access'')
                     | Inr can_write \<Rightarrow> page_content env (wv_db s) p path can_write))))"

record revision_out =
  ro_id :: int
  ro_author :: string
  ro_created :: string

definition revision_out_of :: "rev_row \<Rightarrow> revision_out" where
  "revision_out_of r = \<lparr>ro_id = rv_id r, ro_author = rv_author r, ro_created = rfc3339 (rv_created r)\<rparr>"

text \<open>A page found by its path and readable by the one who asks: the shared start of three handlers.\<close>

definition readable_page :: "wiki_env \<Rightarrow> wiki_srv \<Rightarrow> string \<Rightarrow> string \<Rightarrow> page_row result" where
  "readable_page env s tok path =
     (case wiki_auth env s tok of
        Inl e \<Rightarrow> Inl e
      | Inr me \<Rightarrow>
          (case page_by_path (wx_faults env) (wv_db s) path of
             None \<Rightarrow> Inl (HTTP 404 ''no such page'')
           | Some p \<Rightarrow>
               (case require_access env (wv_db s) (pg_id p) (wiki_employee_group env me) False of
                  Inl e \<Rightarrow> Inl e
                | Inr _ \<Rightarrow> Inr p)))"

text \<open>Newest first; revisions stored at the same instant come newest id first here.\<close>

definition list_revisions :: "wiki_env \<Rightarrow> wiki_srv \<Rightarrow> string \<Rightarrow> string \<Rightarrow> revision_out list result" where
  "list_revisions env s tok path =
     (case readable_page env s tok path of
        Inl e \<Rightarrow> Inl e
      | Inr p \<Rightarrow>
          if wx_faults env ''list revisions'' then Inl (internal_error ''list revisions'')
          else if wx_faults env ''scan revision'' then Inl (internal_error ''scan revision'')
          else Inr (map revision_out_of (order_by (\<lambda>a b. rv_created b < rv_created a)
            (rev (filter (\<lambda>r. rv_page r = pg_id p) (wd_revs (wv_db s)))))))"

definition get_revision :: "wiki_env \<Rightarrow> wiki_srv \<Rightarrow> string \<Rightarrow> string \<Rightarrow> int \<Rightarrow> string result" where
  "get_revision env s tok path i =
     (case readable_page env s tok path of
        Inl e \<Rightarrow> Inl e
      | Inr p \<Rightarrow>
          (case (if wx_faults env ''revision row'' then None
                 else find (\<lambda>r. rv_id r = i \<and> rv_page r = pg_id p) (wd_revs (wv_db s))) of
             None \<Rightarrow> Inl (HTTP 404 ''no such revision'')
           | Some r \<Rightarrow> Inr (rv_content r)))"

record file_out =
  fo_id :: int
  fo_name :: string
  fo_size :: nat

definition list_files :: "wiki_env \<Rightarrow> wiki_srv \<Rightarrow> string \<Rightarrow> string \<Rightarrow> file_out list result" where
  "list_files env s tok path =
     (case readable_page env s tok path of
        Inl e \<Rightarrow> Inl e
      | Inr p \<Rightarrow>
          if wx_faults env ''list attachments'' then Inl (internal_error ''list attachments'')
          else if wx_faults env ''scan attachment'' then Inl (internal_error ''scan attachment'')
          else Inr (map (\<lambda>t. \<lparr>fo_id = fl_id t, fo_name = fl_name t, fo_size = fl_size t\<rparr>)
            (order_by (\<lambda>a b. fl_at b < fl_at a)
              (rev (filter (\<lambda>t. fl_page t = pg_id p) (wd_files (wv_db s)))))))"

section \<open>Searching\<close>

definition clean_word :: "(nat \<Rightarrow> bool) \<Rightarrow> string \<Rightarrow> string" where
  "clean_word letter w = concat (map snd (filter (letter \<circ> fst) (runes w)))"

definition prefix_query :: "(nat \<Rightarrow> bool) \<Rightarrow> string \<Rightarrow> string" where
  "prefix_query letter q =
     join '' & '' (map (\<lambda>w. w @ '':*'') (filter (\<lambda>w. w \<noteq> []) (map (clean_word letter) (GoStd.fields q))))"

definition clean_snippet :: "(string \<Rightarrow> string) \<Rightarrow> string \<Rightarrow> string" where
  "clean_snippet unescape t = join '' '' (GoStd.fields (unescape t))"

text \<open>\<open>regexp_replace(content, '<[^>]+>', ' ', 'g')\<close>.\<close>

function strip_tags :: "string \<Rightarrow> string" where
  "strip_tags [] = []"
| "strip_tags (c # cs) =
     (if c = CHR ''<'' \<and> cs \<noteq> [] \<and> hd cs \<noteq> CHR ''>'' \<and> CHR ''>'' \<in> set cs
      then CHR '' '' # strip_tags (tl (dropWhile (\<lambda>x. x \<noteq> CHR ''>'') cs))
      else c # strip_tags cs)"
  by pat_completeness auto
termination
  by (relation "measure length") (auto simp: less_Suc_eq_le intro: le_trans [OF diff_le_self length_dropWhile_le])

text \<open>Every page with the text of its newest revision; pages without one drop out of the join.\<close>

definition current_pages :: "wiki_db \<Rightarrow> (page_row \<times> rev_row) list" where
  "current_pages db =
     List.map_filter (\<lambda>p. map_option (\<lambda>r. (p, r)) (latest_rev db (pg_id p))) (wd_pages db)"

definition search_rows :: "wiki_env \<Rightarrow> wiki_db \<Rightarrow> string \<Rightarrow> summary list" where
  "search_rows env db tsq =
     (let body = (\<lambda>r. strip_tags (rv_content r));
          rank = (\<lambda>(p, r). ts_rank (wx_search env) tsq (pg_title p) (body r));
          hits = filter (\<lambda>(p, r). ts_match (wx_search env) tsq (pg_title p) (body r)) (current_pages db);
          best = order_by (\<lambda>a b. rank b < rank a
            \<or> (rank a = rank b \<and> wx_before env (pg_path (fst a)) (pg_path (fst b)))) hits
      in map (\<lambda>(p, r). (summary_of p)\<lparr>su_snippet := clean_snippet (wx_unescape env)
           (ts_headline (wx_search env) tsq (body r))\<rparr>) (take 100 best))"

definition search_pages :: "wiki_env \<Rightarrow> wiki_srv \<Rightarrow> string \<Rightarrow> string \<Rightarrow> summary list result" where
  "search_pages env s tok q =
     (case wiki_auth env s tok of
        Inl e \<Rightarrow> Inl e
      | Inr me \<Rightarrow>
          (let tsq = prefix_query (wx_letter env) q in
           if tsq = [] then Inr []
           else if wx_faults env ''all rules'' then Inl (internal_error ''check access'')
           else if wx_faults env ''search'' then Inl (internal_error ''search'')
           else if wx_faults env ''scan page'' then Inl (internal_error ''scan page'')
           else Inr (take 30 (filter (\<lambda>h. rule_allows (rules_of (wv_db s) (su_id h)) (wiki_employee_group env me) False)
             (search_rows env (wv_db s) tsq)))))"

record recent_out =
  re_id :: int
  re_path :: string
  re_title :: string
  re_author :: string
  re_updated :: string

definition recent_changes :: "wiki_env \<Rightarrow> wiki_srv \<Rightarrow> string \<Rightarrow> recent_out list result" where
  "recent_changes env s tok =
     (case wiki_auth env s tok of
        Inl e \<Rightarrow> Inl e
      | Inr me \<Rightarrow>
          if wx_faults env ''all rules'' then Inl (internal_error ''check access'')
          else if wx_faults env ''recent changes'' then Inl (internal_error ''recent changes'')
          else if wx_faults env ''scan page'' then Inl (internal_error ''scan page'')
          else Inr (take 10 (filter (\<lambda>h. rule_allows (rules_of (wv_db s) (re_id h)) (wiki_employee_group env me) False)
            (map (\<lambda>(p, r). \<lparr>re_id = pg_id p, re_path = pg_path p, re_title = pg_title p, re_author = rv_author r,
                re_updated = rfc3339 (rv_created r)\<rparr>)
              (take 100 (order_by (\<lambda>a b. rv_created (snd b) < rv_created (snd a)) (current_pages (wv_db s))))))))"

section \<open>The administrator's view\<close>

definition list_all_pages :: "wiki_env \<Rightarrow> wiki_srv \<Rightarrow> string \<Rightarrow> summary list result" where
  "list_all_pages env s tok =
     (case wiki_admin env s tok of
        Inl e \<Rightarrow> Inl e
      | Inr _ \<Rightarrow>
          if wx_faults env ''list pages'' then Inl (internal_error ''list pages'')
          else if wx_faults env ''scan page'' then Inl (internal_error ''scan page'')
          else Inr (map summary_of (pages_by_path env (wv_db s))))"

definition get_permissions :: "wiki_env \<Rightarrow> wiki_srv \<Rightarrow> string \<Rightarrow> string \<Rightarrow> (string \<times> string) list result" where
  "get_permissions env s tok path =
     (case wiki_admin env s tok of
        Inl e \<Rightarrow> Inl e
      | Inr _ \<Rightarrow>
          (case page_by_path (wx_faults env) (wv_db s) path of
             None \<Rightarrow> Inl (HTTP 404 ''no such page'')
           | Some p \<Rightarrow>
               if wx_faults env ''list permissions'' then Inl (internal_error ''list permissions'')
               else if wx_faults env ''scan permission'' then Inl (internal_error ''scan permission'')
               else Inr (map (\<lambda>r. (rl_group r, rl_access r))
                 (order_by (\<lambda>a b. wx_before env (rl_group a) (rl_group b)) (rules_of (wv_db s) (pg_id p))))))"

section \<open>Facts about the rules, paths and orders\<close>

lemma rule_matches_iff:
  "rule_matches rs grp w \<longleftrightarrow> (\<exists>r \<in> set rs. rl_group r = grp \<and> (w \<longrightarrow> rl_access r = ''write''))"
  by (induction rs) auto

lemma rule_allows_iff:
  "rule_allows rs grp w \<longleftrightarrow> rs = [] \<or> (\<exists>r \<in> set rs. rl_group r = grp \<and> (w \<longrightarrow> rl_access r = ''write''))"
  by (simp add: rule_allows_def rule_matches_iff)

lemma write_implies_read: "rule_allows rs grp True \<Longrightarrow> rule_allows rs grp False"
  by (auto simp: rule_allows_iff)

lemma require_access_ok:
  "require_access env db pid grp w = Inr x \<Longrightarrow> rule_allows (rules_of db pid) grp w"
  by (auto simp: require_access_def page_access_def split: if_splits)

lemma check_segments_ok:
  "check_segments segs = Inr () \<longleftrightarrow> (\<forall>seg \<in> set segs. check_segment seg = Inr ())"
  by (induction segs) (auto split: sum.splits)

definition clean_path :: "string \<Rightarrow> bool" where
  "clean_path p \<longleftrightarrow> p \<noteq> [] \<and> length p \<le> 300 \<and> (\<forall>seg \<in> set (split_chr (CHR ''/'') p). check_segment seg = Inr ())"

lemma clean_page_path_ok: "clean_page_path raw = Inr p \<Longrightarrow> clean_path p"
  by (auto simp: clean_page_path_def clean_path_def check_segments_ok Let_def split: if_splits sum.splits)

lemma page_by_path_some: "page_by_path f db path = Some p \<Longrightarrow> p \<in> set (wd_pages db) \<and> pg_path p = path"
  by (auto simp: page_by_path_def dest: find_Some_set split: if_splits)

lemma readable_page_ok:
  assumes "readable_page env s tok path = Inr p"
  shows "\<exists>me. wiki_auth env s tok = Inr me \<and> p \<in> set (wd_pages (wv_db s)) \<and> pg_path p = path
    \<and> rule_allows (rules_of (wv_db s) (pg_id p)) (wiki_employee_group env me) False"
  using assms by (auto simp: readable_page_def dest: page_by_path_some require_access_ok
      split: sum.splits option.splits)

lemma current_pages_set: "(p, r) \<in> set (current_pages db) \<Longrightarrow> p \<in> set (wd_pages db) \<and> latest_rev db (pg_id p) = Some r"
  by (auto simp: current_pages_def List.map_filter_def)

lemma latest_rev_some: "latest_rev db pid = Some r \<Longrightarrow> r \<in> set (wd_revs db) \<and> rv_page r = pid"
  by (auto simp: latest_rev_def dest: find_Some_set)

end
