(* ===== verification/WikiWrite.thy ===== *)
theory WikiWrite
  imports Wiki
begin

text \<open>
  The wiki handlers that change something: saving, renaming and deleting a page, the administrator's
  access rules, and attached files.  Saving and setting rules are one transaction each; a transaction
  that is rolled back leaves the tables as they were, but the ids it drew are used up.
\<close>

section \<open>Saving a page\<close>

definition page_exists :: "string \<Rightarrow> http_error" where
  "page_exists path = HTTP 409 (''a page already exists at '' @ path)"

definition make_rev :: "wiki_env \<Rightarrow> wiki_db \<Rightarrow> int \<Rightarrow> string \<Rightarrow> string \<Rightarrow> rev_row" where
  "make_rev env db pid content author =
     \<lparr>rv_id = wd_rev_next db, rv_page = pid, rv_content = content, rv_author = author, rv_created = wiki_stamp env\<rparr>"

text \<open>The branch for a path without a page: the page and its first revision, then the commit.\<close>

definition create_page ::
  "wiki_env \<Rightarrow> wiki_db \<Rightarrow> string \<Rightarrow> string \<Rightarrow> string \<Rightarrow> string \<Rightarrow> int option \<Rightarrow> (int \<times> int) result \<times> wiki_db" where
  "create_page env db path title content author base =
     (let f = wx_faults env; pid = wd_page_next db; db1 = db\<lparr>wd_page_next := pid + 1\<rparr>;
          db2 = db1\<lparr>wd_rev_next := wd_rev_next db + 1\<rparr>;
          page = \<lparr>pg_id = pid, pg_path = path, pg_title = title, pg_updated = wiki_stamp env\<rparr>;
          r = make_rev env db pid content author in
      if base \<noteq> None \<and> base \<noteq> Some 0 then (Inl (HTTP 409 ''this page no longer exists''), db)
      else if f ''path taken meanwhile'' then (Inl (page_exists path), db1)
      else if f ''create page'' \<or> \<not> pg_text title then (Inl (internal_error ''create page''), db)
      else if f ''save revision'' \<or> \<not> pg_text content then (Inl (internal_error ''save revision''), db1)
      else if f ''commit'' then (Inl (internal_error ''commit''), db2)
      else (Inr (pid, rv_id r), db2\<lparr>wd_pages := wd_pages db @ [page], wd_revs := wd_revs db @ [r]\<rparr>))"

definition check_base :: "string \<Rightarrow> int option \<Rightarrow> int \<Rightarrow> unit result" where
  "check_base path base latest =
     (case base of
        None \<Rightarrow> Inr ()
      | Some b \<Rightarrow>
          if b = 0 then Inl (page_exists path)
          else if b \<noteq> latest then Inl (HTTP 409 ''someone else changed this page while you were editing'')
          else Inr ())"

definition touch_page :: "int \<Rightarrow> (page_row \<Rightarrow> page_row) \<Rightarrow> wiki_db \<Rightarrow> wiki_db" where
  "touch_page pid g db = db\<lparr>wd_pages := map (\<lambda>p. if pg_id p = pid then g p else p) (wd_pages db)\<rparr>"

text \<open>The new title, then the new revision if the text differs, then the commit.\<close>

definition write_revision ::
  "wiki_env \<Rightarrow> wiki_db \<Rightarrow> page_row \<Rightarrow> rev_row \<Rightarrow> string \<Rightarrow> string \<Rightarrow> string \<Rightarrow> (int \<times> int) result \<times> wiki_db" where
  "write_revision env db p old title content author =
     (let f = wx_faults env; pid = pg_id p; now = wiki_stamp env; r = make_rev env db pid content author;
          db1 = (if title \<noteq> pg_title p
                 then touch_page pid (\<lambda>p. p\<lparr>pg_title := title, pg_updated := now\<rparr>) db else db);
          used = db\<lparr>wd_rev_next := wd_rev_next db + 1\<rparr>;
          db2 = (touch_page pid (\<lambda>p. p\<lparr>pg_updated := now\<rparr>) db1)
            \<lparr>wd_rev_next := wd_rev_next db + 1, wd_revs := wd_revs db @ [r]\<rparr> in
      if title \<noteq> pg_title p \<and> (f ''update page'' \<or> \<not> pg_text title)
      then (Inl (internal_error ''update page''), db)
      else if content = rv_content old
      then (if f ''commit'' then (Inl (internal_error ''commit''), db) else (Inr (pid, rv_id old), db1))
      else if f ''save revision'' \<or> \<not> pg_text content then (Inl (internal_error ''save revision''), db)
      else if f ''update page'' then (Inl (internal_error ''update page''), used)
      else if f ''commit'' then (Inl (internal_error ''commit''), used)
      else (Inr (pid, rv_id r), db2))"

text \<open>The branch for a path with a page, which the transaction has locked.\<close>

definition revise_page ::
  "wiki_env \<Rightarrow> wiki_db \<Rightarrow> page_row \<Rightarrow> string \<Rightarrow> string \<Rightarrow> string \<Rightarrow> string \<Rightarrow> int option
     \<Rightarrow> (int \<times> int) result \<times> wiki_db" where
  "revise_page env db p grp title content author base =
     (case require_access env db (pg_id p) grp True of
        Inl e \<Rightarrow> (Inl e, db)
      | Inr _ \<Rightarrow>
          (case (if wx_faults env ''load content'' then None else latest_rev db (pg_id p)) of
             None \<Rightarrow> (Inl (internal_error ''load content''), db)
           | Some old \<Rightarrow>
               (case check_base (pg_path p) base (rv_id old) of
                  Inl e \<Rightarrow> (Inl e, db)
                | Inr _ \<Rightarrow> write_revision env db p old title content author)))"

record save_body =
  wb_path :: string
  wb_title :: string
  wb_content :: string
  wb_base :: "int option"

definition check_title :: "string \<Rightarrow> string result" where
  "check_title raw =
     (let title = trim_space raw in
      if title = [] then Inl (HTTP 400 ''page title can't be empty'')
      else if rune_count title > 200 then Inl (HTTP 400 ''page title is too long (200 characters max)'')
      else Inr title)"

definition save_tx ::
  "wiki_env \<Rightarrow> wiki_db \<Rightarrow> string \<Rightarrow> string \<Rightarrow> string \<Rightarrow> string \<Rightarrow> int option \<Rightarrow> (int \<times> int) result \<times> wiki_db" where
  "save_tx env db me path title content base =
     (if wx_faults env ''begin transaction'' then (Inl (internal_error ''begin transaction''), db)
      else if wx_faults env ''load page'' \<or> \<not> pg_text path then (Inl (internal_error ''load page''), db)
      else case find (\<lambda>p. pg_path p = path) (wd_pages db) of
        None \<Rightarrow> create_page env db path title content me base
      | Some p \<Rightarrow> revise_page env db p (wiki_employee_group env me) title content me base)"

definition save_page ::
  "wiki_env \<Rightarrow> wiki_srv \<Rightarrow> string \<Rightarrow> save_body \<Rightarrow> (int \<times> int) result \<times> wiki_srv" where
  "save_page env s tok b =
     (case wiki_auth env s tok of
        Inl e \<Rightarrow> (Inl e, s)
      | Inr me \<Rightarrow>
          (case clean_page_path (wb_path b) of
             Inl e \<Rightarrow> (Inl e, s)
           | Inr path \<Rightarrow>
               (case check_title (wb_title b) of
                  Inl e \<Rightarrow> (Inl e, s)
                | Inr title \<Rightarrow>
                    (case save_tx env (wv_db s) me path title (wx_sanitize env (wb_content b)) (wb_base b) of
                       (r, db) \<Rightarrow> (r, s\<lparr>wv_db := db\<rparr>)))))"

section \<open>Renaming and deleting a page\<close>

text \<open>A page found by its path that the employee may write to.\<close>

definition writable_page :: "wiki_env \<Rightarrow> wiki_db \<Rightarrow> string \<Rightarrow> string \<Rightarrow> page_row result" where
  "writable_page env db me path =
     (case page_by_path (wx_faults env) db path of
        None \<Rightarrow> Inl (HTTP 404 ''no such page'')
      | Some p \<Rightarrow>
          (case require_access env db (pg_id p) (wiki_employee_group env me) True of
             Inl e \<Rightarrow> Inl e
           | Inr _ \<Rightarrow> Inr p))"

definition rename_page :: "wiki_env \<Rightarrow> wiki_srv \<Rightarrow> string \<Rightarrow> string \<Rightarrow> string \<Rightarrow> unit result \<times> wiki_srv" where
  "rename_page env s tok old_path new_path =
     (case wiki_auth env s tok of
        Inl e \<Rightarrow> (Inl e, s)
      | Inr me \<Rightarrow>
          (case clean_page_path new_path of
             Inl e \<Rightarrow> (Inl e, s)
           | Inr path \<Rightarrow>
               (case writable_page env (wv_db s) me old_path of
                  Inl e \<Rightarrow> (Inl e, s)
                | Inr p \<Rightarrow>
                    if (if wx_faults env ''target row'' then None
                        else find (\<lambda>q. pg_path q = path) (wd_pages (wv_db s))) \<noteq> None
                    then (Inl (HTTP 400 (''a page already exists at '' @ path)), s)
                    else if wx_faults env ''rename page'' \<or> \<not> pg_text path
                      \<or> path \<in> pg_path ` set (filter (\<lambda>q. pg_id q \<noteq> pg_id p) (wd_pages (wv_db s)))
                    then (Inl (internal_error ''rename page''), s)
                    else (Inr (), s\<lparr>wv_db := touch_page (pg_id p)
                      (\<lambda>p. p\<lparr>pg_path := path, pg_updated := wiki_stamp env\<rparr>) (wv_db s)\<rparr>))))"

text \<open>\<open>DELETE FROM wiki_pages\<close> with its cascades.\<close>

definition drop_page :: "int \<Rightarrow> wiki_db \<Rightarrow> wiki_db" where
  "drop_page pid db = db\<lparr>wd_pages := filter (\<lambda>p. pg_id p \<noteq> pid) (wd_pages db),
     wd_revs := filter (\<lambda>r. rv_page r \<noteq> pid) (wd_revs db),
     wd_rules := filter (\<lambda>r. rl_page r \<noteq> pid) (wd_rules db),
     wd_files := filter (\<lambda>t. fl_page t \<noteq> pid) (wd_files db)\<rparr>"

fun delete_keys :: "'o object_store \<Rightarrow> string list \<Rightarrow> 'o \<Rightarrow> 'o" where
  "delete_keys ops [] os = os"
| "delete_keys ops (k # ks) os = delete_keys ops ks (snd (os_delete ops os k))"

text \<open>The stored files of a page go first, as far as the store can be reached.\<close>

definition delete_page_files ::
  "string + 'o object_store option \<Rightarrow> wiki_env \<Rightarrow> wiki_db \<Rightarrow> 'o \<Rightarrow> int \<Rightarrow> 'o" where
  "delete_page_files s3 env db os pid =
     (case s3 of
        Inr (Some ops) \<Rightarrow>
          if wx_faults env ''attachment keys'' then os
          else delete_keys ops (map fl_key (filter (\<lambda>t. fl_page t = pid) (wd_files db))) os
      | _ \<Rightarrow> os)"

definition delete_page ::
  "string + 'o object_store option \<Rightarrow> wiki_env \<Rightarrow> wiki_srv \<Rightarrow> 'o \<Rightarrow> string \<Rightarrow> string
     \<Rightarrow> unit result \<times> wiki_srv \<times> 'o" where
  "delete_page s3 env s os tok path =
     (case wiki_auth env s tok of
        Inl e \<Rightarrow> (Inl e, s, os)
      | Inr me \<Rightarrow>
          (case writable_page env (wv_db s) me path of
             Inl e \<Rightarrow> (Inl e, s, os)
           | Inr p \<Rightarrow>
               (let os' = delete_page_files s3 env (wv_db s) os (pg_id p) in
                if wx_faults env ''delete page'' then (Inl (internal_error ''delete page''), s, os')
                else (Inr (), s\<lparr>wv_db := drop_page (pg_id p) (wv_db s)\<rparr>, os'))))"

section \<open>Access rules\<close>

text \<open>The insertions of \<open>set-wiki-permissions\<close>: the second rule for a group violates the unique key.\<close>

fun add_rules :: "faults \<Rightarrow> int \<Rightarrow> (string \<times> string) list \<Rightarrow> rule_row list \<Rightarrow> rule_row list option" where
  "add_rules f pid [] rows = Some rows"
| "add_rules f pid ((g, a) # rs) rows =
     (if f ''save permission'' \<or> \<not> pg_text g \<or> (\<exists>r \<in> set rows. rl_page r = pid \<and> rl_group r = g) then None
      else add_rules f pid rs (rows @ [\<lparr>rl_page = pid, rl_group = g, rl_access = a\<rparr>]))"

definition set_permissions ::
  "wiki_env \<Rightarrow> wiki_srv \<Rightarrow> string \<Rightarrow> string \<Rightarrow> (string \<times> string) list \<Rightarrow> unit result \<times> wiki_srv" where
  "set_permissions env s tok path rules =
     (case wiki_admin env s tok of
        Inl e \<Rightarrow> (Inl e, s)
      | Inr _ \<Rightarrow>
          (case page_by_path (wx_faults env) (wv_db s) path of
             None \<Rightarrow> (Inl (HTTP 404 ''no such page''), s)
           | Some p \<Rightarrow>
               if \<not> list_all (\<lambda>(g, a). a = ''read'' \<or> a = ''write'') rules
               then (Inl (HTTP 400 (''access must be '' @ [CHR 0x22] @ ''read'' @ [CHR 0x22] @ '' or ''
                      @ [CHR 0x22] @ ''write'' @ [CHR 0x22])), s)
               else if wx_faults env ''begin transaction'' then (Inl (internal_error ''begin transaction''), s)
               else if wx_faults env ''clear permissions'' then (Inl (internal_error ''clear permissions''), s)
               else case add_rules (wx_faults env) (pg_id p) rules
                   (filter (\<lambda>r. rl_page r \<noteq> pg_id p) (wd_rules (wv_db s))) of
                 None \<Rightarrow> (Inl (internal_error ''save permission''), s)
               | Some rows \<Rightarrow>
                   if wx_faults env ''commit'' then (Inl (internal_error ''commit''), s)
                   else (Inr (), s\<lparr>wv_db := (wv_db s)\<lparr>wd_rules := rows\<rparr>\<rparr>)))"

section \<open>Attached files\<close>

definition wiki_key :: "int \<Rightarrow> string \<Rightarrow> string \<Rightarrow> string" where
  "wiki_key pid rnd filename = ''wiki/'' @ int_str pid @ ''/'' @ hex_encode rnd @ ''-'' @ filename"

definition store_file ::
  "(string \<Rightarrow> string) \<Rightarrow> 'o object_store \<Rightarrow> wiki_env \<Rightarrow> wiki_srv \<Rightarrow> 'o \<Rightarrow> string \<Rightarrow> int \<Rightarrow> string \<Rightarrow> string
     \<Rightarrow> file_out result \<times> wiki_srv \<times> 'o" where
  "store_file sniff ops env s os me pid filename bytes =
     (let key = wiki_key pid (wx_random env) filename; db = wv_db s;
          t = \<lparr>fl_id = wd_file_next db, fl_page = pid, fl_name = filename, fl_key = key,
            fl_size = length bytes, fl_by = me, fl_at = wiki_stamp env\<rparr> in
      case os_upload ops os key bytes (upload_content_type sniff bytes) of
        (Inl _, os') \<Rightarrow> (Inl (internal_error ''upload attachment''), s, os')
      | (Inr _, os') \<Rightarrow>
          if wx_faults env ''record attachment'' \<or> \<not> pg_text filename
          then (Inl (internal_error ''record attachment''), s, os')
          else (Inr \<lparr>fo_id = fl_id t, fo_name = filename, fo_size = length bytes\<rparr>,
                s\<lparr>wv_db := db\<lparr>wd_files := wd_files db @ [t], wd_file_next := wd_file_next db + 1\<rparr>\<rparr>, os'))"

definition upload_file ::
  "(string \<Rightarrow> string) \<Rightarrow> string + 'o object_store option \<Rightarrow> wiki_env \<Rightarrow> wiki_srv \<Rightarrow> 'o \<Rightarrow> string
     \<Rightarrow> string \<Rightarrow> string \<Rightarrow> string \<Rightarrow> file_out result \<times> wiki_srv \<times> 'o" where
  "upload_file sniff s3 env s os tok path filename bytes =
     (case wiki_auth env s tok of
        Inl e \<Rightarrow> (Inl e, s, os)
      | Inr me \<Rightarrow>
          (case writable_page env (wv_db s) me path of
             Inl e \<Rightarrow> (Inl e, s, os)
           | Inr p \<Rightarrow>
               (case s3 of
                  Inl _ \<Rightarrow> (Inl (internal_error ''check backup storage''), s, os)
                | Inr None \<Rightarrow> (Inl (HTTP 400 ''install the Backup Storage module first''), s, os)
                | Inr (Some ops) \<Rightarrow>
                    if wx_faults env ''read upload'' then (Inl (HTTP 400 ''read upload''), s, os)
                    else if length bytes > max_attachment_size
                    then (Inl (HTTP 400 ''file too large''), s, os)
                    else store_file sniff ops env s os me (pg_id p) filename bytes)))"

definition file_row_of :: "faults \<Rightarrow> wiki_db \<Rightarrow> int \<Rightarrow> file_row option" where
  "file_row_of f db i = (if f ''attachment row'' then None else find (\<lambda>t. fl_id t = i) (wd_files db))"

text \<open>The row goes first; the stored file goes once no other row has its key.\<close>

definition delete_file ::
  "string + 'o object_store option \<Rightarrow> wiki_env \<Rightarrow> wiki_srv \<Rightarrow> 'o \<Rightarrow> string \<Rightarrow> int
     \<Rightarrow> unit result \<times> wiki_srv \<times> 'o" where
  "delete_file s3 env s os tok i =
     (case wiki_auth env s tok of
        Inl e \<Rightarrow> (Inl e, s, os)
      | Inr me \<Rightarrow>
          (case file_row_of (wx_faults env) (wv_db s) i of
             None \<Rightarrow> (Inl (HTTP 404 ''no such attachment''), s, os)
           | Some t \<Rightarrow>
               (case require_access env (wv_db s) (fl_page t) (wiki_employee_group env me) True of
                  Inl e \<Rightarrow> (Inl e, s, os)
                | Inr _ \<Rightarrow>
                    if wx_faults env ''delete attachment'' then (Inl (internal_error ''delete attachment''), s, os)
                    else
                      (let db = (wv_db s)\<lparr>wd_files := filter (\<lambda>t. fl_id t \<noteq> i) (wd_files (wv_db s))\<rparr>;
                           still_used = fl_key t \<in> fl_key ` set (wd_files db) in
                       (Inr (), s\<lparr>wv_db := db\<rparr>,
                        (if wx_faults env ''still used'' \<or> still_used then os
                         else case s3 of Inr (Some ops) \<Rightarrow> snd (os_delete ops os (fl_key t)) | _ \<Rightarrow> os))))))"

definition download_file ::
  "string + 'o object_store option \<Rightarrow> wiki_env \<Rightarrow> wiki_srv \<Rightarrow> 'o \<Rightarrow> string \<Rightarrow> int \<Rightarrow> download result" where
  "download_file s3 env s os tok i =
     (case wiki_auth env s tok of
        Inl e \<Rightarrow> Inl e
      | Inr me \<Rightarrow>
          (case file_row_of (wx_faults env) (wv_db s) i of
             None \<Rightarrow> Inl (HTTP 404 ''no such attachment'')
           | Some t \<Rightarrow>
               (case require_access env (wv_db s) (fl_page t) (wiki_employee_group env me) False of
                  Inl e \<Rightarrow> Inl e
                | Inr _ \<Rightarrow>
                    (case s3 of
                       Inl _ \<Rightarrow> Inl (internal_error ''check backup storage'')
                     | Inr None \<Rightarrow> Inl (HTTP 500 ''attachment storage unavailable'')
                     | Inr (Some ops) \<Rightarrow>
                         (case os_download ops os (fl_key t) of
                            Inl _ \<Rightarrow> Inl (internal_error ''download attachment'')
                          | Inr (body, ctype) \<Rightarrow>
                              Inr \<lparr>dl_type = ctype,
                                dl_disposition = (if inline_safe ctype then ''inline'' else ''attachment'')
                                  @ ''; filename='' @ [CHR 0x22] @ safe_disposition_filename (fl_name t)
                                  @ [CHR 0x22],
                                dl_body = body\<rparr>)))))"

end
