(* ===== verification/WikiProps.thy ===== *)
theory WikiProps
  imports WikiWrite
begin

text \<open>
  What the wiki guarantees.  \<open>wiki_change\<close> lists what one request may do to the tables, with the condition
  under which each is allowed; every handler performs one such change.  From it follow the invariant of
  the tables, who can change a page, that no save overwrites another unseen, and what readers get to see.
\<close>

section \<open>The changes\<close>

datatype wiki_actor = Member string string | Administrator

definition good_title :: "string \<Rightarrow> bool" where
  "good_title t \<longleftrightarrow> t \<noteq> [] \<and> rune_count t \<le> 200"

definition may_write :: "wiki_db \<Rightarrow> int \<Rightarrow> wiki_actor \<Rightarrow> bool" where
  "may_write db pid who \<longleftrightarrow> (\<exists>u g. who = Member u g \<and> rule_allows (rules_of db pid) g True)"

definition new_revs :: "wiki_db \<Rightarrow> int \<Rightarrow> wiki_actor \<Rightarrow> rev_row list \<Rightarrow> int \<Rightarrow> bool" where
  "new_revs db pid who new n \<longleftrightarrow> (new = [] \<and> wd_rev_next db \<le> n) \<or>
     (\<exists>r u g. new = [r] \<and> rv_id r = wd_rev_next db \<and> n = wd_rev_next db + 1 \<and> rv_page r = pid
        \<and> who = Member u g \<and> rv_author r = u)"

definition page_edit :: "wiki_db \<Rightarrow> int \<Rightarrow> (page_row \<Rightarrow> page_row) \<Rightarrow> bool" where
  "page_edit db pid h \<longleftrightarrow> (\<forall>q. pg_id (h q) = pg_id q)
     \<and> ((\<forall>q. pg_path (h q) = pg_path q) \<or>
        (\<exists>path. clean_path path \<and> path \<notin> pg_path ` {q \<in> set (wd_pages db). pg_id q \<noteq> pid} \<and> (\<forall>q. pg_path (h q) = path)))
     \<and> ((\<forall>q. pg_title (h q) = pg_title q) \<or> (\<exists>t. good_title t \<and> (\<forall>q. pg_title (h q) = t)))"

inductive wiki_change :: "wiki_actor \<Rightarrow> wiki_db \<Rightarrow> wiki_db \<Rightarrow> bool" for who where
  skip: "wd_page_next db \<le> a \<Longrightarrow> wd_rev_next db \<le> b \<Longrightarrow>
    wiki_change who db (db\<lparr>wd_page_next := a, wd_rev_next := b\<rparr>)"
| create: "clean_path (pg_path p) \<Longrightarrow> pg_path p \<notin> pg_path ` set (wd_pages db) \<Longrightarrow> good_title (pg_title p) \<Longrightarrow>
    pg_id p = wd_page_next db \<Longrightarrow> new_revs db (pg_id p) who [r] n \<Longrightarrow>
    wiki_change who db (db\<lparr>wd_page_next := wd_page_next db + 1, wd_rev_next := n,
      wd_pages := wd_pages db @ [p], wd_revs := wd_revs db @ [r]\<rparr>)"
| edit: "p \<in> set (wd_pages db) \<Longrightarrow> may_write db (pg_id p) who \<Longrightarrow> page_edit db (pg_id p) h \<Longrightarrow>
    new_revs db (pg_id p) who new n \<Longrightarrow>
    wiki_change who db ((touch_page (pg_id p) h db)\<lparr>wd_rev_next := n, wd_revs := wd_revs db @ new\<rparr>)"
| drop: "may_write db pid who \<Longrightarrow> wiki_change who db (drop_page pid db)"
| rules: "who = Administrator \<Longrightarrow> p \<in> set (wd_pages db) \<Longrightarrow>
    list_all (\<lambda>(g, a). a = ''read'' \<or> a = ''write'') rs \<Longrightarrow>
    add_rules f (pg_id p) rs (filter (\<lambda>r. rl_page r \<noteq> pg_id p) (wd_rules db)) = Some rows \<Longrightarrow>
    wiki_change who db (db\<lparr>wd_rules := rows\<rparr>)"
| attach: "p \<in> set (wd_pages db) \<Longrightarrow> may_write db (pg_id p) who \<Longrightarrow> fl_page t = pg_id p \<Longrightarrow>
    fl_id t = wd_file_next db \<Longrightarrow>
    wiki_change who db (db\<lparr>wd_files := wd_files db @ [t], wd_file_next := wd_file_next db + 1\<rparr>)"
| unattach: "find (\<lambda>t. fl_id t = i) (wd_files db) = Some t \<Longrightarrow> may_write db (fl_page t) who \<Longrightarrow>
    wiki_change who db (db\<lparr>wd_files := filter (\<lambda>t. fl_id t \<noteq> i) (wd_files db)\<rparr>)"

inductive_cases wiki_changeE: "wiki_change who db db'"

lemma wiki_change_refl [simp, intro]: "wiki_change who db db"
  using skip [of db "wd_page_next db" "wd_rev_next db" who] by simp

lemma wiki_change_skips [intro]:
  "wiki_change who db (db\<lparr>wd_page_next := wd_page_next db + 1\<rparr>)"
  "wiki_change who db (db\<lparr>wd_rev_next := wd_rev_next db + 1\<rparr>)"
  "wiki_change who db (db\<lparr>wd_page_next := wd_page_next db + 1, wd_rev_next := wd_rev_next db + 1\<rparr>)"
  using skip [of db "wd_page_next db + 1" "wd_rev_next db" who] skip [of db "wd_page_next db" "wd_rev_next db + 1" who]
    skip [of db "wd_page_next db + 1" "wd_rev_next db + 1" who] by simp_all

section \<open>Every handler performs one change\<close>

definition me_of :: "wiki_env \<Rightarrow> string \<Rightarrow> wiki_actor" where
  "me_of env me = Member me (wiki_employee_group env me)"

lemma check_title_ok: "check_title raw = Inr t \<Longrightarrow> good_title t"
  by (auto simp: check_title_def good_title_def Let_def split: if_splits)

lemma may_write_me: "require_access env db pid (wiki_employee_group env me) True = Inr x \<Longrightarrow> may_write db pid (me_of env me)"
  by (auto simp: may_write_def me_of_def dest: require_access_ok)

lemma writable_page_ok:
  "writable_page env db me path = Inr p \<Longrightarrow>
   p \<in> set (wd_pages db) \<and> pg_path p = path \<and> may_write db (pg_id p) (me_of env me)"
  by (auto simp: writable_page_def dest: page_by_path_some may_write_me split: option.splits sum.splits)

lemma create_page_change:
  assumes "clean_path path" "path \<notin> pg_path ` set (wd_pages db)" "good_title title"
  shows "wiki_change (me_of env me) db (snd (create_page env db path title content me base))"
  using assms
  by (auto simp: create_page_def Let_def make_rev_def new_revs_def me_of_def
      intro!: wiki_change.create [where p = "\<lparr>pg_id = wd_page_next db, pg_path = path, pg_title = title,
          pg_updated = wiki_stamp env\<rparr>", simplified])

lemma write_revision_change:
  assumes p: "p \<in> set (wd_pages db)" and w: "may_write db (pg_id p) (me_of env me)" and t: "good_title title"
  shows "wiki_change (me_of env me) db (snd (write_revision env db p old title content me))"
proof -
  let ?now = "wiki_stamp env"
  have title: "wiki_change (me_of env me) db (touch_page (pg_id p) (\<lambda>p. p\<lparr>pg_title := title, pg_updated := ?now\<rparr>) db)"
    using edit [OF p w, of "\<lambda>p. p\<lparr>pg_title := title, pg_updated := ?now\<rparr>" "[]" "wd_rev_next db"] t
    by (auto simp: page_edit_def new_revs_def touch_page_def)
  have rev: "new_revs db (pg_id p) (me_of env me) [make_rev env db (pg_id p) content me] (wd_rev_next db + 1)"
    by (simp add: new_revs_def make_rev_def me_of_def)
  have body: "wiki_change (me_of env me) db ((touch_page (pg_id p) (\<lambda>p. p\<lparr>pg_updated := ?now\<rparr>) db)
      \<lparr>wd_rev_next := wd_rev_next db + 1, wd_revs := wd_revs db @ [make_rev env db (pg_id p) content me]\<rparr>)"
    by (rule edit [OF p w _ rev]) (simp add: page_edit_def)
  have "wiki_change (me_of env me) db
      ((touch_page (pg_id p) ((\<lambda>p. p\<lparr>pg_updated := ?now\<rparr>) \<circ> (\<lambda>p. p\<lparr>pg_title := title, pg_updated := ?now\<rparr>)) db)
      \<lparr>wd_rev_next := wd_rev_next db + 1, wd_revs := wd_revs db @ [make_rev env db (pg_id p) content me]\<rparr>)"
    using t by (intro edit [OF p w _ rev]) (auto simp: page_edit_def)
  then have both: "wiki_change (me_of env me) db ((touch_page (pg_id p) (\<lambda>p. p\<lparr>pg_updated := ?now\<rparr>)
      (touch_page (pg_id p) (\<lambda>p. p\<lparr>pg_title := title, pg_updated := ?now\<rparr>) db))
      \<lparr>wd_rev_next := wd_rev_next db + 1, wd_revs := wd_revs db @ [make_rev env db (pg_id p) content me]\<rparr>)"
    by (simp add: touch_page_def comp_def if_distrib cong: if_cong)
  show ?thesis using title body both by (auto simp: write_revision_def Let_def)
qed

lemma save_tx_change:
  assumes "clean_path path" "good_title title"
  shows "wiki_change (me_of env me) db (snd (save_tx env db me path title content base))"
proof (cases "find (\<lambda>p. pg_path p = path) (wd_pages db)")
  case None
  then have "path \<notin> pg_path ` set (wd_pages db)" by (auto simp: find_None_set)
  then show ?thesis using None create_page_change assms by (simp add: save_tx_def)
next
  case (Some p)
  then have p: "p \<in> set (wd_pages db)" by (auto dest: find_Some_set)
  show ?thesis
    using Some write_revision_change [OF p may_write_me assms(2)]
    by (simp add: save_tx_def revise_page_def split: sum.split option.split)
qed

lemma save_page_change:
  "wv_db (snd (save_page env s tok b)) = wv_db s \<or> (\<exists>me. wiki_auth env s tok = Inr me \<and>
    wiki_change (me_of env me) (wv_db s) (wv_db (snd (save_page env s tok b))))"
proof (cases "wiki_auth env s tok")
  case (Inr me)
  show ?thesis
  proof (cases "clean_page_path (wb_path b)")
    case path: (Inr path)
    show ?thesis
    proof (cases "check_title (wb_title b)")
      case title: (Inr title)
      show ?thesis
        using Inr save_tx_change [OF clean_page_path_ok [OF path] check_title_ok [OF title],
            of env me "wv_db s" "wx_sanitize env (wb_content b)" "wb_base b"]
        by (cases "save_tx env (wv_db s) me path title (wx_sanitize env (wb_content b)) (wb_base b)")
          (simp add: save_page_def path title)
    qed (simp add: save_page_def Inr path)
  qed (simp add: save_page_def Inr)
qed (simp add: save_page_def)

lemma rename_page_change:
  "wv_db (snd (rename_page env s tok old_path new_path)) = wv_db s \<or> (\<exists>me. wiki_auth env s tok = Inr me \<and>
    wiki_change (me_of env me) (wv_db s) (wv_db (snd (rename_page env s tok old_path new_path))))"
proof (cases "wiki_auth env s tok")
  case (Inr me)
  show ?thesis
  proof (cases "clean_page_path new_path")
    case path: (Inr path)
    show ?thesis
    proof (cases "writable_page env (wv_db s) me old_path")
      case (Inr p)
      note p = writable_page_ok [OF Inr]
      have step: "path \<notin> pg_path ` set (filter (\<lambda>q. pg_id q \<noteq> pg_id p) (wd_pages (wv_db s))) \<Longrightarrow>
        wiki_change (me_of env me) (wv_db s)
          (touch_page (pg_id p) (\<lambda>p. p\<lparr>pg_path := path, pg_updated := wiki_stamp env\<rparr>) (wv_db s))"
        using wiki_change.edit [of p "wv_db s" "me_of env me" "\<lambda>p. p\<lparr>pg_path := path, pg_updated := wiki_stamp env\<rparr>"
            "[]" "wd_rev_next (wv_db s)"] p clean_page_path_ok [OF path]
        by (force simp: page_edit_def new_revs_def touch_page_def)
      show ?thesis
        using \<open>wiki_auth env s tok = Inr me\<close> step by (simp add: rename_page_def path Inr)
    qed (simp add: rename_page_def Inr path)
  qed (simp add: rename_page_def Inr)
qed (simp add: rename_page_def)

lemma delete_page_change:
  "wv_db (fst (snd (delete_page s3 env s os tok path))) = wv_db s \<or> (\<exists>me. wiki_auth env s tok = Inr me \<and>
    wiki_change (me_of env me) (wv_db s) (wv_db (fst (snd (delete_page s3 env s os tok path)))))"
  by (auto simp: delete_page_def Let_def split: sum.splits intro: wiki_change.drop dest: writable_page_ok)

lemma set_permissions_change:
  "wv_db (snd (set_permissions env s tok path rs)) = wv_db s \<or> (\<exists>e. wiki_admin env s tok = Inr e \<and>
    wiki_change Administrator (wv_db s) (wv_db (snd (set_permissions env s tok path rs))))"
  by (auto simp: set_permissions_def split: sum.splits option.splits intro: wiki_change.rules dest!: page_by_path_some)

lemma upload_file_change:
  "wv_db (fst (snd (upload_file sniff s3 env s os tok path name bytes))) = wv_db s \<or> (\<exists>me. wiki_auth env s tok = Inr me \<and>
    wiki_change (me_of env me) (wv_db s) (wv_db (fst (snd (upload_file sniff s3 env s os tok path name bytes)))))"
proof -
  have "wv_db (fst (snd (store_file sniff ops env s os me (pg_id p) name bytes))) = wv_db s \<or>
      wiki_change (me_of env me) (wv_db s) (wv_db (fst (snd (store_file sniff ops env s os me (pg_id p) name bytes))))"
    if "writable_page env (wv_db s) me path = Inr p" for ops me p
    using writable_page_ok [OF that]
    by (auto simp: store_file_def Let_def split: prod.splits sum.splits intro!: wiki_change.attach)
  then show ?thesis
    by (auto simp: upload_file_def split: sum.splits option.splits)
qed

lemma delete_file_change:
  "wv_db (fst (snd (delete_file s3 env s os tok i))) = wv_db s \<or> (\<exists>me. wiki_auth env s tok = Inr me \<and>
    wiki_change (me_of env me) (wv_db s) (wv_db (fst (snd (delete_file s3 env s os tok i)))))"
  by (auto simp: delete_file_def file_row_of_def Let_def split: sum.splits option.splits if_splits
      intro!: wiki_change.unattach dest: may_write_me)

section \<open>The invariant of the tables\<close>

definition pages_ok :: "wiki_db \<Rightarrow> bool" where
  "pages_ok db \<longleftrightarrow> sorted_wrt (<) (map pg_id (wd_pages db)) \<and> distinct (map pg_path (wd_pages db))
     \<and> (\<forall>p \<in> set (wd_pages db). pg_id p < wd_page_next db \<and> clean_path (pg_path p) \<and> good_title (pg_title p))"

definition revs_ok :: "wiki_db \<Rightarrow> bool" where
  "revs_ok db \<longleftrightarrow> sorted_wrt (<) (map rv_id (wd_revs db)) \<and> (\<forall>r \<in> set (wd_revs db). rv_id r < wd_rev_next db)
     \<and> rv_page ` set (wd_revs db) = pg_id ` set (wd_pages db)"

definition rules_ok :: "wiki_db \<Rightarrow> bool" where
  "rules_ok db \<longleftrightarrow> distinct (map (\<lambda>r. (rl_page r, rl_group r)) (wd_rules db))
     \<and> (\<forall>r \<in> set (wd_rules db). rl_page r \<in> pg_id ` set (wd_pages db) \<and> rl_access r \<in> {''read'', ''write''})"

definition files_ok :: "wiki_db \<Rightarrow> bool" where
  "files_ok db \<longleftrightarrow> sorted_wrt (<) (map fl_id (wd_files db))
     \<and> (\<forall>t \<in> set (wd_files db). fl_id t < wd_file_next db \<and> fl_page t \<in> pg_id ` set (wd_pages db))"

definition wiki_inv :: "wiki_db \<Rightarrow> bool" where
  "wiki_inv db \<longleftrightarrow> pages_ok db \<and> revs_ok db \<and> rules_ok db \<and> files_ok db"

lemmas wiki_inv_defs = wiki_inv_def pages_ok_def revs_ok_def rules_ok_def files_ok_def

lemma empty_wiki_inv: "wiki_inv empty_wiki_db"
  by (simp add: wiki_inv_defs empty_wiki_db_def)

lemma page_id_unique: "wiki_inv db \<Longrightarrow> p \<in> set (wd_pages db) \<Longrightarrow> q \<in> set (wd_pages db) \<Longrightarrow> pg_id p = pg_id q \<Longrightarrow> p = q"
  using distinct_key_eq [of pg_id "wd_pages db"] by (auto simp: wiki_inv_defs strict_sorted_iff)

lemma touch_ids: "(\<forall>q. pg_id (h q) = pg_id q) \<Longrightarrow> map pg_id (wd_pages (touch_page pid h db)) = map pg_id (wd_pages db)"
  by (simp add: touch_page_def)

lemma pages_ok_touch:
  assumes ok: "pages_ok db" and e: "page_edit db pid h" and p: "p \<in> set (wd_pages db)" "pg_id p = pid"
  shows "pages_ok (touch_page pid h db)"
proof -
  let ?g = "\<lambda>q. if pg_id q = pid then h q else q"
  have ids: "\<forall>q. pg_id (h q) = pg_id q" using e by (simp add: page_edit_def)
  have inj: "inj_on pg_id (set (wd_pages db))" "inj_on pg_path (set (wd_pages db))"
    using ok unfolding pages_ok_def strict_sorted_iff distinct_map by blast+
  have e_path: "(\<forall>q. pg_path (h q) = pg_path q) \<or> (\<exists>path. clean_path path
      \<and> path \<notin> pg_path ` {q \<in> set (wd_pages db). pg_id q \<noteq> pid} \<and> (\<forall>q. pg_path (h q) = path))"
    and e_title: "(\<forall>q. pg_title (h q) = pg_title q) \<or> (\<exists>t. good_title t \<and> (\<forall>q. pg_title (h q) = t))"
    using e unfolding page_edit_def by blast+
  have moved: "pg_path (h q) \<noteq> pg_path r"
    if q: "q \<in> set (wd_pages db)" "r \<in> set (wd_pages db)" "pg_id q = pid" "pg_id r \<noteq> pid" for q r
  proof -
    have "q \<noteq> r" using q(3,4) by blast
    then have "pg_path q \<noteq> pg_path r" using inj_onD [OF inj(2) _ q(1,2)] by blast
    moreover have "pg_path r \<in> pg_path ` {q \<in> set (wd_pages db). pg_id q \<noteq> pid}" using q by blast
    ultimately show ?thesis using e_path by (elim disjE exE conjE) force+
  qed
  have path: "pg_path (?g q) \<noteq> pg_path (?g r)"
    if q: "q \<in> set (wd_pages db)" "r \<in> set (wd_pages db)" "q \<noteq> r" for q r
  proof -
    have ids: "pg_id q \<noteq> pg_id r" and paths: "pg_path q \<noteq> pg_path r"
      using inj_onD [OF inj(1) _ q(1,2)] inj_onD [OF inj(2) _ q(1,2)] q(3) by blast+
    then show ?thesis
      using moved [OF q(1,2)] moved [OF q(2,1)] by (cases "pg_id q = pid"; cases "pg_id r = pid") auto
  qed
  have "distinct (wd_pages db)" using ok by (auto simp: pages_ok_def distinct_map)
  then have "distinct (map (\<lambda>q. pg_path (?g q)) (wd_pages db))" by (rule distinct_mapI) (rule path)
  then have dist: "distinct (map pg_path (map ?g (wd_pages db)))" by (simp add: comp_def)
  have sorted: "sorted_wrt (<) (map pg_id (wd_pages (touch_page pid h db)))"
    unfolding touch_ids [OF ids] using ok by (simp add: pages_ok_def)
  have each: "pg_id (?g q) < wd_page_next db \<and> clean_path (pg_path (?g q)) \<and> good_title (pg_title (?g q))"
    if "q \<in> set (wd_pages db)" for q
  proof (cases "pg_id q = pid")
    case True
    have q: "pg_id q < wd_page_next db" "clean_path (pg_path q)" "good_title (pg_title q)"
      using ok that by (simp_all add: pages_ok_def)
    have "clean_path (pg_path (h q))" using e_path q(2) by (elim disjE exE conjE) simp_all
    moreover have "good_title (pg_title (h q))" using e_title q(3) by (elim disjE exE conjE) simp_all
    ultimately show ?thesis using True q(1) ids by simp
  qed (use ok that in \<open>simp add: pages_ok_def\<close>)
  have pages: "wd_pages (touch_page pid h db) = map ?g (wd_pages db)"
    "wd_page_next (touch_page pid h db) = wd_page_next db"
    by (simp_all add: touch_page_def)
  have "\<forall>q \<in> set (map ?g (wd_pages db)). pg_id q < wd_page_next db \<and> clean_path (pg_path q) \<and> good_title (pg_title q)"
    unfolding list.set_map ball_simps using each by blast
  then show ?thesis using sorted dist unfolding pages_ok_def pages by blast
qed

lemma wiki_inv_create:
  assumes inv: "wiki_inv db" and p: "clean_path (pg_path p)" "pg_path p \<notin> pg_path ` set (wd_pages db)"
    "good_title (pg_title p)" "pg_id p = wd_page_next db" and r: "new_revs db (pg_id p) who [r] n"
  shows "wiki_inv (db\<lparr>wd_page_next := wd_page_next db + 1, wd_rev_next := n,
      wd_pages := wd_pages db @ [p], wd_revs := wd_revs db @ [r]\<rparr>)"
    (is "wiki_inv ?db'")
proof -
  have "pages_ok ?db'" using inv p by (force simp: wiki_inv_def pages_ok_def sorted_wrt_append)
  moreover have "revs_ok ?db'" using inv r by (auto simp: wiki_inv_def revs_ok_def new_revs_def sorted_wrt_append)
  moreover have "rules_ok ?db'" "files_ok ?db'" using inv by (auto simp: wiki_inv_def rules_ok_def files_ok_def)
  ultimately show ?thesis by (simp add: wiki_inv_def)
qed

lemma wiki_inv_edit:
  assumes inv: "wiki_inv db" and p: "p \<in> set (wd_pages db)" and e: "page_edit db (pg_id p) h"
    and r: "new_revs db (pg_id p) who new n"
  shows "wiki_inv ((touch_page (pg_id p) h db)\<lparr>wd_rev_next := n, wd_revs := wd_revs db @ new\<rparr>)"
    (is "wiki_inv ?db'")
proof -
  have ids: "pg_id ` set (wd_pages (touch_page (pg_id p) h db)) = pg_id ` set (wd_pages db)"
    using touch_ids [of h "pg_id p" db] e by (metis list.set_map page_edit_def)
  have rest: "wd_rules (touch_page (pg_id p) h db) = wd_rules db" "wd_files (touch_page (pg_id p) h db) = wd_files db"
    "wd_file_next (touch_page (pg_id p) h db) = wd_file_next db"
    by (simp_all add: touch_page_def)
  have "pages_ok db" using inv by (simp add: wiki_inv_def)
  from pages_ok_touch [OF this e p refl] have "pages_ok ?db'" by (simp add: pages_ok_def)
  moreover have "revs_ok ?db'"
  proof -
    have rk: "revs_ok db" using inv by (simp add: wiki_inv_def)
    have mem: "pg_id p \<in> rv_page ` set (wd_revs db)" using rk p by (simp add: revs_ok_def)
    show ?thesis
      using r unfolding new_revs_def
    proof (elim disjE exE conjE)
      fix q u g assume q: "new = [q]" "rv_id q = wd_rev_next db" "n = wd_rev_next db + 1" "rv_page q = pg_id p"
      then show ?thesis using rk mem by (auto simp: revs_ok_def ids sorted_wrt_append)
    qed (use rk in \<open>force simp: revs_ok_def ids\<close>)
  qed
  ultimately show ?thesis using inv by (simp add: wiki_inv_def rules_ok_def files_ok_def ids rest)
qed

lemma wiki_inv_drop:
  assumes inv: "wiki_inv db"
  shows "wiki_inv (drop_page pid db)"
proof -
  have "pages_ok (drop_page pid db)"
    using inv by (auto simp: wiki_inv_def pages_ok_def drop_page_def sorted_wrt_map_filter distinct_map_filter')
  moreover have "revs_ok (drop_page pid db)"
    using inv by (fastforce simp: wiki_inv_def revs_ok_def drop_page_def sorted_wrt_map_filter image_iff)
  moreover have "rules_ok (drop_page pid db)" "files_ok (drop_page pid db)"
    using inv by (auto simp: wiki_inv_def rules_ok_def files_ok_def drop_page_def sorted_wrt_map_filter
        distinct_map_filter')
  ultimately show ?thesis by (simp add: wiki_inv_def)
qed

lemma add_rules_ok:
  "add_rules f pid rs rows = Some rows' \<Longrightarrow> list_all (\<lambda>(g, a). a = ''read'' \<or> a = ''write'') rs \<Longrightarrow>
   distinct (map (\<lambda>r. (rl_page r, rl_group r)) rows) \<Longrightarrow>
   distinct (map (\<lambda>r. (rl_page r, rl_group r)) rows') \<and>
   (\<forall>r \<in> set rows'. r \<in> set rows \<or> (rl_page r = pid \<and> rl_access r \<in> {''read'', ''write''}))"
proof (induction f pid rs rows rule: add_rules.induct)
  case (2 f pid g a rs rows)
  then show ?case by (fastforce split: if_splits)
qed simp

lemma wiki_change_inv [state_inv]: "wiki_change who db db' \<Longrightarrow> wiki_inv db \<Longrightarrow> wiki_inv db'"
proof (induction rule: wiki_change.induct)
  case (skip db a b)
  then show ?case by (force simp: wiki_inv_defs)
next
  case (create p db r n)
  then show ?case by (intro wiki_inv_create)
next
  case (edit p db h new n)
  then show ?case by (intro wiki_inv_edit)
next
  case (drop db pid)
  then show ?case by (intro wiki_inv_drop)
next
  case (rules p db rs f rows)
  note inv = rules(5)
  have "distinct (map (\<lambda>r. (rl_page r, rl_group r)) (filter (\<lambda>r. rl_page r \<noteq> pg_id p) (wd_rules db)))"
    using inv by (auto simp: wiki_inv_defs intro: distinct_map_filter')
  from add_rules_ok [OF rules(4,3) this] rules(2) inv show ?case by (auto simp: wiki_inv_defs)
next
  case (attach p db t)
  then show ?case by (fastforce simp: wiki_inv_defs sorted_wrt_append)
next
  case (unattach i db t)
  then show ?case by (auto simp: wiki_inv_defs sorted_wrt_map_filter)
qed

section \<open>Requests\<close>

datatype 'o wiki_request =
    W_save wiki_env string save_body
  | W_rename wiki_env string string string
  | W_delete "string + 'o object_store option" wiki_env string string
  | W_rules wiki_env string string "(string \<times> string) list"
  | W_upload "string \<Rightarrow> string" "string + 'o object_store option" wiki_env string string string string
  | W_unfile "string + 'o object_store option" wiki_env string int

fun wiki_step :: "'o wiki_request \<Rightarrow> wiki_srv \<times> 'o \<Rightarrow> wiki_srv \<times> 'o" where
  "wiki_step (W_save env tok b) (s, os) = (snd (save_page env s tok b), os)"
| "wiki_step (W_rename env tok a b) (s, os) = (snd (rename_page env s tok a b), os)"
| "wiki_step (W_delete s3 env tok path) (s, os) = snd (delete_page s3 env s os tok path)"
| "wiki_step (W_rules env tok path rs) (s, os) = (snd (set_permissions env s tok path rs), os)"
| "wiki_step (W_upload sniff s3 env tok path n bs) (s, os) = snd (upload_file sniff s3 env s os tok path n bs)"
| "wiki_step (W_unfile s3 env tok i) (s, os) = snd (delete_file s3 env s os tok i)"

definition employee_of :: "wiki_env \<Rightarrow> wiki_srv \<Rightarrow> string \<Rightarrow> wiki_actor option" where
  "employee_of env s tok = (case wiki_auth env s tok of Inl _ \<Rightarrow> None | Inr me \<Rightarrow> Some (me_of env me))"

text \<open>Who makes a request: an employee with the group the directory names, the administrator, or nobody.\<close>

fun requester :: "'o wiki_request \<Rightarrow> wiki_srv \<Rightarrow> wiki_actor option" where
  "requester (W_save env tok b) s = employee_of env s tok"
| "requester (W_rename env tok a b) s = employee_of env s tok"
| "requester (W_delete s3 env tok path) s = employee_of env s tok"
| "requester (W_rules env tok path rs) s =
     (case wiki_admin env s tok of Inl _ \<Rightarrow> None | Inr _ \<Rightarrow> Some Administrator)"
| "requester (W_upload sniff s3 env tok path n bs) s = employee_of env s tok"
| "requester (W_unfile s3 env tok i) s = employee_of env s tok"

lemma wiki_step_change:
  "wv_db (fst (wiki_step r (s, os))) = wv_db s \<or>
   (\<exists>who. requester r s = Some who \<and> wiki_change who (wv_db s) (wv_db (fst (wiki_step r (s, os)))))"
proof (cases r)
  case (W_save env tok b)
  then show ?thesis using save_page_change [of env s tok b] by (auto simp: employee_of_def)
next
  case (W_rename env tok a b)
  then show ?thesis using rename_page_change [of env s tok a b] by (auto simp: employee_of_def)
next
  case (W_delete s3 env tok path)
  then show ?thesis using delete_page_change [of s3 env s os tok path] by (auto simp: employee_of_def)
next
  case (W_rules env tok path rs)
  then show ?thesis using set_permissions_change [of env s tok path rs] by auto
next
  case (W_upload sniff s3 env tok path n bs)
  then show ?thesis using upload_file_change [of sniff s3 env s os tok path n bs] by (auto simp: employee_of_def)
next
  case (W_unfile s3 env tok i)
  then show ?thesis using delete_file_change [of s3 env s os tok i] by (auto simp: employee_of_def)
qed

lemma wiki_step_inv [state_inv]: "wiki_inv (wv_db s) \<Longrightarrow> wiki_inv (wv_db (fst (wiki_step r (s, os))))"
  using wiki_step_change [of r s os] wiki_change_inv by auto

fun wiki_requests :: "'o wiki_request list \<Rightarrow> wiki_srv \<times> 'o \<Rightarrow> wiki_srv \<times> 'o" where
  "wiki_requests [] s = s"
| "wiki_requests (r # rs) s = wiki_requests rs (wiki_step r s)"

lemma wiki_requests_inv: "wiki_inv (wv_db (fst s)) \<Longrightarrow> wiki_inv (wv_db (fst (wiki_requests rs s)))"
proof (induction rs arbitrary: s)
  case (Cons r rs)
  then show ?case using wiki_step_inv [of "fst s" r "snd s"] by simp
qed simp

text \<open>Whatever requests are made in whatever order and whatever fails: page ids and paths are unique, every path
  is clean and every title between 1 and 200 characters long, every page has a revision, no revision, rule
  or file belongs to a page that is gone, and a group has at most one rule for a page, for reading or
  writing.\<close>

theorem wiki_tables_invariant:
  assumes "wv_db (fst s) = empty_wiki_db"
  shows "distinct (map pg_id (wd_pages (wv_db (fst (wiki_requests rs s)))))
    \<and> distinct (map pg_path (wd_pages (wv_db (fst (wiki_requests rs s)))))
    \<and> (\<forall>p \<in> set (wd_pages (wv_db (fst (wiki_requests rs s)))). clean_path (pg_path p) \<and> good_title (pg_title p)
         \<and> latest_rev (wv_db (fst (wiki_requests rs s))) (pg_id p) \<noteq> None)
    \<and> distinct (map (\<lambda>r. (rl_page r, rl_group r)) (wd_rules (wv_db (fst (wiki_requests rs s)))))
    \<and> rl_access ` set (wd_rules (wv_db (fst (wiki_requests rs s)))) \<subseteq> {''read'', ''write''}
    \<and> rv_page ` set (wd_revs (wv_db (fst (wiki_requests rs s)))) \<union> rl_page ` set (wd_rules (wv_db (fst (wiki_requests rs s))))
        \<union> fl_page ` set (wd_files (wv_db (fst (wiki_requests rs s))))
      \<subseteq> pg_id ` set (wd_pages (wv_db (fst (wiki_requests rs s))))"
proof -
  define db where "db = wv_db (fst (wiki_requests rs s))"
  have inv: "wiki_inv db"
    using wiki_requests_inv [of s rs] assms empty_wiki_inv by (simp add: db_def)
  have "latest_rev db (pg_id p) \<noteq> None" if "p \<in> set (wd_pages db)" for p
  proof -
    have "pg_id p \<in> rv_page ` set (wd_revs db)" using inv that by (simp add: wiki_inv_def revs_ok_def)
    then show ?thesis by (auto simp: latest_rev_def find_None_set)
  qed
  moreover have "pages_ok db" "revs_ok db" "rules_ok db" "files_ok db" using inv by (simp_all add: wiki_inv_def)
  ultimately show ?thesis
    unfolding db_def [symmetric] pages_ok_def revs_ok_def rules_ok_def files_ok_def strict_sorted_iff by blast
qed

section \<open>Who can change a page\<close>

definition history :: "wiki_db \<Rightarrow> int \<Rightarrow> rev_row list" where
  "history db pid = filter (\<lambda>r. rv_page r = pid) (wd_revs db)"

definition files_of :: "wiki_db \<Rightarrow> int \<Rightarrow> file_row list" where
  "files_of db pid = filter (\<lambda>t. fl_page t = pid) (wd_files db)"

lemma add_rules_others: "add_rules f pid rs rows = Some rows' \<Longrightarrow> q \<noteq> pid \<Longrightarrow>
  filter (\<lambda>r. rl_page r = q) rows' = filter (\<lambda>r. rl_page r = q) rows"
  by (induction f pid rs rows rule: add_rules.induct) (auto split: if_splits)

lemma unfile_other:
  assumes "wiki_inv db" "find (\<lambda>t. fl_id t = i) (wd_files db) = Some t" "fl_page t \<noteq> pid"
  shows "filter (\<lambda>t. fl_page t = pid) (filter (\<lambda>t. fl_id t \<noteq> i) (wd_files db)) = filter (\<lambda>t. fl_page t = pid) (wd_files db)"
proof -
  have t: "t \<in> set (wd_files db)" "fl_id t = i" using assms(2) by (auto dest: find_Some_set)
  have "fl_id u \<noteq> i" if "u \<in> set (wd_files db)" "fl_page u = pid" for u
  proof
    assume "fl_id u = i"
    moreover have "distinct (map fl_id (wd_files db))" using assms(1) by (simp add: wiki_inv_def files_ok_def strict_sorted_iff)
    ultimately have "t = u" using distinct_key_eq t that(1) by metis
    then show False using that(2) assms(3) by simp
  qed
  then show ?thesis unfolding filter_filter by (intro filter_cong) auto
qed

lemma wiki_change_guard:
  assumes "wiki_change who db db'" "wiki_inv db" "p \<in> set (wd_pages db)" "\<not> may_write db (pg_id p) who"
  shows "p \<in> set (wd_pages db') \<and> history db' (pg_id p) = history db (pg_id p) \<and> files_of db' (pg_id p) = files_of db (pg_id p)"
  using assms
proof (induction rule: wiki_change.induct)
  case (edit q db h new n)
  then have "pg_id q \<noteq> pg_id p" by metis
  then show ?case using edit by (auto simp: touch_page_def history_def files_of_def new_revs_def)
next
  case (create q db r n)
  then have "pg_id q \<noteq> pg_id p" by (auto simp: wiki_inv_def pages_ok_def)
  then show ?case using create by (auto simp: history_def files_of_def new_revs_def)
next
  case (unattach i db t)
  then have "fl_page t \<noteq> pg_id p" by metis
  then show ?case using unfile_other [OF unattach(3) unattach(1)] unattach by (simp add: history_def files_of_def)
next
  case (attach q db t)
  then have "fl_page t \<noteq> pg_id p" by metis
  then show ?case using attach by (simp add: history_def files_of_def)
next
  case (drop db pid)
  then have "pg_id p \<noteq> pid" by metis
  then show ?case using drop by (auto simp: history_def files_of_def drop_page_def intro!: filter_cong)
qed (simp_all add: history_def files_of_def)

lemma wiki_change_rules:
  assumes "wiki_change who db db'" "wiki_inv db" "p \<in> set (wd_pages db)" "who \<noteq> Administrator"
    "pg_id p \<in> pg_id ` set (wd_pages db')"
  shows "rules_of db' (pg_id p) = rules_of db (pg_id p)"
  using assms
proof (induction rule: wiki_change.induct)
  case (drop db pid)
  then have "pg_id p \<noteq> pid" by (auto simp: drop_page_def)
  then show ?case by (auto simp: rules_of_def drop_page_def intro!: filter_cong)
qed (auto simp: rules_of_def touch_page_def)

text \<open>C26: A page, its history and its files are left as they are by every request that is not made by an employee
  whose group may write to the page, and its access rules by every request but the administrator's.\<close>

theorem writers_only:
  assumes "wiki_inv (wv_db s)" "p \<in> set (wd_pages (wv_db s))"
  shows "(\<not> (\<exists>u g. requester r s = Some (Member u g) \<and> rule_allows (rules_of (wv_db s) (pg_id p)) g True) \<longrightarrow>
       p \<in> set (wd_pages (wv_db (fst (wiki_step r (s, os)))))
       \<and> history (wv_db (fst (wiki_step r (s, os)))) (pg_id p) = history (wv_db s) (pg_id p)
       \<and> files_of (wv_db (fst (wiki_step r (s, os)))) (pg_id p) = files_of (wv_db s) (pg_id p)) \<and>
    (requester r s \<noteq> Some Administrator \<and> pg_id p \<in> pg_id ` set (wd_pages (wv_db (fst (wiki_step r (s, os))))) \<longrightarrow>
       rules_of (wv_db (fst (wiki_step r (s, os)))) (pg_id p) = rules_of (wv_db s) (pg_id p))"
proof (cases "wv_db (fst (wiki_step r (s, os))) = wv_db s")
  case False
  then obtain who where who: "requester r s = Some who" "wiki_change who (wv_db s) (wv_db (fst (wiki_step r (s, os))))"
    using wiki_step_change by metis
  show ?thesis
    using wiki_change_guard [OF who(2) assms] wiki_change_rules [OF who(2) assms] who(1) by (simp add: may_write_def)
qed (use assms in simp)

end
