(* ===== verification/WikiHistory.thy ===== *)
theory WikiHistory
  imports WikiProps GoText
begin

text \<open>
  The history of a wiki page and its readers: revisions are only ever appended, a save built on an old
  revision is refused, readers see the pages their group may read and no others, and a stored file outlives
  its row only while another row needs it.
\<close>

section \<open>Revisions\<close>

lemma history_append: "history (db\<lparr>wd_revs := wd_revs db @ new\<rparr>) pid = history db pid @ filter (\<lambda>r. rv_page r = pid) new"
  by (simp add: history_def)

lemma history_touch [simp]: "history (touch_page pid h db) = history db"
  by (simp add: history_def touch_page_def fun_eq_iff)

lemma latest_rev_history: "latest_rev db pid = (case history db pid of [] \<Rightarrow> None | rs \<Rightarrow> Some (last rs))"
proof -
  have "find P (rev xs) = (case filter P xs of [] \<Rightarrow> None | ys \<Rightarrow> Some (last ys))" for P and xs :: "rev_row list"
    by (induction xs rule: rev_induct) (auto split: list.splits)
  then show ?thesis by (simp add: latest_rev_def history_def)
qed

lemma wiki_change_history:
  assumes "wiki_change who db db'" "wiki_inv db" "pg_id p \<in> pg_id ` set (wd_pages db')" "p \<in> set (wd_pages db)"
  shows "\<exists>new. history db' (pg_id p) = history db (pg_id p) @ new
    \<and> (\<forall>r \<in> set new. \<exists>g. who = Member (rv_author r) g \<and> rv_id r = wd_rev_next db)"
  using assms
proof (induction rule: wiki_change.induct)
  case (edit q db h new n)
  then show ?case
    by (intro exI [of _ "filter (\<lambda>r. rv_page r = pg_id p) new"]) (auto simp: history_def touch_page_def new_revs_def)
next
  case (create q db r n)
  then have "pg_id q \<noteq> pg_id p" by (auto simp: wiki_inv_def pages_ok_def)
  then show ?case using create by (intro exI [of _ "[]"]) (auto simp: history_def new_revs_def)
next
  case (drop db pid)
  then have "pg_id p \<noteq> pid" by (auto simp: drop_page_def)
  then show ?case by (intro exI [of _ "[]"]) (auto simp: history_def drop_page_def intro!: filter_cong)
qed (auto simp: history_def)

text \<open>The history of a page that is still there only grows at its end: no request changes, removes or reorders an
  earlier revision, and a new one carries the name of the employee who made the request.\<close>

theorem history_append_only:
  assumes "wiki_inv (wv_db s)" "p \<in> set (wd_pages (wv_db s))"
    and "pg_id p \<in> pg_id ` set (wd_pages (wv_db (fst (wiki_step r (s, os)))))"
  shows "\<exists>new. history (wv_db (fst (wiki_step r (s, os)))) (pg_id p) = history (wv_db s) (pg_id p) @ new
    \<and> (\<forall>v \<in> set new. \<exists>g. requester r s = Some (Member (rv_author v) g))"
proof (cases "wv_db (fst (wiki_step r (s, os))) = wv_db s")
  case False
  then obtain who where who: "requester r s = Some who" "wiki_change who (wv_db s) (wv_db (fst (wiki_step r (s, os))))"
    using wiki_step_change by metis
  show ?thesis using wiki_change_history [OF who(2) assms(1,3,2)] who(1) by fastforce
qed simp

section \<open>Saving\<close>

lemma write_revision_ok:
  assumes "write_revision env db p old title content author = (Inr (pid, rid), db')"
  shows "pid = pg_id p \<and> (content = rv_content old \<and> rid = rv_id old \<and> history db' = history db \<and> wd_revs db' = wd_revs db
    \<or> content \<noteq> rv_content old \<and> rid = wd_rev_next db \<and> wd_revs db' = wd_revs db @ [make_rev env db pid content author]
      \<and> history db' pid = history db pid @ [make_rev env db pid content author])"
  using assms
  by (auto simp: write_revision_def Let_def history_def touch_page_def make_rev_def fun_eq_iff split: if_splits)

lemma save_page_ok:
  assumes "save_page env s tok b = (Inr (pid, rid), s')"
  obtains me path title where "wiki_auth env s tok = Inr me" "clean_page_path (wb_path b) = Inr path"
    "check_title (wb_title b) = Inr title"
    "save_tx env (wv_db s) me path title (wx_sanitize env (wb_content b)) (wb_base b) = (Inr (pid, rid), wv_db s')"
  using assms by (auto simp: save_page_def split: sum.splits prod.splits)

lemma save_with_base:
  assumes save: "save_page env s tok b = (Inr (pid, rid), s')" and base: "wb_base b = Some v" "v \<noteq> 0"
  obtains me p old title where "wiki_auth env s tok = Inr me" "p \<in> set (wd_pages (wv_db s))" "pg_id p = pid"
    "latest_rev (wv_db s) pid = Some old" "rv_id old = v"
    "write_revision env (wv_db s) p old title (wx_sanitize env (wb_content b)) me = (Inr (pid, rid), wv_db s')"
proof -
  obtain me path title where *: "wiki_auth env s tok = Inr me"
    "save_tx env (wv_db s) me path title (wx_sanitize env (wb_content b)) (wb_base b) = (Inr (pid, rid), wv_db s')"
    using save by (rule save_page_ok)
  obtain p where p: "find (\<lambda>p. pg_path p = path) (wd_pages (wv_db s)) = Some p"
    "revise_page env (wv_db s) p (wiki_employee_group env me) title (wx_sanitize env (wb_content b)) me (Some v)
      = (Inr (pid, rid), wv_db s')"
    using *(2) base by (auto simp: save_tx_def create_page_def split: if_splits option.splits)
  obtain old where old: "latest_rev (wv_db s) (pg_id p) = Some old" "check_base (pg_path p) (Some v) (rv_id old) = Inr ()"
    "write_revision env (wv_db s) p old title (wx_sanitize env (wb_content b)) me = (Inr (pid, rid), wv_db s')"
    using p(2) by (auto simp: revise_page_def split: sum.splits option.splits if_splits)
  have "pid = pg_id p" using write_revision_ok [OF old(3)] by simp
  moreover have "rv_id old = v" using old(2) base(2) by (auto simp: check_base_def split: if_splits)
  ultimately show ?thesis using * p(1) old that find_Some_set [OF p(1)] by auto
qed

lemma save_error_keeps:
  assumes "save_page env s tok b = (Inl e, s')"
  shows "wd_pages (wv_db s') = wd_pages (wv_db s) \<and> wd_revs (wv_db s') = wd_revs (wv_db s)"
proof -
  have new: "create_page env db path title content me base = (Inl e, db') \<Longrightarrow>
      wd_pages db' = wd_pages db \<and> wd_revs db' = wd_revs db" for db db' path title content me base
    by (auto simp: create_page_def Let_def split: if_splits)
  have old: "revise_page env db p g title content me base = (Inl e, db') \<Longrightarrow>
      wd_pages db' = wd_pages db \<and> wd_revs db' = wd_revs db" for db db' p g title content me base
    by (auto simp: revise_page_def write_revision_def Let_def split: if_splits sum.splits option.splits)
  have "save_tx env db me path title content base = (Inl e, db') \<Longrightarrow>
      wd_pages db' = wd_pages db \<and> wd_revs db' = wd_revs db" for db db' path title content me base
    using new old by (auto simp: save_tx_def split: if_splits option.splits)
  then show ?thesis using assms by (auto simp: save_page_def split: sum.splits prod.splits)
qed

text \<open>C25: Of two saves that name the same revision as their base, the second is refused once the first has changed the
  text: nobody's text is replaced by someone who has not seen it.\<close>

theorem no_lost_update:
  assumes inv: "wiki_inv (wv_db s)"
    and first_save: "save_page env s tok b = (Inr (pid, rid), s1)"
    and base: "wb_base b = Some v" "wb_base b' = Some v" "v \<noteq> 0" and changed: "rid \<noteq> v"
  shows "\<exists>e s2. save_page env' s1 tok' b' = (Inl e, s2) \<and> wd_pages (wv_db s2) = wd_pages (wv_db s1)
    \<and> wd_revs (wv_db s2) = wd_revs (wv_db s1)"
proof -
  have "fst (save_page env' s1 tok' b') \<noteq> Inr (pid', rid')" for pid' rid'
  proof
    assume "fst (save_page env' s1 tok' b') = Inr (pid', rid')"
    then obtain s2 where second_save: "save_page env' s1 tok' b' = (Inr (pid', rid'), s2)" by (metis prod.collapse)
    obtain me p old title where 1: "latest_rev (wv_db s) pid = Some old" "rv_id old = v"
      "write_revision env (wv_db s) p old title (wx_sanitize env (wb_content b)) me = (Inr (pid, rid), wv_db s1)"
      using first_save base(1,3) by (rule save_with_base)
    obtain old' where 2: "latest_rev (wv_db s1) pid' = Some old'" "rv_id old' = v"
      using second_save base(2,3) by (rule save_with_base)
    let ?new = "make_rev env (wv_db s) pid (wx_sanitize env (wb_content b)) me"
    have grown: "wd_revs (wv_db s1) = wd_revs (wv_db s) @ [?new]" "history (wv_db s1) pid = history (wv_db s) pid @ [?new]"
      using write_revision_ok [OF 1(3)] 1(2) changed by auto
    have sorted: "distinct (map rv_id (wd_revs (wv_db s)))" "\<forall>r \<in> set (wd_revs (wv_db s)). rv_id r < wd_rev_next (wv_db s)"
      using inv by (auto simp: wiki_inv_def revs_ok_def strict_sorted_iff)
    have o: "old \<in> set (wd_revs (wv_db s))" "rv_page old = pid" using latest_rev_some [OF 1(1)] by auto
    have new_id: "rv_id ?new = wd_rev_next (wv_db s)" by (simp add: make_rev_def)
    have o': "old' \<in> set (wd_revs (wv_db s1))" "rv_page old' = pid'" using latest_rev_some [OF 2(1)] by auto
    have "old' \<noteq> ?new" using sorted(2) o(1) 1(2) 2(2) new_id by fastforce
    then have "old' \<in> set (wd_revs (wv_db s))" using o'(1) grown(1) by simp
    then have "old' = old" using distinct_key_eq [OF sorted(1) _ o(1)] 1(2) 2(2) by simp
    then have "pid' = pid" using o o' by simp
    moreover have "latest_rev (wv_db s1) pid = Some ?new"
      unfolding latest_rev_history grown(2) by (cases "history (wv_db s) pid") simp_all
    ultimately have "old' = ?new" using 2(1) by simp
    with \<open>old' \<noteq> ?new\<close> show False by simp
  qed
  then obtain e s2 where "save_page env' s1 tok' b' = (Inl e, s2)"
    by (cases "save_page env' s1 tok' b'"; cases "fst (save_page env' s1 tok' b')") auto
  then show ?thesis using save_error_keeps by blast
qed

section \<open>Readers\<close>


section \<open>Stored files\<close>

text \<open>Deleting an attachment removes its stored bytes only when no other row names them: for a store whose delete
  touches nothing but the key it is given, every remaining row still downloads what it downloaded before.\<close>

theorem shared_file_kept:
  assumes "\<And>os k k'. k' \<noteq> k \<Longrightarrow> os_download ops (snd (os_delete ops os k)) k' = os_download ops os k'"
    and "delete_file (Inr (Some ops)) env s os tok i = (res, s', os')" "t \<in> set (wd_files (wv_db s'))"
  shows "os_download ops os' (fl_key t) = os_download ops os (fl_key t)"
  using assms(2,3)
  by (auto simp: delete_file_def Let_def image_iff split: sum.splits option.splits if_splits intro!: assms(1))

text \<open>Deleting a page removes the stored files first: when the row cannot be deleted, it stays, its files gone.\<close>

lemma failed_delete_loses_files:
  assumes "wiki_auth env s tok = Inr me" "writable_page env (wv_db s) me path = Inr p"
    and "wx_faults env ''delete page''" "\<not> wx_faults env ''attachment keys''"
  shows "delete_page (Inr (Some ops)) env s os tok path =
    (Inl (internal_error ''delete page''), s, delete_keys ops (map fl_key (files_of (wv_db s) (pg_id p))) os)"
  using assms by (simp add: delete_page_def delete_page_files_def files_of_def)

text \<open>While the directory cannot be asked, everybody has the group with the empty name, and a rule for that name
  applies to everybody.\<close>

lemma nameless_rule_opens:
  assumes "wiki_group_for (wx_ldap env) (wx_row env) me = Inl e" "r \<in> set (rules_of db pid)" "rl_group r = []"
  shows "rule_allows (rules_of db pid) (wiki_employee_group env me) False"
  using assms by (auto simp: rule_allows_iff wiki_employee_group_def)

text \<open>Search looks at the hundred best pages before it applies the rules.\<close>

lemma search_crowded_out:
  assumes "wiki_auth env s tok = Inr me" "\<And>l. \<not> wx_faults env l" "prefix_query (wx_letter env) q = tsq" "tsq \<noteq> []"
    and "\<And>h. h \<in> set (search_rows env (wv_db s) tsq) \<Longrightarrow>
      \<not> rule_allows (rules_of (wv_db s) (su_id h)) (wiki_employee_group env me) False"
  shows "search_pages env s tok q = Inr []"
  using assms by (simp add: search_pages_def filter_False)

section \<open>What a search may contain\<close>

lemma clean_word_plain: "c \<in> set (clean_word letter w) \<Longrightarrow> byte c < 0x80 \<Longrightarrow> letter (byte c)"
  by (auto simp: clean_word_def dest!: runes_bytes)

text \<open>The query handed to the text search is a list of words, each followed by \<open>:*\<close> and joined by \<open>&\<close>; a word
  is not empty and its ASCII characters are letters and digits, so that nothing typed reads as an operator.\<close>

theorem query_is_plain:
  "\<exists>ws. prefix_query letter q = join '' & '' (map (\<lambda>w. w @ '':*'') ws)
    \<and> (\<forall>w \<in> set ws. w \<noteq> [] \<and> (\<forall>c \<in> set w. byte c < 0x80 \<longrightarrow> letter (byte c)))"
  unfolding prefix_query_def by (rule exI, rule conjI, rule refl) (auto dest: clean_word_plain)

section \<open>A small wiki\<close>

definition wk_db :: wiki_db where
  "wk_db = \<lparr>wd_pages = [\<lparr>pg_id = 1, pg_path = ''a'', pg_title = ''A'', pg_updated = 0\<rparr>,
       \<lparr>pg_id = 2, pg_path = ''b'', pg_title = ''B'', pg_updated = 0\<rparr>], wd_page_next = 3,
     wd_revs = [\<lparr>rv_id = 1, rv_page = 1, rv_content = ''x'', rv_author = ''ann'', rv_created = 0\<rparr>,
       \<lparr>rv_id = 2, rv_page = 2, rv_content = ''y'', rv_author = ''bob'', rv_created = 0\<rparr>], wd_rev_next = 3,
     wd_rules = [\<lparr>rl_page = 2, rl_group = ''hr'', rl_access = ''write''\<rparr>],
     wd_files = [\<lparr>fl_id = 1, fl_page = 1, fl_name = ''f'', fl_key = ''k'', fl_size = 1, fl_by = ''ann'', fl_at = 0\<rparr>,
       \<lparr>fl_id = 2, fl_page = 1, fl_name = ''f'', fl_key = ''k'', fl_size = 1, fl_by = ''ann'', fl_at = 0\<rparr>],
     wd_file_next = 3\<rparr>"

definition wk_srv :: wiki_srv where
  "wk_srv = \<lparr>wv_db = wk_db, wv_emp = \<lparr>emp_sessions = [\<lparr>es_token = ''t'', es_user = ''ann'', es_expires = 9 * second\<rparr>],
     user_logins = []\<rparr>, wv_admin = \<lparr>admins = [], admin_next = 1, admin_sessions = []\<rparr>\<rparr>"

text \<open>The directory is not installed; texts are stored as they come.\<close>

definition wk_env :: wiki_env where
  "wk_env = \<lparr>wx_now = second, wx_faults = no_faults, wx_row = None,
     wx_ldap = \<lparr>gs_bind = (\<lambda>_ _. Inr ()), gs_groups = (\<lambda>_. Inr []), gs_escape = (\<lambda>u. u)\<rparr>,
     wx_before = (\<lambda>a b. length a < length b),
     wx_search = \<lparr>ts_match = (\<lambda>_ _ _. True), ts_rank = (\<lambda>_ _ _. 0), ts_headline = (\<lambda>_ b. b)\<rparr>,
     wx_letter = (\<lambda>r. 97 \<le> r \<and> r \<le> 122), wx_unescape = (\<lambda>t. t), wx_sanitize = (\<lambda>t. t), wx_random = []\<rparr>"

lemmas wk_defs = wk_db_def wk_srv_def wk_env_def

lemma wk_simps [simp]: "wv_db wk_srv = wk_db" "wx_faults wk_env = no_faults"
  "wd_files wk_db = [\<lparr>fl_id = 1, fl_page = 1, fl_name = ''f'', fl_key = ''k'', fl_size = 1, fl_by = ''ann'', fl_at = 0\<rparr>,
     \<lparr>fl_id = 2, fl_page = 1, fl_name = ''f'', fl_key = ''k'', fl_size = 1, fl_by = ''ann'', fl_at = 0\<rparr>]"
  "wd_pages wk_db = [\<lparr>pg_id = 1, pg_path = ''a'', pg_title = ''A'', pg_updated = 0\<rparr>,
     \<lparr>pg_id = 2, pg_path = ''b'', pg_title = ''B'', pg_updated = 0\<rparr>]"
  "rules_of wk_db 1 = []" "rules_of wk_db 2 = [\<lparr>rl_page = 2, rl_group = ''hr'', rl_access = ''write''\<rparr>]"
  by (simp_all add: wk_defs rules_of_def)

lemma wk_path: "clean_path ''a''" "clean_path ''b''" "clean_page_path ''a'' = Inr ''a''"
  by (simp_all add: clean_path_def clean_page_path_def check_segment_def trim_space_ascii ascii_def byte_def space_rune_def
      trim_chr_def Let_def)

lemma wk_inv: "wiki_inv wk_db"
  using wk_path by (simp add: wiki_inv_defs wk_db_def good_title_def rune_count_def byte_def)

lemma wk_auth: "wiki_auth wk_env wk_srv ''t'' = Inr ''ann''"
  by (simp add: wiki_auth_def module_employee_session_def emp_validate_def emp_row_def wk_defs second_def)

lemma wk_group: "wiki_employee_group wk_env u = []"
  by (simp add: wiki_employee_group_def wiki_group_for_def wiki_client_def wk_env_def)

theorem wiki_tables_invariant_witness:
  "distinct (map pg_path (wd_pages (wv_db (fst (wiki_requests
     [W_save wk_env ''t'' \<lparr>wb_path = ''a'', wb_title = ''A'', wb_content = ''x'', wb_base = None\<rparr>]
     (wk_srv\<lparr>wv_db := empty_wiki_db\<rparr>, ()))))))"
  using wiki_tables_invariant [of "(wk_srv\<lparr>wv_db := empty_wiki_db\<rparr>, ())"
      "[W_save wk_env ''t'' \<lparr>wb_path = ''a'', wb_title = ''A'', wb_content = ''x'', wb_base = None\<rparr>]"]
  by (simp del: wiki_requests.simps)

lemma wk_requester: "requester (W_rename wk_env ''t'' ''b'' ''c'') wk_srv = Some (Member ''ann'' [])"
  by (simp add: employee_of_def wk_auth me_of_def wk_group)

theorem writers_only_witness:
  "\<lparr>pg_id = 2, pg_path = ''b'', pg_title = ''B'', pg_updated = 0\<rparr>
     \<in> set (wd_pages (wv_db (fst (wiki_step (W_rename wk_env ''t'' ''b'' ''c'') (wk_srv, ())))))"
proof -
  let ?p = "\<lparr>pg_id = 2, pg_path = ''b'', pg_title = ''B'', pg_updated = 0\<rparr>"
  have "wiki_inv (wv_db wk_srv)" "?p \<in> set (wd_pages (wv_db wk_srv))" by (simp_all add: wk_inv)
  from writers_only [OF this, of "W_rename wk_env ''t'' ''b'' ''c''" "()", THEN conjunct1]
  show ?thesis by (simp add: wk_requester rule_allows_iff del: requester.simps wiki_step.simps)
qed

lemma wk_unfile:
  "\<exists>s' os'. delete_file s3 wk_env wk_srv os ''t'' 1 = (Inr (), s', os') \<and> wd_pages (wv_db s') = wd_pages wk_db
     \<and> wd_files (wv_db s') = [wd_files wk_db ! 1]"
  by (simp add: delete_file_def wk_auth file_row_of_def require_access_def page_access_def rule_allows_iff Let_def)

theorem history_append_only_witness:
  "\<exists>new. history (wv_db (fst (wiki_step (W_unfile (Inr None) wk_env ''t'' 1) (wk_srv, ())))) 1 = history wk_db 1 @ new"
proof -
  let ?p = "\<lparr>pg_id = 1, pg_path = ''a'', pg_title = ''A'', pg_updated = 0\<rparr>"
  obtain s' os' where run: "delete_file (Inr None) wk_env wk_srv () ''t'' 1 = (Inr (), s', os')"
    "wd_pages (wv_db s') = wd_pages wk_db"
    using wk_unfile [of "Inr None" "()"] by blast
  have "wiki_inv (wv_db wk_srv)" "?p \<in> set (wd_pages (wv_db wk_srv))"
    "pg_id ?p \<in> pg_id ` set (wd_pages (wv_db (fst (wiki_step (W_unfile (Inr None) wk_env ''t'' 1) (wk_srv, ())))))"
    by (simp_all add: wk_inv run)
  from history_append_only [OF this] show ?thesis by (auto simp del: wiki_step.simps)
qed

definition wk_edit :: save_body where
  "wk_edit = \<lparr>wb_path = ''a'', wb_title = ''A'', wb_content = ''z'', wb_base = Some 1\<rparr>"

lemma wk_first_save: "\<exists>s1. save_page wk_env wk_srv ''t'' wk_edit = (Inr (1, 3), s1)"
proof -
  have t: "check_title ''A'' = Inr ''A''"
    by (simp add: check_title_def trim_space_ascii ascii_def byte_def space_rune_def rune_count_def)
  have "\<exists>db. save_tx wk_env wk_db ''ann'' ''a'' ''A'' ''z'' (Some 1) = (Inr (1, 3), db)"
    by (simp add: save_tx_def revise_page_def require_access_def page_access_def rule_allows_iff rules_of_def
        latest_rev_def check_base_def write_revision_def make_rev_def pg_text_def valid_utf8_ascii ascii_def byte_def
        wk_db_def)
  then show ?thesis
    by (auto simp: save_page_def wk_auth wk_edit_def wk_path t) (simp_all add: wk_env_def wk_srv_def)
qed

theorem no_lost_update_witness:
  "\<exists>s1 e s2. save_page wk_env wk_srv ''t'' wk_edit = (Inr (1, 3), s1) \<and> save_page wk_env s1 ''t'' wk_edit = (Inl e, s2)"
proof -
  obtain s1 where s1: "save_page wk_env wk_srv ''t'' wk_edit = (Inr (1, 3), s1)" using wk_first_save by blast
  have "wiki_inv (wv_db wk_srv)" using wk_inv by (simp add: wk_srv_def)
  from no_lost_update [OF this s1, of 1 wk_edit wk_env "''t''"] s1 show ?thesis
    by (auto simp: wk_edit_def)
qed


definition wk_store :: "(string \<Rightarrow> string option) object_store" where
  "wk_store = \<lparr>os_upload = (\<lambda>os k b t. (Inr (), os(k \<mapsto> b))),
     os_download = (\<lambda>os k. case os k of None \<Rightarrow> Inl ''no such key'' | Some b \<Rightarrow> Inr (b, ''image/png'')),
     os_delete = (\<lambda>os k. (Inr (), os(k := None)))\<rparr>"

theorem shared_file_kept_witness:
  "\<exists>s' os'. delete_file (Inr (Some wk_store)) wk_env wk_srv [''k'' \<mapsto> ''f''] ''t'' 1 = (Inr (), s', os')
     \<and> os_download wk_store os' ''k'' = Inr (''f'', ''image/png'')"
proof -
  obtain s' os' where run: "delete_file (Inr (Some wk_store)) wk_env wk_srv [''k'' \<mapsto> ''f''] ''t'' 1 = (Inr (), s', os')"
    "wd_files (wv_db s') = [wd_files wk_db ! 1]"
    using wk_unfile [of "Inr (Some wk_store)" "[''k'' \<mapsto> ''f'']"] by auto
  have "os_download wk_store os' (fl_key (wd_files wk_db ! 1)) = os_download wk_store [''k'' \<mapsto> ''f''] (fl_key (wd_files wk_db ! 1))"
    by (rule shared_file_kept [OF _ run(1)]) (simp_all add: wk_store_def run(2))
  then show ?thesis using run(1) by (simp add: wk_store_def)
qed

theorem query_is_plain_witness:
  "prefix_query (\<lambda>r. 97 \<le> r \<and> r \<le> 122) ''a|b'' = ''ab:*'' \<and> (\<exists>ws. ''ab:*'' = join '' & '' (map (\<lambda>w. w @ '':*'') ws))"
proof -
  have q: "prefix_query (\<lambda>r. 97 \<le> r \<and> r \<le> 122) ''a|b'' = ''ab:*''"
    by (simp add: prefix_query_def GoStd.fields_def clean_word_def byte_def space_rune_def)
  obtain ws where "prefix_query (\<lambda>r. 97 \<le> r \<and> r \<le> 122) ''a|b'' = join '' & '' (map (\<lambda>w. w @ '':*'') ws)"
    using query_is_plain by blast
  then show ?thesis unfolding q by blast
qed

end
