(* ===== verification/Proxy.thy ===== *)
theory Proxy
  imports GoText "HOL-Library.AList"
begin

text \<open>
  The edge proxy's configuration files (\<open>backend/internal/proxy/nginx.go\<close>): one vhost per module route, one
  snippet per module with path routes, each written as a file of the configuration directory and followed
  by a reload of nginx.  The directory is an association list from file names, relative to it, to contents;
  \<open>px_tls\<close> lists the modules with a certificate directory, \<open>px_loaded\<close> is what nginx read at its last
  reload.  Writing, reloading and making a certificate may fail.
\<close>

section \<open>Route targets\<close>

record route_target =
  rt_name :: string
  rt_hostname :: string
  rt_upstream :: string
  rt_private_port :: nat
  rt_tls :: bool

record path_target =
  pt_path :: string
  pt_upstream :: string

definition gateway_ip :: string where "gateway_ip = ''10.201.28.2''"

definition internal_only_acl :: string where
  "internal_only_acl = text_lines
     [''    allow 10.0.0.0/8;'', ''    allow 172.16.0.0/12;'', ''    allow 192.168.0.0/16;'',
      ''    allow 100.64.0.0/10;'', ''    allow 127.0.0.0/8;'', ''    allow fc00::/7;'', ''    allow ::1;'',
      ''    deny all;'', []]"

definition resolver_line :: string where
  "resolver_line = ''    resolver 127.0.0.11 valid=10s;''"

text \<open>The lines every proxied location shares, after the headers that differ.\<close>

definition upgrade_lines :: "string list" where
  "upgrade_lines =
     [''        proxy_http_version 1.1;'',
      ''        proxy_set_header Upgrade $http_upgrade;'',
      ''        proxy_set_header Connection $connection_upgrade;'']"

definition upload_lines :: "string list" where
  "upload_lines =
     [''        # Module sites carry their own authentication and some are file'',
      ''        # shares: nginx's default 1 MB request limit would reject any real'',
      ''        # file, and buffering a whole upload to disk first stalls big ones.'',
      ''        client_max_body_size 0;'',
      ''        proxy_request_buffering off;'']"

definition timeout_lines :: "string list" where
  "timeout_lines = [''        proxy_read_timeout 3600s;'', ''        proxy_send_timeout 3600s;'']"

definition upstream_lines :: "string \<Rightarrow> string list" where
  "upstream_lines upstream =
     [''        set $upstream '' @ quoted (''http://'' @ upstream) @ '';'', ''        proxy_pass $upstream;'']"

definition forward_lines :: "string list" where
  "forward_lines =
     [''        proxy_set_header Host $http_host;'', ''        proxy_set_header X-Real-IP $remote_addr;'',
      ''        proxy_set_header X-Forwarded-For $proxy_add_x_forwarded_for;'']"

definition host_comment :: "string list" where
  "host_comment =
     [''        # $http_host (not $host) '' @ em_dash @ '' WebDAV MOVE/COPY carry an absolute'',
      ''        # Destination header built by the client from the URL it connected'',
      ''        # to, port included. Go's webdav library 502s if the forwarded'',
      ''        # Host header doesn't match that exactly, and $host silently'',
      ''        # strips the port, breaking rename/move for every WebDAV module.'']"

text \<open>What follows the resolver line: the location and the end of the server block.\<close>

definition private_rest :: "string \<Rightarrow> string list" where
  "private_rest upstream = [[], ''    location / {''] @ upstream_lines upstream @ forward_lines @ upgrade_lines
     @ upload_lines @ timeout_lines @ [''    }'', ''}'']"

definition plain_rest :: "string \<Rightarrow> string list" where
  "plain_rest upstream = [[], ''    location / {''] @ upstream_lines upstream @ host_comment @ forward_lines
     @ upgrade_lines @ upload_lines @ timeout_lines @ [''    }'', ''}'']"

definition tls_rest :: "string \<Rightarrow> string list" where
  "tls_rest upstream = [[], ''    location / {''] @ upstream_lines upstream @ forward_lines
     @ [''        proxy_set_header X-Forwarded-Proto https;''] @ upgrade_lines @ upload_lines @ timeout_lines
     @ [''    }'', ''}'']"

definition private_conf :: "nat \<Rightarrow> string \<Rightarrow> string" where
  "private_conf port upstream = text_lines
     ([''server {'', ''    listen '' @ gateway_ip @ '':'' @ nat_str port @ '';'', [], resolver_line]
      @ private_rest upstream)"

definition cert_path :: "string \<Rightarrow> string \<Rightarrow> string" where
  "cert_path module_id file = ''/etc/nginx/conf.d/tls/'' @ module_id @ ''/'' @ file"

text \<open>The text before the resolver line, for a route with and without TLS.\<close>

definition plain_head :: "string \<Rightarrow> string list" where
  "plain_head hostname = [''server {'', ''    listen 80;'', ''    server_name '' @ hostname @ '';'', []]"

definition tls_head :: "string \<Rightarrow> string \<Rightarrow> string list" where
  "tls_head module_id hostname =
     [''server {'', ''    listen 80;'', ''    server_name '' @ hostname @ '';'',
      ''    return 301 https://$host$request_uri;'', ''}'', [],
      ''server {'', ''    listen 443 ssl;'', ''    server_name '' @ hostname @ '';'',
      ''    ssl_certificate '' @ cert_path module_id ''cert.pem'' @ '';'',
      ''    ssl_certificate_key '' @ cert_path module_id ''key.pem'' @ '';'', []]"

definition conf_head :: "string \<Rightarrow> route_target \<Rightarrow> string list" where
  "conf_head module_id r = (if rt_tls r then tls_head module_id (rt_hostname r) else plain_head (rt_hostname r))"

definition conf_rest :: "route_target \<Rightarrow> string list" where
  "conf_rest r = (if rt_tls r then tls_rest (rt_upstream r) else plain_rest (rt_upstream r))"

definition normal_conf :: "string \<Rightarrow> route_target \<Rightarrow> string" where
  "normal_conf module_id r = text_lines (conf_head module_id r @ [resolver_line] @ conf_rest r)"

definition route_conf :: "string \<Rightarrow> route_target \<Rightarrow> string" where
  "route_conf module_id r =
     (if rt_private_port r \<noteq> 0
      then private_conf (rt_private_port r) (rt_upstream r)
        @ replace_first resolver_line (internal_only_acl @ resolver_line) (normal_conf module_id r)
      else normal_conf module_id r)"

section \<open>The configuration directory\<close>

record proxy_state =
  px_files :: "(string \<times> string) list"
  px_tls :: "string list"
  px_loaded :: "(string \<times> string) list"

definition conf_path :: "string \<Rightarrow> string \<Rightarrow> string" where
  "conf_path module_id name = module_id @ ''__'' @ (if name = [] then ''default'' else name) @ ''.conf''"

definition path_conf_path :: "string \<Rightarrow> string" where
  "path_conf_path module_id = ''paths/'' @ module_id @ ''.conf''"

definition reload_nginx :: "faults \<Rightarrow> proxy_state \<Rightarrow> (string + unit) \<times> proxy_state" where
  "reload_nginx f p = (if f ''reload nginx'' then (Inl ''reload nginx'', p) else (Inr (), p\<lparr>px_loaded := px_files p\<rparr>))"

fun write_routes :: "faults \<Rightarrow> proxy_state \<Rightarrow> string \<Rightarrow> route_target list \<Rightarrow> (string + unit) \<times> proxy_state" where
  "write_routes f p module_id [] = (Inr (), p)"
| "write_routes f p module_id (r # rs) =
     (if rt_tls r \<and> f ''ensure tls cert'' then (Inl ''ensure tls cert'', p)
      else let p1 = (if rt_tls r then p\<lparr>px_tls := List.insert module_id (px_tls p)\<rparr> else p) in
      if f (''write vhost '' @ rt_name r) then (Inl ''write nginx vhost'', p1)
      else write_routes f (p1\<lparr>px_files := AList.update (conf_path module_id (rt_name r)) (route_conf module_id r)
             (px_files p1)\<rparr>) module_id rs)"

definition set_routes :: "faults \<Rightarrow> proxy_state \<Rightarrow> string \<Rightarrow> route_target list \<Rightarrow> (string + unit) \<times> proxy_state" where
  "set_routes f p module_id rs =
     (case write_routes f p module_id rs of (Inl e, p1) \<Rightarrow> (Inl e, p1) | (Inr _, p1) \<Rightarrow> reload_nginx f p1)"

text \<open>\<open>filepath.Glob(<module>__*.conf)\<close>: the star stands for anything but a slash.\<close>

definition vhost_of :: "string \<Rightarrow> string \<Rightarrow> bool" where
  "vhost_of module_id file \<longleftrightarrow> (let pre = module_id @ ''__''; post = ''.conf'' in
     has_prefix file pre \<and> length pre + length post \<le> length file \<and> has_prefix (rev file) (rev post)
     \<and> CHR ''/'' \<notin> set (take (length file - length pre - length post) (drop (length pre) file)))"

fun remove_files :: "faults \<Rightarrow> proxy_state \<Rightarrow> string list \<Rightarrow> (string + unit) \<times> proxy_state" where
  "remove_files f p [] = (Inr (), p)"
| "remove_files f p (x # xs) =
     (if f (''remove '' @ x) then (Inl ''remove nginx vhost'', p)
      else remove_files f (p\<lparr>px_files := AList.delete x (px_files p)\<rparr>) xs)"

definition remove_routes :: "faults \<Rightarrow> proxy_state \<Rightarrow> string \<Rightarrow> (string + unit) \<times> proxy_state" where
  "remove_routes f p module_id =
     (if f ''remove tls cert dir'' then (Inl ''remove tls cert dir'', p)
      else let p1 = p\<lparr>px_tls := removeAll module_id (px_tls p)\<rparr>;
               matches = filter (vhost_of module_id) (map fst (px_files p1)) in
      if matches = [] then (Inr (), p1)
      else case remove_files f p1 matches of (Inl e, p2) \<Rightarrow> (Inl e, p2) | (Inr _, p2) \<Rightarrow> reload_nginx f p2)"

definition path_location :: "path_target \<Rightarrow> string list" where
  "path_location t =
     [''    location '' @ pt_path t @ ''/ {'', ''        resolver 127.0.0.11 valid=10s;'']
     @ upstream_lines (pt_upstream t) @ forward_lines
     @ [''        proxy_set_header X-Forwarded-Proto $scheme;'',
        ''        # WebSocket upgrade support (see modules/chat and'',
        ''        # nginx/templates/upgrade-map.conf.template for $connection_upgrade)'',
        ''        # '' @ em_dash @ '' harmless for a plain-REST module like wiki, since nginx only'',
        ''        # actually upgrades the connection if the client's own request'',
        ''        # asked for one via the Upgrade header in the first place.'']
     @ upgrade_lines
     @ [''        # A WebSocket connection is meant to stay open far longer than a'',
        ''        # normal request '' @ em_dash @ '' without this nginx would silently kill an idle'',
        ''        # chat connection after its default 60s read/send timeout.'']
     @ timeout_lines @ [''    }'']"

definition set_path_routes :: "faults \<Rightarrow> proxy_state \<Rightarrow> string \<Rightarrow> path_target list \<Rightarrow> (string + unit) \<times> proxy_state" where
  "set_path_routes f p module_id ts =
     (if f ''create nginx paths dir'' then (Inl ''create nginx paths dir'', p)
      else if f ''write nginx path routes'' then (Inl ''write nginx path routes'', p)
      else reload_nginx f (p\<lparr>px_files := AList.update (path_conf_path module_id)
        (text_lines (concat (map path_location ts))) (px_files p)\<rparr>))"

definition remove_path_routes :: "faults \<Rightarrow> proxy_state \<Rightarrow> string \<Rightarrow> (string + unit) \<times> proxy_state" where
  "remove_path_routes f p module_id =
     (if path_conf_path module_id \<notin> fst ` set (px_files p) then (Inr (), p)
      else if f ''remove nginx path routes'' then (Inl ''remove nginx path routes'', p)
      else reload_nginx f (p\<lparr>px_files := AList.delete (path_conf_path module_id) (px_files p)\<rparr>))"

section \<open>What the files say\<close>

lemma head_no_equals:
  assumes "CHR ''='' \<notin> set module_id" "CHR ''='' \<notin> set (rt_hostname r)"
  shows "CHR ''='' \<notin> set (text_lines (conf_head module_id r))"
  using assms by (auto simp: conf_head_def plain_head_def tls_head_def cert_path_def)

lemma replace_resolver:
  assumes "CHR ''='' \<notin> set (text_lines hs)"
  shows "replace_first resolver_line (internal_only_acl @ resolver_line) (text_lines (hs @ [resolver_line] @ rest))
    = text_lines hs @ internal_only_acl @ text_lines ([resolver_line] @ rest)"
proof -
  have "replace_first (''    resolver 127.0.0.11 valid'' @ CHR ''='' # ''10s;'') (internal_only_acl @ resolver_line)
      (text_lines hs @ (''    resolver 127.0.0.11 valid'' @ CHR ''='' # ''10s;'') @ newline # text_lines rest)
    = text_lines hs @ (internal_only_acl @ resolver_line) @ newline # text_lines rest"
    by (rule replace_first_at [OF assms]) simp
  then show ?thesis by (simp add: resolver_line_def text_lines_append)
qed

lemma private_route_conf:
  assumes "rt_private_port r \<noteq> 0" "CHR ''='' \<notin> set module_id" "CHR ''='' \<notin> set (rt_hostname r)"
  shows "route_conf module_id r = private_conf (rt_private_port r) (rt_upstream r)
    @ text_lines (conf_head module_id r) @ internal_only_acl @ text_lines ([resolver_line] @ conf_rest r)"
  using assms replace_resolver [OF head_no_equals] by (simp add: route_conf_def normal_conf_def)

lemma conf_path_inj: "conf_path m n = conf_path m n' \<Longrightarrow> n = [] \<longleftrightarrow> n' = [] \<Longrightarrow> n = n'"
  by (auto simp: conf_path_def split: if_splits)

lemma conf_path_vhost:
  assumes "CHR ''/'' \<notin> set n"
  shows "vhost_of m (conf_path m n)"
proof -
  have "conf_path m n = (m @ ''__'') @ (if n = [] then ''default'' else n) @ ''.conf''" by (simp add: conf_path_def)
  then show ?thesis using assms by (auto simp: vhost_of_def Let_def has_prefix_iff)
qed

text \<open>Module ids without an underscore keep their vhosts apart.\<close>

lemma vhost_of_module:
  assumes "vhost_of m (conf_path m' n)" "CHR ''_'' \<notin> set m" "CHR ''_'' \<notin> set m'"
  shows "m = m'"
proof -
  obtain r where "m @ CHR ''_'' # CHR ''_'' # r = m' @ CHR ''_'' # CHR ''_'' # (if n = [] then ''default'' else n) @ ''.conf''"
    using assms(1) by (auto simp: vhost_of_def Let_def has_prefix_iff conf_path_def)
  then have "takeWhile (\<lambda>c. c \<noteq> CHR ''_'') (m @ CHR ''_'' # CHR ''_'' # r)
      = takeWhile (\<lambda>c. c \<noteq> CHR ''_'') (m' @ CHR ''_'' # CHR ''_'' # (if n = [] then ''default'' else n) @ ''.conf'')"
    by (rule arg_cong)
  moreover have "CHR ''_'' \<notin> set xs \<Longrightarrow> takeWhile (\<lambda>c. c \<noteq> CHR ''_'') (xs @ CHR ''_'' # ys) = xs" for xs ys
    by (induction xs) auto
  ultimately show ?thesis using assms(2,3) by metis
qed

lemma write_routes_files:
  "write_routes f p m rs = (Inr x, p') \<Longrightarrow> distinct (map (conf_path m \<circ> rt_name) rs) \<Longrightarrow>
   map_of (px_files p') k = (case find (\<lambda>r. conf_path m (rt_name r) = k) rs of
     None \<Rightarrow> map_of (px_files p) k | Some r \<Rightarrow> Some (route_conf m r))"
proof (induction f p m rs rule: write_routes.induct)
  case (2 f p m r rs)
  let ?p1 = "if rt_tls r then p\<lparr>px_tls := List.insert m (px_tls p)\<rparr> else p"
  let ?p2 = "?p1\<lparr>px_files := AList.update (conf_path m (rt_name r)) (route_conf m r) (px_files ?p1)\<rparr>"
  have run: "write_routes f ?p2 m rs = (Inr x, p')" and ok: "\<not> (rt_tls r \<and> f ''ensure tls cert'')"
    "\<not> f (''write vhost '' @ rt_name r)"
    using 2(2) by (auto simp: Let_def split: if_splits)
  have "px_files ?p1 = px_files p" by simp
  moreover have "find (\<lambda>r'. conf_path m (rt_name r') = conf_path m (rt_name r)) rs = None"
    using 2(3) by (auto simp: find_None_iff image_iff)
  ultimately show ?case
    using 2(1) [OF ok(1) refl ok(2) run] 2(3) by (auto simp: update_conv' split: option.splits)
qed simp

lemma set_routes_loaded:
  assumes "set_routes f p m rs = (Inr x, p')" "distinct (map (conf_path m \<circ> rt_name) rs)" "r \<in> set rs"
  shows "map_of (px_loaded p') (conf_path m (rt_name r)) = Some (route_conf m r) \<and> px_loaded p' = px_files p'"
proof -
  obtain p1 where p1: "write_routes f p m rs = (Inr (), p1)" "p' = p1\<lparr>px_loaded := px_files p1\<rparr>"
    using assms(1) by (auto simp: set_routes_def reload_nginx_def split: prod.splits sum.splits if_splits)
  have "find (\<lambda>r'. conf_path m (rt_name r') = conf_path m (rt_name r)) rs = Some r"
    using assms(2,3) by (intro find_unique) (simp_all add: comp_def)
  then show ?thesis using write_routes_files [OF p1(1) assms(2)] p1(2) by simp
qed

lemma remove_files_files:
  "remove_files f p xs = (Inr u, p') \<Longrightarrow> px_files p' = filter (\<lambda>e. fst e \<notin> set xs) (px_files p) \<and> px_tls p' = px_tls p
     \<and> px_loaded p' = px_loaded p"
  by (induction f p xs rule: remove_files.induct) (auto simp: AList.delete_eq filter_filter split: if_splits intro!: filter_cong)

lemma remove_routes_files:
  assumes "remove_routes f p m = (Inr u, p')"
  shows "px_files p' = filter (\<lambda>e. \<not> vhost_of m (fst e)) (px_files p) \<and> m \<notin> set (px_tls p')
    \<and> (px_loaded p' = px_files p' \<or> px_loaded p' = px_loaded p \<and> px_files p' = px_files p)"
proof -
  let ?p1 = "p\<lparr>px_tls := removeAll m (px_tls p)\<rparr>"
  let ?ms = "filter (vhost_of m) (map fst (px_files p))"
  show ?thesis
  proof (cases "?ms = []")
    case True
    then have "filter (\<lambda>e. \<not> vhost_of m (fst e)) (px_files p) = px_files p"
      by (auto simp: filter_id_conv filter_empty_conv)
    then show ?thesis using assms True by (auto simp: remove_routes_def split: if_splits)
  next
    case False
    then obtain p2 where p2: "remove_files f ?p1 ?ms = (Inr (), p2)" "p' = p2\<lparr>px_loaded := px_files p2\<rparr>"
      using assms by (auto simp: remove_routes_def reload_nginx_def Let_def split: if_splits prod.splits sum.splits)
    have "filter (\<lambda>e. fst e \<notin> set ?ms) (px_files p) = filter (\<lambda>e. \<not> vhost_of m (fst e)) (px_files p)"
      by (rule filter_cong) auto
    then show ?thesis using remove_files_files [OF p2(1)] p2(2) by simp
  qed
qed

end
