(* ===== verification/Lifecycle.thy ===== *)
theory Lifecycle
  imports Proxy
begin

text \<open>
  The module manager (\<open>backend/internal/modules\<close>, \<open>backend/internal/docker/render.go\<close>): installing, enabling,
  disabling and removing modules, their stored configuration and secrets, their routes at the edge proxy
  and their visibility.  The manager's state holds the database tables it uses, the set of modules with an
  operation in progress, the settings cached in memory, the catalog, the proxy's files, the rendered module
  directories and the compose projects that are up.

  A configuration is an association list without duplicate keys.  An operation takes an environment: which
  statements, commands and file operations fail, the secrets the random source gives per field, the host's
  address and the compose file of a catalog entry.  A file whose writing fails is left empty.
\<close>

section \<open>Manifests\<close>

type_synonym config = "(string \<times> string) list"

record config_field =
  cf_key :: string
  cf_type :: string
  cf_default :: string
  cf_hidden :: bool

record mod_route =
  xr_name :: string
  xr_service :: string
  xr_port :: nat

record path_route =
  xp_path :: string
  xp_service :: string
  xp_port :: nat

record manifest =
  mf_id :: string
  mf_name :: string
  mf_version :: string
  mf_compose :: string
  mf_schema :: "config_field list"
  mf_routes :: "mod_route list"
  mf_paths :: "path_route list"
  mf_needs_db :: bool
  mf_needs_tls :: bool
  mf_needs_ip :: bool
  mf_volumes :: "string list"
  mf_dir :: string

section \<open>State\<close>

record inst_row =
  in_id :: string
  in_status :: string
  in_config :: config
  in_error :: "string option"
  in_vis :: string

record core_db =
  cd_mods :: "inst_row list"
  cd_archive :: "(string \<times> config) list"
  cd_ports :: "(string \<times> nat) list"
  cd_settings :: "(string \<times> string) option"

record manager =
  mg_db :: core_db
  mg_busy :: "string list"
  mg_domain :: string
  mg_theme :: string
  mg_catalog :: "manifest list"
  mg_proxy :: proxy_state
  mg_dirs :: "(string \<times> string \<times> string) list"
  mg_up :: "string list"

record lc_env =
  lc_faults :: faults
  lc_dburl :: string
  lc_ip :: "string + string"
  lc_random :: "string \<Rightarrow> string option"
  lc_file :: "string \<Rightarrow> string \<Rightarrow> string"

section \<open>Names\<close>

definition project_name :: "string \<Rightarrow> string" where
  "project_name mid = ''itp-'' @ mid"

definition host_name :: "string \<Rightarrow> string \<Rightarrow> string \<Rightarrow> string" where
  "host_name domain mid route =
     (if route = [] then mid @ ''.'' @ domain else route @ ''.'' @ mid @ ''.'' @ domain)"

definition upstream_of :: "string \<Rightarrow> string \<Rightarrow> nat \<Rightarrow> string" where
  "upstream_of mid service port = project_name mid @ ''-'' @ service @ ''-1:'' @ nat_str port"

definition container_name :: "string \<Rightarrow> string \<Rightarrow> string" where
  "container_name mid service = project_name mid @ ''-'' @ service @ ''-1''"

definition volume_name :: "string \<Rightarrow> string \<Rightarrow> string" where
  "volume_name mid key = project_name mid @ ''_'' @ key"

section \<open>Tables\<close>

definition find_mod :: "core_db \<Rightarrow> string \<Rightarrow> inst_row option" where
  "find_mod db mid = find (\<lambda>r. in_id r = mid) (cd_mods db)"

definition update_mod :: "string \<Rightarrow> (inst_row \<Rightarrow> inst_row) \<Rightarrow> core_db \<Rightarrow> core_db" where
  "update_mod mid g db = db\<lparr>cd_mods := map (\<lambda>r. if in_id r = mid then g r else r) (cd_mods db)\<rparr>"

definition in_catalog :: "manager \<Rightarrow> string \<Rightarrow> manifest option" where
  "in_catalog m mid = find (\<lambda>mf. mf_id mf = mid) (mg_catalog m)"

text \<open>\<open>jsonb ||\<close> and the merging loops: later entries win.\<close>

definition merge_config :: "config \<Rightarrow> config \<Rightarrow> config" where
  "merge_config old new = fold (\<lambda>(k, v). AList.update k v) new old"

definition with_db :: "(core_db \<Rightarrow> core_db) \<Rightarrow> manager \<Rightarrow> manager" where
  "with_db g m = m\<lparr>mg_db := g (mg_db m)\<rparr>"

section \<open>Exclusive operations\<close>

definition begin_op :: "string \<Rightarrow> manager \<Rightarrow> (string + manager)" where
  "begin_op mid m =
     (if mid \<in> set (mg_busy m) then Inl (''module already has an install/enable/disable/uninstall in progress'')
      else Inr (m\<lparr>mg_busy := mid # mg_busy m\<rparr>))"

definition end_op :: "string \<Rightarrow> manager \<Rightarrow> manager" where
  "end_op mid m = m\<lparr>mg_busy := removeAll mid (mg_busy m)\<rparr>"

section \<open>Settings\<close>

text \<open>The stored domain wins over the default; without a row the default is stored (\<open>NewManager\<close>).\<close>

definition new_manager ::
  "faults \<Rightarrow> core_db \<Rightarrow> manifest list \<Rightarrow> proxy_state \<Rightarrow> string \<Rightarrow> string + manager" where
  "new_manager f db catalog px default_domain =
     (let start = (\<lambda>db domain theme. \<lparr>mg_db = db, mg_busy = [], mg_domain = domain, mg_theme = theme,
        mg_catalog = catalog, mg_proxy = px, mg_dirs = [], mg_up = []\<rparr>) in
      if f ''load base domain'' then Inl ''load base domain''
      else case cd_settings db of
        Some (domain, theme) \<Rightarrow>
          if f ''load theme'' then Inl ''load theme'' else Inr (start db domain theme)
      | None \<Rightarrow>
          if f ''seed platform_settings'' then Inl ''seed platform_settings''
          else if f ''load theme'' then Inl ''load theme''
          else Inr (start (db\<lparr>cd_settings := Some (default_domain, ''slate'')\<rparr>) default_domain ''slate''))"

definition set_base_domain :: "faults \<Rightarrow> string \<Rightarrow> manager \<Rightarrow> (string + unit) \<times> manager" where
  "set_base_domain f domain m =
     (if f ''save base domain'' then (Inl ''save base domain'', m)
      else (Inr (), (with_db (\<lambda>db. db\<lparr>cd_settings := (case cd_settings db of
          None \<Rightarrow> Some (domain, ''slate'') | Some (_, theme) \<Rightarrow> Some (domain, theme))\<rparr>) m)\<lparr>mg_domain := domain\<rparr>))"

definition set_theme :: "faults \<Rightarrow> string \<Rightarrow> manager \<Rightarrow> (string + unit) \<times> manager" where
  "set_theme f theme m =
     (if theme \<noteq> ''slate'' \<and> theme \<noteq> ''stone'' then (Inl ''unknown theme'', m)
      else if f ''save theme'' then (Inl ''save theme'', m)
      else (Inr (), (with_db (\<lambda>db. db\<lparr>cd_settings := map_option (\<lambda>(d, _). (d, theme)) (cd_settings db)\<rparr>) m)
             \<lparr>mg_theme := theme\<rparr>))"

definition reload_settings :: "faults \<Rightarrow> manager \<Rightarrow> (string + unit) \<times> manager" where
  "reload_settings f m =
     (case (if f ''load settings'' then None else cd_settings (mg_db m)) of
        None \<Rightarrow> (Inl ''load settings'', m)
      | Some (domain, theme) \<Rightarrow> (Inr (), m\<lparr>mg_domain := domain, mg_theme := theme\<rparr>))"

section \<open>Visibility and routes\<close>

definition visibility :: "faults \<Rightarrow> core_db \<Rightarrow> string \<Rightarrow> string + string" where
  "visibility f db mid =
     (if f ''load visibility'' then Inl ''load visibility''
      else case find_mod db mid of None \<Rightarrow> Inr ''private'' | Some r \<Rightarrow> Inr (in_vis r))"

definition next_port :: "core_db \<Rightarrow> nat" where
  "next_port db = foldr max (map snd (cd_ports db)) 0"

definition private_port :: "faults \<Rightarrow> core_db \<Rightarrow> string \<Rightarrow> (string + nat) \<times> core_db" where
  "private_port f db mid =
     (if f ''load private port'' then (Inl ''load private port'', db)
      else case map_of (cd_ports db) mid of
        Some port \<Rightarrow> (Inr port, db)
      | None \<Rightarrow>
          if f ''allocate private port'' then (Inl ''allocate private port'', db)
          else (let port = (if cd_ports db = [] then 9099 else next_port db) + 1
                in (Inr port, db\<lparr>cd_ports := cd_ports db @ [(mid, port)]\<rparr>)))"

definition route_target_of :: "string \<Rightarrow> string \<Rightarrow> bool \<Rightarrow> nat \<Rightarrow> mod_route \<Rightarrow> route_target" where
  "route_target_of domain mid tls port r =
     \<lparr>rt_name = xr_name r, rt_hostname = host_name domain mid (xr_name r),
      rt_upstream = upstream_of mid (xr_service r) (xr_port r), rt_private_port = port, rt_tls = tls\<rparr>"

definition primary_port :: "faults \<Rightarrow> core_db \<Rightarrow> string \<Rightarrow> (string + nat) \<times> core_db" where
  "primary_port f db mid =
     (case visibility f db mid of
        Inl e \<Rightarrow> (Inl e, db)
      | Inr v \<Rightarrow> if v = ''private'' then private_port f db mid else (Inr 0, db))"

fun route_targets ::
  "faults \<Rightarrow> string \<Rightarrow> core_db \<Rightarrow> string \<Rightarrow> mod_route list \<Rightarrow> bool \<Rightarrow> (string + route_target list) \<times> core_db" where
  "route_targets f domain db mid [] tls = (Inr [], db)"
| "route_targets f domain db mid (r # rs) tls =
     (case (if xr_name r = [] then primary_port f db mid else (Inr 0, db)) of
        (Inl e, db1) \<Rightarrow> (Inl e, db1)
      | (Inr port, db1) \<Rightarrow>
          (case route_targets f domain db1 mid rs tls of
             (Inl e, db2) \<Rightarrow> (Inl e, db2)
           | (Inr ts, db2) \<Rightarrow> (Inr (route_target_of domain mid tls port r # ts), db2)))"

definition path_targets :: "string \<Rightarrow> path_route list \<Rightarrow> path_target list" where
  "path_targets mid = map (\<lambda>r. \<lparr>pt_path = xp_path r, pt_upstream = upstream_of mid (xp_service r) (xp_port r)\<rparr>)"

text \<open>Publishing a module's host routes: the targets, then the proxy's files.\<close>

definition publish_routes :: "faults \<Rightarrow> manager \<Rightarrow> string \<Rightarrow> manifest \<Rightarrow> (string + unit) \<times> manager" where
  "publish_routes f m mid mf =
     (case route_targets f (mg_domain m) (mg_db m) mid (mf_routes mf) (mf_needs_tls mf) of
        (Inl e, db) \<Rightarrow> (Inl e, m\<lparr>mg_db := db\<rparr>)
      | (Inr ts, db) \<Rightarrow>
          (case set_routes f (mg_proxy m) mid ts of
             (r, px) \<Rightarrow> (r, m\<lparr>mg_db := db, mg_proxy := px\<rparr>)))"

definition publish :: "faults \<Rightarrow> manager \<Rightarrow> string \<Rightarrow> manifest \<Rightarrow> (string + unit) \<times> manager" where
  "publish f m mid mf =
     (case (if mf_routes mf \<noteq> [] then publish_routes f m mid mf else (Inr (), m)) of
        (Inl e, m1) \<Rightarrow> (Inl ''route module'', m1)
      | (Inr _, m1) \<Rightarrow>
          if mf_paths mf = [] then (Inr (), m1)
          else (case set_path_routes f (mg_proxy m1) mid (path_targets mid (mf_paths mf)) of
             (Inl e, px) \<Rightarrow> (Inl ''route module'', m1\<lparr>mg_proxy := px\<rparr>)
           | (Inr _, px) \<Rightarrow> (Inr (), m1\<lparr>mg_proxy := px\<rparr>)))"

definition set_visibility :: "faults \<Rightarrow> manager \<Rightarrow> string \<Rightarrow> string \<Rightarrow> (string + unit) \<times> manager" where
  "set_visibility f m mid v =
     (if v \<noteq> ''public'' \<and> v \<noteq> ''private'' then (Inl ''visibility must be public or private'', m)
      else case in_catalog m mid of
        None \<Rightarrow> (Inl ''unknown module'', m)
      | Some mf \<Rightarrow>
          if f ''save visibility'' then (Inl ''save visibility'', m)
          else (let m1 = with_db (update_mod mid (\<lambda>r. r\<lparr>in_vis := v\<rparr>)) m in
                if mf_routes mf = [] then (Inr (), m1) else publish_routes f m1 mid mf))"

end
