(* ===== verification/Installer.thy ===== *)
theory Installer
  imports Lifecycle
begin

text \<open>
  The operations of the module manager: installing in two parts (what the request does and what its
  background job does), enabling, disabling, uninstalling, reinstalling and listing.
\<close>

section \<open>Secrets\<close>

definition random_secret :: "lc_env \<Rightarrow> string \<Rightarrow> string option" where
  "random_secret env key = map_option hex_encode (lc_random env key)"

text \<open>\<open>base64.StdEncoding\<close>.\<close>

definition b64_chr :: "nat \<Rightarrow> char" where
  "b64_chr v = (''ABCDEFGHIJKLMNOPQRSTUVWXYZabcdefghijklmnopqrstuvwxyz0123456789'' @ [CHR 0x2B, CHR 0x2F]) ! v"

fun base64 :: "string \<Rightarrow> string" where
  "base64 [] = []"
| "base64 [a] = [b64_chr (byte a div 4), b64_chr (byte a mod 4 * 16), CHR ''='', CHR ''='']"
| "base64 [a, b] = [b64_chr (byte a div 4), b64_chr (byte a mod 4 * 16 + byte b div 16),
     b64_chr (byte b mod 16 * 4), CHR ''='']"
| "base64 (a # b # c # r) = b64_chr (byte a div 4) # b64_chr (byte a mod 4 * 16 + byte b div 16)
     # b64_chr (byte b mod 16 * 4 + byte c div 64) # b64_chr (byte c mod 64) # base64 r"

definition random_secret_b64 :: "lc_env \<Rightarrow> string \<Rightarrow> string option" where
  "random_secret_b64 env key = map_option base64 (lc_random env key)"

section \<open>Resolving the configuration\<close>

definition resolve_field :: "lc_env \<Rightarrow> config \<Rightarrow> config_field \<Rightarrow> string option" where
  "resolve_field env config field =
     (let given = (case map_of config (cf_key field) of
            None \<Rightarrow> cf_default field
          | Some v \<Rightarrow> if v = [] then cf_default field else v) in
      case (if given = [] \<and> cf_type field = ''secret'' then random_secret env (cf_key field) else Some given) of
        None \<Rightarrow> None
      | Some v \<Rightarrow>
          if v = [] \<and> cf_type field = ''secret_base64'' then random_secret_b64 env (cf_key field) else Some v)"

fun resolve_fields :: "lc_env \<Rightarrow> config \<Rightarrow> config_field list \<Rightarrow> config \<Rightarrow> config option" where
  "resolve_fields env config [] acc = Some acc"
| "resolve_fields env config (fd # fds) acc =
     (case resolve_field env config fd of
        None \<Rightarrow> None
      | Some v \<Rightarrow> resolve_fields env config fds (AList.update (cf_key fd) v acc))"

definition builtin_config :: "lc_env \<Rightarrow> manager \<Rightarrow> string \<Rightarrow> manifest \<Rightarrow> config" where
  "builtin_config env m mid mf =
     [(''BASE_DOMAIN'', mg_domain m), (''MODULE_ID'', mid), (''MODULE_DIR'', mf_dir mf), (''MODULE_VERSION'', mf_version mf)]
     @ (if mf_needs_db mf then [(''DATABASE_URL'', lc_dburl env)] else [])
     @ (if mf_needs_ip mf then [(''HOST_IP'', case lc_ip env of Inl _ \<Rightarrow> [] | Inr ip \<Rightarrow> ip)] else [])"

definition resolve_config :: "lc_env \<Rightarrow> manager \<Rightarrow> string \<Rightarrow> manifest \<Rightarrow> config \<Rightarrow> config option" where
  "resolve_config env m mid mf config = resolve_fields env config (mf_schema mf) (builtin_config env m mid mf)"

text \<open>\<open>RenderCompose\<close>: the compose file and the \<open>.env\<close> file, one \<open>KEY=VALUE\<close> per line.\<close>

definition env_text :: "config \<Rightarrow> string" where
  "env_text config = text_lines (map (\<lambda>(k, v). k @ CHR ''='' # v) config)"

definition render_compose ::
  "lc_env \<Rightarrow> string \<Rightarrow> string \<Rightarrow> string \<Rightarrow> config \<Rightarrow> (string \<times> string \<times> string) list
     \<Rightarrow> (string + unit) \<times> (string \<times> string \<times> string) list" where
  "render_compose env catalog_dir compose_file mid config dirs =
     (let f = lc_faults env; text' = lc_file env catalog_dir compose_file;
          old_env = (case map_of dirs mid of None \<Rightarrow> [] | Some (_, e) \<Rightarrow> e) in
      if f ''create data dir'' then (Inl ''create data dir'', dirs)
      else if f ''open compose file'' then (Inl ''open compose file'', dirs)
      else if f ''create compose file'' then (Inl ''create compose file'', dirs)
      else if f ''copy compose file'' then (Inl ''copy compose file'', AList.update mid ([], old_env) dirs)
      else if f ''create env file'' then (Inl ''create env file'', AList.update mid (text', old_env) dirs)
      else if f ''write env file'' then (Inl ''write env file'', AList.update mid (text', []) dirs)
      else (Inr (), AList.update mid (text', env_text config) dirs))"

definition compose_up :: "faults \<Rightarrow> manager \<Rightarrow> string \<Rightarrow> (string + unit) \<times> manager" where
  "compose_up f m mid =
     (if f ''compose up'' then (Inl ''compose up'', m)
      else (Inr (), m\<lparr>mg_up := List.insert (project_name mid) (mg_up m)\<rparr>))"

definition compose_down :: "faults \<Rightarrow> manager \<Rightarrow> string \<Rightarrow> (string + unit) \<times> manager" where
  "compose_down f m mid =
     (if f ''compose down'' then (Inl ''compose down'', m)
      else (Inr (), m\<lparr>mg_up := removeAll (project_name mid) (mg_up m)\<rparr>))"

text \<open>The last step of an installation: the row is running and its configuration merged.\<close>

definition record_install :: "faults \<Rightarrow> manager \<Rightarrow> string \<Rightarrow> config \<Rightarrow> (string + unit) \<times> manager" where
  "record_install f m mid resolved =
     (if f ''record install'' then (Inl ''record install'', m)
      else (Inr (), with_db (update_mod mid
             (\<lambda>r. r\<lparr>in_status := ''running'', in_config := merge_config (in_config r) resolved\<rparr>)) m))"

definition do_install :: "lc_env \<Rightarrow> manager \<Rightarrow> string \<Rightarrow> manifest \<Rightarrow> config \<Rightarrow> (string + unit) \<times> manager" where
  "do_install env m mid mf config =
     (case resolve_config env m mid mf config of
        None \<Rightarrow> (Inl ''generate secret'', m)
      | Some resolved \<Rightarrow>
          (case render_compose env (mf_dir mf) (mf_compose mf) mid resolved (mg_dirs m) of
             (Inl e, dirs) \<Rightarrow> (Inl ''render compose'', m\<lparr>mg_dirs := dirs\<rparr>)
           | (Inr _, dirs) \<Rightarrow>
               (case compose_up (lc_faults env) (m\<lparr>mg_dirs := dirs\<rparr>) mid of
                  (Inl e, m1) \<Rightarrow> (Inl e, m1)
                | (Inr _, m1) \<Rightarrow>
                    (case publish (lc_faults env) m1 mid mf of
                       (Inl e, m2) \<Rightarrow> (Inl e, m2)
                     | (Inr _, m2) \<Rightarrow> record_install (lc_faults env) m2 mid resolved))))"

definition mark_error :: "faults \<Rightarrow> string \<Rightarrow> string \<Rightarrow> manager \<Rightarrow> manager" where
  "mark_error f mid cause m =
     (if f ''mark install error'' then m
      else with_db (update_mod mid (\<lambda>r. r\<lparr>in_status := ''error'', in_error := Some cause\<rparr>)) m)"

section \<open>Installing\<close>

definition has_newline :: "string \<Rightarrow> bool" where
  "has_newline v \<longleftrightarrow> CHR 0x0D \<in> set v \<or> newline \<in> set v"

text \<open>The configuration a former installation left, in its row or in the archive.\<close>

definition previous_config :: "faults \<Rightarrow> core_db \<Rightarrow> string \<Rightarrow> config option" where
  "previous_config f db mid =
     (case (if f ''previous config'' then None else find_mod db mid) of
        Some r \<Rightarrow> Some (in_config r)
      | None \<Rightarrow> if f ''archived config'' then None else map_of (cd_archive db) mid)"

definition with_previous :: "config option \<Rightarrow> config \<Rightarrow> config" where
  "with_previous prev config =
     (case prev of None \<Rightarrow> config | Some old \<Rightarrow> merge_config old (filter (\<lambda>(k, v). v \<noteq> []) config))"

text \<open>\<open>INSERT ... ON CONFLICT DO UPDATE\<close>: a new row is private by default.\<close>

definition record_installing :: "string \<Rightarrow> core_db \<Rightarrow> core_db" where
  "record_installing mid db =
     (if find_mod db mid = None
      then db\<lparr>cd_mods := cd_mods db @ [\<lparr>in_id = mid, in_status = ''installing'', in_config = [], in_error = None,
             in_vis = ''private''\<rparr>]\<rparr>
      else update_mod mid (\<lambda>r. r\<lparr>in_status := ''installing'', in_error := None\<rparr>) db)"

text \<open>What the request does: the result is the configuration and manifest of the background job.\<close>

definition install :: "lc_env \<Rightarrow> manager \<Rightarrow> string \<Rightarrow> config \<Rightarrow> (string + manifest \<times> config) \<times> manager" where
  "install env m mid config =
     (case in_catalog m mid of
        None \<Rightarrow> (Inl ''unknown module'', m)
      | Some mf \<Rightarrow>
          if mf_compose mf = [] then (Inl ''module is not yet available to install'', m)
          else if list_ex (\<lambda>(k, v). has_newline v) config then (Inl ''config value can't contain a newline'', m)
          else (case begin_op mid m of
             Inl e \<Rightarrow> (Inl e, m)
           | Inr m1 \<Rightarrow>
               (let merged = with_previous (previous_config (lc_faults env) (mg_db m1) mid) config in
                if lc_faults env ''record installing'' then (Inl ''record installing'', end_op mid m1)
                else (Inr (mf, merged), with_db (record_installing mid) m1))))"

text \<open>The background job.\<close>

definition install_job :: "lc_env \<Rightarrow> manager \<Rightarrow> string \<Rightarrow> manifest \<Rightarrow> config \<Rightarrow> manager" where
  "install_job env m mid mf config =
     (case do_install env m mid mf config of
        (Inl e, m1) \<Rightarrow> end_op mid (mark_error (lc_faults env) mid e m1)
      | (Inr _, m1) \<Rightarrow> end_op mid m1)"

section \<open>Enabling, disabling, uninstalling\<close>

text \<open>Taking a module off the proxy and down, the common start of \<open>Disable\<close> and \<open>Uninstall\<close>.\<close>

definition take_down :: "faults \<Rightarrow> manager \<Rightarrow> string \<Rightarrow> (string + unit) \<times> manager" where
  "take_down f m mid =
     (case remove_routes f (mg_proxy m) mid of
        (Inl e, px) \<Rightarrow> (Inl ''unroute module'', m\<lparr>mg_proxy := px\<rparr>)
      | (Inr _, px) \<Rightarrow>
          (case remove_path_routes f px mid of
             (Inl e, px1) \<Rightarrow> (Inl ''unroute module'', m\<lparr>mg_proxy := px1\<rparr>)
           | (Inr _, px1) \<Rightarrow> compose_down f (m\<lparr>mg_proxy := px1\<rparr>) mid))"

definition disable_body :: "lc_env \<Rightarrow> manager \<Rightarrow> string \<Rightarrow> (string + unit) \<times> manager" where
  "disable_body env m mid =
     (case take_down (lc_faults env) m mid of
        (Inl e, m1) \<Rightarrow> (Inl e, m1)
      | (Inr _, m1) \<Rightarrow>
          if lc_faults env ''stopped'' then (Inl ''stopped'', m1)
          else (Inr (), with_db (update_mod mid (\<lambda>r. r\<lparr>in_status := ''stopped''\<rparr>)) m1))"

definition enable_body :: "lc_env \<Rightarrow> manager \<Rightarrow> string \<Rightarrow> (string + unit) \<times> manager" where
  "enable_body env m mid =
     (case in_catalog m mid of
        None \<Rightarrow> (Inl ''unknown module'', m)
      | Some mf \<Rightarrow>
          (case compose_up (lc_faults env) m mid of
             (Inl e, m1) \<Rightarrow> (Inl e, m1)
           | (Inr _, m1) \<Rightarrow>
               (case publish (lc_faults env) m1 mid mf of
                  (Inl e, m2) \<Rightarrow> (Inl e, m2)
                | (Inr _, m2) \<Rightarrow>
                    if lc_faults env ''running'' then (Inl ''running'', m2)
                    else (Inr (), with_db (update_mod mid (\<lambda>r. r\<lparr>in_status := ''running'', in_error := None\<rparr>)) m2))))"

definition archive_config :: "string \<Rightarrow> core_db \<Rightarrow> core_db" where
  "archive_config mid db =
     (case find_mod db mid of
        None \<Rightarrow> db
      | Some r \<Rightarrow> db\<lparr>cd_archive := AList.update mid (in_config r) (cd_archive db)\<rparr>)"

definition delete_mod :: "string \<Rightarrow> core_db \<Rightarrow> core_db" where
  "delete_mod mid db = db\<lparr>cd_mods := filter (\<lambda>r. in_id r \<noteq> mid) (cd_mods db)\<rparr>"

definition uninstall_body :: "lc_env \<Rightarrow> manager \<Rightarrow> string \<Rightarrow> (string + unit) \<times> manager" where
  "uninstall_body env m mid =
     (case take_down (lc_faults env) m mid of
        (Inl e, m1) \<Rightarrow> (Inl e, m1)
      | (Inr _, m1) \<Rightarrow>
          if lc_faults env ''remove rendered compose dir'' then (Inl ''remove rendered compose dir'', m1)
          else (let m2 = m1\<lparr>mg_dirs := AList.delete mid (mg_dirs m1)\<rparr> in
                if lc_faults env ''keep module config'' then (Inl ''keep module config'', m2)
                else (let m3 = with_db (archive_config mid) m2 in
                      if lc_faults env ''delete'' then (Inl ''delete'', m3)
                      else (Inr (), with_db (delete_mod mid) m3))))"

text \<open>Each of them under the module's exclusive claim.\<close>

definition exclusively ::
  "(manager \<Rightarrow> string \<Rightarrow> (string + unit) \<times> manager) \<Rightarrow> manager \<Rightarrow> string \<Rightarrow> (string + unit) \<times> manager" where
  "exclusively body m mid =
     (case begin_op mid m of
        Inl e \<Rightarrow> (Inl e, m)
      | Inr m1 \<Rightarrow> (case body m1 mid of (r, m2) \<Rightarrow> (r, end_op mid m2)))"

definition disable :: "lc_env \<Rightarrow> manager \<Rightarrow> string \<Rightarrow> (string + unit) \<times> manager" where
  "disable env = exclusively (disable_body env)"

definition enable :: "lc_env \<Rightarrow> manager \<Rightarrow> string \<Rightarrow> (string + unit) \<times> manager" where
  "enable env = exclusively (enable_body env)"

definition uninstall :: "lc_env \<Rightarrow> manager \<Rightarrow> string \<Rightarrow> (string + unit) \<times> manager" where
  "uninstall env = exclusively (uninstall_body env)"

definition reinstall_body :: "lc_env \<Rightarrow> manifest \<Rightarrow> manager \<Rightarrow> string \<Rightarrow> (string + unit) \<times> manager" where
  "reinstall_body env mf m mid =
     (case (if lc_faults env ''load config'' then None else find_mod (mg_db m) mid) of
        None \<Rightarrow> (Inl ''load config'', m)
      | Some r \<Rightarrow> do_install env m mid mf (in_config r))"

definition reinstall :: "lc_env \<Rightarrow> manager \<Rightarrow> string \<Rightarrow> (string + unit) \<times> manager" where
  "reinstall env m mid =
     (case in_catalog m mid of
        None \<Rightarrow> (Inl ''unknown module'', m)
      | Some mf \<Rightarrow> exclusively (reinstall_body env mf) m mid)"

section \<open>Listing\<close>

record mod_status =
  ms_id :: string
  ms_status :: string
  ms_config :: config
  ms_error :: "string option"
  ms_vis :: string
  ms_port :: "nat option"

definition status_of_row :: "core_db \<Rightarrow> inst_row \<Rightarrow> mod_status" where
  "status_of_row db r = \<lparr>ms_id = in_id r, ms_status = in_status r, ms_config = in_config r, ms_error = in_error r,
     ms_vis = in_vis r, ms_port = map_of (cd_ports db) (in_id r)\<rparr>"

definition get_installed :: "faults \<Rightarrow> core_db \<Rightarrow> string \<Rightarrow> string + mod_status option" where
  "get_installed f db mid =
     (if f ''query installed_modules'' then Inl ''query installed_modules''
      else Inr (map_option (status_of_row db) (find_mod db mid)))"

definition catalog_list :: "manager \<Rightarrow> manifest list" where
  "catalog_list m = order_by (\<lambda>a b. ord.lexordp (\<lambda>x y. byte x < byte y) (mf_id a) (mf_id b)) (mg_catalog m)"

definition list_statuses :: "faults \<Rightarrow> manager \<Rightarrow> string + mod_status list" where
  "list_statuses f m =
     (if f ''query installed_modules'' then Inl ''query installed_modules''
      else if f ''scan installed_modules'' then Inl ''scan installed_modules''
      else Inr (map (\<lambda>mf. case find_mod (mg_db m) (mf_id mf) of
          Some r \<Rightarrow> status_of_row (mg_db m) r
        | None \<Rightarrow> \<lparr>ms_id = mf_id mf, ms_status = ''not_installed'', ms_config = [], ms_error = None, ms_vis = [],
            ms_port = None\<rparr>) (catalog_list m)))"

definition installed_ids :: "faults \<Rightarrow> core_db \<Rightarrow> string + string list" where
  "installed_ids f db =
     (if f ''list installed'' then Inl ''list installed''
      else Inr (order_by (\<lambda>a b. ord.lexordp (\<lambda>x y. byte x < byte y) a b) (map in_id (cd_mods db))))"

definition backup_volumes :: "manager \<Rightarrow> string \<Rightarrow> (string \<times> string) list" where
  "backup_volumes m mid =
     (case in_catalog m mid of
        None \<Rightarrow> []
      | Some mf \<Rightarrow> map (\<lambda>key. (key, volume_name mid key)) (mf_volumes mf))"

section \<open>Health\<close>

record container =
  ct_name :: string
  ct_state :: string
  ct_health :: string
  ct_exit :: int
  ct_oneshot :: bool

definition container_problem :: "container \<Rightarrow> string option" where
  "container_problem c =
     (if ct_state c = ''running'' \<and> ct_health c \<noteq> ''unhealthy'' then None
      else if ct_state c = ''exited'' \<and> ct_exit c = 0 \<and> ct_oneshot c then None
      else Some (ct_name c @ '': '' @ (if ct_state c = ''running'' then ''unhealthy''
        else if ct_state c = ''exited'' then ''stopped (exit '' @ int_str (ct_exit c) @ '')''
        else ct_state c)))"

text \<open>An error, or healthy, or the reason why not.\<close>

definition health :: "string + container list \<Rightarrow> string + (bool \<times> string)" where
  "health containers =
     (case containers of
        Inl e \<Rightarrow> Inl e
      | Inr cs \<Rightarrow>
          if cs = [] then Inr (False, ''no containers'')
          else (let problems = List.map_filter container_problem cs in
                if problems \<noteq> [] then Inr (False, join ''; '' problems) else Inr (True, [])))"

text \<open>
  \<open>WaitHealthy\<close>: one reading per round, \<open>(t, r)\<close> with the time the round starts and what \<open>Health\<close> says;
  \<open>cancelled\<close> in a round stops the wait after its reading.  The list ends where the deadline has passed.
\<close>

definition needed_streak :: nat where "needed_streak = 4"

fun wait_healthy ::
  "time \<Rightarrow> (time \<times> bool \<times> (string + (bool \<times> string))) list \<Rightarrow> nat \<Rightarrow> string \<Rightarrow> string + unit" where
  "wait_healthy deadline [] streak why = Inl why"
| "wait_healthy deadline ((t, cancelled, r) # rest) streak why =
     (if \<not> t < deadline then Inl why
      else case r of
        Inl e \<Rightarrow> if cancelled then Inl ''context canceled'' else wait_healthy deadline rest 0 e
      | Inr (ok, detail) \<Rightarrow>
          if ok then
            (if needed_streak \<le> streak + 1 then Inr ()
             else if cancelled then Inl ''context canceled'' else wait_healthy deadline rest (streak + 1) why)
          else if cancelled then Inl ''context canceled'' else wait_healthy deadline rest 0 detail)"

end
