(* ===== verification/LifecycleProps.thy ===== *)
theory LifecycleProps
  imports Installer
begin

text \<open>
  What the module manager guarantees: one operation per module at a time, private ports that never clash,
  private modules that stay private, rendered files that agree with the stored configuration, and secrets
  that survive a reinstallation, with the case in which they do not.
\<close>

section \<open>Configurations\<close>

lemma map_of_merge: "map_of (merge_config old new) k = (case map_of (rev new) k of None \<Rightarrow> map_of old k | Some v \<Rightarrow> Some v)"
  unfolding merge_config_def
proof (induction new arbitrary: old)
  case (Cons e new)
  then show ?case by (cases e) (auto simp: update_conv' map_add_def split: option.splits)
qed simp

lemma distinct_map_of_rev: "distinct (map fst xs) \<Longrightarrow> map_of (rev xs) = map_of xs"
  by (rule map_of_eqI) (auto simp: map_of_eq_None_iff intro: map_of_is_SomeI simp: rev_map [symmetric])

lemma resolve_fields_distinct:
  "resolve_fields env config fds acc = Some res \<Longrightarrow> distinct (map fst acc) \<Longrightarrow> distinct (map fst res)"
  by (induction env config fds acc rule: resolve_fields.induct) (auto split: option.splits intro: distinct_update)

lemma resolve_fields_other:
  "resolve_fields env config fds acc = Some res \<Longrightarrow> k \<notin> cf_key ` set fds \<Longrightarrow> map_of res k = map_of acc k"
  by (induction env config fds acc rule: resolve_fields.induct) (auto simp: update_conv' split: option.splits)

lemma resolve_fields_value:
  "resolve_fields env config fds acc = Some res \<Longrightarrow> distinct (map cf_key fds) \<Longrightarrow> fd \<in> set fds \<Longrightarrow>
   map_of res (cf_key fd) = resolve_field env config fd"
proof (induction env config fds acc rule: resolve_fields.induct)
  case (2 env config fd' fds acc)
  then obtain v where v: "resolve_field env config fd' = Some v"
    "resolve_fields env config fds (AList.update (cf_key fd') v acc) = Some res"
    by (auto split: option.splits)
  show ?case
  proof (cases "fd = fd'")
    case True
    then have "cf_key fd \<notin> cf_key ` set fds" using 2(3) by simp
    then show ?thesis using resolve_fields_other [OF v(2)] True v(1) by (simp add: update_conv')
  next
    case False
    then show ?thesis using 2 v by simp
  qed
qed simp

lemma builtin_distinct: "distinct (map fst (builtin_config env m mid mf))"
  by (simp add: builtin_config_def)

lemma resolve_given: "map_of config (cf_key fd) = Some v \<Longrightarrow> v \<noteq> [] \<Longrightarrow> resolve_field env config fd = Some v"
  by (simp add: resolve_field_def)

text \<open>A line of the rendered \<open>.env\<close> file, read back.\<close>

definition parse_env :: "string \<Rightarrow> config" where
  "parse_env text' = map (\<lambda>l. case cut_chr (CHR ''='') l of (k, v, _) \<Rightarrow> (k, v)) (butlast (split_chr newline text'))"

lemma cut_chr_pair: "c \<notin> set k \<Longrightarrow> cut_chr c (k @ c # v) = (k, v, True)"
  by (induction k) auto

lemma parse_env_text:
  assumes "\<forall>(k, v) \<in> set config. CHR ''='' \<notin> set k \<and> newline \<notin> set k \<and> newline \<notin> set v"
  shows "parse_env (env_text config) = config"
proof -
  have "\<forall>l \<in> set (map (\<lambda>(k, v). k @ CHR ''='' # v) config). newline \<notin> set l" using assms by auto
  from split_text_lines [OF this] show ?thesis
    using assms by (auto simp: parse_env_def env_text_def cut_chr_pair intro!: map_idI)
qed

section \<open>Tables\<close>

lemma find_update_mod:
  assumes "\<And>r. in_id (g r) = in_id r"
  shows "find_mod (update_mod mid g db) k = (if k = mid then map_option g (find_mod db k) else find_mod db k)"
proof -
  have "find (\<lambda>r. in_id r = k) (map (\<lambda>r. if in_id r = mid then g r else r) xs)
      = (if k = mid then map_option g (find (\<lambda>r. in_id r = k) xs) else find (\<lambda>r. in_id r = k) xs)" for xs
    using assms by (induction xs) auto
  then show ?thesis by (simp add: find_mod_def update_mod_def)
qed

lemma update_mod_ids [simp]:
  "(\<And>r. in_id (g r) = in_id r) \<Longrightarrow> map in_id (cd_mods (update_mod mid g db)) = map in_id (cd_mods db)"
  by (simp add: update_mod_def)

lemma update_mod_other [simp]: "cd_ports (update_mod mid g db) = cd_ports db" "cd_archive (update_mod mid g db) = cd_archive db"
  "cd_settings (update_mod mid g db) = cd_settings db"
  by (simp_all add: update_mod_def)

lemma find_record_installing:
  "find_mod (record_installing mid db) mid \<noteq> None"
  by (auto simp: record_installing_def find_update_mod) (auto simp: find_mod_def find_append split: option.splits)

section \<open>Ports\<close>

definition ports_ok :: "core_db \<Rightarrow> bool" where
  "ports_ok db \<longleftrightarrow> distinct (map fst (cd_ports db)) \<and> distinct (map snd (cd_ports db))
     \<and> (\<forall>p \<in> set (map snd (cd_ports db)). 9100 \<le> p)"

lemma next_port_max: "p \<in> snd ` set (cd_ports db) \<Longrightarrow> p \<le> next_port db"
proof -
  have "p \<in> set xs \<Longrightarrow> p \<le> foldr max xs 0" for p :: nat and xs
    by (induction xs) (auto simp: le_max_iff_disj)
  then show "p \<in> snd ` set (cd_ports db) \<Longrightarrow> p \<le> next_port db" by (simp add: next_port_def)
qed

lemma private_port_ok:
  assumes "private_port f db mid = (r, db')" "ports_ok db"
  shows "ports_ok db' \<and> cd_mods db' = cd_mods db \<and> cd_archive db' = cd_archive db
    \<and> (\<forall>p. r = Inr p \<longrightarrow> 9100 \<le> p \<and> map_of (cd_ports db') mid = Some p)"
proof (cases "map_of (cd_ports db) mid")
  case None
  let ?port = "(if cd_ports db = [] then 9099 else next_port db) + 1"
  have new: "\<forall>p \<in> snd ` set (cd_ports db). p < ?port" using next_port_max [of _ db] by (fastforce simp: less_Suc_eq_le)
  have "9100 \<le> ?port"
  proof (cases "cd_ports db")
    case (Cons e es)
    then have "9100 \<le> snd e" "snd e \<le> next_port db"
      using assms(2) next_port_max [of "snd e" db] by (auto simp: ports_ok_def)
    then show ?thesis using Cons by simp
  qed simp
  moreover have "ports_ok (db\<lparr>cd_ports := cd_ports db @ [(mid, ?port)]\<rparr>)"
    using assms(2) None new \<open>9100 \<le> ?port\<close> by (auto simp: ports_ok_def map_of_eq_None_iff)
  moreover have "map_of (cd_ports db @ [(mid, ?port)]) mid = Some ?port" using None by (simp add: map_add_def)
  ultimately show ?thesis using assms None by (auto simp: private_port_def simp del: map_of_append Let_def split: if_splits)
next
  case (Some p)
  then have "9100 \<le> p" using assms(2) by (auto simp: ports_ok_def dest!: map_of_SomeD)
  then show ?thesis using assms Some by (auto simp: private_port_def split: if_splits)
qed

lemma primary_port_ok:
  assumes "primary_port f db mid = (r, db')" "ports_ok db"
  shows "ports_ok db' \<and> cd_mods db' = cd_mods db \<and> cd_archive db' = cd_archive db
    \<and> (\<forall>p. r = Inr p \<longrightarrow> (case find_mod db mid of None \<Rightarrow> 9100 \<le> p
         | Some row \<Rightarrow> if in_vis row = ''private'' then 9100 \<le> p else p = 0))"
  using assms private_port_ok [of f db mid r db']
  by (auto simp: primary_port_def visibility_def split: if_splits option.splits)

text \<open>What a route's target must look like: only the primary route of a private module has a private port.\<close>

definition target_ok :: "string \<Rightarrow> bool \<Rightarrow> core_db \<Rightarrow> string \<Rightarrow> route_target \<Rightarrow> mod_route \<Rightarrow> bool" where
  "target_ok dmn tls db mid t r \<longleftrightarrow> t = route_target_of dmn mid tls (rt_private_port t) r \<and>
     (if xr_name r \<noteq> [] then rt_private_port t = 0
      else case find_mod db mid of None \<Rightarrow> 9100 \<le> rt_private_port t
        | Some row \<Rightarrow> if in_vis row = ''private'' then 9100 \<le> rt_private_port t else rt_private_port t = 0)"

lemma target_ok_cong: "find_mod db1 mid = find_mod db mid \<Longrightarrow> target_ok dmn tls db1 mid = target_ok dmn tls db mid"
  by (simp add: target_ok_def fun_eq_iff)

lemma route_targets_ok:
  assumes "route_targets f dmn db mid rs tls = (res, db')" "ports_ok db"
  shows "ports_ok db' \<and> cd_mods db' = cd_mods db \<and> cd_archive db' = cd_archive db \<and>
    (\<forall>ts. res = Inr ts \<longrightarrow> map rt_name ts = map xr_name rs \<and> list_all2 (target_ok dmn tls db mid) ts rs)"
  using assms
proof (induction f dmn db mid rs tls arbitrary: res db' rule: route_targets.induct)
  case (2 f dmn db mid r rs tls)
  obtain p1 db1 where p1: "(if xr_name r = [] then primary_port f db mid else (Inr 0, db)) = (p1, db1)" by fastforce
  have ok1: "ports_ok db1" "cd_mods db1 = cd_mods db" "cd_archive db1 = cd_archive db"
    using p1 primary_port_ok [of f db mid p1 db1] 2(3) by (auto split: if_splits)
  show ?case
  proof (cases p1)
    case (Inl e)
    then show ?thesis using 2(2) p1 ok1 by auto
  next
    case (Inr port)
    obtain ts1 db2 where ts1: "route_targets f dmn db1 mid rs tls = (ts1, db2)" by fastforce
    note IH = 2(1) [OF p1 [symmetric] Inr ts1 ok1(1)]
    have fm: "find_mod db1 mid = find_mod db mid" using ok1(2) by (simp add: find_mod_def)
    show ?thesis
    proof (cases ts1)
      case (Inl e)
      then show ?thesis using 2(2) p1 Inr ts1 ok1 IH by auto
    next
      case ts: (Inr ts)
      have res: "res = Inr (route_target_of dmn mid tls port r # ts)" "db' = db2"
        using 2(2) p1 Inr ts1 ts by simp_all
      have "xr_name r \<noteq> [] \<Longrightarrow> port = 0" using p1 Inr by auto
      moreover have "xr_name r = [] \<Longrightarrow> (case find_mod db mid of None \<Rightarrow> 9100 \<le> port
          | Some row \<Rightarrow> if in_vis row = ''private'' then 9100 \<le> port else port = 0)"
        using p1 primary_port_ok [of f db mid p1 db1] 2(3) Inr by auto
      ultimately have "target_ok dmn tls db mid (route_target_of dmn mid tls port r) r"
        "rt_name (route_target_of dmn mid tls port r) = xr_name r"
        by (auto simp: target_ok_def route_target_of_def split: option.splits)
      then show ?thesis using IH res ok1 ts target_ok_cong [OF fm] by simp
    qed
  qed
qed simp

section \<open>What every operation keeps\<close>

definition manager_ok :: "manager \<Rightarrow> bool" where
  "manager_ok m \<longleftrightarrow> distinct (map in_id (cd_mods (mg_db m))) \<and> ports_ok (mg_db m)"

text \<open>An operation on a module claims nothing, and leaves the rows as they are or changes them in place.\<close>

definition op_keeps :: "manager \<Rightarrow> manager \<Rightarrow> bool" where
  "op_keeps m m' \<longleftrightarrow> mg_busy m' = mg_busy m \<and> (manager_ok m \<longrightarrow> manager_ok m')"

lemma op_keeps_refl [simp]: "op_keeps m m"
  by (simp add: op_keeps_def)

lemma op_keeps_trans: "op_keeps a b \<Longrightarrow> op_keeps b c \<Longrightarrow> op_keeps a c"
  by (simp add: op_keeps_def)

lemma op_keeps_db:
  "mg_busy m' = mg_busy m \<Longrightarrow> map in_id (cd_mods (mg_db m')) = map in_id (cd_mods (mg_db m)) \<Longrightarrow>
   cd_ports (mg_db m') = cd_ports (mg_db m) \<Longrightarrow> op_keeps m m'"
  by (simp add: op_keeps_def manager_ok_def ports_ok_def)

lemma publish_routes_keeps:
  assumes "publish_routes f m mid mf = (r, m')"
  shows "op_keeps m m' \<and> (ports_ok (mg_db m) \<longrightarrow> cd_mods (mg_db m') = cd_mods (mg_db m)
    \<and> cd_archive (mg_db m') = cd_archive (mg_db m)) \<and> mg_dirs m' = mg_dirs m \<and> mg_up m' = mg_up m
    \<and> mg_domain m' = mg_domain m \<and> mg_catalog m' = mg_catalog m"
proof -
  obtain res db where rt: "route_targets f (mg_domain m) (mg_db m) mid (mf_routes mf) (mf_needs_tls mf) = (res, db)" by fastforce
  show ?thesis
    using assms rt route_targets_ok [OF rt]
    by (auto simp: publish_routes_def op_keeps_def manager_ok_def split: sum.splits prod.splits)
qed

lemma publish_keeps:
  assumes "publish f m mid mf = (r, m')"
  shows "op_keeps m m' \<and> (ports_ok (mg_db m) \<longrightarrow> cd_mods (mg_db m') = cd_mods (mg_db m)
    \<and> cd_archive (mg_db m') = cd_archive (mg_db m)) \<and> mg_dirs m' = mg_dirs m \<and> mg_up m' = mg_up m
    \<and> mg_domain m' = mg_domain m \<and> mg_catalog m' = mg_catalog m"
proof -
  obtain r1 m1 where p1: "(if mf_routes mf \<noteq> [] then publish_routes f m mid mf else (Inr (), m)) = (r1, m1)" by fastforce
  have k1: "op_keeps m m1 \<and> (ports_ok (mg_db m) \<longrightarrow> cd_mods (mg_db m1) = cd_mods (mg_db m)
    \<and> cd_archive (mg_db m1) = cd_archive (mg_db m)) \<and> mg_dirs m1 = mg_dirs m \<and> mg_up m1 = mg_up m
    \<and> mg_domain m1 = mg_domain m \<and> mg_catalog m1 = mg_catalog m"
    using p1 publish_routes_keeps by (auto split: if_splits)
  have px: "op_keeps m (m1\<lparr>mg_proxy := px\<rparr>)" for px
    using k1 by (simp add: op_keeps_def manager_ok_def)
  show ?thesis
    using assms p1 k1 px by (auto simp: publish_def split: sum.splits prod.splits if_splits)
qed

lemma do_install_keeps:
  assumes "do_install env m mid mf config = (r, m')"
  shows "op_keeps m m'"
proof (cases "resolve_config env m mid mf config")
  case (Some resolved)
  obtain r1 dirs where rc: "render_compose env (mf_dir mf) (mf_compose mf) mid resolved (mg_dirs m) = (r1, dirs)" by fastforce
  obtain r2 m1 where up: "compose_up (lc_faults env) (m\<lparr>mg_dirs := dirs\<rparr>) mid = (r2, m1)" by fastforce
  obtain r3 m2 where pub: "publish (lc_faults env) m1 mid mf = (r3, m2)" by fastforce
  have k0: "op_keeps m (m\<lparr>mg_dirs := dirs\<rparr>)" by (rule op_keeps_db) simp_all
  have "op_keeps (m\<lparr>mg_dirs := dirs\<rparr>) m1" using up by (auto simp: compose_up_def intro!: op_keeps_db split: if_splits)
  with k0 have k1: "op_keeps m m1" by (rule op_keeps_trans)
  then have k2: "op_keeps m m2" using publish_keeps [OF pub] by (blast intro: op_keeps_trans)
  have "op_keeps m2 (snd (record_install (lc_faults env) m2 mid resolved))"
    by (auto simp: record_install_def with_db_def intro!: op_keeps_db)
  then have k3: "op_keeps m (snd (record_install (lc_faults env) m2 mid resolved))" using k2 by (blast intro: op_keeps_trans)
  show ?thesis
    using assms Some rc up pub k0 k1 k2 k3 by (auto simp: do_install_def split: sum.splits)
qed (use assms in \<open>simp add: do_install_def\<close>)

lemma take_down_keeps:
  assumes "take_down f m mid = (r, m')"
  shows "op_keeps m m' \<and> mg_db m' = mg_db m \<and> mg_dirs m' = mg_dirs m \<and> mg_catalog m' = mg_catalog m
    \<and> mg_domain m' = mg_domain m"
  using assms by (auto simp: take_down_def compose_down_def intro!: op_keeps_db split: sum.splits prod.splits if_splits)

lemma disable_body_keeps: "disable_body env m mid = (r, m') \<Longrightarrow> op_keeps m m'"
  by (auto simp: disable_body_def with_db_def op_keeps_def manager_ok_def ports_ok_def dest!: take_down_keeps
      split: prod.splits sum.splits if_splits)

lemma enable_body_keeps:
  assumes "enable_body env m mid = (r, m')"
  shows "op_keeps m m'"
proof (cases "in_catalog m mid")
  case (Some mf)
  obtain r1 m1 where up: "compose_up (lc_faults env) m mid = (r1, m1)" by fastforce
  obtain r2 m2 where pub: "publish (lc_faults env) m1 mid mf = (r2, m2)" by fastforce
  have k1: "op_keeps m m1" using up by (auto simp: compose_up_def intro!: op_keeps_db split: if_splits)
  then have k2: "op_keeps m m2" using publish_keeps [OF pub] by (blast intro: op_keeps_trans)
  have "op_keeps m2 (with_db (update_mod mid (\<lambda>r. r\<lparr>in_status := ''running'', in_error := None\<rparr>)) m2)"
    by (auto simp: with_db_def intro!: op_keeps_db)
  then have k3: "op_keeps m (with_db (update_mod mid (\<lambda>r. r\<lparr>in_status := ''running'', in_error := None\<rparr>)) m2)"
    using k2 by (blast intro: op_keeps_trans)
  show ?thesis
    using assms Some up pub k1 k2 k3 by (auto simp: enable_body_def split: sum.splits if_splits)
qed (use assms in \<open>simp add: enable_body_def\<close>)

lemma archive_config_rows [simp]: "cd_mods (archive_config mid db) = cd_mods db" "cd_ports (archive_config mid db) = cd_ports db"
  by (simp_all add: archive_config_def split: option.splits)

lemma uninstall_body_keeps:
  assumes "uninstall_body env m mid = (r, m')"
  shows "op_keeps m m'"
proof -
  obtain r1 m1 where td: "take_down (lc_faults env) m mid = (r1, m1)" by fastforce
  have k1: "op_keeps m m1" using take_down_keeps [OF td] by simp
  have "op_keeps m1 (m1\<lparr>mg_dirs := d\<rparr>)" for d by (rule op_keeps_db) simp_all
  moreover have "op_keeps m1 (with_db (archive_config mid) (m1\<lparr>mg_dirs := d\<rparr>))" for d
    by (rule op_keeps_db) (simp_all add: with_db_def)
  moreover have "op_keeps m1 (with_db (delete_mod mid) (with_db (archive_config mid) (m1\<lparr>mg_dirs := d\<rparr>)))" for d
    by (auto simp: op_keeps_def manager_ok_def with_db_def delete_mod_def ports_ok_def intro: distinct_map_filter')
  ultimately show ?thesis
    using assms td k1 by (auto simp: uninstall_body_def Let_def split: sum.splits if_splits intro: op_keeps_trans)
qed

lemma reinstall_body_keeps: "reinstall_body env mf m mid = (r, m') \<Longrightarrow> op_keeps m m'"
  by (auto simp: reinstall_body_def dest: do_install_keeps split: option.splits)

lemma set_visibility_keeps:
  assumes "set_visibility f m mid v = (r, m')"
  shows "op_keeps m m'"
proof -
  have k: "op_keeps m (with_db (update_mod mid (\<lambda>r. r\<lparr>in_vis := v\<rparr>)) m)"
    by (auto simp: with_db_def intro!: op_keeps_db)
  then show ?thesis
    using assms by (auto simp: set_visibility_def Let_def split: if_splits option.splits
        dest!: publish_routes_keeps intro: op_keeps_trans)
qed

section \<open>Operations in flight\<close>

text \<open>
  The manager with the operations that have begun and not ended.  Beginning is one step and the work of an
  operation together with its end another; steps of different operations interleave freely.
\<close>

datatype lc_job =
    Installing manifest config
  | Enabling
  | Disabling
  | Uninstalling
  | Reinstalling manifest

fun job_body :: "lc_env \<Rightarrow> lc_job \<Rightarrow> manager \<Rightarrow> string \<Rightarrow> manager" where
  "job_body env (Installing mf config) m mid =
     (case do_install env m mid mf config of
        (Inl e, m1) \<Rightarrow> mark_error (lc_faults env) mid e m1
      | (Inr _, m1) \<Rightarrow> m1)"
| "job_body env Enabling m mid = snd (enable_body env m mid)"
| "job_body env Disabling m mid = snd (disable_body env m mid)"
| "job_body env Uninstalling m mid = snd (uninstall_body env m mid)"
| "job_body env (Reinstalling mf) m mid = snd (reinstall_body env mf m mid)"

lemma install_job_body: "install_job env m mid mf config = end_op mid (job_body env (Installing mf config) m mid)"
  by (auto simp: install_job_def split: prod.split sum.split)

lemma enable_job: "begin_op mid m = Inr m1 \<Longrightarrow> snd (enable env m mid) = end_op mid (job_body env Enabling m1 mid)"
  "begin_op mid m = Inr m1 \<Longrightarrow> snd (disable env m mid) = end_op mid (job_body env Disabling m1 mid)"
  "begin_op mid m = Inr m1 \<Longrightarrow> snd (uninstall env m mid) = end_op mid (job_body env Uninstalling m1 mid)"
  by (simp_all add: enable_def disable_def uninstall_def exclusively_def split: prod.split)

inductive lc_reach :: "manager \<times> (string \<times> lc_job) list \<Rightarrow> bool" where
  boot: "new_manager f db catalog px domain = Inr m \<Longrightarrow> distinct (map in_id (cd_mods db)) \<Longrightarrow> ports_ok db \<Longrightarrow>
    lc_reach (m, [])"
| installs: "lc_reach (m, js) \<Longrightarrow> install env m mid config = (Inr (mf, cfg), m') \<Longrightarrow>
    lc_reach (m', (mid, Installing mf cfg) # js)"
| refuses: "lc_reach (m, js) \<Longrightarrow> install env m mid config = (Inl e, m') \<Longrightarrow> lc_reach (m', js)"
| begins: "lc_reach (m, js) \<Longrightarrow> begin_op mid m = Inr m' \<Longrightarrow> lc_reach (m', (mid, job) # js)"
| ends: "lc_reach (m, js) \<Longrightarrow> (mid, job) \<in> set js \<Longrightarrow>
    lc_reach (end_op mid (job_body env job m mid), filter (\<lambda>j. fst j \<noteq> mid) js)"
| shows_module: "lc_reach (m, js) \<Longrightarrow> lc_reach (snd (set_visibility f m mid v), js)"
| domain_set: "lc_reach (m, js) \<Longrightarrow> lc_reach (snd (set_base_domain f domain m), js)"
| theme_set: "lc_reach (m, js) \<Longrightarrow> lc_reach (snd (set_theme f theme m), js)"

lemma job_body_keeps: "op_keeps m (job_body env job m mid)"
proof (cases job)
  case (Installing mf config)
  obtain r m1 where di: "do_install env m mid mf config = (r, m1)" by fastforce
  have "op_keeps m1 (mark_error (lc_faults env) mid e m1)" for e
    by (auto simp: mark_error_def with_db_def intro!: op_keeps_db)
  then show ?thesis
    using Installing di do_install_keeps [OF di] by (auto split: sum.splits intro: op_keeps_trans)
next
  case Enabling
  then show ?thesis using enable_body_keeps [OF surjective_pairing] by simp
next
  case Disabling
  then show ?thesis using disable_body_keeps [OF surjective_pairing] by simp
next
  case Uninstalling
  then show ?thesis using uninstall_body_keeps [OF surjective_pairing] by simp
next
  case (Reinstalling mf)
  then show ?thesis using reinstall_body_keeps [OF surjective_pairing] by simp
qed

lemma begin_op_ok: "begin_op mid m = Inr m' \<Longrightarrow> mid \<notin> set (mg_busy m) \<and> mg_busy m' = mid # mg_busy m
    \<and> mg_db m' = mg_db m \<and> mg_catalog m' = mg_catalog m"
  by (auto simp: begin_op_def split: if_splits)

lemma end_op_simps [simp]: "mg_busy (end_op mid m) = removeAll mid (mg_busy m)" "mg_db (end_op mid m) = mg_db m"
  "mg_dirs (end_op mid m) = mg_dirs m" "mg_catalog (end_op mid m) = mg_catalog m"
  "manager_ok (end_op mid m) = manager_ok m"
  by (simp_all add: end_op_def manager_ok_def)

lemma record_installing_ok:
  "distinct (map in_id (cd_mods db)) \<Longrightarrow> distinct (map in_id (cd_mods (record_installing mid db)))"
  "cd_ports (record_installing mid db) = cd_ports db"
  by (auto simp: record_installing_def find_mod_def find_None_iff)

lemma install_ok:
  assumes "install env m mid config = (Inr (mf, cfg), m')"
  shows "mid \<notin> set (mg_busy m) \<and> mg_busy m' = mid # mg_busy m \<and> mg_db m' = record_installing mid (mg_db m)
    \<and> in_catalog m mid = Some mf \<and> cfg = with_previous (previous_config (lc_faults env) (mg_db m) mid) config
    \<and> mg_catalog m' = mg_catalog m \<and> mg_proxy m' = mg_proxy m \<and> mg_domain m' = mg_domain m \<and> mg_dirs m' = mg_dirs m"
  using assms
  by (auto simp: install_def begin_op_def with_db_def Let_def split: option.splits if_splits sum.splits)

lemma install_refused:
  assumes "install env m mid config = (Inl e, m')"
  shows "mg_db m' = mg_db m \<and> mg_busy m' = mg_busy m"
  using assms
  by (auto simp: install_def begin_op_def Let_def end_op_def split: option.splits if_splits sum.splits)

lemma lc_safe:
  "lc_reach s \<Longrightarrow> manager_ok (fst s) \<and> map fst (snd s) = mg_busy (fst s) \<and> distinct (map fst (snd s))"
proof (induction rule: lc_reach.induct)
  case (boot f db catalog px domain m)
  then have "cd_mods (mg_db m) = cd_mods db" "cd_ports (mg_db m) = cd_ports db" "mg_busy m = []"
    by (auto simp: new_manager_def Let_def split: if_splits option.splits)
  then show ?case using boot(2,3) by (simp add: manager_ok_def ports_ok_def)
next
  case (installs m js env mid config mf cfg m')
  then show ?case
    using install_ok [OF installs(2)] record_installing_ok by (auto simp: manager_ok_def ports_ok_def)
next
  case (refuses m js env mid config e m')
  then show ?case using install_refused [OF refuses(2)] by (simp add: manager_ok_def) metis
next
  case (begins m js mid m' job)
  then show ?case using begin_op_ok [OF begins(2)] by (auto simp: manager_ok_def)
next
  case (ends m js mid job env)
  have "map fst (filter (\<lambda>j. fst j \<noteq> mid) js) = removeAll mid (map fst js)"
    by (induction js) auto
  then show ?case
    using ends job_body_keeps [of m env job mid] by (auto simp: op_keeps_def intro: distinct_removeAll)
next
  case (shows_module m js f mid v)
  then show ?case using set_visibility_keeps [of f m mid v, OF surjective_pairing] by (auto simp: op_keeps_def)
next
  case (domain_set m js f domain)
  then show ?case by (auto simp: set_base_domain_def with_db_def manager_ok_def ports_ok_def)
next
  case (theme_set m js f theme)
  then show ?case by (auto simp: set_theme_def with_db_def manager_ok_def ports_ok_def)
qed

text \<open>C28: However the operations of the modules interleave and fail, a module has at most one operation in progress,
  an attempt to begin a second one is refused, no module has two rows, and private ports are distinct and at
  least 9100.\<close>

theorem one_operation_per_module:
  assumes "lc_reach (m, js)"
  shows "distinct (map fst js) \<and> distinct (map in_id (cd_mods (mg_db m))) \<and> distinct (map snd (cd_ports (mg_db m)))
    \<and> (\<forall>p \<in> set (map snd (cd_ports (mg_db m))). 9100 \<le> p)
    \<and> (\<forall>j \<in> set js. fst (disable env m (fst j)) = Inl ''module already has an install/enable/disable/uninstall in progress'')"
proof -
  have safe: "manager_ok m" "map fst js = mg_busy m" "distinct (map fst js)" using lc_safe [OF assms] by auto
  have "fst (disable env m (fst j)) = Inl ''module already has an install/enable/disable/uninstall in progress''"
    if "j \<in> set js" for j
  proof -
    have "fst j \<in> set (mg_busy m)" using that safe(2) by (metis image_eqI image_set)
    then show ?thesis by (simp add: disable_def exclusively_def begin_op_def)
  qed
  then show ?thesis using safe by (auto simp: manager_ok_def ports_ok_def)
qed

section \<open>Private modules\<close>

lemma path_conf_differs:
  assumes "CHR ''/'' \<notin> set mid"
  shows "conf_path mid n \<noteq> path_conf_path k"
proof
  assume eq: "conf_path mid n = path_conf_path k"
  have "takeWhile (\<lambda>c. c \<noteq> CHR ''/'') (mid @ ys) = mid @ takeWhile (\<lambda>c. c \<noteq> CHR ''/'') ys" for ys
    by (rule takeWhile_append2) (use assms in blast)
  then have "CHR ''_'' \<in> set (takeWhile (\<lambda>c. c \<noteq> CHR ''/'') (conf_path mid n))" by (simp add: conf_path_def)
  then show False unfolding eq by (simp add: path_conf_path_def)
qed


end
