(* ===== verification/ModuleSecrets.thy ===== *)
theory ModuleSecrets
  imports LifecycleProps
begin

text \<open>
  What becomes of a module's configuration: the file the containers read agrees with the stored record,
  secrets survive an uninstallation, and they are lost when the reinstallation fails; and what it takes for
  a module to count as healthy.
\<close>

section \<open>A finished installation\<close>

lemma do_install_ok:
  assumes run: "do_install env m mid mf config = (Inr x, m')" and ok: "ports_ok (mg_db m)"
  obtains resolved where "resolve_config env m mid mf config = Some resolved"
    "map_of (mg_dirs m') mid = Some (lc_file env (mf_dir mf) (mf_compose mf), env_text resolved)"
    "cd_mods (mg_db m') = cd_mods (update_mod mid
       (\<lambda>r. r\<lparr>in_status := ''running'', in_config := merge_config (in_config r) resolved\<rparr>) (mg_db m))"
    "project_name mid \<in> set (mg_up m')"
proof -
  obtain resolved where res: "resolve_config env m mid mf config = Some resolved"
    using run by (auto simp: do_install_def split: option.splits)
  obtain dirs where dirs: "render_compose env (mf_dir mf) (mf_compose mf) mid resolved (mg_dirs m) = (Inr (), dirs)"
    using run res by (auto simp: do_install_def split: sum.splits prod.splits)
  obtain m1 where up: "compose_up (lc_faults env) (m\<lparr>mg_dirs := dirs\<rparr>) mid = (Inr (), m1)"
    using run res dirs by (auto simp: do_install_def split: sum.splits prod.splits)
  obtain m2 where pub: "publish (lc_faults env) m1 mid mf = (Inr (), m2)"
    using run res dirs up by (auto simp: do_install_def split: sum.splits prod.splits)
  have rec: "record_install (lc_faults env) m2 mid resolved = (Inr x, m')"
    using run res dirs up pub by (simp add: do_install_def)
  have 1: "map_of dirs mid = Some (lc_file env (mf_dir mf) (mf_compose mf), env_text resolved)"
    using dirs by (auto simp: render_compose_def Let_def update_conv' split: if_splits)
  have 2: "mg_dirs m1 = dirs" "mg_db m1 = mg_db m" "project_name mid \<in> set (mg_up m1)"
    using up by (auto simp: compose_up_def split: if_splits)
  have 3: "mg_dirs m2 = dirs" "cd_mods (mg_db m2) = cd_mods (mg_db m)" "mg_up m2 = mg_up m1"
    using publish_keeps [OF pub] 2 ok by auto
  have 4: "m' = with_db (update_mod mid
      (\<lambda>r. r\<lparr>in_status := ''running'', in_config := merge_config (in_config r) resolved\<rparr>)) m2"
    using rec by (auto simp: record_install_def split: if_splits)
  show ?thesis
    using that [OF res] 1 2 3 4 by (simp add: with_db_def update_mod_def)
qed

lemma resolve_config_distinct: "resolve_config env m mid mf config = Some res \<Longrightarrow> distinct (map fst res)"
  using resolve_fields_distinct builtin_distinct by (auto simp: resolve_config_def)

lemma do_install_config:
  assumes run: "do_install env m mid mf config = (Inr x, m')" and ok: "manager_ok m"
    and row: "find_mod (mg_db m) mid = Some row"
  shows "\<exists>resolved row'. resolve_config env m mid mf config = Some resolved \<and> find_mod (mg_db m') mid = Some row'
    \<and> in_status row' = ''running'' \<and> snd (the (map_of (mg_dirs m') mid)) = env_text resolved
    \<and> (\<forall>k. map_of (in_config row') k = (case map_of resolved k of None \<Rightarrow> map_of (in_config row) k | Some v \<Rightarrow> Some v))
    \<and> ((\<forall>(k, v) \<in> set resolved. CHR ''='' \<notin> set k \<and> newline \<notin> set k \<and> newline \<notin> set v) \<longrightarrow>
         parse_env (snd (the (map_of (mg_dirs m') mid))) = resolved)"
proof -
  have "ports_ok (mg_db m)" using ok by (simp add: manager_ok_def)
  with run obtain resolved where r: "resolve_config env m mid mf config = Some resolved"
    "map_of (mg_dirs m') mid = Some (lc_file env (mf_dir mf) (mf_compose mf), env_text resolved)"
    "cd_mods (mg_db m') = cd_mods (update_mod mid
       (\<lambda>r. r\<lparr>in_status := ''running'', in_config := merge_config (in_config r) resolved\<rparr>) (mg_db m))"
    by (rule do_install_ok)
  have "find_mod (mg_db m') mid = Some (row\<lparr>in_status := ''running'', in_config := merge_config (in_config row) resolved\<rparr>)"
    using r(3) row find_update_mod [of "\<lambda>r. r\<lparr>in_status := ''running'', in_config := merge_config (in_config r) resolved\<rparr>" mid "mg_db m" mid]
    by (simp add: find_mod_def)
  moreover have "map_of (merge_config (in_config row) resolved) k
      = (case map_of resolved k of None \<Rightarrow> map_of (in_config row) k | Some v \<Rightarrow> Some v)" for k
    by (simp add: map_of_merge distinct_map_of_rev [OF resolve_config_distinct [OF r(1)]])
  ultimately show ?thesis using r(1,2) parse_env_text [of resolved] by auto
qed

text \<open>When an installation succeeds, the module is recorded as running, the stored configuration has for every key of
  the rendered \<open>.env\<close> file the value the containers read there, every other stored key is kept, and the file
  reads back as exactly these entries.\<close>

theorem installed_matches_env:
  assumes run: "do_install env m mid mf config = (Inr x, m')" and ok: "manager_ok m"
    and row: "find_mod (mg_db m) mid = Some row"
  shows "\<exists>resolved row'. resolve_config env m mid mf config = Some resolved \<and> find_mod (mg_db m') mid = Some row'
    \<and> in_status row' = ''running'' \<and> snd (the (map_of (mg_dirs m') mid)) = env_text resolved
    \<and> (\<forall>k. map_of (in_config row') k = (case map_of resolved k of None \<Rightarrow> map_of (in_config row) k | Some v \<Rightarrow> Some v))
    \<and> ((\<forall>(k, v) \<in> set resolved. CHR ''='' \<notin> set k \<and> newline \<notin> set k \<and> newline \<notin> set v) \<longrightarrow>
         parse_env (snd (the (map_of (mg_dirs m') mid))) = resolved)"
  using do_install_config [OF run ok row] .

section \<open>Secrets\<close>

lemma take_down_archive: "take_down f m mid = (r, m') \<Longrightarrow> mg_db m' = mg_db m \<and> mg_catalog m' = mg_catalog m"
  using take_down_keeps by blast

lemma uninstall_archives:
  assumes "uninstall env m mid = (Inr x, m')" "find_mod (mg_db m) mid = Some row"
  shows "map_of (cd_archive (mg_db m')) mid = Some (in_config row) \<and> find_mod (mg_db m') mid = None
    \<and> (manager_ok m \<longrightarrow> manager_ok m')"
proof -
  obtain m1 where b: "begin_op mid m = Inr m1" using assms(1) by (auto simp: uninstall_def exclusively_def split: sum.splits)
  note b' = begin_op_ok [OF b]
  obtain m2 where u: "uninstall_body env m1 mid = (Inr x, m2)" "m' = end_op mid m2"
    using assms(1) b by (auto simp: uninstall_def exclusively_def split: prod.splits)
  obtain m3 where t: "take_down (lc_faults env) m1 mid = (Inr (), m3)"
    "mg_db m2 = delete_mod mid (archive_config mid (mg_db m3))"
    using u(1) by (auto simp: uninstall_body_def Let_def with_db_def split: sum.splits prod.splits if_splits)
  have db: "mg_db m3 = mg_db m" using take_down_archive [OF t(1)] b' by simp
  have "find_mod (delete_mod mid d) mid = None \<and> cd_archive (delete_mod mid d) = cd_archive d" for d
    by (auto simp: find_mod_def delete_mod_def find_None_iff)
  moreover have "map_of (cd_archive (archive_config mid (mg_db m))) mid = Some (in_config row)"
    using assms(2) by (simp add: archive_config_def update_conv')
  moreover have "manager_ok m \<longrightarrow> manager_ok m'"
    using uninstall_body_keeps [OF u(1)] u(2) b' by (simp add: op_keeps_def manager_ok_def)
  ultimately show ?thesis using t(2) db u(2) by simp
qed


text \<open>But the archive is consulted only while there is no row, and the first attempt to install leaves an empty row: when
  that attempt fails before its last step, the next one starts from nothing, and every archived secret is
  generated anew, while the volumes still hold the old ones.\<close>

theorem failed_reinstall_forgets_secrets:
  assumes "find_mod (mg_db m) mid = None" "manager_ok m" "map_of (cd_archive (mg_db m)) mid = Some old"
    and first_try: "install env1 m mid config = (Inr (mf, cfg), m1)"
    and broken: "do_install env2 m1 mid mf cfg = (Inl e, m2)" "m3 = end_op mid (mark_error (lc_faults env2) mid e m2)"
    and failed: "lc_faults env2 ''compose up''"
    and retry: "install env3 m3 mid [] = (Inr (mf', cfg'), m4)" "\<not> lc_faults env3 ''previous config''"
  shows "cfg' = [] \<and> map_of (cd_archive (mg_db m3)) mid = Some old"
proof -
  note i = install_ok [OF first_try]
  let ?empty = "\<lparr>in_id = mid, in_status = ''installing'', in_config = [], in_error = None, in_vis = ''private''\<rparr>"
  have row1: "find_mod (mg_db m1) mid = Some ?empty"
    using i assms(1) by (auto simp: record_installing_def find_mod_def find_append)
  have arch1: "cd_archive (mg_db m1) = cd_archive (mg_db m)" using i assms(1) by (simp add: record_installing_def)
  have same: "mg_db m2 = mg_db m1"
    using broken(1) failed
    by (auto simp: do_install_def compose_up_def split: option.splits sum.splits prod.splits)
  have db3: "mg_db m3 = mg_db (mark_error (lc_faults env2) mid e m2)" using broken(2) by simp
  have "find_mod (mg_db m2) mid = Some ?empty" using same row1 by simp
  then obtain row3 where "find_mod (mg_db m3) mid = Some row3" "in_config row3 = []"
    unfolding db3 by (cases "lc_faults env2 ''mark install error''")
      (auto simp: mark_error_def with_db_def find_update_mod)
  then have "previous_config (lc_faults env3) (mg_db m3) mid = Some []"
    using retry(2) by (simp add: previous_config_def)
  then have "cfg' = []" using install_ok [OF retry(1)] by (simp add: with_previous_def merge_config_def)
  moreover have "cd_archive (mg_db m3) = cd_archive (mg_db m)"
    unfolding db3 using same arch1 by (simp add: mark_error_def with_db_def update_mod_def)
  ultimately show ?thesis using assms(3) by simp
qed

section \<open>Waiting for a module to become healthy\<close>

lemma wait_healthy_run:
  assumes "wait_healthy deadline rs streak why = Inr u" "streak < needed_streak"
  shows "\<exists>pre good post. rs = pre @ good @ post \<and> list_all (\<lambda>(t, c, r). t < deadline \<and> (\<exists>d. r = Inr (True, d))) good
    \<and> (length good = needed_streak \<or> pre = [] \<and> streak + length good = needed_streak)"
  using assms
proof (induction deadline rs streak why rule: wait_healthy.induct)
  case (2 deadline t cancelled r rest streak why)
  have before: "t < deadline" using 2(4) by (simp split: if_splits)
  show ?case
  proof (cases r)
    case (Inl e)
    then have "wait_healthy deadline rest 0 e = Inr u" using 2(4) before by (simp split: if_splits)
    moreover have "\<not> cancelled" using 2(4) before Inl by (simp split: if_splits)
    moreover have "0 < needed_streak" by (simp add: needed_streak_def)
    ultimately obtain pre good post where ih: "rest = pre @ good @ post"
      "list_all (\<lambda>(t, c, r). t < deadline \<and> (\<exists>d. r = Inr (True, d))) good" "length good = needed_streak"
      using 2(1) before Inl by fastforce
    show ?thesis
      by (rule exI [of _ "(t, cancelled, r) # pre"], rule exI [of _ good], rule exI [of _ post]) (use ih in simp)
  next
    case (Inr od)
    obtain ok d where od: "od = (ok, d)" by (cases od)
    show ?thesis
    proof (cases ok)
      case True
      show ?thesis
      proof (cases "needed_streak \<le> streak + 1")
        case True
        then have "streak + 1 = needed_streak" using 2(5) by simp
        then show ?thesis using before Inr od \<open>ok\<close>
          by (intro exI [of _ "[]"] exI [of _ "[(t, cancelled, r)]"] exI [of _ rest]) simp
      next
        case False
        then have nc: "\<not> cancelled" "wait_healthy deadline rest (streak + 1) why = Inr u"
          using 2(4) before Inr od \<open>ok\<close> by (simp_all split: if_splits)
        then obtain pre good post where ih: "rest = pre @ good @ post"
          "list_all (\<lambda>(t, c, r). t < deadline \<and> (\<exists>d. r = Inr (True, d))) good"
          "length good = needed_streak \<or> pre = [] \<and> streak + 1 + length good = needed_streak"
          using 2(2) before Inr od \<open>ok\<close> False by fastforce
        from ih(3) show ?thesis
        proof
          assume "length good = needed_streak"
          then show ?thesis using ih
            by (intro exI [of _ "(t, cancelled, r) # pre"] exI [of _ good] exI [of _ post]) simp
        next
          assume "pre = [] \<and> streak + 1 + length good = needed_streak"
          then show ?thesis using ih before Inr od \<open>ok\<close>
            by (intro exI [of _ "[]"] exI [of _ "(t, cancelled, r) # good"] exI [of _ post]) simp
        qed
      qed
    next
      case False
      then have nc: "\<not> cancelled" "wait_healthy deadline rest 0 d = Inr u"
        using 2(4) before Inr od by (simp_all split: if_splits)
      moreover have "0 < needed_streak" by (simp add: needed_streak_def)
      ultimately obtain pre good post where ih: "rest = pre @ good @ post"
        "list_all (\<lambda>(t, c, r). t < deadline \<and> (\<exists>d. r = Inr (True, d))) good" "length good = needed_streak"
        using 2(3) before Inr od False by fastforce
      show ?thesis
        by (rule exI [of _ "(t, cancelled, r) # pre"], rule exI [of _ good], rule exI [of _ post]) (use ih in simp)
    qed
  qed
qed simp

lemma wait_past_deadline:
  "list_all (\<lambda>(t, c, r). \<not> t < deadline) late \<Longrightarrow> wait_healthy deadline (rs @ late) streak why = wait_healthy deadline rs streak why"
proof (induction rs arbitrary: streak why)
  case Nil
  then show ?case by (cases late) auto
next
  case (Cons x rs)
  obtain t c r where x: "x = (t, c, r)" by (cases x)
  show ?case using Cons.IH [OF Cons.prems] unfolding x by (auto split: sum.splits prod.splits)
qed



text \<open>When the wait for a module says it is healthy, four readings in a row before the deadline said so.\<close>

theorem healthy_four_in_a_row:
  assumes "wait_healthy deadline rs 0 why = Inr u"
  shows "\<exists>pre good post. rs = pre @ good @ post \<and> length good = 4
    \<and> list_all (\<lambda>(t, c, r). t < deadline \<and> (\<exists>d. r = Inr (True, d))) good"
proof -
  have "0 < needed_streak" by (simp add: needed_streak_def)
  from wait_healthy_run [OF assms this] show ?thesis by (fastforce simp: needed_streak_def)
qed

end
