(* ===== verification/ModuleExamples.thy ===== *)
theory ModuleExamples
  imports ModuleSecrets
begin

text \<open>A small module and runs of the manager on it, at which the properties of the module manager apply.\<close>

section \<open>A module and a manager\<close>

definition job_env :: lc_env where
  "job_env = \<lparr>lc_faults = no_faults, lc_dburl = [], lc_ip = Inl [], lc_random = (\<lambda>k. Some ''r1''),
     lc_file = (\<lambda>dir file. ''services:'')\<rparr>"

definition broken_env :: lc_env where
  "broken_env = job_env\<lparr>lc_faults := (\<lambda>what. what = ''compose up'')\<rparr>"

definition ex_module :: manifest where
  "ex_module = \<lparr>mf_id = ''files'', mf_name = ''Files'', mf_version = ''1.0.0'', mf_compose = ''c.yaml'',
     mf_schema = [\<lparr>cf_key = ''PW'', cf_type = ''secret'', cf_default = [], cf_hidden = True\<rparr>],
     mf_routes = [], mf_paths = [], mf_needs_db = False, mf_needs_tls = False, mf_needs_ip = False,
     mf_volumes = [], mf_dir = ''d''\<rparr>"

definition mgr_db :: core_db where
  "mgr_db = \<lparr>cd_mods = [\<lparr>in_id = ''files'', in_status = ''running'', in_config = [(''PW'', ''s3cret'')], in_error = None,
     in_vis = ''private''\<rparr>], cd_archive = [], cd_ports = [], cd_settings = Some (''c.d'', ''slate'')\<rparr>"

definition ex_proxy :: proxy_state where "ex_proxy = \<lparr>px_files = [], px_tls = [], px_loaded = []\<rparr>"

definition ex_manager :: manager where
  "ex_manager = \<lparr>mg_db = mgr_db, mg_busy = [], mg_domain = ''c.d'', mg_theme = ''slate'', mg_catalog = [ex_module],
     mg_proxy = ex_proxy, mg_dirs = [], mg_up = [''itp-files'']\<rparr>"

lemma ex_manager_ok: "manager_ok ex_manager"
  by (simp add: manager_ok_def ports_ok_def ex_manager_def mgr_db_def)

lemma ex_boot: "new_manager no_faults mgr_db [ex_module] ex_proxy ''c.d'' = Inr (ex_manager\<lparr>mg_up := []\<rparr>)"
  by (simp add: new_manager_def no_faults_def mgr_db_def ex_manager_def)

theorem one_operation_per_module_witness:
  "\<exists>m js. lc_reach (m, js) \<and> js \<noteq> [] \<and> distinct (map fst js)"
proof -
  have "lc_reach (ex_manager\<lparr>mg_up := []\<rparr>, [])"
    using ex_boot by (rule lc_reach.boot) (simp_all add: mgr_db_def ports_ok_def)
  then have r: "lc_reach (ex_manager\<lparr>mg_up := [], mg_busy := [''files'']\<rparr>, [(''files'', Disabling)])"
    by (rule lc_reach.begins) (simp add: begin_op_def ex_manager_def)
  from one_operation_per_module [OF r, THEN conjunct1] r show ?thesis by blast
qed

section \<open>Removing and installing again\<close>

definition ex_removed :: manager where "ex_removed = snd (uninstall job_env ex_manager ''files'')"

lemma ex_uninstall: "uninstall job_env ex_manager ''files'' = (Inr (), ex_removed)"
proof -
  have "fst (uninstall job_env ex_manager ''files'') = Inr ()" by code_simp
  then show ?thesis by (simp add: ex_removed_def prod_eq_iff)
qed

definition ex_installing :: manager where "ex_installing = snd (install job_env ex_removed ''files'' [])"

lemma ex_install: "install job_env ex_removed ''files'' [] = (Inr (ex_module, [(''PW'', ''s3cret'')]), ex_installing)"
proof -
  have "fst (install job_env ex_removed ''files'' []) = Inr (ex_module, [(''PW'', ''s3cret'')])" by code_simp
  then show ?thesis by (simp add: ex_installing_def prod_eq_iff)
qed

definition ex_again :: manager where
  "ex_again = snd (do_install job_env ex_installing ''files'' ex_module [(''PW'', ''s3cret'')])"

lemma ex_job: "do_install job_env ex_installing ''files'' ex_module [(''PW'', ''s3cret'')] = (Inr (), ex_again)"
proof -
  have "fst (do_install job_env ex_installing ''files'' ex_module [(''PW'', ''s3cret'')]) = Inr ()" by code_simp
  then show ?thesis by (simp add: ex_again_def prod_eq_iff)
qed

lemma ex_row: "\<exists>row. find_mod (mg_db ex_manager) ''files'' = Some row \<and> map_of (in_config row) ''PW'' = Some ''s3cret''"
  by (simp add: find_mod_def ex_manager_def mgr_db_def)


theorem installed_matches_env_witness:
  "\<exists>resolved. snd (the (map_of (mg_dirs ex_again) ''files'')) = env_text resolved"
proof -
  have ok: "manager_ok ex_installing" by (simp add: manager_ok_def ports_ok_def) code_simp
  have "find_mod (mg_db ex_installing) ''files'' \<noteq> None" by code_simp
  then obtain row where "find_mod (mg_db ex_installing) ''files'' = Some row" by blast
  from installed_matches_env [OF ex_job ok this] show ?thesis by blast
qed

section \<open>A failed first attempt\<close>

definition ex_broken :: manager where
  "ex_broken = snd (do_install broken_env ex_installing ''files'' ex_module [(''PW'', ''s3cret'')])"

lemma ex_broken: "do_install broken_env ex_installing ''files'' ex_module [(''PW'', ''s3cret'')] = (Inl ''compose up'', ex_broken)"
proof -
  have "fst (do_install broken_env ex_installing ''files'' ex_module [(''PW'', ''s3cret'')]) = Inl ''compose up''" by code_simp
  then show ?thesis by (simp add: ex_broken_def prod_eq_iff)
qed

definition ex_failed :: manager where
  "ex_failed = end_op ''files'' (mark_error (lc_faults broken_env) ''files'' ''compose up'' ex_broken)"

definition ex_retry :: manager where "ex_retry = snd (install job_env ex_failed ''files'' [])"

lemma ex_retry: "install job_env ex_failed ''files'' [] = (Inr (ex_module, []), ex_retry)"
proof -
  have "fst (install job_env ex_failed ''files'' []) = Inr (ex_module, [])" by code_simp
  then show ?thesis by (simp add: ex_retry_def prod_eq_iff)
qed

theorem failed_reinstall_forgets_secrets_witness:
  "map_of (cd_archive (mg_db ex_failed)) ''files'' = Some [(''PW'', ''s3cret'')]
    \<and> install job_env ex_failed ''files'' [] = (Inr (ex_module, []), ex_retry)"
proof -
  note a = uninstall_archives [OF ex_uninstall]
  have gone: "find_mod (mg_db ex_removed) ''files'' = None" by code_simp
  have ok: "manager_ok ex_removed" by (simp add: manager_ok_def ports_ok_def) code_simp
  have arch: "map_of (cd_archive (mg_db ex_removed)) ''files'' = Some [(''PW'', ''s3cret'')]" by code_simp
  have "[] = ([] :: config) \<and> map_of (cd_archive (mg_db ex_failed)) ''files'' = Some [(''PW'', ''s3cret'')]"
    by (rule failed_reinstall_forgets_secrets [OF gone ok arch ex_install ex_broken ex_failed_def _ ex_retry])
      (simp_all add: broken_env_def job_env_def no_faults_def)
  then show ?thesis using ex_retry by simp
qed

section \<open>Health\<close>

definition up_reading :: "string + (bool \<times> string)" where "up_reading = health (Inr [\<lparr>ct_name = ''a'', ct_state = ''running'',
  ct_health = [], ct_exit = 0, ct_oneshot = False\<rparr>])"

theorem healthy_four_in_a_row_witness:
  "wait_healthy 100 [(0, False, Inr (False, ''x'')), (4, False, up_reading), (8, False, up_reading),
     (12, False, up_reading), (16, False, up_reading)] 0 [] = Inr ()
   \<and> (\<exists>pre good post. [(0::time, False, Inr (False, ''x'') :: string + (bool \<times> string)), (4, False, up_reading), (8, False, up_reading),
     (12, False, up_reading), (16, False, up_reading)] = pre @ good @ post \<and> length good = 4)"
proof -
  have up: "up_reading = Inr (True, [])"
    by (simp add: up_reading_def health_def container_problem_def List.map_filter_def)
  have run: "wait_healthy 100 [(0, False, Inr (False, ''x'')), (4, False, up_reading), (8, False, up_reading),
     (12, False, up_reading), (16, False, up_reading)] 0 [] = Inr ()"
    unfolding up by (simp add: needed_streak_def)
  from healthy_four_in_a_row [OF run] run show ?thesis by blast
qed

section \<open>A private module\<close>

definition web_module :: manifest where
  "web_module = ex_module\<lparr>mf_routes := [\<lparr>xr_name = [], xr_service = ''web'', xr_port = 80\<rparr>]\<rparr>"

definition ex_published :: manager where "ex_published = snd (publish no_faults ex_manager ''files'' web_module)"

lemma ex_publish: "publish no_faults ex_manager ''files'' web_module = (Inr (), ex_published)"
proof -
  have "fst (publish no_faults ex_manager ''files'' web_module) = Inr ()"
    by (simp add: publish_def publish_routes_def web_module_def ex_module_def primary_port_def visibility_def
        find_mod_def ex_manager_def mgr_db_def private_port_def no_faults_def set_routes_def reload_nginx_def
        split: option.splits sum.splits prod.splits)
  then show ?thesis by (simp add: ex_published_def prod_eq_iff)
qed


end
