(* ===== verification/Versions.thy ===== *)
theory Versions
  imports Lifecycle
begin

text \<open>
  Comparing module versions (\<open>compareVersions\<close> of \<open>backend/internal/modules/updates.go\<close>) and lexical path
  cleaning (\<open>path.Clean\<close> of Go's library), which the handling of module bundles rests on.
\<close>

section \<open>Versions\<close>

text \<open>The segments of a version; one that is no number counts as 0, one too large as the largest integer.\<close>

definition segments :: "string \<Rightarrow> int list" where
  "segments v = map atoi (split_chr (CHR ''.'') v)"

fun compare_segments :: "int list \<Rightarrow> int list \<Rightarrow> int" where
  "compare_segments [] [] = 0"
| "compare_segments (a # as) [] = (if a \<noteq> 0 then (if a < 0 then -1 else 1) else compare_segments as [])"
| "compare_segments [] (b # bs) = (if 0 \<noteq> b then (if 0 < b then -1 else 1) else compare_segments [] bs)"
| "compare_segments (a # as) (b # bs) = (if a \<noteq> b then (if a < b then -1 else 1) else compare_segments as bs)"

definition compare_versions :: "string \<Rightarrow> string \<Rightarrow> int" where
  "compare_versions a b = compare_segments (segments a) (segments b)"

text \<open>The reference: sequences that are 0 from some point on, compared at the first place where they differ.\<close>

definition segment_at :: "int list \<Rightarrow> nat \<Rightarrow> int" where
  "segment_at as i = (if i < length as then as ! i else 0)"

definition older :: "int list \<Rightarrow> int list \<Rightarrow> bool" where
  "older as bs \<longleftrightarrow> (\<exists>i. segment_at as i < segment_at bs i \<and> (\<forall>j < i. segment_at as j = segment_at bs j))"

lemma segment_at_simps [simp]: "segment_at [] i = 0" "segment_at (a # as) 0 = a"
  "segment_at (a # as) (Suc i) = segment_at as i"
  by (simp_all add: segment_at_def)

lemma older_split: "older as bs \<longleftrightarrow> segment_at as 0 < segment_at bs 0 \<or>
    segment_at as 0 = segment_at bs 0 \<and> (\<exists>i. segment_at as (Suc i) < segment_at bs (Suc i)
      \<and> (\<forall>j < i. segment_at as (Suc j) = segment_at bs (Suc j)))" (is "_ \<longleftrightarrow> ?rhs")
proof
  assume "older as bs"
  then obtain i where i: "segment_at as i < segment_at bs i" "\<forall>j < i. segment_at as j = segment_at bs j"
    by (auto simp: older_def)
  show ?rhs
  proof (cases i)
    case (Suc k)
    then have "segment_at as 0 = segment_at bs 0" "\<forall>j < k. segment_at as (Suc j) = segment_at bs (Suc j)" using i(2) by simp_all
    then show ?thesis using i(1) Suc by auto
  qed (use i in simp)
next
  assume ?rhs
  then show "older as bs"
  proof
    assume "segment_at as 0 < segment_at bs 0"
    then show ?thesis unfolding older_def by (intro exI [of _ 0]) simp
  next
    assume *: "segment_at as 0 = segment_at bs 0 \<and> (\<exists>i. segment_at as (Suc i) < segment_at bs (Suc i)
      \<and> (\<forall>j < i. segment_at as (Suc j) = segment_at bs (Suc j)))"
    then obtain i where i: "segment_at as (Suc i) < segment_at bs (Suc i)"
      "\<forall>j < i. segment_at as (Suc j) = segment_at bs (Suc j)" by blast
    have "segment_at as j = segment_at bs j" if "j < Suc i" for j
      using that i(2) * by (cases j) auto
    then show ?thesis unfolding older_def using i(1) by blast
  qed
qed

lemma older_Cons: "older (a # as) (b # bs) \<longleftrightarrow> a < b \<or> a = b \<and> older as bs"
  "older [] (b # bs) \<longleftrightarrow> 0 < b \<or> 0 = b \<and> older [] bs"
  "older (a # as) [] \<longleftrightarrow> a < 0 \<or> a = 0 \<and> older as []"
  "\<not> older [] []"
  by (subst older_split, simp add: older_def)+

lemma compare_segments_spec:
  "compare_segments as bs = (if older as bs then -1 else if older bs as then 1 else 0)"
  by (induction as bs rule: compare_segments.induct) (auto simp: older_Cons)

lemma older_none: "\<not> older as bs \<Longrightarrow> \<not> older bs as \<Longrightarrow> segment_at as = segment_at bs"
proof (rule ccontr)
  assume no: "\<not> older as bs" "\<not> older bs as" and "segment_at as \<noteq> segment_at bs"
  then have ex: "\<exists>i. segment_at as i \<noteq> segment_at bs i" by auto
  define k where "k = (LEAST i. segment_at as i \<noteq> segment_at bs i)"
  have "segment_at as k \<noteq> segment_at bs k" unfolding k_def using ex by (rule LeastI_ex)
  moreover have "\<forall>j < k. segment_at as j = segment_at bs j" unfolding k_def using not_less_Least by blast
  ultimately show False using no by (metis older_def linorder_neqE)
qed

lemma older_trans: "older as bs \<Longrightarrow> older bs cs \<Longrightarrow> older as cs"
proof -
  assume "older as bs" "older bs cs"
  then obtain i j where i: "segment_at as i < segment_at bs i" "\<forall>k < i. segment_at as k = segment_at bs k"
    and j: "segment_at bs j < segment_at cs j" "\<forall>k < j. segment_at bs k = segment_at cs k" by (auto simp: older_def)
  have "segment_at as (min i j) < segment_at cs (min i j)"
    using i j by (cases i j rule: linorder_cases) simp_all
  moreover have "\<forall>k < min i j. segment_at as k = segment_at cs k" using i(2) j(2) by simp
  ultimately show ?thesis unfolding older_def by blast
qed

lemma older_irrefl: "\<not> older as as"
  by (simp add: older_def)

lemma older_cong: "segment_at as = segment_at as' \<Longrightarrow> segment_at bs = segment_at bs' \<Longrightarrow> older as bs = older as' bs'"
  by (simp add: older_def)

text \<open>C36: The loop of \<open>compareVersions\<close> computes the lexicographic order of the segments, a version without a segment
  counting as one with 0 there: it answers -1, 0 or 1, never fails, and 0 only for versions equal everywhere.\<close>

theorem compare_versions_lexicographic:
  "compare_versions a b = (if older (segments a) (segments b) then -1 else if older (segments b) (segments a) then 1 else 0)
   \<and> (compare_versions a b = 0 \<longleftrightarrow> segment_at (segments a) = segment_at (segments b))"
proof -
  have "compare_versions a b = 0 \<longleftrightarrow> \<not> older (segments a) (segments b) \<and> \<not> older (segments b) (segments a)"
    by (simp add: compare_versions_def compare_segments_spec)
  also have "\<dots> \<longleftrightarrow> segment_at (segments a) = segment_at (segments b)"
    using older_none older_cong [of "segments a" "segments b" "segments b" "segments b"]
      older_cong [of "segments b" "segments b" "segments a" "segments b"] older_irrefl by metis
  finally show ?thesis by (simp add: compare_versions_def compare_segments_spec)
qed

datatype version = Version (version_text: string)

text \<open>Versions form a total preorder: 1.2 and 1.2.0 are different texts and neither is newer.\<close>

instantiation version :: preorder
begin

definition less_eq_version :: "version \<Rightarrow> version \<Rightarrow> bool" where
  "a \<le> b \<longleftrightarrow> compare_versions (version_text a) (version_text b) \<le> 0"

definition less_version :: "version \<Rightarrow> version \<Rightarrow> bool" where
  "a < b \<longleftrightarrow> compare_versions (version_text a) (version_text b) < 0"

instance
proof
  fix x y z :: version
  show "x < y \<longleftrightarrow> x \<le> y \<and> \<not> y \<le> x"
    using older_trans older_irrefl
    by (auto simp: less_version_def less_eq_version_def compare_versions_def compare_segments_spec)
  show "x \<le> x" by (simp add: less_eq_version_def compare_versions_def compare_segments_spec older_irrefl)
  assume xy: "x \<le> y" and yz: "y \<le> z"
  let ?x = "segments (version_text x)" and ?y = "segments (version_text y)" and ?z = "segments (version_text z)"
  have "\<not> older ?z ?x"
  proof
    assume zx: "older ?z ?x"
    have "\<not> older ?y ?x \<or> older ?x ?y" "\<not> older ?z ?y \<or> older ?y ?z"
      using xy yz by (auto simp: less_eq_version_def compare_versions_def compare_segments_spec split: if_splits)
    then have "\<not> older ?y ?x" "\<not> older ?z ?y" using older_trans older_irrefl by blast+
    then show False
      using zx older_none [of ?x ?y] older_none [of ?y ?z] older_trans older_cong older_irrefl by metis
  qed
  then show "x \<le> z"
    by (auto simp: less_eq_version_def compare_versions_def compare_segments_spec)
qed

end

lemma version_total: "a \<le> b \<or> b \<le> (a :: version)"
  using older_trans older_irrefl by (auto simp: less_eq_version_def compare_versions_def compare_segments_spec)

section \<open>Paths\<close>

text \<open>\<open>path.Clean\<close> on slash-separated paths: the segments that remain, in reverse.\<close>

fun clean_segments :: "bool \<Rightarrow> string list \<Rightarrow> string list \<Rightarrow> string list" where
  "clean_segments rooted out [] = out"
| "clean_segments rooted out (p # ps) =
     (if p = [] \<or> p = ''.'' then clean_segments rooted out ps
      else if p = ''..'' then
        (case out of
           [] \<Rightarrow> clean_segments rooted (if rooted then [] else [''..'']) ps
         | q # qs \<Rightarrow> clean_segments rooted (if q = ''..'' then ''..'' # out else qs) ps)
      else clean_segments rooted (p # out) ps)"

definition path_clean :: "string \<Rightarrow> string" where
  "path_clean p =
     (let rooted = has_prefix p ''/'';
          parts = join ''/'' (rev (clean_segments rooted [] (split_chr (CHR ''/'') p))) in
      if rooted then CHR ''/'' # parts else if parts = [] then ''.'' else parts)"

lemma clean_segments_plain:
  "list_all (\<lambda>q. q \<noteq> [] \<and> q \<noteq> ''.'' \<and> CHR ''/'' \<notin> set q) out \<Longrightarrow> list_all (\<lambda>q. CHR ''/'' \<notin> set q) ps
   \<Longrightarrow> list_all (\<lambda>q. q \<noteq> [] \<and> q \<noteq> ''.'' \<and> CHR ''/'' \<notin> set q) (clean_segments rooted out ps)"
  by (induction rooted out ps rule: clean_segments.induct) (auto split: list.splits)

text \<open>Steps up come first.\<close>

lemma clean_segments_up:
  "(\<exists>n ns. out = ns @ replicate n ''..'' \<and> ''..'' \<notin> set ns)
   \<Longrightarrow> \<exists>n ns. clean_segments rooted out ps = ns @ replicate n ''..'' \<and> ''..'' \<notin> set ns"
proof (induction rooted out ps rule: clean_segments.induct)
  case (2 rooted out p ps)
  obtain n ns where out: "out = ns @ replicate n ''..''" "''..'' \<notin> set ns" using 2(5) by blast
  consider "p = [] \<or> p = ''.''" | "p = ''..''" | "p \<noteq> []" "p \<noteq> ''.''" "p \<noteq> ''..''" by blast
  then show ?case
  proof cases
    case 2
    show ?thesis
    proof (cases out)
      case Nil
      have "\<exists>n ns. (if rooted then [] else [''..'']) = ns @ replicate n ''..'' \<and> ''..'' \<notin> set ns"
        by (rule exI [of _ "if rooted then 0 else 1"], rule exI [of _ "[]"]) simp
      then show ?thesis using "2.IH"(2) [OF _ _ Nil] 2 Nil by simp
    next
      case (Cons q qs)
      have "\<exists>n ns. (if q = ''..'' then ''..'' # out else qs) = ns @ replicate n ''..'' \<and> ''..'' \<notin> set ns"
      proof (cases ns)
        case Nil
        then have "q = ''..''" using out Cons by (cases n) auto
        then show ?thesis using out Nil by (intro exI [of _ "Suc n"] exI [of _ "[]"]) simp
      next
        case (Cons k ks)
        then show ?thesis using out \<open>out = q # qs\<close> by (intro exI [of _ n] exI [of _ ks]) auto
      qed
      then have "\<exists>n ns. clean_segments rooted (if q = ''..'' then ''..'' # out else qs) ps = ns @ replicate n ''..''
          \<and> ''..'' \<notin> set ns"
        using "2.IH"(3) [OF _ _ Cons] 2 by simp
      moreover have "clean_segments rooted out (p # ps) = clean_segments rooted (if q = ''..'' then ''..'' # out else qs) ps"
        using 2 Cons by simp
      ultimately show ?thesis by (simp only:)
    qed
  next
    case 3
    have "\<exists>m ms. p # out = ms @ replicate m ''..'' \<and> ''..'' \<notin> set ms"
      using out 3 by (intro exI [of _ n] exI [of _ "p # ns"]) simp
    then show ?thesis using "2.IH"(4) 3 by simp
  qed (use "2.IH"(1) "2.prems" in auto)
qed auto

text \<open>A cleaned path that neither is absolute nor begins with two dots has no step up in it.\<close>

lemma path_clean_inside:
  assumes "\<not> has_prefix (path_clean p) ''..''" "\<not> has_prefix (path_clean p) ''/''"
  shows "list_all (\<lambda>q. q \<noteq> [] \<and> q \<noteq> ''..'' \<and> (q = ''.'' \<longrightarrow> path_clean p = ''.'')) (split_chr (CHR ''/'') (path_clean p))"
proof -
  define segs where "segs = rev (clean_segments False [] (split_chr (CHR ''/'') p))"
  have nr: "\<not> has_prefix p ''/''" using assms(2) by (auto simp: path_clean_def Let_def)
  then have cp: "path_clean p = (if join ''/'' segs = [] then ''.'' else join ''/'' segs)"
    by (simp add: path_clean_def segs_def Let_def)
  have plain: "list_all (\<lambda>q. q \<noteq> [] \<and> q \<noteq> ''.'' \<and> CHR ''/'' \<notin> set q) segs"
    unfolding segs_def list_all_rev
    by (rule clean_segments_plain) (auto simp: list_all_iff dest: split_parts_no_sep)
  obtain n ns where up: "segs = replicate n ''..'' @ ns" "''..'' \<notin> set ns"
    using clean_segments_up [of "[]" False "split_chr (CHR ''/'') p"] by (auto simp: segs_def)
  show ?thesis
  proof (cases "segs = []")
    case True
    then show ?thesis using cp by simp
  next
    case False
    then have "join ''/'' segs \<noteq> []" using plain by (cases segs; cases "tl segs") (auto simp: join_Cons)
    then have cp': "path_clean p = join ''/'' segs" using cp by simp
    have "n = 0"
    proof (rule ccontr)
      assume "n \<noteq> 0"
      then obtain k where "segs = ''..'' # replicate k ''..'' @ ns" using up(1) by (cases n) auto
      then have "has_prefix (path_clean p) ''..''" unfolding cp'
        by (cases "replicate k ''..'' @ ns = []") (auto simp: join_Cons)
      then show False using assms(1) by simp
    qed
    moreover have "split_chr (CHR ''/'') (path_clean p) = segs"
      unfolding cp' using plain False by (intro split_join) (auto simp: list_all_iff)
    ultimately show ?thesis using plain up by (auto simp: list_all_iff)
  qed
qed

end
