(* ===== verification/ModuleUpdate.thy ===== *)
theory ModuleUpdate
  imports Versions Installer GoTime
begin

text \<open>
  Finding, downloading and applying module updates: \<open>updates.go\<close>, \<open>update_safe.go\<close> and \<open>bundle.go\<close> of
  \<open>backend/internal/modules\<close>, \<open>backend/internal/registryclient/client.go\<close> and \<open>backend/internal/db/snapshot.go\<close>.

  The state has the module manager, the modules directory (for every folder its files by path; empty
  folders are not represented), the copies kept for a rollback, the names of the safety archives on disk,
  the result of the last check and the bundles of the last fetch.  Reading YAML and the bytes of a gzipped
  tar are parameters; a map of Go is walked in an order that is a parameter too.
\<close>

section \<open>State\<close>

type_synonym tree = "(string \<times> string) list"

datatype tar_kind = Tar_Reg | Tar_Dir | Tar_Other

record tar_entry =
  te_name :: string
  te_kind :: tar_kind
  te_data :: string

record index_entry =
  ix_id :: string
  ix_name :: string
  ix_category :: string
  ix_version :: string
  ix_severity :: string
  ix_changelog :: string
  ix_sha :: string

record upd_info =
  ui_id :: string
  ui_name :: string
  ui_current :: string
  ui_latest :: string
  ui_severity :: string
  ui_changelog :: string
  ui_new :: bool
  ui_status :: string
  ui_message :: string

record upd_state =
  us_mgr :: manager
  us_dirs :: "(string \<times> tree) list"
  us_kept :: "((string \<times> string) \<times> tree) list"
  us_dumps :: "string list"
  us_tars :: "string list"
  us_updates :: "(string \<times> upd_info) list"
  us_entries :: "(string \<times> index_entry) list"
  us_configured :: bool
  us_bundles :: "(string \<times> string \<times> string) list"

section \<open>The catalog\<close>

text \<open>\<open>LoadManifest\<close> of a folder, with the YAML reader as a parameter, and \<open>Reload\<close>.\<close>

definition load_manifest :: "faults \<Rightarrow> (string \<Rightarrow> manifest option) \<Rightarrow> string \<Rightarrow> string \<Rightarrow> string \<Rightarrow> string + manifest" where
  "load_manifest f parse root name file =
     (if f (''read manifest '' @ name) then Inl ''read manifest''
      else case parse file of
        None \<Rightarrow> Inl ''parse manifest''
      | Some mf \<Rightarrow> if mf_id mf = [] then Inl ''id is required'' else Inr (mf\<lparr>mf_dir := root @ ''/'' @ name\<rparr>))"

definition put_manifest :: "manifest \<Rightarrow> manifest list \<Rightarrow> manifest list" where
  "put_manifest mf mfs = filter (\<lambda>x. mf_id x \<noteq> mf_id mf) mfs @ [mf]"

fun load_all ::
  "faults \<Rightarrow> (string \<Rightarrow> manifest option) \<Rightarrow> string \<Rightarrow> (string \<times> tree) list \<Rightarrow> manifest list \<Rightarrow> string + manifest list" where
  "load_all f parse root [] acc = Inr acc"
| "load_all f parse root ((name, t) # ds) acc =
     (case map_of t ''manifest.yaml'' of
        None \<Rightarrow> load_all f parse root ds acc
      | Some file \<Rightarrow>
          (case load_manifest f parse root name file of
             Inl e \<Rightarrow> Inl e
           | Inr mf \<Rightarrow> load_all f parse root ds (put_manifest mf acc)))"

definition by_name :: "(string \<times> 'a) list \<Rightarrow> (string \<times> 'a) list" where
  "by_name = order_by (\<lambda>a b. ord.lexordp (\<lambda>x y. byte x < byte y) (fst a) (fst b))"

definition reload_catalog :: "faults \<Rightarrow> (string \<Rightarrow> manifest option) \<Rightarrow> string \<Rightarrow> upd_state \<Rightarrow> (string + unit) \<times> upd_state" where
  "reload_catalog f parse root s =
     (if f ''read modules dir'' then (Inl ''read modules dir'', s)
      else case load_all f parse root (by_name (us_dirs s)) [] of
        Inl e \<Rightarrow> (Inl e, s)
      | Inr mfs \<Rightarrow> (Inr (), s\<lparr>us_mgr := (us_mgr s)\<lparr>mg_catalog := mfs\<rparr>\<rparr>))"

section \<open>Looking for updates\<close>

definition installed_version :: "manager \<Rightarrow> string \<Rightarrow> string" where
  "installed_version m mid = (case in_catalog m mid of None \<Rightarrow> [] | Some mf \<Rightarrow> mf_version mf)"

definition offered :: "manager \<Rightarrow> index_entry \<Rightarrow> bool" where
  "offered m e \<longleftrightarrow> \<not> (in_catalog m (ix_id e) \<noteq> None \<and> compare_versions (installed_version m (ix_id e)) (ix_version e) \<ge> 0)"

definition update_of :: "manager \<Rightarrow> index_entry \<Rightarrow> upd_info" where
  "update_of m e = \<lparr>ui_id = ix_id e, ui_name = ix_name e, ui_current = installed_version m (ix_id e),
     ui_latest = ix_version e, ui_severity = ix_severity e, ui_changelog = ix_changelog e,
     ui_new = (in_catalog m (ix_id e) = None), ui_status = [], ui_message = []\<rparr>"

definition keep_status :: "(string \<times> upd_info) list \<Rightarrow> upd_info \<Rightarrow> upd_info" where
  "keep_status prev u =
     (case map_of prev (ui_id u) of
        None \<Rightarrow> u
      | Some p \<Rightarrow> u\<lparr>ui_status := ui_status p, ui_message := ui_message p\<rparr>)"

definition record_check :: "index_entry list \<Rightarrow> upd_state \<Rightarrow> upd_info list \<times> upd_state" where
  "record_check entries s =
     (let found = map (update_of (us_mgr s)) (filter (offered (us_mgr s)) entries) in
      (found, s\<lparr>us_entries := fold (\<lambda>e. AList.update (ix_id e) e) entries [],
         us_updates := fold (\<lambda>u. AList.update (ui_id u) (keep_status (us_updates s) u)) found []\<rparr>))"

definition updates_snapshot :: "upd_state \<Rightarrow> (string \<times> upd_info) list" where
  "updates_snapshot s = us_updates s"

definition set_update_state :: "string \<Rightarrow> string \<Rightarrow> string \<Rightarrow> upd_state \<Rightarrow> upd_state" where
  "set_update_state mid status message s =
     (case map_of (us_updates s) mid of
        None \<Rightarrow> s
      | Some u \<Rightarrow> s\<lparr>us_updates := AList.update mid (u\<lparr>ui_status := status, ui_message := message\<rparr>) (us_updates s)\<rparr>)"

section \<open>The repository\<close>

record module_head =
  mh_id :: string
  mh_name :: string
  mh_category :: string
  mh_version :: string

record repo_env =
  re_tarball :: "string + (tar_entry list \<times> bool)"
  re_head :: "string \<Rightarrow> module_head option"
  re_order :: "string list \<Rightarrow> string list"
  re_pack :: "tar_entry list \<Rightarrow> string option"
  re_hash :: "string \<Rightarrow> string"

text \<open>A file of a module: its folder and its path in there (\<open><repo>/modules/<folder>/<path>\<close>).\<close>

definition module_file :: "tar_entry \<Rightarrow> (string \<times> string) option" where
  "module_file e =
     (if te_kind e \<noteq> Tar_Reg then None
      else case cut_chr (CHR ''/'') (te_name e) of (_, rest, ok) \<Rightarrow>
        if \<not> ok then None
        else case cut_chr (CHR ''/'') rest of (first, rest1, ok1) \<Rightarrow>
          if \<not> ok1 then None
          else case cut_chr (CHR ''/'') rest1 of (dir, path, ok2) \<Rightarrow>
            if \<not> ok2 \<or> first \<noteq> ''modules'' then None else Some (dir, path))"

definition add_file :: "tar_entry \<Rightarrow> (string \<times> tree) list \<Rightarrow> (string \<times> tree) list" where
  "add_file e files =
     (case module_file e of
        None \<Rightarrow> files
      | Some (dir, path) \<Rightarrow>
          AList.update dir (AList.update path (te_data e) (case map_of files dir of None \<Rightarrow> [] | Some t \<Rightarrow> t)) files)"

definition repo_files :: "tar_entry list \<Rightarrow> (string \<times> tree) list" where
  "repo_files es = fold add_file es []"

definition pack_entries :: "repo_env \<Rightarrow> tree \<Rightarrow> tar_entry list" where
  "pack_entries env t = map (\<lambda>name. \<lparr>te_name = path_clean name, te_kind = Tar_Reg, te_data = the (map_of t name)\<rparr>)
     (re_order env (map fst t))"

definition usable_head :: "repo_env \<Rightarrow> string \<Rightarrow> tree \<Rightarrow> module_head option" where
  "usable_head env dir t =
     (case map_of t ''manifest.yaml'' of
        None \<Rightarrow> None
      | Some file \<Rightarrow>
          (case re_head env file of
             None \<Rightarrow> None
           | Some h \<Rightarrow> if mh_id h = [] \<or> mh_id h \<noteq> dir \<or> mh_version h = [] then None else Some h))"

fun index_modules ::
  "repo_env \<Rightarrow> (string \<times> tree) list \<Rightarrow> string list \<Rightarrow> string + (index_entry list \<times> (string \<times> string \<times> string) list)" where
  "index_modules env files [] = Inr ([], [])"
| "index_modules env files (dir # dirs) =
     (let t = the (map_of files dir) in
      case usable_head env dir t of
        None \<Rightarrow> index_modules env files dirs
      | Some h \<Rightarrow>
          (case re_pack env (pack_entries env t) of
             None \<Rightarrow> Inl ''repack''
           | Some bytes \<Rightarrow>
               (case index_modules env files dirs of
                  Inl e \<Rightarrow> Inl e
                | Inr (ix, bs) \<Rightarrow> Inr
                    (\<lparr>ix_id = mh_id h, ix_name = mh_name h, ix_category = mh_category h, ix_version = mh_version h,
                      ix_severity = ''recommended'', ix_changelog = [], ix_sha = hex_encode (re_hash env bytes)\<rparr> # ix,
                     (mh_id h, mh_version h, bytes) # bs))))"

definition fetch_index :: "repo_env \<Rightarrow> upd_state \<Rightarrow> (string + index_entry list) \<times> upd_state" where
  "fetch_index env s =
     (case re_tarball env of
        Inl e \<Rightarrow> (Inl e, s)
      | Inr (es, broken) \<Rightarrow>
          if broken then (Inl ''read repository archive'', s)
          else (let files = repo_files es in
                case index_modules env files (re_order env (map fst files)) of
                  Inl e \<Rightarrow> (Inl e, s)
                | Inr (ix, bs) \<Rightarrow> (Inr ix, s\<lparr>us_bundles := bs\<rparr>)))"

definition held_bundle :: "upd_state \<Rightarrow> string \<Rightarrow> string \<Rightarrow> string option" where
  "held_bundle s mid version =
     (case map_of (us_bundles s) mid of
        None \<Rightarrow> None
      | Some (v, bytes) \<Rightarrow> if v \<noteq> version then None else Some bytes)"

definition checked_bundle :: "repo_env \<Rightarrow> string \<Rightarrow> string \<Rightarrow> string + string" where
  "checked_bundle env sha bytes =
     (if sha \<noteq> [] \<and> hex_encode (re_hash env bytes) \<noteq> sha then Inl ''bundle checksum mismatch'' else Inr bytes)"

definition download_bundle :: "repo_env \<Rightarrow> string \<Rightarrow> string \<Rightarrow> string \<Rightarrow> upd_state \<Rightarrow> (string + string) \<times> upd_state" where
  "download_bundle env mid version sha s =
     (case held_bundle s mid version of
        Some bytes \<Rightarrow> (checked_bundle env sha bytes, s)
      | None \<Rightarrow>
          (case fetch_index env s of
             (Inl e, s1) \<Rightarrow> (Inl e, s1)
           | (Inr _, s1) \<Rightarrow>
               (case held_bundle s1 mid version of
                  None \<Rightarrow> (Inl ''version is no longer in the repository'', s1)
                | Some bytes \<Rightarrow> (checked_bundle env sha bytes, s1))))"

definition check_for_updates :: "repo_env \<Rightarrow> upd_state \<Rightarrow> (string + upd_info list) \<times> upd_state" where
  "check_for_updates env s =
     (if \<not> us_configured s then (Inr [], s)
      else case fetch_index env s of
        (Inl e, s1) \<Rightarrow> (Inl ''fetch module index'', s1)
      | (Inr entries, s1) \<Rightarrow> (case record_check entries s1 of (found, s2) \<Rightarrow> (Inr found, s2)))"

section \<open>Unpacking a bundle\<close>

definition tree_of :: "upd_state \<Rightarrow> string \<Rightarrow> tree" where
  "tree_of s mid = (case map_of (us_dirs s) mid of None \<Rightarrow> [] | Some t \<Rightarrow> t)"

fun extract_entries :: "faults \<Rightarrow> bool \<Rightarrow> tree \<Rightarrow> tar_entry list \<Rightarrow> (string + unit) \<times> tree" where
  "extract_entries f broken t [] = (if broken then Inl ''read tar entry'' else Inr (), t)"
| "extract_entries f broken t (e # es) =
     (let cleaned = path_clean (te_name e) in
      if cleaned = ''.'' then extract_entries f broken t es
      else if has_prefix cleaned ''..'' \<or> has_prefix cleaned ''/'' then (Inl ''bundle entry escapes the module directory'', t)
      else case te_kind e of
        Tar_Dir \<Rightarrow> if f (''create '' @ cleaned) then (Inl ''create'', t) else extract_entries f broken t es
      | Tar_Reg \<Rightarrow>
          if f (''create '' @ cleaned) then (Inl ''create'', t)
          else if f (''write '' @ cleaned) then (Inl ''write'', AList.update cleaned [] t)
          else extract_entries f broken (AList.update cleaned (te_data e) t) es
      | Tar_Other \<Rightarrow> extract_entries f broken t es)"

text \<open>\<open>unpack\<close> reads the archive's bytes: nothing when they do not start like gzip, otherwise the entries and
  whether the reading ends in an error.\<close>

type_synonym unpacker = "string \<Rightarrow> (tar_entry list \<times> bool) option"

definition extract_bundle :: "faults \<Rightarrow> unpacker \<Rightarrow> string \<Rightarrow> string \<Rightarrow> upd_state \<Rightarrow> (string + unit) \<times> upd_state" where
  "extract_bundle f unpack data mid s =
     (if f ''create module dir'' then (Inl ''create module dir'', s)
      else case unpack data of
        None \<Rightarrow> (Inl ''open gzip'', s\<lparr>us_dirs := AList.update mid (tree_of s mid) (us_dirs s)\<rparr>)
      | Some (es, broken) \<Rightarrow>
          (case extract_entries f broken (tree_of s mid) es of
             (r, t) \<Rightarrow> (r, s\<lparr>us_dirs := AList.update mid t (us_dirs s)\<rparr>)))"

section \<open>Safety copies\<close>

definition file_stamp :: "nat \<Rightarrow> string" where
  "file_stamp t = remove_chr (CHR ''-'') (date_str (t div us_per_day)) @ ''-''
     @ remove_chr (CHR '':'') (clock_str (t mod us_per_day div us_per_sec))"

text \<open>The oldest files by name are removed until \<open>keep\<close> are left; a removal that fails is not noticed.\<close>

definition prune_files :: "faults \<Rightarrow> nat \<Rightarrow> string list \<Rightarrow> string list" where
  "prune_files f keep files =
     (let sorted = order_by (\<lambda>a b. ord.lexordp (\<lambda>x y. byte x < byte y) a b) files;
          victims = take (length sorted - keep) sorted in
      filter (\<lambda>x. x \<notin> set victims \<or> f (''remove '' @ x)) sorted)"

definition keep_snapshots :: nat where "keep_snapshots = 5"

definition db_snapshot :: "faults \<Rightarrow> nat \<Rightarrow> string \<Rightarrow> string list \<Rightarrow> (string + string) \<times> string list" where
  "db_snapshot f now reason dumps =
     (let file = file_stamp now @ ''-'' @ reason @ ''.dump'' in
      if f ''create snapshot dir'' then (Inl ''create snapshot dir'', dumps)
      else if f ''pg_dump'' then (Inl ''pg_dump'', removeAll file dumps)
      else (Inr file, prune_files f keep_snapshots (List.insert file dumps)))"

fun tar_volumes :: "faults \<Rightarrow> string \<Rightarrow> string list \<Rightarrow> (string \<times> string) list \<Rightarrow> (string + unit) \<times> string list" where
  "tar_volumes f pre tars [] = (Inr (), tars)"
| "tar_volumes f pre tars ((key, volume) # vols) =
     (let file = pre @ key @ ''.tar.gz'' in
      if f (''tar '' @ volume) then (Inl ''tar volume'', removeAll file tars)
      else tar_volumes f pre (List.insert file tars) vols)"

definition snapshot_volumes :: "faults \<Rightarrow> nat \<Rightarrow> upd_state \<Rightarrow> string \<Rightarrow> (string + unit) \<times> upd_state" where
  "snapshot_volumes f now s mid =
     (let vols = backup_volumes (us_mgr s) mid in
      if vols = [] then (Inr (), s)
      else if f ''create volumes dir'' then (Inl ''create volumes dir'', s)
      else case tar_volumes f (file_stamp now @ ''-'' @ mid @ ''-'') (us_tars s) vols of
        (Inl e, tars) \<Rightarrow> (Inl e, s\<lparr>us_tars := tars\<rparr>)
      | (Inr _, tars) \<Rightarrow> (Inr (), s\<lparr>us_tars := prune_files f 10 tars\<rparr>))"

text \<open>\<open>copyDir\<close> into a folder with the files \<open>t\<close>: a file that cannot be copied is left empty and ends the walk.\<close>

fun copy_files :: "faults \<Rightarrow> string \<Rightarrow> tree \<Rightarrow> tree \<Rightarrow> (string + unit) \<times> tree" where
  "copy_files f what [] t = (Inr (), t)"
| "copy_files f what ((path, data) # src) t =
     (if f (what @ path) then (Inl ''copy'', AList.update path [] t)
      else copy_files f what src (AList.update path data t))"

definition copy_dir :: "faults \<Rightarrow> string \<Rightarrow> tree option \<Rightarrow> tree \<Rightarrow> (string + unit) \<times> tree" where
  "copy_dir f what src t = (case src of None \<Rightarrow> (Inl ''no such directory'', t) | Some files \<Rightarrow> copy_files f what files t)"

definition keep_version :: "faults \<Rightarrow> upd_state \<Rightarrow> string \<Rightarrow> string \<Rightarrow> (string + unit) \<times> upd_state" where
  "keep_version f s mid version =
     (let key = (mid, version);
          before = (if f ''remove kept files'' then (case map_of (us_kept s) key of None \<Rightarrow> [] | Some t \<Rightarrow> t) else []) in
      case copy_dir f ''keep '' (map_of (us_dirs s) mid) before of
        (r, t) \<Rightarrow> (r, s\<lparr>us_kept := AList.update key t (us_kept s)\<rparr>))"

definition restore_files :: "faults \<Rightarrow> upd_state \<Rightarrow> string \<Rightarrow> string \<Rightarrow> upd_state" where
  "restore_files f s mid version =
     (let before = (if f ''remove module files'' then tree_of s mid else []) in
      s\<lparr>us_dirs := AList.update mid (snd (copy_dir f ''restore '' (map_of (us_kept s) (mid, version)) before)) (us_dirs s)\<rparr>)"

section \<open>Applying a bundle\<close>

text \<open>The world around an update, stage by stage: preparing and unpacking, starting the new version and the
  readings of its health, and the same for the old version when it has to come back.\<close>

record upd_env =
  ue_root :: string
  ue_now :: nat
  ue_parse :: "string \<Rightarrow> manifest option"
  ue_unpack :: unpacker
  ue_prep :: faults
  ue_new :: lc_env
  ue_new_wait :: "time \<times> (time \<times> bool \<times> (string + (bool \<times> string))) list"
  ue_back :: lc_env
  ue_back_wait :: "time \<times> (time \<times> bool \<times> (string + (bool \<times> string))) list"

text \<open>The compose file a rendering reads is the one in the modules directory.\<close>

definition stored_file :: "string \<Rightarrow> upd_state \<Rightarrow> string \<Rightarrow> string \<Rightarrow> string option" where
  "stored_file root s dir file =
     (case find (\<lambda>(name, t). root @ ''/'' @ name = dir) (us_dirs s) of
        None \<Rightarrow> None
      | Some (_, t) \<Rightarrow> map_of t (path_clean file))"

definition with_files :: "string \<Rightarrow> upd_state \<Rightarrow> manifest \<Rightarrow> lc_env \<Rightarrow> lc_env" where
  "with_files root s mf env =
     env\<lparr>lc_file := (\<lambda>dir file. case stored_file root s dir file of None \<Rightarrow> [] | Some x \<Rightarrow> x),
         lc_faults := (\<lambda>what. lc_faults env what
           \<or> what = ''open compose file'' \<and> stored_file root s (mf_dir mf) (mf_compose mf) = None)\<rparr>"

text \<open>Starting a version and waiting until it is healthy.\<close>

definition start_version ::
  "string \<Rightarrow> lc_env \<Rightarrow> (time \<times> (time \<times> bool \<times> (string + (bool \<times> string))) list) \<Rightarrow> upd_state \<Rightarrow> string \<Rightarrow> manifest
     \<Rightarrow> config \<Rightarrow> (string + (string + unit)) \<times> upd_state" where
  "start_version root env wait s mid mf cfg =
     (case do_install (with_files root s mf env) (us_mgr s) mid mf cfg of
        (Inl e, m) \<Rightarrow> (Inl e, s\<lparr>us_mgr := m\<rparr>)
      | (Inr _, m) \<Rightarrow> (Inr (wait_healthy (fst wait) (snd wait) 0 ''not checked yet''), s\<lparr>us_mgr := m\<rparr>))"

definition safety_copies :: "upd_env \<Rightarrow> upd_state \<Rightarrow> string \<Rightarrow> manifest \<Rightarrow> (string + unit) \<times> upd_state" where
  "safety_copies env s mid old =
     (let f = ue_prep env in
      case (if mf_needs_db old then db_snapshot f (ue_now env) (''before-update-'' @ mid) (us_dumps s)
            else (Inr [], us_dumps s)) of
        (Inl e, dumps) \<Rightarrow> (Inl ''not updating: no safety snapshot of the database'', s\<lparr>us_dumps := dumps\<rparr>)
      | (Inr _, dumps) \<Rightarrow>
          (case snapshot_volumes f (ue_now env) (s\<lparr>us_dumps := dumps\<rparr>) mid of
             (Inl e, s1) \<Rightarrow> (Inl ''not updating: no copy of the module's data'', s1)
           | (Inr _, s1) \<Rightarrow>
               (case keep_version f s1 mid (mf_version old) of
                  (Inl e, s2) \<Rightarrow> (Inl ''not updating: no copy of the current version'', s2)
                | (Inr _, s2) \<Rightarrow> (Inr (), s2))))"

definition roll_back :: "upd_env \<Rightarrow> upd_state \<Rightarrow> string \<Rightarrow> string \<Rightarrow> config \<Rightarrow> (string + unit) \<times> upd_state" where
  "roll_back env s mid version cfg =
     (let f = lc_faults (ue_back env); s1 = restore_files f s mid version in
      case reload_catalog f (ue_parse env) (ue_root env) s1 of
        (Inl e, s2) \<Rightarrow> (Inl ''update failed and the old version couldn't be reloaded'', s2)
      | (Inr _, s2) \<Rightarrow>
          (case in_catalog (us_mgr s2) mid of
             None \<Rightarrow> (Inl ''update failed and the old version is missing'', s2)
           | Some restored \<Rightarrow>
               (case start_version (ue_root env) (ue_back env) (ue_back_wait env) s2 mid restored cfg of
                  (Inl e, s3) \<Rightarrow> (Inl ''update failed and starting the old version again also failed'',
                    s3\<lparr>us_mgr := mark_error f mid e (us_mgr s3)\<rparr>)
                | (Inr (Inl e), s3) \<Rightarrow> (Inl ''update failed; restored the old version but it isn't healthy either'', s3)
                | (Inr (Inr _), s3) \<Rightarrow> (Inl ''update failed and was rolled back; no data was changed'', s3))))"

definition apply_unpacked :: "upd_env \<Rightarrow> upd_state \<Rightarrow> string \<Rightarrow> (string \<times> config) option \<Rightarrow> (string + unit) \<times> upd_state" where
  "apply_unpacked env s mid live =
     (case reload_catalog (ue_prep env) (ue_parse env) (ue_root env) s of
        (Inl e, s1) \<Rightarrow> (Inl ''reload catalog'', s1)
      | (Inr _, s1) \<Rightarrow>
          (case in_catalog (us_mgr s1) mid of
             None \<Rightarrow> (Inl ''module missing from catalog after extracting its bundle'', s1)
           | Some mf \<Rightarrow>
               (case live of
                  None \<Rightarrow> (Inr (), s1)
                | Some (version, cfg) \<Rightarrow>
                    (case start_version (ue_root env) (ue_new env) (ue_new_wait env) s1 mid mf cfg of
                       (Inr (Inr _), s2) \<Rightarrow> (Inr (), s2)
                     | (_, s2) \<Rightarrow> roll_back env s2 mid version cfg))))"

definition apply_bundle :: "upd_env \<Rightarrow> upd_state \<Rightarrow> string \<Rightarrow> string \<Rightarrow> (string + unit) \<times> upd_state" where
  "apply_bundle env s mid bundle =
     (case get_installed (ue_prep env) (mg_db (us_mgr s)) mid of
        Inl e \<Rightarrow> (Inl ''check install status'', s)
      | Inr status \<Rightarrow>
          (let live = (case (in_catalog (us_mgr s) mid, status) of
                 (Some old, Some st) \<Rightarrow> if ms_status st = ''not_installed'' then None else Some (old, ms_config st)
               | _ \<Rightarrow> None) in
           case (case live of None \<Rightarrow> (Inr (), s) | Some (old, cfg) \<Rightarrow> safety_copies env s mid old) of
             (Inl e, s1) \<Rightarrow> (Inl e, s1)
           | (Inr _, s1) \<Rightarrow>
               (case extract_bundle (ue_prep env) (ue_unpack env) bundle mid s1 of
                  (Inl e, s2) \<Rightarrow> (Inl ''extract module bundle'',
                    case live of None \<Rightarrow> s2 | Some (old, cfg) \<Rightarrow> restore_files (ue_prep env) s2 mid (mf_version old))
                | (Inr _, s2) \<Rightarrow> apply_unpacked env s2 mid (map_option (\<lambda>(old, cfg). (mf_version old, cfg)) live))))"

section \<open>Updating on request\<close>

definition apply_update :: "upd_state \<Rightarrow> string \<Rightarrow> (string + index_entry) \<times> upd_state" where
  "apply_update s mid =
     (if \<not> us_configured s then (Inl ''no module registry is configured'', s)
      else case map_of (us_entries s) mid of
        None \<Rightarrow> (Inl ''no known update for module'', s)
      | Some entry \<Rightarrow>
          (case begin_op mid (us_mgr s) of
             Inl e \<Rightarrow> (Inl e, s)
           | Inr m \<Rightarrow> (Inr entry, set_update_state mid ''updating'' [] (s\<lparr>us_mgr := m\<rparr>))))"

text \<open>The background job of an accepted request.\<close>

definition update_job :: "repo_env \<Rightarrow> upd_env \<Rightarrow> upd_state \<Rightarrow> string \<Rightarrow> index_entry \<Rightarrow> upd_state" where
  "update_job repo env s mid entry =
     (let (r, s1) = (case download_bundle repo (ix_id entry) (ix_version entry) (ix_sha entry) s of
            (Inl e, s1) \<Rightarrow> (Inl ''download module bundle'', s1)
          | (Inr bundle, s1) \<Rightarrow> apply_bundle env s1 mid bundle);
          s2 = (case r of
            Inl e \<Rightarrow> set_update_state mid ''failed'' e s1
          | Inr _ \<Rightarrow> s1\<lparr>us_updates := AList.delete mid (us_updates s1)\<rparr>) in
      s2\<lparr>us_mgr := end_op mid (us_mgr s2)\<rparr>)"

end
