(* ===== verification/ModuleUpdateProps.thy ===== *)
theory ModuleUpdateProps
  imports ModuleUpdate ModuleExamples "HOL-Library.Multiset"
begin

text \<open>
  What an update guarantees: only newer versions are offered, nothing is touched before a copy of the old
  version exists, an unpacked bundle stays inside the module's folder, and a failed update brings back the
  files, the catalog and the stored configuration.
\<close>

section \<open>Association lists\<close>

lemma update_same: "map_of xs k = Some v \<Longrightarrow> AList.update k v xs = xs"
  by (induction xs) (auto split: if_splits)

lemma update_twice: "AList.update k v (AList.update k w xs) = AList.update k v xs"
  by (induction xs) auto

section \<open>Offers\<close>

lemma not_offered: "\<not> offered m e \<longleftrightarrow> (\<exists>mf. in_catalog m (ix_id e) = Some mf \<and> Version (ix_version e) \<le> Version (mf_version mf))"
  using version_total [of "Version (ix_version e)"]
  by (auto simp: offered_def installed_version_def less_eq_version_def compare_versions_def compare_segments_spec
      dest: older_trans simp: older_irrefl split: if_splits)

lemma offered_iff: "offered m e \<longleftrightarrow> (\<forall>mf. in_catalog m (ix_id e) = Some mf \<longrightarrow> Version (mf_version mf) < Version (ix_version e))"
  using not_offered [of m e] version_total less_le_not_le by (metis option.inject)

text \<open>A check offers exactly the modules of the repository that are not in the catalog or whose version there is
  strictly older: never a downgrade, and nothing newer is missed.\<close>

theorem offers_only_newer:
  assumes "check_for_updates env s = (Inr found, s')" "us_configured s" "fetch_index env s = (Inr entries, s1)"
  shows "set found \<subseteq> update_of (us_mgr s) ` set entries \<and>
    (\<forall>e \<in> set entries. update_of (us_mgr s) e \<in> set found \<longleftrightarrow>
      (\<forall>mf. in_catalog (us_mgr s) (ix_id e) = Some mf \<longrightarrow> Version (mf_version mf) < Version (ix_version e)))"
proof -
  have m: "us_mgr s1 = us_mgr s" using assms(3) by (auto simp: fetch_index_def Let_def split: sum.splits if_splits)
  have found: "found = map (update_of (us_mgr s)) (filter (offered (us_mgr s)) entries)"
    using assms m by (auto simp: check_for_updates_def record_check_def Let_def)
  have same: "offered (us_mgr s) e \<longleftrightarrow> offered (us_mgr s) e'" if "update_of (us_mgr s) e = update_of (us_mgr s) e'" for e e'
    using that by (simp add: update_of_def offered_def)
  have "update_of (us_mgr s) e \<in> set found \<longleftrightarrow> offered (us_mgr s) e" if "e \<in> set entries" for e
  proof
    assume "update_of (us_mgr s) e \<in> set found"
    then obtain e' where "offered (us_mgr s) e'" "update_of (us_mgr s) e = update_of (us_mgr s) e'"
      unfolding found by auto
    then show "offered (us_mgr s) e" using same by blast
  next
    assume "offered (us_mgr s) e"
    then show "update_of (us_mgr s) e \<in> set found" unfolding found using that by simp
  qed
  moreover have "set found \<subseteq> update_of (us_mgr s) ` set entries" unfolding found by auto
  ultimately show ?thesis unfolding offered_iff [symmetric] by blast
qed

lemma map_of_fold_update:
  "distinct (map k es) \<Longrightarrow> e \<in> set es \<Longrightarrow> map_of (fold (\<lambda>x. AList.update (k x) (g x)) es xs) (k e) = Some (g e)"
proof (induction es arbitrary: xs)
  case (Cons x es)
  have other: "map_of (fold (\<lambda>x. AList.update (k x) (g x)) es ys) j = map_of ys j" if "j \<notin> k ` set es" for ys j
    using that by (induction es arbitrary: ys) (auto simp: update_conv')
  show ?case
  proof (cases "e \<in> set es")
    case False
    then have "e = x" using Cons.prems by simp
    then show ?thesis using Cons.prems(1) other [of "k x"] by (simp add: update_conv')
  qed (use Cons in simp)
qed simp

text \<open>But a request to update is accepted for every module of the repository, also for one whose local version is newer:
  the request looks at what the last check saw, not at what it offered.\<close>

theorem update_can_downgrade:
  assumes check: "check_for_updates env s = (Inr found, s')" "us_configured s" "fetch_index env s = (Inr entries, s1)"
    and "distinct (map ix_id entries)" "e \<in> set entries" "ix_id e \<notin> set (mg_busy (us_mgr s))"
    and newer: "in_catalog (us_mgr s) (ix_id e) = Some mf" "Version (ix_version e) < Version (mf_version mf)"
  shows "update_of (us_mgr s) e \<notin> set found \<and> fst (apply_update s' (ix_id e)) = Inr e"
proof -
  have m: "us_mgr s1 = us_mgr s" "us_configured s1 = us_configured s"
    using check(3) by (auto simp: fetch_index_def Let_def split: sum.splits if_splits)
  have s': "us_entries s' = fold (\<lambda>e. AList.update (ix_id e) e) entries []" "us_mgr s' = us_mgr s" "us_configured s'"
    using check m by (auto simp: check_for_updates_def record_check_def Let_def)
  have "update_of (us_mgr s) e \<notin> set found"
  proof
    assume "update_of (us_mgr s) e \<in> set found"
    then obtain e' where "offered (us_mgr s) e'" "update_of (us_mgr s) e = update_of (us_mgr s) e'"
      using check m by (auto simp: check_for_updates_def record_check_def Let_def)
    then have "offered (us_mgr s) e" by (auto simp: update_of_def offered_def)
    then show False using newer by (auto simp: offered_iff less_le_not_le)
  qed
  moreover have "map_of (us_entries s') (ix_id e) = Some e"
    unfolding s'(1) using map_of_fold_update [OF assms(4,5), of "\<lambda>e. e"] by simp
  ultimately show ?thesis using s' assms(6) by (simp add: apply_update_def begin_op_def)
qed

section \<open>Staying inside the folder\<close>

definition inside :: "string \<Rightarrow> bool" where
  "inside path \<longleftrightarrow> \<not> has_prefix path ''/'' \<and> list_all (\<lambda>q. q \<noteq> [] \<and> q \<noteq> ''.'' \<and> q \<noteq> ''..'') (split_chr (CHR ''/'') path)"

lemma path_clean_is_inside:
  "path_clean p \<noteq> ''.'' \<Longrightarrow> \<not> has_prefix (path_clean p) ''..'' \<Longrightarrow> \<not> has_prefix (path_clean p) ''/'' \<Longrightarrow> inside (path_clean p)"
  using path_clean_inside [of p] by (auto simp: inside_def list_all_iff)

text \<open>C38: Unpacking a bundle, whatever the archive holds and wherever it fails, writes only files whose path inside the
  module's folder is relative and has no empty, dot or parent segment.\<close>

theorem extract_stays_inside:
  "extract_entries f broken t es = (r, t') \<Longrightarrow> (path, data) \<in> set t' \<Longrightarrow> (path, data) \<in> set t \<or> inside path"
proof (induction f broken t es rule: extract_entries.induct)
  case (2 f broken t e es)
  let ?c = "path_clean (te_name e)"
  have upd: "(path, data) \<in> set (AList.update ?c d t) \<Longrightarrow> (path, data) \<in> set t \<or> path = ?c" for d
    by (induction t) (auto split: if_splits)
  show ?case
  proof (cases "?c = ''.'' \<or> has_prefix ?c ''..'' \<or> has_prefix ?c ''/''")
    case True
    then show ?thesis using 2 by (auto simp: Let_def split: if_splits)
  next
    case False
    then have "inside ?c" using path_clean_is_inside by blast
    then show ?thesis
      using 2 False upd by (cases "te_kind e") (auto simp: Let_def split: if_splits)
  qed
qed simp

section \<open>Copies first\<close>

lemma copy_files_ok: "copy_files f what src t = (Inr u, t') \<Longrightarrow> t' = fold (\<lambda>(k, v). AList.update k v) src t"
  by (induction f what src t rule: copy_files.induct) (auto split: if_splits)

lemma copy_files_works:
  "list_all (\<lambda>(k, v). \<not> f (what @ k)) src \<Longrightarrow> copy_files f what src t = (Inr (), fold (\<lambda>(k, v). AList.update k v) src t)"
  by (induction f what src t rule: copy_files.induct) auto

lemma snapshot_volumes_keeps:
  "snapshot_volumes f now s mid = (r, s') \<Longrightarrow> us_dirs s' = us_dirs s \<and> us_mgr s' = us_mgr s \<and> us_kept s' = us_kept s
    \<and> us_dumps s' = us_dumps s"
  by (auto simp: snapshot_volumes_def Let_def split: if_splits sum.splits prod.splits)

lemma keep_version_keeps:
  "keep_version f s mid v = (r, s') \<Longrightarrow> us_dirs s' = us_dirs s \<and> us_mgr s' = us_mgr s"
  by (auto simp: keep_version_def Let_def split: if_splits prod.splits)

lemma keep_version_ok:
  assumes "keep_version f s mid v = (Inr u, s')" "\<not> f ''remove kept files''" "map_of (us_dirs s) mid = Some t"
    "distinct (map fst t)"
  shows "map_of (us_kept s') (mid, v) = Some t"
  using assms fold_update_fresh [of "[]" t]
  by (auto simp: keep_version_def copy_dir_def Let_def update_conv' split: if_splits prod.splits dest!: copy_files_ok)

lemma safety_copies_keeps:
  assumes "safety_copies env s mid old = (r, s')"
  shows "us_dirs s' = us_dirs s \<and> us_mgr s' = us_mgr s"
proof -
  obtain r1 dumps where d: "(if mf_needs_db old then db_snapshot (ue_prep env) (ue_now env) (''before-update-'' @ mid) (us_dumps s)
      else (Inr [], us_dumps s)) = (r1, dumps)" by fastforce
  obtain r2 s1 where v: "snapshot_volumes (ue_prep env) (ue_now env) (s\<lparr>us_dumps := dumps\<rparr>) mid = (r2, s1)" by fastforce
  obtain r3 s2 where k: "keep_version (ue_prep env) s1 mid (mf_version old) = (r3, s2)" by fastforce
  have 1: "us_dirs s1 = us_dirs s \<and> us_mgr s1 = us_mgr s" using snapshot_volumes_keeps [OF v] by simp
  have 2: "us_dirs s2 = us_dirs s \<and> us_mgr s2 = us_mgr s" using keep_version_keeps [OF k] 1 by simp
  show ?thesis
    using assms d v k 1 2 by (auto simp: safety_copies_def Let_def split: sum.splits)
qed

lemma safety_copies_ok:
  assumes "safety_copies env s mid old = (Inr u, s')" "\<not> ue_prep env ''remove kept files''"
    "map_of (us_dirs s) mid = Some t" "distinct (map fst t)"
  shows "map_of (us_kept s') (mid, mf_version old) = Some t"
proof -
  obtain r1 dumps where d: "(if mf_needs_db old then db_snapshot (ue_prep env) (ue_now env) (''before-update-'' @ mid) (us_dumps s)
      else (Inr [], us_dumps s)) = (r1, dumps)" by fastforce
  obtain r2 s1 where v: "snapshot_volumes (ue_prep env) (ue_now env) (s\<lparr>us_dumps := dumps\<rparr>) mid = (r2, s1)" by fastforce
  obtain r3 s2 where k: "keep_version (ue_prep env) s1 mid (mf_version old) = (r3, s2)" by fastforce
  have "r3 = Inr ()" "s' = s2" using assms(1) d v k by (auto simp: safety_copies_def Let_def split: sum.splits)
  then show ?thesis
    using keep_version_ok [of "ue_prep env" s1 mid "mf_version old" "()" s2] k assms snapshot_volumes_keeps [OF v] by simp
qed

text \<open>A module that is live: in the catalog with a row.\<close>

definition live_module :: "upd_state \<Rightarrow> string \<Rightarrow> manifest \<Rightarrow> inst_row \<Rightarrow> bool" where
  "live_module s mid old row \<longleftrightarrow> in_catalog (us_mgr s) mid = Some old \<and> find_mod (mg_db (us_mgr s)) mid = Some row
     \<and> in_status row \<noteq> ''not_installed''"

lemma apply_bundle_live:
  assumes "live_module s mid old row"
  shows "apply_bundle env s mid bundle =
    (if ue_prep env ''query installed_modules'' then (Inl ''check install status'', s)
     else case safety_copies env s mid old of
       (Inl e, s1) \<Rightarrow> (Inl e, s1)
     | (Inr _, s1) \<Rightarrow>
         (case extract_bundle (ue_prep env) (ue_unpack env) bundle mid s1 of
            (Inl e, s2) \<Rightarrow> (Inl ''extract module bundle'', restore_files (ue_prep env) s2 mid (mf_version old))
          | (Inr _, s2) \<Rightarrow> apply_unpacked env s2 mid (Some (mf_version old, in_config row))))"
  using assms
  by (auto simp: apply_bundle_def live_module_def get_installed_def status_of_row_def Let_def split: sum.splits prod.splits)

lemma start_version_kept: "start_version root env wait s mid mf cfg = (r, s') \<Longrightarrow> us_kept s' = us_kept s"
  by (auto simp: start_version_def split: sum.splits prod.splits)

lemma reload_catalog_kept: "reload_catalog f parse root s = (r, s') \<Longrightarrow> us_kept s' = us_kept s"
  by (auto simp: reload_catalog_def split: if_splits sum.splits)

lemma restore_files_kept [simp]: "us_kept (restore_files f s mid v) = us_kept s" "us_mgr (restore_files f s mid v) = us_mgr s"
  by (simp_all add: restore_files_def Let_def)

lemma roll_back_kept:
  assumes "roll_back env s mid v cfg = (r, s')"
  shows "us_kept s' = us_kept s"
proof -
  obtain r1 s2 where rl: "reload_catalog (lc_faults (ue_back env)) (ue_parse env) (ue_root env)
      (restore_files (lc_faults (ue_back env)) s mid v) = (r1, s2)" by fastforce
  have 1: "us_kept s2 = us_kept s" using reload_catalog_kept [OF rl] by simp
  show ?thesis
    using assms rl 1 by (auto simp: roll_back_def Let_def split: sum.splits option.splits prod.splits dest!: start_version_kept)
qed

lemma apply_unpacked_kept:
  assumes "apply_unpacked env s mid live = (r, s')"
  shows "us_kept s' = us_kept s"
proof -
  obtain r1 s1 where rl: "reload_catalog (ue_prep env) (ue_parse env) (ue_root env) s = (r1, s1)" by fastforce
  have 1: "us_kept s1 = us_kept s" using reload_catalog_kept [OF rl] by simp
  show ?thesis
    using assms rl 1
    by (auto simp: apply_unpacked_def split: sum.splits option.splits prod.splits dest!: start_version_kept roll_back_kept)
qed

lemma extract_bundle_rest:
  "extract_bundle f unpack data mid s = (r, s') \<Longrightarrow> us_kept s' = us_kept s \<and> us_mgr s' = us_mgr s
    \<and> (s' = s \<or> (\<exists>t. us_dirs s' = AList.update mid t (us_dirs s)))"
  by (auto simp: extract_bundle_def split: if_splits option.splits prod.splits)

text \<open>Updating a module that is in use changes nothing of it, neither its files nor the manager's tables, catalog and
  containers, unless the complete set of its old files has been copied aside before; that copy stays, however
  the update ends.\<close>

theorem no_copy_no_change:
  assumes run: "apply_bundle env s mid bundle = (r, s')" and live: "live_module s mid old row"
    and files: "map_of (us_dirs s) mid = Some t" "distinct (map fst t)" and "\<not> ue_prep env ''remove kept files''"
  shows "us_dirs s' = us_dirs s \<and> us_mgr s' = us_mgr s \<or> map_of (us_kept s') (mid, mf_version old) = Some t"
proof (cases "safety_copies env s mid old")
  case (Pair r1 s1)
  show ?thesis
  proof (cases r1)
    case (Inl e)
    then show ?thesis
      using run Pair safety_copies_keeps [OF Pair] unfolding apply_bundle_live [OF live] by (auto split: if_splits)
  next
    case (Inr u)
    then have kept: "map_of (us_kept s1) (mid, mf_version old) = Some t" using Pair safety_copies_ok assms by blast
    obtain r2 s2 where x: "extract_bundle (ue_prep env) (ue_unpack env) bundle mid s1 = (r2, s2)" by fastforce
    then have "us_kept s2 = us_kept s1" using extract_bundle_rest by blast
    then show ?thesis
      using run Pair Inr kept x unfolding apply_bundle_live [OF live]
      by (auto split: if_splits sum.splits dest!: apply_unpacked_kept)
  qed
qed

section \<open>Rolling back\<close>

lemma load_all_faults: "load_all f parse root ds acc = Inr mfs \<Longrightarrow> load_all no_faults parse root ds acc = Inr mfs"
  by (induction f parse root ds acc rule: load_all.induct)
    (auto simp: load_manifest_def split: option.splits sum.splits if_splits)

lemma reload_catalog_ok:
  assumes "reload_catalog f parse root s = (Inr u, s')"
  shows "us_dirs s' = us_dirs s \<and> us_kept s' = us_kept s \<and> mg_db (us_mgr s') = mg_db (us_mgr s)
    \<and> load_all no_faults parse root (by_name (us_dirs s)) [] = Inr (mg_catalog (us_mgr s'))
    \<and> us_mgr s' = (us_mgr s)\<lparr>mg_catalog := mg_catalog (us_mgr s')\<rparr>"
  using assms by (auto simp: reload_catalog_def split: if_splits sum.splits dest: load_all_faults)

lemma manager_ok_catalog: "manager_ok (m\<lparr>mg_catalog := c\<rparr>) = manager_ok m"
  by (simp add: manager_ok_def)

lemma do_install_rest:
  assumes "do_install env m mid mf config = (r, m')" "manager_ok m"
  shows "mg_catalog m' = mg_catalog m \<and> manager_ok m' \<and> map in_id (cd_mods (mg_db m')) = map in_id (cd_mods (mg_db m))
    \<and> mg_busy m' = mg_busy m"
proof -
  have ok: "ports_ok (mg_db m)" using assms(2) by (simp add: manager_ok_def)
  have keeps: "op_keeps m m'" using do_install_keeps [OF assms(1)] .
  have "mg_catalog m' = mg_catalog m \<and> map in_id (cd_mods (mg_db m')) = map in_id (cd_mods (mg_db m))"
  proof (cases "resolve_config env m mid mf config")
    case (Some resolved)
    obtain r1 dirs where rc: "render_compose env (mf_dir mf) (mf_compose mf) mid resolved (mg_dirs m) = (r1, dirs)" by fastforce
    obtain r2 m1 where up: "compose_up (lc_faults env) (m\<lparr>mg_dirs := dirs\<rparr>) mid = (r2, m1)" by fastforce
    obtain r3 m2 where pub: "publish (lc_faults env) m1 mid mf = (r3, m2)" by fastforce
    have 1: "mg_catalog m1 = mg_catalog m \<and> mg_db m1 = mg_db m" using up by (auto simp: compose_up_def split: if_splits)
    then have 2: "mg_catalog m2 = mg_catalog m \<and> cd_mods (mg_db m2) = cd_mods (mg_db m)"
      using publish_keeps [OF pub] ok by auto
    have 3: "mg_catalog (snd (record_install (lc_faults env) m2 mid resolved)) = mg_catalog m2
        \<and> map in_id (cd_mods (mg_db (snd (record_install (lc_faults env) m2 mid resolved)))) = map in_id (cd_mods (mg_db m2))"
      by (auto simp: record_install_def with_db_def update_mod_def comp_def)
    show ?thesis
      using assms(1) Some rc up pub 1 2 3 by (auto simp: do_install_def split: sum.splits)
  qed (use assms in \<open>simp add: do_install_def\<close>)
  then show ?thesis using keeps assms(2) by (simp add: op_keeps_def)
qed

lemma start_version_rest:
  assumes "start_version root env wait s mid mf cfg = (r, s')" "manager_ok (us_mgr s)"
  shows "us_dirs s' = us_dirs s \<and> us_kept s' = us_kept s \<and> mg_catalog (us_mgr s') = mg_catalog (us_mgr s)
    \<and> manager_ok (us_mgr s') \<and> map in_id (cd_mods (mg_db (us_mgr s'))) = map in_id (cd_mods (mg_db (us_mgr s)))"
proof -
  obtain r1 m where di: "do_install (with_files root s mf env) (us_mgr s) mid mf cfg = (r1, m)" by fastforce
  show ?thesis
    using assms(1) di do_install_rest [OF di assms(2)] by (auto simp: start_version_def split: sum.splits)
qed

lemma find_mod_ids: "map in_id (cd_mods a) = map in_id (cd_mods b) \<Longrightarrow> find_mod a mid = None \<longleftrightarrow> find_mod b mid = None"
proof -
  assume "map in_id (cd_mods a) = map in_id (cd_mods b)"
  then have "in_id ` set (cd_mods a) = in_id ` set (cd_mods b)" by (metis list.set_map)
  moreover have "find_mod db mid = None \<longleftrightarrow> mid \<notin> in_id ` set (cd_mods db)" for db
    by (auto simp: find_mod_def find_None_iff)
  ultimately show ?thesis by simp
qed

text \<open>What a rollback that reports success has done.\<close>

lemma roll_back_ok:
  assumes run: "roll_back env s mid version cfg = (Inl ''update failed and was rolled back; no data was changed'', s')"
    and ok: "manager_ok (us_mgr s)" and row: "find_mod (mg_db (us_mgr s)) mid \<noteq> None"
  obtains mf resolved row' where
    "us_dirs s' = us_dirs (restore_files (lc_faults (ue_back env)) s mid version)"
    "load_all no_faults (ue_parse env) (ue_root env) (by_name (us_dirs s')) [] = Inr (mg_catalog (us_mgr s'))"
    "in_catalog (us_mgr s') mid = Some mf"
    "find_mod (mg_db (us_mgr s')) mid = Some row'" "in_status row' = ''running''"
    "map_of (mg_dirs (us_mgr s')) mid = Some (the (stored_file (ue_root env) s' (mf_dir mf) (mf_compose mf)), env_text resolved)"
    "\<And>fd v. distinct (map cf_key (mf_schema mf)) \<Longrightarrow> fd \<in> set (mf_schema mf) \<Longrightarrow> map_of cfg (cf_key fd) = Some v \<Longrightarrow> v \<noteq> []
       \<Longrightarrow> map_of (in_config row') (cf_key fd) = Some v \<and> (cf_key fd, v) \<in> set resolved"
proof -
  let ?f = "lc_faults (ue_back env)"
  let ?s1 = "restore_files ?f s mid version"
  obtain u s2 where rl: "reload_catalog ?f (ue_parse env) (ue_root env) ?s1 = (Inr u, s2)"
    using run by (auto simp: roll_back_def Let_def split: sum.splits prod.splits)
  note c = reload_catalog_ok [OF rl]
  obtain mf where mf: "in_catalog (us_mgr s2) mid = Some mf"
    using run rl by (auto simp: roll_back_def Let_def split: option.splits)
  obtain w where st: "start_version (ue_root env) (ue_back env) (ue_back_wait env) s2 mid mf cfg = (Inr (Inr w), s')"
    using run rl mf by (auto simp: roll_back_def Let_def split: sum.splits prod.splits)
  let ?env = "with_files (ue_root env) s2 mf (ue_back env)"
  obtain x m where di: "do_install ?env (us_mgr s2) mid mf cfg = (Inr x, m)" "s' = s2\<lparr>us_mgr := m\<rparr>"
    using st by (auto simp: start_version_def split: sum.splits prod.splits)
  have ok2: "manager_ok (us_mgr s2)" using c ok by (metis manager_ok_catalog restore_files_kept(2))
  have "find_mod (mg_db (us_mgr s2)) mid \<noteq> None" using c row by simp
  then obtain r2 where r2: "find_mod (mg_db (us_mgr s2)) mid = Some r2" by blast
  from do_install_config [OF di(1) ok2 r2] obtain resolved row' where r:
    "resolve_config ?env (us_mgr s2) mid mf cfg = Some resolved" "find_mod (mg_db m) mid = Some row'"
    "in_status row' = ''running''"
    "\<forall>k. map_of (in_config row') k = (case map_of resolved k of None \<Rightarrow> map_of (in_config r2) k | Some v \<Rightarrow> Some v)"
    by (elim exE conjE) (rule that)
  have "ports_ok (mg_db (us_mgr s2))" using ok2 by (simp add: manager_ok_def)
  from do_install_ok [OF di(1) this] r(1)
  have files: "map_of (mg_dirs m) mid = Some (lc_file ?env (mf_dir mf) (mf_compose mf), env_text resolved)" by auto
  have "\<not> lc_faults ?env ''open compose file''"
    using di(1) r(1) by (auto simp: do_install_def render_compose_def Let_def split: if_splits prod.splits sum.splits)
  then have stored: "stored_file (ue_root env) s2 (mf_dir mf) (mf_compose mf) \<noteq> None" by (simp add: with_files_def)
  have same: "stored_file (ue_root env) s' = stored_file (ue_root env) s2"
    by (intro ext) (simp add: stored_file_def di(2))
  have vals: "map_of (in_config row') (cf_key fd) = Some v \<and> (cf_key fd, v) \<in> set resolved"
    if "distinct (map cf_key (mf_schema mf))" "fd \<in> set (mf_schema mf)" "map_of cfg (cf_key fd) = Some v" "v \<noteq> []" for fd v
  proof -
    have "map_of resolved (cf_key fd) = Some v"
      using resolve_fields_value [OF r(1) [unfolded resolve_config_def] that(1,2)] resolve_given [of cfg fd v ?env] that(3,4)
      by simp
    then show ?thesis using r(4) by (auto dest: map_of_SomeD)
  qed
  have dirs: "us_dirs s' = us_dirs ?s1" and cat: "mg_catalog m = mg_catalog (us_mgr s2)" and d2: "us_dirs s2 = us_dirs ?s1"
    using c di(2) do_install_rest [OF di(1) ok2] by simp_all
  have m: "us_mgr s' = m" using di(2) by simp
  have "lc_file ?env (mf_dir mf) (mf_compose mf) = the (stored_file (ue_root env) s' (mf_dir mf) (mf_compose mf))"
    using stored unfolding same by (auto simp: with_files_def)
  with files have rendered: "map_of (mg_dirs (us_mgr s')) mid
      = Some (the (stored_file (ue_root env) s' (mf_dir mf) (mf_compose mf)), env_text resolved)" unfolding m by simp
  have loaded: "load_all no_faults (ue_parse env) (ue_root env) (by_name (us_dirs s')) [] = Inr (mg_catalog (us_mgr s'))"
    using c unfolding m cat dirs by simp
  have "in_catalog (us_mgr s') mid = Some mf" using mf unfolding m in_catalog_def cat .
  moreover have "find_mod (mg_db (us_mgr s')) mid = Some row'" using r(2) unfolding m .
  ultimately show ?thesis by (rule that [OF dirs loaded _ _ r(3) rendered vals])
qed

lemma apply_unpacked_failed:
  assumes run: "apply_unpacked env s mid (Some (version, cfg)) = (Inl ''update failed and was rolled back; no data was changed'', s')"
    and ok: "manager_ok (us_mgr s)"
  obtains s2 where "roll_back env s2 mid version cfg = (Inl ''update failed and was rolled back; no data was changed'', s')"
    "us_dirs s2 = us_dirs s" "us_kept s2 = us_kept s" "manager_ok (us_mgr s2)"
    "map in_id (cd_mods (mg_db (us_mgr s2))) = map in_id (cd_mods (mg_db (us_mgr s)))"
proof -
  obtain u s1 where rl: "reload_catalog (ue_prep env) (ue_parse env) (ue_root env) s = (Inr u, s1)"
    using run by (auto simp: apply_unpacked_def split: sum.splits prod.splits)
  note c = reload_catalog_ok [OF rl]
  have ok1: "manager_ok (us_mgr s1)" using c ok by (metis manager_ok_catalog)
  obtain mf where mf: "in_catalog (us_mgr s1) mid = Some mf"
    using run rl by (auto simp: apply_unpacked_def split: option.splits)
  obtain r s2 where st: "start_version (ue_root env) (ue_new env) (ue_new_wait env) s1 mid mf cfg = (r, s2)" by fastforce
  have "roll_back env s2 mid version cfg = (Inl ''update failed and was rolled back; no data was changed'', s')"
    using run rl mf st by (auto simp: apply_unpacked_def split: sum.splits)
  then show ?thesis using that c start_version_rest [OF st ok1] by simp
qed

lemma restore_files_works:
  assumes "map_of (us_kept s) (mid, version) = Some t" "distinct (map fst t)" "\<not> f ''remove module files''"
    "list_all (\<lambda>(k, v). \<not> f (''restore '' @ k)) t"
  shows "us_dirs (restore_files f s mid version) = AList.update mid t (us_dirs s)"
  using assms copy_files_works [of f "''restore ''" t "[]"] fold_update_fresh [of "[]" t]
  by (simp add: restore_files_def copy_dir_def Let_def)


section \<open>From the repository to the module's folder\<close>

lemma index_modules_bundle:
  "index_modules env files dirs = Inr (ix, bs) \<Longrightarrow> distinct dirs \<Longrightarrow> e \<in> set ix \<Longrightarrow>
   ix_id e \<in> set dirs \<and> (\<exists>bytes. map_of bs (ix_id e) = Some (ix_version e, bytes)
     \<and> re_pack env (pack_entries env (the (map_of files (ix_id e)))) = Some bytes
     \<and> ix_sha e = hex_encode (re_hash env bytes))"
proof (induction env files dirs arbitrary: ix bs rule: index_modules.induct)
  case (2 env files dir dirs)
  let ?t = "the (map_of files dir)"
  show ?case
  proof (cases "usable_head env dir ?t")
    case None
    then show ?thesis using 2 by (simp add: Let_def)
  next
    case (Some h)
    have h: "mh_id h = dir" using Some by (auto simp: usable_head_def split: option.splits if_splits)
    obtain bytes where bytes: "re_pack env (pack_entries env ?t) = Some bytes"
      using 2(3) Some by (auto simp: Let_def split: option.splits)
    obtain ix1 bs1 where r: "index_modules env files dirs = Inr (ix1, bs1)"
      using 2(3) Some bytes by (auto simp: Let_def split: sum.splits)
    have ix: "ix = \<lparr>ix_id = dir, ix_name = mh_name h, ix_category = mh_category h, ix_version = mh_version h,
        ix_severity = ''recommended'', ix_changelog = [], ix_sha = hex_encode (re_hash env bytes)\<rparr> # ix1"
      "bs = (dir, mh_version h, bytes) # bs1"
      using 2(3) Some bytes r h by (simp_all add: Let_def)
    have ih: "e \<in> set ix1 \<Longrightarrow> ix_id e \<in> set dirs \<and> (\<exists>bytes. map_of bs1 (ix_id e) = Some (ix_version e, bytes)
       \<and> re_pack env (pack_entries env (the (map_of files (ix_id e)))) = Some bytes \<and> ix_sha e = hex_encode (re_hash env bytes))"
      using 2(2) [OF refl Some bytes r] 2(4) by simp
    show ?thesis
    proof (cases "e \<in> set ix1")
      case True
      then have "ix_id e \<noteq> dir" using ih 2(4) by auto
      then show ?thesis using ih [OF True] ix(2) by simp
    next
      case False
      then show ?thesis using 2(5) ix bytes by simp
    qed
  qed
qed simp

lemma repo_files_keys: "distinct (map fst acc) \<Longrightarrow> distinct (map fst (fold add_file es acc))"
  by (induction es arbitrary: acc) (simp_all add: add_file_def distinct_update split: option.split prod.split)

lemma extract_packed:
  assumes "list_all (\<lambda>n. path_clean n = n \<and> n \<noteq> ''.'' \<and> \<not> has_prefix n ''..'' \<and> \<not> has_prefix n ''/'') names"
    "extract_entries f False old (map (\<lambda>n. \<lparr>te_name = path_clean n, te_kind = Tar_Reg, te_data = g n\<rparr>) names) = (Inr u, new)"
  shows "new = fold (\<lambda>n. AList.update n (g n)) names old"
  using assms by (induction names arbitrary: old) (auto simp: Let_def split: if_splits)

lemma map_of_fold_names:
  "map_of (fold (\<lambda>n. AList.update n (g n)) names xs) k = (if k \<in> set names then Some (g k) else map_of xs k)"
  by (induction names arbitrary: xs) (auto simp: update_conv')

text \<open>Every module a fetch of the repository lists can be downloaded, passing its checksum, and unpacking the download
  puts each file of the module's folder in the repository at its path with its content and leaves every other
  file alone, whatever the order in which files are packed.\<close>

theorem repository_to_folder:
  assumes tarball: "re_tarball env = Inr (es, False)" and fetch: "fetch_index env s0 = (Inr entries, s)" and e: "e \<in> set entries"
    and order: "\<forall>xs. mset (re_order env xs) = mset xs"
    and archive: "\<forall>xs bytes. re_pack env xs = Some bytes \<longrightarrow> unpack bytes = Some (xs, False)"
    and t: "map_of (repo_files es) (ix_id e) = Some t"
    and clean: "list_all (\<lambda>(n, _). path_clean n = n \<and> n \<noteq> ''.'' \<and> \<not> has_prefix n ''..'' \<and> \<not> has_prefix n ''/'') t"
  shows "\<exists>bytes packed. download_bundle env (ix_id e) (ix_version e) (ix_sha e) s = (Inr bytes, s)
    \<and> unpack bytes = Some (packed, False)
    \<and> (\<forall>f old u new. extract_entries f False old packed = (Inr u, new) \<longrightarrow>
         (\<forall>path. map_of new path = (case map_of t path of None \<Rightarrow> map_of old path | Some data \<Rightarrow> Some data)))"
proof -
  let ?files = "repo_files es"
  obtain bs where im: "index_modules env ?files (re_order env (map fst ?files)) = Inr (entries, bs)" "us_bundles s = bs"
    using fetch tarball by (auto simp: fetch_index_def Let_def split: sum.splits)
  have keys: "distinct (map fst ?files)"
    using repo_files_keys [of "[]" es] by (simp add: repo_files_def)
  have "distinct (re_order env (map fst ?files))"
    using keys order mset_eq_imp_distinct_iff by blast
  from index_modules_bundle [OF im(1) this e] obtain bytes where b:
    "map_of bs (ix_id e) = Some (ix_version e, bytes)" "re_pack env (pack_entries env t) = Some bytes"
    "ix_sha e = hex_encode (re_hash env bytes)" using t by auto
  have "download_bundle env (ix_id e) (ix_version e) (ix_sha e) s = (Inr bytes, s)"
    using b im(2) by (simp add: download_bundle_def held_bundle_def checked_bundle_def)
  moreover have "unpack bytes = Some (pack_entries env t, False)" using archive b(2) by blast
  moreover have "map_of new path = (case map_of t path of None \<Rightarrow> map_of old path | Some data \<Rightarrow> Some data)"
    if "extract_entries f False old (pack_entries env t) = (Inr u, new)" for f old u new path
  proof -
    let ?names = "re_order env (map fst t)"
    have set: "set ?names = fst ` set t" using order by (metis set_map set_mset_mset)
    then have "list_all (\<lambda>n. path_clean n = n \<and> n \<noteq> ''.'' \<and> \<not> has_prefix n ''..'' \<and> \<not> has_prefix n ''/'') ?names"
      using clean by (auto simp: list_all_iff)
    from extract_packed [OF this that [unfolded pack_entries_def]]
    have "map_of new path = (if path \<in> set ?names then Some (the (map_of t path)) else map_of old path)"
      by (simp add: map_of_fold_names)
    moreover have "path \<in> set ?names \<longleftrightarrow> map_of t path \<noteq> None"
      unfolding set by (simp add: map_of_eq_None_iff)
    ultimately show ?thesis by (auto split: option.split)
  qed
  ultimately show ?thesis by blast
qed

end
