(* ===== verification/ModuleUpdateExamples.thy ===== *)
theory ModuleUpdateExamples
  imports ModuleUpdateProps
begin

text \<open>A small repository and an update of the module of \<open>ModuleExamples\<close>, at which the properties apply.\<close>

section \<open>A repository\<close>

definition repo_entries :: "tar_entry list" where
  "repo_entries = [\<lparr>te_name = ''r/README'', te_kind = Tar_Reg, te_data = []\<rparr>,
     \<lparr>te_name = ''r/modules/files/manifest.yaml'', te_kind = Tar_Reg, te_data = ''m2''\<rparr>]"

definition packed_entries :: "tar_entry list" where
  "packed_entries = [\<lparr>te_name = ''manifest.yaml'', te_kind = Tar_Reg, te_data = ''m2''\<rparr>]"

definition ex_repo :: "string \<Rightarrow> repo_env" where
  "ex_repo version = \<lparr>re_tarball = Inr (repo_entries, False),
     re_head = (\<lambda>file. Some \<lparr>mh_id = ''files'', mh_name = ''Files'', mh_category = [], mh_version = version\<rparr>),
     re_order = (\<lambda>xs. xs), re_pack = (\<lambda>es. if es = packed_entries then Some ''b'' else None), re_hash = (\<lambda>s. s)\<rparr>"

definition ex_unpack :: unpacker where
  "ex_unpack bytes = (if bytes = ''b'' then Some (packed_entries, False) else None)"

definition ex_old :: manifest where "ex_old = ex_module\<lparr>mf_dir := ''m/files''\<rparr>"

definition old_tree :: tree where "old_tree = [(''manifest.yaml'', ''m1''), (''c.yaml'', ''v1'')]"

definition ex_upd :: upd_state where
  "ex_upd = \<lparr>us_mgr = ex_manager\<lparr>mg_catalog := [ex_old]\<rparr>, us_dirs = [(''files'', old_tree)], us_kept = [], us_dumps = [],
     us_tars = [], us_updates = [], us_entries = [], us_configured = True, us_bundles = []\<rparr>"

definition ex_entry :: "string \<Rightarrow> index_entry" where
  "ex_entry version = \<lparr>ix_id = ''files'', ix_name = ''Files'', ix_category = [], ix_version = version,
     ix_severity = ''recommended'', ix_changelog = [], ix_sha = hex_encode ''b''\<rparr>"

lemma ex_repo_files: "repo_files repo_entries = [(''files'', [(''manifest.yaml'', ''m2'')])]"
  by code_simp

lemma ex_clean: "path_clean ''manifest.yaml'' = ''manifest.yaml''"
  by code_simp

lemma ex_fetch:
  assumes "v \<noteq> []"
  shows "fetch_index (ex_repo v) ex_upd = (Inr [ex_entry v], ex_upd\<lparr>us_bundles := [(''files'', v, ''b'')]\<rparr>)"
  using assms
  by (simp add: fetch_index_def ex_repo_def ex_repo_files Let_def usable_head_def pack_entries_def ex_clean
      packed_entries_def ex_entry_def)

lemma ex_version: "Version ''1.0.0'' < Version ''1.1''" "Version ''0.9'' < Version ''1.0.0''"
  by (code_simp)+

theorem offers_only_newer_witness:
  "update_of (us_mgr ex_upd) (ex_entry ''1.1'') \<in> set (case check_for_updates (ex_repo ''1.1'') ex_upd of (Inr found, _) \<Rightarrow> found)"
proof -
  obtain found s' where c: "check_for_updates (ex_repo ''1.1'') ex_upd = (Inr found, s')"
    using ex_fetch [of "''1.1''"] by (simp add: check_for_updates_def ex_upd_def record_check_def Let_def)
  have "us_configured ex_upd" by (simp add: ex_upd_def)
  from offers_only_newer [OF c this ex_fetch] have
    "\<forall>e \<in> set [ex_entry ''1.1'']. update_of (us_mgr ex_upd) e \<in> set found \<longleftrightarrow>
      (\<forall>mf. in_catalog (us_mgr ex_upd) (ix_id e) = Some mf \<longrightarrow> Version (mf_version mf) < Version (ix_version e))" by simp
  then have "update_of (us_mgr ex_upd) (ex_entry ''1.1'') \<in> set found"
    using ex_version(1) by (simp add: ex_entry_def ex_upd_def in_catalog_def ex_old_def ex_module_def)
  then show ?thesis using c by simp
qed

theorem update_can_downgrade_witness:
  "Version ''0.9'' < Version ''1.0.0'' \<and>
   fst (apply_update (snd (check_for_updates (ex_repo ''0.9'') ex_upd)) ''files'') = Inr (ex_entry ''0.9'')"
proof -
  obtain found s' where c: "check_for_updates (ex_repo ''0.9'') ex_upd = (Inr found, s')"
    using ex_fetch [of "''0.9''"] by (simp add: check_for_updates_def ex_upd_def record_check_def Let_def)
  have "us_configured ex_upd" by (simp add: ex_upd_def)
  from update_can_downgrade [OF c this ex_fetch, of "ex_entry ''0.9''" ex_old, THEN conjunct2] show ?thesis
    using ex_version(2) c by (simp add: ex_entry_def ex_upd_def in_catalog_def ex_old_def ex_module_def ex_manager_def)
qed

theorem extract_stays_inside_witness:
  "(''b'', ''x'') \<in> set [] \<or> inside ''b''"
proof -
  have "extract_entries no_faults False [] [\<lparr>te_name = ''a/../b'', te_kind = Tar_Reg, te_data = ''x''\<rparr>] = (Inr (), [(''b'', ''x'')])"
    by code_simp
  then show ?thesis by (rule extract_stays_inside) simp
qed

theorem repository_to_folder_witness:
  "\<exists>bytes packed. download_bundle (ex_repo ''1.1'') ''files'' ''1.1'' (hex_encode ''b'') (ex_upd\<lparr>us_bundles := [(''files'', ''1.1'', ''b'')]\<rparr>)
      = (Inr bytes, ex_upd\<lparr>us_bundles := [(''files'', ''1.1'', ''b'')]\<rparr>) \<and> ex_unpack bytes = Some (packed, False)"
proof -
  have a: "re_tarball (ex_repo ''1.1'') = Inr (repo_entries, False)" "\<forall>xs. mset (re_order (ex_repo ''1.1'') xs) = mset xs"
    "\<forall>xs bytes. re_pack (ex_repo ''1.1'') xs = Some bytes \<longrightarrow> ex_unpack bytes = Some (xs, False)"
    by (simp_all add: ex_repo_def ex_unpack_def split: if_splits)
  have t: "map_of (repo_files repo_entries) (ix_id (ex_entry ''1.1'')) = Some [(''manifest.yaml'', ''m2'')]"
    by (simp add: ex_repo_files ex_entry_def)
  have c: "list_all (\<lambda>(n, _). path_clean n = n \<and> n \<noteq> ''.'' \<and> \<not> has_prefix n ''..'' \<and> \<not> has_prefix n ''/'')
      [(''manifest.yaml'', ''m2'')]" by (simp add: ex_clean)
  have "ex_entry ''1.1'' \<in> set [ex_entry ''1.1'']" by simp
  from repository_to_folder [OF a(1) ex_fetch this a(2,3) t c] show ?thesis
    by (simp add: ex_entry_def) blast
qed

section \<open>An update that fails\<close>

definition ex_parse :: "string \<Rightarrow> manifest option" where
  "ex_parse file = (if file = ''m1'' then Some ex_module else Some (ex_module\<lparr>mf_version := ''1.1''\<rparr>))"

definition ex_world :: upd_env where
  "ex_world = \<lparr>ue_root = ''m'', ue_now = 0, ue_parse = ex_parse, ue_unpack = ex_unpack, ue_prep = no_faults,
     ue_new = job_env, ue_new_wait = (90, []),
     ue_back = job_env, ue_back_wait = (90, [(0, False, Inr (True, [])), (4, False, Inr (True, [])), (8, False, Inr (True, [])),
       (12, False, Inr (True, []))])\<rparr>"

definition ex_after :: upd_state where "ex_after = snd (apply_bundle ex_world ex_upd ''files'' ''b'')"

lemma ex_apply: "apply_bundle ex_world ex_upd ''files'' ''b'' = (Inl ''update failed and was rolled back; no data was changed'', ex_after)"
proof -
  have "fst (apply_bundle ex_world ex_upd ''files'' ''b'') = Inl ''update failed and was rolled back; no data was changed''"
    by code_simp
  then show ?thesis by (simp add: ex_after_def prod_eq_iff)
qed

lemma ex_live: "live_module ex_upd ''files'' ex_old \<lparr>in_id = ''files'', in_status = ''running'', in_config = [(''PW'', ''s3cret'')],
    in_error = None, in_vis = ''private''\<rparr>"
  by (simp add: live_module_def ex_upd_def in_catalog_def find_mod_def ex_manager_def mgr_db_def ex_old_def ex_module_def)

lemma ex_files: "map_of (us_dirs ex_upd) ''files'' = Some old_tree" "distinct (map fst old_tree)"
  by (simp_all add: ex_upd_def old_tree_def)

theorem no_copy_no_change_witness:
  "us_dirs ex_after = us_dirs ex_upd \<and> us_mgr ex_after = us_mgr ex_upd
    \<or> map_of (us_kept ex_after) (''files'', mf_version ex_old) = Some old_tree"
  by (rule no_copy_no_change [OF ex_apply ex_live ex_files]) (simp add: ex_world_def)


end
