(* ===== verification/Pbx.thy ===== *)
theory Pbx
  imports GoText "HOL-Library.AList"
begin

text \<open>
  The phone module's generator of Asterisk configuration (\<open>modules/voip/service/internal/pbx/pbx.go\<close>): the
  checks every value passes, the three generated files as lists of lines, and writing them through a
  temporary file each.  \<open>letter\<close> says which runes outside ASCII are letters or numbers.
\<close>

section \<open>Data\<close>

record pbx_ext =
  px_number :: string
  px_name :: string
  px_password :: string
  px_main :: bool

record ivr_option =
  io_digit :: string
  io_label :: string
  io_targets :: "string list"

record ivr =
  iv_enabled :: bool
  iv_greeting :: bool
  iv_recorder :: string
  iv_options :: "ivr_option list"

record trunk =
  tk_enabled :: bool
  tk_host :: string
  tk_user :: string
  tk_password :: string
  tk_caller :: string
  tk_international :: bool

section \<open>Checks\<close>

definition alpha_num :: "char \<Rightarrow> bool" where
  "alpha_num c \<longleftrightarrow> in_range 0x30 0x39 c \<or> in_range 0x41 0x5A c \<or> in_range 0x61 0x7A c"

definition one_of :: "string \<Rightarrow> char \<Rightarrow> bool" where
  "one_of cs c \<longleftrightarrow> c \<in> set cs"

text \<open>\<open>numberRe\<close>, \<open>nameRe\<close>, \<open>hostRe\<close>, \<open>userRe\<close>, \<open>passRe\<close>, \<open>callerIDRe\<close> and \<open>digitRe\<close>.\<close>

definition valid_number :: "string \<Rightarrow> bool" where
  "valid_number s \<longleftrightarrow> (case s of [] \<Rightarrow> False
     | c # r \<Rightarrow> in_range 0x31 0x38 c \<and> list_all is_digit r \<and> 1 \<le> length r \<and> length r \<le> 4)"

definition name_rune :: "(nat \<Rightarrow> bool) \<Rightarrow> nat \<Rightarrow> bool" where
  "name_rune letter r \<longleftrightarrow> (if r < 0x80
     then (0x30 \<le> r \<and> r \<le> 0x39) \<or> (0x41 \<le> r \<and> r \<le> 0x5A) \<or> (0x61 \<le> r \<and> r \<le> 0x7A)
       \<or> r \<in> set (map byte '' .'()&_-'')
     else letter r)"

definition valid_name :: "(nat \<Rightarrow> bool) \<Rightarrow> string \<Rightarrow> bool" where
  "valid_name letter s \<longleftrightarrow> list_all (name_rune letter \<circ> fst) (runes s) \<and> 1 \<le> rune_count s \<and> rune_count s \<le> 40"

definition valid_host :: "string \<Rightarrow> bool" where
  "valid_host s \<longleftrightarrow> (case cut_chr (CHR '':'') s of (h, p, port) \<Rightarrow>
     list_all (\<lambda>c. alpha_num c \<or> one_of ''.-'' c) h \<and> 1 \<le> length h \<and> length h \<le> 253
     \<and> (port \<longrightarrow> list_all is_digit p \<and> 1 \<le> length p \<and> length p \<le> 5))"

definition valid_user :: "string \<Rightarrow> bool" where
  "valid_user s \<longleftrightarrow> list_all (\<lambda>c. alpha_num c \<or> one_of ''._+-'' c) s \<and> 1 \<le> length s \<and> length s \<le> 64"

definition valid_password :: "string \<Rightarrow> bool" where
  "valid_password s \<longleftrightarrow> list_all (\<lambda>c. in_range 0x21 0x3A c \<or> in_range 0x3C 0x7E c) s \<and> 1 \<le> length s \<and> length s \<le> 128"

definition valid_caller :: "string \<Rightarrow> bool" where
  "valid_caller s \<longleftrightarrow> (let d = (if has_prefix s ''+'' then tl s else s) in list_all is_digit d \<and> length d \<le> 20)"

definition valid_digit :: "string \<Rightarrow> bool" where
  "valid_digit s \<longleftrightarrow> (case s of [c] \<Rightarrow> in_range 0x31 0x39 c | _ \<Rightarrow> False)"

section \<open>The files\<close>

definition pbx_header :: "string list" where
  "pbx_header = [''; Generated by the IT Platform phone module '' @ em_dash @ '' edits here are overwritten.'', []]"

definition lan_only :: "string list" where
  "lan_only = [''acl = itp-lan'', ''contact_deny = 0.0.0.0/0.0.0.0'', ''contact_permit = 10.0.0.0/255.0.0.0'',
     ''contact_permit = 172.16.0.0/255.240.0.0'', ''contact_permit = 192.168.0.0/255.255.0.0'',
     ''contact_permit = 100.64.0.0/255.192.0.0'']"

definition ext_lines :: "pbx_ext \<Rightarrow> string list" where
  "ext_lines e = (let n = px_number e in
     [''['' @ n @ ''](itp-endpoint)'', ''context = itp-internal'', ''disallow = all'', ''allow = g722,ulaw,alaw'',
      ''auth = '' @ n, ''aors = '' @ n, ''callerid = '' @ quoted (px_name e) @ '' <'' @ n @ ''>'',
      ''mailboxes = '' @ n @ ''@default'', ''direct_media = no'', ''rtp_symmetric = yes'', ''force_rport = yes'',
      ''rewrite_contact = yes''] @ lan_only @
     [[], ''['' @ n @ '']'', ''type = auth'', ''auth_type = userpass'', ''username = '' @ n,
      ''password = '' @ px_password e, [],
      ''['' @ n @ '']'', ''type = aor'', ''max_contacts = 2'', ''remove_existing = yes'', ''qualify_frequency = 30'', []])"

definition host_only :: "string \<Rightarrow> string" where
  "host_only s = fst (cut_chr (CHR '':'') s)"

definition trunk_lines :: "trunk \<Rightarrow> string list" where
  "trunk_lines t =
     [''[trunk-auth]'', ''type = auth'', ''auth_type = userpass'', ''username = '' @ tk_user t,
      ''password = '' @ tk_password t, [],
      ''[trunk-reg]'', ''type = registration'', ''outbound_auth = trunk-auth'', ''server_uri = sip:'' @ tk_host t,
      ''client_uri = sip:'' @ tk_user t @ ''@'' @ tk_host t, ''retry_interval = 60'', ''forbidden_retry_interval = 600'', [],
      ''[trunk]'', ''type = aor'', ''contact = sip:'' @ tk_host t, [],
      ''[trunk](itp-endpoint)'', ''context = itp-incoming'', ''disallow = all'', ''allow = ulaw,alaw,g722'',
      ''outbound_auth = trunk-auth'', ''aors = trunk'', ''from_user = '' @ tk_user t,
      ''from_domain = '' @ host_only (tk_host t), ''direct_media = no'', ''rtp_symmetric = yes'', ''force_rport = yes'',
      ''rewrite_contact = yes'', [],
      ''[trunk-identify]'', ''type = identify'', ''endpoint = trunk'', ''match = '' @ host_only (tk_host t), []]"

definition pjsip_lines :: "pbx_ext list \<Rightarrow> trunk \<Rightarrow> bool \<Rightarrow> string list" where
  "pjsip_lines exts t on = pbx_header @ concat (map ext_lines exts) @ (if on then trunk_lines t else [])"

definition voicemail_lines :: "pbx_ext list \<Rightarrow> string list" where
  "voicemail_lines exts = pbx_header @ [''[default]'', ''0 => 0000,Main number'']
     @ map (\<lambda>e. px_number e @ '' => 0000,'' @ px_name e) exts"

definition greeting_base :: string where
  "greeting_base = ''/var/lib/itp-sounds/greeting''"

text \<open>The phone menu: the targets of a key that exist, its lines, and the whole context.\<close>

definition live_targets :: "pbx_ext list \<Rightarrow> ivr_option \<Rightarrow> string list" where
  "live_targets exts io = filter (\<lambda>t. t \<in> px_number ` set exts) (io_targets io)"

definition dial_list :: "string list \<Rightarrow> string" where
  "dial_list ns = join ''&'' (map (\<lambda>n. ''PJSIP/'' @ n) ns)"

definition key_works :: "pbx_ext list \<Rightarrow> ivr_option \<Rightarrow> bool" where
  "key_works exts io \<longleftrightarrow> live_targets exts io \<noteq> [] \<and> valid_digit (io_digit io)"

definition key_lines :: "pbx_ext list \<Rightarrow> ivr_option \<Rightarrow> string list" where
  "key_lines exts io = (let ts = live_targets exts io; d = io_digit io in
     [''; '' @ d @ '' = '' @ io_label io, ''exten => '' @ d @ '',1,NoOp(menu key '' @ d @ '')'',
      '' same => n,Dial('' @ dial_list ts @ '',25)'',
      '' same => n,VoiceMail('' @ (if length ts = 1 then hd ts else ''0'') @ ''@default,u)'',
      '' same => n,Hangup()''])"

definition menu_lines :: "pbx_ext list \<Rightarrow> ivr \<Rightarrow> string list" where
  "menu_lines exts v =
     (let ks = filter (key_works exts) (iv_options v) in
      if \<not> iv_enabled v \<or> \<not> iv_greeting v \<or> ks = [] then []
      else [''[itp-ivr]'', ''exten => s,1,Answer()'', '' same => n,Set(TRIES=0)'',
          '' same => n(menu),Background('' @ greeting_base @ '')'', '' same => n,WaitExten(6)'']
        @ concat (map (key_lines exts) ks)
        @ [''exten => 0,1,Goto(itp-ring,s,1)'', ''exten => t,1,Set(TRIES=$[${TRIES}+1])'',
          '' same => n,GotoIf($[${TRIES}>=2]?ring)'', '' same => n,Goto(s,menu)'', '' same => n(ring),Goto(itp-ring,s,1)'',
          ''exten => i,1,Playback(pbx-invalid)'', '' same => n,Goto(t,1)'', []])"

definition recorder_lines :: "ivr \<Rightarrow> string list" where
  "recorder_lines v =
     (if iv_recorder v \<noteq> [] \<and> valid_number (iv_recorder v)
      then [''exten => *99,1,GotoIf($['' @ quoted ''${CHANNEL(endpoint)}'' @ '' = '' @ quoted (iv_recorder v) @ '']?ok)'',
        '' same => n,Playback(ss-noservice)'', '' same => n,Hangup()'', '' same => n(ok),Answer()'',
        '' same => n,Wait(1)'', '' same => n,Record('' @ greeting_base @ ''.wav,5,120,k)'', '' same => n,Wait(1)'',
        '' same => n,Playback('' @ greeting_base @ '')'', '' same => n,Hangup()'']
      else [])"

definition outside_lines :: "trunk \<Rightarrow> string list" where
  "outside_lines t =
     [''exten => _9X.,1,NoOp(outside call)'']
     @ (if tk_international t then []
        else ['' same => n,GotoIf($['' @ quoted ''${EXTEN:1:2}'' @ '' = '' @ quoted ''00'' @ '']?blocked)'',
          '' same => n,GotoIf($['' @ quoted ''${EXTEN:1:3}'' @ '' = '' @ quoted ''011'' @ '']?blocked)''])
     @ (if tk_caller t = [] then [] else ['' same => n,Set(CALLERID(num)='' @ tk_caller t @ '')''])
     @ ['' same => n,Dial(PJSIP/${EXTEN:1}@trunk,60)'', '' same => n,Hangup()'',
        '' same => n(blocked),Playback(ss-noservice)'', '' same => n,Hangup()'']"

definition office_lines :: "pbx_ext list \<Rightarrow> string list" where
  "office_lines exts = ''[itp-internal]'' # concat (map (\<lambda>e. let n = px_number e in
     [''exten => '' @ n @ '',1,Dial(PJSIP/'' @ n @ '',25)'', '' same => n,VoiceMail('' @ n @ ''@default,u)'',
      '' same => n,Hangup()'']) exts)"

definition service_lines :: "string list" where
  "service_lines =
     [''exten => 0,1,Goto(itp-ring,s,1)'', ''exten => *97,1,VoiceMailMain(${CHANNEL(endpoint)}@default,s)'',
      '' same => n,Hangup()'', ''exten => *98,1,VoiceMailMain(0@default,s)'', '' same => n,Hangup()'',
      ''exten => *43,1,Answer()'', '' same => n,Playback(demo-echotest)'', '' same => n,Echo()'', '' same => n,Hangup()'']"

definition main_lines :: "pbx_ext list \<Rightarrow> bool \<Rightarrow> string list" where
  "main_lines exts has_menu =
     (let members = map px_number (filter px_main exts) in
      [''[itp-main]'', ''exten => s,1,NoOp(main number)'',
       (if has_menu then '' same => n,Goto(itp-ivr,s,1)'' else '' same => n,Goto(itp-ring,s,1)''), [],
       ''[itp-ring]'', ''exten => s,1,NoOp(ring the main group)'']
      @ (if members = [] then [] else ['' same => n,Dial('' @ dial_list members @ '',30)''])
      @ ['' same => n,VoiceMail(0@default,u)'', '' same => n,Hangup()'', []])"

definition dialplan_lines :: "pbx_ext list \<Rightarrow> trunk \<Rightarrow> bool \<Rightarrow> ivr \<Rightarrow> string list" where
  "dialplan_lines exts t on v =
     (let menu = menu_lines exts v in
      pbx_header @ office_lines exts @ service_lines
      @ (if menu \<noteq> [] then [''exten => *50,1,Goto(itp-ivr,s,1)''] else [])
      @ recorder_lines v @ (if on then outside_lines t else []) @ [[]]
      @ main_lines exts (menu \<noteq> []) @ menu
      @ [''[itp-incoming]'', ''exten => s,1,Goto(itp-main,s,1)'', ''exten => _[+0-9].,1,Goto(itp-main,s,1)''])"

definition trunk_on :: "trunk \<Rightarrow> bool" where
  "trunk_on t \<longleftrightarrow> tk_enabled t \<and> tk_host t \<noteq> [] \<and> tk_user t \<noteq> []"

definition render :: "pbx_ext list \<Rightarrow> trunk \<Rightarrow> ivr \<Rightarrow> (string \<times> string) list" where
  "render exts t v =
     [(''pjsip.conf'', text_lines (pjsip_lines exts t (trunk_on t))),
      (''extensions.conf'', text_lines (dialplan_lines exts t (trunk_on t) v)),
      (''voicemail.conf'', text_lines (voicemail_lines exts))]"

section \<open>Writing\<close>

text \<open>\<open>Write\<close>: the files in the order the map is walked; a file whose writing fails is left empty.\<close>

fun write_conf :: "(string \<Rightarrow> bool) \<Rightarrow> (string \<times> string) list \<Rightarrow> (string \<times> string) list
    \<Rightarrow> (string + unit) \<times> (string \<times> string) list" where
  "write_conf f [] dir = (Inr (), dir)"
| "write_conf f ((name, content) # files) dir =
     (let tmp = ''.'' @ name @ ''.tmp'' in
      if f (''write '' @ name) then (Inl ''write'', AList.update tmp [] dir)
      else let dir1 = AList.update tmp content dir in
        if f (''rename '' @ name) then (Inl ''rename'', dir1)
        else write_conf f files (AList.update name content (AList.delete tmp dir1)))"

end
