(* ===== verification/Phone.thy ===== *)
theory Phone
  imports Pbx Sessions GoTime
begin

text \<open>
  The phone module's API (\<open>modules/voip/service/internal/api\<close>): extensions, the outside line, the phone menu,
  the employee portal.  The state is the database, the directory Asterisk reads its configuration from, the
  greeting file (its size and time) and the system log.  Asterisk's answers over its manager interface, the
  audio conversion and the random source are in the environment.
\<close>

section \<open>State\<close>

record ext_row =
  er_number :: string
  er_name :: string
  er_user :: "string option"
  er_password :: string
  er_main :: bool

record voip_db =
  vd_exts :: "ext_row list"
  vd_trunk :: trunk
  vd_menu_on :: bool
  vd_recorder :: string
  vd_keys :: "(string \<times> string \<times> string) list"

record voip_srv =
  vs_db :: voip_db
  vs_conf :: "(string \<times> string) list"
  vs_greeting :: "(nat \<times> nat) option"
  vs_admin :: admin_db
  vs_emp :: emp_db
  vs_log :: "string list"

record voip_env =
  vx_faults :: faults
  vx_now :: time
  vx_clock :: nat
  vx_letter :: "nat \<Rightarrow> bool"
  vx_random :: "string option"
  vx_walk :: "(string \<times> string) list \<Rightarrow> (string \<times> string) list"
  vx_states :: "(string \<times> string) list option"
  vx_registrations :: "(string \<times> string) list option"
  vx_address :: "string option"
  vx_reload :: "string + unit"
  vx_name_before :: "string \<Rightarrow> string \<Rightarrow> bool"
  vx_convert :: "string \<Rightarrow> string \<Rightarrow> string + nat"

definition by_text :: "string \<Rightarrow> string \<Rightarrow> bool" where
  "by_text a b \<longleftrightarrow> ord.lexordp (\<lambda>x y. byte x < byte y) a b"

section \<open>Who is asking\<close>

definition voip_admin :: "voip_env \<Rightarrow> voip_srv \<Rightarrow> string \<Rightarrow> string result" where
  "voip_admin env s tok =
     (case module_admin_session (vx_faults env) (vx_now env) (vs_admin s) tok of
        Inl _ \<Rightarrow> Inl not_authenticated
      | Inr e \<Rightarrow> Inr e)"

definition voip_employee :: "voip_env \<Rightarrow> voip_srv \<Rightarrow> string \<Rightarrow> string result" where
  "voip_employee env s tok =
     (case module_employee_session (vx_faults env) (vx_now env) (vs_emp s) tok of
        Inl _ \<Rightarrow> Inl not_authenticated
      | Inr u \<Rightarrow> Inr u)"

section \<open>Regenerating the configuration\<close>

definition ext_of_row :: "ext_row \<Rightarrow> pbx_ext" where
  "ext_of_row r = \<lparr>px_number = er_number r, px_name = er_name r, px_password = er_password r, px_main = er_main r\<rparr>"

definition load_exts :: "voip_db \<Rightarrow> pbx_ext list" where
  "load_exts db = map ext_of_row (order_by (\<lambda>a b. by_text (er_number a) (er_number b)) (vd_exts db))"

definition greeting_min :: nat where "greeting_min = 1000"

definition has_greeting :: "voip_srv \<Rightarrow> bool" where
  "has_greeting s \<longleftrightarrow> (case vs_greeting s of None \<Rightarrow> False | Some (bytes, _) \<Rightarrow> greeting_min \<le> bytes)"

definition option_of_key :: "string \<times> string \<times> string \<Rightarrow> ivr_option" where
  "option_of_key k = (case k of (d, label, targets) \<Rightarrow>
     \<lparr>io_digit = d, io_label = label, io_targets = filter (\<lambda>t. t \<noteq> []) (split_chr (CHR '','') targets)\<rparr>)"

definition load_keys :: "voip_db \<Rightarrow> ivr_option list" where
  "load_keys db = map option_of_key (order_by (\<lambda>a b. by_text (fst a) (fst b)) (vd_keys db))"

definition load_ivr :: "voip_srv \<Rightarrow> ivr" where
  "load_ivr s = \<lparr>iv_enabled = vd_menu_on (vs_db s), iv_greeting = has_greeting s, iv_recorder = vd_recorder (vs_db s),
     iv_options = load_keys (vs_db s)\<rparr>"

definition voip_log :: "string \<Rightarrow> voip_srv \<Rightarrow> voip_srv" where
  "voip_log line s = s\<lparr>vs_log := vs_log s @ [line]\<rparr>"

definition rendered :: "voip_srv \<Rightarrow> (string \<times> string) list" where
  "rendered s = render (load_exts (vs_db s)) (vd_trunk (vs_db s)) (load_ivr s)"

definition apply_conf :: "voip_env \<Rightarrow> voip_srv \<Rightarrow> unit result \<times> voip_srv" where
  "apply_conf env s =
     (let f = vx_faults env in
      if f ''apply: extensions'' \<or> f ''apply: settings'' \<or> f ''apply: menu'' \<or> f ''apply: keys''
      then (Inl (internal_error ''apply config''), s)
      else case write_conf f (vx_walk env (rendered s)) (vs_conf s) of
        (Inl e, dir) \<Rightarrow> (Inl (internal_error ''apply config''), s\<lparr>vs_conf := dir\<rparr>)
      | (Inr _, dir) \<Rightarrow> (Inr (),
          (case vx_reload env of Inl e \<Rightarrow> voip_log ''config saved but Asterisk could not reload it'' | Inr _ \<Rightarrow> id)
            (s\<lparr>vs_conf := dir\<rparr>)))"

text \<open>What every change has in common: the administrator, the change of the database, regenerating.\<close>

definition change ::
  "voip_env \<Rightarrow> voip_srv \<Rightarrow> string \<Rightarrow> (voip_db \<Rightarrow> http_error + ('a \<times> voip_db)) \<Rightarrow> 'a result \<times> voip_srv" where
  "change env s tok step =
     (case voip_admin env s tok of
        Inl e \<Rightarrow> (Inl e, s)
      | Inr _ \<Rightarrow>
          (case step (vs_db s) of
             Inl e \<Rightarrow> (Inl e, s)
           | Inr (out, db) \<Rightarrow>
               (case apply_conf env (s\<lparr>vs_db := db\<rparr>) of
                  (Inl e, s1) \<Rightarrow> (Inl e, s1)
                | (Inr _, s1) \<Rightarrow> (Inr out, s1))))"

section \<open>Extensions\<close>

definition valid_username :: "string \<Rightarrow> bool" where
  "valid_username u \<longleftrightarrow> list_all (\<lambda>c. alpha_num c \<or> one_of ''._-'' c) u \<and> 1 \<le> length u \<and> length u \<le> 64"

definition check_fields :: "voip_env \<Rightarrow> string \<Rightarrow> string \<Rightarrow> unit result" where
  "check_fields env name user =
     (if \<not> valid_name (vx_letter env) name then Inl (HTTP 400 ''name must be 1-40 letters, numbers, spaces or . ' ( ) & _ -'')
      else if user \<noteq> [] \<and> \<not> valid_username user then Inl (HTTP 400 ''invalid username'')
      else Inr ())"

definition nullable :: "string \<Rightarrow> string option" where
  "nullable s = (if s = [] then None else Some s)"

definition user_taken :: "ext_row list \<Rightarrow> string option \<Rightarrow> bool" where
  "user_taken rows u \<longleftrightarrow> u \<noteq> None \<and> u \<in> er_user ` set rows"

definition new_password :: "voip_env \<Rightarrow> string option" where
  "new_password env = map_option hex_encode (vx_random env)"

definition insert_ext :: "voip_env \<Rightarrow> string \<Rightarrow> string \<Rightarrow> string \<Rightarrow> voip_db \<Rightarrow> http_error + (ext_row \<times> voip_db)" where
  "insert_ext env number name user db =
     (if \<not> valid_number number then Inl (HTTP 400 ''number must be 2-5 digits and can't start with 0 or 9'')
      else case check_fields env name user of
        Inl e \<Rightarrow> Inl e
      | Inr _ \<Rightarrow>
          (case new_password env of
             None \<Rightarrow> Inl (internal_error ''generate password'')
           | Some pw \<Rightarrow>
               (let row = \<lparr>er_number = number, er_name = name, er_user = nullable user, er_password = pw, er_main = False\<rparr> in
                if vx_faults env ''create extension'' then Inl (internal_error ''create extension'')
                else if number \<in> er_number ` set (vd_exts db) then Inl (HTTP 409 ''that number is already taken'')
                else if user_taken (vd_exts db) (nullable user) then Inl (HTTP 409 ''that person already has an extension'')
                else Inr (row, db\<lparr>vd_exts := vd_exts db @ [row]\<rparr>))))"

definition create_ext :: "voip_env \<Rightarrow> voip_srv \<Rightarrow> string \<Rightarrow> string \<Rightarrow> string \<Rightarrow> string \<Rightarrow> ext_row result \<times> voip_srv" where
  "create_ext env s tok number name user = change env s tok (insert_ext env number name user)"

definition change_row :: "string \<Rightarrow> (ext_row \<Rightarrow> ext_row) \<Rightarrow> voip_db \<Rightarrow> http_error + (unit \<times> voip_db)" where
  "change_row number g db =
     (if number \<notin> er_number ` set (vd_exts db) then Inl (HTTP 404 ''no such extension'')
      else Inr ((), db\<lparr>vd_exts := map (\<lambda>r. if er_number r = number then g r else r) (vd_exts db)\<rparr>))"

definition update_ext ::
  "voip_env \<Rightarrow> voip_srv \<Rightarrow> string \<Rightarrow> string \<Rightarrow> string \<Rightarrow> string \<Rightarrow> bool \<Rightarrow> unit result \<times> voip_srv" where
  "update_ext env s tok number name user main = change env s tok (\<lambda>db.
     case check_fields env name user of
       Inl e \<Rightarrow> Inl e
     | Inr _ \<Rightarrow>
         if vx_faults env ''update extension'' then Inl (internal_error ''update extension'')
         else if number \<in> er_number ` set (vd_exts db)
           \<and> user_taken (filter (\<lambda>r. er_number r \<noteq> number) (vd_exts db)) (nullable user)
         then Inl (HTTP 409 ''that person already has an extension'')
         else change_row number (\<lambda>r. r\<lparr>er_name := name, er_user := nullable user, er_main := main\<rparr>) db)"

definition reset_ext_password :: "voip_env \<Rightarrow> voip_srv \<Rightarrow> string \<Rightarrow> string \<Rightarrow> unit result \<times> voip_srv" where
  "reset_ext_password env s tok number = change env s tok (\<lambda>db.
     case new_password env of
       None \<Rightarrow> Inl (internal_error ''generate password'')
     | Some pw \<Rightarrow>
         if vx_faults env ''reset password'' then Inl (internal_error ''reset password'')
         else change_row number (\<lambda>r. r\<lparr>er_password := pw\<rparr>) db)"

definition delete_ext :: "voip_env \<Rightarrow> voip_srv \<Rightarrow> string \<Rightarrow> string \<Rightarrow> unit result \<times> voip_srv" where
  "delete_ext env s tok number = change env s tok (\<lambda>db.
     if vx_faults env ''delete extension'' then Inl (internal_error ''delete extension'')
     else if number \<notin> er_number ` set (vd_exts db) then Inl (HTTP 404 ''no such extension'')
     else Inr ((), db\<lparr>vd_exts := filter (\<lambda>r. er_number r \<noteq> number) (vd_exts db)\<rparr>))"

text \<open>The list with the live state of each phone.\<close>

definition phone_state :: "string \<Rightarrow> string" where
  "phone_state st =
     (if st = ''Not in use'' then ''online''
      else if st \<in> set [''In use'', ''Busy'', ''Ringing'', ''Ring+Inuse'', ''On Hold''] then ''in_call'' else ''offline'')"

definition device_states :: "voip_env \<Rightarrow> (string \<times> string) list option" where
  "device_states env = map_option (\<lambda>items. fold (\<lambda>(n, st). AList.update n (phone_state st)) items []) (vx_states env)"

definition list_exts :: "voip_env \<Rightarrow> voip_srv \<Rightarrow> string \<Rightarrow> (bool \<times> string \<times> (ext_row \<times> string) list) result" where
  "list_exts env s tok =
     (case voip_admin env s tok of
        Inl e \<Rightarrow> Inl e
      | Inr _ \<Rightarrow>
          if vx_faults env ''list extensions'' then Inl (internal_error ''list extensions'')
          else (let rows = order_by (\<lambda>a b. by_text (er_number a) (er_number b)) (vd_exts (vs_db s)) in
            case device_states env of
              None \<Rightarrow> Inr (False, [], map (\<lambda>r. (r, ''unknown'')) rows)
            | Some states \<Rightarrow> Inr (True, (case vx_address env of None \<Rightarrow> [] | Some a \<Rightarrow> a),
                map (\<lambda>r. (r, case map_of states (er_number r) of None \<Rightarrow> ''offline'' | Some st \<Rightarrow> st)) rows)))"

section \<open>The outside line\<close>

definition trunk_status :: "voip_env \<Rightarrow> trunk \<Rightarrow> string" where
  "trunk_status env t =
     (if \<not> tk_enabled t then ''off''
      else case vx_registrations env of
        None \<Rightarrow> ''not_connected''
      | Some items \<Rightarrow> if list_ex (\<lambda>(n, st). n = ''trunk-reg'' \<and> st = ''Registered'') items then ''connected'' else ''not_connected'')"

text \<open>What the administrator sees: everything but the password, of which only whether there is one.\<close>

definition get_settings :: "voip_env \<Rightarrow> voip_srv \<Rightarrow> string \<Rightarrow> (trunk \<times> bool \<times> string) result" where
  "get_settings env s tok =
     (case voip_admin env s tok of
        Inl e \<Rightarrow> Inl e
      | Inr _ \<Rightarrow>
          if vx_faults env ''load settings'' then Inl (internal_error ''load settings'')
          else (let t = vd_trunk (vs_db s) in
            Inr (t\<lparr>tk_password := []\<rparr>, tk_password t \<noteq> [], trunk_status env t)))"

definition check_trunk :: "trunk \<Rightarrow> string \<Rightarrow> unit result" where
  "check_trunk b password =
     (if tk_host b \<noteq> [] \<and> \<not> valid_host (tk_host b) then Inl (HTTP 400 ''server must be a hostname or IP, optionally with :port'')
      else if tk_user b \<noteq> [] \<and> \<not> valid_user (tk_user b) then Inl (HTTP 400 ''username can only contain letters, numbers and . _ + -'')
      else if tk_password b \<noteq> [] \<and> \<not> valid_password (tk_password b) then Inl (HTTP 400 (''password can't contain spaces or '' @ [CHR 0x27, CHR '';'', CHR 0x27]))
      else if \<not> valid_caller (tk_caller b) then Inl (HTTP 400 ''caller ID must be a phone number (digits, optional leading +)'')
      else if tk_enabled b \<and> (tk_host b = [] \<or> tk_user b = [] \<or> password = [])
      then Inl (HTTP 400 ''server, username and password are all needed to turn the outside line on'')
      else Inr ())"

definition save_settings :: "voip_env \<Rightarrow> voip_srv \<Rightarrow> string \<Rightarrow> trunk \<Rightarrow> unit result \<times> voip_srv" where
  "save_settings env s tok b = change env s tok (\<lambda>db.
     if vx_faults env ''load settings'' then Inl (internal_error ''load settings'')
     else (let password = (if tk_password b \<noteq> [] then tk_password b else tk_password (vd_trunk db)) in
       case check_trunk b password of
         Inl e \<Rightarrow> Inl e
       | Inr _ \<Rightarrow>
           if vx_faults env ''save settings'' then Inl (internal_error ''save settings'')
           else Inr ((), db\<lparr>vd_trunk := b\<lparr>tk_password := password\<rparr>\<rparr>)))"

section \<open>The phone menu\<close>

record menu_body =
  mb_on :: bool
  mb_recorder :: string
  mb_options :: "ivr_option list"

definition max_targets :: nat where "max_targets = 10"
definition max_keys :: nat where "max_keys = 9"

text \<open>The keys in the order sent, their labels trimmed; the first fault found answers.\<close>

fun check_keys :: "(nat \<Rightarrow> bool) \<Rightarrow> string set \<Rightarrow> string list \<Rightarrow> ivr_option list \<Rightarrow> ivr_option list result" where
  "check_keys letter known seen [] = Inr []"
| "check_keys letter known seen (k # ks) =
     (let label = trim_space (io_label k); d = io_digit k in
      if \<not> valid_digit d then Inl (HTTP 400 ''each key must be a digit from 1 to 9 (0 always reaches the main group)'')
      else if d \<in> set seen then Inl (HTTP 400 (''key '' @ d @ '' is used twice''))
      else if \<not> valid_name letter label then Inl (HTTP 400 (''each key needs a short name (letters, numbers, spaces '' @ em_dash @ '' up to 40)''))
      else if io_targets k = [] \<or> max_targets < length (io_targets k)
      then Inl (HTTP 400 (''key '' @ d @ '' needs between 1 and 10 extensions to ring''))
      else case find (\<lambda>t. t \<notin> known) (io_targets k) of
        Some t \<Rightarrow> Inl (HTTP 400 (''key '' @ d @ '' points at extension '' @ t @ '', which doesn't exist''))
      | None \<Rightarrow>
          (case check_keys letter known (d # seen) ks of
             Inl e \<Rightarrow> Inl e
           | Inr rest \<Rightarrow> Inr (k\<lparr>io_label := label\<rparr> # rest)))"

definition key_row :: "ivr_option \<Rightarrow> string \<times> string \<times> string" where
  "key_row k = (io_digit k, io_label k, join '','' (io_targets k))"

definition check_menu :: "voip_env \<Rightarrow> voip_srv \<Rightarrow> voip_db \<Rightarrow> menu_body \<Rightarrow> ivr_option list result" where
  "check_menu env s db b =
     (let known = er_number ` set (vd_exts db) in
      if mb_recorder b \<noteq> [] \<and> mb_recorder b \<notin> known then Inl (HTTP 400 ''the extension chosen for recording doesn't exist'')
      else if max_keys < length (mb_options b) then Inl (HTTP 400 ''a menu can have at most 9 keys'')
      else case check_keys (vx_letter env) known [] (mb_options b) of
        Inl e \<Rightarrow> Inl e
      | Inr ks \<Rightarrow>
          if mb_on b \<and> \<not> has_greeting s then Inl (HTTP 400 ''record or upload the greeting before turning the menu on'')
          else if mb_on b \<and> mb_options b = [] then Inl (HTTP 400 ''add at least one key before turning the menu on'')
          else Inr ks)"

definition save_menu :: "voip_env \<Rightarrow> voip_srv \<Rightarrow> string \<Rightarrow> menu_body \<Rightarrow> unit result \<times> voip_srv" where
  "save_menu env s tok b = change env s tok (\<lambda>db.
     let f = vx_faults env in
     if f ''list extensions'' then Inl (internal_error ''list extensions'')
     else case check_menu env s db b of
       Inl e \<Rightarrow> Inl e
     | Inr ks \<Rightarrow>
         if f ''begin'' then Inl (internal_error ''begin'')
         else if f ''save menu'' then Inl (internal_error ''save menu'')
         else if f ''clear keys'' then Inl (internal_error ''clear keys'')
         else if f ''save key'' \<and> ks \<noteq> [] then Inl (internal_error ''save key'')
         else if f ''commit'' then Inl (internal_error ''commit'')
         else Inr ((), db\<lparr>vd_menu_on := mb_on b, vd_recorder := mb_recorder b,
           vd_keys := map key_row (order_by (\<lambda>x y. by_text (io_digit x) (io_digit y)) ks)\<rparr>))"

definition greeting_time :: "voip_srv \<Rightarrow> string" where
  "greeting_time s = (case vs_greeting s of None \<Rightarrow> [] | Some (_, at) \<Rightarrow> if has_greeting s then rfc3339 at else [])"

definition get_menu :: "voip_env \<Rightarrow> voip_srv \<Rightarrow> string \<Rightarrow> (ivr \<times> string) result" where
  "get_menu env s tok =
     (case voip_admin env s tok of
        Inl e \<Rightarrow> Inl e
      | Inr _ \<Rightarrow>
          if vx_faults env ''load menu'' then Inl (internal_error ''load menu'')
          else if vx_faults env ''load menu keys'' then Inl (internal_error ''load menu keys'')
          else Inr (load_ivr s, greeting_time s))"

section \<open>The greeting\<close>

definition byte_at :: "string \<Rightarrow> nat \<Rightarrow> nat" where
  "byte_at s i = (if i < length s then byte (s ! i) else 0)"

text \<open>\<open>audioDemuxer\<close>: the input format, from the first bytes of the file.\<close>

definition audio_demuxer :: "string \<Rightarrow> string option" where
  "audio_demuxer h =
     (if length h \<ge> 12 \<and> take 4 h = ''RIFF'' \<and> take 4 (drop 8 h) = ''WAVE'' then Some ''wav''
      else if length h \<ge> 3 \<and> take 3 h = ''ID3''
        \<or> length h \<ge> 2 \<and> byte_at h 0 = 0xFF \<and> 0xE0 \<le> byte_at h 1 then Some ''mp3''
      else if length h \<ge> 4 \<and> take 4 h = ''OggS'' then Some ''ogg''
      else if length h \<ge> 4 \<and> take 4 h = ''fLaC'' then Some ''flac''
      else if length h \<ge> 8 \<and> take 4 (drop 4 h) = ''ftyp'' then Some ''mov''
      else if length h \<ge> 4 \<and> byte_at h 0 = 0x1A \<and> byte_at h 1 = 0x45 \<and> byte_at h 2 = 0xDF \<and> byte_at h 3 = 0xA3
      then Some ''matroska''
      else None)"

definition convert_greeting :: "voip_env \<Rightarrow> string \<Rightarrow> voip_srv \<Rightarrow> (string + unit) \<times> voip_srv" where
  "convert_greeting env data s =
     (case audio_demuxer data of
        None \<Rightarrow> (Inl (''that doesn't look like an audio file '' @ em_dash @ '' use WAV, MP3, M4A, OGG, FLAC or WebM''), s)
      | Some format \<Rightarrow>
          if vx_faults env ''create sounds dir'' then (Inl ''create sounds dir'', s)
          else if vx_faults env ''create temp'' then (Inl ''create temp'', s)
          else if vx_faults env ''copy temp'' then (Inl ''copy temp'', s)
          else case vx_convert env format data of
            Inl e \<Rightarrow> (Inl (''couldn't read that audio file: '' @ trim_space e), s)
          | Inr bytes \<Rightarrow>
              if bytes < greeting_min then (Inl ''that recording is empty or too short'', s)
              else if vx_faults env ''chmod'' then (Inl ''chmod'', s)
              else if vx_faults env ''rename'' then (Inl ''rename'', s)
              else (Inr (), s\<lparr>vs_greeting := Some (bytes, vx_clock env)\<rparr>))"

definition max_greeting :: nat where "max_greeting = 20 * 1024 * 1024"

definition upload_greeting :: "voip_env \<Rightarrow> voip_srv \<Rightarrow> string \<Rightarrow> string \<Rightarrow> unit result \<times> voip_srv" where
  "upload_greeting env s tok data =
     (case voip_admin env s tok of
        Inl e \<Rightarrow> (Inl e, s)
      | Inr _ \<Rightarrow>
          if vx_faults env ''read upload'' then (Inl (HTTP 400 ''read upload''), s)
          else if max_greeting < length data then (Inl (HTTP 400 ''that file is too big (20 MB at most)''), s)
          else case convert_greeting env data s of
            (Inl e, s1) \<Rightarrow> (Inl (HTTP 400 e), s1)
          | (Inr _, s1) \<Rightarrow> apply_conf env s1)"

definition play_greeting :: "voip_env \<Rightarrow> voip_srv \<Rightarrow> string \<Rightarrow> (nat \<times> nat) result" where
  "play_greeting env s tok =
     (case voip_admin env s tok of
        Inl e \<Rightarrow> Inl e
      | Inr _ \<Rightarrow> (case vs_greeting s of None \<Rightarrow> Inl (HTTP 404 ''no greeting recorded yet'') | Some g \<Rightarrow> Inr g))"

section \<open>The employee portal\<close>

definition my_phone :: "voip_env \<Rightarrow> voip_srv \<Rightarrow> string \<Rightarrow> ((string \<times> string \<times> string) option \<times> string) result" where
  "my_phone env s tok =
     (case voip_employee env s tok of
        Inl e \<Rightarrow> Inl e
      | Inr user \<Rightarrow>
          if vx_faults env ''load extension'' then Inl (internal_error ''load extension'')
          else case find (\<lambda>r. er_user r = Some user) (vd_exts (vs_db s)) of
            None \<Rightarrow> Inr (None, [])
          | Some r \<Rightarrow> Inr (Some (er_number r, er_name r, er_password r),
              (case vx_address env of None \<Rightarrow> [] | Some a \<Rightarrow> a)))"

definition phone_directory :: "voip_env \<Rightarrow> voip_srv \<Rightarrow> string \<Rightarrow> (string \<times> string) list result" where
  "phone_directory env s tok =
     (case voip_employee env s tok of
        Inl e \<Rightarrow> Inl e
      | Inr _ \<Rightarrow>
          if vx_faults env ''list directory'' then Inl (internal_error ''list directory'')
          else Inr (map (\<lambda>r. (er_number r, er_name r))
            (order_by (\<lambda>a b. vx_name_before env (er_name a) (er_name b)) (vd_exts (vs_db s)))))"

end
