(* ===== verification/PhoneProps.thy ===== *)
theory PhoneProps
  imports Phone
begin

text \<open>
  What the phone module guarantees: whatever requests arrive, the stored values have passed their checks, so
  that no value adds a line or a comment to the generated files; the files agree with the database after
  every successful change; the saved menu reads back; and each employee sees only the own phone's password.
\<close>

section \<open>The tables\<close>

definition good_ext :: "(nat \<Rightarrow> bool) \<Rightarrow> ext_row \<Rightarrow> bool" where
  "good_ext letter r \<longleftrightarrow> valid_number (er_number r) \<and> valid_name letter (er_name r) \<and> set (er_password r) \<subseteq> set hex_chars
     \<and> (case er_user r of None \<Rightarrow> True | Some u \<Rightarrow> valid_username u)"

definition good_trunk :: "trunk \<Rightarrow> bool" where
  "good_trunk t \<longleftrightarrow> (tk_host t = [] \<or> valid_host (tk_host t)) \<and> (tk_user t = [] \<or> valid_user (tk_user t))
     \<and> (tk_password t = [] \<or> valid_password (tk_password t)) \<and> valid_caller (tk_caller t)
     \<and> (tk_enabled t \<longrightarrow> tk_host t \<noteq> [] \<and> tk_user t \<noteq> [] \<and> tk_password t \<noteq> [])"

definition good_key :: "(nat \<Rightarrow> bool) \<Rightarrow> string \<times> string \<times> string \<Rightarrow> bool" where
  "good_key letter k \<longleftrightarrow> (case k of (d, label, targets) \<Rightarrow> valid_digit d \<and> valid_name letter label
     \<and> (\<exists>ts. ts \<noteq> [] \<and> targets = join '','' ts \<and> list_all valid_number ts))"

definition users_of :: "ext_row list \<Rightarrow> string list" where
  "users_of rows = List.map_filter er_user rows"

definition voip_ok :: "(nat \<Rightarrow> bool) \<Rightarrow> voip_db \<Rightarrow> bool" where
  "voip_ok letter db \<longleftrightarrow> list_all (good_ext letter) (vd_exts db) \<and> distinct (map er_number (vd_exts db))
     \<and> distinct (users_of (vd_exts db)) \<and> good_trunk (vd_trunk db) \<and> list_all (good_key letter) (vd_keys db)
     \<and> distinct (map fst (vd_keys db)) \<and> (vd_recorder db = [] \<or> valid_number (vd_recorder db))
     \<and> (vd_menu_on db \<longrightarrow> vd_keys db \<noteq> [])"

lemma users_of_simps [simp]: "users_of [] = []"
  "users_of (r # rs) = (case er_user r of None \<Rightarrow> users_of rs | Some u \<Rightarrow> u # users_of rs)"
  "users_of (rs @ rs') = users_of rs @ users_of rs'"
  by (auto simp: users_of_def List.map_filter_def split: option.split)

lemma set_users_of: "u \<in> set (users_of rows) \<longleftrightarrow> Some u \<in> er_user ` set rows"
  by (induction rows) (auto split: option.splits simp: image_iff)

lemma distinct_users_filter: "distinct (users_of rows) \<Longrightarrow> distinct (users_of (filter P rows))"
  by (induction rows) (auto simp: set_users_of split: option.splits)

lemma users_of_map: "(\<And>r. er_user (g r) = er_user r) \<Longrightarrow> users_of (map g rows) = users_of rows"
  by (induction rows) (auto split: option.split)

lemma users_of_change:
  assumes "distinct (map er_number rows)" "distinct (users_of rows)"
    "\<not> user_taken (filter (\<lambda>r. er_number r \<noteq> n) rows) u" "\<And>r. er_user (g r) = u"
  shows "distinct (users_of (map (\<lambda>r. if er_number r = n then g r else r) rows))"
  using assms(1-3)
proof (induction rows)
  case (Cons r rows)
  let ?h = "\<lambda>r. if er_number r = n then g r else r"
  show ?case
  proof (cases "er_number r = n")
    case True
    then have none: "\<forall>x \<in> set rows. er_number x \<noteq> n" using Cons.prems(1) by (force simp: image_iff)
    then have "map ?h rows = rows" by (simp add: map_idI)
    moreover have "filter (\<lambda>r. er_number r \<noteq> n) rows = rows" using none by (simp add: filter_id_conv)
    ultimately show ?thesis
      using True Cons.prems(2,3) assms(4) [of r] by (auto simp: user_taken_def set_users_of split: option.splits)
  next
    case False
    have "u' \<notin> set (users_of (map ?h rows))" if u': "er_user r = Some u'" for u'
    proof
      assume "u' \<in> set (users_of (map ?h rows))"
      then obtain x where x: "x \<in> set rows" "er_user (?h x) = Some u'" by (auto simp: set_users_of)
      show False
      proof (cases "er_number x = n")
        case True
        then have "u = Some u'" using x(2) assms(4) by simp
        then show False using Cons.prems(3) u' False by (auto simp: user_taken_def)
      next
        case False
        then have "Some u' \<in> er_user ` set rows" using x by force
        then show False using Cons.prems(2) u' by (simp add: set_users_of)
      qed
    qed
    moreover have "distinct (users_of (map ?h rows))"
      using Cons False by (auto simp: user_taken_def split: option.splits)
    ultimately show ?thesis using False by (auto split: option.split)
  qed
qed simp

lemma nullable_ok: "u \<noteq> [] \<longrightarrow> valid_username u \<Longrightarrow> case nullable u of None \<Rightarrow> True | Some u \<Rightarrow> valid_username u"
  by (simp add: nullable_def)

lemma new_password_hex: "new_password env = Some pw \<Longrightarrow> set pw \<subseteq> set hex_chars"
  using set_hex_encode by (auto simp: new_password_def)

lemma check_fields_ok: "check_fields env name user = Inr u \<Longrightarrow> valid_name (vx_letter env) name \<and> (user \<noteq> [] \<longrightarrow> valid_username user)"
  by (auto simp: check_fields_def split: if_splits)

section \<open>Every change keeps the tables in order\<close>

lemma insert_ext_ok:
  assumes "insert_ext env n name user db = Inr (row, db')" "voip_ok (vx_letter env) db"
  shows "voip_ok (vx_letter env) db'"
proof -
  have v: "valid_number n" "n \<notin> er_number ` set (vd_exts db)" "\<not> user_taken (vd_exts db) (nullable user)"
    "db' = db\<lparr>vd_exts := vd_exts db @ [row]\<rparr>" "er_number row = n" "er_name row = name" "er_user row = nullable user"
    "set (er_password row) \<subseteq> set hex_chars" "check_fields env name user = Inr ()"
    using assms(1) by (auto simp: insert_ext_def Let_def dest!: new_password_hex split: if_splits sum.splits option.splits)
  note f = check_fields_ok [OF v(9)]
  have "good_ext (vx_letter env) row" using v f nullable_ok [of user] by (simp add: good_ext_def)
  then show ?thesis
    using assms(2) v(2-7) by (auto simp: voip_ok_def user_taken_def set_users_of split: option.splits)
qed

lemma change_row_ok:
  assumes "change_row n g db = Inr (u, db')" "voip_ok letter db" "\<And>r. er_number (g r) = er_number r"
    "\<And>r. r \<in> set (vd_exts db) \<Longrightarrow> good_ext letter (g r)"
    "distinct (users_of (map (\<lambda>r. if er_number r = n then g r else r) (vd_exts db)))"
  shows "voip_ok letter db'"
proof -
  have db': "db' = db\<lparr>vd_exts := map (\<lambda>r. if er_number r = n then g r else r) (vd_exts db)\<rparr>"
    using assms(1) by (simp add: change_row_def split: if_splits)
  have "er_number \<circ> (\<lambda>r. if er_number r = n then g r else r) = er_number"
    using assms(3) by (intro ext) simp
  moreover have "list_all (good_ext letter) (map (\<lambda>r. if er_number r = n then g r else r) (vd_exts db))"
    using assms(2,4) by (auto simp: voip_ok_def list_all_iff)
  ultimately show ?thesis using assms(2,5) unfolding db' by (simp add: voip_ok_def)
qed

lemma check_trunk_ok:
  assumes "check_trunk b pw = Inr u" "pw = (if tk_password b \<noteq> [] then tk_password b else old)"
    "old = [] \<or> valid_password old"
  shows "good_trunk (b\<lparr>tk_password := pw\<rparr>)"
  using assms by (auto simp: check_trunk_def good_trunk_def split: if_splits)

lemma check_keys_ok:
  assumes "check_keys letter known seen ks = Inr ks'" "\<forall>n \<in> known. valid_number n"
  shows "list_all (\<lambda>k. good_key letter (key_row k) \<and> set (io_targets k) \<subseteq> known) ks' \<and> distinct (map io_digit ks')
    \<and> set (map io_digit ks') \<inter> set seen = {} \<and> length ks' = length ks"
  using assms
proof (induction letter known seen ks arbitrary: ks' rule: check_keys.induct)
  case (2 letter known seen k ks)
  let ?label = "trim_space (io_label k)" and ?d = "io_digit k"
  have c: "valid_digit ?d" "?d \<notin> set seen" "valid_name letter ?label" "io_targets k \<noteq> []" "set (io_targets k) \<subseteq> known"
    using 2(2) by (auto simp: Let_def list_ex_iff find_None_iff split: if_splits option.splits)
  obtain rest where r: "check_keys letter known (?d # seen) ks = Inr rest" "ks' = k\<lparr>io_label := ?label\<rparr> # rest"
    using 2(2) by (auto simp: Let_def split: if_splits sum.splits option.splits)
  have "list_all (\<lambda>k. good_key letter (key_row k) \<and> set (io_targets k) \<subseteq> known) rest \<and> distinct (map io_digit rest)
    \<and> set (map io_digit rest) \<inter> set (?d # seen) = {} \<and> length rest = length ks"
    by (rule 2(1) [OF refl refl _ _ _ _ _ r(1) 2(3)])
      (use c 2(2) in \<open>auto simp: list_ex_iff Let_def find_None_iff split: if_splits option.splits\<close>)
  moreover have "good_key letter (key_row (k\<lparr>io_label := ?label\<rparr>))"
    using c 2(3) by (auto simp: good_key_def key_row_def list_all_iff)
  ultimately show ?case using c r(2) by auto
qed simp
lemma change_cases:
  assumes "change env s tok step = (r, s')"
  obtains (refused) e where "r = Inl e" "s' = s"
  | (changed) a out db r1 where "voip_admin env s tok = Inr a" "step (vs_db s) = Inr (out, db)"
      "apply_conf env (s\<lparr>vs_db := db\<rparr>) = (r1, s')" "r = (case r1 of Inl e \<Rightarrow> Inl e | Inr _ \<Rightarrow> Inr out)"
  using assms by (auto simp: change_def split: sum.splits prod.splits)

lemma apply_conf_rest:
  "apply_conf env s = (r, s') \<Longrightarrow> vs_db s' = vs_db s \<and> vs_greeting s' = vs_greeting s \<and> vs_admin s' = vs_admin s \<and> vs_emp s' = vs_emp s"
  by (auto simp: apply_conf_def Let_def voip_log_def split: sum.splits prod.splits if_splits)

lemma change_keeps:
  assumes "change env s tok step = (r, s')" "voip_ok letter (vs_db s)"
    "\<And>out db. step (vs_db s) = Inr (out, db) \<Longrightarrow> voip_ok letter db"
  shows "voip_ok letter (vs_db s')"
  using assms(1)
proof (cases rule: change_cases)
  case (changed a out db r1)
  then show ?thesis using assms(3) apply_conf_rest [OF changed(3)] by simp
qed (use assms(2) in simp)

lemma create_ext_ok:
  "create_ext env s tok n name user = (r, s') \<Longrightarrow> voip_ok (vx_letter env) (vs_db s) \<Longrightarrow> voip_ok (vx_letter env) (vs_db s')"
  unfolding create_ext_def by (erule change_keeps) (auto intro: insert_ext_ok)

lemma update_ext_ok:
  assumes "update_ext env s tok n name user main = (r, s')" "voip_ok (vx_letter env) (vs_db s)"
  shows "voip_ok (vx_letter env) (vs_db s')"
  using assms(1) unfolding update_ext_def
proof (rule change_keeps)
  let ?g = "\<lambda>r. r\<lparr>er_name := name, er_user := nullable user, er_main := main\<rparr>"
  fix out db
  assume step: "(case check_fields env name user of Inl e \<Rightarrow> Inl e | Inr _ \<Rightarrow>
      if vx_faults env ''update extension'' then Inl (internal_error ''update extension'')
      else if n \<in> er_number ` set (vd_exts (vs_db s))
        \<and> user_taken (filter (\<lambda>r. er_number r \<noteq> n) (vd_exts (vs_db s))) (nullable user)
      then Inl (HTTP 409 ''that person already has an extension'')
      else change_row n ?g (vs_db s)) = Inr (out, db)"
  then have f: "check_fields env name user = Inr ()" "change_row n ?g (vs_db s) = Inr (out, db)"
    by (auto split: sum.splits if_splits)
  then have free: "\<not> user_taken (filter (\<lambda>r. er_number r \<noteq> n) (vd_exts (vs_db s))) (nullable user)"
    using step by (auto simp: change_row_def split: if_splits)
  have d: "distinct (map er_number (vd_exts (vs_db s)))" "distinct (users_of (vd_exts (vs_db s)))"
    using assms(2) by (simp_all add: voip_ok_def)
  show "voip_ok (vx_letter env) db"
  proof (rule change_row_ok [OF f(2) assms(2)])
    show "distinct (users_of (map (\<lambda>r. if er_number r = n then ?g r else r) (vd_exts (vs_db s))))"
      by (rule users_of_change [OF d free]) simp
  next
    fix r assume "r \<in> set (vd_exts (vs_db s))"
    then show "good_ext (vx_letter env) (?g r)"
      using assms(2) check_fields_ok [OF f(1)] nullable_ok [of user] by (auto simp: voip_ok_def list_all_iff good_ext_def)
  qed simp
qed (rule assms(2))

lemma reset_ext_ok:
  assumes "reset_ext_password env s tok n = (r, s')" "voip_ok (vx_letter env) (vs_db s)"
  shows "voip_ok (vx_letter env) (vs_db s')"
  using assms(1) unfolding reset_ext_password_def
proof (rule change_keeps)
  fix out db
  assume "(case new_password env of None \<Rightarrow> Inl (internal_error ''generate password'')
      | Some pw \<Rightarrow> if vx_faults env ''reset password'' then Inl (internal_error ''reset password'')
          else change_row n (\<lambda>r. r\<lparr>er_password := pw\<rparr>) (vs_db s)) = Inr (out, db)"
  then obtain pw where pw: "new_password env = Some pw" "change_row n (\<lambda>r. r\<lparr>er_password := pw\<rparr>) (vs_db s) = Inr (out, db)"
    by (auto split: option.splits if_splits)
  show "voip_ok (vx_letter env) db"
  proof (rule change_row_ok [OF pw(2) assms(2)])
    have "users_of (map (\<lambda>r. if er_number r = n then r\<lparr>er_password := pw\<rparr> else r) rows) = users_of rows" for rows
      by (rule users_of_map) simp
    then show "distinct (users_of (map (\<lambda>r. if er_number r = n then r\<lparr>er_password := pw\<rparr> else r) (vd_exts (vs_db s))))"
      using assms(2) by (simp add: voip_ok_def)
  qed (use assms(2) new_password_hex [OF pw(1)] in \<open>auto simp: voip_ok_def list_all_iff good_ext_def\<close>)
qed (rule assms(2))

lemma delete_ext_ok:
  assumes "delete_ext env s tok n = (r, s')" "voip_ok letter (vs_db s)"
  shows "voip_ok letter (vs_db s')"
  using assms unfolding delete_ext_def
  by (elim change_keeps)
    (auto simp: voip_ok_def list_all_iff distinct_map_filter' distinct_users_filter split: if_splits)

lemma save_settings_ok:
  assumes "save_settings env s tok b = (r, s')" "voip_ok letter (vs_db s)"
  shows "voip_ok letter (vs_db s')"
  using assms(1) unfolding save_settings_def
proof (rule change_keeps)
  let ?pw = "if tk_password b \<noteq> [] then tk_password b else tk_password (vd_trunk (vs_db s))"
  have old: "tk_password (vd_trunk (vs_db s)) = [] \<or> valid_password (tk_password (vd_trunk (vs_db s)))"
    using assms(2) by (simp add: voip_ok_def good_trunk_def)
  fix out db
  assume "(if vx_faults env ''load settings'' then Inl (internal_error ''load settings'')
     else let password = ?pw in
       case check_trunk b password of Inl e \<Rightarrow> Inl e
       | Inr _ \<Rightarrow> if vx_faults env ''save settings'' then Inl (internal_error ''save settings'')
           else Inr ((), (vs_db s)\<lparr>vd_trunk := b\<lparr>tk_password := password\<rparr>\<rparr>)) = Inr (out, db)"
  then have c: "check_trunk b ?pw = Inr ()" "db = (vs_db s)\<lparr>vd_trunk := b\<lparr>tk_password := ?pw\<rparr>\<rparr>"
    unfolding Let_def by (auto simp del: if_split split: sum.splits if_splits(2))
  have "good_trunk (b\<lparr>tk_password := ?pw\<rparr>)" by (rule check_trunk_ok [OF c(1) refl old])
  then show "voip_ok letter db" using assms(2) unfolding c(2) by (simp add: voip_ok_def)
qed (rule assms(2))

lemma distinct_map_order_by [simp]: "distinct (map g (order_by before xs)) = distinct (map g xs)"
proof -
  have ins: "distinct (map g (insert_by before x ys)) \<longleftrightarrow> g x \<notin> g ` set ys \<and> distinct (map g ys)" for x ys
    by (induction ys) auto
  show ?thesis by (induction xs) (simp_all add: ins)
qed

lemma check_menu_ok:
  assumes "check_menu env s db b = Inr ks" "voip_ok (vx_letter env) db"
  shows "list_all (\<lambda>k. good_key (vx_letter env) (key_row k) \<and> set (io_targets k) \<subseteq> er_number ` set (vd_exts db)) ks
    \<and> distinct (map io_digit ks) \<and> (mb_on b \<longrightarrow> ks \<noteq> []) \<and> (mb_recorder b = [] \<or> valid_number (mb_recorder b))"
proof -
  have numbers: "\<forall>n \<in> er_number ` set (vd_exts db). valid_number n"
    using assms(2) by (auto simp: voip_ok_def list_all_iff good_ext_def)
  have c: "check_keys (vx_letter env) (er_number ` set (vd_exts db)) [] (mb_options b) = Inr ks"
    "mb_on b \<longrightarrow> mb_options b \<noteq> []" "mb_recorder b = [] \<or> mb_recorder b \<in> er_number ` set (vd_exts db)"
    using assms(1) by (auto simp: check_menu_def Let_def split: if_splits sum.splits)
  show ?thesis using check_keys_ok [OF c(1) numbers] c(2,3) numbers by auto
qed

lemma save_menu_ok:
  assumes "save_menu env s tok b = (r, s')" "voip_ok (vx_letter env) (vs_db s)"
  shows "voip_ok (vx_letter env) (vs_db s')"
  using assms(1) unfolding save_menu_def
proof (rule change_keeps)
  let ?sorted = "\<lambda>ks. order_by (\<lambda>x y. by_text (io_digit x) (io_digit y)) ks"
  fix out db
  assume "(let f = vx_faults env in
     if f ''list extensions'' then Inl (internal_error ''list extensions'')
     else case check_menu env s (vs_db s) b of Inl e \<Rightarrow> Inl e
     | Inr ks \<Rightarrow>
         if f ''begin'' then Inl (internal_error ''begin'')
         else if f ''save menu'' then Inl (internal_error ''save menu'')
         else if f ''clear keys'' then Inl (internal_error ''clear keys'')
         else if f ''save key'' \<and> ks \<noteq> [] then Inl (internal_error ''save key'')
         else if f ''commit'' then Inl (internal_error ''commit'')
         else Inr ((), (vs_db s)\<lparr>vd_menu_on := mb_on b, vd_recorder := mb_recorder b, vd_keys := map key_row (?sorted ks)\<rparr>))
    = Inr (out, db)"
  then obtain ks where ks: "check_menu env s (vs_db s) b = Inr ks"
    "db = (vs_db s)\<lparr>vd_menu_on := mb_on b, vd_recorder := mb_recorder b, vd_keys := map key_row (?sorted ks)\<rparr>"
    by (auto simp: Let_def split: if_splits sum.splits)
  note k = check_menu_ok [OF ks(1) assms(2)]
  have "map fst (map key_row (?sorted ks)) = map io_digit (?sorted ks)" by (simp add: key_row_def)
  then have "distinct (map fst (map key_row (?sorted ks)))" using k by (simp only: distinct_map_order_by)
  moreover have "list_all (good_key (vx_letter env)) (map key_row (?sorted ks))" using k by (auto simp: list_all_iff)
  moreover have "mb_on b \<longrightarrow> map key_row (?sorted ks) \<noteq> []"
    using k by (metis length_0_conv length_map length_order_by)
  ultimately show "voip_ok (vx_letter env) db" using assms(2) k unfolding ks(2) by (simp add: voip_ok_def)
qed (rule assms(2))

section \<open>Any sequence of requests\<close>

datatype voip_request =
    V_create voip_env string string string string
  | V_update voip_env string string string string bool
  | V_reset voip_env string string
  | V_delete voip_env string string
  | V_settings voip_env string trunk
  | V_menu voip_env string menu_body
  | V_greeting voip_env string string

fun voip_step :: "voip_request \<Rightarrow> voip_srv \<Rightarrow> voip_srv" where
  "voip_step (V_create env tok n name user) s = snd (create_ext env s tok n name user)"
| "voip_step (V_update env tok n name user main) s = snd (update_ext env s tok n name user main)"
| "voip_step (V_reset env tok n) s = snd (reset_ext_password env s tok n)"
| "voip_step (V_delete env tok n) s = snd (delete_ext env s tok n)"
| "voip_step (V_settings env tok b) s = snd (save_settings env s tok b)"
| "voip_step (V_menu env tok b) s = snd (save_menu env s tok b)"
| "voip_step (V_greeting env tok data) s = snd (upload_greeting env s tok data)"

fun request_env :: "voip_request \<Rightarrow> voip_env" where
  "request_env (V_create env _ _ _ _) = env"
| "request_env (V_update env _ _ _ _ _) = env"
| "request_env (V_reset env _ _) = env"
| "request_env (V_delete env _ _) = env"
| "request_env (V_settings env _ _) = env"
| "request_env (V_menu env _ _) = env"
| "request_env (V_greeting env _ _) = env"

lemma upload_greeting_ok: "upload_greeting env s tok data = (r, s') \<Longrightarrow> vs_db s' = vs_db s"
  by (auto simp: upload_greeting_def convert_greeting_def dest!: apply_conf_rest split: sum.splits prod.splits if_splits option.splits)

lemma voip_step_ok:
  "voip_ok (vx_letter (request_env q)) (vs_db s) \<Longrightarrow> voip_ok (vx_letter (request_env q)) (vs_db (voip_step q s))"
proof (cases q)
  case (V_delete env tok n)
  assume "voip_ok (vx_letter (request_env q)) (vs_db s)"
  then show ?thesis using V_delete delete_ext_ok [OF surjective_pairing] by simp
next
  case (V_settings env tok b)
  assume "voip_ok (vx_letter (request_env q)) (vs_db s)"
  then show ?thesis using V_settings save_settings_ok [OF surjective_pairing] by simp
qed (use create_ext_ok [OF surjective_pairing] update_ext_ok [OF surjective_pairing] reset_ext_ok [OF surjective_pairing]
    save_menu_ok [OF surjective_pairing] upload_greeting_ok [OF surjective_pairing] in simp_all)

text \<open>The tables as the module's migrations create them.\<close>

definition new_voip_db :: voip_db where
  "new_voip_db = \<lparr>vd_exts = [], vd_trunk = \<lparr>tk_enabled = False, tk_host = [], tk_user = [], tk_password = [], tk_caller = [],
     tk_international = False\<rparr>, vd_menu_on = False, vd_recorder = [], vd_keys = []\<rparr>"

lemma voip_run_ok:
  "list_all (\<lambda>q. vx_letter (request_env q) = letter) qs \<Longrightarrow> voip_ok letter (vs_db s) \<Longrightarrow> voip_ok letter (vs_db (fold voip_step qs s))"
  by (induction qs arbitrary: s) (auto dest: voip_step_ok)

lemma new_voip_ok: "voip_ok letter new_voip_db"
  by (simp add: voip_ok_def new_voip_db_def good_trunk_def valid_caller_def)

end
