(* ===== verification/PhoneFiles.thy ===== *)
theory PhoneFiles
  imports PhoneProps "HOL-Library.Multiset"
begin

text \<open>
  The generated files as Asterisk reads them: line by line, with \<open>;\<close> starting a comment.  A line is plain
  when it is one line and has a semicolon only at its start.
\<close>

section \<open>Plain values\<close>

definition plain_text :: "string \<Rightarrow> bool" where
  "plain_text s \<longleftrightarrow> newline \<notin> set s \<and> CHR '';'' \<notin> set s"

definition plain_line :: "string \<Rightarrow> bool" where
  "plain_line l \<longleftrightarrow> newline \<notin> set l \<and> (CHR '';'' \<in> set l \<longrightarrow> has_prefix l '';'')"

lemma plain_text_line: "plain_text l \<Longrightarrow> plain_line l"
  by (simp add: plain_text_def plain_line_def)

lemma plain_text_append [simp]: "plain_text (a @ b) \<longleftrightarrow> plain_text a \<and> plain_text b"
  "plain_text [] = True" "plain_text (c # s) \<longleftrightarrow> c \<noteq> newline \<and> c \<noteq> CHR '';'' \<and> plain_text s"
  by (auto simp: plain_text_def)

lemma plain_bytes: "(\<And>c. c \<in> set s \<Longrightarrow> byte c \<noteq> 10 \<and> byte c \<noteq> 59) \<Longrightarrow> plain_text s"
proof -
  assume *: "\<And>c. c \<in> set s \<Longrightarrow> byte c \<noteq> 10 \<and> byte c \<noteq> 59"
  have "byte newline = 10" "byte (CHR '';'') = 59" by (simp_all add: byte_def)
  then show ?thesis using * unfolding plain_text_def by metis
qed

lemma digit_byte: "is_digit c \<Longrightarrow> byte c \<noteq> 10 \<and> byte c \<noteq> 59"
  by (auto simp: is_digit_def byte_def in_range_def)

lemma alpha_byte: "alpha_num c \<Longrightarrow> byte c \<noteq> 10 \<and> byte c \<noteq> 59"
  by (auto simp: alpha_num_def in_range_def)

lemma plain_number: "valid_number s \<Longrightarrow> plain_text s"
  by (rule plain_bytes) (auto simp: valid_number_def in_range_def list_all_iff dest: digit_byte split: list.splits)

lemma plain_digit: "valid_digit s \<Longrightarrow> plain_text s"
  by (rule plain_bytes) (auto simp: valid_digit_def in_range_def split: list.splits)

lemma plain_name:
  assumes "valid_name letter s"
  shows "plain_text s"
proof (rule plain_bytes)
  fix c assume "c \<in> set s"
  moreover have "set s = (\<Union>x \<in> set (runes s). set (snd x))"
    using set_concat [of "map snd (runes s)"] unfolding runes_concat by simp
  ultimately obtain r bs where r: "(r, bs) \<in> set (runes s)" "c \<in> set bs" by force
  show "byte c \<noteq> 10 \<and> byte c \<noteq> 59"
  proof (cases "byte c < 0x80")
    case True
    then have "name_rune letter (byte c)"
      using runes_bytes [OF r True] assms r(1) by (force simp: valid_name_def list_all_iff)
    moreover have "set (map byte '' .'()&_-'') = {32, 46, 39, 40, 41, 38, 95, 45}" by (simp add: byte_def)
    ultimately show ?thesis by (auto simp: name_rune_def split: if_splits)
  qed simp
qed

lemma plain_user: "valid_user s \<Longrightarrow> plain_text s"
  by (rule plain_bytes) (auto simp: valid_user_def list_all_iff one_of_def byte_def dest!: alpha_byte)

lemma plain_password: "valid_password s \<Longrightarrow> plain_text s"
  by (rule plain_bytes) (auto simp: valid_password_def list_all_iff in_range_def)

lemma plain_hex: "set s \<subseteq> set hex_chars \<Longrightarrow> plain_text s"
  by (rule plain_bytes) (auto simp: hex_chars_def byte_def)

lemma plain_caller: "valid_caller s \<Longrightarrow> plain_text s"
proof (rule plain_bytes)
  fix c assume v: "valid_caller s" and c: "c \<in> set s"
  show "byte c \<noteq> 10 \<and> byte c \<noteq> 59"
  proof (cases "has_prefix s ''+''")
    case True
    then obtain r where s: "s = CHR ''+'' # r" by (auto simp: has_prefix_iff)
    then have "list_all is_digit r" using v by (simp add: valid_caller_def Let_def)
    then show ?thesis using c s digit_byte [of c] by (cases "c = CHR ''+''") (auto simp: list_all_iff byte_def)
  next
    case False
    then show ?thesis using v c by (auto simp: valid_caller_def Let_def list_all_iff dest: digit_byte)
  qed
qed

lemma cut_chr_set: "cut_chr c s = (a, b, found) \<Longrightarrow> x \<in> set s \<Longrightarrow> x \<in> set a \<or> found \<and> (x = c \<or> x \<in> set b)"
  by (induction s arbitrary: a) (auto split: if_splits prod.splits)

lemma plain_host:
  assumes "valid_host s"
  shows "plain_text s \<and> plain_text (host_only s)"
proof -
  obtain h p port where cut: "cut_chr (CHR '':'') s = (h, p, port)" by (metis prod_cases3)
  have v: "list_all (\<lambda>c. alpha_num c \<or> one_of ''.-'' c) h" "port \<longrightarrow> list_all is_digit p"
    using assms by (simp_all add: valid_host_def cut)
  have h: "byte c \<noteq> 10 \<and> byte c \<noteq> 59" if "c \<in> set h" for c
    using v(1) that by (auto simp: list_all_iff one_of_def byte_def dest!: alpha_byte)
  have p: "byte c \<noteq> 10 \<and> byte c \<noteq> 59" if "port" "c \<in> set p" for c
    using v(2) that digit_byte by (auto simp: list_all_iff)
  have colon: "byte (CHR '':'') = 58" by (simp add: byte_def)
  have "plain_text s"
  proof (rule plain_bytes)
    fix c assume "c \<in> set s"
    then consider "c \<in> set h" | "c = CHR '':''" | "port" "c \<in> set p" using cut_chr_set [OF cut] by blast
    then show "byte c \<noteq> 10 \<and> byte c \<noteq> 59" using h p colon by cases auto
  qed
  moreover have "plain_text (host_only s)" using h by (intro plain_bytes) (simp add: host_only_def cut)
  ultimately show ?thesis by simp
qed

section \<open>Plain files\<close>

lemma plain_header: "list_all plain_line pbx_header"
  by (simp add: pbx_header_def plain_line_def em_dash_def)

definition plain_ext :: "pbx_ext \<Rightarrow> bool" where
  "plain_ext e \<longleftrightarrow> plain_text (px_number e) \<and> plain_text (px_name e) \<and> plain_text (px_password e)"

lemma plain_quoted [simp]: "plain_text (quoted s) = plain_text s"
  by (simp add: quoted_def)

lemma plain_lines: "list_all plain_text ls \<Longrightarrow> list_all plain_line ls"
  by (auto simp: list_all_iff plain_text_line)

lemma plain_ext_lines: "plain_ext e \<Longrightarrow> list_all plain_text (ext_lines e)"
  by (simp add: ext_lines_def plain_ext_def lan_only_def Let_def)

lemma plain_trunk_lines:
  "plain_text (tk_host t) \<Longrightarrow> plain_text (host_only (tk_host t)) \<Longrightarrow> plain_text (tk_user t) \<Longrightarrow> plain_text (tk_password t)
   \<Longrightarrow> list_all plain_text (trunk_lines t)"
  by (simp add: trunk_lines_def)

lemma plain_concat: "(\<And>x. x \<in> set xs \<Longrightarrow> list_all P (h x)) \<Longrightarrow> list_all P (concat (map h xs))"
  by (auto simp: list_all_iff)

lemma plain_pjsip:
  assumes "list_all plain_ext exts" "on \<longrightarrow> list_all plain_text (trunk_lines t)"
  shows "list_all plain_line (pjsip_lines exts t on)"
proof -
  have "list_all plain_text (concat (map ext_lines exts))"
    using assms(1) plain_ext_lines by (intro plain_concat) (auto simp: list_all_iff)
  then show ?thesis using assms(2) plain_header plain_lines by (auto simp: pjsip_lines_def)
qed

lemma plain_join: "plain_text sep \<Longrightarrow> list_all plain_text xs \<Longrightarrow> plain_text (join sep xs)"
  by (induction sep xs rule: join.induct) auto

lemma plain_dial: "list_all plain_text ns \<Longrightarrow> plain_text (dial_list ns)"
  unfolding dial_list_def by (rule plain_join) (auto simp: list_all_iff)

lemma plain_greeting [simp]: "plain_text greeting_base"
  by (simp add: greeting_base_def)

lemma plain_key_lines:
  assumes "list_all plain_ext exts" "valid_digit (io_digit k)" "plain_text (io_label k)" "live_targets exts k \<noteq> []"
  shows "list_all plain_line (key_lines exts k)"
proof -
  have d: "plain_text (io_digit k)" using plain_digit assms(2) .
  have ts: "list_all plain_text (live_targets exts k)"
    using assms(1) by (auto simp: live_targets_def list_all_iff plain_ext_def)
  then have "plain_text (hd (live_targets exts k))" using assms(4) by (cases "live_targets exts k") auto
  then have "list_all plain_text (tl (key_lines exts k))"
    using d plain_dial [OF ts] by (simp add: key_lines_def Let_def)
  moreover have "plain_line (hd (key_lines exts k))"
    using d assms(3) by (simp add: key_lines_def Let_def plain_line_def plain_text_def)
  moreover have "key_lines exts k = hd (key_lines exts k) # tl (key_lines exts k)" by (simp add: key_lines_def Let_def)
  ultimately show ?thesis using plain_lines by (metis list.pred_inject(2))
qed

lemma plain_menu:
  assumes "list_all plain_ext exts" "list_all (\<lambda>k. plain_text (io_label k)) (iv_options v)"
  shows "list_all plain_line (menu_lines exts v)"
proof -
  have "list_all plain_line (concat (map (key_lines exts) (filter (key_works exts) (iv_options v))))"
    using assms plain_key_lines by (intro plain_concat) (auto simp: key_works_def list_all_iff)
  moreover have "list_all plain_line [''[itp-ivr]'', ''exten => s,1,Answer()'', '' same => n,Set(TRIES=0)'',
      '' same => n(menu),Background('' @ greeting_base @ '')'', '' same => n,WaitExten(6)'']"
    by (rule plain_lines) simp
  moreover have "list_all plain_line [''exten => 0,1,Goto(itp-ring,s,1)'', ''exten => t,1,Set(TRIES=$[${TRIES}+1])'',
      '' same => n,GotoIf($[${TRIES}>=2]?ring)'', '' same => n,Goto(s,menu)'', '' same => n(ring),Goto(itp-ring,s,1)'',
      ''exten => i,1,Playback(pbx-invalid)'', '' same => n,Goto(t,1)'', []]"
    by (rule plain_lines) simp
  ultimately show ?thesis by (simp add: menu_lines_def Let_def)
qed

lemma plain_dialplan:
  assumes exts: "list_all plain_ext exts" and keys: "list_all (\<lambda>k. plain_text (io_label k)) (iv_options v)"
    and caller: "plain_text (tk_caller t)"
  shows "list_all plain_line (dialplan_lines exts t on v)"
proof -
  have office: "list_all plain_line (office_lines exts)"
    unfolding office_lines_def
    using exts by (intro plain_lines) (auto simp: list_all_iff plain_ext_def Let_def)
  have service: "list_all plain_line service_lines" by (rule plain_lines) (simp add: service_lines_def)
  have recorder: "list_all plain_line (recorder_lines v)"
    by (rule plain_lines) (auto simp: recorder_lines_def dest: plain_number)
  have outside: "list_all plain_line (outside_lines t)"
    by (rule plain_lines) (simp add: outside_lines_def caller)
  have "list_all plain_text (map px_number (filter px_main exts))" using exts by (auto simp: list_all_iff plain_ext_def)
  then have "list_all plain_text (main_lines exts has)" for has
    using plain_dial [of "map px_number (filter px_main exts)"] by (simp add: main_lines_def Let_def)
  then have main: "list_all plain_line (main_lines exts has)" for has by (rule plain_lines)
  have plain1: "plain_line []" "plain_line ''exten => *50,1,Goto(itp-ivr,s,1)''" "plain_line ''[itp-incoming]''"
    "plain_line ''exten => s,1,Goto(itp-main,s,1)''" "plain_line ''exten => _[+0-9].,1,Goto(itp-main,s,1)''"
    by (simp_all add: plain_line_def)
  show ?thesis
    using plain_header office service recorder outside main plain_menu [OF exts keys] plain1
    by (simp add: dialplan_lines_def Let_def)
qed

lemma plain_voicemail: "list_all plain_ext exts \<Longrightarrow> list_all plain_line (voicemail_lines exts)"
  using plain_header plain_lines [of "map (\<lambda>e. px_number e @ '' => 0000,'' @ px_name e) exts"]
  by (auto simp: voicemail_lines_def plain_line_def list_all_iff plain_ext_def)

lemma voip_plain:
  assumes "voip_ok letter (vs_db s)"
  shows "list_all plain_ext (load_exts (vs_db s)) \<and> list_all (\<lambda>k. plain_text (io_label k)) (iv_options (load_ivr s))
    \<and> plain_text (tk_caller (vd_trunk (vs_db s)))
    \<and> (trunk_on (vd_trunk (vs_db s)) \<longrightarrow> list_all plain_text (trunk_lines (vd_trunk (vs_db s))))"
proof -
  have exts: "list_all plain_ext (load_exts (vs_db s))"
    using assms by (auto simp: voip_ok_def list_all_iff load_exts_def ext_of_row_def plain_ext_def good_ext_def
        intro: plain_number plain_name plain_hex)
  have label: "plain_text (io_label (option_of_key k))" if "good_key letter k" for k
    using that plain_name by (cases k) (auto simp: option_of_key_def good_key_def)
  have "list_all (\<lambda>k. plain_text (io_label k)) (iv_options (load_ivr s))"
    using assms label by (auto simp: voip_ok_def list_all_iff load_ivr_def load_keys_def)
  moreover have "trunk_on (vd_trunk (vs_db s)) \<longrightarrow> list_all plain_text (trunk_lines (vd_trunk (vs_db s)))"
    using assms
    by (auto simp: voip_ok_def good_trunk_def trunk_on_def dest: plain_host plain_user plain_password intro!: plain_trunk_lines)
  moreover have "plain_text (tk_caller (vd_trunk (vs_db s)))"
    using assms by (simp add: voip_ok_def good_trunk_def plain_caller)
  ultimately show ?thesis using exts by blast
qed

lemma split_plain: "list_all plain_line ls \<Longrightarrow> split_chr newline (text_lines ls) = ls @ [[]]
    \<and> list_all (\<lambda>l. CHR '';'' \<in> set l \<longrightarrow> has_prefix l '';'') ls"
proof -
  assume p: "list_all plain_line ls"
  then have "split_chr newline (text_lines ls) = ls @ [[]]"
    by (intro split_text_lines) (auto simp: list_all_iff plain_line_def)
  then show ?thesis using p by (auto simp: list_all_iff plain_line_def)
qed


section \<open>Files and tables agree\<close>

lemma write_conf_ok:
  "write_conf f files dir = (Inr u, dir') \<Longrightarrow> distinct (map fst files) \<Longrightarrow>
   list_all (\<lambda>(n, _). \<not> has_prefix n ''.'') files \<Longrightarrow> (n, c) \<in> set files \<or> n \<notin> fst ` set files \<and> map_of dir n = Some c \<and> \<not> has_prefix n ''.''
   \<Longrightarrow> map_of dir' n = Some c"
proof (induction f files dir rule: write_conf.induct)
  case (2 f name content files dir)
  let ?tmp = "''.'' @ name @ ''.tmp''"
  let ?dir = "AList.update name content (AList.delete ?tmp (AList.update ?tmp content dir))"
  have run: "write_conf f files ?dir = (Inr u, dir')" and ok: "\<not> f (''write '' @ name)" "\<not> f (''rename '' @ name)"
    using 2(2) by (auto simp: Let_def split: if_splits)
  have next_file: "(n, c) \<in> set files \<or> n \<notin> fst ` set files \<and> map_of ?dir n = Some c \<and> \<not> has_prefix n ''.''"
  proof (cases "(n, c) \<in> set files")
    case False
    show ?thesis
    proof (cases "n = name")
      case True
      then have "name \<notin> fst ` set files" "\<not> has_prefix name ''.''" using 2(3,4) by auto
      moreover have "c = content" using 2(5) False True 2(3) by auto
      ultimately show ?thesis using True by (simp add: update_conv')
    next
      case False
      then have "n \<notin> fst ` set files" "map_of dir n = Some c" "\<not> has_prefix n ''.''"
        using 2(5) \<open>(n, c) \<notin> set files\<close> by auto
      moreover have "n \<noteq> ?tmp" using calculation(3) by (auto simp: has_prefix_iff)
      ultimately show ?thesis using False by (simp add: update_conv' delete_conv')
    qed
  qed simp
  have "distinct (map fst files)" "list_all (\<lambda>(n, _). \<not> has_prefix n ''.'') files" using 2(3,4) by simp_all
  with 2(1) [OF refl ok(1) refl ok(2) run] next_file show ?case by blast
qed auto

lemma apply_conf_files:
  assumes "apply_conf env s = (Inr u, s')" "mset (vx_walk env (rendered s)) = mset (rendered s)"
    "(n, c) \<in> set (rendered s')"
  shows "map_of (vs_conf s') n = Some c"
proof -
  obtain dir where w: "write_conf (vx_faults env) (vx_walk env (rendered s)) (vs_conf s) = (Inr (), dir)" "vs_conf s' = dir"
    using assms(1) by (auto simp: apply_conf_def Let_def voip_log_def split: if_splits sum.splits prod.splits)
  have same: "rendered s' = rendered s"
    using apply_conf_rest [OF assms(1)] by (simp add: rendered_def load_ivr_def has_greeting_def)
  have "distinct (map fst (rendered s))" "list_all (\<lambda>(n, _). \<not> has_prefix n ''.'') (rendered s)"
    by (simp_all add: rendered_def render_def)
  moreover have "set (vx_walk env (rendered s)) = set (rendered s)" using assms(2) by (metis set_mset_mset)
  moreover have "mset (map fst (vx_walk env (rendered s))) = mset (map fst (rendered s))" using assms(2) by simp
  ultimately have "distinct (map fst (vx_walk env (rendered s)))" "list_all (\<lambda>(n, _). \<not> has_prefix n ''.'') (vx_walk env (rendered s))"
    "(n, c) \<in> set (vx_walk env (rendered s))"
    using mset_eq_imp_distinct_iff assms(3) same by (blast, auto simp: list_all_iff)
  then show ?thesis using write_conf_ok [OF w(1)] w(2) by blast
qed

fun voip_success :: "voip_request \<Rightarrow> voip_srv \<Rightarrow> bool" where
  "voip_success (V_create env tok n name user) s = (\<exists>x. fst (create_ext env s tok n name user) = Inr x)"
| "voip_success (V_update env tok n name user main) s = (fst (update_ext env s tok n name user main) = Inr ())"
| "voip_success (V_reset env tok n) s = (fst (reset_ext_password env s tok n) = Inr ())"
| "voip_success (V_delete env tok n) s = (fst (delete_ext env s tok n) = Inr ())"
| "voip_success (V_settings env tok b) s = (fst (save_settings env s tok b) = Inr ())"
| "voip_success (V_menu env tok b) s = (fst (save_menu env s tok b) = Inr ())"
| "voip_success (V_greeting env tok data) s = (fst (upload_greeting env s tok data) = Inr ())"

lemma change_applied:
  "fst (change env s tok step) = Inr out \<Longrightarrow> \<exists>x. apply_conf env x = (Inr (), snd (change env s tok step))"
  by (auto simp: change_def split: sum.splits prod.splits)

lemma upload_applied:
  "fst (upload_greeting env s tok data) = Inr u \<Longrightarrow> \<exists>x. apply_conf env x = (Inr (), snd (upload_greeting env s tok data))"
  by (auto simp: upload_greeting_def prod_eq_iff split: sum.splits prod.splits if_splits)

lemma voip_applied: "voip_success q s \<Longrightarrow> \<exists>x. apply_conf (request_env q) x = (Inr (), voip_step q s)"
proof (cases q)
  case (V_greeting env tok data)
  assume "voip_success q s"
  then show ?thesis using V_greeting upload_applied [of env s tok data "()"] by simp
qed (auto simp: create_ext_def update_ext_def reset_ext_password_def delete_ext_def save_settings_def save_menu_def
      simp del: fst_conv dest: change_applied)

text \<open>C40: After every request to change something that succeeds, the files Asterisk reads are the ones the tables and
  the greeting determine, whatever state failures before had left the files in.\<close>

theorem files_agree_after_success:
  assumes "voip_success q s" "\<forall>xs. mset (vx_walk (request_env q) xs) = mset xs"
  shows "list_all (\<lambda>(name, content). map_of (vs_conf (voip_step q s)) name = Some content) (rendered (voip_step q s))"
proof -
  obtain x where x: "apply_conf (request_env q) x = (Inr (), voip_step q s)" using voip_applied [OF assms(1)] by blast
  have "map_of (vs_conf (voip_step q s)) n = Some c" if "(n, c) \<in> set (rendered (voip_step q s))" for n c
    by (rule apply_conf_files [OF x _ that]) (use assms(2) in blast)
  then show ?thesis by (auto simp: list_all_iff)
qed

section \<open>Saving and reading the menu\<close>

lemma insert_by_sorted:
  assumes "\<And>a b c. \<not> before b a \<Longrightarrow> \<not> before c b \<Longrightarrow> \<not> before c a" "\<And>a b. before a b \<Longrightarrow> \<not> before b a"
  shows "sorted_wrt (\<lambda>a b. \<not> before b a) ys \<Longrightarrow> sorted_wrt (\<lambda>a b. \<not> before b a) (insert_by before x ys)"
proof (induction ys)
  case (Cons y ys)
  show ?case
  proof (cases "before y x")
    case True
    then have "\<forall>z \<in> set (insert_by before x ys). \<not> before z y" using Cons.prems assms(2) by auto
    then show ?thesis using True Cons by simp
  next
    case False
    then have "\<forall>z \<in> set ys. \<not> before z x" using Cons.prems assms(1) by auto
    then show ?thesis using False Cons.prems by simp
  qed
qed simp

lemma order_by_id: "sorted_wrt (\<lambda>a b. \<not> before b a) xs \<Longrightarrow> order_by before xs = xs"
proof (induction xs)
  case (Cons x xs)
  then show ?case by (cases xs) simp_all
qed simp

lemma order_by_map: "(\<And>x y. before' (k x) (k y) = before x y) \<Longrightarrow> order_by before' (map k xs) = map k (order_by before xs)"
proof -
  assume eq: "\<And>x y. before' (k x) (k y) = before x y"
  have ins: "insert_by before' (k x) (map k ys) = map k (insert_by before x ys)" for x ys
    by (induction ys) (simp_all add: eq)
  show ?thesis by (induction xs) (simp_all add: ins)
qed

interpretation byte_order: linorder "\<lambda>x y. byte x \<le> byte y" "\<lambda>x y. byte x < byte y"
  by unfold_locales (auto simp: byte_inj)

lemma by_text_linear: "by_text a b \<or> a = b \<or> by_text b a"
  using byte_order.lexordp_linear [of a b] by (simp add: by_text_def)

lemma by_text_asym: "by_text a b \<Longrightarrow> \<not> by_text b a"
  using byte_order.lexordp_antisym [of a b] by (auto simp: by_text_def)

lemma by_text_trans: "by_text a b \<Longrightarrow> by_text b c \<Longrightarrow> by_text a c"
  using byte_order.lexordp_trans [of a b c] by (simp add: by_text_def)

lemma not_by_text_trans: "\<not> by_text b a \<Longrightarrow> \<not> by_text c b \<Longrightarrow> \<not> by_text c a"
  using by_text_linear by_text_trans by blast

lemma order_by_sorted: "sorted_wrt (\<lambda>a b. \<not> by_text (k b) (k a)) (order_by (\<lambda>a b. by_text (k a) (k b)) xs)"
proof (induction xs)
  case (Cons x xs)
  then show ?case
    unfolding order_by_simps(2)
    by (rule insert_by_sorted [rotated 2]) (use not_by_text_trans by_text_asym in \<open>blast+\<close>)
qed simp

lemma number_no_comma: "valid_number t \<Longrightarrow> t \<noteq> [] \<and> CHR '','' \<notin> set t"
proof -
  assume v: "valid_number t"
  have "byte (CHR '','') = 44" by (simp add: byte_def)
  then have "\<not> in_range 0x31 0x38 (CHR '','') \<and> \<not> is_digit (CHR '','')" by (simp add: in_range_def is_digit_def byte_def)
  then show ?thesis using v by (cases t) (auto simp: valid_number_def list_all_iff)
qed

lemma option_of_key_row:
  assumes "io_targets k \<noteq> []" "list_all valid_number (io_targets k)"
  shows "option_of_key (key_row k) = k"
proof -
  have "split_chr (CHR '','') (join '','' (io_targets k)) = io_targets k"
    using assms number_no_comma by (intro split_join) (auto simp: list_all_iff)
  moreover have "filter (\<lambda>t. t \<noteq> []) (io_targets k) = io_targets k"
    using assms number_no_comma by (auto simp: filter_id_conv list_all_iff)
  ultimately show ?thesis by (simp add: option_of_key_def key_row_def)
qed

lemma check_keys_targets: "check_keys letter known seen ks = Inr ks' \<Longrightarrow> k \<in> set ks' \<Longrightarrow> io_targets k \<noteq> []"
  by (induction letter known seen ks arbitrary: ks' rule: check_keys.induct)
    (auto simp: Let_def split: if_splits sum.splits option.splits, blast)

text \<open>A menu that was saved reads back, to the administrator and to the generator, as the keys that were sent, with their
  names trimmed, in the order of the digits: joining the extension numbers with commas loses nothing.\<close>

theorem menu_reads_back:
  assumes run: "save_menu env s tok b = (Inr (), s')" and ok: "voip_ok (vx_letter env) (vs_db s)"
  shows "\<exists>ks. check_menu env s (vs_db s) b = Inr ks
    \<and> load_ivr s' = \<lparr>iv_enabled = mb_on b, iv_greeting = has_greeting s, iv_recorder = mb_recorder b,
        iv_options = order_by (\<lambda>x y. by_text (io_digit x) (io_digit y)) ks\<rparr>"
proof -
  let ?sorted = "\<lambda>ks. order_by (\<lambda>x y. by_text (io_digit x) (io_digit y)) ks"
  obtain db ks where k: "check_menu env s (vs_db s) b = Inr ks" "vs_db s' = db" "vs_greeting s' = vs_greeting s"
    "db = (vs_db s)\<lparr>vd_menu_on := mb_on b, vd_recorder := mb_recorder b, vd_keys := map key_row (?sorted ks)\<rparr>"
    using run unfolding save_menu_def
    by (auto simp: change_def Let_def split: sum.splits prod.splits if_splits dest!: apply_conf_rest)
  have good: "list_all (\<lambda>k. option_of_key (key_row k) = k) ks"
  proof -
    have "voip_ok (vx_letter env) (vs_db s)" by (rule ok)
    then have numbers: "\<forall>n \<in> er_number ` set (vd_exts (vs_db s)). valid_number n"
      by (auto simp: voip_ok_def list_all_iff good_ext_def)
    have "io_targets k \<noteq> [] \<and> list_all valid_number (io_targets k)" if "k \<in> set ks" for k
    proof -
      have t: "set (io_targets k) \<subseteq> er_number ` set (vd_exts (vs_db s))"
        using check_menu_ok [OF k(1) ok] that by (auto simp: list_all_iff)
      have "check_keys (vx_letter env) (er_number ` set (vd_exts (vs_db s))) [] (mb_options b) = Inr ks"
        using k(1) by (auto simp: check_menu_def Let_def split: if_splits sum.splits)
      then have "io_targets k \<noteq> []" using check_keys_targets that by blast
      then show ?thesis using t numbers by (auto simp: list_all_iff)
    qed
    then show ?thesis using option_of_key_row by (auto simp: list_all_iff)
  qed
  have "load_keys db = map option_of_key (order_by (\<lambda>a b. by_text (fst a) (fst b)) (map key_row (?sorted ks)))"
    by (simp add: load_keys_def k(4))
  also have "\<dots> = map option_of_key (map key_row (order_by (\<lambda>x y. by_text (io_digit x) (io_digit y)) (?sorted ks)))"
    by (subst order_by_map [of "\<lambda>a b. by_text (fst a) (fst b)" key_row]) (simp_all add: key_row_def)
  also have "\<dots> = map (\<lambda>k. option_of_key (key_row k)) (?sorted ks)"
    using order_by_id [OF order_by_sorted [of io_digit ks]] by simp
  also have "\<dots> = ?sorted ks" using good by (intro map_idI) (auto simp: list_all_iff)
  finally show ?thesis using k by (intro exI [of _ ks]) (simp add: load_ivr_def has_greeting_def)
qed

section \<open>Passwords\<close>

text \<open>The portal gives a phone's password only to the employee the extension belongs to, and there is one such
  extension at most; and what the administrator gets to see of the outside line does not depend on its password
  beyond whether there is one.\<close>

theorem passwords_stay_hidden:
  assumes ok: "voip_ok letter (vs_db s)" and mine: "my_phone env s tok = Inr (Some (n, name, pw), addr)"
    and "tk_password (vd_trunk (vs_db s)) \<noteq> []" "other \<noteq> []"
  shows "(\<exists>user. voip_employee env s tok = Inr user \<and>
      filter (\<lambda>r. er_user r = Some user) (vd_exts (vs_db s)) = filter (\<lambda>r. er_number r = n) (vd_exts (vs_db s)))
    \<and> get_settings env s tok' = get_settings env
        (s\<lparr>vs_db := (vs_db s)\<lparr>vd_trunk := (vd_trunk (vs_db s))\<lparr>tk_password := other\<rparr>\<rparr>\<rparr>) tok'"
proof -
  obtain user where u: "voip_employee env s tok = Inr user" using mine by (auto simp: my_phone_def split: sum.splits)
  obtain r where r: "find (\<lambda>r. er_user r = Some user) (vd_exts (vs_db s)) = Some r" "er_number r = n"
    using mine u by (auto simp: my_phone_def split: if_splits option.splits)
  have r': "r \<in> set (vd_exts (vs_db s))" "er_user r = Some user" using find_Some_set [OF r(1)] by auto
  have d: "distinct (map er_number (vd_exts (vs_db s)))" "distinct (users_of (vd_exts (vs_db s)))"
    using ok by (simp_all add: voip_ok_def)
  have one: "x = r" if "x \<in> set (vd_exts (vs_db s))" "er_user x = Some user" for x
  proof -
    have "distinct (users_of rows) \<Longrightarrow> x \<in> set rows \<Longrightarrow> y \<in> set rows \<Longrightarrow> er_user x = Some v \<Longrightarrow> er_user y = Some v \<Longrightarrow> x = y"
      for rows x y v
    proof (induction rows)
      case (Cons z rows)
      then show ?case by (auto simp: set_users_of image_iff split: option.splits)
    qed simp
    then show ?thesis using d(2) that r' by blast
  qed
  have two: "x = r" if "x \<in> set (vd_exts (vs_db s))" "er_number x = n" for x
    using distinct_key_eq [OF d(1) that(1) r'(1)] that(2) r(2) by simp
  have "er_user x = Some user \<longleftrightarrow> er_number x = n" if "x \<in> set (vd_exts (vs_db s))" for x
    using one [OF that] two [OF that] r' r(2) by blast
  then have "filter (\<lambda>r. er_user r = Some user) (vd_exts (vs_db s)) = filter (\<lambda>r. er_number r = n) (vd_exts (vs_db s))"
    by (rule filter_cong [OF refl])
  moreover have "get_settings env s tok' = get_settings env
      (s\<lparr>vs_db := (vs_db s)\<lparr>vd_trunk := (vd_trunk (vs_db s))\<lparr>tk_password := other\<rparr>\<rparr>\<rparr>) tok'"
    using assms(3,4) by (simp add: get_settings_def voip_admin_def Let_def trunk_status_def split: sum.split)
  ultimately show ?thesis using u by blast
qed

end
