(* ===== verification/PhoneWatch.thy ===== *)
theory PhoneWatch
  imports Phone
begin

text \<open>
  The rest of the phone module: failed sign-ins in the system log (\<open>api/security.go\<close>), the call list
  (\<open>api/calls.go\<close>) and the messages exchanged with Asterisk's manager interface (\<open>ami/ami.go\<close>).  A connection
  is the text still to be read from it; reading CSV and the format of its time stamps are parameters.
\<close>

section \<open>Failed sign-ins\<close>

type_synonym message = "(string \<times> string) list"

definition get_key :: "message \<Rightarrow> string \<Rightarrow> string" where
  "get_key m k = (case map_of m k of None \<Rightarrow> [] | Some v \<Rightarrow> v)"

record tracker =
  tr_seen :: "(string \<times> nat \<times> time) list"
  tr_recent :: "(string \<times> time) list"

definition note_every :: time where "note_every = 10 * minute"

definition failure_reasons :: "(string \<times> string) list" where
  "failure_reasons =
     [(''InvalidAccountID'', ''no such extension''), (''InvalidPassword'', ''wrong password''),
      (''ChallengeResponseFailed'', ''wrong password''), (''FailedACL'', ''not on the office network or the VPN''),
      (''AuthMethodNotAllowed'', ''sign-in method not allowed''), (''UnexpectedAddress'', ''unexpected address'')]"

definition remote_ip :: "string \<Rightarrow> string" where
  "remote_ip remote = (let parts = split_chr (CHR ''/'') remote in if 3 \<le> length parts then parts ! 2 else remote)"

definition failure_line :: "string \<Rightarrow> string \<Rightarrow> string \<Rightarrow> nat \<Rightarrow> string" where
  "failure_line addr account reason count =
     ''Phone sign-in failed from '' @ addr @ '' ('' @ (if account = [] then ''unknown extension'' else ''extension '' @ account)
       @ '': '' @ reason @ ''). '' @ nat_str count @ '' failed so far from this address.''"

text \<open>The count to write, 0 for no line, and the entry of the address.\<close>

definition count_failure :: "(string \<times> nat \<times> time) list \<Rightarrow> string \<Rightarrow> time \<Rightarrow> nat \<times> nat \<times> time" where
  "count_failure seen addr now =
     (case map_of seen addr of
        Some (count, at) \<Rightarrow> if now - at < note_every then (0, count + 1, at) else (count + 1, count + 1, now)
      | None \<Rightarrow> (1, 1, now))"

definition note_failure :: "tracker \<Rightarrow> message \<Rightarrow> time \<Rightarrow> string \<times> tracker" where
  "note_failure t ev now =
     (case map_of failure_reasons (get_key ev ''Event'') of
        None \<Rightarrow> ([], t)
      | Some reason \<Rightarrow>
          (let remote = get_key ev ''RemoteAddress''; addr = remote_ip remote;
               recent = filter (\<lambda>(k, at). \<not> now - at > 10 * second) (tr_recent t) in
           if map_of recent remote \<noteq> None then ([], t\<lparr>tr_recent := recent\<rparr>)
           else let seen = filter (\<lambda>(k, c, at). \<not> now - at > hour) (tr_seen t);
                    (n, entry) = count_failure seen addr now in
             (if n = 0 then [] else failure_line addr (get_key ev ''AccountID'') reason n,
              \<lparr>tr_seen = AList.update addr entry seen, tr_recent = AList.update remote now recent\<rparr>)))"

text \<open>\<open>WatchSecurity\<close>: the lines written for a sequence of events, with the time and address of each.\<close>

fun watch :: "tracker \<Rightarrow> (message \<times> time) list \<Rightarrow> (time \<times> string \<times> string) list" where
  "watch t [] = []"
| "watch t ((ev, now) # evs) =
     (case note_failure t ev now of (line, t1) \<Rightarrow>
        (if line = [] then [] else [(now, remote_ip (get_key ev ''RemoteAddress''), line)]) @ watch t1 evs)"

definition new_tracker :: tracker where "new_tracker = \<lparr>tr_seen = [], tr_recent = []\<rparr>"

section \<open>The call list\<close>

record call_row =
  cl_from :: string
  cl_to :: string
  cl_start :: string
  cl_seconds :: int
  cl_result :: string

definition caller_label :: "string \<Rightarrow> string \<Rightarrow> string" where
  "caller_label clid src =
     (let name = trim_space (trim_chr (CHR 0x22) (trim_space (takeWhile (\<lambda>c. c \<noteq> CHR ''<'') clid))) in
      if name \<noteq> [] \<and> src \<noteq> [] \<and> name \<noteq> src then name @ '' ('' @ src @ '')''
      else if src \<noteq> [] then src else name)"

definition call_target :: "string \<Rightarrow> string \<Rightarrow> string" where
  "call_target dst dcontext =
     (if dcontext = ''itp-main'' \<or> dcontext = ''itp-incoming'' \<or> dst = ''0'' then ''Main number''
      else if dst = ''*97'' \<or> dst = ''*98'' then ''Voicemail''
      else if dst = ''*43'' then ''Echo test''
      else if dcontext = ''itp-internal'' \<and> has_prefix dst ''9'' \<and> 2 < length dst then drop 1 dst @ '' (outside)''
      else dst)"

definition call_result :: "string \<Rightarrow> string \<Rightarrow> string \<Rightarrow> string" where
  "call_result disposition dstchannel dst =
     (if disposition = ''ANSWERED'' \<and> dstchannel = [] \<and> \<not> has_prefix dst ''*'' then ''voicemail''
      else if disposition = ''ANSWERED'' then ''answered''
      else if disposition = ''NO ANSWER'' then ''missed''
      else if disposition = ''BUSY'' then ''busy''
      else ''failed'')"

definition to_call :: "(string \<Rightarrow> string option) \<Rightarrow> string list \<Rightarrow> call_row" where
  "to_call parse_time rec = \<lparr>cl_from = caller_label (rec ! 4) (rec ! 1), cl_to = call_target (rec ! 2) (rec ! 3),
     cl_start = (case parse_time (rec ! 9) of None \<Rightarrow> [] | Some x \<Rightarrow> x), cl_seconds = atoi (rec ! 13),
     cl_result = call_result (rec ! 14) (rec ! 6) (rec ! 2)\<rparr>"

definition cdr_tail :: nat where "cdr_tail = 256 * 1024"
definition max_calls :: nat where "max_calls = 200"

definition cdr_text :: "string \<Rightarrow> string" where
  "cdr_text file =
     (if length file \<le> cdr_tail then file
      else let d = drop (length file - cdr_tail) file in
        if newline \<in> set d then drop (Suc (length (takeWhile (\<lambda>c. c \<noteq> newline) d))) d else d)"

text \<open>\<open>csv\<close> gives what successive reads of the text return, \<open>None\<close> where one fails.\<close>

definition recent_calls ::
  "faults \<Rightarrow> (string \<Rightarrow> string list option list) \<Rightarrow> (string \<Rightarrow> string option) \<Rightarrow> string option \<Rightarrow> string + call_row list" where
  "recent_calls f csv parse_time file =
     (case file of
        None \<Rightarrow> Inr []
      | Some text' \<Rightarrow>
          if f ''open'' \<or> f ''stat'' \<or> f ''seek'' \<and> cdr_tail < length text' \<or> f ''read'' then Inl ''read''
          else Inr (take max_calls (rev (map (to_call parse_time)
            (filter (\<lambda>rec. 15 \<le> length rec) (List.map_filter id (csv (cdr_text text'))))))))"

definition list_calls ::
  "voip_env \<Rightarrow> (string \<Rightarrow> string list option list) \<Rightarrow> (string \<Rightarrow> string option) \<Rightarrow> string option \<Rightarrow> voip_srv \<Rightarrow> string
     \<Rightarrow> call_row list result" where
  "list_calls env csv parse_time file s tok =
     (case voip_admin env s tok of
        Inl e \<Rightarrow> Inl e
      | Inr _ \<Rightarrow>
          (case recent_calls (vx_faults env) csv parse_time file of
             Inl e \<Rightarrow> Inl (internal_error ''read call log'')
           | Inr calls \<Rightarrow> Inr calls))"

section \<open>The manager interface\<close>

abbreviation cr :: char where "cr \<equiv> CHR 0x0D"

definition ami_line :: "string \<Rightarrow> string \<Rightarrow> string" where
  "ami_line k v = k @ '': '' @ v @ [cr, newline]"

definition ami_write :: "message \<Rightarrow> string" where
  "ami_write m = ami_line ''Action'' (get_key m ''Action'')
     @ concat (map (\<lambda>(k, v). ami_line k v) (filter (\<lambda>(k, v). k \<noteq> ''Action'') m)) @ [cr, newline]"

text \<open>One line without its end; nothing at the end of the connection.\<close>

definition read_line :: "string \<Rightarrow> (string \<times> string) option" where
  "read_line s =
     (if s = [] then None
      else if newline \<notin> set s then Some (s, [])
      else let l = takeWhile (\<lambda>c. c \<noteq> newline) s in
        Some (if l \<noteq> [] \<and> List.last l = cr then butlast l else l, drop (Suc (length l)) s))"

lemma read_line_shorter: "read_line s = Some (l, r) \<Longrightarrow> length r < length s"
  by (auto simp: read_line_def Let_def split: if_splits)

function ami_read :: "message \<Rightarrow> string \<Rightarrow> (message \<times> string) option" where
  "ami_read m s =
     (case read_line s of
        None \<Rightarrow> None
      | Some (l, r) \<Rightarrow>
          if l = [] then (if m = [] then ami_read m r else Some (m, r))
          else case cut_chr (CHR '':'') l of (k, v, ok) \<Rightarrow>
            ami_read (if ok then AList.update (trim_space k) (trim_space v) m else m) r)"
  by pat_completeness auto
termination by (relation "measure (length \<circ> snd)") (auto dest: read_line_shorter)

declare ami_read.simps [simp del]

lemma ami_read_shorter: "ami_read m s = Some (m', r) \<Longrightarrow> length r < length s"
proof (induction m s rule: ami_read.induct)
  case (1 m s)
  obtain l r1 where l: "read_line s = Some (l, r1)" using 1(3) by (auto simp: ami_read.simps [of m s] split: option.splits)
  note shorter = read_line_shorter [OF l]
  show ?case
  proof (cases "l = []")
    case True
    then show ?thesis using 1 l shorter by (fastforce simp: ami_read.simps [of m s] split: if_splits)
  next
    case False
    obtain k v ok where c: "cut_chr (CHR '':'') l = (k, v, ok)" by (metis prod_cases3)
    have "ami_read (if ok then AList.update (trim_space k) (trim_space v) m else m) r1 = Some (m', r)"
      using 1(3) l False c by (simp add: ami_read.simps [of m s])
    then have "length r < length r1" using 1(2) [OF l refl False c [symmetric] refl] by simp
    then show ?thesis using shorter by simp
  qed
qed

text \<open>\<open>send\<close>'s wait for the response, events before it ignored, and the events of a list until its end.\<close>

function ami_response :: "string \<Rightarrow> (message \<times> string) option" where
  "ami_response s =
     (case ami_read [] s of
        None \<Rightarrow> None
      | Some (m, r) \<Rightarrow> if map_of m ''Response'' \<noteq> None then Some (m, r) else ami_response r)"
  by pat_completeness auto
termination by (relation "measure length") (auto dest: ami_read_shorter)

function ami_events :: "string \<Rightarrow> string \<Rightarrow> message list option" where
  "ami_events item s =
     (case ami_read [] s of
        None \<Rightarrow> None
      | Some (m, r) \<Rightarrow>
          if get_key m ''EventList'' = ''Complete'' then Some []
          else map_option (\<lambda>ms. if get_key m ''Event'' = item then m # ms else ms) (ami_events item r))"
  by pat_completeness auto
termination by (relation "measure (length \<circ> snd)") (auto dest: ami_read_shorter)

declare ami_response.simps [simp del] ami_events.simps [simp del]

definition ami_list :: "string \<Rightarrow> string \<Rightarrow> message list option" where
  "ami_list item s =
     (case ami_response s of
        None \<Rightarrow> None
      | Some (m, r) \<Rightarrow> if get_key m ''Response'' \<noteq> ''Success'' then Some [] else ami_events item r)"

fun ami_commands :: "nat \<Rightarrow> string \<Rightarrow> string + string" where
  "ami_commands 0 s = Inr s"
| "ami_commands (Suc n) s =
     (case ami_response s of
        None \<Rightarrow> Inl ''read ami''
      | Some (m, r) \<Rightarrow> if get_key m ''Response'' = ''Error'' then Inl (''ami command: '' @ get_key m ''Message'')
          else ami_commands n r)"

definition ami_getvar :: "string \<Rightarrow> string + string" where
  "ami_getvar s =
     (case ami_response s of
        None \<Rightarrow> Inl ''read ami''
      | Some (m, r) \<Rightarrow> if get_key m ''Response'' \<noteq> ''Success'' then Inl ''ami getvar'' else Inr (get_key m ''Value''))"

definition ami_login :: "string \<Rightarrow> string + string" where
  "ami_login s =
     (case read_line s of
        None \<Rightarrow> Inl ''read ami banner''
      | Some (_, r) \<Rightarrow>
          (case ami_response r of
             None \<Rightarrow> Inl ''read ami''
           | Some (m, r1) \<Rightarrow> if get_key m ''Response'' \<noteq> ''Success'' then Inl ''ami login failed'' else Inr r1))"

section \<open>One line per address and interval\<close>

definition lines_for :: "string \<Rightarrow> (time \<times> string \<times> string) list \<Rightarrow> time list" where
  "lines_for a out = map fst (filter (\<lambda>(at, addr, line). addr = a) out)"

lemma failure_line_nonempty [simp]: "failure_line a acc r n \<noteq> []"
  by (simp add: failure_line_def)

text \<open>\<open>quiet_since a l now t\<close>: the last line for \<open>a\<close> was written at \<open>l\<close>, as the tracker knows unless it has
  forgotten the address.\<close>

definition quiet_since :: "string \<Rightarrow> time \<Rightarrow> time \<Rightarrow> tracker \<Rightarrow> bool" where
  "quiet_since a l now t \<longleftrightarrow> (\<exists>c. map_of (tr_seen t) a = Some (c, l)) \<or> map_of (tr_seen t) a = None \<and> now - l > hour"

lemma map_of_filter_val: "distinct (map fst xs) \<Longrightarrow> map_of (filter (\<lambda>(k, v). P v) xs) a
    = (case map_of xs a of None \<Rightarrow> None | Some v \<Rightarrow> if P v then Some v else None)"
proof (induction xs)
  case (Cons x xs)
  then show ?case by (cases x) (auto split: option.splits simp: map_of_eq_None_iff dest: map_of_SomeD)
qed simp

lemma note_failure_cases:
  assumes run: "note_failure t ev now = (line, t')"
  obtains (silent) "line = []" "tr_seen t' = tr_seen t"
    | (counted) n c al seen addr where "addr = remote_ip (get_key ev ''RemoteAddress'')"
        "seen = filter (\<lambda>(k, c, at). \<not> now - at > hour) (tr_seen t)" "count_failure seen addr now = (n, c, al)"
        "tr_seen t' = AList.update addr (c, al) seen" "line = [] \<longleftrightarrow> n = 0"
proof (cases "map_of failure_reasons (get_key ev ''Event'')")
  case None
  then show thesis using run silent by (simp add: note_failure_def)
next
  case (Some reason)
  let ?remote = "get_key ev ''RemoteAddress''"
  let ?seen = "filter (\<lambda>(k, c, at). \<not> now - at > hour) (tr_seen t)"
  let ?recent = "filter (\<lambda>(k, at). \<not> now - at > 10 * second) (tr_recent t)"
  obtain n c al where c: "count_failure ?seen (remote_ip ?remote) now = (n, c, al)" by (metis prod_cases3)
  show thesis
  proof (cases "map_of ?recent ?remote = None")
    case True
    have "(line, t') = (if n = 0 then [] else failure_line (remote_ip ?remote) (get_key ev ''AccountID'') reason n,
        \<lparr>tr_seen = AList.update (remote_ip ?remote) (c, al) ?seen, tr_recent = AList.update ?remote now ?recent\<rparr>)"
      using run unfolding note_failure_def Some option.case Let_def c prod.case True by simp
    then show thesis using c by (intro counted [OF refl refl c]) auto
  next
    case False
    then show thesis using run Some unfolding note_failure_def by (intro silent) (auto simp: Let_def)
  qed
qed

lemma note_failure_step:
  assumes run: "note_failure t ev now = (line, t')" and d: "distinct (map fst (tr_seen t))"
    and q: "quiet_since a l at t" and "at \<le> now"
  shows "distinct (map fst (tr_seen t')) \<and>
    (if line \<noteq> [] \<and> remote_ip (get_key ev ''RemoteAddress'') = a
     then now - l \<ge> note_every \<and> quiet_since a now now t' else quiet_since a l now t')"
proof -
  have stay: "quiet_since a l now t" using q \<open>at \<le> now\<close> by (auto simp: quiet_since_def)
  from run show ?thesis
  proof (cases rule: note_failure_cases)
    case silent
    then show ?thesis using d stay by (simp add: quiet_since_def)
  next
    case (counted n c al seen addr)
    have long: "note_every \<le> hour" by (simp add: note_every_def duration_defs)
    have d': "distinct (map fst seen)" unfolding counted(2) by (rule distinct_map_filter' [OF d])
    have d1: "distinct (map fst (tr_seen t'))" unfolding counted(4) by (rule distinct_update [OF d'])
    have look: "map_of seen x = (case map_of (tr_seen t) x of None \<Rightarrow> None
        | Some (c, at) \<Rightarrow> if now - at > hour then None else Some (c, at))" for x
      unfolding counted(2) using map_of_filter_val [OF d, of "\<lambda>(c, at). \<not> now - at > hour" x] by (auto split: option.splits)
    have q1: "(\<exists>c. map_of seen a = Some (c, l)) \<or> map_of seen a = None \<and> now - l > hour"
      using stay unfolding look quiet_since_def by (auto split: option.splits)
    have t': "map_of (tr_seen t') a = (if a = addr then Some (c, al) else map_of seen a)"
      unfolding counted(4) by (simp add: update_conv')
    show ?thesis
    proof (cases "a = addr")
      case True
      then show ?thesis using q1 t' counted(1,3,5) d1 long
        by (auto simp: quiet_since_def count_failure_def split: if_splits)
    next
      case False
      then show ?thesis using q1 t' counted(1) d1 by (simp add: quiet_since_def)
    qed
  qed
qed

abbreviation spaced :: "time \<Rightarrow> time \<Rightarrow> bool" where "spaced t1 t2 \<equiv> t2 - t1 \<ge> note_every"

lemma lines_for_append [simp]: "lines_for a (xs @ ys) = lines_for a xs @ lines_for a ys"
  by (simp add: lines_for_def)

lemma watch_spaced: "distinct (map fst (tr_seen t)) \<Longrightarrow> quiet_since a l at t \<Longrightarrow> sorted (at # map snd evs) \<Longrightarrow>
    sorted_wrt spaced (l # lines_for a (watch t evs))"
proof (induction evs arbitrary: t l at)
  case Nil
  then show ?case by (simp add: lines_for_def)
next
  case (Cons e evs)
  obtain ev now where e: "e = (ev, now)" by fastforce
  obtain line t' where n: "note_failure t ev now = (line, t')" by fastforce
  have le: "at \<le> now" and so: "sorted (now # map snd evs)" using Cons.prems(3) e by auto
  note step = note_failure_step [OF n Cons.prems(1,2) le]
  show ?case
  proof (cases "line \<noteq> [] \<and> remote_ip (get_key ev ''RemoteAddress'') = a")
    case True
    then have gap: "spaced l now" and q: "quiet_since a now now t'" and d: "distinct (map fst (tr_seen t'))" using step by auto
    have "sorted_wrt spaced (now # lines_for a (watch t' evs))" by (rule Cons.IH [OF d q so])
    then have "sorted_wrt spaced (l # now # lines_for a (watch t' evs))"
      using gap by (auto simp: note_every_def duration_defs)
    then show ?thesis using True n e by (simp add: lines_for_def)
  next
    case False
    then have q: "quiet_since a l now t'" and d: "distinct (map fst (tr_seen t'))" using step by (simp_all split: if_splits)
    have "lines_for a (watch t (e # evs)) = lines_for a (watch t' evs)" using False n e by (auto simp: lines_for_def)
    then show ?thesis using Cons.IH [OF d q so] by simp
  qed
qed

text \<open>However many sign-ins fail, the system log gets at most one line per address and ten minutes: any two
  lines for one address are at least ten minutes apart, so a scanner trying a thousand extensions cannot drown
  the log.\<close>
theorem one_line_per_interval:
  assumes "sorted (map snd evs)"
  shows "sorted_wrt (\<lambda>t1 t2. t2 - t1 \<ge> note_every) (lines_for a (watch new_tracker evs))"
proof (cases evs)
  case Nil
  then show ?thesis by (simp add: lines_for_def)
next
  case (Cons e evs')
  have "quiet_since a (snd e - hour - 1) (snd e) new_tracker" by (simp add: quiet_since_def new_tracker_def)
  from watch_spaced [OF _ this, of evs] show ?thesis using assms Cons by (simp add: new_tracker_def)
qed

section \<open>What one side writes the other reads\<close>

definition line_ok :: "string \<times> string \<Rightarrow> bool" where
  "line_ok = (\<lambda>(k, v). newline \<notin> set k \<and> newline \<notin> set v \<and> CHR '':'' \<notin> set k \<and> trim_space k = k \<and> trim_space v = v \<and> k \<noteq> [])"

lemma read_line_ami_line:
  assumes "newline \<notin> set k" "newline \<notin> set v"
  shows "read_line (ami_line k v @ rest) = Some (k @ '': '' @ v, rest)"
proof -
  let ?l = "k @ '': '' @ v @ [cr]"
  have n: "newline \<notin> set ?l" using assms by simp
  have s: "ami_line k v @ rest = ?l @ newline # rest" by (simp add: ami_line_def)
  have t: "takeWhile (\<lambda>c. c \<noteq> newline) (?l @ newline # rest) = ?l"
    using n by (subst takeWhile_append2) auto
  have "read_line (?l @ newline # rest) = Some (butlast ?l, rest)"
    unfolding read_line_def t Let_def by (simp add: last_append eval_nat_numeral)
  moreover have "butlast ?l = k @ '': '' @ v" by (simp add: butlast_append)
  ultimately show ?thesis using s by simp
qed

lemma read_line_blank: "read_line (cr # newline # rest) = Some ([], rest)"
  by (simp add: read_line_def)

lemma ami_read_end: "m \<noteq> [] \<Longrightarrow> ami_read m (cr # newline # rest) = Some (m, rest)"
  by (simp add: ami_read.simps [of m "cr # newline # rest"] read_line_blank)

lemma trim_space_space: "trim_space (CHR '' '' # v) = trim_space v"
proof -
  have "runes (CHR '' '' # v) = (byte (CHR '' ''), [CHR '' '']) # runes v" by (rule runes_Cons_ascii) (simp add: byte_def)
  then show ?thesis by (simp add: trim_space_def space_rune_def byte_def)
qed

lemma ami_read_line:
  assumes "line_ok (k, v)"
  shows "ami_read m (ami_line k v @ rest) = ami_read (AList.update k v m) rest"
proof -
  have l: "read_line (ami_line k v @ rest) = Some (k @ '': '' @ v, rest)"
    using assms by (intro read_line_ami_line) (auto simp: line_ok_def)
  have c: "cut_chr (CHR '':'') (k @ '': '' @ v) = (k, CHR '' '' # v, True)"
    using assms by (simp add: line_ok_def cut_chr_append)
  show ?thesis
    using assms unfolding ami_read.simps [of m "ami_line k v @ rest"] l option.case prod.case c
    by (simp add: line_ok_def trim_space_space)
qed

lemma ami_read_lines: "list_all line_ok m \<Longrightarrow>
    ami_read acc (concat (map (\<lambda>(k, v). ami_line k v) m) @ rest) = ami_read (foldl (\<lambda>a (k, v). AList.update k v a) acc m) rest"
proof (induction m arbitrary: acc)
  case (Cons x m)
  then show ?case by (cases x) (simp add: ami_read_line)
qed simp

lemma foldl_update_lookup: "distinct (map fst m) \<Longrightarrow>
    map_of (foldl (\<lambda>a (k, v). AList.update k v a) acc m) = map_of acc ++ map_of m"
proof (induction m arbitrary: acc)
  case (Cons x m)
  obtain k v where "x = (k, v)" by fastforce
  moreover have "k \<notin> dom (map_of m)" using Cons.prems calculation by (simp add: dom_map_of_conv_image_fst)
  ultimately show ?case using Cons by (auto simp: update_conv' map_add_def fun_eq_iff dom_def split: option.splits)
qed simp

text \<open>What is written to the manager interface is read back on the other side as the same message, and the
  next message starts right behind it, when no key or value holds a line break, a key no colon, and neither is
  padded with blanks.\<close>
theorem ami_roundtrip:
  assumes "list_all line_ok m" "distinct (map fst m)" "map_of m ''Action'' \<noteq> None"
  shows "\<exists>m'. ami_read [] (ami_write m @ rest) = Some (m', rest) \<and> map_of m' = map_of m"
proof -
  let ?m = "filter (\<lambda>(k, v). k \<noteq> ''Action'') m"
  let ?w = "(''Action'', get_key m ''Action'') # ?m"
  obtain a where a: "map_of m ''Action'' = Some a" using assms(3) by auto
  have "(''Action'', a) \<in> set m" by (rule map_of_SomeD [OF a])
  then have ok: "list_all line_ok ?w" using assms(1) a by (auto simp: list_all_iff get_key_def)
  have d: "distinct (map fst ?w)" using distinct_map_filter' [OF assms(2)] by auto
  let ?m' = "foldl (\<lambda>a (k, v). AList.update k v a) [] ?w"
  have l: "map_of ?m' = map_of ?w" using foldl_update_lookup [OF d, of "[]"] by simp
  have same: "map_of ?w = map_of m"
    using a by (auto simp: fun_eq_iff get_key_def map_of_filter_keys)
  have ne: "?m' \<noteq> []" using l a same by force
  have "ami_write m @ rest = concat (map (\<lambda>(k, v). ami_line k v) ?w) @ (cr # newline # rest)"
    by (simp add: ami_write_def)
  then have "ami_read [] (ami_write m @ rest) = ami_read ?m' (cr # newline # rest)"
    by (simp only: ami_read_lines [OF ok])
  also have "\<dots> = Some (?m', rest)"
    by (rule ami_read_end [OF ne])
  finally show ?thesis using l same by auto
qed

end
