(* ===== verification/PhoneExamples.thy ===== *)
theory PhoneExamples
  imports PhoneFiles PhoneWatch
begin

text \<open>
  The properties of the phone module applied to a small office: two extensions, a greeting, a menu with one key,
  an outside line.
\<close>

definition px_admins :: admin_db where
  "px_admins = \<lparr>admins = [\<lparr>au_id = 1, au_email = ''root'', au_hash = ''h''\<rparr>], admin_next = 2,
     admin_sessions = [\<lparr>as_token = ''t'', as_user = 1, as_expires = hour\<rparr>]\<rparr>"

definition px_emps :: emp_db where
  "px_emps = \<lparr>emp_sessions = [\<lparr>es_token = ''e'', es_user = ''ann'', es_expires = hour\<rparr>], user_logins = []\<rparr>"

definition px_start :: voip_srv where
  "px_start = \<lparr>vs_db = new_voip_db, vs_conf = [], vs_greeting = None, vs_admin = px_admins, vs_emp = px_emps, vs_log = []\<rparr>"

definition px_env :: voip_env where
  "px_env = \<lparr>vx_faults = (\<lambda>_. False), vx_now = 0, vx_clock = 0, vx_letter = (\<lambda>_. False), vx_random = Some ''0123'',
     vx_walk = (\<lambda>xs. xs), vx_states = None, vx_registrations = None, vx_address = Some ''pbx.lan'', vx_reload = Inr (),
     vx_name_before = by_text, vx_convert = (\<lambda>_ _. Inr 5000)\<rparr>"

definition px_line :: trunk where
  "px_line = \<lparr>tk_enabled = True, tk_host = ''sip.example.com'', tk_user = ''office'', tk_password = ''secret'', tk_caller = ''+491234'',
     tk_international = False\<rparr>"

definition px_menu :: menu_body where
  "px_menu = \<lparr>mb_on = True, mb_recorder = ''101'', mb_options = [\<lparr>io_digit = ''2'', io_label = '' Sales '', io_targets = [''101'', ''100'']\<rparr>]\<rparr>"

definition px_requests :: "voip_request list" where
  "px_requests = [V_create px_env ''t'' ''101'' ''Bob'' [], V_create px_env ''t'' ''100'' ''Ann'' ''ann'',
     V_greeting px_env ''t'' ''OggS'', V_settings px_env ''t'' px_line, V_menu px_env ''t'' px_menu]"

definition px_office :: voip_srv where
  "px_office = px_start\<lparr>vs_db := \<lparr>vd_exts = [\<lparr>er_number = ''101'', er_name = ''Bob'', er_user = None, er_password = ''30'', er_main = True\<rparr>,
     \<lparr>er_number = ''100'', er_name = ''Ann'', er_user = Some ''ann'', er_password = ''31'', er_main = False\<rparr>],
     vd_trunk = px_line, vd_menu_on = False, vd_recorder = [], vd_keys = []\<rparr>, vs_greeting := Some (5000, 0)\<rparr>"

lemmas px_defs = px_start_def px_env_def px_line_def px_menu_def px_admins_def px_emps_def px_office_def

lemma write_conf_no_fault: "fst (write_conf (\<lambda>_. False) files dir) = Inr ()"
  by (induction files arbitrary: dir) (auto simp: Let_def)

lemma px_apply: "fst (apply_conf px_env s) = Inr ()"
  using write_conf_no_fault [of "rendered s" "vs_conf s"]
  by (auto simp: apply_conf_def px_env_def Let_def split: prod.splits sum.splits)

lemma px_change: "voip_admin px_env s tok = Inr a \<Longrightarrow> step (vs_db s) = Inr (out, db) \<Longrightarrow> fst (change px_env s tok step) = Inr out"
  using px_apply [of "s\<lparr>vs_db := db\<rparr>"] by (simp add: change_def split: prod.split sum.split) (metis fst_conv sum.distinct(1))

lemma px_office_admin: "voip_admin px_env px_office ''t'' = Inr ''root''"
  by code_simp

lemma px_office_ok: "voip_ok (vx_letter px_env) (vs_db px_office)"
proof -
  have "list_all (good_ext (vx_letter px_env)) (vd_exts (vs_db px_office))" by code_simp
  moreover have "good_trunk (vd_trunk (vs_db px_office))" by code_simp
  ultimately show ?thesis by (simp add: voip_ok_def px_defs)
qed

lemma px_menu_ok: "check_menu px_env px_office (vs_db px_office) px_menu
    = Inr [\<lparr>io_digit = ''2'', io_label = ''Sales'', io_targets = [''101'', ''100'']\<rparr>]"
proof -
  have "trim_space '' Sales '' = ''Sales''" by (subst trim_space_ascii) (simp_all add: ascii_def space_rune_def byte_def)
  moreover have "valid_name (\<lambda>_. False) ''Sales''" by code_simp
  moreover have "valid_digit ''2''" by code_simp
  ultimately show ?thesis by (simp add: check_menu_def px_defs max_targets_def max_keys_def has_greeting_def greeting_min_def)
qed


theorem files_agree_after_success_witness:
  "list_all (\<lambda>(name, content). map_of (vs_conf (voip_step (V_reset px_env ''t'' ''100'') px_office)) name = Some content)
     (rendered (voip_step (V_reset px_env ''t'' ''100'') px_office))"
proof (rule files_agree_after_success)
  show "voip_success (V_reset px_env ''t'' ''100'') px_office"
    unfolding voip_success.simps reset_ext_password_def
    by (rule px_change [OF px_office_admin]) (simp add: new_password_def change_row_def px_defs)
qed (simp add: px_env_def)

theorem menu_reads_back_witness:
  "\<exists>ks. check_menu px_env px_office (vs_db px_office) px_menu = Inr ks
    \<and> load_ivr (snd (save_menu px_env px_office ''t'' px_menu)) = \<lparr>iv_enabled = True, iv_greeting = has_greeting px_office,
        iv_recorder = ''101'', iv_options = order_by (\<lambda>x y. by_text (io_digit x) (io_digit y)) ks\<rparr>"
proof -
  have "fst (save_menu px_env px_office ''t'' px_menu) = Inr ()"
    unfolding save_menu_def by (rule px_change [OF px_office_admin]) (unfold px_menu_ok, simp add: px_env_def)
  then have "save_menu px_env px_office ''t'' px_menu = (Inr (), snd (save_menu px_env px_office ''t'' px_menu))"
    by (metis prod.collapse)
  from menu_reads_back [OF this px_office_ok] show ?thesis by (simp add: px_menu_def)
qed

theorem passwords_stay_hidden_witness:
  "voip_employee px_env px_office ''e'' = Inr ''ann''
    \<and> filter (\<lambda>r. er_user r = Some ''ann'') (vd_exts (vs_db px_office)) = filter (\<lambda>r. er_number r = ''100'') (vd_exts (vs_db px_office))"
proof -
  have mine: "my_phone px_env px_office ''e'' = Inr (Some (''100'', ''Ann'', ''31''), ''pbx.lan'')" by code_simp
  have user: "voip_employee px_env px_office ''e'' = Inr ''ann''" by code_simp
  show ?thesis using passwords_stay_hidden [OF px_office_ok mine, of "''other''" "''t''"] user by (simp add: px_defs)
qed

definition px_event :: "string \<Rightarrow> message" where
  "px_event account = [(''Event'', ''InvalidPassword''), (''RemoteAddress'', ''IPV4/UDP/203.0.113.9/'' @ account), (''AccountID'', account)]"

definition px_events :: "(message \<times> time) list" where
  "px_events = [(px_event ''100'', 0), (px_event ''101'', 3 * minute), (px_event ''102'', 9 * minute),
     (px_event ''103'', 12 * minute), (px_event ''104'', 13 * minute)]"

theorem one_line_per_interval_witness:
  "sorted_wrt (\<lambda>t1 t2. t2 - t1 \<ge> note_every) (lines_for ''203.0.113.9'' (watch new_tracker px_events))
    \<and> lines_for ''203.0.113.9'' (watch new_tracker px_events) = [0, 12 * minute]"
proof
  have "sorted (map snd px_events)" by (simp add: px_events_def duration_defs)
  then show "sorted_wrt (\<lambda>t1 t2. t2 - t1 \<ge> note_every) (lines_for ''203.0.113.9'' (watch new_tracker px_events))"
    by (rule one_line_per_interval)
  show "lines_for ''203.0.113.9'' (watch new_tracker px_events) = [0, 12 * minute]" by code_simp
qed

theorem ami_roundtrip_witness:
  "\<exists>m'. ami_read [] (ami_write [(''Command'', ''dialplan reload''), (''Action'', ''Command'')] @ ''Event: x'') = Some (m', ''Event: x'')
    \<and> map_of m' = map_of [(''Command'', ''dialplan reload''), (''Action'', ''Command'')]"
  by (rule ami_roundtrip) (simp_all add: line_ok_def trim_space_ascii ascii_def space_rune_def byte_def)

end
