(* ===== verification/Docker.thy ===== *)
theory Docker
  imports Installer
begin

text \<open>
  The client of the container engine (\<open>backend/internal/docker/client.go\<close>, \<open>logs.go\<close>): which command lines it runs and how it
  reads what they print.  The \<open>docker\<close> program itself is not part of the code: running it, given a folder, the
  arguments and the standard input, on a state of any type is the parameter of every operation.  The order in which Go
  walks a map of settings is a parameter as well.
\<close>

section \<open>Running a command\<close>

record cmd_result =
  cr_started :: bool
  cr_error :: "string option"
  cr_out :: string
  cr_err :: string
  cr_both :: string

type_synonym 's docker = "string \<Rightarrow> string list \<Rightarrow> string \<Rightarrow> 's \<Rightarrow> cmd_result \<times> 's"

definition safe_env :: "(string \<Rightarrow> string option) \<Rightarrow> string list" where
  "safe_env lookup = List.map_filter (\<lambda>k. map_option (\<lambda>v. k @ ''='' @ v) (lookup k)) [''PATH'', ''HOME'', ''DOCKER_HOST'', ''DOCKER_CONFIG'']"

definition failed_with :: "string \<Rightarrow> string \<Rightarrow> cmd_result \<Rightarrow> string" where
  "failed_with what output r = what @ '': '' @ (case cr_error r of None \<Rightarrow> [] | Some e \<Rightarrow> e) @ '': '' @ output"

definition bracketed :: "string list \<Rightarrow> string" where
  "bracketed args = ''['' @ join '' '' args @ '']''"

definition dk_run :: "'s docker \<Rightarrow> string \<Rightarrow> string list \<Rightarrow> 's \<Rightarrow> (string + unit) \<times> 's" where
  "dk_run D dir args s =
     (case D dir args [] s of (r, s1) \<Rightarrow>
        (if cr_error r = None then Inr () else Inl (failed_with (''docker '' @ bracketed args) (cr_err r) r), s1))"

definition dk_output :: "'s docker \<Rightarrow> string list \<Rightarrow> 's \<Rightarrow> (string + string) \<times> 's" where
  "dk_output D args s =
     (case D [] args [] s of (r, s1) \<Rightarrow>
        (case cr_error r of None \<Rightarrow> Inr (cr_out r) | Some e \<Rightarrow> Inl (''docker '' @ hd args @ '': '' @ e), s1))"

definition dk_combined :: "'s docker \<Rightarrow> string \<Rightarrow> string list \<Rightarrow> 's \<Rightarrow> (string + string) \<times> 's" where
  "dk_combined D what args s =
     (case D [] args [] s of (r, s1) \<Rightarrow>
        (if cr_error r = None then Inr (cr_both r) else Inl (failed_with what (cr_both r) r), s1))"

section \<open>Stacks and containers\<close>

definition dk_ping :: "'s docker \<Rightarrow> 's \<Rightarrow> (string + unit) \<times> 's" where
  "dk_ping D = dk_run D [] [''info'', ''--format'', ''{{.ServerVersion}}'']"

definition dk_compose_up :: "'s docker \<Rightarrow> string \<Rightarrow> string \<Rightarrow> 's \<Rightarrow> (string + unit) \<times> 's" where
  "dk_compose_up D dir project = dk_run D dir [''compose'', ''-p'', project, ''up'', ''-d'']"

definition dk_compose_down :: "'s docker \<Rightarrow> string \<Rightarrow> string \<Rightarrow> 's \<Rightarrow> (string + unit) \<times> 's" where
  "dk_compose_down D dir project = dk_run D dir [''compose'', ''-p'', project, ''down'']"

definition dk_compose_status :: "'s docker \<Rightarrow> string \<Rightarrow> string \<Rightarrow> 's \<Rightarrow> (string \<times> string option) \<times> 's" where
  "dk_compose_status D dir project s =
     (case D dir [''compose'', ''-p'', project, ''ps'', ''--status'', ''running'', ''-q''] [] s of (r, s1) \<Rightarrow>
        (case cr_error r of
           Some e \<Rightarrow> (''unknown'', Some (''compose ps: '' @ e))
         | None \<Rightarrow> (if cr_out r \<noteq> [] then ''running'' else ''stopped'', None), s1))"

definition dk_reload_nginx :: "'s docker \<Rightarrow> string \<Rightarrow> 's \<Rightarrow> (string + unit) \<times> 's" where
  "dk_reload_nginx D name = dk_run D [] [''exec'', name, ''nginx'', ''-s'', ''reload'']"

definition dk_restart :: "'s docker \<Rightarrow> string \<Rightarrow> 's \<Rightarrow> (string + unit) \<times> 's" where
  "dk_restart D name = dk_run D [] [''restart'', name]"

definition dk_exec :: "'s docker \<Rightarrow> string \<Rightarrow> string list \<Rightarrow> 's \<Rightarrow> (string + string) \<times> 's" where
  "dk_exec D name args = dk_combined D (''docker exec '' @ name @ '' '' @ bracketed args) ([''exec'', name] @ args)"

section \<open>Files of a volume\<close>

definition dk_read_volume :: "'s docker \<Rightarrow> string \<Rightarrow> string \<Rightarrow> 's \<Rightarrow> (string + string) \<times> 's" where
  "dk_read_volume D volume path s =
     (case D [] [''run'', ''--rm'', ''-v'', volume @ '':/target:ro'', ''busybox'', ''cat'', ''/target/'' @ path] [] s of (r, s1) \<Rightarrow>
        (if cr_error r = None then Inr (cr_out r)
         else Inl (failed_with (''read '' @ path @ '' from volume '' @ volume) (cr_err r) r), s1))"

definition dk_write_volume :: "'s docker \<Rightarrow> string \<Rightarrow> string \<Rightarrow> string \<Rightarrow> 's \<Rightarrow> (string + unit) \<times> 's" where
  "dk_write_volume D volume path content s =
     (case D [] [''run'', ''--rm'', ''-i'', ''-v'', volume @ '':/target'', ''busybox'', ''sh'', ''-c'', ''cat > /target/'' @ path] content s
      of (r, s1) \<Rightarrow>
        (if cr_error r = None then Inr ()
         else Inl (failed_with (''write '' @ path @ '' to volume '' @ volume) (cr_err r) r), s1))"

text \<open>The tar of a volume into a file of the host; a file that could not be made, or was not completed, is not there after.\<close>

definition dk_tar_volume ::
  "faults \<Rightarrow> 's docker \<Rightarrow> string \<Rightarrow> string \<Rightarrow> (string \<times> string) list \<Rightarrow> 's \<Rightarrow> (string + unit) \<times> (string \<times> string) list \<times> 's" where
  "dk_tar_volume f D volume path files s =
     (if f (''create '' @ path) then (Inl (''create '' @ path), files, s)
      else case D [] [''run'', ''--rm'', ''-v'', volume @ '':/data:ro'', ''busybox'', ''tar'', ''czf'', ''-'', ''-C'', ''/data'', ''.''] [] s of (r, s1) \<Rightarrow>
        if cr_error r = None then (Inr (), AList.update path (cr_out r) files, s1)
        else (Inl (failed_with (''tar volume '' @ volume) (trim_space (cr_err r)) r), AList.delete path files, s1))"

section \<open>The host's network\<close>

definition route_command :: "string list" where
  "route_command = [''run'', ''--rm'', ''--network'', ''host'', ''busybox'', ''ip'', ''-4'', ''route'']"

definition dk_host_routes :: "'s docker \<Rightarrow> 's \<Rightarrow> (string + string) \<times> 's" where
  "dk_host_routes D s =
     (case D [] route_command [] s of (r, s1) \<Rightarrow>
        (if cr_error r = None then Inr (cr_out r) else Inl (failed_with ''read host routes'' (cr_err r) r), s1))"

fun word_after :: "string \<Rightarrow> string list \<Rightarrow> string option" where
  "word_after w (x # y # ys) = (if x = w then Some y else word_after w (y # ys))"
| "word_after w _ = None"

text \<open>What a failing command printed is looked at all the same.\<close>

definition dk_primary_ip :: "'s docker \<Rightarrow> 's \<Rightarrow> (string + string) \<times> 's" where
  "dk_primary_ip D s =
     (case D [] (route_command @ [''get'', ''1.1.1.1'']) [] s of (r1, s1) \<Rightarrow>
        case D [] route_command [] s1 of (r2, s2) \<Rightarrow>
          (case word_after ''src'' (GoStd.fields (cr_out r1)) of
             Some ip \<Rightarrow> Inr ip
           | None \<Rightarrow>
               (case word_after ''src'' (GoStd.fields (cr_out r2)) of
                  Some ip \<Rightarrow> Inr ip
                | None \<Rightarrow> Inl ''couldn't read this server's address from its routes''), s2))"

section \<open>Copies to the backup destination\<close>

text \<open>The settings of the destination, each as an option of the command, in the order of the walk.\<close>

type_synonym env_walk = "(string \<times> string) list \<Rightarrow> (string \<times> string) list"

definition env_options :: "env_walk \<Rightarrow> (string \<times> string) list \<Rightarrow> string list" where
  "env_options walk env = concat (map (\<lambda>(k, v). [''-e'', k @ ''='' @ v]) (walk env))"

definition rclone_image :: string where "rclone_image = ''rclone/rclone:latest''"
definition postgres_image :: string where "postgres_image = ''postgres:16-alpine''"

definition dk_rclone_copy ::
  "'s docker \<Rightarrow> env_walk \<Rightarrow> string \<Rightarrow> bool \<Rightarrow> string \<Rightarrow> (string \<times> string) list \<Rightarrow> string \<Rightarrow> string \<Rightarrow> 's \<Rightarrow> (string + string) \<times> 's" where
  "dk_rclone_copy D walk volume writable network env src dst =
     dk_combined D ''rclone copy''
       ([''run'', ''--rm'', ''-v'', volume @ '':/data'' @ (if writable then [] else '':ro''), ''--network'', network]
        @ env_options walk env @ [rclone_image, ''copy'', src, dst, ''-v''])"

definition rclone_args :: "env_walk \<Rightarrow> string \<Rightarrow> (string \<times> string) list \<Rightarrow> string \<Rightarrow> string \<Rightarrow> string list" where
  "rclone_args walk network env sub path =
     [''run'', ''--rm'', ''-i'', ''--network'', network] @ env_options walk env @ [rclone_image, sub, path]"

text \<open>The second command runs on whatever the first one printed, also when the first one failed half-way.\<close>

definition dk_pipe :: "'s docker \<Rightarrow> string list \<Rightarrow> string list \<Rightarrow> 's \<Rightarrow> (string + unit) \<times> 's" where
  "dk_pipe D from_cmd to_cmd s =
     (case D [] from_cmd [] s of (r1, s1) \<Rightarrow>
        if \<not> cr_started r1 then (Inl (case cr_error r1 of None \<Rightarrow> [] | Some e \<Rightarrow> e), s1)
        else case D [] to_cmd (cr_out r1) s1 of (r2, s2) \<Rightarrow>
          if \<not> cr_started r2 then (Inl (case cr_error r2 of None \<Rightarrow> [] | Some e \<Rightarrow> e), s2)
          else (case (cr_error r1, cr_error r2) of
              (Some e, _) \<Rightarrow> Inl (e @ '': '' @ cr_err r1)
            | (None, Some e) \<Rightarrow> Inl (e @ '': '' @ cr_err r2)
            | (None, None) \<Rightarrow> Inr (), s2))"

definition dump_script :: "string list \<Rightarrow> string" where
  "dump_script tables = ''exec pg_dump -Fc --no-owner'' @ concat (map (\<lambda>t. '' --exclude-table='' @ t) tables) @ '' '' @ quoted ''$DBURL''"

definition dk_dump_database ::
  "'s docker \<Rightarrow> env_walk \<Rightarrow> string \<Rightarrow> string \<Rightarrow> (string \<times> string) list \<Rightarrow> string \<Rightarrow> string list \<Rightarrow> 's \<Rightarrow> (string + unit) \<times> 's" where
  "dk_dump_database D walk network url env dst tables =
     dk_pipe D [''run'', ''--rm'', ''--network'', network, ''-e'', ''DBURL='' @ url, postgres_image, ''sh'', ''-c'', dump_script tables]
       (rclone_args walk network env ''rcat'' dst)"

definition restore_script :: string where
  "restore_script = ''exec pg_restore --clean --if-exists --no-owner --single-transaction -d '' @ quoted ''$DBURL''"

definition dk_restore_database ::
  "'s docker \<Rightarrow> env_walk \<Rightarrow> string \<Rightarrow> string \<Rightarrow> (string \<times> string) list \<Rightarrow> string \<Rightarrow> 's \<Rightarrow> (string + unit) \<times> 's" where
  "dk_restore_database D walk network url env src =
     dk_pipe D (rclone_args walk network env ''cat'' src)
       [''run'', ''--rm'', ''-i'', ''--network'', network, ''-e'', ''DBURL='' @ url, postgres_image, ''sh'', ''-c'', restore_script]"

definition dk_volume_tar ::
  "'s docker \<Rightarrow> env_walk \<Rightarrow> string \<Rightarrow> string \<Rightarrow> string \<Rightarrow> (string \<times> string) list \<Rightarrow> string \<Rightarrow> string \<Rightarrow> 's \<Rightarrow> (string + unit) \<times> 's" where
  "dk_volume_tar D walk volume mode network env script remote s =
     (case dk_combined D (''volume '' @ volume)
         ([''run'', ''--rm'', ''--network'', network, ''-v'', volume @ '':/data'' @ mode, ''-e'', ''REMOTE='' @ remote]
          @ env_options walk env
          @ [''--entrypoint'', ''sh'', rclone_image, ''-c'', ''set -o pipefail 2>/dev/null; '' @ script]) s of
        (Inl e, s1) \<Rightarrow> (Inl e, s1) | (Inr _, s1) \<Rightarrow> (Inr (), s1))"

definition dk_backup_volume ::
  "'s docker \<Rightarrow> env_walk \<Rightarrow> string \<Rightarrow> string \<Rightarrow> (string \<times> string) list \<Rightarrow> string \<Rightarrow> 's \<Rightarrow> (string + unit) \<times> 's" where
  "dk_backup_volume D walk volume network env =
     dk_volume_tar D walk volume '':ro'' network env (''tar czf - -C /data . | rclone rcat '' @ quoted ''$REMOTE'')"

definition dk_restore_volume ::
  "'s docker \<Rightarrow> env_walk \<Rightarrow> string \<Rightarrow> string \<Rightarrow> (string \<times> string) list \<Rightarrow> string \<Rightarrow> 's \<Rightarrow> (string + unit) \<times> 's" where
  "dk_restore_volume D walk volume network env =
     dk_volume_tar D walk volume [] network env (''rclone cat '' @ quoted ''$REMOTE'' @ '' | tar xzpf - --numeric-owner -C /data'')"

section \<open>Containers of a project\<close>

definition project_ids :: "'s docker \<Rightarrow> string \<Rightarrow> 's \<Rightarrow> (string + string) \<times> 's" where
  "project_ids D project = dk_output D [''ps'', ''-aq'', ''--filter'', ''label=com.docker.compose.project='' @ project]"

definition inspect_format :: string where
  "inspect_format = ''{{.Name}}|{{.State.Status}}|{{if .State.Health}}{{.State.Health.Status}}{{end}}|{{.State.ExitCode}}|{{.HostConfig.RestartPolicy.Name}}''"

definition drop_slash :: "string \<Rightarrow> string" where
  "drop_slash s = (if has_prefix s ''/'' then tl s else s)"

definition container_of_line :: "string \<Rightarrow> container option" where
  "container_of_line l =
     (case split_chr (CHR ''|'') l of
        [n, st, h, code, policy] \<Rightarrow> Some \<lparr>ct_name = drop_slash n, ct_state = st, ct_health = h, ct_exit = atoi code,
          ct_oneshot = (policy = ''no'' \<or> policy = [])\<rparr>
      | _ \<Rightarrow> None)"

definition project_containers :: "'s docker \<Rightarrow> string \<Rightarrow> 's \<Rightarrow> (string + container list) \<times> 's" where
  "project_containers D project s =
     (case project_ids D project s of
        (Inl e, s1) \<Rightarrow> (Inl e, s1)
      | (Inr ids, s1) \<Rightarrow>
          (let fs = GoStd.fields ids in
           if fs = [] then (Inr [], s1)
           else case dk_output D ([''inspect'', ''--format'', inspect_format] @ fs) s1 of
             (Inl e, s2) \<Rightarrow> (Inl e, s2)
           | (Inr out, s2) \<Rightarrow> (Inr (List.map_filter container_of_line (split_chr newline (trim_space out))), s2)))"

section \<open>Logs\<close>

text \<open>A line with its time stamp in front, tagged with its container; a line without a space is all time stamp.\<close>

definition log_line :: "string \<Rightarrow> string \<Rightarrow> (string \<times> string) option" where
  "log_line name l = (if l = [] then None else case cut_chr (CHR '' '') l of (ts, txt, _) \<Rightarrow> Some (ts, ''['' @ name @ ''] '' @ txt))"

definition trim_newlines :: "string \<Rightarrow> string" where
  "trim_newlines s = rev (dropWhile (\<lambda>c. c = newline) (rev s))"

fun collect_logs :: "'s docker \<Rightarrow> nat \<Rightarrow> string list \<Rightarrow> 's \<Rightarrow> (string + (string \<times> string) list) \<times> 's" where
  "collect_logs D n [] s = (Inr [], s)"
| "collect_logs D n (c # cs) s =
     (case D [] [''logs'', ''--timestamps'', ''--tail'', nat_str n, c] [] s of (r, s1) \<Rightarrow>
        (case cr_error r of
           Some e \<Rightarrow> (Inl (''docker logs: '' @ e), s1)
         | None \<Rightarrow>
             (case dk_output D [''inspect'', ''--format'', ''{{.Name}}'', c] s1 of (nr, s2) \<Rightarrow>
                let name = (case nr of Inl _ \<Rightarrow> c | Inr out \<Rightarrow> drop_slash (trim_space out));
                    ls = List.map_filter (log_line name) (split_chr newline (trim_newlines (cr_both r))) in
                case collect_logs D n cs s2 of
                  (Inl e, s3) \<Rightarrow> (Inl e, s3) | (Inr rest, s3) \<Rightarrow> (Inr (ls @ rest), s3))))"

definition earlier :: "string \<times> string \<Rightarrow> string \<times> string \<Rightarrow> bool" where
  "earlier a b \<longleftrightarrow> ord.lexordp (\<lambda>x y. byte x < byte y) (fst a) (fst b)"

definition merged_logs :: "nat \<Rightarrow> (string \<times> string) list \<Rightarrow> (string \<times> string) list" where
  "merged_logs n ls = (let s = order_by earlier ls in drop (length s - n) s)"

definition dk_logs_of :: "'s docker \<Rightarrow> nat \<Rightarrow> string list \<Rightarrow> 's \<Rightarrow> (string + string) \<times> 's" where
  "dk_logs_of D n cs s =
     (case collect_logs D n cs s of
        (Inl e, s1) \<Rightarrow> (Inl e, s1)
      | (Inr ls, s1) \<Rightarrow> (Inr (text_lines (map (\<lambda>(ts, txt). ts @ '' '' @ txt) (merged_logs n ls))), s1))"

definition dk_project_logs :: "'s docker \<Rightarrow> string \<Rightarrow> nat \<Rightarrow> 's \<Rightarrow> (string + string) \<times> 's" where
  "dk_project_logs D project n s =
     (case project_ids D project s of
        (Inl e, s1) \<Rightarrow> (Inl e, s1) | (Inr ids, s1) \<Rightarrow> dk_logs_of D n (GoStd.fields ids) s1)"

definition dk_self_logs :: "'s docker \<Rightarrow> string \<Rightarrow> nat \<Rightarrow> 's \<Rightarrow> (string + string) \<times> 's" where
  "dk_self_logs D host n = dk_logs_of D n [host]"

lemma merged_logs_bound: "length (merged_logs n ls) \<le> n" "set (merged_logs n ls) \<subseteq> set ls"
  by (auto simp: merged_logs_def Let_def dest: in_set_dropD)

end
