(* ===== verification/Directory.thy ===== *)
theory Directory
  imports GoText "HOL-Library.AList"
begin

text \<open>
  The company directory (\<open>backend/internal/directory/ldap.go\<close>, \<open>groups.go\<close>): accounts and groups in an LDAP server.
  The server is not part of the program: its state is of any type \<open>'d\<close>, and what a bind, an addition, a
  modification, a deletion and a search do to it are the fields of the record \<open>ldap\<close>, together with the two functions
  of the client library the code uses on names.  A search does not change the server.
\<close>

section \<open>The server\<close>

type_synonym attrs = "(string \<times> string list) list"

datatype ldap_error = Already_exists | Ldap_failed string
datatype bind_result = Bound | Invalid_password | Bind_failed string

record 'd ldap =
  ld_bind :: "'d \<Rightarrow> string \<Rightarrow> string \<Rightarrow> bind_result"
  ld_add :: "string \<Rightarrow> attrs \<Rightarrow> 'd \<Rightarrow> (ldap_error + unit) \<times> 'd"
  ld_modify :: "string \<Rightarrow> attrs \<Rightarrow> 'd \<Rightarrow> (string + unit) \<times> 'd"
  ld_delete :: "string \<Rightarrow> 'd \<Rightarrow> (string + unit) \<times> 'd"
  ld_search :: "string \<Rightarrow> bool \<Rightarrow> string \<Rightarrow> 'd \<Rightarrow> string + attrs list"
  ld_escape :: "string \<Rightarrow> string"
  ld_first_value :: "string \<Rightarrow> string option"

record dir_client =
  dc_bind_dn :: string
  dc_password :: string
  dc_base :: string

text \<open>Running one fallible step after another, over a state.\<close>

definition and_then :: "('e + 'a) \<times> 's \<Rightarrow> ('a \<Rightarrow> 's \<Rightarrow> ('e + 'b) \<times> 's) \<Rightarrow> ('e + 'b) \<times> 's" where
  "and_then r k = (case r of (Inl e, s) \<Rightarrow> (Inl e, s) | (Inr a, s) \<Rightarrow> k a s)"

definition wrapped :: "string \<Rightarrow> (string + 'a) \<times> 's \<Rightarrow> (string + 'a) \<times> 's" where
  "wrapped msg r = (case r of (Inl e, s) \<Rightarrow> (Inl (msg @ '': '' @ e), s) | (Inr a, s) \<Rightarrow> (Inr a, s))"

lemma and_then_simps [simp]: "and_then (Inl e, s) k = (Inl e, s)" "and_then (Inr a, s) k = k a s"
  by (simp_all add: and_then_def)

lemma and_then_Inr: "and_then r k = (Inr b, s') \<Longrightarrow> \<exists>a s1. r = (Inr a, s1) \<and> k a s1 = (Inr b, s')"
  by (auto simp: and_then_def split: prod.splits sum.splits)

lemma wrapped_Inr [simp]: "wrapped msg r = (Inr a, s) \<longleftrightarrow> r = (Inr a, s)"
  by (auto simp: wrapped_def split: prod.splits sum.splits)

lemma snd_wrapped [simp]: "snd (wrapped msg r) = snd r"
  by (auto simp: wrapped_def split: prod.splits sum.splits)

definition attr_values :: "attrs \<Rightarrow> string \<Rightarrow> string list" where
  "attr_values e k = (case map_of e k of None \<Rightarrow> [] | Some vs \<Rightarrow> vs)"

definition attr_value :: "attrs \<Rightarrow> string \<Rightarrow> string" where
  "attr_value e k = (case attr_values e k of [] \<Rightarrow> [] | v # _ \<Rightarrow> v)"

section \<open>Names\<close>

definition people_ou :: "dir_client \<Rightarrow> string" where
  "people_ou c = ''ou=people,'' @ dc_base c"

definition person_dn :: "'d ldap \<Rightarrow> dir_client \<Rightarrow> string \<Rightarrow> string" where
  "person_dn L c username = ''uid='' @ ld_escape L username @ '','' @ people_ou c"

definition groups_ou :: "dir_client \<Rightarrow> string" where
  "groups_ou c = ''ou=groups,'' @ dc_base c"

definition group_dn :: "'d ldap \<Rightarrow> dir_client \<Rightarrow> string \<Rightarrow> string" where
  "group_dn L c name = ''cn='' @ ld_escape L name @ '','' @ groups_ou c"

section \<open>Connecting\<close>

definition ldap_connect :: "'d ldap \<Rightarrow> dir_client \<Rightarrow> 'd \<Rightarrow> (string + unit) \<times> 'd" where
  "ldap_connect L c d =
     (case ld_bind L d (dc_bind_dn c) (dc_password c) of
        Bound \<Rightarrow> (Inr (), d)
      | Invalid_password \<Rightarrow> (Inl ''bind: invalid credentials'', d)
      | Bind_failed e \<Rightarrow> (Inl (''bind: '' @ e), d))"

definition ensure_ou :: "'d ldap \<Rightarrow> string \<Rightarrow> string \<Rightarrow> string \<Rightarrow> 'd \<Rightarrow> (string + unit) \<times> 'd" where
  "ensure_ou L dn ou msg d =
     (case ld_add L dn [(''objectClass'', [''organizationalUnit'']), (''ou'', [ou])] d of
        (Inl (Ldap_failed e), d1) \<Rightarrow> (Inl (msg @ '': '' @ e), d1)
      | (Inl Already_exists, d1) \<Rightarrow> (Inr (), d1)
      | (Inr _, d1) \<Rightarrow> (Inr (), d1))"

definition ensure_people_ou :: "'d ldap \<Rightarrow> dir_client \<Rightarrow> 'd \<Rightarrow> (string + unit) \<times> 'd" where
  "ensure_people_ou L c = ensure_ou L (people_ou c) ''people'' ''ensure people OU''"

definition ensure_groups_ou :: "'d ldap \<Rightarrow> dir_client \<Rightarrow> 'd \<Rightarrow> (string + unit) \<times> 'd" where
  "ensure_groups_ou L c = ensure_ou L (groups_ou c) ''groups'' ''ensure groups OU''"

section \<open>Accounts\<close>

record dir_user =
  du_name :: string
  du_email :: string
  du_full :: string

definition user_of_entry :: "attrs \<Rightarrow> dir_user" where
  "user_of_entry e = \<lparr>du_name = attr_value e ''uid'', du_email = attr_value e ''mail'', du_full = attr_value e ''cn''\<rparr>"

definition list_people :: "'d ldap \<Rightarrow> dir_client \<Rightarrow> 'd \<Rightarrow> (string + dir_user list) \<times> 'd" where
  "list_people L c d =
     and_then (ldap_connect L c d) (\<lambda>_ d. and_then (ensure_people_ou L c d) (\<lambda>_ d.
       and_then (wrapped ''search users'' (ld_search L (people_ou c) True ''inetOrgPerson'' d, d)) (\<lambda>es d.
         (Inr (map user_of_entry es), d))))"

definition dir_verify_password :: "'d ldap \<Rightarrow> dir_client \<Rightarrow> 'd \<Rightarrow> string \<Rightarrow> string \<Rightarrow> string + bool" where
  "dir_verify_password L c d username password =
     (case ld_bind L d (person_dn L c username) password of
        Bound \<Rightarrow> Inr True
      | Invalid_password \<Rightarrow> Inr False
      | Bind_failed e \<Rightarrow> Inl (''bind: '' @ e))"

definition min_password_length :: nat where "min_password_length = 8"

definition validate_password :: "string \<Rightarrow> string + unit" where
  "validate_password pw =
     (if pw \<noteq> [] \<and> length pw < min_password_length then Inl ''password must be at least 8 characters'' else Inr ())"

text \<open>The bytes of the random source; \<open>None\<close> when it fails.\<close>

definition password_or_random :: "string option \<Rightarrow> string \<Rightarrow> string + string" where
  "password_or_random rnd pw =
     (if pw \<noteq> [] then Inr pw
      else case rnd of None \<Rightarrow> Inl ''generate password'' | Some bytes \<Rightarrow> Inr (hex_encode bytes))"

definition person_attrs :: "string \<Rightarrow> string \<Rightarrow> string \<Rightarrow> string \<Rightarrow> attrs" where
  "person_attrs username email name pw =
     (let n = (if name = [] then username else name) in
      [(''objectClass'', [''inetOrgPerson'']), (''uid'', [username]), (''cn'', [n]), (''sn'', [n])]
      @ (if email = [] then [] else [(''mail'', [email])]) @ [(''userPassword'', [pw])])"

definition ldap_error_text :: "ldap_error \<Rightarrow> string" where
  "ldap_error_text e = (case e of Already_exists \<Rightarrow> ''Entry Already Exists'' | Ldap_failed m \<Rightarrow> m)"

definition add_entry :: "'d ldap \<Rightarrow> string \<Rightarrow> string \<Rightarrow> attrs \<Rightarrow> 'd \<Rightarrow> (string + unit) \<times> 'd" where
  "add_entry L msg dn a d =
     (case ld_add L dn a d of
        (Inl e, d1) \<Rightarrow> (Inl (msg @ '': '' @ ldap_error_text e), d1)
      | (Inr _, d1) \<Rightarrow> (Inr (), d1))"

definition dir_create_user ::
  "'d ldap \<Rightarrow> dir_client \<Rightarrow> string option \<Rightarrow> string \<Rightarrow> string \<Rightarrow> string \<Rightarrow> string \<Rightarrow> 'd \<Rightarrow> (string + string) \<times> 'd" where
  "dir_create_user L c rnd username email name pw d =
     and_then (validate_password pw, d) (\<lambda>_ d.
       and_then (ldap_connect L c d) (\<lambda>_ d. and_then (ensure_people_ou L c d) (\<lambda>_ d.
         and_then (password_or_random rnd pw, d) (\<lambda>used d.
           and_then (add_entry L ''create user'' (person_dn L c username) (person_attrs username email name used) d) (\<lambda>_ d.
             (Inr used, d))))))"

definition dir_update_user :: "'d ldap \<Rightarrow> dir_client \<Rightarrow> string \<Rightarrow> string \<Rightarrow> string \<Rightarrow> 'd \<Rightarrow> (string + unit) \<times> 'd" where
  "dir_update_user L c username email name d =
     and_then (ldap_connect L c d) (\<lambda>_ d.
       let ch = (if name = [] then [] else [(''cn'', [name]), (''sn'', [name])]) @ (if email = [] then [] else [(''mail'', [email])]) in
       if ch = [] then (Inr (), d)
       else wrapped ''update user'' (ld_modify L (person_dn L c username) ch d))"

definition dir_reset_password ::
  "'d ldap \<Rightarrow> dir_client \<Rightarrow> string option \<Rightarrow> string \<Rightarrow> string \<Rightarrow> 'd \<Rightarrow> (string + string) \<times> 'd" where
  "dir_reset_password L c rnd username pw d =
     and_then (validate_password pw, d) (\<lambda>_ d. and_then (ldap_connect L c d) (\<lambda>_ d.
       and_then (password_or_random rnd pw, d) (\<lambda>used d.
         and_then (wrapped ''reset password'' (ld_modify L (person_dn L c username) [(''userPassword'', [used])] d)) (\<lambda>_ d.
           (Inr used, d)))))"

definition dir_delete_user :: "'d ldap \<Rightarrow> dir_client \<Rightarrow> string \<Rightarrow> 'd \<Rightarrow> (string + unit) \<times> 'd" where
  "dir_delete_user L c username d =
     and_then (ldap_connect L c d) (\<lambda>_ d. wrapped ''delete user'' (ld_delete L (person_dn L c username) d))"

section \<open>Groups\<close>

text \<open>A group is its name and the names of its members; the administrator's entry only fills an empty group.\<close>

definition usernames_from_dns :: "'d ldap \<Rightarrow> dir_client \<Rightarrow> string list \<Rightarrow> string list" where
  "usernames_from_dns L c dns = List.map_filter (\<lambda>dn. if dn = dc_bind_dn c then None else ld_first_value L dn) dns"

definition group_of_entry :: "'d ldap \<Rightarrow> dir_client \<Rightarrow> attrs \<Rightarrow> string \<times> string list" where
  "group_of_entry L c e = (attr_value e ''cn'', usernames_from_dns L c (attr_values e ''member''))"

definition list_groups :: "'d ldap \<Rightarrow> dir_client \<Rightarrow> 'd \<Rightarrow> (string + (string \<times> string list) list) \<times> 'd" where
  "list_groups L c d =
     and_then (ldap_connect L c d) (\<lambda>_ d. and_then (ensure_groups_ou L c d) (\<lambda>_ d.
       and_then (wrapped ''search groups'' (ld_search L (groups_ou c) True ''groupOfNames'' d, d)) (\<lambda>es d.
         (Inr (map (group_of_entry L c) es), d))))"

definition dir_create_group :: "'d ldap \<Rightarrow> dir_client \<Rightarrow> string \<Rightarrow> 'd \<Rightarrow> (string + unit) \<times> 'd" where
  "dir_create_group L c name d =
     and_then (ldap_connect L c d) (\<lambda>_ d. and_then (ensure_groups_ou L c d) (\<lambda>_ d.
       add_entry L ''create group'' (group_dn L c name)
         [(''objectClass'', [''groupOfNames'']), (''cn'', [name]), (''member'', [dc_bind_dn c])] d))"

definition dir_delete_group :: "'d ldap \<Rightarrow> dir_client \<Rightarrow> string \<Rightarrow> 'd \<Rightarrow> (string + unit) \<times> 'd" where
  "dir_delete_group L c name d =
     and_then (ldap_connect L c d) (\<lambda>_ d. wrapped ''delete group'' (ld_delete L (group_dn L c name) d))"

definition group_member_dns :: "'d ldap \<Rightarrow> dir_client \<Rightarrow> string \<Rightarrow> 'd \<Rightarrow> (string + string list) \<times> 'd" where
  "group_member_dns L c name d =
     and_then (wrapped (''read group '' @ name) (ld_search L (group_dn L c name) False ''groupOfNames'' d, d)) (\<lambda>es d.
       case es of [] \<Rightarrow> (Inl (''group '' @ quoted name @ '' not found''), d) | e # _ \<Rightarrow> (Inr (attr_values e ''member''), d))"

definition set_group_member_dns :: "'d ldap \<Rightarrow> dir_client \<Rightarrow> string \<Rightarrow> string list \<Rightarrow> 'd \<Rightarrow> (string + unit) \<times> 'd" where
  "set_group_member_dns L c name dns d =
     wrapped (''update group '' @ name)
       (ld_modify L (group_dn L c name) [(''member'', if dns = [] then [dc_bind_dn c] else dns)] d)"

definition add_user_to_group :: "'d ldap \<Rightarrow> dir_client \<Rightarrow> string \<Rightarrow> string \<Rightarrow> 'd \<Rightarrow> (string + unit) \<times> 'd" where
  "add_user_to_group L c username name d =
     and_then (ldap_connect L c d) (\<lambda>_ d. and_then (group_member_dns L c name d) (\<lambda>current d.
       let dn = person_dn L c username; kept = filter (\<lambda>x. x \<noteq> dc_bind_dn c) current in
       set_group_member_dns L c name (if dn \<in> set kept then kept else kept @ [dn]) d))"

definition remove_user_from_group :: "'d ldap \<Rightarrow> dir_client \<Rightarrow> string \<Rightarrow> string \<Rightarrow> 'd \<Rightarrow> (string + unit) \<times> 'd" where
  "remove_user_from_group L c username name d =
     and_then (ldap_connect L c d) (\<lambda>_ d. and_then (group_member_dns L c name d) (\<lambda>current d.
       set_group_member_dns L c name (filter (\<lambda>x. x \<noteq> person_dn L c username) current) d))"

lemmas directory_defs = list_people_def dir_create_user_def dir_update_user_def dir_reset_password_def dir_delete_user_def
  list_groups_def dir_create_group_def dir_delete_group_def group_member_dns_def set_group_member_dns_def
  add_user_to_group_def remove_user_from_group_def add_entry_def ensure_ou_def ldap_connect_def
  ensure_people_ou_def ensure_groups_ou_def

end
