(* ===== verification/OfficeNet.thy ===== *)
theory OfficeNet
  imports GoText "HOL-Library.Word"
begin

text \<open>
  The office network reachable over the VPN: which subnets the settings accept, the one the server is plugged
  into, and the list of allowed ports (\<open>backend/internal/api/officenetwork.go\<close>, \<open>officeports.go\<close>).  An IPv4 address
  is a word of 32 bits; IPv6 text is refused by every caller, so \<open>netip.ParsePrefix\<close> is modelled for IPv4 only.
\<close>

unbundle bit_operations_syntax

section \<open>Addresses and prefixes\<close>

type_synonym ipv4 = "32 word"
type_synonym prefix = "ipv4 \<times> nat"

definition of_octets :: "nat list \<Rightarrow> ipv4" where
  "of_octets os = foldl (\<lambda>w n. push_bit 8 w OR word_of_nat n) 0 os"

definition octets :: "ipv4 \<Rightarrow> nat list" where
  "octets a = map (\<lambda>n. unat (drop_bit n a AND 0xFF)) [24, 16, 8, 0]"

definition parse_octet :: "string \<Rightarrow> nat option" where
  "parse_octet s =
     (if s = [] \<or> \<not> list_all is_digit s \<or> (1 < length s \<and> hd s = CHR ''0'') \<or> 255 < digits_val 0 s then None
      else Some (digits_val 0 s))"

definition parse_ipv4 :: "string \<Rightarrow> ipv4 option" where
  "parse_ipv4 s =
     (let ps = map parse_octet (split_chr (CHR ''.'') s) in
      if length ps = 4 \<and> list_all (\<lambda>p. p \<noteq> None) ps then Some (of_octets (map the ps)) else None)"

definition parse_prefix :: "string \<Rightarrow> prefix option" where
  "parse_prefix s =
     (case cut_last (CHR ''/'') s of
        None \<Rightarrow> None
      | Some (a, b) \<Rightarrow>
          (case (parse_ipv4 a, atoi_opt b) of
             (Some ip, Some n) \<Rightarrow>
               if 1 < length b \<and> \<not> in_range 0x31 0x39 (hd b) \<or> n < 0 \<or> 32 < n then None else Some (ip, nat n)
           | _ \<Rightarrow> None))"

definition prefix_str :: "prefix \<Rightarrow> string" where
  "prefix_str p = join ''.'' (map nat_str (octets (fst p))) @ ''/'' @ nat_str (snd p)"

definition masked :: "prefix \<Rightarrow> prefix" where
  "masked p = (push_bit (32 - snd p) (drop_bit (32 - snd p) (fst p)), snd p)"

definition is_private :: "ipv4 \<Rightarrow> bool" where
  "is_private a \<longleftrightarrow> (let v = octets a in
     v ! 0 = 10 \<or> v ! 0 = 172 \<and> v ! 1 div 16 = 1 \<or> v ! 0 = 192 \<and> v ! 1 = 168)"

definition overlaps :: "prefix \<Rightarrow> prefix \<Rightarrow> bool" where
  "overlaps p q \<longleftrightarrow> (let n = min (snd p) (snd q) in n = 0 \<or> masked (fst p, n) = masked (fst q, n))"

definition contains_ip :: "prefix \<Rightarrow> ipv4 \<Rightarrow> bool" where
  "contains_ip p a \<longleftrightarrow> drop_bit (32 - snd p) a = drop_bit (32 - snd p) (fst p)"

section \<open>The office network\<close>

definition edge_network :: prefix where
  "edge_network = (of_octets [10, 201, 28, 0], 24)"

definition valid_office_network :: "string \<Rightarrow> prefix option" where
  "valid_office_network s =
     (case parse_prefix (trim_space s) of
        None \<Rightarrow> None
      | Some p \<Rightarrow>
          if \<not> is_private (fst p) \<or> snd p < 8 \<or> 30 < snd p then None
          else if overlaps (masked p) edge_network then None
          else Some (masked p))"

fun word_after_dev :: "string \<Rightarrow> string list \<Rightarrow> string" where
  "word_after_dev dev (x # y # r) = word_after_dev (if x = ''dev'' then y else dev) (y # r)"
| "word_after_dev dev _ = dev"

definition default_dev :: "string list \<Rightarrow> string" where
  "default_dev lines =
     (case find (\<lambda>l. let f = fields l in 5 \<le> length f \<and> hd f = ''default'') lines of
        None \<Rightarrow> []
      | Some l \<Rightarrow> word_after_dev [] (fields l))"

definition office_line :: "string \<Rightarrow> string \<Rightarrow> prefix option" where
  "office_line dev l =
     (let f = fields l in
      if length f < 3 \<or> CHR ''/'' \<notin> set (hd f) \<or> \<not> contains_text l (''dev '' @ dev @ '' '') then None
      else case parse_prefix (hd f) of
        None \<Rightarrow> None
      | Some p \<Rightarrow> if is_private (fst p) then Some (masked p) else None)"

definition parse_office_network :: "string \<Rightarrow> string" where
  "parse_office_network routes =
     (let lines = split_chr newline routes; dev = default_dev lines in
      if dev = [] then []
      else case List.map_filter (office_line dev) lines of [] \<Rightarrow> [] | p # _ \<Rightarrow> prefix_str p)"

section \<open>Allowed ports\<close>

record policy_rule =
  pr_protocol :: string
  pr_ports :: "string list"
  pr_ranges :: "(nat \<times> nat) list"

definition port_digits :: "string \<Rightarrow> bool" where
  "port_digits s \<longleftrightarrow> s \<noteq> [] \<and> length s \<le> 5 \<and> list_all is_digit s"

text \<open>\<open>officePortRe\<close>: the protocol and the two numbers of an entry, the second empty when missing; \<open>icmp\<close> has none.\<close>

definition match_port :: "string \<Rightarrow> (string \<times> string \<times> string) option" where
  "match_port item =
     (if item = ''icmp'' then Some ([], [], [])
      else case cut_chr (CHR ''/'') item of (p, r, slash) \<Rightarrow>
        case cut_chr (CHR ''-'') r of (a, b, dash) \<Rightarrow>
          if slash \<and> p \<in> {''tcp'', ''udp''} \<and> port_digits a \<and> (dash \<longrightarrow> port_digits b) then Some (p, a, b) else None)"

definition add_ports :: "nat \<Rightarrow> nat \<Rightarrow> policy_rule \<Rightarrow> policy_rule" where
  "add_ports s e r =
     (if s = e then r\<lparr>pr_ports := pr_ports r @ [nat_str s]\<rparr> else r\<lparr>pr_ranges := pr_ranges r @ [(s, e)]\<rparr>)"

text \<open>The error text leaves the quoted entry out.\<close>

fun scan_ports :: "(string \<Rightarrow> string) \<Rightarrow> policy_rule \<Rightarrow> policy_rule \<Rightarrow> bool \<Rightarrow> string list
    \<Rightarrow> string + (policy_rule \<times> policy_rule \<times> bool)" where
  "scan_ports other tcp udp icmp [] = Inr (tcp, udp, icmp)"
| "scan_ports other tcp udp icmp (x # xs) =
     (let item = to_lower other (trim_space x) in
      case match_port item of
        None \<Rightarrow> Inl ''isn't a port like tcp/445, udp/5000-5100 or icmp''
      | Some (p, a, b) \<Rightarrow>
          if item = ''icmp'' then scan_ports other tcp udp True xs
          else (let s = digits_val 0 a; e = (if b = [] then s else digits_val 0 b) in
            if s < 1 \<or> 65535 < e \<or> e < s then Inl ''has a port outside 1-65535''
            else if p = ''udp'' then scan_ports other tcp (add_ports s e udp) icmp xs
            else scan_ports other (add_ports s e tcp) udp icmp xs))"

definition no_ports :: "string \<Rightarrow> policy_rule" where
  "no_ports p = \<lparr>pr_protocol = p, pr_ports = [], pr_ranges = []\<rparr>"

definition parse_office_ports :: "(string \<Rightarrow> string) \<Rightarrow> string \<Rightarrow> string + policy_rule list" where
  "parse_office_ports other ports =
     (let list = trim_space ports in
      if list = [] then Inr [no_ports ''all'']
      else case scan_ports other (no_ports ''tcp'') (no_ports ''udp'') False (split_chr (CHR '','') list) of
        Inl e \<Rightarrow> Inl e
      | Inr (tcp, udp, icmp) \<Rightarrow>
          Inr (filter (\<lambda>r. pr_ports r \<noteq> [] \<or> pr_ranges r \<noteq> []) [tcp, udp] @ (if icmp then [no_ports ''icmp''] else [])))"

section \<open>Words\<close>

lemma octet_take: "unat (a AND 0xFF :: ipv4) = unat (take_bit 8 a)"
proof -
  have "(mask 8 :: ipv4) = 0xFF" by (simp add: mask_eq_exp_minus_1)
  then show ?thesis by (simp add: take_bit_eq_mask)
qed

lemma octets_take: "octets a = map (\<lambda>n. unat (take_bit 8 (drop_bit n a))) [24, 16, 8, 0]"
  unfolding octets_def octet_take ..

lemma of_octets_octets: "of_octets (octets a) = a"
proof (rule bit_word_eqI)
  fix n
  assume "n < LENGTH(32)"
  then consider "n < 8" | "8 \<le> n" "n < 16" | "16 \<le> n" "n < 24" | "24 \<le> n" "n < 32" by force
  then show "bit (of_octets (octets a)) n = bit a n"
    unfolding of_octets_def octets_take by cases (auto simp: bit_simps)
qed

lemma octet_less: "n \<in> set (octets a) \<Longrightarrow> n < 256"
proof -
  have "unat (take_bit 8 w :: ipv4) < 256" for w
    using take_bit_nat_less_exp [of 8 "unat w"] by (simp add: unsigned_take_bit_eq)
  then show "n \<in> set (octets a) \<Longrightarrow> n < 256" by (auto simp: octets_take)
qed

lemma nat_str_hd: "1 < length (nat_str n) \<Longrightarrow> hd (nat_str n) \<noteq> CHR ''0''"
proof (induction n rule: nat_str.induct)
  case (1 n)
  show ?case
  proof (cases "n < 100")
    case True
    then have "n div 10 < 10" by (simp add: less_mult_imp_div_less)
    then have "n < 10 \<or> nat_str n = [digit_chr (n div 10), digit_chr (n mod 10)]"
      by (simp add: nat_str.simps [of n] nat_str.simps [of "n div 10"])
    moreover have "digit_val (digit_chr (n div 10)) = n div 10" using True by (simp add: digit_chr_digit)
    ultimately show ?thesis using 1(2) by (auto simp: nat_str.simps [of n] digit_val_def)
  next
    case False
    then have "1 < length (nat_str (n div 10))" by (simp add: nat_str.simps [of "n div 10"])
    then show ?thesis using 1(1) False by (simp add: nat_str.simps [of n])
  qed
qed

lemma parse_octet_str: "n < 256 \<Longrightarrow> parse_octet (nat_str n) = Some n"
  using nat_str_hd [of n] by (auto simp: parse_octet_def list_all_iff nat_str_digits)

lemma digit_no: "is_digit c \<Longrightarrow> c \<noteq> CHR ''.'' \<and> c \<noteq> CHR ''/'' \<and> c \<noteq> CHR '','' \<and> c \<noteq> CHR ''-''"
  by (auto simp: is_digit_def)

lemma nat_str_plain: "CHR ''.'' \<notin> set (nat_str n) \<and> CHR ''/'' \<notin> set (nat_str n)"
  using digit_no nat_str_digits by blast

lemma parse_ipv4_str: "parse_ipv4 (join ''.'' (map nat_str (octets a))) = Some a"
proof -
  have s: "split_chr (CHR ''.'') (join ''.'' (map nat_str (octets a))) = map nat_str (octets a)"
    using nat_str_plain by (intro split_join) (auto simp: octets_def)
  have p: "map parse_octet (map nat_str (octets a)) = map Some (octets a)"
    using octet_less [of _ a] by (simp add: parse_octet_str)
  have "length (octets a) = 4" by (simp add: octets_def)
  then show ?thesis unfolding parse_ipv4_def s p Let_def by (simp add: list_all_iff comp_def of_octets_octets)
qed

lemma parse_prefix_str:
  assumes "snd p \<le> 32"
  shows "parse_prefix (prefix_str p) = Some p"
proof -
  have c: "cut_last (CHR ''/'') (prefix_str p) = Some (join ''.'' (map nat_str (octets (fst p))), nat_str (snd p))"
    unfolding prefix_str_def using nat_str_plain by (simp add: cut_last_append)
  obtain d r where s: "nat_str (snd p) = d # r" by (meson neq_Nil_conv nat_str_nonempty)
  have d: "is_digit d" using nat_str_digits [of d "snd p"] s by simp
  have n: "atoi_opt (nat_str (snd p)) = Some (int (snd p))"
    using s d digit_not_special [OF d] nat_str_digits [of _ "snd p"] digits_val_nat_str [of "snd p"]
    by (auto simp: atoi_opt_def atoi_digits_def list_all_iff)
  have z: "1 < length (nat_str (snd p)) \<Longrightarrow> in_range 0x31 0x39 (hd (nat_str (snd p)))"
  proof -
    assume "1 < length (nat_str (snd p))"
    then have "byte d \<noteq> 48" using nat_str_hd [of "snd p"] byte_inj [of d "CHR ''0''"] s by (simp add: byte_def)
    then show ?thesis using d s by (simp add: in_range_def is_digit_def byte_def)
  qed
  show ?thesis unfolding parse_prefix_def c option.case prod.case parse_ipv4_str n using assms z by simp
qed

section \<open>Which networks pass\<close>

lemma unat_drop: "unat (drop_bit n a :: ipv4) = unat a div 2 ^ n"
proof -
  have "unat a < 2 ^ 32" using unsigned_less [of a, where 'a = nat] by simp
  then have "take_bit 32 (unat a) = unat a" by (rule take_bit_nat_eq_self)
  then show ?thesis unfolding unsigned_drop_bit_eq by (simp add: drop_bit_eq_div)
qed

lemma unat_take8: "unat (take_bit 8 a :: ipv4) = unat a mod 256"
  unfolding unsigned_take_bit_eq by (simp add: take_bit_eq_mod)

lemma drop_eq_iff: "drop_bit n (a::ipv4) = b \<longleftrightarrow> unat a div 2 ^ n = unat b"
  by (metis unat_drop word_unat_eq_iff)

lemma div_mod_iff: "e = c \<longleftrightarrow> e div m = c div m \<and> e mod m = c mod (m::nat)"
  by (metis mult_div_mod_eq)

lemma private_drop: "is_private a \<longleftrightarrow> drop_bit 24 a = 10 \<or> drop_bit 20 a = 0xAC1 \<or> drop_bit 16 a = 0xC0A8"
proof -
  define d where "d = unat a div 65536"
  have "unat a < 2 ^ 32" using unsigned_less [of a] by simp
  then have small: "d < 65536" by (simp add: d_def less_mult_imp_div_less)
  have up: "unat a div 16777216 = d div 256" "unat a div 1048576 = d div 16"
    by (simp_all add: d_def div_mult2_eq [symmetric])
  have "octets a ! 0 = d div 256 mod 256" "octets a ! 1 = d mod 256"
    by (simp_all add: octets_take unat_take8 unat_drop up d_def)
  then have o: "octets a ! 0 = d div 256" "octets a ! 1 = d mod 256" using small by simp_all
  have "d mod 256 div 16 = d div 16 mod 16" using mod_mult2_eq [of d 16 16] by simp
  moreover have "d div 256 = d div 16 div 16" by (simp add: div_mult2_eq [symmetric])
  ultimately have 1: "d div 16 = 0xAC1 \<longleftrightarrow> d div 256 = 172 \<and> d mod 256 div 16 = 1"
    using div_mod_iff [of "d div 16" "0xAC1" 16] by simp
  have 2: "d = 0xC0A8 \<longleftrightarrow> d div 256 = 192 \<and> d mod 256 = 168" using div_mod_iff [of d "0xC0A8" 256] by simp
  show ?thesis
    unfolding is_private_def Let_def o drop_eq_iff by (auto simp: up d_def [symmetric] 1 2)
qed

lemma contains_shift:
  assumes "contains_ip p x" "32 - snd p \<le> k"
  shows "drop_bit k x = drop_bit k (fst p)"
proof -
  have "drop_bit k y = drop_bit (k - (32 - snd p)) (drop_bit (32 - snd p) y)" for y :: ipv4
    using assms(2) by simp
  then show ?thesis using assms(1) by (metis contains_ip_def)
qed

lemma drop_masked: "drop_bit (32 - snd p) (fst (masked p)) = drop_bit (32 - snd p) (fst p)"
  unfolding masked_def by (rule bit_word_eqI) (auto simp: bit_simps dest: bit_imp_le_length)

lemma contains_masked: "contains_ip (masked p) x \<longleftrightarrow> contains_ip p x"
  using drop_masked [of p] by (simp add: contains_ip_def masked_def)

lemma overlaps_contains:
  assumes "contains_ip p x" "contains_ip q x" "snd p \<le> 32" "snd q \<le> 32"
  shows "overlaps p q"
proof -
  let ?n = "min (snd p) (snd q)"
  have "drop_bit (32 - ?n) x = drop_bit (32 - ?n) (fst p)" by (rule contains_shift [OF assms(1)]) simp
  moreover have "drop_bit (32 - ?n) x = drop_bit (32 - ?n) (fst q)" by (rule contains_shift [OF assms(2)]) simp
  ultimately show ?thesis by (simp add: overlaps_def masked_def Let_def)
qed

text \<open>C18: The office network the settings accept contains the private address that was typed, has between 8 and 30
  prefix bits and no host bits, shares no address with the platform's own network, and is written so that it
  reads back the same; from 16 bits on it holds private addresses only.\<close>

theorem office_network_checked:
  assumes "valid_office_network s = Some p"
  shows "8 \<le> snd p \<and> snd p \<le> 30 \<and> masked p = p
    \<and> (\<exists>a. parse_prefix (trim_space s) = Some (a, snd p) \<and> is_private a \<and> contains_ip p a)
    \<and> (contains_ip p x \<longrightarrow> \<not> contains_ip edge_network x \<and> (16 \<le> snd p \<longrightarrow> is_private x))
    \<and> parse_prefix (prefix_str p) = Some p"
proof -
  obtain a n where a: "parse_prefix (trim_space s) = Some (a, n)" "is_private a" "8 \<le> n" "n \<le> 30"
    "\<not> overlaps (masked (a, n)) edge_network" "p = masked (a, n)"
    using assms by (auto simp: valid_office_network_def split: option.splits if_splits prod.splits)
  have n: "snd p = n" by (simp add: a(6) masked_def)
  have self: "contains_ip p a" by (simp add: a(6) contains_masked) (simp add: contains_ip_def)
  have idem: "masked p = p" using drop_masked [of "(a, n)"] by (simp add: a(6) masked_def)
  have edge: "\<not> contains_ip edge_network x" if "contains_ip p x"
    using overlaps_contains [OF that, of edge_network] a(4,5,6) n by (auto simp: edge_network_def)
  have priv: "is_private x" if "contains_ip p x" "16 \<le> n"
  proof -
    have "drop_bit k x = drop_bit k a" if "16 \<le> k" for k
      using contains_shift [OF \<open>contains_ip p x\<close>, of k] contains_shift [OF self, of k] that \<open>16 \<le> n\<close> n by simp
    then show ?thesis using a(2) by (simp add: private_drop)
  qed
  show ?thesis using a n self idem edge priv parse_prefix_str [of p] by auto
qed

text \<open>With fewer bits only the typed address is private: this network passes and holds a public address.\<close>

lemma public_office_network:
  "valid_office_network ''172.16.0.0/8'' = Some (0xAC000000, 8) \<and> contains_ip (0xAC000000, 8) 0xAC000001 \<and> \<not> is_private 0xAC000001"
  by code_simp

theorem office_network_checked_witness:
  "valid_office_network ''192.168.1.77/24'' = Some (0xC0A80100, 24) \<and> is_private 0xC0A80142
    \<and> parse_prefix (prefix_str (0xC0A80100, 24)) = Some (0xC0A80100, 24)"
proof -
  have v: "valid_office_network ''192.168.1.77/24'' = Some (0xC0A80100, 24)" by code_simp
  moreover have "contains_ip (0xC0A80100, 24) 0xC0A80142" by code_simp
  ultimately show ?thesis using office_network_checked [OF v, of "0xC0A80142"] by simp
qed

section \<open>Exactly the ports typed\<close>

text \<open>What the rules let through, as NetBird reads them: a rule without ports lets every port through.\<close>

definition rule_allows_port :: "policy_rule \<Rightarrow> string \<Rightarrow> nat \<Rightarrow> bool" where
  "rule_allows_port r proto n \<longleftrightarrow> pr_protocol r \<in> {''all'', proto}
     \<and> (pr_ports r = [] \<and> pr_ranges r = [] \<or> nat_str n \<in> set (pr_ports r) \<or> list_ex (\<lambda>(s, e). s \<le> n \<and> n \<le> e) (pr_ranges r))"

text \<open>What one entry asks for.\<close>

definition entry_asks :: "(string \<Rightarrow> string) \<Rightarrow> string \<Rightarrow> string \<Rightarrow> nat \<Rightarrow> bool" where
  "entry_asks other x proto n \<longleftrightarrow>
     (let item = to_lower other (trim_space x) in
      case match_port item of
        None \<Rightarrow> False
      | Some (p, a, b) \<Rightarrow> if item = ''icmp'' then proto = ''icmp''
          else proto = p \<and> digits_val 0 a \<le> n \<and> n \<le> digits_val 0 (if b = [] then a else b))"

definition opens :: "policy_rule \<Rightarrow> nat \<Rightarrow> bool" where
  "opens r n \<longleftrightarrow> nat_str n \<in> set (pr_ports r) \<or> list_ex (\<lambda>(s, e). s \<le> n \<and> n \<le> e) (pr_ranges r)"

lemma nat_str_eq [simp]: "nat_str m = nat_str n \<longleftrightarrow> m = n"
  by (metis digits_val_nat_str)

lemma opens_add: "s \<le> e \<Longrightarrow> opens (add_ports s e r) n \<longleftrightarrow> opens r n \<or> s \<le> n \<and> n \<le> e"
  by (auto simp: opens_def add_ports_def)

lemma match_port_proto: "match_port item = Some (p, a, b) \<Longrightarrow> item \<noteq> ''icmp'' \<Longrightarrow> p = ''tcp'' \<or> p = ''udp''"
  by (auto simp: match_port_def split: prod.splits if_splits)

lemma scan_ports_asks:
  "scan_ports other tcp udp icmp xs = Inr (tcp', udp', icmp') \<Longrightarrow>
     (opens tcp' n \<longleftrightarrow> opens tcp n \<or> (\<exists>x \<in> set xs. entry_asks other x ''tcp'' n))
   \<and> (opens udp' n \<longleftrightarrow> opens udp n \<or> (\<exists>x \<in> set xs. entry_asks other x ''udp'' n))
   \<and> (icmp' \<longleftrightarrow> icmp \<or> (\<exists>x \<in> set xs. entry_asks other x ''icmp'' n))
   \<and> pr_protocol tcp' = pr_protocol tcp \<and> pr_protocol udp' = pr_protocol udp"
proof (induction other tcp udp icmp xs rule: scan_ports.induct)
  case (2 other tcp udp icmp x xs)
  let ?item = "to_lower other (trim_space x)"
  obtain p a b where m: "match_port ?item = Some (p, a, b)" using 2(4) by (auto simp: Let_def split: option.splits)
  show ?case
  proof (cases "?item = ''icmp''")
    case True
    then show ?thesis using 2 m by (auto simp: Let_def entry_asks_def)
  next
    case False
    let ?s = "digits_val 0 a" and ?e = "digits_val 0 (if b = [] then a else b)"
    have ok: "?s \<le> ?e" using 2(4) m False by (auto simp: Let_def split: if_splits)
    have e: "(if b = [] then ?s else digits_val 0 b) = ?e" by simp
    have asks: "entry_asks other x q n \<longleftrightarrow> q = p \<and> ?s \<le> n \<and> n \<le> ?e" for q
      using m False by (simp add: entry_asks_def Let_def)
    have keep: "pr_protocol (add_ports ?s ?e r) = pr_protocol r" for r by (simp add: add_ports_def)
    show ?thesis
    proof (cases "p = ''udp''")
      case True
      then show ?thesis
        using 2(2) [OF refl m refl refl False refl e [symmetric]] 2(4) m False asks opens_add [OF ok] keep
        by (auto simp: Let_def split: if_splits)
    next
      case udp: False
      then have "p = ''tcp''" using match_port_proto [OF m False] by simp
      then show ?thesis
        using 2(3) [OF refl m refl refl False refl e [symmetric]] 2(4) m False asks opens_add [OF ok] keep udp
        by (auto simp: Let_def split: if_splits)
    qed
  qed
qed simp

text \<open>The rules sent to the VPN let through exactly what the entries of the list ask for: a port of TCP or UDP
  that lies in one of them, or ping when \<open>icmp\<close> is listed; one bad entry refuses the whole list.\<close>

theorem only_typed_ports:
  assumes "parse_office_ports other ports = Inr rules" "trim_space ports \<noteq> []" "proto \<in> {''tcp'', ''udp'', ''icmp''}"
  shows "list_ex (\<lambda>r. rule_allows_port r proto n) rules
    \<longleftrightarrow> list_ex (\<lambda>x. entry_asks other x proto n) (split_chr (CHR '','') (trim_space ports))"
proof -
  let ?xs = "split_chr (CHR '','') (trim_space ports)"
  obtain tcp udp icmp where s: "scan_ports other (no_ports ''tcp'') (no_ports ''udp'') False ?xs = Inr (tcp, udp, icmp)"
    and r: "rules = filter (\<lambda>r. pr_ports r \<noteq> [] \<or> pr_ranges r \<noteq> []) [tcp, udp] @ (if icmp then [no_ports ''icmp''] else [])"
    using assms(1,2) by (auto simp: parse_office_ports_def Let_def split: sum.splits)
  have a: "opens tcp n \<longleftrightarrow> (\<exists>x \<in> set ?xs. entry_asks other x ''tcp'' n)"
    "opens udp n \<longleftrightarrow> (\<exists>x \<in> set ?xs. entry_asks other x ''udp'' n)" "icmp \<longleftrightarrow> (\<exists>x \<in> set ?xs. entry_asks other x ''icmp'' n)"
    "pr_protocol tcp = ''tcp''" "pr_protocol udp = ''udp''"
    using scan_ports_asks [OF s, of n] by (auto simp: opens_def no_ports_def)
  have one: "(pr_ports q \<noteq> [] \<or> pr_ranges q \<noteq> []) \<and> rule_allows_port q proto n
      \<longleftrightarrow> (pr_protocol q = ''all'' \<or> pr_protocol q = proto) \<and> opens q n" for q
    by (auto simp: rule_allows_port_def opens_def)
  have "list_ex (\<lambda>r. rule_allows_port r proto n) rules
      \<longleftrightarrow> (\<exists>q \<in> {tcp, udp}. (pr_ports q \<noteq> [] \<or> pr_ranges q \<noteq> []) \<and> rule_allows_port q proto n) \<or> icmp \<and> proto = ''icmp''"
    by (auto simp: r list_ex_iff rule_allows_port_def no_ports_def)
  also have "\<dots> \<longleftrightarrow> proto = ''tcp'' \<and> opens tcp n \<or> proto = ''udp'' \<and> opens udp n \<or> icmp \<and> proto = ''icmp''"
    using one a(4,5) by auto
  also have "\<dots> \<longleftrightarrow> list_ex (\<lambda>x. entry_asks other x proto n) ?xs"
    using assms(3) by (elim insertE emptyE) (simp_all add: a(1-3) list_ex_iff)
  finally show ?thesis .
qed

theorem only_typed_ports_witness:
  "\<exists>rules. parse_office_ports (\<lambda>x. x) ''tcp/445,udp/20000-20999,icmp'' = Inr rules
    \<and> list_ex (\<lambda>r. rule_allows_port r ''udp'' 20500) rules \<and> \<not> list_ex (\<lambda>r. rule_allows_port r ''tcp'' 446) rules"
proof -
  let ?l = "''tcp/445,udp/20000-20999,icmp''" and ?o = "\<lambda>x :: string. x"
  have t: "trim_space ?l = ?l" "trim_space ''tcp/445'' = ''tcp/445''" "trim_space ''udp/20000-20999'' = ''udp/20000-20999''"
    "trim_space ''icmp'' = ''icmp''"
    by (simp_all add: trim_space_ascii ascii_def space_rune_def byte_def)
  have m: "match_port ''tcp/445'' = Some (''tcp'', ''445'', [])" "match_port ''icmp'' = Some ([], [], [])"
    "match_port ''udp/20000-20999'' = Some (''udp'', ''20000'', ''20999'')"
    by code_simp+
  have d: "digits_val 0 ''445'' = 445" "digits_val 0 ''20000'' = 20000" "digits_val 0 ''20999'' = 20999" by (simp_all add: digit_val_def)
  have l: "to_lower ?o ''tcp/445'' = ''tcp/445''" "to_lower ?o ''udp/20000-20999'' = ''udp/20000-20999''" "to_lower ?o ''icmp'' = ''icmp''"
    by (simp_all add: to_lower_def ascii_def lower_chr_def byte_def)
  have s: "split_chr (CHR '','') ?l = [''tcp/445'', ''udp/20000-20999'', ''icmp'']" by simp
  have p: "\<exists>rules. parse_office_ports ?o ?l = Inr rules"
    by (simp add: parse_office_ports_def t s m d l Let_def del: digits_val.simps)
  then obtain rules where r: "parse_office_ports ?o ?l = Inr rules" by blast
  have ne: "trim_space ?l \<noteq> []" by (simp add: t(1))
  note ask = entry_asks_def l t m d
  have "list_ex (\<lambda>r. rule_allows_port r ''udp'' 20500) rules" "\<not> list_ex (\<lambda>r. rule_allows_port r ''tcp'' 446) rules"
    using only_typed_ports [OF r ne, of "''udp''" 20500] only_typed_ports [OF r ne, of "''tcp''" 446]
    unfolding t(1) s by (simp_all add: ask Let_def del: digits_val.simps)
  with r show ?thesis by blast
qed

end
