(* ===== verification/NetBird.thy ===== *)
theory NetBird
  imports Directory OfficeNet
begin

text \<open>
  The client of NetBird's management API (\<open>backend/internal/netbird/client.go\<close>): every request it sends and how it
  reads the answer.  The management server is not part of the program: its state is of any type \<open>'n\<close> and its answer to
  a request, given as method, path, token and body, is the parameter of the client.  Bodies are JSON trees, so
  the printing and scanning of JSON text is left out; answers name each field once, spelled as in the source.
\<close>

section \<open>JSON\<close>

datatype json = J_null | J_bool bool | J_num int | J_str string | J_list "json list" | J_obj "(string \<times> json) list"

datatype answer_body = No_body | Not_json | Json json

type_synonym 'n nb_server = "string \<Rightarrow> string \<Rightarrow> string \<Rightarrow> json option \<Rightarrow> 'n \<Rightarrow> (string + nat \<times> answer_body) \<times> 'n"

text \<open>Decoding into a Go value: what is missing or null leaves the zero value, another kind of value is an error.\<close>

fun dec_str :: "json \<Rightarrow> string option" where
  "dec_str (J_str s) = Some s"
| "dec_str J_null = Some []"
| "dec_str _ = None"

fun dec_bool :: "json \<Rightarrow> bool option" where
  "dec_bool (J_bool b) = Some b"
| "dec_bool J_null = Some False"
| "dec_bool _ = None"

fun all_some :: "'a option list \<Rightarrow> 'a list option" where
  "all_some [] = Some []"
| "all_some (None # xs) = None"
| "all_some (Some x # xs) = map_option (\<lambda>ys. x # ys) (all_some xs)"

fun dec_list :: "(json \<Rightarrow> 'a option) \<Rightarrow> json \<Rightarrow> 'a list option" where
  "dec_list dec (J_list xs) = all_some (map dec xs)"
| "dec_list dec J_null = Some []"
| "dec_list dec _ = None"

fun dec_fields :: "json \<Rightarrow> (string \<times> json) list option" where
  "dec_fields (J_obj fs) = Some fs"
| "dec_fields J_null = Some []"
| "dec_fields _ = None"

definition field_of :: "(string \<times> json) list \<Rightarrow> string \<Rightarrow> json" where
  "field_of fs k = (case map_of fs k of None \<Rightarrow> J_null | Some v \<Rightarrow> v)"

section \<open>Values\<close>

record nb_group =
  ng_id :: string
  ng_name :: string
  ng_peers :: "string list"

record nb_peer =
  np_id :: string
  np_hostname :: string
  np_name :: string
  np_ip :: string
  np_connected :: bool
  np_last_seen :: string
  np_os :: string
  np_groups :: "nb_group list"

record nb_route =
  nr_id :: string
  nr_network_id :: string
  nr_network :: string
  nr_peer :: string
  nr_groups :: "string list"

text \<open>Two-field answers: a policy or network (id, name), a key (id, key), a login (id, password), a router (id, peer),
  a resource (id, address).\<close>

definition dec_pair :: "string \<Rightarrow> json \<Rightarrow> (string \<times> string) option" where
  "dec_pair second_key j =
     (case dec_fields j of
        None \<Rightarrow> None
      | Some fs \<Rightarrow>
          (case (dec_str (field_of fs ''id''), dec_str (field_of fs second_key)) of
             (Some a, Some b) \<Rightarrow> Some (a, b)
           | _ \<Rightarrow> None))"

definition dec_peer_id :: "json \<Rightarrow> string option" where
  "dec_peer_id j = (case dec_fields j of None \<Rightarrow> None | Some fs \<Rightarrow> dec_str (field_of fs ''id''))"

definition dec_group :: "json \<Rightarrow> nb_group option" where
  "dec_group j =
     (case dec_fields j of
        None \<Rightarrow> None
      | Some fs \<Rightarrow>
          (case (dec_str (field_of fs ''id''), dec_str (field_of fs ''name''), dec_list dec_peer_id (field_of fs ''peers'')) of
             (Some i, Some n, Some ps) \<Rightarrow> Some \<lparr>ng_id = i, ng_name = n, ng_peers = ps\<rparr>
           | _ \<Rightarrow> None))"

definition dec_peer :: "json \<Rightarrow> nb_peer option" where
  "dec_peer j =
     (case dec_fields j of
        None \<Rightarrow> None
      | Some fs \<Rightarrow>
          (case (all_some (map (\<lambda>k. dec_str (field_of fs k)) [''id'', ''hostname'', ''name'', ''ip'', ''last_seen'', ''os'']),
              dec_bool (field_of fs ''connected''), dec_list dec_group (field_of fs ''groups'')) of
             (Some [i, h, n, ip, seen, os], Some c, Some gs) \<Rightarrow>
               Some \<lparr>np_id = i, np_hostname = h, np_name = n, np_ip = ip, np_connected = c, np_last_seen = seen, np_os = os,
                 np_groups = gs\<rparr>
           | _ \<Rightarrow> None))"

definition dec_route :: "json \<Rightarrow> nb_route option" where
  "dec_route j =
     (case dec_fields j of
        None \<Rightarrow> None
      | Some fs \<Rightarrow>
          (case (all_some (map (\<lambda>k. dec_str (field_of fs k)) [''id'', ''network_id'', ''network'', ''peer'']),
              dec_list dec_str (field_of fs ''groups'')) of
             (Some [i, nid, net, p], Some gs) \<Rightarrow>
               Some \<lparr>nr_id = i, nr_network_id = nid, nr_network = net, nr_peer = p, nr_groups = gs\<rparr>
           | _ \<Rightarrow> None))"

section \<open>Requests\<close>

definition nb_do ::
  "'n nb_server \<Rightarrow> string \<Rightarrow> string \<Rightarrow> string \<Rightarrow> json option \<Rightarrow> 'n \<Rightarrow> (string + answer_body) \<times> 'n" where
  "nb_do S tok meth path body n =
     (case S meth path tok body n of
        (Inl e, n1) \<Rightarrow> (Inl (''request '' @ meth @ '' '' @ path @ '': '' @ e), n1)
      | (Inr (status, b), n1) \<Rightarrow>
          if status < 200 \<or> 300 \<le> status
          then (Inl (''netbird API '' @ meth @ '' '' @ path @ '': '' @ nat_str status), n1)
          else (Inr b, n1))"

text \<open>An empty answer leaves the zero value, which is what \<open>null\<close> decodes to.\<close>

definition nb_read :: "(json \<Rightarrow> 'a option) \<Rightarrow> (string + answer_body) \<times> 'n \<Rightarrow> (string + 'a) \<times> 'n" where
  "nb_read dec r = and_then r (\<lambda>b n.
     case (case b of No_body \<Rightarrow> dec J_null | Not_json \<Rightarrow> None | Json j \<Rightarrow> dec j) of
       None \<Rightarrow> (Inl ''decode response'', n)
     | Some a \<Rightarrow> (Inr a, n))"

definition nb_done :: "(string + answer_body) \<times> 'n \<Rightarrow> (string + unit) \<times> 'n" where
  "nb_done r = and_then r (\<lambda>_ n. (Inr (), n))"

definition nb_list :: "'n nb_server \<Rightarrow> string \<Rightarrow> string \<Rightarrow> string \<Rightarrow> (json \<Rightarrow> 'a option) \<Rightarrow> 'n \<Rightarrow> (string + 'a list) \<times> 'n" where
  "nb_list S tok msg path dec n = wrapped msg (nb_read (dec_list dec) (nb_do S tok ''GET'' path None n))"

definition nb_delete :: "'n nb_server \<Rightarrow> string \<Rightarrow> string \<Rightarrow> string \<Rightarrow> 'n \<Rightarrow> (string + unit) \<times> 'n" where
  "nb_delete S tok msg path n = wrapped msg (nb_done (nb_do S tok ''DELETE'' path None n))"

abbreviation strings :: "string list \<Rightarrow> json" where "strings xs \<equiv> J_list (map J_str xs)"

definition nb_setup :: "'n nb_server \<Rightarrow> string \<Rightarrow> string \<Rightarrow> string \<Rightarrow> 'n \<Rightarrow> (string + string) \<times> 'n" where
  "nb_setup S email password name n =
     nb_read (\<lambda>j. case dec_fields j of None \<Rightarrow> None | Some fs \<Rightarrow> dec_str (field_of fs ''personal_access_token''))
       (nb_do S [] ''POST'' ''/api/setup'' (Some (J_obj [(''email'', J_str email), (''password'', J_str password), (''name'', J_str name),
         (''create_pat'', J_bool True), (''pat_expire_in'', J_num 365)])) n)"

definition setup_key_lifetime :: int where "setup_key_lifetime = 24 * 60 * 60"

definition create_key_of ::
  "'n nb_server \<Rightarrow> string \<Rightarrow> string \<Rightarrow> string list \<Rightarrow> string \<Rightarrow> int \<Rightarrow> int \<Rightarrow> 'n \<Rightarrow> (string + string \<times> string) \<times> 'n" where
  "create_key_of S tok name groups kind ttl limit n =
     wrapped ''create setup key'' (nb_read (dec_pair ''key'') (nb_do S tok ''POST'' ''/api/setup-keys''
       (Some (J_obj [(''name'', J_str name), (''type'', J_str kind), (''expires_in'', J_num ttl),
         (''auto_groups'', strings groups), (''usage_limit'', J_num limit)])) n))"

definition create_setup_key :: "'n nb_server \<Rightarrow> string \<Rightarrow> string \<Rightarrow> string list \<Rightarrow> 'n \<Rightarrow> (string + string \<times> string) \<times> 'n" where
  "create_setup_key S tok name groups = create_key_of S tok name groups ''one-off'' setup_key_lifetime 1"

definition create_reusable_key :: "'n nb_server \<Rightarrow> string \<Rightarrow> string \<Rightarrow> string list \<Rightarrow> 'n \<Rightarrow> (string + string \<times> string) \<times> 'n" where
  "create_reusable_key S tok name groups = create_key_of S tok name groups ''reusable'' (30 * 24 * 60 * 60) 0"

definition delete_setup_key :: "'n nb_server \<Rightarrow> string \<Rightarrow> string \<Rightarrow> 'n \<Rightarrow> (string + unit) \<times> 'n" where
  "delete_setup_key S tok i = nb_delete S tok ''delete setup key'' (''/api/setup-keys/'' @ i)"

definition delete_peer :: "'n nb_server \<Rightarrow> string \<Rightarrow> string \<Rightarrow> 'n \<Rightarrow> (string + unit) \<times> 'n" where
  "delete_peer S tok i = nb_delete S tok ''delete peer'' (''/api/peers/'' @ i)"

definition list_peers :: "'n nb_server \<Rightarrow> string \<Rightarrow> 'n \<Rightarrow> (string + nb_peer list) \<times> 'n" where
  "list_peers S tok = nb_list S tok ''list peers'' ''/api/peers'' dec_peer"

definition nb_create_group :: "'n nb_server \<Rightarrow> string \<Rightarrow> string \<Rightarrow> 'n \<Rightarrow> (string + nb_group) \<times> 'n" where
  "nb_create_group S tok name n =
     wrapped ''create group'' (nb_read dec_group (nb_do S tok ''POST'' ''/api/groups'' (Some (J_obj [(''name'', J_str name)])) n))"

definition nb_delete_group :: "'n nb_server \<Rightarrow> string \<Rightarrow> string \<Rightarrow> 'n \<Rightarrow> (string + unit) \<times> 'n" where
  "nb_delete_group S tok i = nb_delete S tok ''delete group'' (''/api/groups/'' @ i)"

definition nb_list_groups :: "'n nb_server \<Rightarrow> string \<Rightarrow> 'n \<Rightarrow> (string + nb_group list) \<times> 'n" where
  "nb_list_groups S tok = nb_list S tok ''list groups'' ''/api/groups'' dec_group"

definition set_group_peers :: "'n nb_server \<Rightarrow> string \<Rightarrow> nb_group \<Rightarrow> string list \<Rightarrow> 'n \<Rightarrow> (string + unit) \<times> 'n" where
  "set_group_peers S tok g ids n =
     wrapped ''update group'' (nb_done (nb_do S tok ''PUT'' (''/api/groups/'' @ ng_id g)
       (Some (J_obj [(''name'', J_str (ng_name g)), (''peers'', strings ids)])) n))"

definition add_peer_to_group :: "'n nb_server \<Rightarrow> string \<Rightarrow> string \<Rightarrow> string \<Rightarrow> 'n \<Rightarrow> (string + unit) \<times> 'n" where
  "add_peer_to_group S tok gid pid n =
     and_then (wrapped ''get group'' (nb_read dec_group (nb_do S tok ''GET'' (''/api/groups/'' @ gid) None n))) (\<lambda>g n.
       if pid \<in> set (ng_peers g) then (Inr (), n) else set_group_peers S tok g (ng_peers g @ [pid]) n)"

definition add_all_peers_to_group :: "'n nb_server \<Rightarrow> string \<Rightarrow> nb_group \<Rightarrow> 'n \<Rightarrow> (string + unit) \<times> 'n" where
  "add_all_peers_to_group S tok g n =
     and_then (list_peers S tok n) (\<lambda>ps n. set_group_peers S tok g (map np_id ps) n)"

definition list_policies :: "'n nb_server \<Rightarrow> string \<Rightarrow> 'n \<Rightarrow> (string + (string \<times> string) list) \<times> 'n" where
  "list_policies S tok = nb_list S tok ''list policies'' ''/api/policies'' (dec_pair ''name'')"

definition delete_policy :: "'n nb_server \<Rightarrow> string \<Rightarrow> string \<Rightarrow> 'n \<Rightarrow> (string + unit) \<times> 'n" where
  "delete_policy S tok i = nb_delete S tok ''delete policy'' (''/api/policies/'' @ i)"

definition allow_policy_body :: "string \<Rightarrow> string \<Rightarrow> json" where
  "allow_policy_body name gid =
     J_obj [(''name'', J_str name), (''enabled'', J_bool True), (''rules'', J_list [J_obj
       [(''name'', J_str name), (''enabled'', J_bool True), (''action'', J_str ''accept''), (''bidirectional'', J_bool True),
        (''protocol'', J_str ''all''), (''sources'', strings [gid]), (''destinations'', strings [gid])]])]"

definition create_allow_policy :: "'n nb_server \<Rightarrow> string \<Rightarrow> string \<Rightarrow> string \<Rightarrow> 'n \<Rightarrow> (string + unit) \<times> 'n" where
  "create_allow_policy S tok name gid n =
     wrapped ''create policy'' (nb_done (nb_do S tok ''POST'' ''/api/policies'' (Some (allow_policy_body name gid)) n))"

definition list_routes :: "'n nb_server \<Rightarrow> string \<Rightarrow> 'n \<Rightarrow> (string + nb_route list) \<times> 'n" where
  "list_routes S tok = nb_list S tok ''list routes'' ''/api/routes'' dec_route"

definition delete_route :: "'n nb_server \<Rightarrow> string \<Rightarrow> string \<Rightarrow> 'n \<Rightarrow> (string + unit) \<times> 'n" where
  "delete_route S tok i = nb_delete S tok ''delete route'' (''/api/routes/'' @ i)"

definition create_route ::
  "'n nb_server \<Rightarrow> string \<Rightarrow> string \<Rightarrow> string \<Rightarrow> string \<Rightarrow> string \<Rightarrow> string \<Rightarrow> 'n \<Rightarrow> (string + unit) \<times> 'n" where
  "create_route S tok nid net description pid gid n =
     nb_done (nb_do S tok ''POST'' ''/api/routes'' (Some (J_obj [(''network'', J_str net), (''peer'', J_str pid),
       (''description'', J_str description), (''network_id'', J_str nid), (''masquerade'', J_bool True), (''enabled'', J_bool True),
       (''metric'', J_num 100), (''groups'', strings [gid])])) n)"

text \<open>The settings of the first account, sent back with one changed; without settings in the answer the assignment
  to a nil map panics.\<close>

definition dec_account :: "json \<Rightarrow> (string \<times> (string \<times> json) list option) option" where
  "dec_account j =
     (case dec_fields j of
        None \<Rightarrow> None
      | Some fs \<Rightarrow>
          (case (dec_str (field_of fs ''id''), dec_fields (field_of fs ''settings'')) of
             (Some i, Some settings) \<Rightarrow> Some (i, if field_of fs ''settings'' = J_null then None else Some settings)
           | _ \<Rightarrow> None))"

definition the_settings :: "(string \<times> json) list option \<Rightarrow> (string \<times> json) list" where
  "the_settings s = (case s of None \<Rightarrow> [] | Some fs \<Rightarrow> fs)"

definition set_local_mfa :: "'n nb_server \<Rightarrow> string \<Rightarrow> bool \<Rightarrow> 'n \<Rightarrow> (string + unit) \<times> 'n" where
  "set_local_mfa S tok on n =
     and_then (nb_list S tok ''get account'' ''/api/accounts'' dec_account n) (\<lambda>accounts n.
       case accounts of
         [] \<Rightarrow> (Inl ''get account: none found'', n)
       | (i, settings) # _ \<Rightarrow>
           if (field_of (the_settings settings) ''local_mfa_enabled'' = J_bool True) = on then (Inr (), n)
           else case settings of
             None \<Rightarrow> (Inl ''assignment to entry in nil map'', n)
           | Some fs \<Rightarrow> wrapped ''update account'' (nb_done (nb_do S tok ''PUT'' (''/api/accounts/'' @ i)
               (Some (J_obj [(''settings'', J_obj (AList.update ''local_mfa_enabled'' (J_bool on) fs))])) n)))"

definition create_local_user ::
  "'n nb_server \<Rightarrow> string \<Rightarrow> string \<Rightarrow> string \<Rightarrow> string list \<Rightarrow> 'n \<Rightarrow> (string + string \<times> string) \<times> 'n" where
  "create_local_user S tok email name groups n =
     wrapped ''create user'' (nb_read (dec_pair ''password'') (nb_do S tok ''POST'' ''/api/users''
       (Some (J_obj [(''email'', J_str email), (''name'', J_str name), (''role'', J_str ''user''), (''auto_groups'', strings groups),
         (''is_service_user'', J_bool False)])) n))"

definition nb_delete_user :: "'n nb_server \<Rightarrow> string \<Rightarrow> string \<Rightarrow> 'n \<Rightarrow> (string + unit) \<times> 'n" where
  "nb_delete_user S tok i = nb_delete S tok ''delete user'' (''/api/users/'' @ i)"

section \<open>Networks and port rules\<close>

definition list_networks :: "'n nb_server \<Rightarrow> string \<Rightarrow> 'n \<Rightarrow> (string + (string \<times> string) list) \<times> 'n" where
  "list_networks S tok = nb_list S tok ''list networks'' ''/api/networks'' (dec_pair ''name'')"

definition create_network :: "'n nb_server \<Rightarrow> string \<Rightarrow> string \<Rightarrow> 'n \<Rightarrow> (string + string \<times> string) \<times> 'n" where
  "create_network S tok name n =
     wrapped ''create network'' (nb_read (dec_pair ''name'') (nb_do S tok ''POST'' ''/api/networks'' (Some (J_obj [(''name'', J_str name)])) n))"

definition delete_network :: "'n nb_server \<Rightarrow> string \<Rightarrow> string \<Rightarrow> 'n \<Rightarrow> (string + unit) \<times> 'n" where
  "delete_network S tok i = nb_delete S tok ''delete network'' (''/api/networks/'' @ i)"

definition routers_path :: "string \<Rightarrow> string" where "routers_path net = ''/api/networks/'' @ net @ ''/routers''"
definition resources_path :: "string \<Rightarrow> string" where "resources_path net = ''/api/networks/'' @ net @ ''/resources''"

definition list_routers :: "'n nb_server \<Rightarrow> string \<Rightarrow> string \<Rightarrow> 'n \<Rightarrow> (string + (string \<times> string) list) \<times> 'n" where
  "list_routers S tok net = nb_list S tok ''list routers'' (routers_path net) (dec_pair ''peer'')"

definition create_router :: "'n nb_server \<Rightarrow> string \<Rightarrow> string \<Rightarrow> string \<Rightarrow> 'n \<Rightarrow> (string + unit) \<times> 'n" where
  "create_router S tok net pid n =
     wrapped ''create router'' (nb_done (nb_do S tok ''POST'' (routers_path net) (Some (J_obj [(''peer'', J_str pid),
       (''metric'', J_num 100), (''masquerade'', J_bool True), (''enabled'', J_bool True)])) n))"

definition delete_router :: "'n nb_server \<Rightarrow> string \<Rightarrow> string \<Rightarrow> string \<Rightarrow> 'n \<Rightarrow> (string + unit) \<times> 'n" where
  "delete_router S tok net i = nb_delete S tok ''delete router'' (routers_path net @ ''/'' @ i)"

definition list_resources :: "'n nb_server \<Rightarrow> string \<Rightarrow> string \<Rightarrow> 'n \<Rightarrow> (string + (string \<times> string) list) \<times> 'n" where
  "list_resources S tok net = nb_list S tok ''list resources'' (resources_path net) (dec_pair ''address'')"

definition create_resource ::
  "'n nb_server \<Rightarrow> string \<Rightarrow> string \<Rightarrow> string \<Rightarrow> string \<Rightarrow> string list \<Rightarrow> 'n \<Rightarrow> (string + unit) \<times> 'n" where
  "create_resource S tok net name address groups n =
     wrapped ''create resource'' (nb_done (nb_do S tok ''POST'' (resources_path net) (Some (J_obj [(''name'', J_str name),
       (''address'', J_str address), (''enabled'', J_bool True), (''groups'', strings groups)])) n))"

definition delete_resource :: "'n nb_server \<Rightarrow> string \<Rightarrow> string \<Rightarrow> string \<Rightarrow> 'n \<Rightarrow> (string + unit) \<times> 'n" where
  "delete_resource S tok net i = nb_delete S tok ''delete resource'' (resources_path net @ ''/'' @ i)"

definition rule_body :: "string \<Rightarrow> string \<Rightarrow> string \<Rightarrow> policy_rule \<Rightarrow> json" where
  "rule_body name src dst r =
     J_obj [(''name'', J_str name), (''enabled'', J_bool True), (''rules'', J_list [J_obj
       ([(''name'', J_str name), (''enabled'', J_bool True), (''action'', J_str ''accept''), (''bidirectional'', J_bool False),
         (''protocol'', J_str (pr_protocol r)), (''sources'', strings [src]), (''destinations'', strings [dst])]
        @ (if pr_ports r = [] then [] else [(''ports'', strings (pr_ports r))])
        @ (if pr_ranges r = [] then []
           else [(''port_ranges'', J_list (map (\<lambda>(s, e). J_obj [(''start'', J_num (int s)), (''end'', J_num (int e))]) (pr_ranges r)))]))])]"

fun each_step :: "('a \<Rightarrow> 's \<Rightarrow> (string + unit) \<times> 's) \<Rightarrow> 'a list \<Rightarrow> 's \<Rightarrow> (string + unit) \<times> 's" where
  "each_step g [] s = (Inr (), s)"
| "each_step g (x # xs) s = and_then (g x s) (\<lambda>_ s. each_step g xs s)"

definition rule_name :: "string \<Rightarrow> nat \<Rightarrow> string" where
  "rule_name pre i = pre @ '' '' @ nat_str (i + 1)"

definition delete_policies_with_prefix :: "'n nb_server \<Rightarrow> string \<Rightarrow> string \<Rightarrow> string set \<Rightarrow> 'n \<Rightarrow> (string + unit) \<times> 'n" where
  "delete_policies_with_prefix S tok pre keep n =
     and_then (list_policies S tok n) (\<lambda>ps n.
       each_step (\<lambda>(i, name) n. delete_policy S tok i n) (filter (\<lambda>(i, name). has_prefix name (pre @ '' '') \<and> name \<notin> keep) ps) n)"

text \<open>The policy of one rule is replaced when one of that name exists (the last one listed), else made.\<close>

definition put_rule ::
  "'n nb_server \<Rightarrow> string \<Rightarrow> (string \<times> string) list \<Rightarrow> string \<Rightarrow> string \<Rightarrow> string \<Rightarrow> nat \<times> policy_rule \<Rightarrow> 'n \<Rightarrow> (string + unit) \<times> 'n" where
  "put_rule S tok existing pre src dst ir n =
     (let name = rule_name pre (fst ir); body = Some (rule_body name src dst (snd ir)) in
      case find (\<lambda>p. snd p = name) (rev existing) of
        Some (i, _) \<Rightarrow> wrapped ''update policy'' (nb_done (nb_do S tok ''PUT'' (''/api/policies/'' @ i) body n))
      | None \<Rightarrow> wrapped ''create policy'' (nb_done (nb_do S tok ''POST'' ''/api/policies'' body n)))"

definition set_rule_policies ::
  "'n nb_server \<Rightarrow> string \<Rightarrow> string \<Rightarrow> string \<Rightarrow> string \<Rightarrow> policy_rule list \<Rightarrow> 'n \<Rightarrow> (string + unit) \<times> 'n" where
  "set_rule_policies S tok pre src dst rules n =
     and_then (list_policies S tok n) (\<lambda>existing n.
       and_then (each_step (put_rule S tok existing pre src dst) (enumerate 0 rules) n) (\<lambda>_ n.
         delete_policies_with_prefix S tok pre (set (map (rule_name pre) [0..<length rules])) n))"

end
