(* ===== verification/FileShare.thy ===== *)
theory FileShare
  imports Directory Installer
begin

text \<open>
  The logins of the file share and the calendar server, kept in files of their volumes (\<open>backend/internal/webdavfs\<close>,
  \<open>backend/internal/radicalefs/sync.go\<close>).  A volume is the list of its files; reading and writing one and restarting a
  container can fail.  The YAML codec, bcrypt, the order in which Go walks a map, and the answers of the two servers
  are parameters.
\<close>

section \<open>Volumes\<close>

type_synonym volumes = "((string \<times> string) \<times> string) list"

definition read_volume_file :: "faults \<Rightarrow> string \<Rightarrow> string \<Rightarrow> volumes \<Rightarrow> string + string" where
  "read_volume_file f volume path v =
     (if f (''read '' @ volume) then Inl ''read''
      else case map_of v (volume, path) of None \<Rightarrow> Inl ''no such file'' | Some content \<Rightarrow> Inr content)"

definition write_volume_file :: "faults \<Rightarrow> string \<Rightarrow> string \<Rightarrow> string \<Rightarrow> volumes \<Rightarrow> (string + unit) \<times> volumes" where
  "write_volume_file f volume path content v =
     (if f (''write '' @ volume) then (Inl ''write'', v) else (Inr (), AList.update (volume, path) content v))"

definition restart_container :: "faults \<Rightarrow> string \<Rightarrow> volumes \<Rightarrow> (string + unit) \<times> volumes" where
  "restart_container f container v = (if f (''restart '' @ container) then Inl ''restart'' else Inr (), v)"

section \<open>The file share\<close>

type_synonym share_rule = "string \<times> string"

record share_user =
  su_name :: string
  su_password :: string
  su_perm :: string
  su_rules :: "share_rule list"

record share_config =
  sc_address :: string
  sc_port :: int
  sc_tls :: bool
  sc_prefix :: string
  sc_proxy :: bool
  sc_directory :: string
  sc_perm :: string
  sc_users :: "share_user list"

record share_env =
  se_faults :: faults
  se_parse :: "string \<Rightarrow> string + share_config"
  se_print :: "share_config \<Rightarrow> string + string"
  se_bcrypt :: "string \<Rightarrow> string option"

text \<open>\<open>groupOf\<close>: a map from user names to group names, absent keys reading as the empty name.\<close>

type_synonym group_map = "(string \<times> string) list"

definition group_of :: "group_map \<Rightarrow> string \<Rightarrow> string" where
  "group_of m u = (case map_of m u of None \<Rightarrow> [] | Some g \<Rightarrow> g)"

definition shared_folder :: string where "shared_folder = ''shared''"

definition folder :: "string \<Rightarrow> string" where
  "folder n = ''/'' @ n @ ''/''"

definition rules_for :: "string \<Rightarrow> string list \<Rightarrow> string \<Rightarrow> string list \<Rightarrow> share_rule list" where
  "rules_for self users my_group groups =
     [(''/'', ''R''), (folder self, ''CRUD''), (folder shared_folder, ''CRUD'')]
     @ (if my_group = [] then [] else [(folder my_group, ''CRUD'')])
     @ map (\<lambda>u. (folder u, ''none'')) (filter (\<lambda>u. u \<noteq> self) users)
     @ map (\<lambda>g. (folder g, ''none'')) (filter (\<lambda>g. g \<noteq> my_group) groups)"

definition apply_rules :: "string list \<Rightarrow> group_map \<Rightarrow> string list \<Rightarrow> share_config \<Rightarrow> share_config" where
  "apply_rules users gm groups cfg = cfg\<lparr>sc_users := map (\<lambda>u.
     if su_name u \<notin> set users then u
     else u\<lparr>su_perm := ''none'', su_rules := rules_for (su_name u) users (group_of gm (su_name u)) groups\<rparr>) (sc_users cfg)\<rparr>"

definition read_share :: "share_env \<Rightarrow> string \<Rightarrow> volumes \<Rightarrow> (string + share_config) \<times> volumes" where
  "read_share env volume v =
     and_then (wrapped ''read webdav config'' (read_volume_file (se_faults env) volume ''config.yml'' v, v)) (\<lambda>raw v.
       wrapped ''parse webdav config'' (se_parse env raw, v))"

definition write_share :: "share_env \<Rightarrow> string \<Rightarrow> string \<Rightarrow> share_config \<Rightarrow> volumes \<Rightarrow> (string + unit) \<times> volumes" where
  "write_share env volume container cfg v =
     and_then (wrapped ''encode webdav config'' (se_print env cfg, v)) (\<lambda>out v.
       and_then (wrapped ''write webdav config'' (write_volume_file (se_faults env) volume ''config.yml'' out v)) (\<lambda>_ v.
         wrapped ''restart webdav'' (restart_container (se_faults env) container v)))"

text \<open>bcrypt refuses more than 72 bytes; the password is then stored as it is.\<close>

definition share_hash :: "share_env \<Rightarrow> string \<Rightarrow> string" where
  "share_hash env pw = (case se_bcrypt env pw of None \<Rightarrow> pw | Some h \<Rightarrow> ''{bcrypt}'' @ h)"

text \<open>The first user of that name gets the password; without one a user is added at the end.\<close>

fun set_password :: "string \<Rightarrow> string \<Rightarrow> share_user list \<Rightarrow> share_user list" where
  "set_password name h [] = [\<lparr>su_name = name, su_password = h, su_perm = ''none'', su_rules = []\<rparr>]"
| "set_password name h (u # us) =
     (if su_name u = name then u\<lparr>su_password := h\<rparr> # us else u # set_password name h us)"

definition share_sync_user ::
  "share_env \<Rightarrow> string \<Rightarrow> string \<Rightarrow> string \<Rightarrow> string \<Rightarrow> string list \<Rightarrow> group_map \<Rightarrow> string list \<Rightarrow> volumes
     \<Rightarrow> (string + unit) \<times> volumes" where
  "share_sync_user env volume container name pw users gm groups v =
     and_then (read_share env volume v) (\<lambda>cfg v.
       write_share env volume container
         (apply_rules users gm groups (cfg\<lparr>sc_users := set_password name (share_hash env pw) (sc_users cfg)\<rparr>)) v)"

definition share_rebuild_rules ::
  "share_env \<Rightarrow> string \<Rightarrow> string \<Rightarrow> string list \<Rightarrow> group_map \<Rightarrow> string list \<Rightarrow> volumes \<Rightarrow> (string + unit) \<times> volumes" where
  "share_rebuild_rules env volume container users gm groups v =
     and_then (read_share env volume v) (\<lambda>cfg v. write_share env volume container (apply_rules users gm groups cfg) v)"

definition share_remove_user :: "share_env \<Rightarrow> string \<Rightarrow> string \<Rightarrow> string \<Rightarrow> volumes \<Rightarrow> (string + unit) \<times> volumes" where
  "share_remove_user env volume container name v =
     and_then (read_share env volume v) (\<lambda>cfg v.
       if name \<notin> su_name ` set (sc_users cfg) then (Inr (), v)
       else write_share env volume container (cfg\<lparr>sc_users := filter (\<lambda>u. su_name u \<noteq> name) (sc_users cfg)\<rparr>) v)"

text \<open>\<open>EnsureFolder\<close>: 201 when made, 405 when it exists already; \<open>mkcol\<close> is the answer of the share.\<close>

definition ensure_folder :: "(string \<Rightarrow> string + nat) \<Rightarrow> string \<Rightarrow> string + unit" where
  "ensure_folder mkcol name =
     (case mkcol (folder name) of
        Inl e \<Rightarrow> Inl (''mkcol: '' @ e)
      | Inr status \<Rightarrow>
          if status = 201 \<or> status = 405 then Inr ()
          else Inl (''mkcol '' @ name @ '': unexpected status '' @ nat_str status))"

section \<open>The calendar server\<close>

record cal_env =
  ce_faults :: faults
  ce_bcrypt :: "string \<Rightarrow> string + string"
  ce_walk :: "(string \<times> string) list \<Rightarrow> (string \<times> string) list"
  ce_login :: "string \<Rightarrow> string \<Rightarrow> string + unit"
  ce_ensure :: "string \<Rightarrow> string \<Rightarrow> string \<Rightarrow> string \<Rightarrow> string + unit"

definition service_account :: string where "service_account = ''platform-service''"
definition company_account :: string where "company_account = ''company''"
definition company_calendar_path :: string where "company_calendar_path = ''/company/calendar/''"

definition personal_calendar_path :: "string \<Rightarrow> string" where
  "personal_calendar_path username = ''/'' @ username @ ''/personal/''"

definition parse_user_line :: "string \<Rightarrow> (string \<times> string) option" where
  "parse_user_line l =
     (let t = trim_space l in
      if t = [] then None else case cut_chr (CHR '':'') t of (a, b, ok) \<Rightarrow> if ok then Some (a, b) else None)"

definition parse_users :: "string \<Rightarrow> (string \<times> string) list" where
  "parse_users raw = fold (\<lambda>(k, h) m. AList.update k h m) (List.map_filter parse_user_line (split_chr newline raw)) []"

definition format_users :: "(string \<times> string) list \<Rightarrow> string" where
  "format_users us = text_lines (map (\<lambda>(name, h). name @ '':'' @ h) us)"

definition read_users :: "cal_env \<Rightarrow> string \<Rightarrow> volumes \<Rightarrow> (string + (string \<times> string) list) \<times> volumes" where
  "read_users env volume v =
     and_then (wrapped ''read radicale users file'' (read_volume_file (ce_faults env) volume ''users'' v, v)) (\<lambda>raw v.
       (Inr (parse_users raw), v))"

definition write_users :: "cal_env \<Rightarrow> string \<Rightarrow> string \<Rightarrow> (string \<times> string) list \<Rightarrow> volumes \<Rightarrow> (string + unit) \<times> volumes" where
  "write_users env volume container us v =
     and_then (wrapped ''write radicale users file''
         (write_volume_file (ce_faults env) volume ''users'' (format_users (ce_walk env us)) v)) (\<lambda>_ v.
       wrapped ''restart radicale'' (restart_container (ce_faults env) container v))"

definition cal_hash :: "cal_env \<Rightarrow> string \<Rightarrow> string + string" where
  "cal_hash env pw = (case ce_bcrypt env pw of Inl e \<Rightarrow> Inl (''hash password: '' @ e) | Inr h \<Rightarrow> Inr h)"

text \<open>Waiting until the server takes the login is one step; \<open>ce_login\<close> is how it ended.\<close>

definition cal_bootstrap :: "cal_env \<Rightarrow> string \<Rightarrow> string \<Rightarrow> string \<Rightarrow> volumes \<Rightarrow> (string + unit) \<times> volumes" where
  "cal_bootstrap env volume container pw v =
     and_then (cal_hash env pw, v) (\<lambda>h v. and_then (read_users env volume v) (\<lambda>us v.
       and_then (write_users env volume container (AList.update company_account h (AList.update service_account h us)) v) (\<lambda>_ v.
         and_then (ce_login env company_account pw, v) (\<lambda>_ v.
           (ce_ensure env company_account pw company_calendar_path ''Company'', v)))))"

definition cal_sync_user :: "cal_env \<Rightarrow> string \<Rightarrow> string \<Rightarrow> string \<Rightarrow> string \<Rightarrow> volumes \<Rightarrow> (string + unit) \<times> volumes" where
  "cal_sync_user env volume container name pw v =
     and_then (cal_hash env pw, v) (\<lambda>h v. and_then (read_users env volume v) (\<lambda>us v.
       and_then (write_users env volume container (AList.update name h us) v) (\<lambda>_ v.
         and_then (ce_login env name pw, v) (\<lambda>_ v.
           (ce_ensure env name pw (personal_calendar_path name) ''Personal'', v)))))"

definition cal_remove_user :: "cal_env \<Rightarrow> string \<Rightarrow> string \<Rightarrow> string \<Rightarrow> volumes \<Rightarrow> (string + unit) \<times> volumes" where
  "cal_remove_user env volume container name v =
     and_then (read_users env volume v) (\<lambda>us v.
       if map_of us name = None then (Inr (), v)
       else write_users env volume container (filter (\<lambda>(k, h). k \<noteq> name) us) v)"

end
