(* ===== verification/Company.thy ===== *)
theory Company
  imports NetBird FileShare Login
begin

text \<open>
  What the handlers about the company's people and network share: the platform's tables, the volumes of the file
  share and the calendar, and the states of the two servers outside the program, the directory (\<open>'d\<close>) and the VPN's
  management server (\<open>'n\<close>).  \<open>directoryClient\<close> and \<open>netbirdClient\<close> look the modules up in the table of installed modules.
\<close>

section \<open>State\<close>

record vpn_row =
  vr_user :: string
  vr_key_id :: string
  vr_key :: string
  vr_expires :: "time option"
  vr_nb_user :: string
  vr_nb_password :: string

record ('d, 'n) company =
  co_db :: core_db
  co_domain :: string
  co_admin :: admin_db
  co_emp :: emp_db
  co_disabled :: "string list"
  co_vpn :: "vpn_row list"
  co_two_factor :: bool
  co_office :: string
  co_office_ports :: string
  co_vols :: volumes
  co_folders :: "string list"
  co_dir :: 'd
  co_nb :: 'n

record ('d, 'n) company_env =
  cx_faults :: faults
  cx_now :: time
  cx_ldap :: "'d ldap"
  cx_nb :: "'n nb_server"
  cx_share :: share_env
  cx_cal :: cal_env
  cx_mkcol :: "string \<Rightarrow> string + nat"
  cx_random :: "string option"
  cx_lower :: "string \<Rightarrow> string"
  cx_routes :: "string + string"
  cx_gateway :: string
  cx_up :: "string \<Rightarrow> string \<Rightarrow> 'n \<Rightarrow> (string + unit) \<times> 'n"

section \<open>Steps on a part of the state\<close>

definition on_dir :: "('d \<Rightarrow> ('e + 'a) \<times> 'd) \<Rightarrow> ('d, 'n) company \<Rightarrow> ('e + 'a) \<times> ('d, 'n) company" where
  "on_dir g s = (case g (co_dir s) of (r, d) \<Rightarrow> (r, s\<lparr>co_dir := d\<rparr>))"

definition on_nb :: "('n \<Rightarrow> ('e + 'a) \<times> 'n) \<Rightarrow> ('d, 'n) company \<Rightarrow> ('e + 'a) \<times> ('d, 'n) company" where
  "on_nb g s = (case g (co_nb s) of (r, n) \<Rightarrow> (r, s\<lparr>co_nb := n\<rparr>))"

definition on_vols :: "(volumes \<Rightarrow> ('e + 'a) \<times> volumes) \<Rightarrow> ('d, 'n) company \<Rightarrow> ('e + 'a) \<times> ('d, 'n) company" where
  "on_vols g s = (case g (co_vols s) of (r, v) \<Rightarrow> (r, s\<lparr>co_vols := v\<rparr>))"

text \<open>\<open>internalError\<close> and a bad request with the label as its message; an error that is only logged.\<close>

definition or_500 :: "string \<Rightarrow> (string + 'a) \<times> 's \<Rightarrow> 'a result \<times> 's" where
  "or_500 msg r = (case r of (Inl _, s) \<Rightarrow> (Inl (internal_error msg), s) | (Inr a, s) \<Rightarrow> (Inr a, s))"

definition or_400 :: "string \<Rightarrow> (string + 'a) \<times> 's \<Rightarrow> 'a result \<times> 's" where
  "or_400 msg r = (case r of (Inl _, s) \<Rightarrow> (Inl (HTTP 400 msg), s) | (Inr a, s) \<Rightarrow> (Inr a, s))"

definition logged :: "('e + 'a) \<times> 's \<Rightarrow> ('f + unit) \<times> 's" where
  "logged r = (Inr (), snd r)"

definition check :: "bool \<Rightarrow> 'e \<Rightarrow> 's \<Rightarrow> ('e + unit) \<times> 's" where
  "check ok e s = (if ok then Inr () else Inl e, s)"

lemma or_500_Inr [simp]: "or_500 msg r = (Inr a, s) \<longleftrightarrow> r = (Inr a, s)"
  by (auto simp: or_500_def split: prod.splits sum.splits)

lemma or_400_Inr [simp]: "or_400 msg r = (Inr a, s) \<longleftrightarrow> r = (Inr a, s)"
  by (auto simp: or_400_def split: prod.splits sum.splits)

lemma check_Inr [simp]: "check ok e s = (Inr u, s') \<longleftrightarrow> ok \<and> s' = s"
  by (auto simp: check_def)

lemma snd_or [simp]: "snd (or_500 msg r) = snd r" "snd (or_400 msg r) = snd r" "snd (logged r) = snd r" "snd (check b e s) = s"
  by (auto simp: or_500_def or_400_def logged_def check_def split: prod.splits sum.splits)

lemma logged_Inr [simp]: "logged r = (Inr u, s) \<longleftrightarrow> s = snd r"
  by (auto simp: logged_def)

section \<open>Looking the modules up\<close>

definition running_config :: "faults \<Rightarrow> core_db \<Rightarrow> string \<Rightarrow> string + config option" where
  "running_config f db mid =
     (case get_installed f db mid of
        Inl e \<Rightarrow> Inl e
      | Inr None \<Rightarrow> Inr None
      | Inr (Some st) \<Rightarrow> Inr (if ms_status st = ''running'' then Some (ms_config st) else None))"

definition config_value :: "config \<Rightarrow> string \<Rightarrow> string" where
  "config_value cfg k = (case map_of cfg k of None \<Rightarrow> [] | Some v \<Rightarrow> v)"

definition directory_client :: "('d, 'n) company_env \<Rightarrow> ('d, 'n) company \<Rightarrow> string + dir_client option" where
  "directory_client env s =
     (case running_config (cx_faults env) (co_db s) ''ldap-openldap'' of
        Inl e \<Rightarrow> Inl e
      | Inr None \<Rightarrow> Inr None
      | Inr (Some cfg) \<Rightarrow> Inr (Some \<lparr>dc_bind_dn = ''uid=admin,'' @ config_value cfg ''base_dn'',
          dc_password = config_value cfg ''admin_password'', dc_base = config_value cfg ''base_dn''\<rparr>))"

definition netbird_client :: "('d, 'n) company_env \<Rightarrow> ('d, 'n) company \<Rightarrow> string + string option" where
  "netbird_client env s =
     (case running_config (cx_faults env) (co_db s) ''vpn-netbird'' of
        Inl e \<Rightarrow> Inl e
      | Inr None \<Rightarrow> Inr None
      | Inr (Some cfg) \<Rightarrow> (let pat = config_value cfg ''management_pat'' in Inr (if pat = [] then None else Some pat)))"

text \<open>The beginning of every handler: the administrator, then the client it needs.\<close>

definition as_admin ::
  "('d, 'n) company_env \<Rightarrow> string \<Rightarrow> (('d, 'n) company \<Rightarrow> 'a result \<times> ('d, 'n) company) \<Rightarrow> ('d, 'n) company
     \<Rightarrow> 'a result \<times> ('d, 'n) company" where
  "as_admin env tok k s =
     (case require_auth (cx_faults env) (cx_now env) (co_admin s) tok of Inl e \<Rightarrow> (Inl e, s) | Inr _ \<Rightarrow> k s)"

definition with_directory ::
  "('d, 'n) company_env \<Rightarrow> (dir_client \<Rightarrow> ('d, 'n) company \<Rightarrow> 'a result \<times> ('d, 'n) company) \<Rightarrow> ('d, 'n) company
     \<Rightarrow> 'a result \<times> ('d, 'n) company" where
  "with_directory env k s =
     (case directory_client env s of
        Inl _ \<Rightarrow> (Inl (internal_error ''check identity module''), s)
      | Inr None \<Rightarrow> (Inl (HTTP 400 ''install the Identity module first''), s)
      | Inr (Some c) \<Rightarrow> k c s)"

definition with_vpn ::
  "('d, 'n) company_env \<Rightarrow> string \<Rightarrow> (string \<Rightarrow> ('d, 'n) company \<Rightarrow> 'a result \<times> ('d, 'n) company) \<Rightarrow> ('d, 'n) company
     \<Rightarrow> 'a result \<times> ('d, 'n) company" where
  "with_vpn env missing k s =
     (case netbird_client env s of
        Inl _ \<Rightarrow> (Inl (internal_error ''check vpn module''), s)
      | Inr None \<Rightarrow> (Inl (HTTP 400 missing), s)
      | Inr (Some tok) \<Rightarrow> k tok s)"

lemma as_admin_Inr: "as_admin env tok k s = (Inr a, s') \<Longrightarrow> k s = (Inr a, s')"
  by (auto simp: as_admin_def split: sum.splits)

lemma with_directory_Inr:
  "with_directory env k s = (Inr a, s') \<Longrightarrow> \<exists>c. directory_client env s = Inr (Some c) \<and> k c s = (Inr a, s')"
  by (auto simp: with_directory_def split: sum.splits option.splits)

lemma with_vpn_Inr: "with_vpn env m k s = (Inr a, s') \<Longrightarrow> \<exists>tok. netbird_client env s = Inr (Some tok) \<and> k tok s = (Inr a, s')"
  by (auto simp: with_vpn_def split: sum.splits option.splits)

lemma on_part_simps:
  "snd (on_dir g s) = s\<lparr>co_dir := snd (g (co_dir s))\<rparr>" "snd (on_nb h s) = s\<lparr>co_nb := snd (h (co_nb s))\<rparr>"
  "snd (on_vols k s) = s\<lparr>co_vols := snd (k (co_vols s))\<rparr>"
  "fst (on_dir g s) = fst (g (co_dir s))" "fst (on_nb h s) = fst (h (co_nb s))" "fst (on_vols k s) = fst (k (co_vols s))"
  by (simp_all add: on_dir_def on_nb_def on_vols_def split: prod.splits)

end
