(* ===== verification/Vpn.thy ===== *)
theory Vpn
  imports Company
begin

text \<open>
  VPN access (\<open>backend/internal/api/vpn.go\<close>, \<open>vpnwatch.go\<close>): enrolment keys and logins, approval of devices, revoking.
  NetBird's groups say whose device is whose and which devices are approved.
\<close>

section \<open>Groups and the access policy\<close>

definition user_group_name :: "string \<Rightarrow> string" where
  "user_group_name username = ''user-'' @ username"

definition user_vpn_group :: "'n nb_server \<Rightarrow> string \<Rightarrow> string \<Rightarrow> bool \<Rightarrow> 'n \<Rightarrow> (string + string) \<times> 'n" where
  "user_vpn_group S tok username create n =
     and_then (nb_list_groups S tok n) (\<lambda>gs n.
       case find (\<lambda>g. ng_name g = user_group_name username) gs of
         Some g \<Rightarrow> (Inr (ng_id g), n)
       | None \<Rightarrow>
           if \<not> create then (Inr [], n)
           else and_then (nb_create_group S tok (user_group_name username) n) (\<lambda>g n. (Inr (ng_id g), n)))"

definition approved_group_name :: string where "approved_group_name = ''vpn-approved''"
definition approved_policy_name :: string where "approved_policy_name = ''approved devices''"

definition last_named :: "('a \<Rightarrow> string) \<Rightarrow> string \<Rightarrow> 'a list \<Rightarrow> 'a option" where
  "last_named name k xs = find (\<lambda>x. name x = k) (rev xs)"

text \<open>The group and the policy of approved devices are made when missing; the policy NetBird starts with goes, after
  every device enrolled so far was put into the group.\<close>

definition drop_default_policy :: "'n nb_server \<Rightarrow> string \<Rightarrow> nb_group \<Rightarrow> (string \<times> string) list \<Rightarrow> 'n \<Rightarrow> (string + unit) \<times> 'n" where
  "drop_default_policy S tok approved ps n =
     (case last_named snd ''Default'' ps of
        None \<Rightarrow> (Inr (), n)
      | Some (i, _) \<Rightarrow>
          if i = [] then (Inr (), n)
          else and_then (add_all_peers_to_group S tok approved n) (\<lambda>_ n. delete_policy S tok i n))"

definition ensure_access_policy :: "'n nb_server \<Rightarrow> string \<Rightarrow> 'n \<Rightarrow> (string + string) \<times> 'n" where
  "ensure_access_policy S tok n =
     and_then (nb_list_groups S tok n) (\<lambda>gs n.
       and_then (case last_named ng_name approved_group_name gs of
           Some g \<Rightarrow> (Inr g, n)
         | None \<Rightarrow> nb_create_group S tok approved_group_name n) (\<lambda>approved n.
       and_then (list_policies S tok n) (\<lambda>ps n.
       and_then (if approved_policy_name \<in> snd ` set ps then (Inr (), n)
           else create_allow_policy S tok approved_policy_name (ng_id approved) n) (\<lambda>_ n.
       and_then (drop_default_policy S tok approved ps n) (\<lambda>_ n. (Inr (ng_id approved), n))))))"

section \<open>Revoking\<close>

definition find_vpn :: "('d, 'n) company \<Rightarrow> string \<Rightarrow> vpn_row option" where
  "find_vpn s username = find (\<lambda>r. vr_user r = username) (co_vpn s)"

definition delete_old_access :: "'n nb_server \<Rightarrow> string \<Rightarrow> vpn_row option \<Rightarrow> 'n \<Rightarrow> 'n" where
  "delete_old_access S tok row n =
     (case row of
        None \<Rightarrow> n
      | Some r \<Rightarrow>
          (let n1 = (if vr_key_id r = [] then n else snd (delete_setup_key S tok (vr_key_id r) n)) in
           if vr_nb_user r = [] then n1 else snd (nb_delete_user S tok (vr_nb_user r) n1)))"

definition delete_group_devices :: "'n nb_server \<Rightarrow> string \<Rightarrow> string \<Rightarrow> 'n \<Rightarrow> (string + unit) \<times> 'n" where
  "delete_group_devices S tok gid n =
     and_then (list_peers S tok n) (\<lambda>ps n.
       each_step (\<lambda>p n. delete_peer S tok (np_id p) n) (filter (\<lambda>p. gid \<in> ng_id ` set (np_groups p)) ps) n)"

definition revoke_on_server :: "'n nb_server \<Rightarrow> string \<Rightarrow> vpn_row option \<Rightarrow> string \<Rightarrow> 'n \<Rightarrow> (string + unit) \<times> 'n" where
  "revoke_on_server S tok row username n =
     and_then (user_vpn_group S tok username False (delete_old_access S tok row n)) (\<lambda>gid n.
       if gid = [] then (Inr (), n)
       else and_then (delete_group_devices S tok gid n) (\<lambda>_ n. (Inr (), snd (nb_delete_group S tok gid n))))"

definition forget_vpn_row :: "faults \<Rightarrow> string \<Rightarrow> ('d, 'n) company \<Rightarrow> (string + unit) \<times> ('d, 'n) company" where
  "forget_vpn_row f username s =
     (if f ''delete vpn access'' then (Inl ''delete vpn access'', s)
      else (Inr (), s\<lparr>co_vpn := filter (\<lambda>r. vr_user r \<noteq> username) (co_vpn s)\<rparr>))"

definition revoke_vpn_access ::
  "('d, 'n) company_env \<Rightarrow> string \<Rightarrow> string \<Rightarrow> ('d, 'n) company \<Rightarrow> (string + unit) \<times> ('d, 'n) company" where
  "revoke_vpn_access env tok username s =
     (let f = cx_faults env; row = (if f ''read vpn access'' then None else find_vpn s username) in
      and_then (on_nb (revoke_on_server (cx_nb env) tok row username) s) (\<lambda>_ s. forget_vpn_row f username s))"

section \<open>Two factors\<close>

definition vpn_two_factor :: "faults \<Rightarrow> ('d, 'n) company \<Rightarrow> bool" where
  "vpn_two_factor f s \<longleftrightarrow> \<not> f ''read two factor'' \<and> co_two_factor s"

definition vpn_mfa_wanted :: "faults \<Rightarrow> ('d, 'n) company \<Rightarrow> bool" where
  "vpn_mfa_wanted f s \<longleftrightarrow> vpn_two_factor f s \<or> \<not> f ''read vpn logins'' \<and> list_ex (\<lambda>r. vr_nb_user r \<noteq> []) (co_vpn s)"

definition get_two_factor :: "('d, 'n) company_env \<Rightarrow> string \<Rightarrow> ('d, 'n) company \<Rightarrow> bool result \<times> ('d, 'n) company" where
  "get_two_factor env tok = as_admin env tok (\<lambda>s. (Inr (vpn_two_factor (cx_faults env) s), s))"

definition save_two_factor ::
  "('d, 'n) company_env \<Rightarrow> string \<Rightarrow> bool \<Rightarrow> ('d, 'n) company \<Rightarrow> bool result \<times> ('d, 'n) company" where
  "save_two_factor env tok on = as_admin env tok (with_vpn env ''install the VPN module first'' (\<lambda>nbt s.
     let f = cx_faults env in
     and_then (check (\<not> f ''save vpn 2fa'') (internal_error ''save vpn 2fa'') s) (\<lambda>_ s.
       let s1 = s\<lparr>co_two_factor := on\<rparr> in
       and_then (or_500 ''update vpn 2fa'' (on_nb (set_local_mfa (cx_nb env) nbt (vpn_mfa_wanted f s1)) s1)) (\<lambda>_ s. (Inr on, s)))))"

section \<open>People\<close>

record vpn_user_out =
  vu_name :: string
  vu_full :: string
  vu_access :: bool
  vu_expires :: "time option"
  vu_login :: bool

definition domain_configured :: "('d, 'n) company \<Rightarrow> bool" where
  "domain_configured s \<longleftrightarrow> co_domain s \<noteq> ''localhost''"

definition vpn_user_row :: "('d, 'n) company \<Rightarrow> dir_user \<Rightarrow> vpn_user_out" where
  "vpn_user_row s u =
     (case find_vpn s (du_name u) of
        None \<Rightarrow> \<lparr>vu_name = du_name u, vu_full = du_full u, vu_access = False, vu_expires = None, vu_login = False\<rparr>
      | Some r \<Rightarrow> \<lparr>vu_name = du_name u, vu_full = du_full u, vu_access = True, vu_expires = vr_expires r,
          vu_login = (vr_nb_user r \<noteq> [])\<rparr>)"

text \<open>The answer: whether both modules are there, whether the domain is set, the people, the devices.\<close>

definition list_vpn_users ::
  "('d, 'n) company_env \<Rightarrow> string \<Rightarrow> ('d, 'n) company \<Rightarrow> (bool \<times> bool \<times> vpn_user_out list \<times> nb_peer list) result \<times> ('d, 'n) company" where
  "list_vpn_users env tok = as_admin env tok (\<lambda>s.
     and_then (or_500 ''check identity module'' (directory_client env s, s)) (\<lambda>dc s.
     and_then (or_500 ''check vpn module'' (netbird_client env s, s)) (\<lambda>nb s.
       case (dc, nb) of
         (Some c, Some nbt) \<Rightarrow>
           and_then (or_500 ''list connected devices'' (on_nb (list_peers (cx_nb env) nbt) s)) (\<lambda>devices s.
           and_then (or_500 ''list users'' (on_dir (list_people (cx_ldap env) c) s)) (\<lambda>users s.
           and_then (check (\<not> cx_faults env ''list vpn access'') (internal_error ''list vpn access'') s) (\<lambda>_ s.
             (Inr (True, domain_configured s, map (vpn_user_row s) users, devices), s))))
       | _ \<Rightarrow> (Inr (False, domain_configured s, [], []), s))))"

definition localhost_refused :: http_error where
  "localhost_refused = HTTP 400 (''set a real domain name in Settings first '' @ em_dash @ '' a setup file built with ''
     @ quoted ''localhost'' @ '' would only ever work on this computer'')"

definition put_vpn_row :: "vpn_row \<Rightarrow> vpn_row list \<Rightarrow> vpn_row list" where
  "put_vpn_row r rows =
     (if vr_user r \<in> vr_user ` set rows then map (\<lambda>x. if vr_user x = vr_user r then r else x) rows else rows @ [r])"

definition record_vpn :: "faults \<Rightarrow> vpn_row \<Rightarrow> ('d, 'n) company \<Rightarrow> (http_error + unit) \<times> ('d, 'n) company" where
  "record_vpn f r s =
     (if f ''record vpn access'' then (Inl (internal_error ''record vpn access''), s)
      else (Inr (), s\<lparr>co_vpn := put_vpn_row r (co_vpn s)\<rparr>))"

definition vpn_email :: "string \<Rightarrow> string" where
  "vpn_email username = username @ ''@vpn.local''"

text \<open>The answer: the setup key, or the email and password of a login.\<close>

definition issue_login ::
  "('d, 'n) company_env \<Rightarrow> string \<Rightarrow> string \<Rightarrow> string \<Rightarrow> ('d, 'n) company \<Rightarrow> (string \<times> string \<times> string) result \<times> ('d, 'n) company" where
  "issue_login env nbt username gid s =
     and_then (or_500 ''prepare access policy'' (on_nb (ensure_access_policy (cx_nb env) nbt) s)) (\<lambda>approved s.
     and_then (or_500 ''turn on 2fa'' (on_nb (set_local_mfa (cx_nb env) nbt True) s)) (\<lambda>_ s.
     and_then (or_500 ''create vpn login''
         (on_nb (create_local_user (cx_nb env) nbt (vpn_email username) username [gid, approved]) s)) (\<lambda>u s.
     and_then (record_vpn (cx_faults env) \<lparr>vr_user = username, vr_key_id = [], vr_key = [], vr_expires = None,
         vr_nb_user = fst u, vr_nb_password = snd u\<rparr> s) (\<lambda>_ s.
       (Inr ([], vpn_email username, snd u), s)))))"

definition issue_key ::
  "('d, 'n) company_env \<Rightarrow> string \<Rightarrow> string \<Rightarrow> string \<Rightarrow> ('d, 'n) company \<Rightarrow> (string \<times> string \<times> string) result \<times> ('d, 'n) company" where
  "issue_key env nbt username gid s =
     and_then (or_500 ''create setup key'' (on_nb (create_setup_key (cx_nb env) nbt username [gid]) s)) (\<lambda>k s.
     and_then (record_vpn (cx_faults env) \<lparr>vr_user = username, vr_key_id = fst k, vr_key = snd k,
         vr_expires = Some (cx_now env + setup_key_lifetime * second), vr_nb_user = [], vr_nb_password = []\<rparr> s) (\<lambda>_ s.
       (Inr (snd k, [], []), s)))"

definition enable_vpn_user ::
  "('d, 'n) company_env \<Rightarrow> string \<Rightarrow> string \<Rightarrow> ('d, 'n) company \<Rightarrow> (string \<times> string \<times> string) result \<times> ('d, 'n) company" where
  "enable_vpn_user env tok username = as_admin env tok (\<lambda>s.
     if \<not> domain_configured s then (Inl localhost_refused, s)
     else with_vpn env (''install the VPN module first (or it's still finishing setup '' @ em_dash @ '' try again in a minute)'') (\<lambda>nbt s.
       and_then (or_500 ''create vpn group'' (on_nb (user_vpn_group (cx_nb env) nbt username True) s)) (\<lambda>gid s.
         let f = cx_faults env;
             row = (if f ''read vpn access'' then None else find_vpn s username);
             s1 = s\<lparr>co_nb := delete_old_access (cx_nb env) nbt row (co_nb s)\<rparr> in
         if vpn_two_factor f s1 then issue_login env nbt username gid s1 else issue_key env nbt username gid s1)) s)"

definition disable_vpn_user :: "('d, 'n) company_env \<Rightarrow> string \<Rightarrow> string \<Rightarrow> ('d, 'n) company \<Rightarrow> unit result \<times> ('d, 'n) company" where
  "disable_vpn_user env tok username = as_admin env tok (with_vpn env ''install the VPN module first'' (\<lambda>nbt s.
     or_500 ''revoke vpn access'' (revoke_vpn_access env nbt username s)))"

section \<open>Devices\<close>

definition approve_device :: "('d, 'n) company_env \<Rightarrow> string \<Rightarrow> string \<Rightarrow> ('d, 'n) company \<Rightarrow> unit result \<times> ('d, 'n) company" where
  "approve_device env tok i = as_admin env tok (with_vpn env ''install the VPN module first'' (\<lambda>nbt s.
     and_then (or_500 ''find approved group'' (on_nb (ensure_access_policy (cx_nb env) nbt) s)) (\<lambda>gid s.
       or_500 ''approve device'' (on_nb (add_peer_to_group (cx_nb env) nbt gid i) s))))"

definition remove_device :: "('d, 'n) company_env \<Rightarrow> string \<Rightarrow> string \<Rightarrow> ('d, 'n) company \<Rightarrow> unit result \<times> ('d, 'n) company" where
  "remove_device env tok i = as_admin env tok (with_vpn env ''install the VPN module first'' (\<lambda>nbt s.
     or_500 ''remove device'' (on_nb (delete_peer (cx_nb env) nbt i) s)))"

section \<open>Setup instructions\<close>

definition setup_head :: "string \<Rightarrow> string \<Rightarrow> string list" where
  "setup_head username url =
     [''Company VPN setup for '' @ username, ''=============================================='', [], ''1. Install the NetBird app:'',
      ''   https://netbird.io/download'', [],
      ''2. Open the app and choose '' @ quoted ''Use your own server'' @ '' / advanced setup.'',
      ''   Server (Management URL): '' @ url, []]"

definition login_steps :: "string \<Rightarrow> string \<Rightarrow> string list" where
  "login_steps email password =
     [''3. Click Connect. Your web browser opens a login page. Sign in with:'', ''   Email:    '' @ email, ''   Password: '' @ password, [],
      ''4. The first time, the page shows a QR code. Scan it with the Google'',
      ''   Authenticator app (or any authenticator app) on your phone, then type the'', ''   6-digit code it shows.'', [],
      ''From then on, signing in takes your password and the current 6-digit code'',
      ''from the app. You will be asked to sign in again about once a day.'',
      ''If you lose your phone, ask your admin to reset your VPN access.'']"

definition key_steps :: "string \<Rightarrow> string list" where
  "key_steps key =
     [''3. When asked for a setup key, paste this:'', ''   '' @ key, [],
      ''That's it '' @ em_dash @ '' no username or password needed, just this one key.'',
      ''The key works for one device and expires after 24 hours. If it stops'',
      ''working (or you need to add another device), ask your admin for a new one.'']"

definition management_url :: "('d, 'n) company \<Rightarrow> string" where
  "management_url s = ''http://'' @ host_name (co_domain s) ''vpn-netbird'' [] @ '':8090''"

definition download_setup :: "('d, 'n) company_env \<Rightarrow> string \<Rightarrow> string \<Rightarrow> ('d, 'n) company \<Rightarrow> string result \<times> ('d, 'n) company" where
  "download_setup env tok username = as_admin env tok (\<lambda>s.
     if \<not> domain_configured s then (Inl localhost_refused, s)
     else case (if cx_faults env ''read vpn access'' then None else find_vpn s username) of
       None \<Rightarrow> (Inl (HTTP 404 ''no VPN access for this user yet''), s)
     | Some r \<Rightarrow> (Inr (text_lines (setup_head username (management_url s) @
           (if vr_nb_user r \<noteq> [] then login_steps (vpn_email username) (vr_nb_password r) else key_steps (vr_key r)))), s))"

section \<open>Watching the devices\<close>

definition device_owner :: "nb_peer \<Rightarrow> string" where
  "device_owner p =
     (case find (\<lambda>g. has_prefix (ng_name g) ''user-'') (np_groups p) of
        None \<Rightarrow> ''unknown user''
      | Some g \<Rightarrow> drop 5 (ng_name g))"

definition device_line :: "string \<Rightarrow> nb_peer \<Rightarrow> string" where
  "device_line what p = what @ '': '' @ np_name p @ '' ('' @ device_owner p @ '')''"

type_synonym device_map = "(string \<times> nb_peer) list"

definition peers_by_id :: "nb_peer list \<Rightarrow> device_map" where
  "peers_by_id ps = fold (\<lambda>p. AList.update (np_id p) p) ps []"

text \<open>The lines for the system log, in an order that depends on the walk of a map, and the devices seen now; \<open>None\<close>
  until the first successful look.\<close>

definition vpn_watch_once ::
  "('d, 'n) company_env \<Rightarrow> ('d, 'n) company \<Rightarrow> device_map option \<Rightarrow> string list \<times> device_map option" where
  "vpn_watch_once env s known =
     (case netbird_client env s of
        Inr (Some nbt) \<Rightarrow>
          (case fst (list_peers (cx_nb env) nbt (co_nb s)) of
             Inl _ \<Rightarrow> ([], known)
           | Inr ps \<Rightarrow>
               (let now = peers_by_id ps in
                case known of
                  None \<Rightarrow> ([], Some now)
                | Some old \<Rightarrow>
                    (map (\<lambda>(i, p). device_line ''Device joined the VPN'' p) (filter (\<lambda>(i, p). map_of old i = None) now)
                     @ map (\<lambda>(i, p). device_line ''Device removed from the VPN'' p) (filter (\<lambda>(i, p). map_of now i = None) old),
                     Some now)))
      | _ \<Rightarrow> ([], known))"

end
