(* ===== verification/People.thy ===== *)
theory People
  imports Vpn
begin

text \<open>
  The company's people and groups in the administrator's panel (\<open>backend/internal/api/users.go\<close>, \<open>groups.go\<close>): accounts
  in the directory, with logins to the file share and the calendar kept along.  What follows the change of the directory
  is done as far as it goes: its errors are only logged.
\<close>

section \<open>File share and calendar\<close>

definition valid_user_name :: "string \<Rightarrow> bool" where
  "valid_user_name u \<longleftrightarrow> 2 \<le> length u \<and> length u \<le> 32 \<and> in_range 0x61 0x7A (hd u)
     \<and> list_all (\<lambda>c. in_range 0x61 0x7A c \<or> is_digit c \<or> c \<in> set ''._-'') (tl u)"

definition bad_user_name :: http_error where
  "bad_user_name = HTTP 400 (''username must be 2'' @ en_dash @
     ''32 characters: lowercase letters, digits, dot, dash or underscore, starting with a letter'')"

definition share_volume :: string where "share_volume = volume_name ''fileshare-webdav'' ''webdav_config''"
definition share_container :: string where "share_container = container_name ''fileshare-webdav'' ''webdav''"
definition cal_volume :: string where "cal_volume = volume_name ''calendar-radicale'' ''radicale_config''"
definition cal_container :: string where "cal_container = container_name ''calendar-radicale'' ''radicale''"

text \<open>A step that does nothing unless the module runs.\<close>

definition if_running ::
  "('d, 'n) company_env \<Rightarrow> string \<Rightarrow> (('d, 'n) company \<Rightarrow> (string + unit) \<times> ('d, 'n) company) \<Rightarrow> ('d, 'n) company
     \<Rightarrow> (string + unit) \<times> ('d, 'n) company" where
  "if_running env mid k s =
     (case running_config (cx_faults env) (co_db s) mid of Inl e \<Rightarrow> (Inl e, s) | Inr None \<Rightarrow> (Inr (), s) | Inr (Some _) \<Rightarrow> k s)"

definition make_folder :: "('d, 'n) company_env \<Rightarrow> string \<Rightarrow> ('d, 'n) company \<Rightarrow> (string + unit) \<times> ('d, 'n) company" where
  "make_folder env name s =
     (case ensure_folder (cx_mkcol env) name of
        Inl e \<Rightarrow> (Inl (''ensure folder '' @ name @ '': '' @ e), s)
      | Inr _ \<Rightarrow> (Inr (), s\<lparr>co_folders := List.insert name (co_folders s)\<rparr>))"

definition ensure_webdav_folders ::
  "('d, 'n) company_env \<Rightarrow> string list \<Rightarrow> ('d, 'n) company \<Rightarrow> (string + unit) \<times> ('d, 'n) company" where
  "ensure_webdav_folders env names = if_running env ''fileshare-webdav'' (each_step (make_folder env) names)"

text \<open>Every user name, who is in which group (the last group listed), every group name.\<close>

definition group_map_of :: "(string \<times> string list) list \<Rightarrow> group_map" where
  "group_map_of gs = fold (\<lambda>(g, ms) m. fold (\<lambda>u. AList.update u g) ms m) gs []"

type_synonym people_context = "string list \<times> group_map \<times> string list"

definition webdav_group_context ::
  "('d, 'n) company_env \<Rightarrow> dir_client \<Rightarrow> ('d, 'n) company \<Rightarrow> (string + people_context) \<times> ('d, 'n) company" where
  "webdav_group_context env c s =
     and_then (wrapped ''list users'' (on_dir (list_people (cx_ldap env) c) s)) (\<lambda>us s.
     and_then (wrapped ''list groups'' (on_dir (list_groups (cx_ldap env) c) s)) (\<lambda>gs s.
       (Inr (map du_name us, group_map_of gs, map fst gs), s)))"

definition sync_webdav_login ::
  "('d, 'n) company_env \<Rightarrow> string \<Rightarrow> string \<Rightarrow> people_context \<Rightarrow> ('d, 'n) company \<Rightarrow> (string + unit) \<times> ('d, 'n) company" where
  "sync_webdav_login env username pw pc = if_running env ''fileshare-webdav'' (on_vols
     (share_sync_user (cx_share env) share_volume share_container username pw (fst pc) (fst (snd pc)) (snd (snd pc))))"

definition rebuild_webdav_rules ::
  "('d, 'n) company_env \<Rightarrow> people_context \<Rightarrow> ('d, 'n) company \<Rightarrow> (string + unit) \<times> ('d, 'n) company" where
  "rebuild_webdav_rules env pc = if_running env ''fileshare-webdav'' (on_vols
     (share_rebuild_rules (cx_share env) share_volume share_container (fst pc) (fst (snd pc)) (snd (snd pc))))"

definition remove_webdav_login :: "('d, 'n) company_env \<Rightarrow> string \<Rightarrow> ('d, 'n) company \<Rightarrow> (string + unit) \<times> ('d, 'n) company" where
  "remove_webdav_login env username = if_running env ''fileshare-webdav'' (on_vols
     (share_remove_user (cx_share env) share_volume share_container username))"

definition sync_calendar_login :: "('d, 'n) company_env \<Rightarrow> string \<Rightarrow> string \<Rightarrow> ('d, 'n) company \<Rightarrow> (string + unit) \<times> ('d, 'n) company" where
  "sync_calendar_login env username pw = if_running env ''calendar-radicale'' (on_vols
     (cal_sync_user (cx_cal env) cal_volume cal_container username pw))"

definition remove_calendar_login :: "('d, 'n) company_env \<Rightarrow> string \<Rightarrow> ('d, 'n) company \<Rightarrow> (string + unit) \<times> ('d, 'n) company" where
  "remove_calendar_login env username = if_running env ''calendar-radicale'' (on_vols
     (cal_remove_user (cx_cal env) cal_volume cal_container username))"

text \<open>What follows a change of a password, and a change of the groups; only logged when it fails.\<close>

definition follow_webdav_login ::
  "('d, 'n) company_env \<Rightarrow> dir_client \<Rightarrow> string \<Rightarrow> string \<Rightarrow> ('d, 'n) company \<Rightarrow> ('d, 'n) company" where
  "follow_webdav_login env c username pw s =
     snd (and_then (webdav_group_context env c s) (\<lambda>pc s. sync_webdav_login env username pw pc s))"

definition follow_password ::
  "('d, 'n) company_env \<Rightarrow> dir_client \<Rightarrow> string \<Rightarrow> string \<Rightarrow> ('d, 'n) company \<Rightarrow> ('d, 'n) company" where
  "follow_password env c username pw s = snd (sync_calendar_login env username pw (follow_webdav_login env c username pw s))"

definition follow_groups :: "('d, 'n) company_env \<Rightarrow> dir_client \<Rightarrow> ('d, 'n) company \<Rightarrow> ('d, 'n) company" where
  "follow_groups env c s = snd (and_then (webdav_group_context env c s) (\<lambda>pc s. rebuild_webdav_rules env pc s))"

text \<open>After the file share was installed: folders for everybody and every group there already was.\<close>

definition backfill_folders :: "('d, 'n) company_env \<Rightarrow> ('d, 'n) company \<Rightarrow> ('d, 'n) company" where
  "backfill_folders env s =
     (case directory_client env s of
        Inr (Some c) \<Rightarrow> snd (and_then (webdav_group_context env c s) (\<lambda>pc s.
          ensure_webdav_folders env (''shared'' # fst pc @ snd (snd pc)) s))
      | _ \<Rightarrow> s)"

section \<open>Listing\<close>

record user_out =
  uo_name :: string
  uo_email :: string
  uo_full :: string
  uo_group :: string
  uo_disabled :: bool
  uo_login :: "(time \<times> string) option"
  uo_signed_in :: bool

definition user_out_of ::
  "('d, 'n) company_env \<Rightarrow> ('d, 'n) company \<Rightarrow> (string \<times> string list) list \<Rightarrow> dir_user \<Rightarrow> user_out" where
  "user_out_of env s gs u =
     (let n = du_name u; f = cx_faults env; off = n \<in> set (co_disabled s) in
      \<lparr>uo_name = n, uo_email = du_email u, uo_full = du_full u, uo_group = group_of (group_map_of gs) n, uo_disabled = off,
       uo_login = (if f ''list logins'' then None
         else map_option (\<lambda>l. (li_at l, li_ip l)) (find (\<lambda>l. li_user l = n) (user_logins (co_emp s)))),
       uo_signed_in = (\<not> f ''list sessions'' \<and> \<not> off
         \<and> list_ex (\<lambda>x. es_user x = n \<and> cx_now env < es_expires x) (emp_sessions (co_emp s)))\<rparr>)"

definition list_users_handler ::
  "('d, 'n) company_env \<Rightarrow> string \<Rightarrow> ('d, 'n) company \<Rightarrow> (bool \<times> user_out list) result \<times> ('d, 'n) company" where
  "list_users_handler env tok = as_admin env tok (\<lambda>s.
     case directory_client env s of
       Inl _ \<Rightarrow> (Inl (internal_error ''check identity module''), s)
     | Inr None \<Rightarrow> (Inr (False, []), s)
     | Inr (Some c) \<Rightarrow>
         and_then (or_500 ''list users'' (on_dir (list_people (cx_ldap env) c) s)) (\<lambda>us s.
         and_then (or_500 ''list groups'' (on_dir (list_groups (cx_ldap env) c) s)) (\<lambda>gs s.
         and_then (check (\<not> cx_faults env ''list disabled users'') (internal_error ''list disabled users'') s) (\<lambda>_ s.
           (Inr (True, map (user_out_of env s gs) us), s)))))"

definition list_groups_handler ::
  "('d, 'n) company_env \<Rightarrow> string \<Rightarrow> ('d, 'n) company \<Rightarrow> (bool \<times> (string \<times> string list) list) result \<times> ('d, 'n) company" where
  "list_groups_handler env tok = as_admin env tok (\<lambda>s.
     case directory_client env s of
       Inl _ \<Rightarrow> (Inl (internal_error ''check identity module''), s)
     | Inr None \<Rightarrow> (Inr (False, []), s)
     | Inr (Some c) \<Rightarrow>
         and_then (or_500 ''list groups'' (on_dir (list_groups (cx_ldap env) c) s)) (\<lambda>gs s. (Inr (True, gs), s)))"

section \<open>Accounts\<close>

definition create_user_handler ::
  "('d, 'n) company_env \<Rightarrow> string \<Rightarrow> string \<Rightarrow> string \<Rightarrow> string \<Rightarrow> string \<Rightarrow> string \<Rightarrow> ('d, 'n) company
     \<Rightarrow> string result \<times> ('d, 'n) company" where
  "create_user_handler env tok username email name pw grp = as_admin env tok (with_directory env (\<lambda>c s.
     and_then (check (valid_user_name username) bad_user_name s) (\<lambda>_ s.
     and_then (check (grp \<noteq> []) (HTTP 400 ''group is required'') s) (\<lambda>_ s.
     and_then (or_500 ''list groups'' (on_dir (list_groups (cx_ldap env) c) s)) (\<lambda>gs s.
     and_then (check (grp \<in> fst ` set gs) (HTTP 400 (''unknown group '' @ grp)) s) (\<lambda>_ s.
     and_then (or_400 ''create user failed''
         (on_dir (dir_create_user (cx_ldap env) c (cx_random env) username email name pw) s)) (\<lambda>used s.
     and_then (or_500 ''user created but failed to add to group''
         (on_dir (add_user_to_group (cx_ldap env) c username grp) s)) (\<lambda>_ s.
       (Inr used, follow_password env c username used
         (snd (ensure_webdav_folders env [''shared'', username] s)))))))))))"

definition update_user_handler ::
  "('d, 'n) company_env \<Rightarrow> string \<Rightarrow> string \<Rightarrow> string \<Rightarrow> string \<Rightarrow> ('d, 'n) company \<Rightarrow> unit result \<times> ('d, 'n) company" where
  "update_user_handler env tok username email name = as_admin env tok (with_directory env (\<lambda>c s.
     or_400 ''update user failed'' (on_dir (dir_update_user (cx_ldap env) c username email name) s)))"

text \<open>The loop over the groups takes the user out of the others as it goes; whether the new one exists is known after it.\<close>

fun leave_others ::
  "'d ldap \<Rightarrow> dir_client \<Rightarrow> string \<Rightarrow> string \<Rightarrow> (string \<times> string list) list \<Rightarrow> 'd \<Rightarrow> (string + unit) \<times> 'd" where
  "leave_others L c username target [] d = (Inr (), d)"
| "leave_others L c username target ((g, ms) # gs) d =
     and_then (each_step (\<lambda>_ d. remove_user_from_group L c username g d)
         (filter (\<lambda>m. m = username \<and> g \<noteq> target) ms) d) (\<lambda>_ d. leave_others L c username target gs d)"

definition change_group_handler ::
  "('d, 'n) company_env \<Rightarrow> string \<Rightarrow> string \<Rightarrow> string \<Rightarrow> ('d, 'n) company \<Rightarrow> unit result \<times> ('d, 'n) company" where
  "change_group_handler env tok username target = as_admin env tok (with_directory env (\<lambda>c s.
     and_then (check (target \<noteq> []) (HTTP 400 ''group is required'') s) (\<lambda>_ s.
     and_then (or_500 ''list groups'' (on_dir (list_groups (cx_ldap env) c) s)) (\<lambda>gs s.
     and_then (or_500 ''remove from old group failed'' (on_dir (leave_others (cx_ldap env) c username target gs) s)) (\<lambda>_ s.
     and_then (check (target \<in> fst ` set gs) (HTTP 400 (''unknown group '' @ target)) s) (\<lambda>_ s.
     and_then (or_400 ''add to group failed'' (on_dir (add_user_to_group (cx_ldap env) c username target) s)) (\<lambda>_ s.
       (Inr (), follow_groups env c s))))))))"

definition revoke_sessions :: "('d, 'n) company_env \<Rightarrow> string \<Rightarrow> ('d, 'n) company \<Rightarrow> ('d, 'n) company" where
  "revoke_sessions env username s = s\<lparr>co_emp := snd (revoke_all (cx_faults env) (co_emp s) username)\<rparr>"

definition reset_password_handler ::
  "('d, 'n) company_env \<Rightarrow> string \<Rightarrow> string \<Rightarrow> string \<Rightarrow> ('d, 'n) company \<Rightarrow> string result \<times> ('d, 'n) company" where
  "reset_password_handler env tok username pw = as_admin env tok (with_directory env (\<lambda>c s.
     and_then (or_400 ''reset password failed''
         (on_dir (dir_reset_password (cx_ldap env) c (cx_random env) username pw) s)) (\<lambda>used s.
       (Inr used, revoke_sessions env username (follow_password env c username used s)))))"

definition revoke_vpn_best_effort :: "('d, 'n) company_env \<Rightarrow> string \<Rightarrow> ('d, 'n) company \<Rightarrow> ('d, 'n) company" where
  "revoke_vpn_best_effort env username s =
     (case netbird_client env s of Inr (Some nbt) \<Rightarrow> snd (revoke_vpn_access env nbt username s) | _ \<Rightarrow> s)"

definition forget_logins :: "faults \<Rightarrow> string \<Rightarrow> ('d, 'n) company \<Rightarrow> ('d, 'n) company" where
  "forget_logins f username s =
     (if f ''forget sign-ins'' then s
      else s\<lparr>co_emp := (co_emp s)\<lparr>user_logins := filter (\<lambda>l. li_user l \<noteq> username) (user_logins (co_emp s))\<rparr>\<rparr>)"

definition clear_disabled :: "string \<Rightarrow> ('d, 'n) company \<Rightarrow> ('d, 'n) company" where
  "clear_disabled username s = s\<lparr>co_disabled := filter (\<lambda>u. u \<noteq> username) (co_disabled s)\<rparr>"

text \<open>Before the account goes its memberships are taken away one by one, errors logged.\<close>

definition leave_all_groups :: "'d ldap \<Rightarrow> dir_client \<Rightarrow> string \<Rightarrow> 'd \<Rightarrow> 'd" where
  "leave_all_groups L c username d =
     (case list_groups L c d of
        (Inl _, d1) \<Rightarrow> d1
      | (Inr gs, d1) \<Rightarrow> fold (\<lambda>(g, ms) d. fold (\<lambda>_ d. snd (remove_user_from_group L c username g d)) (filter (\<lambda>m. m = username) ms) d) gs d1)"

definition delete_user_handler :: "('d, 'n) company_env \<Rightarrow> string \<Rightarrow> string \<Rightarrow> ('d, 'n) company \<Rightarrow> unit result \<times> ('d, 'n) company" where
  "delete_user_handler env tok username = as_admin env tok (with_directory env (\<lambda>c s.
     let s1 = forget_logins (cx_faults env) username (revoke_sessions env username (revoke_vpn_best_effort env username s));
         s2 = s1\<lparr>co_dir := leave_all_groups (cx_ldap env) c username (co_dir s1)\<rparr> in
     and_then (or_400 ''delete user failed'' (on_dir (dir_delete_user (cx_ldap env) c username) s2)) (\<lambda>_ s.
       let s3 = snd (remove_calendar_login env username (snd (remove_webdav_login env username s))) in
       (Inr (), if cx_faults env ''clear disabled flag'' then s3 else clear_disabled username s3))))"

definition disable_user_handler :: "('d, 'n) company_env \<Rightarrow> string \<Rightarrow> string \<Rightarrow> ('d, 'n) company \<Rightarrow> unit result \<times> ('d, 'n) company" where
  "disable_user_handler env tok username = as_admin env tok (with_directory env (\<lambda>c s.
     and_then (or_400 ''disable user failed''
         (on_dir (dir_reset_password (cx_ldap env) c (cx_random env) username []) s)) (\<lambda>_ s.
       let s1 = snd (remove_calendar_login env username (snd (remove_webdav_login env username s)));
           s2 = revoke_sessions env username (revoke_vpn_best_effort env username s1) in
       if cx_faults env ''record disabled state'' then (Inl (internal_error ''record disabled state''), s2)
       else (Inr (), s2\<lparr>co_disabled := List.insert username (co_disabled s2)\<rparr>))))"

definition enable_user_handler :: "('d, 'n) company_env \<Rightarrow> string \<Rightarrow> string \<Rightarrow> ('d, 'n) company \<Rightarrow> string result \<times> ('d, 'n) company" where
  "enable_user_handler env tok username = as_admin env tok (with_directory env (\<lambda>c s.
     and_then (or_400 ''enable user failed''
         (on_dir (dir_reset_password (cx_ldap env) c (cx_random env) username []) s)) (\<lambda>used s.
       let s1 = follow_password env c username used s in
       if cx_faults env ''clear disabled state'' then (Inl (internal_error ''clear disabled state''), s1)
       else (Inr used, clear_disabled username s1))))"

section \<open>Groups\<close>

definition create_group_handler :: "('d, 'n) company_env \<Rightarrow> string \<Rightarrow> string \<Rightarrow> ('d, 'n) company \<Rightarrow> unit result \<times> ('d, 'n) company" where
  "create_group_handler env tok name = as_admin env tok (with_directory env (\<lambda>c s.
     and_then (check (name \<noteq> []) (HTTP 400 ''group name is required'') s) (\<lambda>_ s.
     and_then (or_400 ''create group failed'' (on_dir (dir_create_group (cx_ldap env) c name) s)) (\<lambda>_ s.
       (Inr (), follow_groups env c (snd (ensure_webdav_folders env [name] s)))))))"

definition delete_group_handler :: "('d, 'n) company_env \<Rightarrow> string \<Rightarrow> string \<Rightarrow> ('d, 'n) company \<Rightarrow> unit result \<times> ('d, 'n) company" where
  "delete_group_handler env tok name = as_admin env tok (with_directory env (\<lambda>c s.
     and_then (or_400 ''delete group failed'' (on_dir (dir_delete_group (cx_ldap env) c name) s)) (\<lambda>_ s.
       (Inr (), follow_groups env c s))))"

end
