(* ===== verification/Backup.thy ===== *)
theory Backup
  imports Docker People ModuleUpdate
begin

text \<open>
  Backup and restore (\<open>backend/internal/api/backup.go\<close>): the settings and the history of runs, a run that copies files,
  database and volumes to the destination, the two ways back, and the hourly look whether a run is due.  A run is one
  step, though it is a goroutine of the server.  The commands act on the tables and on whatever is outside the program,
  of any type \<open>'w\<close>: the destination, the volumes, the files of the share.
\<close>

section \<open>State\<close>

record backup_config =
  bc_destination :: string
  bc_key :: string
  bc_secret :: string
  bc_bucket :: string
  bc_region :: string
  bc_schedule :: string

record backup_run =
  br_id :: nat
  br_kind :: string
  br_started :: nat
  br_finished :: "nat option"
  br_status :: string
  br_error :: "string option"

record ('w, 'd, 'n) backups =
  bs_config :: "backup_config option"
  bs_runs :: "backup_run list"
  bs_next :: nat
  bs_lines :: "(string \<times> string) list"
  bs_dumps :: "string list"
  bs_world :: 'w
  bs_mgr :: manager
  bs_co :: "('d, 'n) company"

record ('w, 'd, 'n) backup_env =
  be_faults :: faults
  be_now :: nat
  be_docker :: "(('d, 'n) company \<times> 'w) docker"
  be_walk :: env_walk
  be_url :: string
  be_lc :: lc_env
  be_co :: "('d, 'n) company_env"

text \<open>There is one database: the company's view of the module tables is the manager's.\<close>

definition company_view :: "('w, 'd, 'n) backups \<Rightarrow> ('d, 'n) company" where
  "company_view s = (bs_co s)\<lparr>co_db := mg_db (bs_mgr s)\<rparr>"

definition with_company :: "('d, 'n) company \<Rightarrow> ('w, 'd, 'n) backups \<Rightarrow> ('w, 'd, 'n) backups" where
  "with_company c s = s\<lparr>bs_co := c, bs_mgr := (bs_mgr s)\<lparr>mg_db := co_db c\<rparr>\<rparr>"

definition on_world ::
  "((('d, 'n) company \<times> 'w) \<Rightarrow> ('e + 'a) \<times> (('d, 'n) company \<times> 'w)) \<Rightarrow> ('w, 'd, 'n) backups \<Rightarrow> ('e + 'a) \<times> ('w, 'd, 'n) backups" where
  "on_world g s = (case g (company_view s, bs_world s) of (r, c, w) \<Rightarrow> (r, with_company c (s\<lparr>bs_world := w\<rparr>)))"

section \<open>Settings\<close>

definition default_backup :: backup_config where
  "default_backup = \<lparr>bc_destination = ''local'', bc_key = [], bc_secret = [], bc_bucket = [], bc_region = [], bc_schedule = ''off''\<rparr>"

text \<open>Any error of the query reads as \<open>no row yet\<close>.\<close>

definition get_backup_config :: "faults \<Rightarrow> ('w, 'd, 'n) backups \<Rightarrow> backup_config" where
  "get_backup_config f s =
     (if f ''read backup config'' then default_backup else case bs_config s of None \<Rightarrow> default_backup | Some c \<Rightarrow> c)"

definition save_backup_config :: "faults \<Rightarrow> backup_config \<Rightarrow> ('w, 'd, 'n) backups \<Rightarrow> (string + unit) \<times> ('w, 'd, 'n) backups" where
  "save_backup_config f c s =
     (if f ''save backup config'' then (Inl ''save backup config'', s) else (Inr (), s\<lparr>bs_config := Some c\<rparr>))"

definition remote_env :: "string \<Rightarrow> string \<Rightarrow> string \<Rightarrow> (string \<times> string) list \<Rightarrow> (string \<times> string) list" where
  "remote_env provider key secret rest =
     [(''RCLONE_CONFIG_BACKUP_TYPE'', ''s3''), (''RCLONE_CONFIG_BACKUP_PROVIDER'', provider),
      (''RCLONE_CONFIG_BACKUP_ACCESS_KEY_ID'', key), (''RCLONE_CONFIG_BACKUP_SECRET_ACCESS_KEY'', secret)] @ rest"

definition running_module :: "faults \<Rightarrow> ('w, 'd, 'n) backups \<Rightarrow> string \<Rightarrow> config option" where
  "running_module f s mid = (case running_config f (mg_db (bs_mgr s)) mid of Inr (Some cfg) \<Rightarrow> Some cfg | _ \<Rightarrow> None)"

definition rclone_remote :: "faults \<Rightarrow> ('w, 'd, 'n) backups \<Rightarrow> string + (string \<times> string) list \<times> string" where
  "rclone_remote f s =
     (let c = get_backup_config f s in
      if bc_destination c = ''aws'' then
        (if bc_key c = [] \<or> bc_secret c = [] \<or> bc_bucket c = [] then Inl ''AWS backup isn't fully configured yet''
         else Inr (remote_env ''AWS'' (bc_key c) (bc_secret c) [(''RCLONE_CONFIG_BACKUP_REGION'', bc_region c)], ''backup:'' @ bc_bucket c))
      else case running_module f s ''s3-storage'' of
        None \<Rightarrow> Inl ''install the Backup Storage module first''
      | Some cfg \<Rightarrow>
          Inr (remote_env ''Other'' (config_value cfg ''access_key'') (config_value cfg ''secret_key'')
                 [(''RCLONE_CONFIG_BACKUP_ENDPOINT'', ''http://'' @ upstream_of ''s3-storage'' ''garage'' 3900),
                  (''RCLONE_CONFIG_BACKUP_REGION'', ''garage'')],
               ''backup:'' @ config_value cfg ''default_bucket''))"

section \<open>The history\<close>

definition start_run :: "faults \<Rightarrow> nat \<Rightarrow> string \<Rightarrow> ('w, 'd, 'n) backups \<Rightarrow> nat option \<times> ('w, 'd, 'n) backups" where
  "start_run f now kind s =
     (if f ''record run start'' then (None, s)
      else (Some (bs_next s), s\<lparr>bs_next := bs_next s + 1, bs_runs := bs_runs s @
        [\<lparr>br_id = bs_next s, br_kind = kind, br_started = now, br_finished = None, br_status = ''running'', br_error = None\<rparr>]\<rparr>))"

text \<open>The message is cut after 2000 bytes; the table takes it only if what is left is valid text.\<close>

definition finish_run ::
  "faults \<Rightarrow> nat \<Rightarrow> nat \<Rightarrow> string \<Rightarrow> string \<Rightarrow> string option \<Rightarrow> ('w, 'd, 'n) backups \<Rightarrow> ('w, 'd, 'n) backups" where
  "finish_run f now i kind status cause s =
     (let msg = (case cause of None \<Rightarrow> [] | Some e \<Rightarrow> clip e 2000);
          s1 = s\<lparr>bs_lines := bs_lines s @ [case cause of None \<Rightarrow> (''info'', kind @ '' finished: '' @ status)
            | Some _ \<Rightarrow> (''error'', kind @ '' finished with status '' @ status @ '': '' @ msg)]\<rparr> in
      if f ''record run finish'' \<or> \<not> pg_text msg then s1
      else s1\<lparr>bs_runs := map (\<lambda>r. if br_id r = i then r\<lparr>br_finished := Some now, br_status := status, br_error := Some msg\<rparr> else r)
        (bs_runs s1)\<rparr>)"

definition report_run ::
  "faults \<Rightarrow> nat \<Rightarrow> nat \<Rightarrow> string \<Rightarrow> string list \<times> ('w, 'd, 'n) backups \<Rightarrow> ('w, 'd, 'n) backups" where
  "report_run f now i kind r =
     (case r of (failures, s) \<Rightarrow>
        if failures \<noteq> [] then finish_run f now i kind ''error'' (Some (join [newline] failures)) s
        else finish_run f now i kind ''success'' None s)"

definition clear_interrupted :: "faults \<Rightarrow> nat \<Rightarrow> ('w, 'd, 'n) backups \<Rightarrow> ('w, 'd, 'n) backups" where
  "clear_interrupted f now s =
     (if f ''clear interrupted runs'' then s
      else s\<lparr>bs_runs := map (\<lambda>r. if br_status r = ''running'' then r\<lparr>br_finished := Some now, br_status := ''error'',
        br_error := Some ''Interrupted: the platform restarted during this run''\<rparr> else r) (bs_runs s)\<rparr>)"

section \<open>Backing up\<close>

definition backup_network :: string where "backup_network = ''it-platform-edge''"
definition platform_dump_path :: string where "platform_dump_path = ''/platform/db.dump''"

definition backup_keep_tables :: "string list" where
  "backup_keep_tables = [''backup_runs'', ''backup_runs_id_seq'', ''backup_config'', ''audit_log'', ''audit_log_id_seq'']"

definition volume_path :: "string \<Rightarrow> string \<Rightarrow> string \<Rightarrow> string" where
  "volume_path root mid key = root @ ''/platform/'' @ mid @ ''/'' @ key @ ''.tar.gz''"

text \<open>A part that fails is put on the list, and the next one is tried all the same.\<close>

definition try_part ::
  "string \<Rightarrow> ('s \<Rightarrow> (string + 'a) \<times> 's) \<Rightarrow> string list \<times> 's \<Rightarrow> string list \<times> 's" where
  "try_part what g fs = (case fs of (failures, s) \<Rightarrow>
     (case g s of (Inl e, s1) \<Rightarrow> (failures @ [what @ '': '' @ e], s1) | (Inr _, s1) \<Rightarrow> (failures, s1)))"

definition copy_share ::
  "('w, 'd, 'n) backup_env \<Rightarrow> bool \<Rightarrow> (string \<times> string) list \<Rightarrow> string \<Rightarrow> string \<Rightarrow> ('w, 'd, 'n) backups \<Rightarrow> (string + string) \<times> ('w, 'd, 'n) backups" where
  "copy_share env writable remote src dst = on_world (dk_rclone_copy (be_docker env) (be_walk env)
     (volume_name ''fileshare-webdav'' ''webdav_data'') writable backup_network remote src dst)"

definition backup_files ::
  "('w, 'd, 'n) backup_env \<Rightarrow> (string \<times> string) list \<Rightarrow> string \<Rightarrow> string list \<times> ('w, 'd, 'n) backups \<Rightarrow> string list \<times> ('w, 'd, 'n) backups" where
  "backup_files env remote root fs =
     (if running_module (be_faults env) (snd fs) ''fileshare-webdav'' = None then fs
      else try_part ''files'' (copy_share env False remote ''/data'' (root @ ''/webdav'')) fs)"

definition backup_database ::
  "('w, 'd, 'n) backup_env \<Rightarrow> (string \<times> string) list \<Rightarrow> string \<Rightarrow> string list \<times> ('w, 'd, 'n) backups \<Rightarrow> string list \<times> ('w, 'd, 'n) backups" where
  "backup_database env remote root = try_part ''database'' (on_world (dk_dump_database (be_docker env) (be_walk env) backup_network
     (be_url env) remote (root @ platform_dump_path) backup_keep_tables))"

definition backup_volume ::
  "('w, 'd, 'n) backup_env \<Rightarrow> (string \<times> string) list \<Rightarrow> string \<Rightarrow> string \<Rightarrow> string \<times> string
     \<Rightarrow> string list \<times> ('w, 'd, 'n) backups \<Rightarrow> string list \<times> ('w, 'd, 'n) backups" where
  "backup_volume env remote root mid kv = try_part (mid @ '' '' @ fst kv) (on_world (dk_backup_volume (be_docker env) (be_walk env)
     (snd kv) backup_network remote (volume_path root mid (fst kv))))"

definition backup_modules ::
  "('w, 'd, 'n) backup_env \<Rightarrow> (string \<times> string) list \<Rightarrow> string \<Rightarrow> string list \<times> ('w, 'd, 'n) backups \<Rightarrow> string list \<times> ('w, 'd, 'n) backups" where
  "backup_modules env remote root fs =
     (case installed_ids (be_faults env) (mg_db (bs_mgr (snd fs))) of
        Inl e \<Rightarrow> (fst fs @ [''module list: '' @ e], snd fs)
      | Inr ids \<Rightarrow> fold (\<lambda>mid fs. fold (backup_volume env remote root mid) (be_walk env (backup_volumes (bs_mgr (snd fs)) mid)) fs) ids fs)"

definition run_backup :: "('w, 'd, 'n) backup_env \<Rightarrow> ('w, 'd, 'n) backups \<Rightarrow> ('w, 'd, 'n) backups" where
  "run_backup env s =
     (let f = be_faults env; now = be_now env in
      case start_run f now ''backup'' s of
        (None, s1) \<Rightarrow> s1
      | (Some i, s1) \<Rightarrow>
          (case rclone_remote f s1 of
             Inl e \<Rightarrow> finish_run f now i ''backup'' ''error'' (Some e) s1
           | Inr (remote, root) \<Rightarrow> report_run f now i ''backup''
               (backup_modules env remote root (backup_database env remote root (backup_files env remote root ([], s1))))))"

section \<open>Restoring\<close>

definition restore_folders :: "('w, 'd, 'n) backup_env \<Rightarrow> ('w, 'd, 'n) backups \<Rightarrow> ('w, 'd, 'n) backups" where
  "restore_folders env s = with_company (backfill_folders (be_co env) (company_view s)) s"

definition run_restore :: "('w, 'd, 'n) backup_env \<Rightarrow> ('w, 'd, 'n) backups \<Rightarrow> ('w, 'd, 'n) backups" where
  "run_restore env s =
     (let f = be_faults env; now = be_now env in
      case start_run f now ''restore'' s of
        (None, s1) \<Rightarrow> s1
      | (Some i, s1) \<Rightarrow>
          if running_module f s1 ''fileshare-webdav'' = None
          then finish_run f now i ''restore'' ''error'' (Some ''install the fileshare (WebDAV) module first'') s1
          else case rclone_remote f s1 of
            Inl e \<Rightarrow> finish_run f now i ''restore'' ''error'' (Some e) s1
          | Inr (remote, root) \<Rightarrow>
              (case copy_share env True remote (root @ ''/webdav'') ''/data'' s1 of
                 (Inl e, s2) \<Rightarrow> finish_run f now i ''restore'' ''error'' (Some e) s2
               | (Inr _, s2) \<Rightarrow> finish_run f now i ''restore'' ''success'' None (restore_folders env s2)))"

definition restore_volume ::
  "('w, 'd, 'n) backup_env \<Rightarrow> (string \<times> string) list \<Rightarrow> string \<Rightarrow> string \<Rightarrow> string \<times> string
     \<Rightarrow> string list \<times> ('w, 'd, 'n) backups \<Rightarrow> string list \<times> ('w, 'd, 'n) backups" where
  "restore_volume env remote root mid kv = try_part (mid @ '' '' @ fst kv) (on_world (dk_restore_volume (be_docker env) (be_walk env)
     (snd kv) backup_network remote (volume_path root mid (fst kv))))"

definition on_manager :: "(manager \<Rightarrow> ('e + 'a) \<times> manager) \<Rightarrow> ('w, 'd, 'n) backups \<Rightarrow> ('e + 'a) \<times> ('w, 'd, 'n) backups" where
  "on_manager g s = (case g (bs_mgr s) of (r, m) \<Rightarrow> (r, s\<lparr>bs_mgr := m\<rparr>))"

text \<open>One module: its volumes, then the files when it is the share, then its containers.\<close>

definition restore_module ::
  "('w, 'd, 'n) backup_env \<Rightarrow> (string \<times> string) list \<Rightarrow> string \<Rightarrow> string \<Rightarrow> string list \<times> ('w, 'd, 'n) backups \<Rightarrow> string list \<times> ('w, 'd, 'n) backups" where
  "restore_module env remote root mid fs =
     (if mid = ''s3-storage'' then fs
      else let fs1 = fold (restore_volume env remote root mid) (be_walk env (backup_volumes (bs_mgr (snd fs)) mid)) fs;
               fs2 = (if mid = ''fileshare-webdav'' then try_part ''files'' (copy_share env True remote (root @ ''/webdav'') ''/data'') fs1 else fs1)
           in try_part mid (on_manager (\<lambda>m. reinstall (be_lc env) m mid)) fs2)"

definition restore_database ::
  "('w, 'd, 'n) backup_env \<Rightarrow> (string \<times> string) list \<Rightarrow> string \<Rightarrow> ('w, 'd, 'n) backups \<Rightarrow> (string + unit) \<times> ('w, 'd, 'n) backups" where
  "restore_database env remote root = on_world (dk_restore_database (be_docker env) (be_walk env) backup_network (be_url env) remote
     (root @ platform_dump_path))"

text \<open>After the database is back: the settings, then module by module.\<close>

definition restore_modules ::
  "('w, 'd, 'n) backup_env \<Rightarrow> (string \<times> string) list \<Rightarrow> string \<Rightarrow> nat \<Rightarrow> ('w, 'd, 'n) backups \<Rightarrow> ('w, 'd, 'n) backups" where
  "restore_modules env remote root i s =
     (let f = be_faults env; s1 = snd (on_manager (reload_settings f) s) in
      case installed_ids f (mg_db (bs_mgr s1)) of
        Inl e \<Rightarrow> finish_run f (be_now env) i ''restore-platform'' ''error'' (Some e) s1
      | Inr ids \<Rightarrow>
          (case fold (restore_module env remote root) ids ([], s1) of
             (failures, s2) \<Rightarrow> report_run f (be_now env) i ''restore-platform'' (failures, restore_folders env s2)))"

definition run_restore_platform :: "('w, 'd, 'n) backup_env \<Rightarrow> ('w, 'd, 'n) backups \<Rightarrow> ('w, 'd, 'n) backups" where
  "run_restore_platform env s =
     (let f = be_faults env; now = be_now env; kind = ''restore-platform'' in
      case start_run f now kind s of
        (None, s1) \<Rightarrow> s1
      | (Some i, s1) \<Rightarrow>
          (case rclone_remote f s1 of
             Inl e \<Rightarrow> finish_run f now i kind ''error'' (Some e) s1
           | Inr (remote, root) \<Rightarrow>
               (case db_snapshot f now ''before-restore'' (bs_dumps s1) of
                  (Inl e, dumps) \<Rightarrow> finish_run f now i kind ''error''
                    (Some (''not restoring: couldn't take a safety snapshot of the current data first: '' @ e)) (s1\<lparr>bs_dumps := dumps\<rparr>)
                | (Inr _, dumps) \<Rightarrow>
                    (case restore_database env remote root (s1\<lparr>bs_dumps := dumps\<rparr>) of
                       (Inl e, s2) \<Rightarrow> finish_run f now i kind ''error'' (Some (''restore database: '' @ e)) s2
                     | (Inr _, s2) \<Rightarrow> restore_modules env remote root i s2))))"

section \<open>The schedule\<close>

definition backup_interval :: "backup_config \<Rightarrow> nat" where
  "backup_interval c = (if bc_schedule c = ''weekly'' then 7 * us_per_day else us_per_day)"

definition last_backup :: "('w, 'd, 'n) backups \<Rightarrow> nat option" where
  "last_backup s = (case map br_started (filter (\<lambda>r. br_kind r = ''backup'') (bs_runs s)) of [] \<Rightarrow> None | t # ts \<Rightarrow> Some (fold max ts t))"

definition backup_due :: "faults \<Rightarrow> nat \<Rightarrow> ('w, 'd, 'n) backups \<Rightarrow> bool" where
  "backup_due f now s =
     (let c = get_backup_config f s in
      bc_schedule c \<noteq> ''off''
      \<and> (case (if f ''read last backup'' then None else last_backup s) of
           None \<Rightarrow> True | Some t \<Rightarrow> \<not> int now - int t < int (backup_interval c)))"

definition maybe_run_backup :: "('w, 'd, 'n) backup_env \<Rightarrow> ('w, 'd, 'n) backups \<Rightarrow> ('w, 'd, 'n) backups" where
  "maybe_run_backup env s = (if backup_due (be_faults env) (be_now env) s then run_backup env s else s)"

section \<open>The panel\<close>

definition backup_admin ::
  "('w, 'd, 'n) backup_env \<Rightarrow> string \<Rightarrow> (('w, 'd, 'n) backups \<Rightarrow> 'a result \<times> ('w, 'd, 'n) backups) \<Rightarrow> ('w, 'd, 'n) backups
     \<Rightarrow> 'a result \<times> ('w, 'd, 'n) backups" where
  "backup_admin env tok k s =
     (case require_auth (be_faults env) (cx_now (be_co env)) (co_admin (bs_co s)) tok of Inl e \<Rightarrow> (Inl e, s) | Inr _ \<Rightarrow> k s)"

definition get_backup_settings ::
  "('w, 'd, 'n) backup_env \<Rightarrow> string \<Rightarrow> ('w, 'd, 'n) backups \<Rightarrow> backup_config result \<times> ('w, 'd, 'n) backups" where
  "get_backup_settings env tok = backup_admin env tok (\<lambda>s. (Inr ((get_backup_config (be_faults env) s)\<lparr>bc_secret := []\<rparr>), s))"

definition kept_secret :: "faults \<Rightarrow> backup_config \<Rightarrow> ('w, 'd, 'n) backups \<Rightarrow> backup_config" where
  "kept_secret f c s =
     (if bc_destination c = ''aws'' \<and> bc_secret c = [] then c\<lparr>bc_secret := bc_secret (get_backup_config f s)\<rparr> else c)"

definition set_backup_settings ::
  "('w, 'd, 'n) backup_env \<Rightarrow> string \<Rightarrow> backup_config \<Rightarrow> ('w, 'd, 'n) backups \<Rightarrow> unit result \<times> ('w, 'd, 'n) backups" where
  "set_backup_settings env tok c = backup_admin env tok (\<lambda>s.
     if bc_destination c \<noteq> ''local'' \<and> bc_destination c \<noteq> ''aws''
     then (Inl (HTTP 400 (''destination must be '' @ quoted ''local'' @ '' or '' @ quoted ''aws'')), s)
     else if bc_schedule c \<noteq> ''off'' \<and> bc_schedule c \<noteq> ''daily'' \<and> bc_schedule c \<noteq> ''weekly''
     then (Inl (HTTP 400 (''schedule must be '' @ quoted ''off'' @ '', '' @ quoted ''daily'' @ '', or '' @ quoted ''weekly'')), s)
     else or_500 ''save backup config'' (save_backup_config (be_faults env) (kept_secret (be_faults env) c s) s))"

text \<open>The three buttons answer at once; the run they start is the next step.\<close>

datatype backup_job = Backup_now | Restore_now | Restore_platform_now

fun run_job :: "('w, 'd, 'n) backup_env \<Rightarrow> backup_job \<Rightarrow> ('w, 'd, 'n) backups \<Rightarrow> ('w, 'd, 'n) backups" where
  "run_job env Backup_now s = run_backup env s"
| "run_job env Restore_now s = run_restore env s"
| "run_job env Restore_platform_now s = run_restore_platform env s"

definition start_job ::
  "('w, 'd, 'n) backup_env \<Rightarrow> string \<Rightarrow> backup_job \<Rightarrow> ('w, 'd, 'n) backups \<Rightarrow> backup_job result \<times> ('w, 'd, 'n) backups" where
  "start_job env tok j = backup_admin env tok (\<lambda>s. (Inr j, s))"

record run_out =
  ro_kind :: string
  ro_started :: string
  ro_finished :: "string option"
  ro_status :: string
  ro_error :: "string option"

definition run_out_of :: "backup_run \<Rightarrow> run_out" where
  "run_out_of r = \<lparr>ro_kind = br_kind r, ro_started = rfc3339 (br_started r), ro_finished = map_option rfc3339 (br_finished r),
     ro_status = br_status r, ro_error = br_error r\<rparr>"

definition list_backup_runs ::
  "('w, 'd, 'n) backup_env \<Rightarrow> string \<Rightarrow> ('w, 'd, 'n) backups \<Rightarrow> run_out list result \<times> ('w, 'd, 'n) backups" where
  "list_backup_runs env tok = backup_admin env tok (\<lambda>s.
     if be_faults env ''list backup runs'' then (Inl (internal_error ''list backup runs''), s)
     else (Inr (map run_out_of (take 20 (order_by (\<lambda>a b. br_started b < br_started a) (bs_runs s)))), s))"

end
