(* ===== verification/ShareProps.thy ===== *)
theory ShareProps
  imports People "HOL-Library.Multiset"
begin

text \<open>
  What the file share lets an employee do: the rules written for it (\<open>backend/internal/webdavfs/sync.go\<close>), read with the
  share's own law that the most specific path prefix decides; and the logins of the calendar server
  (\<open>backend/internal/radicalefs/sync.go\<close>), whose file reads back as it was written.
\<close>

section \<open>Who may enter which folder\<close>

definition most_specific :: "(share_rule list \<Rightarrow> string \<Rightarrow> string) \<Rightarrow> bool" where
  "most_specific allow \<longleftrightarrow> (\<forall>rules path p perm. (p, perm) \<in> set rules \<and> has_prefix path p
     \<and> (\<forall>r \<in> set rules. has_prefix path (fst r) \<longrightarrow> length (fst r) < length p \<or> r = (p, perm)) \<longrightarrow> allow rules path = perm)"

definition folder_name :: "string \<Rightarrow> bool" where
  "folder_name n \<longleftrightarrow> n \<noteq> [] \<and> CHR ''/'' \<notin> set n"

lemma folder_prefix: "folder_name n \<Longrightarrow> folder_name m \<Longrightarrow> has_prefix (folder n @ rest) (folder m) \<longleftrightarrow> m = n"
proof -
  assume nm: "folder_name n" "folder_name m"
  have "m = n" if "n @ CHR ''/'' # rest = m @ CHR ''/'' # ys" for ys
  proof -
    have "cut_chr (CHR ''/'') (n @ CHR ''/'' # rest) = (n, rest, True)" "cut_chr (CHR ''/'') (m @ CHR ''/'' # ys) = (m, ys, True)"
      using nm by (auto simp: folder_name_def intro!: cut_chr_append)
    then show ?thesis using that by (metis prod.inject)
  qed
  then show ?thesis by (auto simp: has_prefix_iff folder_def)
qed

lemma root_prefix: "has_prefix (folder n @ rest) ''/''"
  by (simp add: folder_def)

lemma folder_inj: "folder a = folder b \<longleftrightarrow> a = b"
  by (simp add: folder_def)

lemma folder_longer: "folder_name n \<Longrightarrow> length ''/'' < length (folder n)"
  by (simp add: folder_def)

definition may_enter :: "string \<Rightarrow> string \<Rightarrow> string \<Rightarrow> bool" where
  "may_enter self g n \<longleftrightarrow> n = self \<or> n = shared_folder \<or> n = g"

lemma folder_rule:
  assumes "folder_name n"
  shows "(folder n, x) \<in> set (rules_for self users g groups) \<longleftrightarrow>
    x = ''CRUD'' \<and> may_enter self g n \<or> x = ''none'' \<and> (n \<in> set users \<and> n \<noteq> self \<or> n \<in> set groups \<and> n \<noteq> g)"
proof -
  have "folder n \<noteq> ''/''" using folder_longer [OF assms] by auto
  moreover have "n = g \<Longrightarrow> g \<noteq> []" using assms by (auto simp: folder_name_def)
  ultimately have mem: "(folder n, x) \<in> set (rules_for self users g groups) \<longleftrightarrow>
      (folder n, x) = (folder self, ''CRUD'') \<or> (folder n, x) = (folder shared_folder, ''CRUD'') \<or> n = g \<and> x = ''CRUD''
      \<or> n \<in> set users \<and> n \<noteq> self \<and> x = ''none'' \<or> n \<in> set groups \<and> n \<noteq> g \<and> x = ''none''"
    by (simp add: rules_for_def image_iff folder_inj) blast
  show ?thesis unfolding mem may_enter_def prod.inject folder_inj by blast
qed

lemma other_rule:
  assumes "(p, x) \<in> set (rules_for self users g groups)"
  shows "p = ''/'' \<and> x = ''R'' \<or> (\<exists>m. p = folder m \<and> (m = self \<or> m = shared_folder \<or> m = g \<and> g \<noteq> [] \<or> m \<in> set users \<or> m \<in> set groups))"
  using assms unfolding rules_for_def by (auto split: if_splits)

definition separate_names :: "string list \<Rightarrow> string list \<Rightarrow> bool" where
  "separate_names users groups \<longleftrightarrow> list_all folder_name (users @ groups) \<and> set users \<inter> set groups = {}
     \<and> shared_folder \<notin> set users \<and> shared_folder \<notin> set groups"

lemma rules_decide:
  assumes "most_specific allow" "separate_names users groups" "self \<in> set users" "g = [] \<or> g \<in> set groups" "folder_name n"
  shows "allow (rules_for self users g groups) (folder n @ rest) =
    (if may_enter self g n then ''CRUD'' else if n \<in> set users \<or> n \<in> set groups then ''none'' else ''R'')"
proof -
  let ?R = "rules_for self users g groups" and ?path = "folder n @ rest"
  have names: "folder_name u" if "u \<in> set users \<or> u \<in> set groups \<or> u = shared_folder" for u
    using assms(2) that by (auto simp: separate_names_def list_all_iff folder_name_def shared_folder_def)
  have matching: "p = ''/'' \<and> x = ''R'' \<or> p = folder n" if r: "(p, x) \<in> set ?R" "has_prefix ?path p" for p x
  proof -
    have "p = ''/'' \<and> x = ''R'' \<or> (\<exists>m. p = folder m \<and> folder_name m)"
      using other_rule [OF r(1)] names assms(3,4) by blast
    then show ?thesis using r(2) folder_prefix [OF assms(5)] by blast
  qed
  have decided: "allow ?R ?path = y" if r: "(p, y) \<in> set ?R" "has_prefix ?path p"
    "\<And>p' x. (p', x) \<in> set ?R \<Longrightarrow> has_prefix ?path p' \<Longrightarrow> length p' < length p \<or> (p', x) = (p, y)" for p y
    using assms(1) r unfolding most_specific_def by (metis prod.collapse)
  have at_folder: "allow ?R ?path = y" if "(folder n, y) \<in> set ?R" "\<And>x. (folder n, x) \<in> set ?R \<Longrightarrow> x = y" for y
    by (rule decided [OF that(1)]) (simp, use matching that(2) folder_longer [OF assms(5)] in blast)
  have at_root: "allow ?R ?path = ''R''" if "\<And>x. (folder n, x) \<notin> set ?R"
    by (rule decided [of "''/''"]) (simp add: rules_for_def, rule root_prefix, use matching that in blast)
  note rule = folder_rule [OF assms(5)]
  have sep: "shared_folder \<notin> set users" "shared_folder \<notin> set groups" "\<And>x. x \<in> set users \<Longrightarrow> x \<notin> set groups"
    using assms(2) unfolding separate_names_def by blast+
  have "n \<noteq> []" using assms(5) by (simp add: folder_name_def)
  then have own: "n = g \<Longrightarrow> n \<in> set groups" using assms(4) by auto
  consider "may_enter self g n" | "\<not> may_enter self g n" "n \<in> set users \<or> n \<in> set groups"
    | "\<not> may_enter self g n" "n \<notin> set users" "n \<notin> set groups" by blast
  then show ?thesis
  proof cases
    case 1
    have only: "x = ''CRUD''" if "(folder n, x) \<in> set ?R" for x
    proof -
      have "\<not> (n \<in> set users \<and> n \<noteq> self)"
      proof
        assume "n \<in> set users \<and> n \<noteq> self"
        then show False using 1 sep own by (auto simp only: may_enter_def)
      qed
      moreover have "\<not> (n \<in> set groups \<and> n \<noteq> g)"
      proof
        assume "n \<in> set groups \<and> n \<noteq> g"
        then show False using 1 sep assms(3) by (auto simp only: may_enter_def)
      qed
      ultimately show ?thesis using that unfolding rule by blast
    qed
    have "(folder n, ''CRUD'') \<in> set ?R" unfolding rule using 1 by simp
    then have "allow ?R ?path = ''CRUD''" using only by (rule at_folder)
    then show ?thesis using 1 by simp
  next
    case 2
    then show ?thesis using at_folder [of "''none''"] unfolding rule may_enter_def by auto
  next
    case 3
    then show ?thesis using at_root unfolding rule by auto
  qed
qed

text \<open>The codec of the configuration file gives back what was written.\<close>

definition codec_ok :: "share_env \<Rightarrow> bool" where
  "codec_ok env \<longleftrightarrow> (\<forall>cfg out. se_print env cfg = Inr out \<longrightarrow> se_parse env out = Inr cfg)"

lemma write_share_reads:
  assumes "codec_ok env" "write_share env volume container cfg v = (Inr (), v')" "read_share env volume v' = (Inr cfg', v2)"
  shows "cfg' = cfg"
  using assms by (auto simp: write_share_def read_share_def write_volume_file_def read_volume_file_def restart_container_def
      codec_ok_def update_conv' split: if_splits option.splits dest!: and_then_Inr)


text \<open>A share that follows the law, and a small company.\<close>

definition longest_rule :: "share_rule list \<Rightarrow> string \<Rightarrow> string" where
  "longest_rule rules path =
     (case filter (\<lambda>r. has_prefix path (fst r)
         \<and> list_all (\<lambda>q. has_prefix path (fst q) \<longrightarrow> length (fst q) \<le> length (fst r)) rules) rules of
        [] \<Rightarrow> [] | r # _ \<Rightarrow> snd r)"

lemma longest_rule_law: "most_specific longest_rule"
  unfolding most_specific_def
proof (intro allI impI)
  fix rules :: "share_rule list" and path p perm
  assume r: "(p, perm) \<in> set rules \<and> has_prefix path p
     \<and> (\<forall>r \<in> set rules. has_prefix path (fst r) \<longrightarrow> length (fst r) < length p \<or> r = (p, perm))"
  let ?L = "filter (\<lambda>r. has_prefix path (fst r)
         \<and> list_all (\<lambda>q. has_prefix path (fst q) \<longrightarrow> length (fst q) \<le> length (fst r)) rules) rules"
  have mem: "(p, perm) \<in> set ?L" using r by (auto simp: list_all_iff)
  have only: "x = (p, perm)" if x: "x \<in> set ?L" for x
  proof -
    have "length p \<le> length (fst x)" "x \<in> set rules" "has_prefix path (fst x)" using x r by (auto simp: list_all_iff)
    then show ?thesis using r by (meson linorder_not_less)
  qed
  show "longest_rule rules path = perm"
  proof (cases ?L)
    case Nil
    then show ?thesis using mem by simp
  next
    case (Cons x xs)
    then have "x = (p, perm)" by (intro only) simp
    then show ?thesis using Cons by (simp add: longest_rule_def)
  qed
qed

definition sx_users :: "string list" where "sx_users = [''ann'', ''bob'']"
definition sx_groups :: "string list" where "sx_groups = [''sales'', ''it'']"
definition sx_map :: group_map where "sx_map = [(''ann'', ''sales''), (''bob'', ''it'')]"

definition sx_config :: share_config where
  "sx_config = \<lparr>sc_address = ''0.0.0.0'', sc_port = 6065, sc_tls = False, sc_prefix = ''/'', sc_proxy = True, sc_directory = ''/data'',
     sc_perm = ''none'', sc_users = [\<lparr>su_name = ''admin'', su_password = ''x'', su_perm = ''CRUD'', su_rules = []\<rparr>,
       \<lparr>su_name = ''ann'', su_password = ''y'', su_perm = ''none'', su_rules = []\<rparr>]\<rparr>"

definition sx_new :: share_config where
  "sx_new = apply_rules sx_users sx_map sx_groups sx_config"

definition sx_env :: share_env where
  "sx_env = \<lparr>se_faults = no_faults, se_parse = (\<lambda>raw. Inr (if raw = ''new'' then sx_new else sx_config)),
     se_print = (\<lambda>c. if c = sx_new then Inr ''new'' else Inl ''x''), se_bcrypt = (\<lambda>_. None)\<rparr>"

definition sx_ann :: share_user where
  "sx_ann = \<lparr>su_name = ''ann'', su_password = ''y'', su_perm = ''none'', su_rules = rules_for ''ann'' sx_users ''sales'' sx_groups\<rparr>"

section \<open>The logins of the calendar server\<close>

definition login_line :: "string \<times> string \<Rightarrow> bool" where
  "login_line p \<longleftrightarrow> CHR '':'' \<notin> set (fst p) \<and> newline \<notin> set (fst p) \<and> newline \<notin> set (snd p)
     \<and> trim_space (fst p @ CHR '':'' # snd p) = fst p @ CHR '':'' # snd p"

definition login_table :: "(string \<times> string) list \<Rightarrow> bool" where
  "login_table us \<longleftrightarrow> distinct (map fst us) \<and> list_all login_line us"

lemma parse_login_line: "login_line (n, h) \<Longrightarrow> parse_user_line (n @ CHR '':'' # h) = Some (n, h)"
  by (simp add: login_line_def parse_user_line_def Let_def cut_chr_append)

lemma parse_format_users:
  assumes "login_table us"
  shows "parse_users (format_users us) = us"
proof -
  let ?line = "\<lambda>(name, h). name @ CHR '':'' # h"
  have lines: "format_users us = text_lines (map ?line us)" by (simp add: format_users_def)
  have "list_all (\<lambda>l. newline \<notin> set l) (map ?line us)"
    using assms by (auto simp: login_table_def login_line_def list_all_iff)
  then have "split_chr newline (format_users us) = map ?line us @ [[]]"
    unfolding lines by (intro split_text_lines) (auto simp: list_all_iff)
  moreover have "List.map_filter parse_user_line (map ?line us) = us"
  proof -
    have "list_all login_line us" using assms by (simp add: login_table_def)
    then show ?thesis by (induction us) (auto simp: parse_login_line map_filter_def)
  qed
  moreover have "parse_user_line [] = None" by (simp add: parse_user_line_def trim_space_def)
  ultimately show ?thesis
    using assms fold_update_fresh [of "[]" us] by (simp add: parse_users_def map_filter_def login_table_def)
qed

lemma login_table_update:
  assumes "login_table us" "login_line (n, h)"
  shows "login_table (AList.update n h us)"
proof -
  have "set (AList.update n h us) \<subseteq> insert (n, h) (set us)" by (induction us) auto
  then show ?thesis using assms by (auto simp: login_table_def list_all_iff distinct_update)
qed

text \<open>Walking a Go map meets every entry once, in some order.\<close>

definition walks :: "cal_env \<Rightarrow> bool" where
  "walks env \<longleftrightarrow> (\<forall>us. distinct (map fst us) \<longrightarrow> mset (ce_walk env us) = mset us)"

lemma walked_table:
  assumes "walks env" "login_table us"
  shows "login_table (ce_walk env us)" "map_of (ce_walk env us) = map_of us"
proof -
  have m: "mset (ce_walk env us) = mset us" using assms by (auto simp: walks_def login_table_def)
  then have d: "distinct (map fst (ce_walk env us))"
    using assms(2) by (metis login_table_def mset_map mset_eq_imp_distinct_iff)
  then show "login_table (ce_walk env us)"
    using m assms(2) by (metis login_table_def list_all_iff set_mset_mset)
  show "map_of (ce_walk env us) = map_of us"
    using m d assms(2) by (intro map_of_inject_set [THEN iffD2]) (auto simp: login_table_def dest: mset_eq_setD)
qed

lemma write_users_reads:
  assumes "walks env" "login_table us" "write_users env volume container us v = (Inr (), v')" "\<not> ce_faults env (''read '' @ volume)"
  shows "\<exists>us'. read_users env volume v' = (Inr us', v') \<and> map_of us' = map_of us \<and> login_table us'"
proof -
  have "v' = AList.update (volume, ''users'') (format_users (ce_walk env us)) v"
    using assms(3) by (auto simp: write_users_def write_volume_file_def restart_container_def split: if_splits dest!: and_then_Inr)
  then have "read_users env volume v' = (Inr (ce_walk env us), v')"
    using assms(4) walked_table(1) [OF assms(1,2)]
    by (simp add: read_users_def read_volume_file_def wrapped_def update_conv' parse_format_users)
  then show ?thesis using walked_table [OF assms(1,2)] by blast
qed

text \<open>After a calendar login was written the file reads back with that login added or replaced and every other one
  kept; after it was removed again, the others are still there.\<close>

theorem calendar_logins_kept:
  assumes "walks env" "\<not> ce_faults env (''read '' @ volume)" "read_users env volume v = (Inr us, v)" "login_table us"
    and "ce_bcrypt env pw = Inr h" "login_line (name, h)"
    and "cal_sync_user env volume container name pw v = (Inr (), v1)"
    and "cal_remove_user env volume container name v1 = (Inr (), v2)"
  shows "(\<exists>us1. read_users env volume v1 = (Inr us1, v1) \<and> map_of us1 = (map_of us)(name \<mapsto> h))
    \<and> (\<exists>us2. read_users env volume v2 = (Inr us2, v2) \<and> map_of us2 = (map_of us)(name := None))"
proof -
  have "write_users env volume container (AList.update name h us) v = (Inr (), v1)"
    using assms(3,5,7) by (auto simp: cal_sync_user_def cal_hash_def dest!: and_then_Inr)
  from write_users_reads [OF assms(1) login_table_update [OF assms(4,6)] this assms(2)]
  obtain us1 where us1: "read_users env volume v1 = (Inr us1, v1)" "map_of us1 = (map_of us)(name \<mapsto> h)" "login_table us1"
    by (auto simp: update_conv')
  let ?left = "filter (\<lambda>(k, h). k \<noteq> name) us1"
  have "login_table ?left" using us1(3) by (auto simp: login_table_def list_all_iff distinct_map_filter')
  moreover have "write_users env volume container ?left v1 = (Inr (), v2)"
    using assms(8) us1 by (simp add: cal_remove_user_def)
  ultimately obtain us2 where us2: "read_users env volume v2 = (Inr us2, v2)" "map_of us2 = map_of ?left"
    using write_users_reads [OF assms(1) _ _ assms(2)] by blast
  have "map_of ?left = (map_of us)(name := None)"
    by (rule ext) (simp add: map_of_filter_keys [of "\<lambda>k. k \<noteq> name"] us1(2))
  then have "map_of us2 = (map_of us)(name := None)" using us2(2) by simp
  with us2(1) us1(1,2) show ?thesis by (intro conjI exI [of _ us1] exI [of _ us2])
qed
definition calx_env :: cal_env where
  "calx_env = \<lparr>ce_faults = no_faults, ce_bcrypt = (\<lambda>pw. Inr (''$2a$'' @ pw)), ce_walk = rev, ce_login = (\<lambda>_ _. Inr ()),
     ce_ensure = (\<lambda>_ _ _ _. Inr ())\<rparr>"

lemma calx_line: "login_line (''ann'', ''$2a$pw'')" "login_line (''bob'', ''x'')"
  by (simp_all add: login_line_def trim_space_ascii ascii_def space_rune_def byte_def)

theorem calendar_logins_kept_witness:
  "(\<exists>us. read_users calx_env ''v'' (snd (cal_sync_user calx_env ''v'' ''c'' ''ann'' ''pw'' [((''v'', ''users''), format_users [(''bob'', ''x'')])]))
       = (Inr us, snd (cal_sync_user calx_env ''v'' ''c'' ''ann'' ''pw'' [((''v'', ''users''), format_users [(''bob'', ''x'')])]))
     \<and> map_of us ''bob'' = Some ''x'' \<and> map_of us ''ann'' = Some ''$2a$pw'')"
proof -
  let ?v = "[((''v'', ''users''), format_users [(''bob'', ''x'')])]"
  let ?one = "cal_sync_user calx_env ''v'' ''c'' ''ann'' ''pw'' ?v"
  let ?two = "cal_remove_user calx_env ''v'' ''c'' ''ann'' (snd ?one)"
  have walks: "walks calx_env" by (simp add: walks_def calx_env_def)
  have table: "login_table [(''bob'', ''x'')]" by (simp add: login_table_def calx_line)
  have read: "read_users calx_env ''v'' ?v = (Inr [(''bob'', ''x'')], ?v)"
    by (simp add: read_users_def read_volume_file_def wrapped_def calx_env_def no_faults_def parse_format_users [OF table])
  have one: "fst ?one = Inr ()"
    using read by (simp add: cal_sync_user_def cal_hash_def calx_env_def write_users_def write_volume_file_def restart_container_def
        wrapped_def no_faults_def)
  obtain us where "read_users calx_env ''v'' (snd ?one) = (Inr us, snd ?one)"
    by (simp add: cal_sync_user_def cal_hash_def calx_env_def write_users_def write_volume_file_def restart_container_def
        wrapped_def no_faults_def read [unfolded calx_env_def] read_users_def read_volume_file_def)
  then have two: "fst ?two = Inr ()"
    by (simp add: cal_remove_user_def calx_env_def write_users_def write_volume_file_def restart_container_def
        wrapped_def no_faults_def)
  have nice: "\<not> ce_faults calx_env (''read '' @ ''v'')" "ce_bcrypt calx_env ''pw'' = Inr ''$2a$pw''"
    by (simp_all add: calx_env_def no_faults_def)
  from calendar_logins_kept [OF walks nice(1) read table nice(2) calx_line(1), of "''c''" "snd ?one" "snd ?two"] one two
  obtain us where us: "read_users calx_env ''v'' (snd ?one) = (Inr us, snd ?one)"
      "map_of us = (map_of [(''bob'', ''x'')])(''ann'' \<mapsto> ''$2a$pw'')"
    by (auto simp: prod_eq_iff)
  then have "map_of us ''bob'' = Some ''x''" "map_of us ''ann'' = Some ''$2a$pw''" by simp_all
  with us(1) show ?thesis by blast
qed

end
