(* ===== verification/PeopleProps.thy ===== *)
theory PeopleProps
  imports ShareProps
begin

text \<open>
  What the administrator's panel promises about people (\<open>backend/internal/api/users.go\<close>): a disabled account is cut off, and
  a move between groups ends in exactly the new group, under the laws of the directory server stated here.
\<close>

section \<open>A disabled account\<close>

text \<open>What LDAP promises: after a password was replaced, no other binds.\<close>

definition password_law :: "'d ldap \<Rightarrow> bool" where
  "password_law L \<longleftrightarrow> (\<forall>dn pw d d' p. ld_modify L dn [(''userPassword'', [pw])] d = (Inr (), d') \<and> ld_bind L d' dn p = Bound \<longrightarrow> p = pw)"

lemma dir_reset_password_ok:
  assumes "dir_reset_password L c (Some bytes) username [] d = (Inr used, d')"
  shows "used = hex_encode bytes \<and> (\<exists>d1. ld_modify L (person_dn L c username) [(''userPassword'', [used])] d1 = (Inr (), d'))"
  using assms by (auto simp: dir_reset_password_def validate_password_def password_or_random_def ldap_connect_def
      split: bind_result.splits dest!: and_then_Inr)

lemma revoked_row: "\<not> f ''revoke'' \<Longrightarrow> emp_row t (snd (revoke_all f s u)) tok \<noteq> Some u"
  by (auto simp: revoke_all_def emp_row_def dest!: find_Some_set)

lemma if_running_dir [simp]: "co_dir (snd (if_running env mid (on_vols g) s)) = co_dir s"
  by (simp add: if_running_def on_part_simps split: sum.splits option.splits)

lemma logins_dir [simp]:
  "co_dir (snd (remove_webdav_login env u s)) = co_dir s" "co_dir (snd (remove_calendar_login env u s)) = co_dir s"
  by (simp_all add: remove_webdav_login_def remove_calendar_login_def)

lemma revoke_vpn_dir [simp]: "co_dir (revoke_vpn_best_effort env u s) = co_dir s"
  by (auto simp: revoke_vpn_best_effort_def revoke_vpn_access_def Let_def forget_vpn_row_def and_then_def on_nb_def
      split: sum.splits option.splits prod.splits)

lemma revoke_sessions_simps [simp]: "co_dir (revoke_sessions env u s) = co_dir s"
  "co_emp (revoke_sessions env u s) = snd (revoke_all (cx_faults env) (co_emp s) u)"
  by (simp_all add: revoke_sessions_def)

lemma disable_user_ok:
  assumes "disable_user_handler env tok username s = (Inr (), s')" "directory_client env s = Inr (Some c)" "cx_random env = Some bytes"
  shows "(\<exists>d. ld_modify (cx_ldap env) (person_dn (cx_ldap env) c username) [(''userPassword'', [hex_encode bytes])] d = (Inr (), co_dir s'))
    \<and> (\<exists>e. co_emp s' = snd (revoke_all (cx_faults env) e username)) \<and> username \<in> set (co_disabled s')"
proof -
  obtain used s1 where "on_dir (dir_reset_password (cx_ldap env) c (Some bytes) username []) s = (Inr used, s1)"
    and s': "s' = (let s2 = revoke_sessions env username (revoke_vpn_best_effort env username
        (snd (remove_calendar_login env username (snd (remove_webdav_login env username s1)))))
      in s2\<lparr>co_disabled := List.insert username (co_disabled s2)\<rparr>)"
    using assms by (auto simp: disable_user_handler_def with_directory_def Let_def split: if_splits dest!: as_admin_Inr and_then_Inr)
  then have "dir_reset_password (cx_ldap env) c (Some bytes) username [] (co_dir s) = (Inr used, co_dir s1)"
    by (auto simp: on_dir_def split: prod.splits)
  from dir_reset_password_ok [OF this] show ?thesis unfolding s' by (auto simp: Let_def)
qed


section \<open>Moving between groups\<close>

text \<open>What LDAP promises about the groups under the groups' entry, \<open>G\<close> being their names and member lists: a search
  shows them, replacing the members of one changes that one, and adding the entries above them changes none.\<close>

definition group_law :: "'d ldap \<Rightarrow> dir_client \<Rightarrow> ('d \<Rightarrow> (string \<times> string list) list) \<Rightarrow> bool" where
  "group_law L c G \<longleftrightarrow> (\<forall>d. distinct (map fst (G d)))
     \<and> (\<forall>d es. ld_search L (groups_ou c) True ''groupOfNames'' d = Inr es \<longrightarrow>
          map (\<lambda>e. (attr_value e ''cn'', attr_values e ''member'')) es = G d)
     \<and> (\<forall>d n ms es. map_of (G d) n = Some ms \<and> ld_search L (group_dn L c n) False ''groupOfNames'' d = Inr es \<longrightarrow>
          map (\<lambda>e. attr_values e ''member'') es = [ms])
     \<and> (\<forall>d n ms ks d'. map_of (G d) n = Some ms \<and> ld_modify L (group_dn L c n) [(''member'', ks)] d = (Inr (), d') \<longrightarrow>
          map_of (G d') = (map_of (G d))(n \<mapsto> ks))
     \<and> (\<forall>d a. G (snd (ld_add L (people_ou c) a d)) = G d \<and> G (snd (ld_add L (groups_ou c) a d)) = G d)"

definition name_law :: "'d ldap \<Rightarrow> dir_client \<Rightarrow> string \<Rightarrow> bool" where
  "name_law L c u \<longleftrightarrow> ld_first_value L (person_dn L c u) = Some u \<and> person_dn L c u \<noteq> dc_bind_dn c"

lemma group_law_search:
  assumes "group_law L c G"
  shows "ld_search L (groups_ou c) True ''groupOfNames'' d = Inr es \<Longrightarrow>
      map (\<lambda>e. (attr_value e ''cn'', attr_values e ''member'')) es = G d"
    and "map_of (G d) n = Some ms \<Longrightarrow> ld_search L (group_dn L c n) False ''groupOfNames'' d = Inr es \<Longrightarrow>
      map (\<lambda>e. attr_values e ''member'') es = [ms]"
    and "map_of (G d) n = Some ms \<Longrightarrow> ld_modify L (group_dn L c n) [(''member'', ks)] d = (Inr (), d') \<Longrightarrow>
      map_of (G d') = (map_of (G d))(n \<mapsto> ks)"
    and "G (snd (ld_add L (people_ou c) a d)) = G d" "G (snd (ld_add L (groups_ou c) a d)) = G d"
    and "distinct (map fst (G d))"
  using assms unfolding group_law_def by blast+

lemma snd_and_then: "snd (and_then r k) = (case fst r of Inl e \<Rightarrow> snd r | Inr a \<Rightarrow> snd (k a (snd r)))"
  by (auto simp: and_then_def split: prod.splits sum.splits)

lemma snd_ldap_connect [simp]: "snd (ldap_connect L c d) = d"
  by (simp add: ldap_connect_def split: bind_result.splits)

lemma snd_ensure_ou: "snd (ensure_ou L dn ou msg d) = snd (ld_add L dn [(''objectClass'', [''organizationalUnit'']), (''ou'', [ou])] d)"
  by (auto simp: ensure_ou_def split: prod.splits sum.splits ldap_error.splits)

lemma group_law_lists:
  assumes "group_law L c G"
  shows "G (snd (list_people L c d)) = G d" "G (snd (list_groups L c d)) = G d"
  using group_law_search(4,5) [OF assms]
  by (simp_all add: list_people_def list_groups_def snd_and_then ensure_people_ou_def ensure_groups_ou_def snd_ensure_ou split: sum.splits)

lemma list_groups_ok:
  assumes "group_law L c G" "list_groups L c d = (Inr gs, d')"
  shows "gs = map (\<lambda>(n, ms). (n, usernames_from_dns L c ms)) (G d') \<and> G d' = G d"
proof -
  obtain es where es: "ld_search L (groups_ou c) True ''groupOfNames'' d' = Inr es" "gs = map (group_of_entry L c) es"
    using assms(2) by (auto simp: list_groups_def dest!: and_then_Inr)
  have "gs = map (\<lambda>(n, ms). (n, usernames_from_dns L c ms)) (G d')"
    unfolding group_law_search(1) [OF assms(1) es(1), symmetric] es(2) by (simp add: group_of_entry_def)
  then show ?thesis using group_law_lists(2) [OF assms(1), of d] assms(2) by simp
qed

lemma group_member_dns_ok:
  assumes "group_law L c G" "map_of (G d) g = Some ms" "group_member_dns L c g d = (Inr cur, d')"
  shows "cur = ms \<and> d' = d"
proof -
  obtain es where "ld_search L (group_dn L c g) False ''groupOfNames'' d = Inr es"
    and cur: "(case es of [] \<Rightarrow> (Inl (''group '' @ quoted g @ '' not found''), d) | e # _ \<Rightarrow> (Inr (attr_values e ''member''), d)) = (Inr cur, d')"
    using assms(3) by (auto simp: group_member_dns_def dest!: and_then_Inr)
  from group_law_search(2) [OF assms(1,2) this(1)] cur show ?thesis by (cases es) auto
qed

definition filled :: "dir_client \<Rightarrow> string list \<Rightarrow> string list" where
  "filled c dns = (if dns = [] then [dc_bind_dn c] else dns)"

lemma remove_user_ok:
  assumes "group_law L c G" "map_of (G d) g = Some ms" "remove_user_from_group L c u g d = (Inr (), d')"
  shows "map_of (G d') = (map_of (G d))(g \<mapsto> filled c (filter (\<lambda>x. x \<noteq> person_dn L c u) ms))"
proof -
  obtain cur d1 d2 where steps: "ldap_connect L c d = (Inr (), d1)" "group_member_dns L c g d1 = (Inr cur, d2)"
    "set_group_member_dns L c g (filter (\<lambda>x. x \<noteq> person_dn L c u) cur) d2 = (Inr (), d')"
    using assms(3) by (auto simp: remove_user_from_group_def dest!: and_then_Inr)
  then have "d1 = d" using snd_ldap_connect [of L c d] by simp
  then have "cur = ms" "d2 = d" using group_member_dns_ok [OF assms(1,2)] steps(2) by auto
  then show ?thesis
    using steps(3) group_law_search(3) [OF assms(1,2)] by (simp add: set_group_member_dns_def filled_def)
qed

lemma add_user_ok:
  assumes "group_law L c G" "map_of (G d) g = Some ms" "add_user_to_group L c u g d = (Inr (), d')"
  shows "\<exists>ks. map_of (G d') = (map_of (G d))(g \<mapsto> ks) \<and> person_dn L c u \<in> set ks
    \<and> filter (\<lambda>x. x \<noteq> person_dn L c u \<and> x \<noteq> dc_bind_dn c) ks = filter (\<lambda>x. x \<noteq> person_dn L c u \<and> x \<noteq> dc_bind_dn c) ms"
proof -
  let ?dn = "person_dn L c u" let ?kept = "filter (\<lambda>x. x \<noteq> dc_bind_dn c) ms"
  let ?ks = "if ?dn \<in> set ?kept then ?kept else ?kept @ [?dn]"
  obtain cur d1 d2 where steps: "ldap_connect L c d = (Inr (), d1)" "group_member_dns L c g d1 = (Inr cur, d2)"
    "(let kept = filter (\<lambda>x. x \<noteq> dc_bind_dn c) cur in
       set_group_member_dns L c g (if ?dn \<in> set kept then kept else kept @ [?dn]) d2) = (Inr (), d')"
    using assms(3) by (auto simp: add_user_to_group_def Let_def dest!: and_then_Inr)
  then have "d1 = d" using snd_ldap_connect [of L c d] by simp
  then have "cur = ms" "d2 = d" using group_member_dns_ok [OF assms(1,2)] steps(2) by auto
  then have "set_group_member_dns L c g ?ks d = (Inr (), d')" using steps(3) by (simp only: Let_def)
  moreover have "?ks \<noteq> []" by (auto simp: filter_empty_conv split: if_splits)
  ultimately have "map_of (G d') = (map_of (G d))(g \<mapsto> ?ks)"
    using group_law_search(3) [OF assms(1,2)] by (simp only: set_group_member_dns_def wrapped_Inr if_False)
  moreover have "filter (\<lambda>x. x \<noteq> ?dn \<and> x \<noteq> dc_bind_dn c) ?ks = filter (\<lambda>x. x \<noteq> ?dn \<and> x \<noteq> dc_bind_dn c) ms"
    by (auto intro: filter_cong)
  moreover have "?dn \<in> set ?ks" by simp
  ultimately show ?thesis by blast
qed

definition same_others :: "(string \<times> string list) list \<Rightarrow> string set \<Rightarrow> (string \<times> string list) list \<Rightarrow> bool" where
  "same_others gs X gs' \<longleftrightarrow> (\<forall>n. map_option (filter (\<lambda>x. x \<notin> X)) (map_of gs' n) = map_option (filter (\<lambda>x. x \<notin> X)) (map_of gs n))"

lemma same_others_refl [simp]: "same_others gs X gs"
  by (simp add: same_others_def)

lemma same_others_trans: "same_others a X b \<Longrightarrow> same_others b X c \<Longrightarrow> same_others a X c"
  by (simp add: same_others_def)

lemma same_others_dom: "same_others a X b \<Longrightarrow> map_of a n \<noteq> None \<longleftrightarrow> map_of b n \<noteq> None"
  unfolding same_others_def by (metis option.map_disc_iff)

lemma same_others_upd:
  "map_of a n = Some ms \<Longrightarrow> map_of b = (map_of a)(n \<mapsto> ks) \<Longrightarrow> filter (\<lambda>x. x \<notin> X) ks = filter (\<lambda>x. x \<notin> X) ms \<Longrightarrow> same_others a X b"
  by (simp add: same_others_def)

text \<open>Taking the user out of one group, once for every entry found there.\<close>

lemma leave_one:
  assumes "group_law L c G" "map_of (G d) g = Some ms" "name_law L c u"
    and "each_step (\<lambda>_ d. remove_user_from_group L c u g d) us d = (Inr (), d')" "us \<noteq> [] \<or> person_dn L c u \<notin> set ms"
  shows "\<exists>ks. map_of (G d') = (map_of (G d))(g \<mapsto> ks) \<and> person_dn L c u \<notin> set ks
    \<and> same_others (G d) {person_dn L c u, dc_bind_dn c} (G d')"
  using assms
proof (induction us arbitrary: d ms)
  case Nil
  then show ?case by (intro exI [of _ ms]) (auto simp: fun_upd_idem)
next
  case (Cons x us)
  let ?dn = "person_dn L c u"
  let ?ks = "filled c (filter (\<lambda>x. x \<noteq> ?dn) ms)" and ?X = "{?dn, dc_bind_dn c}"
  obtain d1 where d1: "remove_user_from_group L c u g d = (Inr (), d1)"
    and rest: "each_step (\<lambda>_ d. remove_user_from_group L c u g d) us d1 = (Inr (), d')"
    using Cons.prems(4) by (auto dest!: and_then_Inr)
  have m1: "map_of (G d1) = (map_of (G d))(g \<mapsto> ?ks)" using remove_user_ok [OF Cons.prems(1,2) d1] .
  have out: "?dn \<notin> set ?ks" using Cons.prems(3) by (auto simp: filled_def name_law_def)
  have "filter (\<lambda>x. x \<notin> ?X) ?ks = filter (\<lambda>x. x \<notin> ?X) ms"
    by (auto simp: filled_def filter_empty_conv intro!: filter_cong) 
  then have s1: "same_others (G d) ?X (G d1)" using same_others_upd [OF Cons.prems(2) m1] by blast
  have "map_of (G d1) g = Some ?ks" using m1 by simp
  from Cons.IH [OF Cons.prems(1) this Cons.prems(3) rest disjI2 [OF out]] obtain ks where
    ks: "map_of (G d') = (map_of (G d1))(g \<mapsto> ks)" "?dn \<notin> set ks" "same_others (G d1) ?X (G d')" by blast
  have "map_of (G d') = (map_of (G d))(g \<mapsto> ks)" using ks(1) m1 by simp
  then show ?case using ks(2) same_others_trans [OF s1 ks(3)] by blast
qed

lemma leave_others_ok:
  assumes "group_law L c G" "name_law L c u" "distinct (map fst gs)"
    and "\<And>g us. (g, us) \<in> set gs \<Longrightarrow> \<exists>ms. map_of (G d) g = Some ms \<and> (person_dn L c u \<in> set ms \<longrightarrow> u \<in> set us)"
    and "leave_others L c u target gs d = (Inr (), d')"
  shows "same_others (G d) {person_dn L c u, dc_bind_dn c} (G d')
    \<and> (\<forall>g ms. g \<in> fst ` set gs \<and> g \<noteq> target \<and> map_of (G d') g = Some ms \<longrightarrow> person_dn L c u \<notin> set ms)
    \<and> (\<forall>g. g \<notin> fst ` set gs \<longrightarrow> map_of (G d') g = map_of (G d) g)"
  using assms
proof (induction gs arbitrary: d)
  case Nil
  then show ?case by simp
next
  case (Cons e gs)
  obtain g us where e: "e = (g, us)" by fastforce
  let ?dn = "person_dn L c u" let ?X = "{?dn, dc_bind_dn c}"
  obtain d1 where d1: "each_step (\<lambda>_ d. remove_user_from_group L c u g d) (filter (\<lambda>m. m = u \<and> g \<noteq> target) us) d = (Inr (), d1)"
    and rest: "leave_others L c u target gs d1 = (Inr (), d')"
    using Cons.prems(5) e by (auto dest!: and_then_Inr)
  obtain ms where ms: "map_of (G d) g = Some ms" "?dn \<in> set ms \<longrightarrow> u \<in> set us" using Cons.prems(4) e by force
  have new: "g \<notin> fst ` set gs" "distinct (map fst gs)" using Cons.prems(3) e by auto
  have one: "same_others (G d) ?X (G d1) \<and> (\<forall>h. h \<noteq> g \<longrightarrow> map_of (G d1) h = map_of (G d) h)
      \<and> (g \<noteq> target \<longrightarrow> (\<forall>ks. map_of (G d1) g = Some ks \<longrightarrow> ?dn \<notin> set ks))"
  proof (cases "g = target")
    case True
    then show ?thesis using d1 by simp
  next
    case False
    then have "filter (\<lambda>m. m = u \<and> g \<noteq> target) us \<noteq> [] \<or> ?dn \<notin> set ms" using ms(2) by (auto simp: filter_empty_conv)
    from leave_one [OF Cons.prems(1) ms(1) Cons.prems(2) d1 this] show ?thesis by auto
  qed
  have "\<exists>ms. map_of (G d1) h = Some ms \<and> (?dn \<in> set ms \<longrightarrow> u \<in> set ws)" if h: "(h, ws) \<in> set gs" for h ws
  proof -
    have "h \<noteq> g" using h new by force
    then have "map_of (G d1) h = map_of (G d) h" using one by blast
    then show ?thesis using Cons.prems(4) [of h ws] h e by (simp only: list.set_intros)
  qed
  note ih = Cons.IH [OF Cons.prems(1,2) new(2) this rest]
  have at_g: "map_of (G d') g = map_of (G d1) g" using ih new(1) by blast
  show ?case
  proof (intro conjI allI impI)
    show "same_others (G d) ?X (G d')" by (rule same_others_trans [OF conjunct1 [OF one] conjunct1 [OF ih]])
  next
    fix h ks assume h: "h \<in> fst ` set (e # gs) \<and> h \<noteq> target \<and> map_of (G d') h = Some ks"
    show "?dn \<notin> set ks"
    proof (cases "h = g")
      case True
      have "map_of (G d1) g = Some ks" using at_g h True by simp
      then show ?thesis using one h True by blast
    next
      case False
      then have "h \<in> fst ` set gs" using h e by simp
      then show ?thesis using h ih by blast
    qed
  next
    fix h assume "h \<notin> fst ` set (e # gs)"
    then have h: "h \<notin> fst ` set gs" "h \<noteq> g" using e by simp_all
    have "map_of (G d') h = map_of (G d1) h" using ih h(1) by blast
    also have "\<dots> = map_of (G d) h" using one h(2) by blast
    finally show "map_of (G d') h = map_of (G d) h" .
  qed
qed

text \<open>The groups as listed tell which ones hold the user.\<close>

lemma listed_groups:
  assumes "group_law L c G" "name_law L c u" "list_groups L c d = (Inr gs, d1)"
  shows "distinct (map fst gs)" "fst ` set gs = fst ` set (G d)" "G d1 = G d"
    and "(g, us) \<in> set gs \<Longrightarrow> \<exists>ms. map_of (G d1) g = Some ms \<and> (person_dn L c u \<in> set ms \<longrightarrow> u \<in> set us)"
proof -
  note gs = list_groups_ok [OF assms(1,3)]
  have dist: "distinct (map fst (G d))" using group_law_search(6) [OF assms(1)] .
  show same: "G d1 = G d" using gs by simp
  have names: "map fst gs = map fst (G d)" using gs by (auto simp: case_prod_unfold)
  then show "distinct (map fst gs)" using dist by simp
  show "fst ` set gs = fst ` set (G d)" using names by (metis list.set_map)
  assume "(g, us) \<in> set gs"
  then obtain ms where ms: "(g, ms) \<in> set (G d1)" "us = usernames_from_dns L c ms" using gs by auto
  have "map_of (G d1) g = Some ms" using ms(1) dist same by (simp add: map_of_is_SomeI)
  moreover have "person_dn L c u \<in> set ms \<longrightarrow> u \<in> set us"
    using assms(2) unfolding ms(2) by (force simp: usernames_from_dns_def name_law_def map_filter_def)
  ultimately show "\<exists>ms. map_of (G d1) g = Some ms \<and> (person_dn L c u \<in> set ms \<longrightarrow> u \<in> set us)" by blast
qed

lemma follow_groups_keeps:
  assumes "group_law (cx_ldap env) c G"
  shows "G (co_dir (follow_groups env c s)) = G (co_dir s)"
proof -
  have ctx: "G (co_dir (snd (webdav_group_context env c s))) = G (co_dir s)"
    by (simp add: webdav_group_context_def snd_and_then on_part_simps group_law_lists [OF assms] split: sum.splits)
  have rules: "co_dir (snd (rebuild_webdav_rules env pc s1)) = co_dir s1" for pc s1
    by (simp add: rebuild_webdav_rules_def)
  show ?thesis by (auto simp: follow_groups_def snd_and_then rules ctx split: sum.splits)
qed

definition groups_of :: "'d ldap \<Rightarrow> dir_client \<Rightarrow> (string \<times> string list) list \<Rightarrow> string \<Rightarrow> string set" where
  "groups_of L c gs u = {g. \<exists>ms. map_of gs g = Some ms \<and> person_dn L c u \<in> set ms}"

lemma on_dir_ok: "on_dir g s = (Inr a, s') \<Longrightarrow> g (co_dir s) = (Inr a, co_dir s')"
  by (auto simp: on_dir_def split: prod.splits)

lemma left_all:
  assumes "group_law L c G" "name_law L c u" "list_groups L c d = (Inr gs, d1)" "leave_others L c u target gs d1 = (Inr (), d2)"
  shows "same_others (G d) {person_dn L c u, dc_bind_dn c} (G d2) \<and> groups_of L c (G d2) u \<subseteq> {target}
    \<and> fst ` set gs = fst ` set (G d)"
proof -
  note gs = listed_groups [OF assms(1-3)]
  note left = leave_others_ok [OF assms(1,2) gs(1) gs(4) assms(4)]
  have "g = target" if "map_of (G d2) g = Some ms" "person_dn L c u \<in> set ms" for g ms
  proof (rule ccontr)
    assume "g \<noteq> target"
    then have "g \<notin> fst ` set gs" using left that by blast
    then have "map_of (G d) g = None" by (simp add: gs(2) map_of_eq_None_iff)
    then have "map_of (G d2) g = None" using left gs(3) same_others_dom by metis
    then show False using that by simp
  qed
  then have "groups_of L c (G d2) u \<subseteq> {target}" unfolding groups_of_def by blast
  then show ?thesis using left gs(2,3) by simp
qed

lemma change_group_steps:
  assumes "change_group_handler env tok u target s = (r, s')" "directory_client env s = Inr (Some c)" "r = Inr () \<or> r = Inl (HTTP 400 (''unknown group '' @ target))"
  shows "\<exists>gs d1 d2. list_groups (cx_ldap env) c (co_dir s) = (Inr gs, d1) \<and> leave_others (cx_ldap env) c u target gs d1 = (Inr (), d2)
    \<and> (if target \<in> fst ` set gs then \<exists>s3. add_user_to_group (cx_ldap env) c u target d2 = (Inr (), co_dir s3) \<and> s' = follow_groups env c s3
       else co_dir s' = d2)"
proof -
  let ?L = "cx_ldap env"
  have "with_directory env (\<lambda>c s.
     and_then (check (target \<noteq> []) (HTTP 400 ''group is required'') s) (\<lambda>_ s.
     and_then (or_500 ''list groups'' (on_dir (list_groups ?L c) s)) (\<lambda>gs s.
     and_then (or_500 ''remove from old group failed'' (on_dir (leave_others ?L c u target gs) s)) (\<lambda>_ s.
     and_then (check (target \<in> fst ` set gs) (HTTP 400 (''unknown group '' @ target)) s) (\<lambda>_ s.
     and_then (or_400 ''add to group failed'' (on_dir (add_user_to_group ?L c u target) s)) (\<lambda>_ s.
       (Inr (), follow_groups env c s))))))) s = (r, s')"
    using assms(1,3) by (auto simp: change_group_handler_def as_admin_def require_auth_def split: sum.splits if_splits)
  then have body: "and_then (check (target \<noteq> []) (HTTP 400 ''group is required'') s) (\<lambda>_ s.
     and_then (or_500 ''list groups'' (on_dir (list_groups ?L c) s)) (\<lambda>gs s.
     and_then (or_500 ''remove from old group failed'' (on_dir (leave_others ?L c u target gs) s)) (\<lambda>_ s.
     and_then (check (target \<in> fst ` set gs) (HTTP 400 (''unknown group '' @ target)) s) (\<lambda>_ s.
     and_then (or_400 ''add to group failed'' (on_dir (add_user_to_group ?L c u target) s)) (\<lambda>_ s.
       (Inr (), follow_groups env c s)))))) = (r, s')"
    using assms(2) by (simp add: with_directory_def)
  obtain lr d1 where l: "list_groups ?L c (co_dir s) = (lr, d1)" by fastforce
  show ?thesis
  proof (cases lr)
    case (Inl e)
    then show ?thesis using body l assms(3)
      by (auto simp: and_then_def check_def or_500_def on_dir_def internal_error_def split: if_splits)
  next
    case (Inr gs)
    obtain vr d2 where v: "leave_others ?L c u target gs d1 = (vr, d2)" by fastforce
    obtain ar d3 where a: "add_user_to_group ?L c u target d2 = (ar, d3)" by fastforce
    show ?thesis using body l v a assms(3) Inr
      by (auto simp: and_then_def check_def or_500_def or_400_def on_dir_def internal_error_def split: if_splits sum.splits
          intro!: exI [of _ "s\<lparr>co_dir := d3\<rparr>"])
  qed
qed

text \<open>After a successful change-group the employee is in exactly the new group, and nobody else's membership of any
  group changed.\<close>

theorem change_group_moves:
  assumes "group_law (cx_ldap env) c G" "name_law (cx_ldap env) c u" "directory_client env s = Inr (Some c)"
    and "change_group_handler env tok u target s = (Inr (), s')"
  shows "groups_of (cx_ldap env) c (G (co_dir s')) u = {target}
    \<and> same_others (G (co_dir s)) {person_dn (cx_ldap env) c u, dc_bind_dn c} (G (co_dir s'))"
proof -
  let ?L = "cx_ldap env" let ?dn = "person_dn ?L c u" let ?X = "{?dn, dc_bind_dn c}"
  obtain gs d1 d2 where l: "list_groups ?L c (co_dir s) = (Inr gs, d1)" and v: "leave_others ?L c u target gs d1 = (Inr (), d2)"
    and rest: "if target \<in> fst ` set gs then \<exists>s3. add_user_to_group ?L c u target d2 = (Inr (), co_dir s3) \<and> s' = follow_groups env c s3
       else co_dir s' = d2"
    using change_group_steps [OF assms(4,3)] by blast
  note left = left_all [OF assms(1,2) l v]
  have "target \<in> fst ` set gs"
    using assms(4) l v assms(3)
    by (auto simp: change_group_handler_def with_directory_def on_dir_def and_then_def check_def or_500_def split: if_splits dest!: as_admin_Inr)
  then obtain s3 where s3: "add_user_to_group ?L c u target d2 = (Inr (), co_dir s3)" "s' = follow_groups env c s3"
    and known: "target \<in> fst ` set (G (co_dir s))"
    using rest left by auto
  have "map_of (G (co_dir s)) target \<noteq> None" using known by (simp add: map_of_eq_None_iff)
  then have "map_of (G d2) target \<noteq> None" using same_others_dom [OF conjunct1 [OF left]] by metis
  then obtain ms where ms: "map_of (G d2) target = Some ms" by (cases "map_of (G d2) target") auto
  from add_user_ok [OF assms(1) ms s3(1)] obtain ks where
    ks: "map_of (G (co_dir s3)) = (map_of (G d2))(target \<mapsto> ks)" "?dn \<in> set ks"
      "filter (\<lambda>x. x \<notin> ?X) ks = filter (\<lambda>x. x \<notin> ?X) ms" by auto
  have same: "G (co_dir s') = G (co_dir s3)" unfolding s3(2) using assms(1) by (rule follow_groups_keeps)
  have "same_others (G d2) ?X (G (co_dir s3))" using same_others_upd [OF ms ks(1,3)] .
  then have "same_others (G (co_dir s)) ?X (G (co_dir s3))" by (rule same_others_trans [OF conjunct1 [OF left]])
  moreover have "groups_of ?L c (G (co_dir s3)) u = {target}"
    using left ks by (auto simp: groups_of_def split: if_splits)
  ultimately show ?thesis unfolding same by (intro conjI)
qed

text \<open>C15: Moving an employee to a group that does not exist is refused, but by then the employee has been taken out of
  every group.\<close>

theorem refused_move_strands:
  assumes "group_law (cx_ldap env) c G" "name_law (cx_ldap env) c u" "directory_client env s = Inr (Some c)"
    and "change_group_handler env tok u target s = (Inl (HTTP 400 (''unknown group '' @ target)), s')"
    and "target \<notin> fst ` set (G (co_dir s))"
  shows "groups_of (cx_ldap env) c (G (co_dir s')) u = {}"
proof -
  let ?L = "cx_ldap env"
  obtain gs d1 d2 where l: "list_groups ?L c (co_dir s) = (Inr gs, d1)" and v: "leave_others ?L c u target gs d1 = (Inr (), d2)"
    and rest: "if target \<in> fst ` set gs then \<exists>s3. add_user_to_group ?L c u target d2 = (Inr (), co_dir s3) \<and> s' = follow_groups env c s3
       else co_dir s' = d2"
    using change_group_steps [OF assms(4,3)] by blast
  note left = left_all [OF assms(1,2) l v]
  then have d2: "co_dir s' = d2" using rest assms(5) by simp
  have "map_of (G (co_dir s)) target = None" using assms(5) by (simp add: map_of_eq_None_iff)
  then have "map_of (G d2) target = None" using same_others_dom [OF conjunct1 [OF left]] by metis
  then have "target \<notin> groups_of ?L c (G d2) u" by (simp add: groups_of_def)
  then show ?thesis using left d2 by blast
qed

section \<open>A small company\<close>

type_synonym small_dir = "(string \<Rightarrow> string) \<times> (string \<Rightarrow> string list)"

definition small_groups :: "small_dir \<Rightarrow> (string \<times> string list) list" where
  "small_groups d = map (\<lambda>n. (n, snd d n)) [''sales'', ''it'']"

definition small_dn :: "string \<Rightarrow> string" where "small_dn n = ''cn='' @ n @ '',ou=groups,o''"

definition small_modify :: "string \<Rightarrow> attrs \<Rightarrow> small_dir \<Rightarrow> (string + unit) \<times> small_dir" where
  "small_modify dn a d =
     (case map_of a ''userPassword'' of
        Some (pw # _) \<Rightarrow> (Inr (), ((fst d)(dn := pw), snd d))
      | _ \<Rightarrow> (Inr (), (fst d, (\<lambda>n. if small_dn n = dn then attr_values a ''member'' else snd d n))))"

definition small_ldap :: "small_dir ldap" where
  "small_ldap = \<lparr>ld_bind = (\<lambda>d dn pw. if fst d dn = pw then Bound else Invalid_password),
     ld_add = (\<lambda>_ _ d. (Inl Already_exists, d)), ld_modify = small_modify, ld_delete = (\<lambda>_ d. (Inr (), d)),
     ld_search = (\<lambda>base sub cls d. Inr (if cls \<noteq> ''groupOfNames'' then []
       else map (\<lambda>(n, ms). [(''cn'', [n]), (''member'', ms)]) (filter (\<lambda>(n, _). sub \<or> small_dn n = base) (small_groups d)))),
     ld_escape = (\<lambda>n. n), ld_first_value = (\<lambda>dn. Some (takeWhile (\<lambda>c. c \<noteq> CHR '','') (drop 4 dn)))\<rparr>"

definition small_client :: dir_client where
  "small_client = \<lparr>dc_bind_dn = ''uid=admin,o'', dc_password = ''root'', dc_base = ''o''\<rparr>"

definition small_start :: small_dir where
  "small_start = ((\<lambda>dn. if dn = ''uid=admin,o'' then ''root'' else ''secret''),
     (\<lambda>n. if n = ''sales'' then [''uid=ann,ou=people,o''] else [''uid=bob,ou=people,o'']))"

definition small_env :: "(small_dir, unit) company_env" where
  "small_env = \<lparr>cx_faults = no_faults, cx_now = 0, cx_ldap = small_ldap, cx_nb = (\<lambda>_ _ _ _ n. (Inl ''x'', n)),
     cx_share = \<lparr>se_faults = no_faults, se_parse = (\<lambda>_. Inl ''x''), se_print = (\<lambda>_. Inl ''x''), se_bcrypt = (\<lambda>_. None)\<rparr>,
     cx_cal = \<lparr>ce_faults = no_faults, ce_bcrypt = (\<lambda>_. Inl ''x''), ce_walk = (\<lambda>us. us), ce_login = (\<lambda>_ _. Inr ()),
       ce_ensure = (\<lambda>_ _ _ _. Inr ())\<rparr>,
     cx_mkcol = (\<lambda>_. Inr 201), cx_random = Some ''12345678'', cx_lower = (\<lambda>x. x), cx_routes = Inl ''x'', cx_gateway = ''gw'',
     cx_up = (\<lambda>_ _ n. (Inr (), n))\<rparr>"

definition small_company :: "(small_dir, unit) company" where
  "small_company = \<lparr>co_db = \<lparr>cd_mods = [\<lparr>in_id = ''ldap-openldap'', in_status = ''running'',
       in_config = [(''base_dn'', ''o''), (''admin_password'', ''root'')], in_error = None, in_vis = ''private''\<rparr>],
       cd_archive = [], cd_ports = [], cd_settings = None\<rparr>,
     co_domain = ''c.d'', co_admin = \<lparr>admins = [\<lparr>au_id = 1, au_email = ''a@x'', au_hash = ''h''\<rparr>], admin_next = 2,
       admin_sessions = [\<lparr>as_token = ''t'', as_user = 1, as_expires = 100\<rparr>]\<rparr>,
     co_emp = \<lparr>emp_sessions = [\<lparr>es_token = ''e'', es_user = ''ann'', es_expires = 100\<rparr>], user_logins = []\<rparr>,
     co_disabled = [], co_vpn = [], co_two_factor = False, co_office = [], co_office_ports = [], co_vols = [], co_folders = [],
     co_dir = small_start, co_nb = ()\<rparr>"

lemma small_password_law: "password_law small_ldap"
  by (auto simp: password_law_def small_ldap_def small_modify_def split: if_splits)

lemma small_group_law: "group_law small_ldap small_client small_groups"
proof -
  have dn: "group_dn small_ldap small_client n = small_dn n" for n
    by (simp add: group_dn_def groups_ou_def small_ldap_def small_client_def small_dn_def)
  have inj: "small_dn n = small_dn m \<longleftrightarrow> n = m" for n m by (simp add: small_dn_def)
  show ?thesis
    unfolding group_law_def dn
    by (auto simp: small_ldap_def small_groups_def attr_value_def attr_values_def inj small_modify_def split: if_splits)
qed

lemma small_name_law: "name_law small_ldap small_client ''ann''"
  by (simp add: name_law_def person_dn_def people_ou_def small_ldap_def small_client_def)

lemma small_client_found: "directory_client small_env small_company = Inr (Some small_client)"
  by (simp add: directory_client_def running_config_def get_installed_def small_env_def small_company_def find_mod_def
      status_of_row_def config_value_def small_client_def no_faults_def)

lemma small_faults: "\<not> cx_faults small_env ''revoke''" "cx_random small_env = Some ''12345678''" "cx_ldap small_env = small_ldap"
  by (simp_all add: small_env_def no_faults_def)

lemma small_as_admin: "as_admin small_env ''t'' k small_company = k small_company"
  by (simp add: as_admin_def require_auth_def admin_validate_def admin_row_def email_of_def small_env_def small_company_def no_faults_def)

lemma small_dir_steps:
  "fst (disable_user_handler small_env ''t'' ''ann'' small_company) = Inr ()"
  "fst (change_group_handler small_env ''t'' ''ann'' ''it'' small_company) = Inr ()"
  "fst (change_group_handler small_env ''t'' ''ann'' ''hr'' small_company) = Inl (HTTP 400 ''unknown group hr'')"
  by code_simp+


theorem change_group_moves_witness:
  "groups_of small_ldap small_client (small_groups small_start) ''ann'' = {''sales''}
    \<and> groups_of small_ldap small_client
        (small_groups (co_dir (snd (change_group_handler small_env ''t'' ''ann'' ''it'' small_company)))) ''ann'' = {''it''}"
proof
  show "groups_of small_ldap small_client (small_groups small_start) ''ann'' = {''sales''}"
    by (auto simp: groups_of_def small_groups_def small_start_def person_dn_def people_ou_def small_ldap_def small_client_def
        split: if_splits)
  have run: "change_group_handler small_env ''t'' ''ann'' ''it'' small_company
      = (Inr (), snd (change_group_handler small_env ''t'' ''ann'' ''it'' small_company))"
    using small_dir_steps(2) by (simp add: prod_eq_iff)
  from change_group_moves [OF small_group_law [folded small_faults(3)] small_name_law [folded small_faults(3)] small_client_found run]
  show "groups_of small_ldap small_client
        (small_groups (co_dir (snd (change_group_handler small_env ''t'' ''ann'' ''it'' small_company)))) ''ann'' = {''it''}"
    unfolding small_faults(3) by blast
qed

theorem refused_move_strands_witness:
  "groups_of small_ldap small_client
     (small_groups (co_dir (snd (change_group_handler small_env ''t'' ''ann'' ''hr'' small_company)))) ''ann'' = {}"
proof -
  have run: "change_group_handler small_env ''t'' ''ann'' ''hr'' small_company
      = (Inl (HTTP 400 (''unknown group '' @ ''hr'')), snd (change_group_handler small_env ''t'' ''ann'' ''hr'' small_company))"
    using small_dir_steps(3) by (simp add: prod_eq_iff)
  have "''hr'' \<notin> fst ` set (small_groups (co_dir small_company))" by (simp add: small_groups_def)
  from refused_move_strands [OF small_group_law [folded small_faults(3)] small_name_law [folded small_faults(3)]
      small_client_found run this]
  show ?thesis unfolding small_faults(3) .
qed

end
