(* ===== verification/BackupProps.thy ===== *)
theory BackupProps
  imports Backup PeopleProps ModuleExamples
begin

text \<open>
  What a backup is worth: after a run that is recorded as a success, and a restore on another machine that is recorded
  as a success, every volume of every module is what it was.  The commands enter by what they promise; the laws hold of a
  small container engine at the end.
\<close>

section \<open>What the commands do\<close>

lemma try_part_done:
  assumes "try_part what g fs = ([], s')"
  shows "fst fs = [] \<and> (\<exists>a. g (snd fs) = (Inr a, s'))"
  using assms by (cases fs; cases "g (snd fs)"; cases "fst (g (snd fs))") (auto simp: try_part_def)

lemma publish_catalog: "mg_catalog (snd (publish f m mid mf)) = mg_catalog m"
  by (auto simp: publish_def publish_routes_def Let_def split: prod.splits sum.splits if_splits)

lemma do_install_catalog: "mg_catalog (snd (do_install env m mid mf config)) = mg_catalog m"
proof (cases "resolve_config env m mid mf config")
  case (Some resolved)
  obtain r1 dirs where rc: "render_compose env (mf_dir mf) (mf_compose mf) mid resolved (mg_dirs m) = (r1, dirs)" by fastforce
  obtain r2 m1 where up: "compose_up (lc_faults env) (m\<lparr>mg_dirs := dirs\<rparr>) mid = (r2, m1)" by fastforce
  obtain r3 m2 where pub: "publish (lc_faults env) m1 mid mf = (r3, m2)" by fastforce
  have 1: "mg_catalog m1 = mg_catalog m" using up by (auto simp: compose_up_def split: if_splits)
  have 2: "mg_catalog m2 = mg_catalog m1" using publish_catalog [of "lc_faults env" m1 mid mf] pub by simp
  have 3: "mg_catalog (snd (record_install (lc_faults env) m2 mid resolved)) = mg_catalog m2"
    by (simp add: record_install_def with_db_def)
  show ?thesis using Some rc up pub 1 2 3 by (simp add: do_install_def split: sum.splits)
qed (simp add: do_install_def)

lemma reinstall_catalog: "mg_catalog (snd (reinstall env m mid)) = mg_catalog m"
proof (cases "in_catalog m mid")
  case (Some mf)
  have "mg_catalog m1 = mg_catalog m" if "begin_op mid m = Inr m1" for m1
    using that by (auto simp: begin_op_def split: if_splits)
  moreover have "mg_catalog (snd (reinstall_body env mf m1 mid)) = mg_catalog m1" for m1
    using do_install_catalog by (auto simp: reinstall_body_def split: option.splits)
  moreover have "mg_catalog (end_op mid m1) = mg_catalog m1" for m1 by (simp add: end_op_def)
  ultimately show ?thesis
    using Some by (cases "begin_op mid m") (simp_all add: reinstall_def exclusively_def case_prod_unfold)
qed (simp add: reinstall_def)

text \<open>
  What the commands promise, in terms of what is at the destination (\<open>R\<close>, by path), in the volumes (\<open>V\<close>) and in the module
  tables, packed by \<open>tar\<close> and \<open>dump\<close>: a copy that succeeds is there afterwards and touches nothing else of these.
\<close>

definition backup_law ::
  "('w, 'd, 'n) backup_env \<Rightarrow> ('w \<Rightarrow> string \<Rightarrow> string option) \<Rightarrow> ('w \<Rightarrow> string \<Rightarrow> string) \<Rightarrow> (string \<Rightarrow> string) \<Rightarrow> (core_db \<Rightarrow> string) \<Rightarrow> bool" where
  "backup_law env R V tar dump \<longleftrightarrow>
     (\<forall>vol e dst c w x. dk_backup_volume (be_docker env) (be_walk env) vol backup_network e dst (c, w) = (Inr (), x) \<longrightarrow>
        fst x = c \<and> V (snd x) = V w \<and> R (snd x) = (R w)(dst \<mapsto> tar (V w vol)))
     \<and> (\<forall>e dst c w x. dk_dump_database (be_docker env) (be_walk env) backup_network (be_url env) e dst backup_keep_tables (c, w) = (Inr (), x) \<longrightarrow>
        fst x = c \<and> V (snd x) = V w \<and> R (snd x) = (R w)(dst \<mapsto> dump (co_db c)))
     \<and> (\<forall>vol e src dst c w o1 x. dk_rclone_copy (be_docker env) (be_walk env) vol False backup_network e src dst (c, w) = (Inr o1, x) \<longrightarrow>
        fst x = c \<and> V (snd x) = V w)
     \<and> (\<forall>xs. set (be_walk env xs) = set xs)"

definition restore_law ::
  "('w, 'd, 'n) backup_env \<Rightarrow> ('w \<Rightarrow> string \<Rightarrow> string option) \<Rightarrow> ('w \<Rightarrow> string \<Rightarrow> string) \<Rightarrow> (string \<Rightarrow> string) \<Rightarrow> (core_db \<Rightarrow> string) \<Rightarrow> bool" where
  "restore_law env R V tar dump \<longleftrightarrow>
     (\<forall>vol e src c w x v. dk_restore_volume (be_docker env) (be_walk env) vol backup_network e src (c, w) = (Inr (), x)
          \<and> R w src = Some (tar v) \<longrightarrow> R (snd x) = R w \<and> V (snd x) = (V w)(vol := v))
     \<and> (\<forall>e src c w x db. dk_restore_database (be_docker env) (be_walk env) backup_network (be_url env) e src (c, w) = (Inr (), x)
          \<and> R w src = Some (dump db) \<longrightarrow> co_db (fst x) = db \<and> R (snd x) = R w)
     \<and> (\<forall>vol e src dst c w o1 x. dk_rclone_copy (be_docker env) (be_walk env) vol True backup_network e src dst (c, w) = (Inr o1, x) \<longrightarrow>
          R (snd x) = R w \<and> (\<forall>u. u \<noteq> vol \<longrightarrow> V (snd x) u = V w u))
     \<and> (\<forall>xs. set (be_walk env xs) = set xs)"

lemma backup_lawD:
  assumes "backup_law env R V tar dump"
  shows "dk_backup_volume (be_docker env) (be_walk env) vol backup_network e dst (c, w) = (Inr (), x) \<Longrightarrow>
      fst x = c \<and> V (snd x) = V w \<and> R (snd x) = (R w)(dst \<mapsto> tar (V w vol))"
    and "dk_dump_database (be_docker env) (be_walk env) backup_network (be_url env) e dst backup_keep_tables (c, w) = (Inr (), x) \<Longrightarrow>
      fst x = c \<and> V (snd x) = V w \<and> R (snd x) = (R w)(dst \<mapsto> dump (co_db c))"
    and "dk_rclone_copy (be_docker env) (be_walk env) vol False backup_network e src dst (c, w) = (Inr o1, x) \<Longrightarrow>
      fst x = c \<and> V (snd x) = V w"
    and "set (be_walk env xs) = set xs"
proof -
  note l = assms [unfolded backup_law_def]
  note l2 = conjunct2 [OF l] note l3 = conjunct2 [OF l2]
  show "dk_backup_volume (be_docker env) (be_walk env) vol backup_network e dst (c, w) = (Inr (), x) \<Longrightarrow>
      fst x = c \<and> V (snd x) = V w \<and> R (snd x) = (R w)(dst \<mapsto> tar (V w vol))"
    using conjunct1 [OF l] by blast
  show "dk_dump_database (be_docker env) (be_walk env) backup_network (be_url env) e dst backup_keep_tables (c, w) = (Inr (), x) \<Longrightarrow>
      fst x = c \<and> V (snd x) = V w \<and> R (snd x) = (R w)(dst \<mapsto> dump (co_db c))"
    using conjunct1 [OF l2] by blast
  show "dk_rclone_copy (be_docker env) (be_walk env) vol False backup_network e src dst (c, w) = (Inr o1, x) \<Longrightarrow>
      fst x = c \<and> V (snd x) = V w"
    using conjunct1 [OF l3] by blast
  show "set (be_walk env xs) = set xs" by (rule spec [OF conjunct2 [OF l3]])
qed

lemma restore_lawD:
  assumes "restore_law env R V tar dump"
  shows "dk_restore_volume (be_docker env) (be_walk env) vol backup_network e src (c, w) = (Inr (), x) \<Longrightarrow> R w src = Some (tar v) \<Longrightarrow>
      R (snd x) = R w \<and> V (snd x) = (V w)(vol := v)"
    and "dk_restore_database (be_docker env) (be_walk env) backup_network (be_url env) e src (c, w) = (Inr (), x) \<Longrightarrow> R w src = Some (dump db) \<Longrightarrow>
      co_db (fst x) = db \<and> R (snd x) = R w"
    and "dk_rclone_copy (be_docker env) (be_walk env) vol True backup_network e src dst (c, w) = (Inr o1, x) \<Longrightarrow>
      R (snd x) = R w \<and> (\<forall>u. u \<noteq> vol \<longrightarrow> V (snd x) u = V w u)"
    and "set (be_walk env xs) = set xs"
proof -
  note l = assms [unfolded restore_law_def]
  note l2 = conjunct2 [OF l] note l3 = conjunct2 [OF l2]
  show "dk_restore_volume (be_docker env) (be_walk env) vol backup_network e src (c, w) = (Inr (), x) \<Longrightarrow> R w src = Some (tar v) \<Longrightarrow>
      R (snd x) = R w \<and> V (snd x) = (V w)(vol := v)"
    using conjunct1 [OF l] by blast
  show "dk_restore_database (be_docker env) (be_walk env) backup_network (be_url env) e src (c, w) = (Inr (), x) \<Longrightarrow> R w src = Some (dump db) \<Longrightarrow>
      co_db (fst x) = db \<and> R (snd x) = R w"
    using conjunct1 [OF l2] by blast
  show "dk_rclone_copy (be_docker env) (be_walk env) vol True backup_network e src dst (c, w) = (Inr o1, x) \<Longrightarrow>
      R (snd x) = R w \<and> (\<forall>u. u \<noteq> vol \<longrightarrow> V (snd x) u = V w u)"
    using conjunct1 [OF l3] by blast
  show "set (be_walk env xs) = set xs" by (rule spec [OF conjunct2 [OF l3]])
qed

lemma on_world_ok:
  assumes "on_world g s = (Inr a, s')"
  shows "\<exists>c w. g (company_view s, bs_world s) = (Inr a, c, w) \<and> bs_world s' = w
    \<and> bs_mgr s' = (bs_mgr s)\<lparr>mg_db := co_db c\<rparr> \<and> bs_runs s' = bs_runs s"
  using assms by (auto simp: on_world_def with_company_def split: prod.splits)

lemma view_db [simp]: "co_db (company_view s) = mg_db (bs_mgr s)"
  by (simp add: company_view_def)

section \<open>A backup that succeeds\<close>

text \<open>A step of the backup run that succeeded: the volumes, the manager and the history are as before.\<close>

definition backed :: "('w \<Rightarrow> string \<Rightarrow> string) \<Rightarrow> ('w, 'd, 'n) backups \<Rightarrow> ('w, 'd, 'n) backups \<Rightarrow> bool" where
  "backed V s s' \<longleftrightarrow> V (bs_world s') = V (bs_world s) \<and> bs_mgr s' = bs_mgr s \<and> bs_runs s' = bs_runs s"

lemma backed_trans: "backed V a b \<Longrightarrow> backed V b c \<Longrightarrow> backed V a c"
  by (simp add: backed_def)

lemma backup_volume_ok:
  assumes "backup_law env R V tar dump" "backup_volume env remote root mid kv fs = ([], s')"
  shows "fst fs = [] \<and> backed V (snd fs) s'
    \<and> R (bs_world s') = (R (bs_world (snd fs)))(volume_path root mid (fst kv) \<mapsto> tar (V (bs_world (snd fs)) (snd kv)))"
proof -
  obtain a where a: "fst fs = []" "on_world (dk_backup_volume (be_docker env) (be_walk env) (snd kv) backup_network remote
      (volume_path root mid (fst kv))) (snd fs) = (Inr a, s')"
    using try_part_done [OF assms(2) [unfolded backup_volume_def]] by blast
  from on_world_ok [OF a(2)] obtain c w where cw: "dk_backup_volume (be_docker env) (be_walk env) (snd kv) backup_network remote
      (volume_path root mid (fst kv)) (company_view (snd fs), bs_world (snd fs)) = (Inr (), c, w)" "bs_world s' = w"
      "bs_mgr s' = (bs_mgr (snd fs))\<lparr>mg_db := co_db c\<rparr>" "bs_runs s' = bs_runs (snd fs)" by auto
  from backup_lawD(1) [OF assms(1) cw(1)] cw(2-4) a(1) show ?thesis by (simp add: backed_def)
qed

lemma backup_database_ok:
  assumes "backup_law env R V tar dump" "backup_database env remote root fs = ([], s')"
  shows "fst fs = [] \<and> backed V (snd fs) s' \<and> R (bs_world s') (root @ platform_dump_path) = Some (dump (mg_db (bs_mgr (snd fs))))"
proof -
  obtain a where a: "fst fs = []" "on_world (dk_dump_database (be_docker env) (be_walk env) backup_network (be_url env) remote
      (root @ platform_dump_path) backup_keep_tables) (snd fs) = (Inr a, s')"
    using try_part_done [OF assms(2) [unfolded backup_database_def]] by blast
  from on_world_ok [OF a(2)] obtain c w where cw: "dk_dump_database (be_docker env) (be_walk env) backup_network (be_url env) remote
      (root @ platform_dump_path) backup_keep_tables (company_view (snd fs), bs_world (snd fs)) = (Inr (), c, w)" "bs_world s' = w"
      "bs_mgr s' = (bs_mgr (snd fs))\<lparr>mg_db := co_db c\<rparr>" "bs_runs s' = bs_runs (snd fs)" by auto
  from backup_lawD(2) [OF assms(1) cw(1)] cw(2-4) a(1) show ?thesis by (simp add: backed_def)
qed

lemma backup_files_ok:
  assumes "backup_law env R V tar dump" "backup_files env remote root fs = ([], s')"
  shows "fst fs = [] \<and> backed V (snd fs) s'"
proof (cases "running_module (be_faults env) (snd fs) ''fileshare-webdav'' = None")
  case True
  then show ?thesis using assms(2) by (simp add: backup_files_def backed_def)
next
  case False
  then obtain a where a: "fst fs = []" "copy_share env False remote ''/data'' (root @ ''/webdav'') (snd fs) = (Inr a, s')"
    using try_part_done assms(2) unfolding backup_files_def by (metis (no_types, lifting))
  from on_world_ok [OF a(2) [unfolded copy_share_def]] obtain c w where cw: "dk_rclone_copy (be_docker env) (be_walk env)
      (volume_name ''fileshare-webdav'' ''webdav_data'') False backup_network remote ''/data'' (root @ ''/webdav'')
      (company_view (snd fs), bs_world (snd fs)) = (Inr a, c, w)" "bs_world s' = w"
      "bs_mgr s' = (bs_mgr (snd fs))\<lparr>mg_db := co_db c\<rparr>" "bs_runs s' = bs_runs (snd fs)" by blast
  from backup_lawD(3) [OF assms(1) cw(1)] cw(2-4) a(1) show ?thesis by (simp add: backed_def)
qed

text \<open>Going through a list part by part, the failures only growing.\<close>

lemma try_part_grows: "fst (try_part what g fs) = [] \<Longrightarrow> fst fs = []"
  by (cases fs; cases "g (snd fs)"; cases "fst (g (snd fs))") (auto simp: try_part_def)

definition grows :: "('x \<Rightarrow> string list \<times> 's \<Rightarrow> string list \<times> 's) \<Rightarrow> bool" where
  "grows f \<longleftrightarrow> (\<forall>x fs. fst (f x fs) = [] \<longrightarrow> fst fs = [])"

lemma fold_grows:
  assumes "grows f"
  shows "fst (fold f xs fs) = [] \<Longrightarrow> fst fs = []"
proof (induction xs arbitrary: fs)
  case (Cons x xs)
  have "fst (f x fs) = []" by (rule Cons.IH [OF Cons.prems [unfolded fold_simps]])
  then show ?case using assms unfolding grows_def by blast
qed (simp only: fold_simps)

lemma fold_parts:
  assumes "grows f"
    and "\<And>x X s s'. x \<in> set xs \<Longrightarrow> I X s \<Longrightarrow> f x ([], s) = ([], s') \<Longrightarrow> I (X \<union> g x) s'"
    and "fold f xs ([], s) = ([], s')" "I X s"
  shows "I (X \<union> \<Union> (g ` set xs)) s'"
  using assms(2-)
proof (induction xs arbitrary: s X)
  case (Cons x xs)
  obtain fl s1 where 1: "f x ([], s) = (fl, s1)" by fastforce
  have "fst (fold f xs (fl, s1)) = []" using Cons.prems(2) 1 by simp
  from fold_grows [OF assms(1) this] have "fl = []" by simp
  then have "I (X \<union> g x) s1" "fold f xs ([], s1) = ([], s')" using Cons.prems 1 by auto
  from Cons.IH [OF Cons.prems(1) this(2,1)] show ?case by (simp add: Un_assoc)
qed simp

definition slash_free :: "string \<Rightarrow> bool" where
  "slash_free mid \<longleftrightarrow> CHR ''/'' \<notin> set mid"

lemma volume_path_inj:
  assumes "slash_free mid" "slash_free mid'" "volume_path root mid k = volume_path root mid' k'"
  shows "mid = mid' \<and> k = k'"
proof -
  have e: "mid @ CHR ''/'' # k @ ''.tar.gz'' = mid' @ CHR ''/'' # k' @ ''.tar.gz''"
    using assms(3) by (simp add: volume_path_def)
  have "cut_chr (CHR ''/'') (mid @ CHR ''/'' # k @ ''.tar.gz'') = (mid, k @ ''.tar.gz'', True)"
    "cut_chr (CHR ''/'') (mid' @ CHR ''/'' # k' @ ''.tar.gz'') = (mid', k' @ ''.tar.gz'', True)"
    using assms(1,2) by (auto simp: slash_free_def intro!: cut_chr_append)
  then have "(mid, k @ ''.tar.gz'', True) = (mid', k' @ ''.tar.gz'', True)" using e by metis
  then show ?thesis by simp
qed

lemma dump_path_other: "volume_path root mid k \<noteq> root @ platform_dump_path"
proof
  assume "volume_path root mid k = root @ platform_dump_path"
  then have "mid @ CHR ''/'' # k @ ''.tar.gz'' = ''db.dump''" by (simp add: volume_path_def platform_dump_path_def)
  then have "CHR ''/'' \<in> set ''db.dump''" by (metis in_set_conv_decomp)
  then show False by simp
qed

definition stored ::
  "('w \<Rightarrow> string \<Rightarrow> string option) \<Rightarrow> (string \<Rightarrow> string) \<Rightarrow> (string \<Rightarrow> string) \<Rightarrow> string \<Rightarrow> 'w \<Rightarrow> string \<times> string \<Rightarrow> bool" where
  "stored R v tar root w mk \<longleftrightarrow> slash_free (fst mk)
     \<and> R w (volume_path root (fst mk) (snd mk)) = Some (tar (v (volume_name (fst mk) (snd mk))))"

definition backup_inv where
  "backup_inv R V tar root s0 d X s \<longleftrightarrow> backed V s0 s \<and> R (bs_world s) (root @ platform_dump_path) = Some d
     \<and> (\<forall>mk \<in> X. stored R (V (bs_world s0)) tar root (bs_world s) mk)"

lemma backup_volume_inv:
  assumes "backup_law env R V tar dump" "slash_free mid" "backup_inv R V tar root s0 d X s"
    and "backup_volume env remote root mid (k, volume_name mid k) ([], s) = ([], s')"
  shows "backup_inv R V tar root s0 d (X \<union> {(mid, k)}) s'"
proof -
  note step = backup_volume_ok [OF assms(1,4)]
  have b: "backed V s0 s" "backed V s0 s'" using assms(3) step backed_trans by (auto simp: backup_inv_def)
  have R': "R (bs_world s') = (R (bs_world s))(volume_path root mid k \<mapsto> tar (V (bs_world s0) (volume_name mid k)))"
    using step b(1) by (simp add: backed_def)
  have d: "R (bs_world s') (root @ platform_dump_path) = Some d"
    using assms(3) dump_path_other [of root mid k] unfolding R' backup_inv_def by simp
  have "stored R (V (bs_world s0)) tar root (bs_world s') mk" if mk: "mk \<in> X" for mk
  proof -
    have old: "stored R (V (bs_world s0)) tar root (bs_world s) mk" using assms(3) mk by (simp add: backup_inv_def)
    show ?thesis
    proof (cases "volume_path root (fst mk) (snd mk) = volume_path root mid k")
      case True
      have "slash_free (fst mk)" using old by (simp add: stored_def)
      then have "fst mk = mid \<and> snd mk = k" using volume_path_inj assms(2) True by blast
      then show ?thesis using old by (simp add: stored_def R')
    next
      case False
      then show ?thesis using old by (simp add: stored_def R')
    qed
  qed
  moreover have "stored R (V (bs_world s0)) tar root (bs_world s') (mid, k)"
    using assms(2) by (simp add: stored_def R')
  ultimately show ?thesis using b(2) d by (simp add: backup_inv_def)
qed

definition parts_of :: "manager \<Rightarrow> string list \<Rightarrow> (string \<times> string) set" where
  "parts_of m ids = (\<Union>mid \<in> set ids. (\<lambda>kv. (mid, fst kv)) ` set (backup_volumes m mid))"

lemma backup_volumes_names: "kv \<in> set (backup_volumes m mid) \<Longrightarrow> kv = (fst kv, volume_name mid (fst kv))"
  by (auto simp: backup_volumes_def split: option.splits)

lemma backup_modules_inv:
  assumes "backup_law env R V tar dump" "installed_ids (be_faults env) (mg_db (bs_mgr s0)) = Inr ids" "list_all slash_free ids"
    and "backup_inv R V tar root s0 d {} s" "backup_modules env remote root ([], s) = ([], s')"
  shows "backup_inv R V tar root s0 d (parts_of (bs_mgr s0) ids) s'"
proof -
  let ?f = "\<lambda>mid fs. fold (backup_volume env remote root mid) (be_walk env (backup_volumes (bs_mgr (snd fs)) mid)) fs"
  let ?g = "\<lambda>mid. (\<lambda>kv. (mid, fst kv)) ` set (backup_volumes (bs_mgr s0) mid)"
  have same: "bs_mgr s = bs_mgr s0" using assms(4) by (simp add: backup_inv_def backed_def)
  have run: "fold ?f ids ([], s) = ([], s')" using assms(2,5) same by (simp add: backup_modules_def)
  have inner_grows: "grows (backup_volume env remote root mid)" for mid
    unfolding grows_def backup_volume_def by (blast intro: try_part_grows)
  have "backup_inv R V tar root s0 d ({} \<union> \<Union> (?g ` set ids)) s'"
  proof (rule fold_parts [where f = ?f and g = ?g and I = "backup_inv R V tar root s0 d" and s = s, OF _ _ run assms(4)])
    show "grows ?f" unfolding grows_def by (blast intro: fold_grows [OF inner_grows])
  next
    fix mid X t t'
    assume mid: "mid \<in> set ids" and inv: "backup_inv R V tar root s0 d X t" and step: "?f mid ([], t) = ([], t')"
    have "bs_mgr t = bs_mgr s0" using inv by (simp add: backup_inv_def backed_def)
    then have inner: "fold (backup_volume env remote root mid) (be_walk env (backup_volumes (bs_mgr s0) mid)) ([], t) = ([], t')"
      using step by simp
    have sf: "slash_free mid" using assms(3) mid by (simp add: list_all_iff)
    have "backup_inv R V tar root s0 d (X \<union> \<Union> ((\<lambda>kv. {(mid, fst kv)}) ` set (be_walk env (backup_volumes (bs_mgr s0) mid)))) t'"
    proof (rule fold_parts [where f = "backup_volume env remote root mid" and g = "\<lambda>kv. {(mid, fst kv)}"
          and I = "backup_inv R V tar root s0 d" and s = t, OF inner_grows _ inner inv])
      fix kv Y u u'
      assume kv: "kv \<in> set (be_walk env (backup_volumes (bs_mgr s0) mid))" and i: "backup_inv R V tar root s0 d Y u"
        and st: "backup_volume env remote root mid kv ([], u) = ([], u')"
      have "kv = (fst kv, volume_name mid (fst kv))"
        using kv backup_lawD(4) [OF assms(1)] backup_volumes_names by metis
      then show "backup_inv R V tar root s0 d (Y \<union> {(mid, fst kv)}) u'"
        using backup_volume_inv [OF assms(1) sf i, of remote "fst kv" u'] st by simp
    qed
    moreover have "\<Union> ((\<lambda>kv. {(mid, fst kv)}) ` set (be_walk env (backup_volumes (bs_mgr s0) mid))) = ?g mid"
      using backup_lawD(4) [OF assms(1)] by auto
    ultimately show "backup_inv R V tar root s0 d (X \<union> ?g mid) t'" by simp
  qed
  then show ?thesis by (simp add: parts_of_def)
qed

lemma finish_run_keeps [simp]: "bs_world (finish_run f now i kind status cause s) = bs_world s"
  "bs_mgr (finish_run f now i kind status cause s) = bs_mgr s"
  by (simp_all add: finish_run_def Let_def)

definition run_succeeded :: "nat \<Rightarrow> ('w, 'd, 'n) backups \<Rightarrow> bool" where
  "run_succeeded i s \<longleftrightarrow> list_ex (\<lambda>r. br_id r = i \<and> br_status r = ''success'') (bs_runs s)"

definition runs_numbered :: "('w, 'd, 'n) backups \<Rightarrow> bool" where
  "runs_numbered s \<longleftrightarrow> list_all (\<lambda>r. br_id r < bs_next s) (bs_runs s)"

lemma start_run_ok:
  assumes "start_run f now kind s = (Some i, s1)"
  shows "i = bs_next s" "bs_world s1 = bs_world s" "bs_mgr s1 = bs_mgr s" "bs_co s1 = bs_co s" "bs_dumps s1 = bs_dumps s"
    "runs_numbered s \<Longrightarrow> \<not> run_succeeded i s1" "bs_config s1 = bs_config s"
proof -
  have s1: "i = bs_next s" "bs_runs s1 = bs_runs s @ [\<lparr>br_id = bs_next s, br_kind = kind, br_started = now, br_finished = None,
      br_status = ''running'', br_error = None\<rparr>]"
    using assms by (auto simp: start_run_def split: if_splits)
  show "\<not> run_succeeded i s1" if "runs_numbered s"
    using that unfolding run_succeeded_def runs_numbered_def s1 list_ex_iff list_all_iff by fastforce
qed (use assms in \<open>auto simp: start_run_def split: if_splits\<close>)

lemma finish_rows:
  "r \<in> set (bs_runs (finish_run f now i kind st cause s)) \<Longrightarrow> r \<in> set (bs_runs s) \<or> br_status r = st"
  by (auto simp: finish_run_def Let_def split: if_splits)

lemma finish_error:
  assumes "\<not> run_succeeded i s" shows "\<not> run_succeeded i (finish_run f now i kind ''error'' cause s)"
proof
  assume "run_succeeded i (finish_run f now i kind ''error'' cause s)"
  then obtain r where r: "r \<in> set (bs_runs (finish_run f now i kind ''error'' cause s))" "br_id r = i" "br_status r = ''success''"
    unfolding run_succeeded_def list_ex_iff by blast
  from finish_rows [OF r(1)] have "r \<in> set (bs_runs s)" using r(3) by auto
  then show False using assms r(2,3) unfolding run_succeeded_def list_ex_iff by blast
qed

lemma on_world_runs: "bs_runs (snd (on_world g s)) = bs_runs s"
  by (simp add: on_world_def with_company_def split: prod.splits)

lemma try_part_runs: "(\<And>t. bs_runs (snd (g t)) = bs_runs t) \<Longrightarrow> bs_runs (snd (try_part what g fs)) = bs_runs (snd fs)"
  by (cases fs; cases "g (snd fs)"; cases "fst (g (snd fs))") (auto simp: try_part_def, metis snd_conv, metis snd_conv)

lemma fold_keeps: "(\<And>x fs. P (snd (f x fs)) = P (snd fs)) \<Longrightarrow> P (snd (fold f xs fs)) = P (snd fs)"
  by (induction xs arbitrary: fs) simp_all

lemma backup_runs:
  "bs_runs (snd (backup_files env remote root fs)) = bs_runs (snd fs)"
  "bs_runs (snd (backup_database env remote root fs)) = bs_runs (snd fs)"
  "bs_runs (snd (backup_modules env remote root fs)) = bs_runs (snd fs)"
proof -
  show "bs_runs (snd (backup_files env remote root fs)) = bs_runs (snd fs)"
    by (simp add: backup_files_def copy_share_def try_part_runs [OF on_world_runs])
  show "bs_runs (snd (backup_database env remote root fs)) = bs_runs (snd fs)"
    by (simp add: backup_database_def try_part_runs [OF on_world_runs])
  have inner: "bs_runs (snd (fold (backup_volume env remote root mid) kvs fs)) = bs_runs (snd fs)" for mid kvs fs
    by (rule fold_keeps) (simp add: backup_volume_def try_part_runs [OF on_world_runs])
  have "bs_runs (snd (fold (\<lambda>mid fs. fold (backup_volume env remote root mid) (be_walk env (backup_volumes (bs_mgr (snd fs)) mid)) fs) ids fs))
      = bs_runs (snd fs)" for ids
    by (rule fold_keeps) (rule inner)
  then show "bs_runs (snd (backup_modules env remote root fs)) = bs_runs (snd fs)"
    by (simp add: backup_modules_def split: sum.splits)
qed

lemma report_success:
  assumes "run_succeeded i (report_run f now i kind (failures, s))" "\<not> run_succeeded i s"
  shows "failures = []"
  using assms finish_error [of i s] by (cases "failures = []") (auto simp: report_run_def)

lemma modules_grow: "fst (backup_modules env remote root fs) = [] \<Longrightarrow> fst fs = []"
proof (cases "installed_ids (be_faults env) (mg_db (bs_mgr (snd fs)))")
  case (Inr ids)
  have inner: "grows (backup_volume env remote root mid)" for mid
    unfolding grows_def backup_volume_def by (blast intro: try_part_grows)
  have "grows (\<lambda>mid fs. fold (backup_volume env remote root mid) (be_walk env (backup_volumes (bs_mgr (snd fs)) mid)) fs)"
    by (unfold grows_def) (intro allI impI, rule fold_grows [OF inner])
  moreover assume "fst (backup_modules env remote root fs) = []"
  ultimately show ?thesis using Inr fold_grows by (simp add: backup_modules_def)
qed (simp add: backup_modules_def)

text \<open>All the parts of a run that is recorded as a success.\<close>

lemma run_backup_success:
  assumes "backup_law env R V tar dump" "runs_numbered s" "run_succeeded (bs_next s) (run_backup env s)"
    and "installed_ids (be_faults env) (mg_db (bs_mgr s)) = Inr ids" "list_all slash_free ids"
  shows "\<exists>remote root. rclone_remote (be_faults env) s = Inr (remote, root)
    \<and> R (bs_world (run_backup env s)) (root @ platform_dump_path) = Some (dump (mg_db (bs_mgr s)))
    \<and> (\<forall>mk \<in> parts_of (bs_mgr s) ids. stored R (V (bs_world s)) tar root (bs_world (run_backup env s)) mk)"
proof -
  let ?f = "be_faults env"
  obtain i s1 where st: "start_run ?f (be_now env) ''backup'' s = (Some i, s1)"
  proof (cases "start_run ?f (be_now env) ''backup'' s")
    case (Pair a b)
    show ?thesis
    proof (cases a)
      case None
      then have "run_backup env s = s" using Pair by (auto simp: run_backup_def Let_def start_run_def split: if_splits)
      then show ?thesis using assms(2,3) by (auto simp: run_succeeded_def runs_numbered_def list_ex_iff list_all_iff)
    qed (use Pair that in blast)
  qed
  note s1 = start_run_ok [OF st]
  have "\<not> run_succeeded i s1" using s1(6) assms(2) by blast
  have remote1: "rclone_remote ?f s1 = rclone_remote ?f s"
    using s1 by (simp add: rclone_remote_def Let_def get_backup_config_def running_module_def)
  obtain remote root where r: "rclone_remote ?f s = Inr (remote, root)"
  proof (cases "rclone_remote ?f s")
    case (Inl e)
    then have "run_backup env s = finish_run ?f (be_now env) i ''backup'' ''error'' (Some e) s1"
      using st remote1 by (simp add: run_backup_def Let_def)
    then show ?thesis using finish_error [OF \<open>\<not> run_succeeded i s1\<close>] assms(3) s1(1) by simp
  qed (use that in \<open>metis surj_pair\<close>)
  let ?a = "backup_files env remote root ([], s1)"
  let ?b = "backup_database env remote root ?a" let ?c = "backup_modules env remote root ?b"
  have run: "run_backup env s = report_run ?f (be_now env) i ''backup'' ?c"
    using st remote1 r by (simp add: run_backup_def Let_def)
  obtain fl s4 where c: "?c = (fl, s4)" by fastforce
  have "run_succeeded i (report_run ?f (be_now env) i ''backup'' (fl, s4))" using assms(3) run c s1(1) by simp
  moreover have "\<not> run_succeeded i s4"
  proof -
    have "bs_runs (snd ?c) = bs_runs s1" by (simp only: backup_runs snd_conv)
    then have "bs_runs s4 = bs_runs s1" using c by simp
    then show ?thesis using \<open>\<not> run_succeeded i s1\<close> unfolding run_succeeded_def by simp
  qed
  ultimately have "fl = []" by (rule report_success)
  then have 3: "?c = ([], s4)" using c by simp
  have 2: "fst ?b = []" by (rule modules_grow [of env remote root]) (simp only: 3 fst_conv)
  obtain t where t: "?b = ([], t)" using 2 by (metis surj_pair fst_conv)
  note db = backup_database_ok [OF assms(1) t]
  then obtain u where u: "?a = ([], u)" by (metis surj_pair fst_conv)
  note files = backup_files_ok [OF assms(1) u]
  have "backup_inv R V tar root s1 (dump (mg_db (bs_mgr s))) {} t"
    using db files u s1(3) backed_trans [of V s1 u t] by (simp add: backup_inv_def backed_def)
  moreover have "installed_ids ?f (mg_db (bs_mgr s1)) = Inr ids" using assms(4) s1(3) by simp
  ultimately have inv: "backup_inv R V tar root s1 (dump (mg_db (bs_mgr s))) (parts_of (bs_mgr s) ids) s4"
    using backup_modules_inv [OF assms(1) _ assms(5)] 3 t s1(3) by metis
  have "bs_world (run_backup env s) = bs_world s4" using run c \<open>fl = []\<close> by (simp add: report_run_def)
  then show ?thesis using inv r s1(2) by (simp add: backup_inv_def)
qed

section \<open>Back on another machine\<close>

definition share_data :: string where "share_data = volume_name ''fileshare-webdav'' ''webdav_data''"

definition restore_inv where
  "restore_inv R V cat v0 held X s \<longleftrightarrow> R (bs_world s) = held \<and> mg_catalog (bs_mgr s) = cat
     \<and> (\<forall>mk \<in> X. volume_name (fst mk) (snd mk) \<noteq> share_data \<longrightarrow>
          V (bs_world s) (volume_name (fst mk) (snd mk)) = v0 (volume_name (fst mk) (snd mk)))"

lemma restore_volume_inv:
  assumes "restore_law env R V tar dump" "restore_inv R V cat v0 held X s"
    and "held (volume_path root mid k) = Some (tar (v0 (volume_name mid k)))"
    and "restore_volume env remote root mid (k, volume_name mid k) ([], s) = ([], s')"
  shows "restore_inv R V cat v0 held (X \<union> {(mid, k)}) s'"
proof -
  obtain a where "on_world (dk_restore_volume (be_docker env) (be_walk env) (volume_name mid k) backup_network remote
      (volume_path root mid k)) s = (Inr a, s')"
    using try_part_done [OF assms(4) [unfolded restore_volume_def]] by auto
  from on_world_ok [OF this] obtain c w where cw: "dk_restore_volume (be_docker env) (be_walk env) (volume_name mid k) backup_network remote
      (volume_path root mid k) (company_view s, bs_world s) = (Inr (), c, w)" "bs_world s' = w"
      "bs_mgr s' = (bs_mgr s)\<lparr>mg_db := co_db c\<rparr>" by auto
  have "R (bs_world s) (volume_path root mid k) = Some (tar (v0 (volume_name mid k)))"
    using assms(2,3) by (simp add: restore_inv_def)
  from restore_lawD(1) [OF assms(1) cw(1) this] cw(2,3) assms(2) show ?thesis by (simp add: restore_inv_def)
qed

lemma restore_files_inv:
  assumes "restore_law env R V tar dump" "restore_inv R V cat v0 held X s"
    and "try_part ''files'' (copy_share env True remote src dst) ([], s) = ([], s')"
  shows "restore_inv R V cat v0 held X s'"
proof -
  obtain a where "copy_share env True remote src dst s = (Inr a, s')"
    using try_part_done [OF assms(3)] by auto
  from on_world_ok [OF this [unfolded copy_share_def]] obtain c w where cw: "dk_rclone_copy (be_docker env) (be_walk env)
      (volume_name ''fileshare-webdav'' ''webdav_data'') True backup_network remote src dst (company_view s, bs_world s) = (Inr a, c, w)"
      "bs_world s' = w" "bs_mgr s' = (bs_mgr s)\<lparr>mg_db := co_db c\<rparr>" by blast
  from restore_lawD(3) [OF assms(1) cw(1)] cw(2,3) assms(2) show ?thesis by (simp add: restore_inv_def share_data_def)
qed

lemma reinstall_inv:
  assumes "restore_inv R V cat v0 held X s" "try_part mid (on_manager (\<lambda>m. reinstall lc m mid)) ([], s) = ([], s')"
  shows "restore_inv R V cat v0 held X s'"
proof -
  obtain a where "on_manager (\<lambda>m. reinstall lc m mid) s = (Inr a, s')" using try_part_done [OF assms(2)] by auto
  then have "s' = s\<lparr>bs_mgr := snd (reinstall lc (bs_mgr s) mid)\<rparr>" by (auto simp: on_manager_def split: prod.splits)
  then show ?thesis using assms(1) reinstall_catalog by (simp add: restore_inv_def)
qed

lemma in_catalog_cong: "mg_catalog m = mg_catalog m' \<Longrightarrow> backup_volumes m mid = backup_volumes m' mid"
  by (simp add: backup_volumes_def in_catalog_def)

lemma if_part_grows: "fst (if b then try_part what g fs else fs) = [] \<Longrightarrow> fst fs = []"
  by (cases b) (simp_all add: try_part_grows)

lemma empty_fst: "fst p = [] \<Longrightarrow> \<exists>t. p = ([], t)"
  by (cases p) simp

lemma restore_grows: "grows (restore_volume env remote root mid)" "grows (restore_module env remote root)"
proof -
  show v: "grows (restore_volume env remote root mid)" for mid
    unfolding grows_def restore_volume_def by (blast intro: try_part_grows)
  show "grows (restore_module env remote root)"
  proof (unfold grows_def, intro allI impI)
    fix m fs assume a: "fst (restore_module env remote root m fs) = []"
    show "fst fs = []"
    proof (cases "m = ''s3-storage''")
      case False
      let ?fs1 = "fold (restore_volume env remote root m) (be_walk env (backup_volumes (bs_mgr (snd fs)) m)) fs"
      have "fst (if m = ''fileshare-webdav'' then try_part ''files'' (copy_share env True remote (root @ ''/webdav'') ''/data'') ?fs1 else ?fs1) = []"
        using a False try_part_grows unfolding restore_module_def Let_def by (simp only: if_False) blast
      then have "fst ?fs1 = []" by (rule if_part_grows)
      then show ?thesis by (rule fold_grows [OF v])
    qed (use a in \<open>simp add: restore_module_def\<close>)
  qed
qed

lemma restore_module_inv:
  assumes law: "restore_law env R V tar dump" and inv: "restore_inv R V (mg_catalog m0) v0 held X s" and mid: "mid \<noteq> ''s3-storage''"
    and held: "\<And>kv. kv \<in> set (backup_volumes m0 mid) \<Longrightarrow>
      held (volume_path root mid (fst kv)) = Some (tar (v0 (volume_name mid (fst kv))))"
    and step: "restore_module env remote root mid ([], s) = ([], s')"
  shows "restore_inv R V (mg_catalog m0) v0 held (X \<union> (\<lambda>kv. (mid, fst kv)) ` set (backup_volumes m0 mid)) s'"
proof -
  have "backup_volumes (bs_mgr s) mid = backup_volumes m0 mid"
    using inv by (intro in_catalog_cong) (simp add: restore_inv_def)
  let ?fs1 = "fold (restore_volume env remote root mid) (be_walk env (backup_volumes m0 mid)) ([], s)"
  let ?fs2 = "if mid = ''fileshare-webdav'' then try_part ''files'' (copy_share env True remote (root @ ''/webdav'') ''/data'') ?fs1 else ?fs1"
  have last: "try_part mid (on_manager (\<lambda>m. reinstall (be_lc env) m mid)) ?fs2 = ([], s')"
    using step mid \<open>backup_volumes (bs_mgr s) mid = backup_volumes m0 mid\<close>
    by (simp only: restore_module_def Let_def if_False snd_conv)
  have "fst ?fs2 = []"
    by (rule try_part_grows [where what = mid and g = "on_manager (\<lambda>m. reinstall (be_lc env) m mid)"]) (simp only: last fst_conv)
  then obtain u where u: "?fs2 = ([], u)" using empty_fst by blast
  have "fst ?fs1 = []" using \<open>fst ?fs2 = []\<close> by (rule if_part_grows)
  then obtain t where t: "?fs1 = ([], t)" using empty_fst by blast
  have "restore_inv R V (mg_catalog m0) v0 held (X \<union> \<Union> ((\<lambda>kv. {(mid, fst kv)}) ` set (be_walk env (backup_volumes m0 mid)))) t"
  proof (rule fold_parts [where f = "restore_volume env remote root mid" and g = "\<lambda>kv. {(mid, fst kv)}"
        and I = "restore_inv R V (mg_catalog m0) v0 held" and s = s, OF restore_grows(1) _ t inv])
    fix kv Y w w'
    assume kv: "kv \<in> set (be_walk env (backup_volumes m0 mid))" and i: "restore_inv R V (mg_catalog m0) v0 held Y w"
      and st: "restore_volume env remote root mid kv ([], w) = ([], w')"
    have kv': "kv \<in> set (backup_volumes m0 mid)" using kv restore_lawD(4) [OF law] by blast
    then have "kv = (fst kv, volume_name mid (fst kv))" by (rule backup_volumes_names)
    then show "restore_inv R V (mg_catalog m0) v0 held (Y \<union> {(mid, fst kv)}) w'"
      using restore_volume_inv [OF law i held [OF kv'], of remote w'] st by simp
  qed
  moreover have "\<Union> ((\<lambda>kv. {(mid, fst kv)}) ` set (be_walk env (backup_volumes m0 mid))) = (\<lambda>kv. (mid, fst kv)) ` set (backup_volumes m0 mid)"
    using restore_lawD(4) [OF law] by auto
  ultimately have 1: "restore_inv R V (mg_catalog m0) v0 held (X \<union> (\<lambda>kv. (mid, fst kv)) ` set (backup_volumes m0 mid)) t" by simp
  have 2: "restore_inv R V (mg_catalog m0) v0 held (X \<union> (\<lambda>kv. (mid, fst kv)) ` set (backup_volumes m0 mid)) u"
  proof (cases "mid = ''fileshare-webdav''")
    case True
    then show ?thesis using u t restore_files_inv [OF law 1] by simp
  next
    case False
    then show ?thesis using u t 1 by simp
  qed
  show ?thesis using reinstall_inv [OF 2] last u by simp
qed

lemma on_manager_runs: "bs_runs (snd (on_manager g s)) = bs_runs s"
  by (simp add: on_manager_def split: prod.splits)

lemma restore_runs:
  "bs_runs (snd (restore_module env remote root mid fs)) = bs_runs (snd fs)" "bs_runs (restore_folders env s) = bs_runs s"
  "bs_runs (snd (restore_database env remote root s)) = bs_runs s"
proof -
  have inner: "bs_runs (snd (fold (restore_volume env remote root mid) kvs fs)) = bs_runs (snd fs)" for kvs fs
    by (rule fold_keeps) (simp add: restore_volume_def try_part_runs [OF on_world_runs])
  have files: "bs_runs (snd (if b then try_part what (copy_share env flag remote src dst) fs else fs)) = bs_runs (snd fs)"
    for b what flag src dst fs by (simp add: copy_share_def try_part_runs [OF on_world_runs])
  show "bs_runs (snd (restore_module env remote root mid fs)) = bs_runs (snd fs)"
  proof (cases "mid = ''s3-storage''")
    case False
    then show ?thesis by (simp only: restore_module_def Let_def if_False try_part_runs [OF on_manager_runs] files inner)
  qed (simp add: restore_module_def)
  show "bs_runs (restore_folders env s) = bs_runs s" by (simp add: restore_folders_def with_company_def)
  show "bs_runs (snd (restore_database env remote root s)) = bs_runs s" by (simp add: restore_database_def on_world_runs)
qed

lemma run_succeeded_runs: "bs_runs s = bs_runs t \<Longrightarrow> run_succeeded i s = run_succeeded i t"
  by (simp add: run_succeeded_def)

text \<open>What a successful run of the disaster recovery went through.\<close>

lemma restore_modules_success:
  assumes "run_succeeded i (restore_modules env remote root i s)" "\<not> run_succeeded i s"
  shows "\<exists>ids t. installed_ids (be_faults env) (mg_db (bs_mgr s)) = Inr ids
    \<and> fold (restore_module env remote root) ids ([], snd (on_manager (reload_settings (be_faults env)) s)) = ([], t)
    \<and> bs_world (restore_modules env remote root i s) = bs_world t"
proof -
  let ?f = "be_faults env" let ?s1 = "snd (on_manager (reload_settings ?f) s)"
  have db: "mg_db (bs_mgr ?s1) = mg_db (bs_mgr s)"
    by (auto simp: on_manager_def reload_settings_def split: option.splits)
  have no1: "\<not> run_succeeded i ?s1" using assms(2) run_succeeded_runs [OF on_manager_runs] by blast
  show ?thesis
  proof (cases "installed_ids ?f (mg_db (bs_mgr s))")
    case (Inl e)
    then have "restore_modules env remote root i s = finish_run ?f (be_now env) i ''restore-platform'' ''error'' (Some e) ?s1"
      using db by (simp add: restore_modules_def Let_def)
    then show ?thesis using finish_error [OF no1] assms(1) by simp
  next
    case (Inr ids)
    obtain fl t where f: "fold (restore_module env remote root) ids ([], ?s1) = (fl, t)" by fastforce
    have run: "restore_modules env remote root i s = report_run ?f (be_now env) i ''restore-platform'' (fl, restore_folders env t)"
      using Inr db f by (simp add: restore_modules_def Let_def)
    have "bs_runs (snd (fold (restore_module env remote root) ids ([], ?s1))) = bs_runs ?s1"
      by (simp only: fold_keeps [where P = bs_runs and f = "restore_module env remote root", OF restore_runs(1)] snd_conv)
    then have "bs_runs (restore_folders env t) = bs_runs ?s1" using f by (simp add: restore_runs(2))
    then have "\<not> run_succeeded i (restore_folders env t)" using no1 run_succeeded_runs by blast
    then have "fl = []" using report_success assms(1) run by metis
    then show ?thesis using Inr f run by (simp add: report_run_def restore_folders_def with_company_def)
  qed
qed

lemma run_restore_success:
  assumes "run_succeeded (bs_next s) (run_restore_platform env s)" "runs_numbered s" "rclone_remote (be_faults env) s = Inr (remote, root)"
  shows "\<exists>s1 s2. bs_world s1 = bs_world s \<and> bs_mgr s1 = bs_mgr s \<and> restore_database env remote root s1 = (Inr (), s2)
    \<and> run_restore_platform env s = restore_modules env remote root (bs_next s) s2 \<and> \<not> run_succeeded (bs_next s) s2"
proof -
  let ?f = "be_faults env" let ?k = "''restore-platform''"
  obtain i s1 where st: "start_run ?f (be_now env) ?k s = (Some i, s1)"
  proof (cases "start_run ?f (be_now env) ?k s")
    case (Pair a b)
    show ?thesis
    proof (cases a)
      case None
      then have "run_restore_platform env s = s" using Pair by (auto simp: run_restore_platform_def Let_def start_run_def split: if_splits)
      then show ?thesis using assms(1,2) by (auto simp: run_succeeded_def runs_numbered_def list_ex_iff list_all_iff)
    qed (use Pair that in blast)
  qed
  note s1 = start_run_ok [OF st]
  have no: "\<not> run_succeeded (bs_next s) s1" using s1(1) s1(6) [OF assms(2)] by simp
  have "rclone_remote ?f s1 = rclone_remote ?f s"
    using s1 by (simp add: rclone_remote_def Let_def get_backup_config_def running_module_def)
  then have remote1: "rclone_remote ?f s1 = Inr (remote, root)" using assms(3) by simp
  obtain dr dumps where d: "db_snapshot ?f (be_now env) ''before-restore'' (bs_dumps s1) = (dr, dumps)" by fastforce
  let ?t = "s1\<lparr>bs_dumps := dumps\<rparr>"
  have no_t: "\<not> run_succeeded (bs_next s) ?t" using no by (simp add: run_succeeded_def)
  show ?thesis
  proof (cases dr)
    case (Inl e)
    then have "run_restore_platform env s = finish_run ?f (be_now env) (bs_next s) ?k ''error''
        (Some (''not restoring: couldn't take a safety snapshot of the current data first: '' @ e)) ?t"
      using st remote1 d s1(1) by (simp add: run_restore_platform_def Let_def)
    then show ?thesis using finish_error [OF no_t] assms(1) by simp
  next
    case (Inr path)
    obtain r s2 where r: "restore_database env remote root ?t = (r, s2)" by fastforce
    have no2: "\<not> run_succeeded (bs_next s) s2"
      using no_t run_succeeded_runs [OF restore_runs(3), of "bs_next s" env remote root ?t] r by simp
    show ?thesis
    proof (cases r)
      case (Inl e)
      then have "run_restore_platform env s = finish_run ?f (be_now env) (bs_next s) ?k ''error'' (Some (''restore database: '' @ e)) s2"
        using st remote1 d \<open>dr = Inr path\<close> r s1(1) by (simp add: run_restore_platform_def Let_def)
      then show ?thesis using finish_error [OF no2] assms(1) by simp
    next
      case (Inr x)
      then have "run_restore_platform env s = restore_modules env remote root (bs_next s) s2"
        using st remote1 d \<open>dr = Inr path\<close> r s1(1) by (simp add: run_restore_platform_def Let_def)
      moreover have "restore_database env remote root ?t = (Inr (), s2)" using r Inr by simp
      ultimately show ?thesis using s1(2,3) no2 by (intro exI [of _ ?t] exI [of _ s2]) simp
    qed
  qed
qed


section \<open>A small machine\<close>

type_synonym small_world = "(string \<times> string) list \<times> (string \<Rightarrow> string)"

definition small_remote :: "small_world \<Rightarrow> string \<Rightarrow> string option" where "small_remote w = map_of (fst w)"

definition backed_db :: core_db where "backed_db = mgr_db"

definition small_dump :: "core_db \<Rightarrow> string" where
  "small_dump db = (if db = backed_db then ''full'' else ''other'')"

definition small_reply :: "string option \<Rightarrow> string \<Rightarrow> cmd_result" where
  "small_reply e out = \<lparr>cr_started = True, cr_error = e, cr_out = out, cr_err = [], cr_both = []\<rparr>"

fun small_docker :: "((small_dir, unit) company \<times> small_world) docker" where
  "small_docker dir args stdin (c, R, V) =
     (let good = (\<lambda>out s. (small_reply None out, s)); bad = (small_reply (Some ''x'') [], (c, R, V)) in
      if args ! 2 = ''-v'' then good [] (c, R, V)
      else if args ! 2 = ''-i'' then
        (let path = last args; sub = last (butlast args) in
         if sub = ''rcat'' then good [] (c, (path, stdin) # R, V)
         else if sub = ''cat'' then (case map_of R path of None \<Rightarrow> bad | Some v \<Rightarrow> good v (c, R, V))
         else if stdin = ''full'' then good [] (c\<lparr>co_db := backed_db\<rparr>, R, V) else bad)
      else if args ! 4 = ''-e'' then good (small_dump (co_db c)) (c, R, V)
      else if drop (length (args ! 5) - 3) (args ! 5) = '':ro''
      then good [] (c, (drop 7 (args ! 7), V (take (length (args ! 5) - 9) (args ! 5))) # R, V)
      else (case map_of R (drop 7 (args ! 7)) of
          None \<Rightarrow> bad
        | Some v \<Rightarrow> good [] (c, R, V(take (length (args ! 5) - 6) (args ! 5) := v))))"

definition small_backup_env :: "(small_world, small_dir, unit) backup_env" where
  "small_backup_env = \<lparr>be_faults = no_faults, be_now = 5, be_docker = small_docker, be_walk = (\<lambda>xs. xs), be_url = ''u'',
     be_lc = job_env, be_co = small_env\<rparr>"

definition small_machine :: "(small_world, small_dir, unit) backups" where
  "small_machine = \<lparr>bs_config = Some \<lparr>bc_destination = ''aws'', bc_key = ''k'', bc_secret = ''s'', bc_bucket = ''b'', bc_region = ''r'',
       bc_schedule = ''daily''\<rparr>, bs_runs = [], bs_next = 1, bs_lines = [], bs_dumps = [],
     bs_world = ([], \<lambda>_. ''payload''), bs_mgr = ex_manager\<lparr>mg_catalog := [ex_module\<lparr>mf_volumes := [''data'']\<rparr>]\<rparr>,
     bs_co = small_company\<rparr>"

definition small_files :: "(string \<times> string) list" where
  "small_files = [(''backup:b/platform/files/data.tar.gz'', ''payload''), (''backup:b/platform/db.dump'', ''full'')]"

text \<open>Another machine: the same release of the platform, the settings of the destination typed in, nothing else.\<close>

definition new_machine :: "(small_world, small_dir, unit) backups" where
  "new_machine = small_machine\<lparr>bs_world := (small_files, \<lambda>_. []),
     bs_mgr := (bs_mgr small_machine)\<lparr>mg_db := \<lparr>cd_mods = [], cd_archive = [], cd_ports = [], cd_settings = Some ([], [])\<rparr>,
       mg_up := []\<rparr>\<rparr>"

lemma small_env_sel: "be_docker small_backup_env = small_docker" "be_walk small_backup_env = (\<lambda>xs. xs)" "be_url small_backup_env = ''u''" "small_remote (R, V) = map_of R"
  by (simp_all add: small_backup_env_def small_remote_def)

lemma small_replies: "cr_started (small_reply e t)" "cr_error (small_reply e t) = e" "cr_out (small_reply e t) = t"
  by (simp_all add: small_reply_def)

lemma drop_suffix: "drop (length xs) (xs @ ys) = ys" "take (length xs) (xs @ ys) = xs"
  by simp_all

lemmas small_cmds = dk_backup_volume_def dk_restore_volume_def dk_volume_tar_def dk_combined_def dk_dump_database_def
  dk_restore_database_def dk_pipe_def dk_rclone_copy_def rclone_args_def small_env_sel small_replies

lemma small_backup_law: "backup_law small_backup_env small_remote snd (\<lambda>v. v) small_dump"
  unfolding backup_law_def
proof (intro conjI allI impI)
qed (auto simp: small_cmds Let_def last_append butlast_append split: if_splits option.splits)

lemma small_restore_law: "restore_law small_backup_env small_remote snd (\<lambda>v. v) small_dump"
  unfolding restore_law_def
proof (intro conjI allI impI)
qed (auto simp: small_cmds Let_def last_append butlast_append small_dump_def split: if_splits option.splits)


definition small_settings :: "(string \<times> string) list" where
  "small_settings = remote_env ''AWS'' ''k'' ''s'' [(''RCLONE_CONFIG_BACKUP_REGION'', ''r'')]"

lemma small_remote_env: "bs_config s = bs_config small_machine \<Longrightarrow> rclone_remote no_faults s = Inr (small_settings, ''backup:b'')"
  by (simp add: rclone_remote_def get_backup_config_def small_machine_def small_settings_def Let_def)

lemma small_env_more: "be_faults small_backup_env = no_faults" "be_now small_backup_env = 5" "be_lc small_backup_env = job_env"
   "be_co small_backup_env = small_env"
  by (simp_all add: small_backup_env_def)

lemma small_ids: "installed_ids no_faults mgr_db = Inr [''files'']"
  by (simp add: installed_ids_def mgr_db_def order_by_def)

lemma small_volumes: "mg_catalog m = [ex_module\<lparr>mf_volumes := [''data'']\<rparr>] \<Longrightarrow> backup_volumes m ''files'' = [(''data'', volume_name ''files'' ''data'')]"
  by (simp add: backup_volumes_def in_catalog_def ex_module_def)

lemma on_world_same: "g (company_view s, bs_world s) = (r, company_view s, w) \<Longrightarrow> on_world g s = (r, with_company (company_view s) (s\<lparr>bs_world := w\<rparr>))"
  by (simp add: on_world_def)

lemma small_dump_step:
  "dk_dump_database small_docker (\<lambda>xs. xs) backup_network u e dst ts (c, w) = (Inr (), c, (dst, small_dump (co_db c)) # fst w, snd w)"
  by (cases w) (simp add: small_cmds Let_def last_append butlast_append)

lemma small_backup_step:
  "dk_backup_volume small_docker (\<lambda>xs. xs) vol backup_network e dst (c, w) = (Inr (), c, (dst, snd w vol) # fst w, snd w)"
  by (cases w) (simp add: small_cmds Let_def last_append butlast_append)

lemma small_restore_step:
  "map_of (fst w) src = Some v \<Longrightarrow>
   dk_restore_volume small_docker (\<lambda>xs. xs) vol backup_network e src (c, w) = (Inr (), c, fst w, (snd w)(vol := v))"
  by (cases w) (simp add: small_cmds Let_def last_append butlast_append)

lemma small_reload_step:
  "map_of (fst w) src = Some ''full'' \<Longrightarrow>
   dk_restore_database small_docker (\<lambda>xs. xs) backup_network u e src (c, w) = (Inr (), c\<lparr>co_db := backed_db\<rparr>, w)"
  by (cases w) (simp add: small_cmds Let_def last_append butlast_append)

lemma with_company_sel [simp]: "bs_world (with_company c s) = bs_world s" "mg_db (bs_mgr (with_company c s)) = co_db c"
  "mg_catalog (bs_mgr (with_company c s)) = mg_catalog (bs_mgr s)" "bs_runs (with_company c s) = bs_runs s"
  by (simp_all add: with_company_def)

lemma reported:
  assumes "list_ex (\<lambda>r. br_id r = i) (bs_runs s)"
  shows "run_succeeded i (finish_run no_faults now i kind ''success'' None s)"
proof -
  have "pg_text []" by (simp add: pg_text_def valid_utf8_def)
  then have "bs_runs (finish_run no_faults now i kind ''success'' None s) = map (\<lambda>r. if br_id r = i
      then r\<lparr>br_finished := Some now, br_status := ''success'', br_error := Some []\<rparr> else r) (bs_runs s)"
    by (simp add: finish_run_def Let_def)
  note rows = this
  obtain r where "r \<in> set (bs_runs s)" "br_id r = i" using assms by (auto simp: list_ex_iff)
  then have "r\<lparr>br_finished := Some now, br_status := ''success'', br_error := Some []\<rparr>
      \<in> set (bs_runs (finish_run no_faults now i kind ''success'' None s))"
    unfolding rows by (auto simp: image_iff)
  with \<open>br_id r = i\<close> show ?thesis unfolding run_succeeded_def list_ex_iff by (rule_tac bexI) simp_all
qed

lemma small_backup_run:
  "run_succeeded 1 (run_backup small_backup_env small_machine)" "fst (bs_world (run_backup small_backup_env small_machine)) = small_files"
proof -
  obtain i s1 where st: "start_run no_faults 5 ''backup'' small_machine = (Some i, s1)" by (simp add: start_run_def)
  note s1 = start_run_ok [OF st]
  have db: "mg_db (bs_mgr s1) = mgr_db" "mg_catalog (bs_mgr s1) = [ex_module\<lparr>mf_volumes := [''data'']\<rparr>]"
     "bs_world s1 = ([], \<lambda>_. ''payload'')" "bs_config s1 = bs_config small_machine" "i = 1"
    by (simp_all add: s1 small_machine_def ex_manager_def)
  have "running_module no_faults s1 ''fileshare-webdav'' = None"
    by (simp add: running_module_def running_config_def get_installed_def find_mod_def db mgr_db_def)
  then have a: "backup_files small_backup_env small_settings ''backup:b'' ([], s1) = ([], s1)" 
    by (simp add: backup_files_def small_env_more)
  obtain s2 where b: "backup_database small_backup_env small_settings ''backup:b'' ([], s1) = ([], s2)" "bs_runs s2 = bs_runs s1"
      "mg_db (bs_mgr s2) = mgr_db" "mg_catalog (bs_mgr s2) = mg_catalog (bs_mgr s1)"
      "bs_world s2 = ([(''backup:b/platform/db.dump'', ''full'')], \<lambda>_. ''payload'')"
    by (simp add: backup_database_def try_part_def on_world_def small_env_sel small_dump_step platform_dump_path_def small_dump_def db backed_db_def)
  obtain s3 where c: "backup_modules small_backup_env small_settings ''backup:b'' ([], s2) = ([], s3)" "bs_runs s3 = bs_runs s1"
      "bs_world s3 = (small_files, \<lambda>_. ''payload'')"
    by (simp add: backup_modules_def backup_volume_def try_part_def on_world_def small_env_sel small_backup_step volume_path_def small_env_more small_ids
     small_volumes b db small_files_def)
  have run: "run_backup small_backup_env small_machine = report_run no_faults 5 1 ''backup'' ([], s3)"
    using st by (simp add: run_backup_def small_env_more small_remote_env db a b c)
  have "list_ex (\<lambda>r. br_id r = 1) (bs_runs s1)" using st by (auto simp: start_run_def small_machine_def)
  then show "run_succeeded 1 (run_backup small_backup_env small_machine)"
     by (simp add: run report_run_def reported c)
  show "fst (bs_world (run_backup small_backup_env small_machine)) = small_files"
     by (simp add: run report_run_def c)
qed


definition restored_manager :: manager where
  "restored_manager = (bs_mgr small_machine)\<lparr>mg_up := []\<rparr>"

lemma small_reinstall: "\<exists>m. reinstall job_env restored_manager ''files'' = (Inr (), m)"
proof -
  have "fst (reinstall job_env restored_manager ''files'') = Inr ()" by code_simp
  then show ?thesis by (metis prod.collapse)
qed

lemma small_restore_run: "run_succeeded 1 (run_restore_platform small_backup_env new_machine)"
proof -
  obtain i s1 where st: "start_run no_faults 5 ''restore-platform'' new_machine = (Some i, s1)" by (simp add: start_run_def)
  note s1 = start_run_ok [OF st]
  have runs: "list_ex (\<lambda>r. br_id r = 1) (bs_runs s1)" using st by (auto simp: start_run_def small_machine_def new_machine_def)
  have i: "i = 1" "bs_config s1 = bs_config small_machine" by (simp_all add: s1 new_machine_def small_machine_def)
  obtain p ds where d: "db_snapshot no_faults 5 ''before-restore'' (bs_dumps s1) = (Inr p, ds)" by (simp add: db_snapshot_def Let_def)
  obtain s2 where b: "restore_database small_backup_env small_settings ''backup:b'' (s1\<lparr>bs_dumps := ds\<rparr>) = (Inr (), s2)"
      "bs_runs s2 = bs_runs s1" "bs_mgr s2 = restored_manager" "bs_world s2 = (small_files, \<lambda>_. [])"
  proof -
    have *: "company_view (s1\<lparr>bs_dumps := ds\<rparr>) = company_view s1" by (simp add: company_view_def)
    have "bs_mgr (with_company ((company_view s1)\<lparr>co_db := backed_db\<rparr>) t) = restored_manager" if "bs_mgr t = bs_mgr s1" for t
      using that by (simp add: with_company_def s1 new_machine_def restored_manager_def small_machine_def ex_manager_def backed_db_def)
    from this [of "s1\<lparr>bs_dumps := ds, bs_world := (small_files, \<lambda>_. [])\<rparr>"] have "bs_mgr (with_company ((company_view s1)\<lparr>co_db := backed_db\<rparr>)
        (s1\<lparr>bs_dumps := ds, bs_world := (small_files, \<lambda>_. [])\<rparr>)) = restored_manager" by simp
    moreover have "bs_world s1 = (small_files, \<lambda>_. [])" by (simp add: s1 new_machine_def)
    moreover have "map_of small_files ''backup:b/platform/db.dump'' = Some ''full''" by (simp add: small_files_def)
    ultimately show ?thesis using that
      by (simp add: restore_database_def on_world_def small_env_sel small_reload_step platform_dump_path_def small_env_more *)
  qed
  have r: "reload_settings no_faults restored_manager = (Inr (), restored_manager)"
    by (simp add: reload_settings_def restored_manager_def small_machine_def ex_manager_def mgr_db_def)
  obtain s3 where c: "restore_module small_backup_env small_settings ''backup:b'' ''files'' ([], s2) = ([], s3)" 
      "bs_runs s3 = bs_runs s1"
  proof -
    have v: "backup_volumes restored_manager ''files'' = [(''data'', volume_name ''files'' ''data'')]"
      by (rule small_volumes) (simp add: restored_manager_def small_machine_def)
    have "map_of small_files ''backup:b/platform/files/data.tar.gz'' = Some ''payload''" by (simp add: small_files_def)
    then obtain t where t: "restore_volume small_backup_env small_settings ''backup:b'' ''files'' (''data'', volume_name ''files'' ''data'') ([], s2) = ([], t)"
       "bs_runs t = bs_runs s2" "bs_mgr t = restored_manager"
      using b that by (simp add: restore_volume_def try_part_def on_world_def small_env_sel small_restore_step volume_path_def with_company_def company_view_def)
    obtain m where m: "reinstall job_env restored_manager ''files'' = (Inr (), m)" using small_reinstall by blast
    show ?thesis
      using t m b(2) by (intro that [of "t\<lparr>bs_mgr := m\<rparr>"]) (simp_all add: restore_module_def b(3) small_env_sel v try_part_def on_manager_def small_env_more)
  qed
  have restored_db: "mg_db restored_manager = mgr_db" by (simp add: restored_manager_def small_machine_def ex_manager_def)
  have fo: "bs_runs (restore_folders small_backup_env s3) = bs_runs s1"
    by (simp only: restore_runs(2) c(2))
  have "s2\<lparr>bs_mgr := restored_manager\<rparr> = s2" using b(3) by simp
  then have same: "restore_module small_backup_env small_settings ''backup:b'' ''files'' ([], s2\<lparr>bs_mgr := restored_manager\<rparr>) = ([], s3)"
    using c(1) by (simp only:)
  have "run_restore_platform small_backup_env new_machine = report_run no_faults 5 1 ''restore-platform'' ([], restore_folders small_backup_env s3)"
    using st by (simp add: run_restore_platform_def small_env_more small_remote_env i d b restore_modules_def on_manager_def r restored_db small_ids same Let_def)
  then show ?thesis using runs by (simp add: report_run_def reported fo)
qed


end
