(* ===== verification/Gateway.thy ===== *)
theory Gateway
  imports Vpn
begin

text \<open>
  The platform's own gateway in the VPN (\<open>backend/internal/api/gateway.go\<close>, \<open>officenetwork.go\<close>, the set-up in \<open>vpn.go\<close>):
  the route to the private modules, the office network with its port rules, and the steps run after the VPN module was
  installed.  A loop that waits is a number of attempts; what a poll saw is an argument.
\<close>

section \<open>Waiting\<close>

fun retry :: "nat \<Rightarrow> ('s \<Rightarrow> (string + 'a) \<times> 's) \<Rightarrow> 's \<Rightarrow> (string + 'a) \<times> 's" where
  "retry 0 g s = (Inl ''gave up'', s)"
| "retry (Suc n) g s =
     (case g s of
        (Inr a, s1) \<Rightarrow> (Inr a, s1)
      | (Inl e, s1) \<Rightarrow> if n = 0 then (Inl e, s1) else retry n g s1)"

section \<open>The office network\<close>

definition office_network_name :: string where "office_network_name = ''office''"
definition office_group_name :: string where "office_group_name = ''office-lan''"
definition office_policy_name :: string where "office_policy_name = ''office access''"

text \<open>Of the entries of a list the first wanted one is kept and every other one deleted.\<close>

fun keep_one :: "('a \<Rightarrow> bool) \<Rightarrow> ('a \<Rightarrow> 'n \<Rightarrow> (string + unit) \<times> 'n) \<Rightarrow> bool \<Rightarrow> 'a list \<Rightarrow> 'n \<Rightarrow> (string + bool) \<times> 'n" where
  "keep_one wanted del have [] n = (Inr have, n)"
| "keep_one wanted del have (x # xs) n =
     (if wanted x \<and> \<not> have then keep_one wanted del True xs n
      else and_then (del x n) (\<lambda>_ n. keep_one wanted del have xs n))"

definition office_off :: "'n nb_server \<Rightarrow> string \<Rightarrow> (string \<times> string) option \<Rightarrow> 'n \<Rightarrow> (string + unit) \<times> 'n" where
  "office_off S tok network n =
     and_then (case network of None \<Rightarrow> (Inr (), n) | Some (i, _) \<Rightarrow> delete_network S tok i n) (\<lambda>_ n.
       delete_policies_with_prefix S tok office_policy_name {} n)"

definition office_group :: "'n nb_server \<Rightarrow> string \<Rightarrow> 'n \<Rightarrow> (string + string) \<times> 'n" where
  "office_group S tok n =
     and_then (nb_list_groups S tok n) (\<lambda>gs n.
       let i = (case last_named ng_name office_group_name gs of None \<Rightarrow> [] | Some g \<Rightarrow> ng_id g) in
       if i \<noteq> [] then (Inr i, n)
       else and_then (nb_create_group S tok office_group_name n) (\<lambda>g n. (Inr (ng_id g), n)))"

definition office_router :: "'n nb_server \<Rightarrow> string \<Rightarrow> string \<Rightarrow> string \<Rightarrow> 'n \<Rightarrow> (string + unit) \<times> 'n" where
  "office_router S tok net pid n =
     and_then (list_routers S tok net n) (\<lambda>rs n.
     and_then (keep_one (\<lambda>(i, p). p = pid) (\<lambda>(i, p). delete_router S tok net i) False rs n) (\<lambda>have n.
       if have then (Inr (), n) else create_router S tok net pid n))"

definition office_resource :: "'n nb_server \<Rightarrow> string \<Rightarrow> string \<Rightarrow> string \<Rightarrow> string \<Rightarrow> 'n \<Rightarrow> (string + unit) \<times> 'n" where
  "office_resource S tok net cidr lan n =
     and_then (list_resources S tok net n) (\<lambda>rs n.
     and_then (keep_one (\<lambda>(i, a). a = cidr) (\<lambda>(i, a). delete_resource S tok net i) False rs n) (\<lambda>have n.
       if have then (Inr (), n) else create_resource S tok net ''office LAN'' cidr [lan] n))"

definition sync_office_network ::
  "'n nb_server \<Rightarrow> string \<Rightarrow> (string \<Rightarrow> string) \<Rightarrow> string \<Rightarrow> string \<Rightarrow> string \<Rightarrow> string \<Rightarrow> 'n \<Rightarrow> (string + unit) \<times> 'n" where
  "sync_office_network S tok lower approved pid cidr ports n =
     and_then (list_networks S tok n) (\<lambda>nets n.
       let network = last_named snd office_network_name nets in
       if cidr = [] then office_off S tok network n
       else case parse_office_ports lower ports of
         Inl e \<Rightarrow> (Inl e, n)
       | Inr rules \<Rightarrow>
           and_then (office_group S tok n) (\<lambda>lan n.
           and_then (case network of Some x \<Rightarrow> (Inr x, n) | None \<Rightarrow> create_network S tok office_network_name n) (\<lambda>net n.
           and_then (office_router S tok (fst net) pid n) (\<lambda>_ n.
           and_then (office_resource S tok (fst net) cidr lan n) (\<lambda>_ n.
             set_rule_policies S tok office_policy_name approved lan rules n)))))"

section \<open>Routes\<close>

definition internal_services_route :: string where "internal_services_route = ''internal-services''"
definition office_network_route :: string where "office_network_route = ''office-network''"
definition internal_services_cidr :: string where "internal_services_cidr = ''10.201.28.2/32''"

definition wanted_routes :: "(string \<times> string) list" where
  "wanted_routes = [(internal_services_route, internal_services_cidr)]"

definition gateway_peer :: "'n nb_server \<Rightarrow> string \<Rightarrow> string \<Rightarrow> 'n \<Rightarrow> (string + string) \<times> 'n" where
  "gateway_peer S tok container n =
     and_then (list_peers S tok n) (\<lambda>ps n.
       case find (\<lambda>p. np_hostname p = container) ps of
         Some p \<Rightarrow> (Inr (np_id p), n)
       | None \<Rightarrow> (Inl (''gateway peer not found among '' @ nat_str (length ps) @ '' peers''), n))"

definition our_route :: "nb_route \<Rightarrow> bool" where
  "our_route r \<longleftrightarrow> nr_network_id r = internal_services_route \<or> nr_network_id r = office_network_route"

definition right_route :: "string \<Rightarrow> string \<Rightarrow> nb_route \<Rightarrow> bool" where
  "right_route pid gid r \<longleftrightarrow> config_value wanted_routes (nr_network_id r) = nr_network r \<and> nr_peer r = pid \<and> nr_groups r = [gid]"

text \<open>The routes that stay, by name; the others with one of our names are deleted.\<close>

fun prune_routes ::
  "'n nb_server \<Rightarrow> string \<Rightarrow> string \<Rightarrow> string \<Rightarrow> string set \<Rightarrow> nb_route list \<Rightarrow> 'n \<Rightarrow> (string + string set) \<times> 'n" where
  "prune_routes S tok pid gid have [] n = (Inr have, n)"
| "prune_routes S tok pid gid have (r # rs) n =
     (if \<not> our_route r then prune_routes S tok pid gid have rs n
      else if right_route pid gid r \<and> nr_network_id r \<notin> have
      then prune_routes S tok pid gid (insert (nr_network_id r) have) rs n
      else and_then (delete_route S tok (nr_id r) n) (\<lambda>_ n. prune_routes S tok pid gid have rs n))"

definition add_routes :: "'n nb_server \<Rightarrow> string \<Rightarrow> string \<Rightarrow> string \<Rightarrow> string set \<Rightarrow> 'n \<Rightarrow> (string + unit) \<times> 'n" where
  "add_routes S tok pid gid have n =
     each_step (\<lambda>(nid, cidr) n. wrapped (''create route '' @ nid) (create_route S tok nid cidr ''internal services gateway'' pid gid n))
       (filter (\<lambda>(nid, cidr). nid \<notin> have) wanted_routes) n"

definition sync_routes_on_server ::
  "'n nb_server \<Rightarrow> string \<Rightarrow> (string \<Rightarrow> string) \<Rightarrow> string \<Rightarrow> bool \<Rightarrow> string \<Rightarrow> string \<Rightarrow> 'n \<Rightarrow> (string + unit) \<times> 'n" where
  "sync_routes_on_server S tok lower container mfa office ports n =
     and_then (ensure_access_policy S tok n) (\<lambda>gid n.
     and_then (gateway_peer S tok container (snd (set_local_mfa S tok mfa n))) (\<lambda>pid n.
     and_then (list_routes S tok n) (\<lambda>rs n.
     and_then (prune_routes S tok pid gid {} rs n) (\<lambda>have n.
     and_then (add_routes S tok pid gid have n) (\<lambda>_ n.
       sync_office_network S tok lower gid pid office ports n)))))"

definition sync_gateway_routes :: "('d, 'n) company_env \<Rightarrow> ('d, 'n) company \<Rightarrow> (string + unit) \<times> ('d, 'n) company" where
  "sync_gateway_routes env s =
     (case netbird_client env s of
        Inl e \<Rightarrow> (Inl (''netbird client: '' @ e), s)
      | Inr None \<Rightarrow> (Inr (), s)
      | Inr (Some nbt) \<Rightarrow>
          if cx_faults env ''load office network setting'' then (Inl ''load office network setting'', s)
          else on_nb (sync_routes_on_server (cx_nb env) nbt (cx_lower env) (cx_gateway env)
            (vpn_mfa_wanted (cx_faults env) s) (co_office s) (co_office_ports s)) s)"

definition sync_on_start :: "('d, 'n) company_env \<Rightarrow> ('d, 'n) company \<Rightarrow> ('d, 'n) company" where
  "sync_on_start env s = snd (retry 20 (sync_gateway_routes env) s)"

section \<open>The settings\<close>

text \<open>The answer: available, enabled, network, ports, detected network.\<close>

definition get_office_network ::
  "('d, 'n) company_env \<Rightarrow> string \<Rightarrow> ('d, 'n) company \<Rightarrow> (bool \<times> bool \<times> string \<times> string \<times> string) result \<times> ('d, 'n) company" where
  "get_office_network env tok = as_admin env tok (\<lambda>s.
     and_then (or_500 ''check vpn module'' (netbird_client env s, s)) (\<lambda>nb s.
     and_then (check (\<not> cx_faults env ''load office network'') (internal_error ''load office network'') s) (\<lambda>_ s.
       (Inr (nb \<noteq> None, co_office s \<noteq> [], co_office s, co_office_ports s,
          (case cx_routes env of Inl _ \<Rightarrow> [] | Inr out \<Rightarrow> parse_office_network out)), s))))"

definition office_settings :: "(string \<Rightarrow> string) \<Rightarrow> bool \<Rightarrow> string \<Rightarrow> string \<Rightarrow> (string \<times> string) result" where
  "office_settings lower enabled network ports =
     (if \<not> enabled then Inr ([], [])
      else case parse_office_ports lower ports of
        Inl e \<Rightarrow> Inl (HTTP 400 e)
      | Inr _ \<Rightarrow>
          (case valid_office_network network of
             None \<Rightarrow> Inl (HTTP 400 ''enter a private office network like 192.168.1.0/24'')
           | Some p \<Rightarrow> Inr (prefix_str p, trim_space ports)))"

definition save_office_network ::
  "('d, 'n) company_env \<Rightarrow> string \<Rightarrow> bool \<Rightarrow> string \<Rightarrow> string \<Rightarrow> ('d, 'n) company \<Rightarrow> unit result \<times> ('d, 'n) company" where
  "save_office_network env tok enabled network ports = as_admin env tok (\<lambda>s.
     and_then (office_settings (cx_lower env) enabled network ports, s) (\<lambda>o1 s.
     and_then (check (\<not> cx_faults env ''save office network'') (internal_error ''save office network'') s) (\<lambda>_ s.
       or_500 ''update vpn routes'' (sync_gateway_routes env (s\<lparr>co_office := fst o1, co_office_ports := snd o1\<rparr>)))))"

section \<open>After an installation\<close>

text \<open>\<open>cfg\<close>: the configuration once the module was seen running, \<open>tries\<close>: how often the set-up fits the five minutes.\<close>

definition bootstrap_netbird ::
  "('d, 'n) company_env \<Rightarrow> config option \<Rightarrow> nat \<Rightarrow> ('d, 'n) company \<Rightarrow> ('d, 'n) company" where
  "bootstrap_netbird env cfg tries s =
     (case cfg of
        None \<Rightarrow> s
      | Some c \<Rightarrow>
          (case retry tries (on_nb (nb_setup (cx_nb env) (config_value c ''owner_email'') (config_value c ''owner_password'') ''Admin'')) s of
             (Inr pat, s1) \<Rightarrow>
               if pat = [] \<or> cx_faults env ''persist management token'' then s1
               else s1\<lparr>co_db := update_mod ''vpn-netbird''
                 (\<lambda>r. r\<lparr>in_config := AList.update ''management_pat'' pat (in_config r)\<rparr>) (co_db s1)\<rparr>
           | (Inl _, s1) \<Rightarrow> s1))"

definition bootstrap_gateway :: "('d, 'n) company_env \<Rightarrow> ('d, 'n) company \<Rightarrow> (string + unit) \<times> ('d, 'n) company" where
  "bootstrap_gateway env s =
     (case netbird_client env s of
        Inr (Some nbt) \<Rightarrow>
          and_then (on_nb (ensure_access_policy (cx_nb env) nbt) s) (\<lambda>approved s.
          and_then (on_nb (create_reusable_key (cx_nb env) nbt ''internal-gateway'' [approved]) s) (\<lambda>k s.
          and_then (retry 10 (on_nb (cx_up env (management_url s) (snd k))) s) (\<lambda>_ s.
            retry 10 (sync_gateway_routes env) s)))
      | _ \<Rightarrow> (Inl ''netbird client unavailable'', s))"

end
