(* ===== verification/VpnProps.thy ===== *)
theory VpnProps
  imports Gateway
begin

text \<open>
  What revoking VPN access achieves (\<open>backend/internal/api/vpn.go\<close>, \<open>backend/internal/netbird/client.go\<close>), under the laws of
  NetBird's management server stated here.
\<close>

section \<open>Revoked access\<close>

text \<open>What NetBird promises about devices (id, ids of their groups) and groups: a successful look shows them, looking
  changes nothing, deleting a device removes it, and deleting anything never puts a device into a group.\<close>

definition good_answer :: "string + nat \<times> answer_body \<Rightarrow> (json \<Rightarrow> 'a option) \<Rightarrow> ('a \<Rightarrow> bool) \<Rightarrow> bool" where
  "good_answer r dec ok \<longleftrightarrow> (case r of Inl _ \<Rightarrow> True | Inr (st, b) \<Rightarrow> st < 200 \<or> 300 \<le> st
     \<or> (case b of Json j \<Rightarrow> (case dec j of None \<Rightarrow> False | Some a \<Rightarrow> ok a) | _ \<Rightarrow> False))"

definition device_law :: "'n nb_server \<Rightarrow> string \<Rightarrow> ('n \<Rightarrow> (string \<times> string list) list) \<Rightarrow> ('n \<Rightarrow> nb_group list) \<Rightarrow> bool" where
  "device_law S tok D G \<longleftrightarrow>
     (\<forall>path n. D (snd (S ''GET'' path tok None n)) = D n \<and> G (snd (S ''GET'' path tok None n)) = G n)
     \<and> (\<forall>n. good_answer (fst (S ''GET'' ''/api/peers'' tok None n)) (dec_list dec_peer)
           (\<lambda>ps. map (\<lambda>p. (np_id p, map ng_id (np_groups p))) ps = D n))
     \<and> (\<forall>n. good_answer (fst (S ''GET'' ''/api/groups'' tok None n)) (dec_list dec_group) (\<lambda>gs. gs = G n))
     \<and> (\<forall>path n. set (D (snd (S ''DELETE'' path tok None n))) \<subseteq> set (D n))
     \<and> (\<forall>i n r n'. S ''DELETE'' (''/api/peers/'' @ i) tok None n = (Inr r, n') \<and> 200 \<le> fst r \<and> fst r < 300 \<longrightarrow>
           i \<notin> fst ` set (D n'))
     \<and> (\<forall>n. list_all (\<lambda>g. ng_id g \<noteq> []) (G n))
     \<and> (\<forall>path n. \<not> has_prefix path ''/api/groups'' \<longrightarrow> G (snd (S ''DELETE'' path tok None n)) = G n)"

lemma device_lawD:
  assumes "device_law S tok D G"
  shows "D (snd (S ''GET'' path tok None n)) = D n" "G (snd (S ''GET'' path tok None n)) = G n"
    "good_answer (fst (S ''GET'' ''/api/peers'' tok None n)) (dec_list dec_peer)
       (\<lambda>ps. map (\<lambda>p. (np_id p, map ng_id (np_groups p))) ps = D n)"
    "good_answer (fst (S ''GET'' ''/api/groups'' tok None n)) (dec_list dec_group) (\<lambda>gs. gs = G n)"
    "set (D (snd (S ''DELETE'' path tok None n))) \<subseteq> set (D n)"
    "S ''DELETE'' (''/api/peers/'' @ i) tok None n = (Inr r, n') \<Longrightarrow> 200 \<le> fst r \<Longrightarrow> fst r < 300 \<Longrightarrow> i \<notin> fst ` set (D n')"
    "g \<in> set (G n) \<Longrightarrow> ng_id g \<noteq> []"
    "\<not> has_prefix path ''/api/groups'' \<Longrightarrow> G (snd (S ''DELETE'' path tok None n)) = G n"
proof -
  note law = assms [unfolded device_law_def]
  note l2 = conjunct2 [OF law] note l3 = conjunct2 [OF l2] note l4 = conjunct2 [OF l3]
  note l5 = conjunct2 [OF l4] note l6 = conjunct2 [OF l5]
  show "D (snd (S ''GET'' path tok None n)) = D n" "G (snd (S ''GET'' path tok None n)) = G n"
    using conjunct1 [OF law] by blast+
  show "good_answer (fst (S ''GET'' ''/api/peers'' tok None n)) (dec_list dec_peer)
       (\<lambda>ps. map (\<lambda>p. (np_id p, map ng_id (np_groups p))) ps = D n)"
    by (rule spec [OF conjunct1 [OF l2]])
  show "good_answer (fst (S ''GET'' ''/api/groups'' tok None n)) (dec_list dec_group) (\<lambda>gs. gs = G n)"
    by (rule spec [OF conjunct1 [OF l3]])
  show "set (D (snd (S ''DELETE'' path tok None n))) \<subseteq> set (D n)"
    by (rule spec [OF spec [OF conjunct1 [OF l4]]])
  show "S ''DELETE'' (''/api/peers/'' @ i) tok None n = (Inr r, n') \<Longrightarrow> 200 \<le> fst r \<Longrightarrow> fst r < 300 \<Longrightarrow> i \<notin> fst ` set (D n')"
    using spec [OF spec [OF spec [OF spec [OF conjunct1 [OF l5]]]], of i n r n'] by simp
  show "g \<in> set (G n) \<Longrightarrow> ng_id g \<noteq> []" using spec [OF conjunct1 [OF l6], of n] by (simp add: list_all_iff)
  show "\<not> has_prefix path ''/api/groups'' \<Longrightarrow> G (snd (S ''DELETE'' path tok None n)) = G n"
    using spec [OF spec [OF conjunct2 [OF l6]], of path n] by simp
qed

lemma nb_do_ok: "nb_do S tok meth path body n = (Inr b, n') \<longleftrightarrow>
    (\<exists>st. S meth path tok body n = (Inr (st, b), n') \<and> 200 \<le> st \<and> st < 300)"
  by (auto simp: nb_do_def split: prod.splits sum.splits)

lemma snd_nb_do: "snd (nb_do S tok meth path body n) = snd (S meth path tok body n)"
  by (simp add: nb_do_def split: prod.splits sum.splits)

lemma nb_list_ok:
  assumes "nb_list S tok msg path dec n = (Inr xs, n')" "good_answer (fst (S ''GET'' path tok None n)) (dec_list dec) ok"
  shows "ok xs \<and> n' = snd (S ''GET'' path tok None n)"
proof -
  have "nb_read (dec_list dec) (nb_do S tok ''GET'' path None n) = (Inr xs, n')" using assms(1) by (simp add: nb_list_def)
  from and_then_Inr [OF this [unfolded nb_read_def]]
  obtain b n1 where b: "nb_do S tok ''GET'' path None n = (Inr b, n1)"
    and r: "(case (case b of No_body \<Rightarrow> dec_list dec J_null | Not_json \<Rightarrow> None | Json j \<Rightarrow> dec_list dec j) of
       None \<Rightarrow> (Inl ''decode response'', n1) | Some a \<Rightarrow> (Inr a, n1)) = (Inr xs, n')" by blast
  obtain st where st: "S ''GET'' path tok None n = (Inr (st, b), n1)" "200 \<le> st" "st < 300" using b [unfolded nb_do_ok] by blast
  obtain j a where j: "b = Json j" "dec_list dec j = Some a" "ok a"
  proof (cases b)
    case (Json j)
    then show ?thesis
      using assms(2) st that by (cases "dec_list dec j") (simp_all add: good_answer_def)
  qed (use assms(2) st in \<open>simp_all add: good_answer_def\<close>)
  have "n' = n1" "xs = a" using r j(1,2) by simp_all
  then show ?thesis using st j(3) by simp
qed

lemma snd_nb_delete: "snd (nb_delete S tok msg path n) = snd (S ''DELETE'' path tok None n)"
proof -
  have "snd (nb_delete S tok msg path n) = snd (S ''DELETE'' path tok None n)"
    using snd_nb_do [of S tok "''DELETE''" path None n]
    by (cases "nb_do S tok ''DELETE'' path None n") (simp add: nb_delete_def nb_done_def and_then_def split: sum.splits)
  then show ?thesis .
qed

lemma delete_shrinks: "device_law S tok D G \<Longrightarrow> set (D (snd (nb_delete S tok msg path n))) \<subseteq> set (D n)"
  unfolding snd_nb_delete by (rule device_lawD(5))

lemma delete_peer_ok:
  assumes "device_law S tok D G" "delete_peer S tok i n = (Inr (), n')"
  shows "i \<notin> fst ` set (D n')" "set (D n') \<subseteq> set (D n)"
proof -
  obtain b where "nb_do S tok ''DELETE'' (''/api/peers/'' @ i) None n = (Inr b, n')"
    using assms(2) by (auto simp: delete_peer_def nb_delete_def nb_done_def dest!: and_then_Inr)
  then show "i \<notin> fst ` set (D n')" using device_lawD(6) [OF assms(1)] unfolding nb_do_ok by fastforce
  show "set (D n') \<subseteq> set (D n)"
    using delete_shrinks [OF assms(1), of "''delete peer''" "''/api/peers/'' @ i" n] assms(2) by (simp add: delete_peer_def)
qed

lemma delete_each:
  assumes "device_law S tok D G" "each_step (\<lambda>p n. delete_peer S tok (np_id p) n) ps n = (Inr (), n')"
  shows "set (D n') \<subseteq> set (D n) \<and> fst ` set (D n') \<inter> np_id ` set ps = {}"
  using assms(2)
proof (induction ps arbitrary: n)
  case (Cons p ps)
  obtain n1 where n1: "delete_peer S tok (np_id p) n = (Inr (), n1)"
    and rest: "each_step (\<lambda>p n. delete_peer S tok (np_id p) n) ps n1 = (Inr (), n')"
    using Cons.prems by (auto dest!: and_then_Inr)
  from Cons.IH [OF rest] delete_peer_ok [OF assms(1) n1] show ?case by auto
qed simp

lemma delete_group_devices_ok:
  assumes "device_law S tok D G" "delete_group_devices S tok gid n = (Inr (), n')"
  shows "\<forall>(i, gs) \<in> set (D n'). gid \<notin> set gs" "set (D n') \<subseteq> set (D n)"
proof -
  obtain ps n1 where ps: "list_peers S tok n = (Inr ps, n1)"
    and del: "each_step (\<lambda>p n. delete_peer S tok (np_id p) n) (filter (\<lambda>p. gid \<in> ng_id ` set (np_groups p)) ps) n1 = (Inr (), n')"
    using assms(2) by (auto simp: delete_group_devices_def dest!: and_then_Inr)
  note seen = nb_list_ok [OF ps [unfolded list_peers_def] device_lawD(3) [OF assms(1)]]
  have same: "D n1 = D n" using seen device_lawD(1) [OF assms(1)] by simp
  note each = delete_each [OF assms(1) del]
  show "set (D n') \<subseteq> set (D n)" using each same by simp
  show "\<forall>(i, gs) \<in> set (D n'). gid \<notin> set gs"
  proof (clarify)
    fix i gs assume e: "(i, gs) \<in> set (D n')" "gid \<in> set gs"
    then have "(i, gs) \<in> set (map (\<lambda>p. (np_id p, map ng_id (np_groups p))) ps)" using each same seen by auto
    then obtain p where p: "p \<in> set ps" "i = np_id p" "gs = map ng_id (np_groups p)" by auto
    then have "i \<in> np_id ` set (filter (\<lambda>p. gid \<in> ng_id ` set (np_groups p)) ps)" using e(2) by auto
    then show False using each e(1) by force
  qed
qed

lemma delete_old_access_keeps:
  assumes "device_law S tok D G"
  shows "set (D (delete_old_access S tok row n)) \<subseteq> set (D n)" "G (delete_old_access S tok row n) = G n"
proof -
  have key: "set (D (snd (delete_setup_key S tok i n))) \<subseteq> set (D n)" "G (snd (delete_setup_key S tok i n)) = G n" for i n
    using delete_shrinks [OF assms] device_lawD(8) [OF assms] by (simp_all add: delete_setup_key_def snd_nb_delete)
  have user: "set (D (snd (nb_delete_user S tok i n))) \<subseteq> set (D n)" "G (snd (nb_delete_user S tok i n)) = G n" for i n
    using delete_shrinks [OF assms] device_lawD(8) [OF assms] by (simp_all add: nb_delete_user_def snd_nb_delete)
  show "set (D (delete_old_access S tok row n)) \<subseteq> set (D n)"
  proof (cases row)
    case (Some r)
    let ?n1 = "if vr_key_id r = [] then n else snd (delete_setup_key S tok (vr_key_id r) n)"
    have "set (D ?n1) \<subseteq> set (D n)" using key(1) by simp
    moreover have "set (D (delete_old_access S tok row n)) \<subseteq> set (D ?n1)"
      unfolding Some delete_old_access_def option.case Let_def using user(1) by (simp only: order_refl split: if_splits) blast
    ultimately show ?thesis by (rule order_trans [rotated])
  qed (simp add: delete_old_access_def)
  show "G (delete_old_access S tok row n) = G n"
    by (simp add: delete_old_access_def Let_def key(2) user(2) split: option.splits)
qed

lemma revoke_on_server_ok:
  assumes law: "device_law S tok D G" and ok: "revoke_on_server S tok row u n = (Inr (), n')"
    and g: "find (\<lambda>g. ng_name g = user_group_name u) (G n) = Some g"
  shows "list_all (\<lambda>d. ng_id g \<notin> set (snd d)) (D n') \<and> set (D n') \<subseteq> set (D n)"
proof -
  let ?n1 = "delete_old_access S tok row n"
  from and_then_Inr [OF ok [unfolded revoke_on_server_def]]
  obtain gid n2 where gid: "user_vpn_group S tok u False ?n1 = (Inr gid, n2)"
    and rest: "(if gid = [] then (Inr (), n2)
       else and_then (delete_group_devices S tok gid n2) (\<lambda>_ n. (Inr (), snd (nb_delete_group S tok gid n)))) = (Inr (), n')" by blast
  from and_then_Inr [OF gid [unfolded user_vpn_group_def]]
  obtain gs n3 where gs: "nb_list_groups S tok ?n1 = (Inr gs, n3)"
    and found: "(case find (\<lambda>g. ng_name g = user_group_name u) gs of Some g \<Rightarrow> (Inr (ng_id g), n3)
       | None \<Rightarrow> if \<not> False then (Inr [], n3)
           else and_then (nb_create_group S tok (user_group_name u) n3) (\<lambda>g n. (Inr (ng_id g), n))) = (Inr gid, n2)" by blast
  note seen = nb_list_ok [OF gs [unfolded nb_list_groups_def] device_lawD(4) [OF law]]
  have "gs = G n" using seen delete_old_access_keeps(2) [OF law] by simp
  then have n2: "gid = ng_id g" "n2 = n3" using found g by simp_all
  have small: "set (D n2) \<subseteq> set (D n)"
    using seen n2(2) device_lawD(1) [OF law] delete_old_access_keeps(1) [OF law, of row n] by simp
  have "gid \<noteq> []" using g device_lawD(7) [OF law] n2(1) by (auto dest!: find_Some_set)
  then have "and_then (delete_group_devices S tok gid n2) (\<lambda>_ n. (Inr (), snd (nb_delete_group S tok gid n))) = (Inr (), n')"
    using rest by simp
  from and_then_Inr [OF this] obtain n4 where n4: "delete_group_devices S tok gid n2 = (Inr (), n4)" "n' = snd (nb_delete_group S tok gid n4)"
    by auto
  note gone = delete_group_devices_ok [OF law n4(1)]
  have "set (D n') \<subseteq> set (D n4)" unfolding n4(2) nb_delete_group_def by (rule delete_shrinks [OF law])
  then show ?thesis unfolding list_all_iff using gone small n2(1) by fastforce
qed


section \<open>A small NetBird\<close>

type_synonym small_nb = "(string \<times> string list) list \<times> (string \<times> string) list"

definition small_peer_json :: "string \<times> string list \<Rightarrow> json" where
  "small_peer_json p = J_obj [(''id'', J_str (fst p)), (''groups'', J_list (map (\<lambda>g. J_obj [(''id'', J_str g)]) (snd p)))]"

definition small_group_json :: "string \<times> string \<Rightarrow> json" where
  "small_group_json g = J_obj [(''id'', J_str (fst g)), (''name'', J_str (snd g))]"

definition small_nb_groups :: "small_nb \<Rightarrow> nb_group list" where
  "small_nb_groups n = map (\<lambda>g. \<lparr>ng_id = fst g, ng_name = snd g, ng_peers = []\<rparr>) (filter (\<lambda>g. fst g \<noteq> []) (snd n))"

definition small_nb_server :: "small_nb nb_server" where
  "small_nb_server meth path tok body n =
     (if meth = ''GET'' then
        (if path = ''/api/peers'' then Inr (200, Json (J_list (map small_peer_json (fst n))))
         else if path = ''/api/groups'' then Inr (200, Json (J_list (map small_group_json (filter (\<lambda>g. fst g \<noteq> []) (snd n)))))
         else Inl ''x'', n)
      else if meth = ''DELETE'' then (Inr (200, No_body), (filter (\<lambda>p. ''/api/peers/'' @ fst p \<noteq> path) (fst n),
        filter (\<lambda>g. ''/api/groups/'' @ fst g \<noteq> path) (snd n)))
      else (Inl ''x'', n))"

lemma all_some_map: "(\<And>x. x \<in> set xs \<Longrightarrow> f x = Some (g x)) \<Longrightarrow> all_some (map f xs) = Some (map g xs)"
  by (induction xs) auto

lemma dec_small_group: "dec_group (small_group_json g) = Some \<lparr>ng_id = fst g, ng_name = snd g, ng_peers = []\<rparr>"
  by (simp add: dec_group_def small_group_json_def field_of_def)

lemma dec_small_peer:
  "\<exists>p. dec_peer (small_peer_json q) = Some p \<and> (np_id p, map ng_id (np_groups p)) = q"
proof -
  have "dec_group (J_obj [(''id'', J_str g)]) = Some \<lparr>ng_id = g, ng_name = [], ng_peers = []\<rparr>" for g
    by (simp add: dec_group_def field_of_def)
  then have "dec_list dec_group (J_list (map (\<lambda>g. J_obj [(''id'', J_str g)]) gs)) = Some (map (\<lambda>g. \<lparr>ng_id = g, ng_name = [], ng_peers = []\<rparr>) gs)" for gs
    by (simp add: all_some_map comp_def)
  then show ?thesis by (simp add: dec_peer_def small_peer_json_def field_of_def comp_def)
qed

lemma dec_small_peers:
  "\<exists>ps. dec_list dec_peer (J_list (map small_peer_json qs)) = Some ps \<and> map (\<lambda>p. (np_id p, map ng_id (np_groups p))) ps = qs"
proof (induction qs)
  case (Cons q qs)
  then show ?case using dec_small_peer [of q] by auto
qed simp

lemma small_device_law: "device_law small_nb_server tok fst small_nb_groups"
  unfolding device_law_def
proof (intro conjI allI)
  show "good_answer (fst (small_nb_server ''GET'' ''/api/peers'' tok None n)) (dec_list dec_peer)
      (\<lambda>ps. map (\<lambda>p. (np_id p, map ng_id (np_groups p))) ps = fst n)" for n
    using dec_small_peers [of "fst n"] by (auto simp: good_answer_def small_nb_server_def simp del: dec_list.simps)
  show "good_answer (fst (small_nb_server ''GET'' ''/api/groups'' tok None n)) (dec_list dec_group) (\<lambda>gs. gs = small_nb_groups n)" for n
    by (simp add: good_answer_def small_nb_server_def small_nb_groups_def dec_small_group comp_def
        all_some_map [where g = "\<lambda>g. \<lparr>ng_id = fst g, ng_name = snd g, ng_peers = []\<rparr>"])
  show "\<not> has_prefix path ''/api/groups'' \<longrightarrow>
      small_nb_groups (snd (small_nb_server ''DELETE'' path tok None n)) = small_nb_groups n" for path n
  proof
    assume "\<not> has_prefix path ''/api/groups''"
    then have "''/api/groups/'' @ x \<noteq> path" for x by auto
    then show "small_nb_groups (snd (small_nb_server ''DELETE'' path tok None n)) = small_nb_groups n"
      by (simp add: small_nb_server_def small_nb_groups_def del: append_Cons)
  qed
qed (auto simp: small_nb_server_def small_nb_groups_def list_all_iff)

definition vx_env :: "(unit, small_nb) company_env" where
  "vx_env = \<lparr>cx_faults = no_faults, cx_now = 0,
     cx_ldap = \<lparr>ld_bind = (\<lambda>_ _ _. Invalid_password), ld_add = (\<lambda>_ _ d. (Inl Already_exists, d)), ld_modify = (\<lambda>_ _ d. (Inl ''x'', d)),
       ld_delete = (\<lambda>_ d. (Inl ''x'', d)), ld_search = (\<lambda>_ _ _ _. Inl ''x''), ld_escape = (\<lambda>n. n), ld_first_value = (\<lambda>_. None)\<rparr>,
     cx_nb = small_nb_server,
     cx_share = \<lparr>se_faults = no_faults, se_parse = (\<lambda>_. Inl ''x''), se_print = (\<lambda>_. Inl ''x''), se_bcrypt = (\<lambda>_. None)\<rparr>,
     cx_cal = \<lparr>ce_faults = no_faults, ce_bcrypt = (\<lambda>_. Inl ''x''), ce_walk = (\<lambda>us. us), ce_login = (\<lambda>_ _. Inr ()),
       ce_ensure = (\<lambda>_ _ _ _. Inr ())\<rparr>,
     cx_mkcol = (\<lambda>_. Inr 201), cx_random = None, cx_lower = (\<lambda>x. x), cx_routes = Inl ''x'', cx_gateway = ''gw'',
     cx_up = (\<lambda>_ _ n. (Inr (), n))\<rparr>"

definition vx_company :: "(unit, small_nb) company" where
  "vx_company = \<lparr>co_db = \<lparr>cd_mods = [\<lparr>in_id = ''vpn-netbird'', in_status = ''running'',
       in_config = [(''management_pat'', ''pat'')], in_error = None, in_vis = ''private''\<rparr>],
       cd_archive = [], cd_ports = [], cd_settings = None\<rparr>,
     co_domain = ''c.d'', co_admin = \<lparr>admins = [\<lparr>au_id = 1, au_email = ''a@x'', au_hash = ''h''\<rparr>], admin_next = 2,
       admin_sessions = [\<lparr>as_token = ''t'', as_user = 1, as_expires = 100\<rparr>]\<rparr>,
     co_emp = \<lparr>emp_sessions = [], user_logins = []\<rparr>, co_disabled = [],
     co_vpn = [\<lparr>vr_user = ''ann'', vr_key_id = ''k'', vr_key = ''s'', vr_expires = None, vr_nb_user = [], vr_nb_password = []\<rparr>],
     co_two_factor = False, co_office = [], co_office_ports = [], co_vols = [], co_folders = [], co_dir = (),
     co_nb = ([(''p1'', [''g1'', ''ok'']), (''p2'', [''g2''])], [(''g1'', ''user-ann''), (''g2'', ''user-bob'')])\<rparr>"

end
