(* ===== verification/GoUrl.thy ===== *)
theory GoUrl
  imports GoText
begin

text \<open>
  What the code uses of \<open>net/url\<close>: whether \<open>Parse\<close> takes a text, and the scheme it finds in it.  An error is \<open>None\<close>;
  the parts of the address that nobody reads are only checked.
\<close>

section \<open>Percent escapes\<close>

datatype url_part = In_user | In_path | In_host | In_zone | In_fragment

definition hex_chr :: "char \<Rightarrow> bool" where
  "hex_chr c \<longleftrightarrow> is_digit c \<or> in_range 0x41 0x46 c \<or> in_range 0x61 0x66 c"

definition hex_value :: "char \<Rightarrow> nat" where
  "hex_value c = (if is_digit c then byte c - 48 else if byte c < 0x47 then byte c - 55 else byte c - 87)"

definition alnum :: "char \<Rightarrow> bool" where
  "alnum c \<longleftrightarrow> is_digit c \<or> in_range 0x41 0x5A c \<or> in_range 0x61 0x7A c"

definition host_chr :: "char \<Rightarrow> bool" where
  "host_chr c \<longleftrightarrow> alnum c \<or> c \<in> set ''!$&()*+,;=:[]<>-_.~'' \<or> byte c = 0x22 \<or> byte c = 0x27 \<or> 128 \<le> byte c"

text \<open>An escape in the host may not stand for a letter, one in the zone of an address only for what is allowed there.\<close>

fun escapes_ok :: "url_part \<Rightarrow> string \<Rightarrow> bool" where
  "escapes_ok part [] = True"
| "escapes_ok part (c # cs) =
     (if c = CHR ''%'' then
        (case cs of
           a # b # rest \<Rightarrow>
             hex_chr a \<and> hex_chr b
             \<and> (part = In_host \<longrightarrow> 8 \<le> hex_value a \<or> (a = CHR ''2'' \<and> b = CHR ''5''))
             \<and> (part = In_zone \<longrightarrow> (let v = hex_value a * 16 + hex_value b in
                  (a = CHR ''2'' \<and> b = CHR ''5'') \<or> v = 0x20 \<or> host_chr (char_of v)))
             \<and> escapes_ok part rest
         | _ \<Rightarrow> False)
      else (part = In_host \<or> part = In_zone \<longrightarrow> host_chr c) \<and> escapes_ok part cs)"

section \<open>The authority\<close>

definition optional_port :: "string \<Rightarrow> bool" where
  "optional_port p \<longleftrightarrow> p = [] \<or> (hd p = CHR '':'' \<and> list_all is_digit (tl p))"

definition index_of :: "string \<Rightarrow> string \<Rightarrow> nat option" where
  "index_of needle s = find (\<lambda>i. has_prefix (drop i s) needle) [0..<length s]"

definition host_ok :: "string \<Rightarrow> bool" where
  "host_ok host =
     (if has_prefix host ''['' then
        (case cut_last (CHR '']'') host of
           None \<Rightarrow> False
         | Some (before, after) \<Rightarrow>
             optional_port after
             \<and> (case index_of ''%25'' before of
                  None \<Rightarrow> escapes_ok In_host host
                | Some z \<Rightarrow> escapes_ok In_host (take z host) \<and> escapes_ok In_zone (drop z before)
                    \<and> escapes_ok In_host (CHR '']'' # after)))
      else (case cut_last (CHR '':'') host of None \<Rightarrow> True | Some (_, port) \<Rightarrow> list_all is_digit port) \<and> escapes_ok In_host host)"

definition user_chr :: "char \<Rightarrow> bool" where
  "user_chr c \<longleftrightarrow> alnum c \<or> c \<in> set ''-._:~!$&()*+,;=%@'' \<or> byte c = 0x27"

definition authority_ok :: "string \<Rightarrow> bool" where
  "authority_ok a =
     (case cut_last (CHR ''@'') a of
        None \<Rightarrow> host_ok a
      | Some (user, host) \<Rightarrow> host_ok host \<and> list_all user_chr user
          \<and> (case cut_chr (CHR '':'') user of (name, pw, _) \<Rightarrow> escapes_ok In_user name \<and> escapes_ok In_user pw))"

section \<open>The whole address\<close>

definition scheme_chr :: "char \<Rightarrow> bool" where
  "scheme_chr c \<longleftrightarrow> alnum c \<or> c \<in> set ''+-.''"

text \<open>The scheme and the rest; \<open>None\<close> for a leading colon.\<close>

definition url_scheme :: "string \<Rightarrow> (string \<times> string) option" where
  "url_scheme s =
     (let pre = takeWhile scheme_chr s; rest = dropWhile scheme_chr s in
      if rest \<noteq> [] \<and> hd rest = CHR '':'' then
        (if pre = [] then None
         else if alnum (hd pre) \<and> \<not> is_digit (hd pre) then Some (map lower_chr pre, tl rest) else Some ([], s))
      else Some ([], s))"

definition control_free :: "string \<Rightarrow> bool" where
  "control_free s \<longleftrightarrow> list_all (\<lambda>c. 0x20 \<le> byte c \<and> byte c \<noteq> 0x7F) s"

definition url_parse_main :: "string \<Rightarrow> string option" where
  "url_parse_main s =
     (if \<not> control_free s then None
      else if s = ''*'' then Some []
      else case url_scheme s of
        None \<Rightarrow> None
      | Some (scheme, rest0) \<Rightarrow>
          (let rest = fst (cut_chr (CHR ''?'') rest0) in
           if \<not> has_prefix rest ''/'' then
             (if scheme \<noteq> [] then Some scheme
              else if CHR '':'' \<in> set (fst (cut_chr (CHR ''/'') rest)) then None
              else if escapes_ok In_path rest then Some [] else None)
           else
             (let (authority, path) =
                (if (scheme \<noteq> [] \<or> \<not> has_prefix rest ''///'') \<and> has_prefix rest ''//''
                 then (Some (takeWhile (\<lambda>c. c \<noteq> CHR ''/'') (drop 2 rest)), dropWhile (\<lambda>c. c \<noteq> CHR ''/'') (drop 2 rest))
                 else (None, rest)) in
              if (case authority of None \<Rightarrow> True | Some a \<Rightarrow> authority_ok a) \<and> escapes_ok In_path path
              then Some scheme else None)))"

definition url_parse :: "string \<Rightarrow> string option" where
  "url_parse s =
     (case cut_chr (CHR ''#'') s of (u, frag, _) \<Rightarrow>
        case url_parse_main u of
          None \<Rightarrow> None
        | Some scheme \<Rightarrow> if escapes_ok In_fragment frag then Some scheme else None)"

text \<open>The scheme of an accepted address is what it begins with, in lower case.\<close>

lemma url_parse_scheme:
  assumes "url_parse s = Some scheme" "scheme \<noteq> []"
  shows "\<exists>pre rest. s = pre @ CHR '':'' # rest \<and> map lower_chr pre = scheme"
proof -
  have head: "\<exists>rest. s = u @ rest" if "cut_chr c s = (u, f, b)" for c u f b
    using that by (induction s arbitrary: u) (auto split: if_splits prod.splits)
  obtain u frag b where u: "cut_chr (CHR ''#'') s = (u, frag, b)" by (metis prod_cases3)
  then have "url_parse_main u = Some scheme"
    using assms(1) by (simp add: url_parse_def split: option.splits if_splits)
  then obtain rest0 where "url_scheme u = Some (scheme, rest0)"
    using assms(2) by (auto simp: url_parse_main_def Let_def split: if_splits option.splits prod.splits)
  moreover define pre rest where "pre = takeWhile scheme_chr u" and "rest = dropWhile scheme_chr u"
  ultimately have "rest \<noteq> []" "hd rest = CHR '':''" "map lower_chr pre = scheme"
    using assms(2) by (simp_all add: url_scheme_def Let_def split: if_splits)
  moreover have "u = pre @ rest" by (simp add: pre_def rest_def)
  ultimately have "u = pre @ CHR '':'' # tl rest" by (metis list.collapse)
  then show ?thesis using head [OF u] \<open>map lower_chr pre = scheme\<close> by auto
qed

end
