(* ===== verification/Calendar.thy ===== *)
theory Calendar
  imports People GoUrl
begin

text \<open>
  The calendar of the portal (\<open>backend/internal/api/calendar.go\<close>, \<open>calendarsettings.go\<close>, \<open>portal.go\<close>) and its client of
  the calendar server (\<open>backend/internal/caldavclient/client.go\<close>).  The server, in a state of any type \<open>'w\<close>, and the library
  that reads and writes iCalendar components, of any type \<open>'c\<close>, are parameters.  Reading does not change the server.
\<close>

section \<open>Server and library\<close>

text \<open>A time with its distance from UTC, both in nanoseconds.\<close>

record ztime =
  zt_at :: time
  zt_off :: int

definition day_ns :: int where "day_ns = 24 * hour"

definition utc :: "ztime \<Rightarrow> ztime" where "utc t = t\<lparr>zt_off := 0\<rparr>"

definition local_day :: "ztime \<Rightarrow> int" where
  "local_day t = (zt_at t + zt_off t) div day_ns"

record login =
  lg_base :: string
  lg_user :: string
  lg_password :: string

text \<open>A calendar object is the two lines of its head and its components; a server may answer without any data.\<close>

record 'c cal_object =
  co_head :: "(string \<times> string) list"
  co_comps :: "'c list"

record 'c ical =
  il_event :: 'c
  il_name :: "'c \<Rightarrow> string"
  il_set_text :: "string \<Rightarrow> string \<Rightarrow> 'c \<Rightarrow> 'c"
  il_add_attendee :: "string \<Rightarrow> string \<Rightarrow> 'c \<Rightarrow> 'c"
  il_set_date :: "string \<Rightarrow> ztime \<Rightarrow> 'c \<Rightarrow> 'c"
  il_set_time :: "string \<Rightarrow> ztime \<Rightarrow> 'c \<Rightarrow> 'c"
  il_text :: "string \<Rightarrow> 'c \<Rightarrow> string"
  il_attendees :: "'c \<Rightarrow> string list"
  il_is_date :: "string \<Rightarrow> 'c \<Rightarrow> bool"
  il_time :: "string \<Rightarrow> 'c \<Rightarrow> ztime"

record ('w, 'c) caldav =
  cv_status :: "string \<Rightarrow> login \<Rightarrow> string \<Rightarrow> 'w \<Rightarrow> (string + nat) \<times> 'w"
  cv_query :: "login \<Rightarrow> string \<Rightarrow> ztime \<Rightarrow> ztime \<Rightarrow> 'w \<Rightarrow> string + 'c cal_object option list"
  cv_get :: "login \<Rightarrow> string \<Rightarrow> 'w \<Rightarrow> string + 'c cal_object option"
  cv_put :: "login \<Rightarrow> string \<Rightarrow> 'c cal_object \<Rightarrow> 'w \<Rightarrow> (string + unit) \<times> 'w"
  cv_remove :: "login \<Rightarrow> string \<Rightarrow> 'w \<Rightarrow> (string + unit) \<times> 'w"

section \<open>The client\<close>

record event =
  ev_uid :: string
  ev_title :: string
  ev_description :: string
  ev_start :: ztime
  ev_end :: ztime
  ev_all_day :: bool
  ev_created_by :: string
  ev_attendees :: "string list"
  ev_video :: string

definition prop_created_by :: string where "prop_created_by = ''X-ITBOX-CREATED-BY''"

definition is_not_found :: "string \<Rightarrow> bool" where "is_not_found e \<longleftrightarrow> has_prefix e ''404 ''"

definition calendar_exists :: "('w, 'c) caldav \<Rightarrow> login \<Rightarrow> string \<Rightarrow> 'w \<Rightarrow> (string + bool) \<times> 'w" where
  "calendar_exists S l path w =
     (case cv_status S ''PROPFIND'' l path w of
        (Inl e, w1) \<Rightarrow> (Inl (''propfind '' @ path @ '': '' @ e), w1)
      | (Inr st, w1) \<Rightarrow>
          (if st = 207 \<or> st = 200 then Inr True else if st = 404 then Inr False
           else Inl (''propfind '' @ path @ '': unexpected status '' @ nat_str st), w1))"

definition ensure_calendar_as_owner :: "('w, 'c) caldav \<Rightarrow> login \<Rightarrow> string \<Rightarrow> 'w \<Rightarrow> (string + unit) \<times> 'w" where
  "ensure_calendar_as_owner S l path w =
     (case cv_status S ''MKCALENDAR'' l path w of
        (Inl e, w1) \<Rightarrow> (Inl (''mkcalendar '' @ path @ '': '' @ e), w1)
      | (Inr st, w1) \<Rightarrow>
          (if st = 201 \<or> st = 409 then Inr () else Inl (''mkcalendar '' @ path @ '': unexpected status '' @ nat_str st), w1))"

definition event_of :: "'c ical \<Rightarrow> 'c \<Rightarrow> event" where
  "event_of L c =
     \<lparr>ev_uid = il_text L ''UID'' c, ev_title = il_text L ''SUMMARY'' c, ev_description = il_text L ''DESCRIPTION'' c,
      ev_start = il_time L ''DTSTART'' c, ev_end = il_time L ''DTEND'' c, ev_all_day = il_is_date L ''DTSTART'' c,
      ev_created_by = il_text L prop_created_by c,
      ev_attendees = filter (\<lambda>cn. cn \<noteq> []) (il_attendees L c), ev_video = il_text L ''URL'' c\<rparr>"

definition events_of :: "'c ical \<Rightarrow> 'c cal_object option list \<Rightarrow> event list" where
  "events_of L objs =
     filter (\<lambda>e. ev_uid e \<noteq> []) (concat (map (\<lambda>obj. case obj of None \<Rightarrow> []
       | Some cal \<Rightarrow> map (event_of L) (filter (\<lambda>c. il_name L c = ''VEVENT'') (co_comps cal))) objs))"

definition list_events ::
  "('w, 'c) caldav \<Rightarrow> 'c ical \<Rightarrow> login \<Rightarrow> string \<Rightarrow> ztime \<Rightarrow> ztime \<Rightarrow> 'w \<Rightarrow> string + event list" where
  "list_events S L l path start end' w =
     (case cv_query S l path start end' w of
        Inl e \<Rightarrow> (if is_not_found e then Inr [] else Inl (''query calendar '' @ path @ '': '' @ e))
      | Inr objs \<Rightarrow> Inr (events_of L objs))"

text \<open>Identifier and creator of the first event of an object.\<close>

definition get_event :: "('w, 'c) caldav \<Rightarrow> 'c ical \<Rightarrow> login \<Rightarrow> string \<Rightarrow> string \<Rightarrow> 'w \<Rightarrow> string + (string \<times> string) option" where
  "get_event S L l path uid w =
     (case cv_get S l (path @ uid @ ''.ics'') w of
        Inl e \<Rightarrow> (if is_not_found e then Inr None else Inl (''get event '' @ uid @ '': '' @ e))
      | Inr None \<Rightarrow> Inr None
      | Inr (Some cal) \<Rightarrow>
          Inr (map_option (\<lambda>c. (il_text L ''UID'' c, il_text L prop_created_by c))
            (find (\<lambda>c. il_name L c = ''VEVENT'') (co_comps cal))))"

definition set_nonempty :: "'c ical \<Rightarrow> string \<Rightarrow> string \<Rightarrow> 'c \<Rightarrow> 'c" where
  "set_nonempty L name v c = (if v = [] then c else il_set_text L name v c)"

definition after :: "ztime \<Rightarrow> ztime \<Rightarrow> bool" where
  "after a b \<longleftrightarrow> zt_at b < zt_at a"

text \<open>The end of an event of whole days is the first day it no longer covers.\<close>

definition exclusive_end :: "event \<Rightarrow> ztime" where
  "exclusive_end ev = (if after (ev_end ev) (ev_start ev) then ev_end ev
     else (ev_start ev)\<lparr>zt_at := zt_at (ev_start ev) + day_ns\<rparr>)"

definition component_of :: "'c ical \<Rightarrow> ztime \<Rightarrow> event \<Rightarrow> 'c" where
  "component_of L now ev =
     (let c1 = il_set_text L ''UID'' (ev_uid ev) (il_event L);
          c2 = il_set_time L ''DTSTAMP'' (utc now) c1;
          c3 = il_set_text L ''SUMMARY'' (ev_title ev) c2;
          c4 = set_nonempty L ''DESCRIPTION'' (ev_description ev) c3;
          c5 = set_nonempty L prop_created_by (ev_created_by ev) c4;
          c6 = set_nonempty L ''URL'' (ev_video ev) c5;
          c7 = fold (\<lambda>u. il_add_attendee L u (''mailto:'' @ u @ ''@attendee.invalid'')) (ev_attendees ev) c6 in
      if ev_all_day ev then il_set_date L ''DTEND'' (exclusive_end ev) (il_set_date L ''DTSTART'' (ev_start ev) c7)
      else il_set_time L ''DTEND'' (utc (ev_end ev)) (il_set_time L ''DTSTART'' (utc (ev_start ev)) c7))"

definition object_of :: "'c ical \<Rightarrow> ztime \<Rightarrow> event \<Rightarrow> 'c cal_object" where
  "object_of L now ev =
     \<lparr>co_head = [(''VERSION'', ''2.0''), (''PRODID'', ''-//itbox//calendar//EN'')], co_comps = [component_of L now ev]\<rparr>"

definition put_event :: "('w, 'c) caldav \<Rightarrow> 'c ical \<Rightarrow> login \<Rightarrow> ztime \<Rightarrow> string \<Rightarrow> event \<Rightarrow> 'w \<Rightarrow> (string + unit) \<times> 'w" where
  "put_event S L l now path ev w =
     wrapped (''put event '' @ path @ ev_uid ev @ ''.ics'') (cv_put S l (path @ ev_uid ev @ ''.ics'') (object_of L now ev) w)"

definition delete_event :: "('w, 'c) caldav \<Rightarrow> login \<Rightarrow> string \<Rightarrow> string \<Rightarrow> 'w \<Rightarrow> (string + unit) \<times> 'w" where
  "delete_event S l path uid w = wrapped (''delete event '' @ uid) (cv_remove S l (path @ uid @ ''.ics'') w)"

section \<open>State of the handlers\<close>

record cal_view =
  vw_start :: string
  vw_end :: string
  vw_slot :: int
  vw_default :: string

record ('d, 'n, 'w) calendars =
  ca_co :: "('d, 'n) company"
  ca_view :: "cal_view option"
  ca_colors :: "(string \<times> string) list"
  ca_world :: 'w

record ('d, 'n, 'w, 'c) calendar_env =
  ne_co :: "('d, 'n) company_env"
  ne_server :: "('w, 'c) caldav"
  ne_ical :: "'c ical"
  ne_now :: ztime
  ne_uuid :: string
  ne_sha :: "string \<Rightarrow> string"
  ne_parse :: "string \<Rightarrow> ztime option"

definition on_world_of ::
  "('w \<Rightarrow> ('e + 'a) \<times> 'w) \<Rightarrow> ('d, 'n, 'w) calendars \<Rightarrow> ('e + 'a) \<times> ('d, 'n, 'w) calendars" where
  "on_world_of g s = (case g (ca_world s) of (r, w) \<Rightarrow> (r, s\<lparr>ca_world := w\<rparr>))"

definition on_company ::
  "(('d, 'n) company \<Rightarrow> ('e + 'a) \<times> ('d, 'n) company) \<Rightarrow> ('d, 'n, 'w) calendars \<Rightarrow> ('e + 'a) \<times> ('d, 'n, 'w) calendars" where
  "on_company g s = (case g (ca_co s) of (r, c) \<Rightarrow> (r, s\<lparr>ca_co := c\<rparr>))"

definition as_employee ::
  "('d, 'n, 'w, 'c) calendar_env \<Rightarrow> string \<Rightarrow> (string \<Rightarrow> ('d, 'n, 'w) calendars \<Rightarrow> 'a result \<times> ('d, 'n, 'w) calendars)
     \<Rightarrow> ('d, 'n, 'w) calendars \<Rightarrow> 'a result \<times> ('d, 'n, 'w) calendars" where
  "as_employee env tok k s =
     (case require_employee_auth (cx_faults (ne_co env)) (cx_now (ne_co env)) (co_emp (ca_co s)) tok of
        Inl e \<Rightarrow> (Inl e, s) | Inr u \<Rightarrow> k u s)"

definition calendar_admin ::
  "('d, 'n, 'w, 'c) calendar_env \<Rightarrow> string \<Rightarrow> (('d, 'n, 'w) calendars \<Rightarrow> 'a result \<times> ('d, 'n, 'w) calendars)
     \<Rightarrow> ('d, 'n, 'w) calendars \<Rightarrow> 'a result \<times> ('d, 'n, 'w) calendars" where
  "calendar_admin env tok k s =
     (case require_auth (cx_faults (ne_co env)) (cx_now (ne_co env)) (co_admin (ca_co s)) tok of
        Inl e \<Rightarrow> (Inl e, s) | Inr _ \<Rightarrow> k s)"

text \<open>Every request to the server is made under the account of the platform.\<close>

definition calendar_access :: "('d, 'n, 'w, 'c) calendar_env \<Rightarrow> ('d, 'n, 'w) calendars \<Rightarrow> string + login option" where
  "calendar_access env s =
     (case running_config (cx_faults (ne_co env)) (co_db (ca_co s)) ''calendar-radicale'' of
        Inl e \<Rightarrow> Inl e
      | Inr None \<Rightarrow> Inr None
      | Inr (Some cfg) \<Rightarrow> (let pw = config_value cfg ''service_password'' in
          Inr (if pw = [] then None else Some \<lparr>lg_base = ''http://'' @ upstream_of ''calendar-radicale'' ''radicale'' 5232,
            lg_user = service_account, lg_password = pw\<rparr>)))"

text \<open>After a start of the module: as often as the two minutes allow it looks whether the module runs.\<close>

definition bootstrap_calendar ::
  "('d, 'n, 'w, 'c) calendar_env \<Rightarrow> config option list \<Rightarrow> ('d, 'n, 'w) calendars \<Rightarrow> (string + unit) \<times> ('d, 'n, 'w) calendars" where
  "bootstrap_calendar env looks s =
     (case List.map_filter (\<lambda>x. x) looks of
        [] \<Rightarrow> (Inl ''module never reached running'', s)
      | cfg # _ \<Rightarrow> on_company (on_vols (cal_bootstrap (cx_cal (ne_co env)) cal_volume cal_container
          (config_value cfg ''service_password''))) s)"

definition ensure_personal_calendar ::
  "('d, 'n, 'w, 'c) calendar_env \<Rightarrow> string \<Rightarrow> string \<Rightarrow> ('d, 'n, 'w) calendars \<Rightarrow> ('d, 'n, 'w) calendars" where
  "ensure_personal_calendar env username password s =
     (case calendar_access env s of
        Inr (Some l) \<Rightarrow>
          (case on_world_of (calendar_exists (ne_server env) l (personal_calendar_path username)) s of
             (Inr False, s1) \<Rightarrow> snd (on_company (sync_calendar_login (ne_co env) username password) s1)
           | (_, s1) \<Rightarrow> s1)
      | _ \<Rightarrow> s)"

section \<open>Checks\<close>

definition valid_video_call_url :: "string \<Rightarrow> bool" where
  "valid_video_call_url raw \<longleftrightarrow> raw = [] \<or> url_parse raw = Some ''http'' \<or> url_parse raw = Some ''https''"

definition attendee_chr :: "char \<Rightarrow> bool" where
  "attendee_chr c \<longleftrightarrow> alnum c \<or> c \<in> set ''._-''"

definition attendee_name :: "string \<Rightarrow> bool" where
  "attendee_name a \<longleftrightarrow> list_all attendee_chr a \<and> 1 \<le> length a \<and> length a \<le> 64"

fun one_line :: "string \<Rightarrow> string" where
  "one_line [] = []"
| "one_line (c # cs) =
     (if c = CHR 0x0D then CHR '' '' # (case cs of d # ds \<Rightarrow> if d = newline then one_line ds else one_line cs | [] \<Rightarrow> [])
      else (if c = newline then CHR '' '' else c) # one_line cs)"

record event_body =
  bd_calendar :: string
  bd_title :: string
  bd_description :: string
  bd_start :: ztime
  bd_end :: ztime
  bd_all_day :: bool
  bd_attendees :: "string list"
  bd_video :: string

definition clean_event_body :: "event_body \<Rightarrow> event_body result" where
  "clean_event_body b =
     (let t = trim_space (one_line (bd_title b)) in
      if t = [] then Inl (HTTP 400 ''title is required'')
      else if \<not> valid_video_call_url (bd_video b) then Inl (HTTP 400 ''video call link must be a plain http(s) URL'')
      else if \<not> bd_all_day b \<and> \<not> after (bd_end b) (bd_start b) then Inl (HTTP 400 ''the event has to end after it starts'')
      else if \<not> list_all attendee_name (bd_attendees b) then Inl (HTTP 400 ''attendees must be company usernames'')
      else Inr (b\<lparr>bd_title := t\<rparr>))"

definition calendar_path_for :: "string \<Rightarrow> string \<Rightarrow> string option" where
  "calendar_path_for kind username =
     (if kind = ''company'' then Some company_calendar_path
      else if kind = ''personal'' then Some (personal_calendar_path username)
      else None)"

definition require_event_editor ::
  "('d, 'n, 'w, 'c) calendar_env \<Rightarrow> login \<Rightarrow> string \<Rightarrow> string \<Rightarrow> string \<Rightarrow> string \<Rightarrow> ('d, 'n, 'w) calendars \<Rightarrow> unit result" where
  "require_event_editor env l kind path uid username s =
     (case get_event (ne_server env) (ne_ical env) l path uid (ca_world s) of
        Inl _ \<Rightarrow> Inl (internal_error ''look up event'')
      | Inr None \<Rightarrow> Inl (HTTP 404 ''no such event'')
      | Inr (Some (_, by)) \<Rightarrow>
          (if kind = ''company'' \<and> by \<noteq> [] \<and> by \<noteq> username
           then Inl (HTTP 403 ''only the person who created this event can change or delete it'') else Inr ()))"

section \<open>Handlers of the portal\<close>

definition list_directory_users ::
  "('d, 'n, 'w, 'c) calendar_env \<Rightarrow> string \<Rightarrow> ('d, 'n, 'w) calendars \<Rightarrow> (string \<times> string) list result \<times> ('d, 'n, 'w) calendars" where
  "list_directory_users env tok = as_employee env tok (\<lambda>_ s.
     case directory_client (ne_co env) (ca_co s) of
       Inr (Some c) \<Rightarrow> or_500 ''list directory users''
         (and_then (on_company (on_dir (list_people (cx_ldap (ne_co env)) c)) s) (\<lambda>us s.
            (Inr (map (\<lambda>u. (du_name u, du_full u)) us), s)))
     | _ \<Rightarrow> (Inr [], s))"

text \<open>The calendar and the login every handler of events begins with, then the path of the chosen calendar.\<close>

definition with_calendar ::
  "('d, 'n, 'w, 'c) calendar_env \<Rightarrow> string \<Rightarrow> string
     \<Rightarrow> (login \<Rightarrow> string \<Rightarrow> string \<Rightarrow> ('d, 'n, 'w) calendars \<Rightarrow> 'a result \<times> ('d, 'n, 'w) calendars)
     \<Rightarrow> ('d, 'n, 'w) calendars \<Rightarrow> 'a result \<times> ('d, 'n, 'w) calendars" where
  "with_calendar env tok kind k = as_employee env tok (\<lambda>u s.
     case calendar_access env s of
       Inl _ \<Rightarrow> (Inl (internal_error ''check calendar module''), s)
     | Inr None \<Rightarrow> (Inl (HTTP 400 ''the Calendar module isn't available''), s)
     | Inr (Some l) \<Rightarrow>
         (case calendar_path_for kind u of
            None \<Rightarrow> (Inl (HTTP 400 (''calendar must be '' @ quoted ''company'' @ '' or '' @ quoted ''personal'')), s)
          | Some path \<Rightarrow> k l u path s))"

definition shown_video :: "event \<Rightarrow> event" where
  "shown_video e = (if valid_video_call_url (ev_video e) then e else e\<lparr>ev_video := []\<rparr>)"

definition list_calendar_events ::
  "('d, 'n, 'w, 'c) calendar_env \<Rightarrow> string \<Rightarrow> string \<Rightarrow> string \<Rightarrow> ('d, 'n, 'w) calendars
     \<Rightarrow> (bool \<times> (string \<times> event) list) result \<times> ('d, 'n, 'w) calendars" where
  "list_calendar_events env tok from to = as_employee env tok (\<lambda>u s.
     case calendar_access env s of
       Inl _ \<Rightarrow> (Inl (internal_error ''check calendar module''), s)
     | Inr None \<Rightarrow> (Inr (False, []), s)
     | Inr (Some l) \<Rightarrow>
         (case ne_parse env from of
            None \<Rightarrow> (Inl (HTTP 400 ''invalid start''), s)
          | Some a \<Rightarrow>
         (case ne_parse env to of
            None \<Rightarrow> (Inl (HTTP 400 ''invalid end''), s)
          | Some b \<Rightarrow>
         (case list_events (ne_server env) (ne_ical env) l company_calendar_path a b (ca_world s) of
            Inl _ \<Rightarrow> (Inl (internal_error ''list company calendar events''), s)
          | Inr company \<Rightarrow>
         (case list_events (ne_server env) (ne_ical env) l (personal_calendar_path u) a b (ca_world s) of
            Inl _ \<Rightarrow> (Inl (internal_error ''list personal calendar events''), s)
          | Inr personal \<Rightarrow>
              (Inr (True, map (\<lambda>e. (''company'', shown_video e)) company @ map (\<lambda>e. (''personal'', shown_video e)) personal), s))))))"

definition event_from :: "event_body \<Rightarrow> string \<Rightarrow> string \<Rightarrow> event" where
  "event_from b uid by =
     \<lparr>ev_uid = uid, ev_title = bd_title b, ev_description = bd_description b, ev_start = bd_start b, ev_end = bd_end b,
      ev_all_day = bd_all_day b, ev_created_by = by, ev_attendees = bd_attendees b, ev_video = bd_video b\<rparr>"

definition put_clean ::
  "('d, 'n, 'w, 'c) calendar_env \<Rightarrow> string \<Rightarrow> login \<Rightarrow> string \<Rightarrow> event \<Rightarrow> ('d, 'n, 'w) calendars \<Rightarrow> unit result \<times> ('d, 'n, 'w) calendars" where
  "put_clean env msg l path ev s =
     or_500 msg (on_world_of (put_event (ne_server env) (ne_ical env) l (ne_now env) path ev) s)"

definition create_calendar_event ::
  "('d, 'n, 'w, 'c) calendar_env \<Rightarrow> string \<Rightarrow> event_body \<Rightarrow> ('d, 'n, 'w) calendars \<Rightarrow> string result \<times> ('d, 'n, 'w) calendars" where
  "create_calendar_event env tok body = with_calendar env tok (bd_calendar body) (\<lambda>l u path s.
     case clean_event_body body of
       Inl e \<Rightarrow> (Inl e, s)
     | Inr b \<Rightarrow> and_then (put_clean env ''create event'' l path (event_from b (ne_uuid env) u) s) (\<lambda>_ s. (Inr (ne_uuid env), s)))"

text \<open>Writing replaces the whole object: the creator is read back, and is whoever writes when none is recorded.\<close>

definition creator_of ::
  "('d, 'n, 'w, 'c) calendar_env \<Rightarrow> login \<Rightarrow> string \<Rightarrow> string \<Rightarrow> string \<Rightarrow> ('d, 'n, 'w) calendars \<Rightarrow> string" where
  "creator_of env l path uid username s =
     (case get_event (ne_server env) (ne_ical env) l path uid (ca_world s) of
        Inr (Some (_, by)) \<Rightarrow> if by \<noteq> [] then by else username
      | _ \<Rightarrow> username)"

definition update_calendar_event ::
  "('d, 'n, 'w, 'c) calendar_env \<Rightarrow> string \<Rightarrow> string \<Rightarrow> string \<Rightarrow> event_body \<Rightarrow> ('d, 'n, 'w) calendars
     \<Rightarrow> unit result \<times> ('d, 'n, 'w) calendars" where
  "update_calendar_event env tok kind uid body = with_calendar env tok kind (\<lambda>l u path s.
     case clean_event_body body of
       Inl e \<Rightarrow> (Inl e, s)
     | Inr b \<Rightarrow> and_then (require_event_editor env l kind path uid u s, s) (\<lambda>_ s.
         put_clean env ''update event'' l path (event_from b uid (creator_of env l path uid u s)) s))"

definition delete_calendar_event ::
  "('d, 'n, 'w, 'c) calendar_env \<Rightarrow> string \<Rightarrow> string \<Rightarrow> string \<Rightarrow> ('d, 'n, 'w) calendars
     \<Rightarrow> unit result \<times> ('d, 'n, 'w) calendars" where
  "delete_calendar_event env tok kind uid = with_calendar env tok kind (\<lambda>l u path s.
     and_then (require_event_editor env l kind path uid u s, s) (\<lambda>_ s.
       or_500 ''delete event'' (on_world_of (delete_event (ne_server env) l path uid) s)))"

section \<open>Settings\<close>

definition color_palette :: "string list" where
  "color_palette = [''#2563eb'', ''#dc2626'', ''#16a34a'', ''#9333ea'', ''#ea580c'',
     ''#0891b2'', ''#c026d3'', ''#65a30d'', ''#e11d48'', ''#4f46e5'']"

text \<open>A colour per name by the first byte of its SHA-256.\<close>

definition default_color_for :: "(string \<Rightarrow> string) \<Rightarrow> string \<Rightarrow> string" where
  "default_color_for sha username = color_palette ! (byte (hd (sha username)) mod length color_palette)"

definition default_view :: cal_view where
  "default_view = \<lparr>vw_start = ''07:00'', vw_end = ''20:00'', vw_slot = 30, vw_default = ''month''\<rparr>"

definition load_calendar_settings ::
  "('d, 'n, 'w, 'c) calendar_env \<Rightarrow> ('d, 'n, 'w) calendars \<Rightarrow> (cal_view \<times> (string \<times> string) list) \<times> ('d, 'n, 'w) calendars" where
  "load_calendar_settings env s =
     (let f = cx_faults (ne_co env);
          view = (if f ''read calendar settings'' then default_view else case ca_view s of None \<Rightarrow> default_view | Some v \<Rightarrow> v);
          (people, s1) = (case directory_client (ne_co env) (ca_co s) of
              Inr (Some c) \<Rightarrow>
                (case on_company (on_dir (list_people (cx_ldap (ne_co env)) c)) s of
                   (Inr us, s1) \<Rightarrow> (map du_name us, s1) | (Inl _, s1) \<Rightarrow> ([], s1))
            | _ \<Rightarrow> ([], s));
          defaults = fold (\<lambda>u. AList.update u (default_color_for (ne_sha env) u)) people [] in
      ((view, fold (\<lambda>(u, col). AList.update u col) (if f ''read member colors'' then [] else ca_colors s1) defaults), s1))"

definition get_calendar_settings where
  "get_calendar_settings env tok = calendar_admin env tok (\<lambda>s. case load_calendar_settings env s of (d, s1) \<Rightarrow> (Inr d, s1))"

definition get_portal_calendar_settings where
  "get_portal_calendar_settings env tok = as_employee env tok (\<lambda>_ s. case load_calendar_settings env s of (d, s1) \<Rightarrow> (Inr d, s1))"

definition update_calendar_settings ::
  "('d, 'n, 'w, 'c) calendar_env \<Rightarrow> string \<Rightarrow> cal_view \<Rightarrow> ('d, 'n, 'w) calendars \<Rightarrow> unit result \<times> ('d, 'n, 'w) calendars" where
  "update_calendar_settings env tok v = calendar_admin env tok (\<lambda>s.
     if vw_start v = [] \<or> vw_end v = [] then (Inl (HTTP 400 ''start_time and end_time are required''), s)
     else if vw_slot v \<notin> set [15, 30, 45, 60] then (Inl (HTTP 400 ''slot_duration_minutes must be 15, 30, 45, or 60''), s)
     else if vw_default v \<notin> set [''month'', ''week'', ''day'']
     then (Inl (HTTP 400 (''default_view must be '' @ quoted ''month'' @ '', '' @ quoted ''week'' @ '', or '' @ quoted ''day'')), s)
     else if cx_faults (ne_co env) ''save calendar settings'' \<or> \<not> pg_text (vw_start v) \<or> \<not> pg_text (vw_end v)
     then (Inl (internal_error ''save calendar settings''), s)
     else (Inr (), s\<lparr>ca_view := Some v\<rparr>))"

definition set_calendar_member_color ::
  "('d, 'n, 'w, 'c) calendar_env \<Rightarrow> string \<Rightarrow> string \<Rightarrow> string \<Rightarrow> ('d, 'n, 'w) calendars \<Rightarrow> unit result \<times> ('d, 'n, 'w) calendars" where
  "set_calendar_member_color env tok username color = calendar_admin env tok (\<lambda>s.
     if color = [] then (Inl (HTTP 400 ''color is required''), s)
     else if cx_faults (ne_co env) ''save member color'' \<or> \<not> pg_text username \<or> \<not> pg_text color
     then (Inl (internal_error ''save member color''), s)
     else (Inr (), s\<lparr>ca_colors := AList.update username color (ca_colors s)\<rparr>))"

section \<open>What the portal offers\<close>

record portal_modules =
  pl_modules :: "(string \<times> bool) list"
  pl_video :: string
  pl_calendar :: bool
  pl_caldav :: string
  pl_share :: string

definition module_runs :: "faults \<Rightarrow> core_db \<Rightarrow> string \<Rightarrow> bool" where
  "module_runs f db mid \<longleftrightarrow> (case running_config f db mid of Inr (Some _) \<Rightarrow> True | _ \<Rightarrow> False)"

definition portal_modules_of ::
  "('d, 'n, 'w, 'c) calendar_env \<Rightarrow> manager \<Rightarrow> string \<Rightarrow> ('d, 'n, 'w) calendars \<Rightarrow> portal_modules result \<times> ('d, 'n, 'w) calendars" where
  "portal_modules_of env m tok = as_employee env tok (\<lambda>_ s.
     let runs = module_runs (cx_faults (ne_co env)) (co_db (ca_co s)); host = (\<lambda>mid. host_name (mg_domain m) mid []) in
     (Inr \<lparr>pl_modules = map (\<lambda>mf. (mf_id mf, runs (mf_id mf))) (filter (\<lambda>mf. mf_paths mf \<noteq> []) (mg_catalog m)),
        pl_video = (if runs ''video-jitsi'' then ''https://'' @ host ''video-jitsi'' else []),
        pl_calendar = runs ''calendar-radicale'',
        pl_caldav = (if runs ''calendar-radicale'' then ''http://'' @ host ''calendar-radicale'' else []),
        pl_share = (if runs ''fileshare-webdav'' then host ''fileshare-webdav'' else [])\<rparr>, s))"

end
