(* ===== verification/CalendarProps.thy ===== *)
theory CalendarProps
  imports Calendar PeopleProps
begin

text \<open>
  What the calendar of the portal promises: settings that are always well formed, events of the company that only their
  creator changes, and events that read back as they were typed.  The server and the iCalendar library enter by laws, which
  hold of a small server at the end.
\<close>

section \<open>Every request\<close>

datatype cal_request =
    List_users string
  | List_events string string string
  | Create_event string event_body
  | Update_event string string string event_body
  | Delete_event string string string
  | Show_settings string
  | Show_portal_settings string
  | Save_view string cal_view
  | Save_color string string string
  | Login_seen string string

fun cal_step :: "('d, 'n, 'w, 'c) calendar_env \<Rightarrow> cal_request \<Rightarrow> ('d, 'n, 'w) calendars \<Rightarrow> ('d, 'n, 'w) calendars" where
  "cal_step env (List_users tok) s = snd (list_directory_users env tok s)"
| "cal_step env (List_events tok a b) s = snd (list_calendar_events env tok a b s)"
| "cal_step env (Create_event tok b) s = snd (create_calendar_event env tok b s)"
| "cal_step env (Update_event tok kind uid b) s = snd (update_calendar_event env tok kind uid b s)"
| "cal_step env (Delete_event tok kind uid) s = snd (delete_calendar_event env tok kind uid s)"
| "cal_step env (Show_settings tok) s = snd (get_calendar_settings env tok s)"
| "cal_step env (Show_portal_settings tok) s = snd (get_portal_calendar_settings env tok s)"
| "cal_step env (Save_view tok v) s = snd (update_calendar_settings env tok v s)"
| "cal_step env (Save_color tok u col) s = snd (set_calendar_member_color env tok u col s)"
| "cal_step env (Login_seen u pw) s = ensure_personal_calendar env u pw s"

lemma snd_on_world_of: "snd (on_world_of g s) = s\<lparr>ca_world := snd (g (ca_world s))\<rparr>"
  by (simp add: on_world_of_def split: prod.splits)

lemma snd_on_company: "snd (on_company g s) = s\<lparr>ca_co := snd (g (ca_co s))\<rparr>"
  by (simp add: on_company_def split: prod.splits)

lemma on_world_of_pair: "on_world_of g s = (fst (g (ca_world s)), s\<lparr>ca_world := snd (g (ca_world s))\<rparr>)"
  by (simp add: on_world_of_def split: prod.splits)

lemma on_company_pair: "on_company g s = (fst (g (ca_co s)), s\<lparr>ca_co := snd (g (ca_co s))\<rparr>)"
  by (simp add: on_company_def split: prod.splits)

section \<open>Settings\<close>

definition view_ok :: "cal_view \<Rightarrow> bool" where
  "view_ok v \<longleftrightarrow> vw_start v \<noteq> [] \<and> vw_end v \<noteq> [] \<and> vw_slot v \<in> {15, 30, 45, 60} \<and> vw_default v \<in> {''month'', ''week'', ''day''}"

definition colored :: "(string \<times> string) list \<Rightarrow> bool" where
  "colored cs \<longleftrightarrow> list_all (\<lambda>p. snd p \<noteq> []) cs"

definition settings_ok :: "('d, 'n, 'w) calendars \<Rightarrow> bool" where
  "settings_ok s \<longleftrightarrow> (case ca_view s of None \<Rightarrow> True | Some v \<Rightarrow> view_ok v) \<and> colored (ca_colors s)"

definition same_settings :: "('d, 'n, 'w) calendars \<Rightarrow> ('d, 'n, 'w) calendars \<Rightarrow> bool" where
  "same_settings s t \<longleftrightarrow> ca_view t = ca_view s \<and> ca_colors t = ca_colors s"

lemma same_ok: "same_settings s t \<Longrightarrow> settings_ok s \<Longrightarrow> settings_ok t"
  by (simp add: same_settings_def settings_ok_def)

lemma same_refl [simp]: "same_settings s s" "same_settings s (s\<lparr>ca_world := w\<rparr>)" "same_settings s (s\<lparr>ca_co := c\<rparr>)"
  "same_settings s (s\<lparr>ca_world := w, ca_co := c\<rparr>)"
  by (simp_all add: same_settings_def)

abbreviation token_user :: "('d, 'n, 'w, 'c) calendar_env \<Rightarrow> string \<Rightarrow> ('d, 'n, 'w) calendars \<Rightarrow> string result" where
  "token_user env tok s \<equiv> require_employee_auth (cx_faults (ne_co env)) (cx_now (ne_co env)) (co_emp (ca_co s)) tok"

lemma as_employee_keeps:
  "P s \<Longrightarrow> (\<And>u. token_user env tok s = Inr u \<Longrightarrow> P (snd (k u s))) \<Longrightarrow> P (snd (as_employee env tok k s))"
  by (simp add: as_employee_def split: sum.splits)

lemma calendar_admin_keeps: "P s \<Longrightarrow> P (snd (k s)) \<Longrightarrow> P (snd (calendar_admin env tok k s))"
  by (simp add: calendar_admin_def split: sum.splits)

lemma with_calendar_keeps:
  "P s \<Longrightarrow> (\<And>l u path. token_user env tok s = Inr u \<Longrightarrow> calendar_path_for kind u = Some path \<Longrightarrow> P (snd (k l u path s)))
     \<Longrightarrow> P (snd (with_calendar env tok kind k s))"
  unfolding with_calendar_def by (rule as_employee_keeps) (simp_all split: sum.splits option.splits)

lemma and_then_keeps: "P s \<Longrightarrow> P (snd (k s)) \<Longrightarrow> P (snd (and_then (r, s) (\<lambda>_ s. k s)))"
  by (cases r) simp_all

lemma snd_put_clean: "snd (put_clean env msg l path ev s)
    = s\<lparr>ca_world := snd (put_event (ne_server env) (ne_ical env) l (ne_now env) path ev (ca_world s))\<rparr>"
  by (simp add: put_clean_def snd_on_world_of)

lemma snd_then_done: "snd (and_then r (\<lambda>_ s. (x, s))) = snd r"
  by (cases r; cases "fst r") auto

lemma snd_load: "snd (load_calendar_settings env s) = s \<or> (\<exists>c. snd (load_calendar_settings env s) = s\<lparr>ca_co := c\<rparr>)"
  by (auto simp: load_calendar_settings_def Let_def on_company_pair split: sum.splits option.splits prod.splits)


lemma snd_prod_case: "snd (case r of (d, s1) \<Rightarrow> (f d, s1)) = snd r"
  by (simp add: case_prod_unfold)

lemma load_same: "same_settings s (snd (load_calendar_settings env s))"
  using snd_load [of env s] by auto

lemma list_users_same: "same_settings s (snd (list_directory_users env tok s))"
  by (auto simp: list_directory_users_def as_employee_def snd_then_done on_company_pair or_500_def and_then_def same_settings_def
      split: sum.splits option.splits prod.splits)

lemma list_events_same: "snd (list_calendar_events env tok a b s) = s"
  by (simp add: list_calendar_events_def as_employee_def split: sum.splits option.splits)

lemma login_seen_same: "same_settings s (ensure_personal_calendar env u pw s)"
  by (auto simp: ensure_personal_calendar_def on_world_of_pair snd_on_company same_settings_def
      split: sum.splits option.splits bool.splits)

lemma events_same:
  "same_settings s (snd (create_calendar_event env tok b s))"
  "same_settings s (snd (update_calendar_event env tok kind uid b s))"
  "same_settings s (snd (delete_calendar_event env tok kind uid s))"
proof -
  have body: "same_settings s (snd (put_clean env msg l path ev s))" for msg l path ev by (simp add: snd_put_clean)
  show "same_settings s (snd (create_calendar_event env tok b s))"
    unfolding create_calendar_event_def
    by (rule with_calendar_keeps) (simp_all add: snd_then_done body split: sum.splits)
  show "same_settings s (snd (update_calendar_event env tok kind uid b s))"
    unfolding update_calendar_event_def
    by (rule with_calendar_keeps) (auto simp: body intro: and_then_keeps split: sum.splits)
  show "same_settings s (snd (delete_calendar_event env tok kind uid s))"
    unfolding delete_calendar_event_def
    by (rule with_calendar_keeps) (auto simp: snd_on_world_of intro: and_then_keeps)
qed

lemma colored_update: "colored m \<Longrightarrow> v \<noteq> [] \<Longrightarrow> colored (AList.update k v m)"
  unfolding colored_def by (induction m) auto

lemma colored_fold: "colored m \<Longrightarrow> list_all (\<lambda>x. g x \<noteq> []) xs \<Longrightarrow> colored (fold (\<lambda>x. AList.update (h x) (g x)) xs m)"
  by (induction xs arbitrary: m) (simp_all add: colored_update)

lemma settings_step: "settings_ok s \<Longrightarrow> settings_ok (cal_step env r s)"
proof (cases r)
  case (Save_view tok v)
  assume "settings_ok s"
  then show ?thesis using Save_view
    by (auto simp: update_calendar_settings_def calendar_admin_def settings_ok_def view_ok_def split: sum.splits)
next
  case (Save_color tok u col)
  assume "settings_ok s"
  then show ?thesis using Save_color
    by (simp add: set_calendar_member_color_def calendar_admin_def settings_ok_def colored_update split: sum.splits)
next
  case (Show_settings tok)
  assume "settings_ok s"
  then show ?thesis using Show_settings load_same [of s env] same_ok
    by (auto simp: get_calendar_settings_def calendar_admin_def snd_prod_case split: sum.splits)
next
  case (Show_portal_settings tok)
  assume "settings_ok s"
  then show ?thesis using Show_portal_settings load_same [of s env] same_ok
    by (auto simp: get_portal_calendar_settings_def as_employee_def snd_prod_case split: sum.splits)
qed (auto simp: list_events_same intro: same_ok [OF list_users_same] same_ok [OF login_seen_same] same_ok [OF events_same(1)]
    same_ok [OF events_same(2)] same_ok [OF events_same(3)])

lemma settings_run: "settings_ok s \<Longrightarrow> settings_ok (fold (\<lambda>(env, r). cal_step env r) reqs s)"
  by (induction reqs arbitrary: s) (auto simp: settings_step)

lemma loaded_view: "settings_ok s \<Longrightarrow> view_ok (fst (fst (load_calendar_settings env s)))"
  by (auto simp: load_calendar_settings_def Let_def settings_ok_def view_ok_def default_view_def
      split: option.splits prod.splits)

lemma palette_nonempty: "default_color_for sha u \<noteq> []"
proof -
  have "color_palette ! i \<noteq> []" if "i < length color_palette" for i
    using that by (auto simp: color_palette_def less_Suc_eq nth_Cons')
  moreover have "byte (hd (sha u)) mod length color_palette < length color_palette"
    by (rule mod_less_divisor) (simp add: color_palette_def)
  ultimately show ?thesis by (simp add: default_color_for_def)
qed

lemma loaded_colors: "settings_ok s \<Longrightarrow> colored (snd (fst (load_calendar_settings env s)))"
proof -
  assume ok: "settings_ok s"
  have d: "colored (fold (\<lambda>u. AList.update u (default_color_for (ne_sha env) u)) people [])" for people
    by (rule colored_fold) (simp_all add: colored_def palette_nonempty list_all_iff)
  have t: "colored m \<Longrightarrow> colored cs \<Longrightarrow> colored (fold (\<lambda>(u, col). AList.update u col) cs m)" for cs m
    using colored_fold [of m snd cs fst] by (simp add: colored_def case_prod_unfold)
  obtain people s1 where p: "(case directory_client (ne_co env) (ca_co s) of
              Inr (Some c) \<Rightarrow>
                (case on_company (on_dir (list_people (cx_ldap (ne_co env)) c)) s of
                   (Inr us, s1) \<Rightarrow> (map du_name us, s1) | (Inl _, s1) \<Rightarrow> ([], s1))
            | _ \<Rightarrow> ([], s)) = (people, s1)" by fastforce
  then have "ca_colors s1 = ca_colors s" by (auto simp: on_company_pair split: sum.splits option.splits)
  then show ?thesis unfolding load_calendar_settings_def Let_def p prod.case fst_conv snd_conv
    using ok \<open>ca_colors s1 = ca_colors s\<close> by (intro t d) (simp add: settings_ok_def colored_def)
qed

section \<open>What the server and the library promise\<close>

definition object_path :: "string \<Rightarrow> bool" where
  "object_path p \<longleftrightarrow> ''..'' \<notin> set (split_chr (CHR ''/'') p) \<and> has_prefix (rev p) (rev ''.ics'')"

text \<open>An object changes only when it is written or removed; reading gives what is there.  Nothing is promised about a
  path with a step upwards, which servers resolve.\<close>

definition server_law :: "('w, 'c) caldav \<Rightarrow> ('w \<Rightarrow> string \<Rightarrow> 'c cal_object option) \<Rightarrow> bool" where
  "server_law S objs \<longleftrightarrow>
     (\<forall>l p o1 w r w'. object_path p \<and> cv_put S l p o1 w = (r, w') \<longrightarrow>
        (\<forall>q. q \<noteq> p \<longrightarrow> objs w' q = objs w q) \<and> (r = Inr () \<longrightarrow> objs w' p = Some o1))
     \<and> (\<forall>l p w r w'. object_path p \<and> cv_remove S l p w = (r, w') \<longrightarrow> (\<forall>q. q \<noteq> p \<longrightarrow> objs w' q = objs w q))
     \<and> (\<forall>l p w o1. cv_get S l p w = Inr (Some o1) \<longrightarrow> object_path p \<longrightarrow> objs w p = Some o1)
     \<and> (\<forall>m l p w. objs (snd (cv_status S m l p w)) = objs w)"

lemma server_lawD:
  assumes "server_law S objs"
  shows "object_path p \<Longrightarrow> q \<noteq> p \<Longrightarrow> objs (snd (cv_put S l p o1 w)) q = objs w q"
    and "object_path p \<Longrightarrow> cv_put S l p o1 w = (Inr (), w') \<Longrightarrow> objs w' p = Some o1"
    and "object_path p \<Longrightarrow> q \<noteq> p \<Longrightarrow> objs (snd (cv_remove S l p w)) q = objs w q"
    and "cv_get S l p w = Inr (Some o1) \<Longrightarrow> object_path p \<Longrightarrow> objs w p = Some o1"
    and "objs (snd (cv_status S m l p w)) = objs w"
proof -
  note l1 = assms [unfolded server_law_def]
  note l2 = conjunct2 [OF l1] note l3 = conjunct2 [OF l2]
  show "object_path p \<Longrightarrow> q \<noteq> p \<Longrightarrow> objs (snd (cv_put S l p o1 w)) q = objs w q"
    using conjunct1 [OF l1] prod.collapse by metis
  show "object_path p \<Longrightarrow> cv_put S l p o1 w = (Inr (), w') \<Longrightarrow> objs w' p = Some o1"
    using conjunct1 [OF l1] by blast
  show "object_path p \<Longrightarrow> q \<noteq> p \<Longrightarrow> objs (snd (cv_remove S l p w)) q = objs w q"
    using conjunct1 [OF l2] prod.collapse by metis
  show "cv_get S l p w = Inr (Some o1) \<Longrightarrow> object_path p \<Longrightarrow> objs w p = Some o1"
    using conjunct1 [OF l3] by blast
  show "objs (snd (cv_status S m l p w)) = objs w" using conjunct2 [OF l3] by blast
qed

definition plain_segment :: "string \<Rightarrow> bool" where
  "plain_segment s \<longleftrightarrow> CHR ''/'' \<notin> set s \<and> s \<noteq> ''..''"

lemma ics_segment: "CHR ''/'' \<notin> set uid \<Longrightarrow> split_chr (CHR ''/'') (uid @ ''.ics'') = [uid @ ''.ics'']"
  by (rule split_no_sep) simp

lemma dots_ics: "uid @ ''.ics'' \<noteq> ''..''"
proof
  assume "uid @ ''.ics'' = ''..''"
  then have "length (uid @ ''.ics'') = 2" by simp
  then show False by simp
qed

lemma event_paths:
  assumes "CHR ''/'' \<notin> set uid"
  shows "object_path (company_calendar_path @ uid @ ''.ics'')"
    and "plain_segment u \<Longrightarrow> object_path (personal_calendar_path u @ uid @ ''.ics'')"
proof -
  have r: "has_prefix (rev (x @ uid @ ''.ics'')) (rev ''.ics'')" for x by simp
  have c: "company_calendar_path @ uid @ ''.ics'' = [] @ CHR ''/'' # ''company'' @ CHR ''/'' # ''calendar'' @ CHR ''/'' # uid @ ''.ics''"
    by (simp add: company_calendar_path_def)
  show "object_path (company_calendar_path @ uid @ ''.ics'')"
    unfolding object_path_def using r [of company_calendar_path] dots_ics [of uid]
    by (simp add: c split_append_sep ics_segment [OF assms, simplified])
  assume u: "plain_segment u"
  have p: "personal_calendar_path u @ uid @ ''.ics'' = [] @ CHR ''/'' # u @ CHR ''/'' # ''personal'' @ CHR ''/'' # uid @ ''.ics''"
    by (simp add: personal_calendar_path_def)
  show "object_path (personal_calendar_path u @ uid @ ''.ics'')"
    unfolding object_path_def using r [of "personal_calendar_path u"] dots_ics [of uid] u
    by (auto simp: p split_append_sep ics_segment [OF assms, simplified] plain_segment_def)
qed

section \<open>Who may change an event of the company\<close>

definition creator_in :: "'c ical \<Rightarrow> 'c cal_object \<Rightarrow> string" where
  "creator_in L o1 = (case find (\<lambda>c. il_name L c = ''VEVENT'') (co_comps o1) of None \<Rightarrow> [] | Some c \<Rightarrow> il_text L prop_created_by c)"

abbreviation company_object :: "string \<Rightarrow> string" where
  "company_object uid \<equiv> company_calendar_path @ uid @ ''.ics''"

fun request_token :: "cal_request \<Rightarrow> string" where
  "request_token (Create_event tok _) = tok"
| "request_token (Update_event tok _ _ _) = tok"
| "request_token (Delete_event tok _ _) = tok"
| "request_token _ = []"

fun request_uid :: "cal_request \<Rightarrow> string" where
  "request_uid (Update_event _ _ uid _) = uid"
| "request_uid (Delete_event _ _ uid) = uid"
| "request_uid _ = []"

text \<open>Requests that come from other employees than the creator, in any order and number.\<close>

inductive others_steps ::
  "('w, 'c) caldav \<Rightarrow> 'c ical \<Rightarrow> string \<Rightarrow> string \<Rightarrow> ('d, 'n, 'w) calendars \<Rightarrow> ('d, 'n, 'w) calendars \<Rightarrow> bool" for S L uid c s where
  none: "others_steps S L uid c s s"
| more: "others_steps S L uid c s t \<Longrightarrow> ne_server env = S \<Longrightarrow> ne_ical env = L \<Longrightarrow> ne_uuid env \<noteq> uid
    \<Longrightarrow> CHR ''/'' \<notin> set (ne_uuid env) \<Longrightarrow> CHR ''/'' \<notin> set (request_uid r)
    \<Longrightarrow> (\<And>u. token_user env (request_token r) t = Inr u \<Longrightarrow> u \<noteq> c \<and> plain_segment u)
    \<Longrightarrow> others_steps S L uid c s (cal_step env r t)"

lemma other_objects:
  assumes "CHR ''/'' \<notin> set uid" "plain_segment u" "CHR ''/'' \<notin> set uid'"
  shows "personal_calendar_path u @ uid' @ ''.ics'' \<noteq> company_object uid" "company_object uid' = company_object uid \<longleftrightarrow> uid' = uid"
proof
  let ?A = "''personal/'' @ uid' @ ''.ics''" and ?B = "''calendar/'' @ uid @ ''.ics''"
  assume "personal_calendar_path u @ uid' @ ''.ics'' = company_object uid"
  then have "u @ CHR ''/'' # ?A = ''company'' @ CHR ''/'' # ?B"
    by (simp add: personal_calendar_path_def company_calendar_path_def)
  then have "cut_chr (CHR ''/'') (u @ CHR ''/'' # ?A) = cut_chr (CHR ''/'') (''company'' @ CHR ''/'' # ?B)" by (rule arg_cong)
  moreover have "cut_chr (CHR ''/'') (u @ CHR ''/'' # ?A) = (u, ?A, True)"
    using assms(2) by (intro cut_chr_append) (simp add: plain_segment_def)
  moreover have "cut_chr (CHR ''/'') (''company'' @ CHR ''/'' # ?B) = (''company'', ?B, True)" by (rule cut_chr_append) simp
  ultimately have "?A = ?B" by (simp only: prod.inject)
  then show False by simp
qed simp

lemma path_for_cases: "calendar_path_for kind u = Some path \<Longrightarrow> kind = ''company'' \<and> path = company_calendar_path
    \<or> kind = ''personal'' \<and> path = personal_calendar_path u"
  by (auto simp: calendar_path_for_def split: if_splits)

lemma put_elsewhere:
  assumes law: "server_law S objs" and uid: "CHR ''/'' \<notin> set uid" "CHR ''/'' \<notin> set (ev_uid ev)" "plain_segment u"
    and path: "calendar_path_for kind u = Some path" and other: "kind = ''company'' \<Longrightarrow> ev_uid ev \<noteq> uid"
  shows "objs (snd (put_event S L l now path ev w)) (company_object uid) = objs w (company_object uid)"
  using path_for_cases [OF path] server_lawD(1) [OF law event_paths(1) [OF uid(2)]]
    server_lawD(1) [OF law event_paths(2) [OF uid(2,3)]] other_objects [OF uid(1,3,2)] other
  by (auto simp: put_event_def)

lemma remove_elsewhere:
  assumes law: "server_law S objs" and uid: "CHR ''/'' \<notin> set uid" "CHR ''/'' \<notin> set uid'" "plain_segment u"
    and path: "calendar_path_for kind u = Some path" and other: "kind = ''company'' \<Longrightarrow> uid' \<noteq> uid"
  shows "objs (snd (delete_event S l path uid' w)) (company_object uid) = objs w (company_object uid)"
  using path_for_cases [OF path] server_lawD(3) [OF law event_paths(1) [OF uid(2)]]
    server_lawD(3) [OF law event_paths(2) [OF uid(2,3)]] other_objects [OF uid(1,3,2)] other
  by (auto simp: delete_event_def)

text \<open>The check in front of a change answers an error to everybody but the creator.\<close>

lemma editor_refused:
  assumes "server_law (ne_server env) objs" "CHR ''/'' \<notin> set uid"
    and "objs (ca_world s) (company_object uid) = Some o1" "creator_in (ne_ical env) o1 = c" "c \<noteq> []" "u \<noteq> c"
  shows "\<exists>e. require_event_editor env l ''company'' company_calendar_path uid u s = Inl e"
proof (cases "cv_get (ne_server env) l (company_object uid) (ca_world s)")
  case (Inl e)
  then show ?thesis by (simp add: require_event_editor_def get_event_def)
next
  case (Inr x)
  show ?thesis
  proof (cases x)
    case None
    then show ?thesis using Inr by (simp add: require_event_editor_def get_event_def)
  next
    case (Some o2)
    then have "o2 = o1" using server_lawD(4) [OF assms(1) _ event_paths(1) [OF assms(2)]] Inr assms(3) by fastforce
    then show ?thesis using Inr Some assms(4,5,6)
      by (auto simp: require_event_editor_def get_event_def creator_in_def split: option.splits)
  qed
qed

lemma quiet_world:
  "ca_world (snd (list_directory_users env tok s)) = ca_world s" "ca_world (snd (list_calendar_events env tok a b s)) = ca_world s"
  "ca_world (snd (get_calendar_settings env tok s)) = ca_world s" "ca_world (snd (get_portal_calendar_settings env tok s)) = ca_world s"
  "ca_world (snd (update_calendar_settings env tok v s)) = ca_world s" "ca_world (snd (set_calendar_member_color env tok u col s)) = ca_world s"
proof -
  have l: "ca_world (snd (load_calendar_settings env s)) = ca_world s" using snd_load [of env s] by auto
  show "ca_world (snd (get_calendar_settings env tok s)) = ca_world s"
    unfolding get_calendar_settings_def by (rule calendar_admin_keeps) (simp_all add: snd_prod_case l)
  show "ca_world (snd (get_portal_calendar_settings env tok s)) = ca_world s"
    unfolding get_portal_calendar_settings_def by (rule as_employee_keeps) (simp_all add: snd_prod_case l)
  show "ca_world (snd (list_directory_users env tok s)) = ca_world s"
    by (auto simp: list_directory_users_def as_employee_def snd_then_done on_company_pair or_500_def and_then_def
      split: sum.splits option.splits prod.splits)
qed (simp_all add: list_events_same update_calendar_settings_def set_calendar_member_color_def calendar_admin_def split: sum.splits)

lemma login_seen_objs:
  "server_law (ne_server env) objs \<Longrightarrow> objs (ca_world (ensure_personal_calendar env u pw s)) = objs (ca_world s)"
  using server_lawD(5) [of "ne_server env" objs]
  by (auto simp: ensure_personal_calendar_def on_world_of_pair snd_on_company calendar_exists_def case_prod_unfold
      split: sum.splits option.splits bool.splits)

lemma others_step:
  assumes law: "server_law (ne_server env) objs" and uid: "CHR ''/'' \<notin> set uid" "ne_uuid env \<noteq> uid" "CHR ''/'' \<notin> set (ne_uuid env)"
    "CHR ''/'' \<notin> set (request_uid r)"
    and user: "\<And>u. token_user env (request_token r) s = Inr u \<Longrightarrow> u \<noteq> c \<and> plain_segment u"
    and ev: "objs (ca_world s) (company_object uid) = Some o1" "creator_in (ne_ical env) o1 = c" "c \<noteq> []"
  shows "objs (ca_world (cal_step env r s)) (company_object uid) = Some o1"
proof (cases r)
  case (Create_event tok b)
  have "objs (ca_world (snd (create_calendar_event env tok b s))) (company_object uid) = Some o1"
    unfolding create_calendar_event_def
    by (rule with_calendar_keeps)
      (use user ev uid Create_event in \<open>auto simp: snd_then_done snd_put_clean put_elsewhere [OF law] event_from_def split: sum.splits\<close>)
  then show ?thesis using Create_event by simp
next
  case (Update_event tok kind uid' b)
  have "objs (ca_world (snd (update_calendar_event env tok kind uid' b s))) (company_object uid) = Some o1"
    unfolding update_calendar_event_def
  proof (rule with_calendar_keeps)
    fix l u path assume u: "token_user env tok s = Inr u" and p: "calendar_path_for kind u = Some path"
    have pu: "u \<noteq> c" "plain_segment u" "CHR ''/'' \<notin> set uid'" using user u uid(4) Update_event by auto
    show "objs (ca_world (snd (case clean_event_body b of Inl e \<Rightarrow> (Inl e, s)
       | Inr b \<Rightarrow> and_then (require_event_editor env l kind path uid' u s, s) (\<lambda>_ s.
           put_clean env ''update event'' l path (event_from b uid' (creator_of env l path uid' u s)) s)))) (company_object uid) = Some o1"
    proof (cases "kind = ''company'' \<and> uid' = uid")
      case True
      then have "path = company_calendar_path" using p by (simp add: calendar_path_for_def)
      then show ?thesis using editor_refused [OF law uid(1) ev pu(1), of l] True ev(1) by (auto split: sum.splits)
    next
      case False
      then show ?thesis using ev(1)
        by (auto simp: snd_put_clean and_then_def put_elsewhere [OF law uid(1) _ pu(2) p] event_from_def pu(3) split: sum.splits)
    qed
  qed (use ev in simp)
  then show ?thesis using Update_event by simp
next
  case (Delete_event tok kind uid')
  have "objs (ca_world (snd (delete_calendar_event env tok kind uid' s))) (company_object uid) = Some o1"
    unfolding delete_calendar_event_def
  proof (rule with_calendar_keeps)
    fix l u path assume u: "token_user env tok s = Inr u" and p: "calendar_path_for kind u = Some path"
    have pu: "u \<noteq> c" "plain_segment u" "CHR ''/'' \<notin> set uid'" using user u uid(4) Delete_event by auto
    show "objs (ca_world (snd (and_then (require_event_editor env l kind path uid' u s, s) (\<lambda>_ s.
       or_500 ''delete event'' (on_world_of (delete_event (ne_server env) l path uid') s))))) (company_object uid) = Some o1"
    proof (cases "kind = ''company'' \<and> uid' = uid")
      case True
      then have "path = company_calendar_path" using p by (simp add: calendar_path_for_def)
      then show ?thesis using editor_refused [OF law uid(1) ev pu(1), of l] True ev(1) by (auto split: sum.splits)
    next
      case False
      then show ?thesis using ev(1)
        by (auto simp: snd_on_world_of and_then_def remove_elsewhere [OF law uid(1) pu(3,2) p] split: sum.splits)
    qed
  qed (use ev in simp)
  then show ?thesis using Delete_event by simp
qed (use ev in \<open>simp_all add: quiet_world login_seen_objs [OF law]\<close>)


section \<open>What was typed is what is read\<close>

record comp_view =
  cw_name :: string
  cw_text :: "string \<Rightarrow> string"
  cw_attendees :: "string list"
  cw_date :: "string \<Rightarrow> bool"
  cw_time :: "string \<Rightarrow> ztime"

definition comp_view_of :: "'c ical \<Rightarrow> 'c \<Rightarrow> comp_view" where
  "comp_view_of L c = \<lparr>cw_name = il_name L c,
     cw_text = (\<lambda>n. if n \<in> {''DTSTART'', ''DTEND'', ''DTSTAMP'', ''ATTENDEE''} then [] else il_text L n c),
     cw_attendees = il_attendees L c, cw_date = (\<lambda>n. il_is_date L n c), cw_time = (\<lambda>n. il_time L n c)\<rparr>"

text \<open>Times are kept to the second, dates as the day they have where they were given; a text without a carriage return is kept.\<close>

definition kept_time :: "ztime \<Rightarrow> ztime" where
  "kept_time t = \<lparr>zt_at = zt_at t div second * second, zt_off = 0\<rparr>"

definition kept_date :: "ztime \<Rightarrow> ztime" where
  "kept_date t = \<lparr>zt_at = local_day t * day_ns, zt_off = 0\<rparr>"

definition text_ok :: "string \<Rightarrow> bool" where "text_ok v \<longleftrightarrow> CHR 0x0D \<notin> set v"

definition ical_law :: "'c ical \<Rightarrow> bool" where
  "ical_law L \<longleftrightarrow>
     il_name L (il_event L) = ''VEVENT'' \<and> (\<forall>n. il_text L n (il_event L) = []) \<and> il_attendees L (il_event L) = []
     \<and> (\<forall>n v c. n \<notin> {''DTSTART'', ''DTEND'', ''DTSTAMP'', ''ATTENDEE''} \<and> text_ok v \<longrightarrow>
          comp_view_of L (il_set_text L n v c) = (comp_view_of L c)\<lparr>cw_text := (cw_text (comp_view_of L c))(n := v)\<rparr>)
     \<and> (\<forall>cn v c. text_ok cn \<and> text_ok v \<longrightarrow>
          comp_view_of L (il_add_attendee L cn v c) = (comp_view_of L c)\<lparr>cw_attendees := cw_attendees (comp_view_of L c) @ [cn]\<rparr>)
     \<and> (\<forall>n t c. n \<in> {''DTSTART'', ''DTEND''} \<longrightarrow> comp_view_of L (il_set_date L n t c) = (comp_view_of L c)
          \<lparr>cw_date := (cw_date (comp_view_of L c))(n := True), cw_time := (cw_time (comp_view_of L c))(n := kept_date t)\<rparr>)
     \<and> (\<forall>n t c. n \<in> {''DTSTART'', ''DTEND'', ''DTSTAMP''} \<longrightarrow> comp_view_of L (il_set_time L n (utc t) c) = (comp_view_of L c)
          \<lparr>cw_date := (cw_date (comp_view_of L c))(n := False), cw_time := (cw_time (comp_view_of L c))(n := kept_time t)\<rparr>)"

lemma ical_lawD:
  assumes "ical_law L"
  shows "comp_view_of L (il_event L) = \<lparr>cw_name = ''VEVENT'', cw_text = (\<lambda>_. []), cw_attendees = [],
      cw_date = (\<lambda>n. il_is_date L n (il_event L)), cw_time = (\<lambda>n. il_time L n (il_event L))\<rparr>"
    and "n \<notin> {''DTSTART'', ''DTEND'', ''DTSTAMP'', ''ATTENDEE''} \<Longrightarrow> text_ok v \<Longrightarrow>
          comp_view_of L (il_set_text L n v c) = (comp_view_of L c)\<lparr>cw_text := (cw_text (comp_view_of L c))(n := v)\<rparr>"
    and "text_ok cn \<Longrightarrow> text_ok v \<Longrightarrow>
          comp_view_of L (il_add_attendee L cn v c) = (comp_view_of L c)\<lparr>cw_attendees := cw_attendees (comp_view_of L c) @ [cn]\<rparr>"
    and "n \<in> {''DTSTART'', ''DTEND''} \<Longrightarrow> comp_view_of L (il_set_date L n t c) = (comp_view_of L c)
          \<lparr>cw_date := (cw_date (comp_view_of L c))(n := True), cw_time := (cw_time (comp_view_of L c))(n := kept_date t)\<rparr>"
    and "n \<in> {''DTSTART'', ''DTEND'', ''DTSTAMP''} \<Longrightarrow> comp_view_of L (il_set_time L n (utc t) c) = (comp_view_of L c)
          \<lparr>cw_date := (cw_date (comp_view_of L c))(n := False), cw_time := (cw_time (comp_view_of L c))(n := kept_time t)\<rparr>"
proof -
  note l1 = assms [unfolded ical_law_def]
  note l2 = conjunct2 [OF l1] note l3 = conjunct2 [OF l2] note l4 = conjunct2 [OF l3] note l5 = conjunct2 [OF l4] note l6 = conjunct2 [OF l5]
  show "comp_view_of L (il_event L) = \<lparr>cw_name = ''VEVENT'', cw_text = (\<lambda>_. []), cw_attendees = [],
      cw_date = (\<lambda>n. il_is_date L n (il_event L)), cw_time = (\<lambda>n. il_time L n (il_event L))\<rparr>"
    unfolding comp_view_of_def using conjunct1 [OF l1] conjunct1 [OF l2] conjunct1 [OF l3] by (auto simp: fun_eq_iff)
  show "n \<notin> {''DTSTART'', ''DTEND'', ''DTSTAMP'', ''ATTENDEE''} \<Longrightarrow> text_ok v \<Longrightarrow>
          comp_view_of L (il_set_text L n v c) = (comp_view_of L c)\<lparr>cw_text := (cw_text (comp_view_of L c))(n := v)\<rparr>"
    using conjunct1 [OF l4] by blast
  show "text_ok cn \<Longrightarrow> text_ok v \<Longrightarrow>
          comp_view_of L (il_add_attendee L cn v c) = (comp_view_of L c)\<lparr>cw_attendees := cw_attendees (comp_view_of L c) @ [cn]\<rparr>"
    using conjunct1 [OF l5] by blast
  show "n \<in> {''DTSTART'', ''DTEND''} \<Longrightarrow> comp_view_of L (il_set_date L n t c) = (comp_view_of L c)
          \<lparr>cw_date := (cw_date (comp_view_of L c))(n := True), cw_time := (cw_time (comp_view_of L c))(n := kept_date t)\<rparr>"
    using conjunct1 [OF l6] by blast
  show "n \<in> {''DTSTART'', ''DTEND'', ''DTSTAMP''} \<Longrightarrow> comp_view_of L (il_set_time L n (utc t) c) = (comp_view_of L c)
          \<lparr>cw_date := (cw_date (comp_view_of L c))(n := False), cw_time := (cw_time (comp_view_of L c))(n := kept_time t)\<rparr>"
    using conjunct2 [OF l6] by blast
qed

lemma add_attendees_view:
  assumes "ical_law L" "list_all text_ok us"
  shows "comp_view_of L (fold (\<lambda>u. il_add_attendee L u (''mailto:'' @ u @ ''@attendee.invalid'')) us c)
    = (comp_view_of L c)\<lparr>cw_attendees := cw_attendees (comp_view_of L c) @ us\<rparr>"
  using assms(2)
proof (induction us arbitrary: c)
  case (Cons u us)
  have "text_ok (''mailto:'' @ u @ ''@attendee.invalid'')" using Cons.prems by (simp add: text_ok_def)
  then show ?case using Cons ical_lawD(3) [OF assms(1)] by simp
qed simp

lemma set_nonempty_view:
  assumes "ical_law L" "n \<notin> {''DTSTART'', ''DTEND'', ''DTSTAMP'', ''ATTENDEE''}" "text_ok v" "cw_text (comp_view_of L c) n = []"
  shows "comp_view_of L (set_nonempty L n v c) = (comp_view_of L c)\<lparr>cw_text := (cw_text (comp_view_of L c))(n := v)\<rparr>"
proof (cases "v = []")
  case True
  then have "(cw_text (comp_view_of L c))(n := v) = cw_text (comp_view_of L c)" using assms(4) by (simp add: fun_upd_idem)
  then show ?thesis using True by (simp add: set_nonempty_def)
qed (simp add: set_nonempty_def ical_lawD(2) [OF assms(1,2,3)])

text \<open>The event as it will be shown.\<close>

definition shown_event :: "event \<Rightarrow> event" where
  "shown_event ev = (if ev_all_day ev then ev\<lparr>ev_start := kept_date (ev_start ev), ev_end := kept_date (exclusive_end ev)\<rparr>
     else ev\<lparr>ev_start := kept_time (ev_start ev), ev_end := kept_time (ev_end ev)\<rparr>)"

definition event_texts_ok :: "event \<Rightarrow> bool" where
  "event_texts_ok ev \<longleftrightarrow> list_all text_ok ([ev_uid ev, ev_title ev, ev_description ev, ev_created_by ev, ev_video ev] @ ev_attendees ev)"

text \<open>An event of a whole day given as nine to five of that day ends on the day it starts, that is, covers no day at all.\<close>

lemma same_day_is_empty:
  assumes "ev_all_day ev" "local_day (ev_start ev) = local_day (ev_end ev)" "after (ev_end ev) (ev_start ev)"
  shows "ev_end (shown_event ev) = ev_start (shown_event ev)"
  using assms by (simp add: shown_event_def exclusive_end_def kept_date_def)

lemma event_of_view:
  "event_of L c = \<lparr>ev_uid = cw_text (comp_view_of L c) ''UID'', ev_title = cw_text (comp_view_of L c) ''SUMMARY'',
     ev_description = cw_text (comp_view_of L c) ''DESCRIPTION'', ev_start = cw_time (comp_view_of L c) ''DTSTART'',
     ev_end = cw_time (comp_view_of L c) ''DTEND'', ev_all_day = cw_date (comp_view_of L c) ''DTSTART'',
     ev_created_by = cw_text (comp_view_of L c) prop_created_by,
     ev_attendees = filter (\<lambda>cn. cn \<noteq> []) (cw_attendees (comp_view_of L c)), ev_video = cw_text (comp_view_of L c) ''URL''\<rparr>"
  by (simp add: event_of_def comp_view_of_def prop_created_by_def)

lemma event_of_component:
  assumes law: "ical_law L" and ok: "event_texts_ok ev" and names: "[] \<notin> set (ev_attendees ev)"
  shows "il_name L (component_of L now ev) = ''VEVENT''" "event_of L (component_of L now ev) = shown_event ev"
proof -
  define c1 where "c1 = il_set_text L ''UID'' (ev_uid ev) (il_event L)"
  define c2 where "c2 = il_set_time L ''DTSTAMP'' (utc now) c1"
  define c3 where "c3 = il_set_text L ''SUMMARY'' (ev_title ev) c2"
  define c4 where "c4 = set_nonempty L ''DESCRIPTION'' (ev_description ev) c3"
  define c5 where "c5 = set_nonempty L prop_created_by (ev_created_by ev) c4"
  define c6 where "c6 = set_nonempty L ''URL'' (ev_video ev) c5"
  define c7 where "c7 = fold (\<lambda>u. il_add_attendee L u (''mailto:'' @ u @ ''@attendee.invalid'')) (ev_attendees ev) c6"
  have t: "text_ok (ev_uid ev)" "text_ok (ev_title ev)" "text_ok (ev_description ev)" "text_ok (ev_created_by ev)" "text_ok (ev_video ev)"
    "list_all text_ok (ev_attendees ev)" using ok by (simp_all add: event_texts_ok_def)
  note set = ical_lawD(2) [OF law] and time = ical_lawD(5) [OF law] and date = ical_lawD(4) [OF law]
  have 3: "cw_name (comp_view_of L c3) = ''VEVENT''" "cw_attendees (comp_view_of L c3) = []"
    "cw_text (comp_view_of L c3) = (\<lambda>_. [])(''UID'' := ev_uid ev, ''SUMMARY'' := ev_title ev)"
    unfolding c3_def c2_def c1_def using t by (simp_all add: set time ical_lawD(1) [OF law])
  have 4: "comp_view_of L c4 = (comp_view_of L c3)\<lparr>cw_text := (cw_text (comp_view_of L c3))(''DESCRIPTION'' := ev_description ev)\<rparr>"
    unfolding c4_def by (rule set_nonempty_view [OF law _ t(3)]) (simp_all add: 3)
  have 5: "comp_view_of L c5 = (comp_view_of L c4)\<lparr>cw_text := (cw_text (comp_view_of L c4))(prop_created_by := ev_created_by ev)\<rparr>"
    unfolding c5_def by (rule set_nonempty_view [OF law _ t(4)]) (simp_all add: 3 4 prop_created_by_def)
  have 6: "comp_view_of L c6 = (comp_view_of L c5)\<lparr>cw_text := (cw_text (comp_view_of L c5))(''URL'' := ev_video ev)\<rparr>"
    unfolding c6_def by (rule set_nonempty_view [OF law _ t(5)]) (simp_all add: 3 4 5 prop_created_by_def)
  have 7: "comp_view_of L c7 = (comp_view_of L c6)\<lparr>cw_attendees := cw_attendees (comp_view_of L c6) @ ev_attendees ev\<rparr>"
    unfolding c7_def by (rule add_attendees_view [OF law t(6)])
  have comp: "component_of L now ev = (if ev_all_day ev
      then il_set_date L ''DTEND'' (exclusive_end ev) (il_set_date L ''DTSTART'' (ev_start ev) c7)
      else il_set_time L ''DTEND'' (utc (ev_end ev)) (il_set_time L ''DTSTART'' (utc (ev_start ev)) c7))"
    by (simp add: component_of_def Let_def c1_def c2_def c3_def c4_def c5_def c6_def c7_def)
  have names': "filter (\<lambda>cn. cn \<noteq> []) (ev_attendees ev) = ev_attendees ev"
    using names by (simp add: filter_id_conv) metis
  have n: "il_name L c = cw_name (comp_view_of L c)" for c by (simp add: comp_view_of_def)
  have texts: "cw_text (comp_view_of L c7) = (\<lambda>_. [])(''UID'' := ev_uid ev, ''SUMMARY'' := ev_title ev,
      ''DESCRIPTION'' := ev_description ev, prop_created_by := ev_created_by ev, ''URL'' := ev_video ev)"
    and rest: "cw_name (comp_view_of L c7) = ''VEVENT''" "cw_attendees (comp_view_of L c7) = ev_attendees ev"
    by (simp_all add: 7 6 5 4 3)
  have x: "cw_text (comp_view_of L c7) ''UID'' = ev_uid ev" "cw_text (comp_view_of L c7) ''SUMMARY'' = ev_title ev"
    "cw_text (comp_view_of L c7) ''DESCRIPTION'' = ev_description ev" "cw_text (comp_view_of L c7) ''URL'' = ev_video ev"
    "cw_text (comp_view_of L c7) prop_created_by = ev_created_by ev"
    unfolding texts by (simp_all add: prop_created_by_def)
  have dates: "comp_view_of L (component_of L now ev) = (comp_view_of L c7)\<lparr>cw_date := d, cw_time := t\<rparr>
      \<Longrightarrow> event_of L (component_of L now ev) = \<lparr>ev_uid = ev_uid ev, ev_title = ev_title ev, ev_description = ev_description ev,
        ev_start = t ''DTSTART'', ev_end = t ''DTEND'', ev_all_day = d ''DTSTART'', ev_created_by = ev_created_by ev,
        ev_attendees = ev_attendees ev, ev_video = ev_video ev\<rparr>" for d t
    unfolding event_of_view by (simp add: x rest names')
  have "il_name L (component_of L now ev) = ''VEVENT'' \<and> event_of L (component_of L now ev) = shown_event ev"
  proof (cases "ev_all_day ev")
    case True
    then have v: "comp_view_of L (component_of L now ev) = (comp_view_of L c7)
        \<lparr>cw_date := (cw_date (comp_view_of L c7))(''DTSTART'' := True, ''DTEND'' := True),
         cw_time := (cw_time (comp_view_of L c7))(''DTSTART'' := kept_date (ev_start ev), ''DTEND'' := kept_date (exclusive_end ev))\<rparr>"
      unfolding comp by (simp add: date)
    show ?thesis using True unfolding dates [OF v] n v by (simp add: rest shown_event_def)
  next
    case False
    then have v: "comp_view_of L (component_of L now ev) = (comp_view_of L c7)
        \<lparr>cw_date := (cw_date (comp_view_of L c7))(''DTSTART'' := False, ''DTEND'' := False),
         cw_time := (cw_time (comp_view_of L c7))(''DTSTART'' := kept_time (ev_start ev), ''DTEND'' := kept_time (ev_end ev))\<rparr>"
      unfolding comp by (simp add: time)
    show ?thesis using False unfolding dates [OF v] n v by (simp add: rest shown_event_def)
  qed
  then show "il_name L (component_of L now ev) = ''VEVENT''" "event_of L (component_of L now ev) = shown_event ev" by simp_all
qed

lemma with_calendar_Inr:
  assumes "with_calendar env tok kind k s = (Inr a, s')" "token_user env tok s = Inr u"
  shows "\<exists>l path. calendar_path_for kind u = Some path \<and> k l u path s = (Inr a, s')"
  using assms by (auto simp: with_calendar_def as_employee_def split: sum.splits option.splits)

lemma clean_body_ok:
  assumes "clean_event_body b = Inr b'"
  shows "b' = b\<lparr>bd_title := trim_space (one_line (bd_title b))\<rparr>" "bd_title b' \<noteq> []" "valid_video_call_url (bd_video b)"
    "list_all attendee_name (bd_attendees b)" "bd_all_day b \<or> after (bd_end b) (bd_start b)"
  using assms by (auto simp: clean_event_body_def Let_def split: if_splits)

lemma one_line_plain: "CHR 0x0D \<notin> set (one_line s) \<and> newline \<notin> set (one_line s)"
  by (induction s rule: one_line.induct) (auto split: list.splits)

lemma attendee_text: "attendee_name a \<Longrightarrow> text_ok a \<and> a \<noteq> []"
proof -
  assume a: "attendee_name a"
  have "\<not> attendee_chr (CHR 0x0D)" by (simp add: attendee_chr_def alnum_def is_digit_def in_range_def byte_def)
  then show ?thesis using a by (auto simp: attendee_name_def text_ok_def list_all_iff)
qed


text \<open>C20: An event that was created successfully lies under its identifier in the chosen calendar and reads back as it was
  typed, with the title on one line and the employee as its creator; times are kept to the second, whole days as dates.\<close>

theorem created_event_reads_back:
  assumes run: "create_calendar_event env tok b s = (Inr uid, s')"
    and laws: "server_law (ne_server env) objs" "ical_law (ne_ical env)"
    and user: "token_user env tok s = Inr u" "plain_segment u" "text_ok u"
    and uuid: "CHR ''/'' \<notin> set (ne_uuid env)" "text_ok (ne_uuid env)" "ne_uuid env \<noteq> []"
    and texts: "text_ok (bd_description b)" "text_ok (bd_video b)"
  shows "\<exists>path cal. calendar_path_for (bd_calendar b) u = Some path \<and> objs (ca_world s') (path @ uid @ ''.ics'') = Some cal
    \<and> events_of (ne_ical env) [Some cal]
        = [shown_event (event_from (b\<lparr>bd_title := trim_space (one_line (bd_title b))\<rparr>) uid u)]"
proof -
  let ?L = "ne_ical env"
  obtain l path b' where p: "calendar_path_for (bd_calendar b) u = Some path" "clean_event_body b = Inr b'"
    and put: "put_clean env ''create event'' l path (event_from b' (ne_uuid env) u) s = (Inr (), s')" and uid: "uid = ne_uuid env"
  proof -
    obtain l path where p: "calendar_path_for (bd_calendar b) u = Some path"
      and k: "(case clean_event_body b of Inl e \<Rightarrow> (Inl e, s)
        | Inr b \<Rightarrow> and_then (put_clean env ''create event'' l path (event_from b (ne_uuid env) u) s)
            (\<lambda>_ s. (Inr (ne_uuid env), s))) = (Inr uid, s')"
      using with_calendar_Inr [OF run [unfolded create_calendar_event_def] user(1)] by blast
    then obtain b' where "clean_event_body b = Inr b'" by (auto split: sum.splits)
    then show ?thesis using that [OF p] k and_then_Inr by (fastforce split: sum.splits)
  qed
  let ?ev = "event_from b' (ne_uuid env) u" let ?p = "path @ ne_uuid env @ ''.ics''"
  note b = clean_body_ok [OF p(2)]
  have path: "object_path ?p" using path_for_cases [OF p(1)] event_paths [OF uuid(1)] user(2) by auto
  obtain w where "cv_put (ne_server env) l ?p (object_of ?L (ne_now env) ?ev) (ca_world s) = (Inr (), w)" "s' = s\<lparr>ca_world := w\<rparr>"
    using put by (auto simp: put_clean_def on_world_of_def put_event_def event_from_def split: prod.splits)
  then have stored: "objs (ca_world s') ?p = Some (object_of ?L (ne_now env) ?ev)" using server_lawD(2) [OF laws(1) path] by simp
  have "text_ok (bd_title b')" using b(1) one_line_plain [of "bd_title b"] set_trim_space [of "one_line (bd_title b)"]
    by (auto simp: text_ok_def)
  moreover have "list_all text_ok (bd_attendees b) \<and> [] \<notin> set (bd_attendees b)"
    using b(4) attendee_text by (auto simp: list_all_iff)
  ultimately have ok: "event_texts_ok ?ev" "[] \<notin> set (ev_attendees ?ev)"
    using uuid(2) user(3) texts b(1) by (auto simp: event_texts_ok_def event_from_def)
  note ev = event_of_component [OF laws(2) ok, of "ne_now env"]
  have "ev_uid (shown_event ?ev) \<noteq> []" using uuid(3) by (simp add: shown_event_def event_from_def)
  then have "events_of ?L [Some (object_of ?L (ne_now env) ?ev)] = [shown_event ?ev]"
    by (simp add: events_of_def object_of_def ev)
  then show ?thesis using p(1) stored uid b(1) by auto
qed

section \<open>A small calendar\<close>

definition small_ical :: "comp_view ical" where
  "small_ical = \<lparr>il_event = \<lparr>cw_name = ''VEVENT'', cw_text = (\<lambda>_. []), cw_attendees = [], cw_date = (\<lambda>_. False), cw_time = (\<lambda>_. \<lparr>zt_at = 0, zt_off = 0\<rparr>)\<rparr>,
     il_name = cw_name, il_set_text = (\<lambda>n v c. c\<lparr>cw_text := (cw_text c)(n := v)\<rparr>),
     il_add_attendee = (\<lambda>cn v c. c\<lparr>cw_attendees := cw_attendees c @ [cn]\<rparr>),
     il_set_date = (\<lambda>n t c. c\<lparr>cw_date := (cw_date c)(n := True), cw_time := (cw_time c)(n := kept_date t)\<rparr>),
     il_set_time = (\<lambda>n t c. c\<lparr>cw_date := (cw_date c)(n := False), cw_time := (cw_time c)(n := kept_time t)\<rparr>),
     il_text = (\<lambda>n c. cw_text c n), il_attendees = cw_attendees, il_is_date = (\<lambda>n c. cw_date c n), il_time = (\<lambda>n c. cw_time c n)\<rparr>"

type_synonym small_store = "string \<Rightarrow> comp_view cal_object option"

definition small_caldav :: "(small_store, comp_view) caldav" where
  "small_caldav = \<lparr>cv_status = (\<lambda>_ _ _ w. (Inr 207, w)), cv_query = (\<lambda>_ _ _ _ _. Inr []),
     cv_get = (\<lambda>_ p w. case w p of None \<Rightarrow> Inl ''404 Not Found'' | Some x \<Rightarrow> Inr (Some x)),
     cv_put = (\<lambda>_ p x w. (Inr (), w(p \<mapsto> x))), cv_remove = (\<lambda>_ p w. (Inr (), w(p := None)))\<rparr>"

lemma small_ical_law: "ical_law small_ical"
  unfolding ical_law_def by (auto simp: small_ical_def comp_view_of_def kept_time_def utc_def fun_eq_iff)

lemma small_server_law: "server_law small_caldav (\<lambda>w. w)"
  unfolding server_law_def by (auto simp: small_caldav_def split: option.splits)

definition small_calendar_env :: "(small_dir, unit, small_store, comp_view) calendar_env" where
  "small_calendar_env = \<lparr>ne_co = small_env, ne_server = small_caldav, ne_ical = small_ical, ne_now = \<lparr>zt_at = 7, zt_off = 0\<rparr>,
     ne_uuid = ''u1'', ne_sha = (\<lambda>s. s), ne_parse = (\<lambda>_. None)\<rparr>"

definition calendar_row :: inst_row where
  "calendar_row = \<lparr>in_id = ''calendar-radicale'', in_status = ''running'', in_config = [(''service_password'', ''s'')],
     in_error = None, in_vis = ''private''\<rparr>"

definition small_calendars :: "(small_dir, unit, small_store) calendars" where
  "small_calendars = \<lparr>ca_co = small_company\<lparr>co_db := (co_db small_company)\<lparr>cd_mods := [calendar_row]\<rparr>\<rparr>,
     ca_view = None, ca_colors = [], ca_world = (\<lambda>_. None)\<rparr>"

definition small_body :: event_body where
  "small_body = \<lparr>bd_calendar = ''company'', bd_title = '' Town'' @ [newline] @ ''hall'', bd_description = [],
     bd_start = \<lparr>zt_at = 10 * second, zt_off = 0\<rparr>, bd_end = \<lparr>zt_at = 20 * second, zt_off = 0\<rparr>, bd_all_day = False,
     bd_attendees = [''ann''], bd_video = []\<rparr>"

lemma small_calendar_sel: "ne_server small_calendar_env = small_caldav" "ne_ical small_calendar_env = small_ical"
  "ne_uuid small_calendar_env = ''u1''" "ne_now small_calendar_env = \<lparr>zt_at = 7, zt_off = 0\<rparr>"
  by (simp_all add: small_calendar_env_def)

lemma small_token: "token_user small_calendar_env ''e'' small_calendars = Inr ''ann''"
  by (simp add: require_employee_auth_def emp_validate_def emp_row_def small_calendar_env_def small_env_def small_calendars_def
      small_company_def)

lemma small_title: "trim_space (one_line (bd_title small_body)) = ''Town hall''"
  by (simp add: small_body_def trim_space_ascii ascii_def space_rune_def byte_def)

lemma small_access: "\<exists>l. calendar_access small_calendar_env small_calendars = Inr (Some l)"
  by (simp add: calendar_access_def running_config_def get_installed_def find_mod_def small_calendar_env_def small_env_def
      small_calendars_def calendar_row_def status_of_row_def config_value_def Let_def)

lemma small_clean: "\<exists>b. clean_event_body small_body = Inr b"
  unfolding clean_event_body_def Let_def small_title
  by (simp add: small_body_def valid_video_call_url_def after_def second_def attendee_name_def attendee_chr_def alnum_def
      in_range_def byte_def is_digit_def)

lemma small_create: "\<exists>s'. create_calendar_event small_calendar_env ''e'' small_body small_calendars = (Inr ''u1'', s')"
proof -
  obtain l where l: "calendar_access small_calendar_env small_calendars = Inr (Some l)" using small_access by blast
  obtain b where b: "clean_event_body small_body = Inr b" using small_clean by blast
  have c: "bd_calendar small_body = ''company''" by (simp add: small_body_def)
  have put: "cv_put small_caldav l p x w = (Inr (), w(p \<mapsto> x))" for l p x w by (simp add: small_caldav_def)
  show ?thesis
    by (simp add: create_calendar_event_def with_calendar_def as_employee_def small_token l b c calendar_path_for_def put_clean_def
        on_world_of_def put_event_def small_calendar_sel put wrapped_def or_500_def)
qed

theorem created_event_reads_back_witness:
  "\<exists>s' cal. create_calendar_event small_calendar_env ''e'' small_body small_calendars = (Inr ''u1'', s')
     \<and> ca_world s' ''/company/calendar/u1.ics'' = Some cal
     \<and> map ev_title (events_of small_ical [Some cal]) = [''Town hall''] \<and> map ev_created_by (events_of small_ical [Some cal]) = [''ann'']"
proof -
  obtain s' where run: "create_calendar_event small_calendar_env ''e'' small_body small_calendars = (Inr ''u1'', s')"
    using small_create by blast
  have "\<exists>path cal. calendar_path_for (bd_calendar small_body) ''ann'' = Some path \<and> ca_world s' (path @ ''u1'' @ ''.ics'') = Some cal
    \<and> events_of small_ical [Some cal] = [shown_event (event_from (small_body\<lparr>bd_title := ''Town hall''\<rparr>) ''u1'' ''ann'')]"
    using created_event_reads_back [OF run, unfolded small_calendar_sel small_title, OF small_server_law small_ical_law small_token]
    by (simp add: plain_segment_def text_ok_def small_body_def)
  then obtain path cal where c: "calendar_path_for (bd_calendar small_body) ''ann'' = Some path"
    "ca_world s' (path @ ''u1'' @ ''.ics'') = Some cal"
    "events_of small_ical [Some cal] = [shown_event (event_from (small_body\<lparr>bd_title := ''Town hall''\<rparr>) ''u1'' ''ann'')]" by blast
  have "path = ''/company/calendar/''" using c(1) by (simp add: calendar_path_for_def small_body_def company_calendar_path_def)
  then show ?thesis using run c(2,3) by (auto simp: shown_event_def event_from_def)
qed

definition bobs_event :: "comp_view cal_object" where
  "bobs_event = object_of small_ical \<lparr>zt_at = 7, zt_off = 0\<rparr> (event_from small_body ''party'' ''bob'')"

definition bobs_calendars :: "(small_dir, unit, small_store) calendars" where
  "bobs_calendars = small_calendars\<lparr>ca_world := [company_object ''party'' \<mapsto> bobs_event]\<rparr>"



end
