(* ===== verification/Migrations.thy ===== *)
theory Migrations
  imports ModuleUpdate Directory "HOL-Library.Sublist"
begin

text \<open>
  Bringing the database up to date (\<open>backend/internal/db/db.go\<close> and the copies of its loop in the feature modules,
  \<open>modules/*/service/internal/dbx/dbx.go\<close>).  The core and the modules share one database and one table of the scripts that
  ran.  What a script does to the rest of the database, of any type \<open>'s\<close>, is a parameter; a transaction that does
  not commit leaves everything as it was.
\<close>

section \<open>The database\<close>

record 's database =
  md_done :: "string list"
  md_version :: "string option"
  md_schema :: 's
  md_dumps :: "string list"

type_synonym 's scripts = "string \<Rightarrow> 's \<Rightarrow> string + 's"

definition db_connect :: "faults \<Rightarrow> string + unit" where
  "db_connect f = (if f ''connect'' then Inl ''connect'' else if f ''ping'' then Inl ''ping'' else Inr ())"

section \<open>One script after the other\<close>

definition run_script :: "faults \<Rightarrow> 's scripts \<Rightarrow> string \<Rightarrow> 's database \<Rightarrow> (string + unit) \<times> 's database" where
  "run_script f sql name s =
     (if f (''check migration '' @ name) then (Inl (''check migration '' @ name), s)
      else if name \<in> set (md_done s) then (Inr (), s)
      else if f (''begin tx for '' @ name) then (Inl (''begin tx for '' @ name), s)
      else case sql name (md_schema s) of
        Inl e \<Rightarrow> (Inl (''apply migration '' @ name @ '': '' @ e), s)
      | Inr d \<Rightarrow>
          (if f (''record migration '' @ name) then (Inl (''record migration '' @ name), s)
           else if f (''commit migration '' @ name) then (Inl (''commit migration '' @ name), s)
           else (Inr (), s\<lparr>md_done := md_done s @ [name], md_schema := d\<rparr>)))"

fun run_scripts :: "faults \<Rightarrow> 's scripts \<Rightarrow> string list \<Rightarrow> 's database \<Rightarrow> (string + unit) \<times> 's database" where
  "run_scripts f sql [] s = (Inr (), s)"
| "run_scripts f sql (n # ns) s = (case run_script f sql n s of (Inl e, s1) \<Rightarrow> (Inl e, s1) | (Inr _, s1) \<Rightarrow> run_scripts f sql ns s1)"

definition text_before :: "string \<Rightarrow> string \<Rightarrow> bool" where
  "text_before a b \<longleftrightarrow> ord.lexordp (\<lambda>x y. byte x < byte y) a b"

definition sorted_names :: "string list \<Rightarrow> string list" where
  "sorted_names = order_by text_before"

section \<open>The feature modules\<close>

definition module_migrate :: "faults \<Rightarrow> 's scripts \<Rightarrow> string list \<Rightarrow> 's database \<Rightarrow> (string + unit) \<times> 's database" where
  "module_migrate f sql files s =
     (if f ''create schema_migrations'' then (Inl ''create schema_migrations'', s) else run_scripts f sql (sorted_names files) s)"

definition chat_files :: "string list" where
  "chat_files = [''0001_chat_tables.sql'', ''0002_custom_groups.sql'', ''0003_edit_delete.sql'', ''0004_read_state.sql'',
     ''0005_reply_and_search.sql'']"

definition wiki_files :: "string list" where "wiki_files = [''0001_wiki_tables.sql'']"
definition voip_files :: "string list" where "voip_files = [''0001_voip_tables.sql'', ''0002_voip_ivr.sql'']"

definition chat_migrate :: "faults \<Rightarrow> 's scripts \<Rightarrow> 's database \<Rightarrow> (string + unit) \<times> 's database" where
  "chat_migrate f sql = module_migrate f sql chat_files"

definition wiki_migrate :: "faults \<Rightarrow> 's scripts \<Rightarrow> 's database \<Rightarrow> (string + unit) \<times> 's database" where
  "wiki_migrate f sql = module_migrate f sql wiki_files"

definition voip_migrate :: "faults \<Rightarrow> 's scripts \<Rightarrow> 's database \<Rightarrow> (string + unit) \<times> 's database" where
  "voip_migrate f sql = module_migrate f sql voip_files"

section \<open>The core\<close>

definition core_files :: "string list" where
  "core_files = [''0001_init.sql'', ''0002_module_error.sql'', ''0003_disabled_users.sql'', ''0004_vpn_access.sql'',
     ''0005_platform_settings.sql'', ''0006_module_visibility.sql'', ''0007_backup.sql'', ''0008_restore.sql'', ''0009_wiki.sql'',
     ''0010_theme.sql'', ''0011_compute_mesh.sql'', ''0012_calendar_settings.sql'', ''0013_calendar_default_view.sql'',
     ''0014_vpn_office_network.sql'', ''0015_module_config_archive.sql'', ''0016_user_logins.sql'', ''0017_audit_log.sql'',
     ''0018_system_log.sql'', ''0019_vpn_key_expiry.sql'', ''0020_vpn_two_factor.sql'', ''0021_vpn_office_ports.sql'',
     ''0022_health_samples.sql'', ''0023_licence.sql'']"

text \<open>How many are still to run and how many have run, in one pass over the names.\<close>

fun count_scripts :: "faults \<Rightarrow> string list \<Rightarrow> 's database \<Rightarrow> string + nat \<times> nat" where
  "count_scripts f [] s = Inr (0, 0)"
| "count_scripts f (n # ns) s =
     (if f (''check migration '' @ n) then Inl (''check migration '' @ n)
      else case count_scripts f ns s of
        Inl e \<Rightarrow> Inl e
      | Inr (pending, applied) \<Rightarrow> Inr (if n \<in> set (md_done s) then (pending, applied + 1) else (pending + 1, applied)))"

text \<open>The version that cannot be read counts as the empty one.\<close>

definition schema_version :: "faults \<Rightarrow> 's database \<Rightarrow> string" where
  "schema_version f s = (if f ''read schema version'' then [] else case md_version s of None \<Rightarrow> [] | Some v \<Rightarrow> v)"

definition safety_snapshot :: "faults \<Rightarrow> nat \<Rightarrow> nat \<times> nat \<Rightarrow> 's database \<Rightarrow> (string + unit) \<times> 's database" where
  "safety_snapshot f now counts s =
     (if 0 < fst counts \<and> 0 < snd counts then
        (case db_snapshot f now ''before-upgrade'' (md_dumps s) of
           (Inl e, ds) \<Rightarrow> (Inl (''not upgrading the database: '' @ e), s\<lparr>md_dumps := ds\<rparr>)
         | (Inr _, ds) \<Rightarrow> (Inr (), s\<lparr>md_dumps := ds\<rparr>))
      else (Inr (), s))"

definition record_version :: "faults \<Rightarrow> string \<Rightarrow> 's database \<Rightarrow> (string + unit) \<times> 's database" where
  "record_version f v s =
     (if f ''record schema version'' then (Inl ''record schema version'', s) else (Inr (), s\<lparr>md_version := Some v\<rparr>))"

definition migrate_files :: "faults \<Rightarrow> nat \<Rightarrow> 's scripts \<Rightarrow> string list \<Rightarrow> 's database \<Rightarrow> (string + unit) \<times> 's database" where
  "migrate_files f now sql files s =
     (if f ''create schema_migrations'' then (Inl ''create schema_migrations'', s)
      else let names = sorted_names files in
        if names = [] then (Inr (), s)
        else if f ''create core_schema_version'' then (Inl ''create core_schema_version'', s)
        else if text_before (last names) (schema_version f s)
        then (Inl ''this database was upgraded by a newer version of the platform'', s)
        else case count_scripts f names s of
          Inl e \<Rightarrow> (Inl e, s)
        | Inr counts \<Rightarrow>
            and_then (safety_snapshot f now counts s) (\<lambda>_ s1.
            and_then (run_scripts f sql names s1) (\<lambda>_ s2. record_version f (last names) s2)))"

definition core_migrate :: "faults \<Rightarrow> nat \<Rightarrow> 's scripts \<Rightarrow> 's database \<Rightarrow> (string + unit) \<times> 's database" where
  "core_migrate f now sql = migrate_files f now sql core_files"

section \<open>What a run may do\<close>

fun replay :: "'s scripts \<Rightarrow> string list \<Rightarrow> 's \<Rightarrow> 's option" where
  "replay sql [] d = Some d"
| "replay sql (n # ns) d = (case sql n d of Inl _ \<Rightarrow> None | Inr d' \<Rightarrow> replay sql ns d')"

lemma replay_append: "replay sql (xs @ ys) d = (case replay sql xs d of None \<Rightarrow> None | Some d' \<Rightarrow> replay sql ys d')"
  by (induction xs arbitrary: d) (auto split: sum.splits)

definition history_ok :: "'s scripts \<Rightarrow> 's \<Rightarrow> 's database \<Rightarrow> bool" where
  "history_ok sql d0 s \<longleftrightarrow> distinct (md_done s) \<and> replay sql (md_done s) d0 = Some (md_schema s)"

text \<open>The scripts of one list that ran are a beginning of that list.\<close>

definition in_order :: "string list \<Rightarrow> 's database \<Rightarrow> bool" where
  "in_order names s \<longleftrightarrow> prefix (filter (\<lambda>n. n \<in> set names) (md_done s)) names"

text \<open>
  The contract of a component that keeps its part of the database up to date with the scripts \<open>names\<close>: a run adds scripts
  of its own that have not run yet, each of which did its work, and after a success all of them have run.
\<close>

locale migrator =
  fixes sql :: "'s scripts" and names :: "string list"
    and run :: "faults \<Rightarrow> 's database \<Rightarrow> (string + unit) \<times> 's database"
  assumes extends: "run f s = (r, t) \<Longrightarrow> \<exists>new. md_done t = md_done s @ new \<and> distinct new
      \<and> set new \<subseteq> set names - set (md_done s) \<and> replay sql new (md_schema s) = Some (md_schema t)"
    and complete: "run f s = (Inr (), t) \<Longrightarrow> set names \<subseteq> set (md_done t)"
    and ordered: "run f s = (r, t) \<Longrightarrow> in_order names s \<Longrightarrow> in_order names t"
begin

lemma run_history: "history_ok sql d0 s \<Longrightarrow> history_ok sql d0 (snd (run f s))"
  using extends [of f s "fst (run f s)" "snd (run f s)"] by (auto simp: history_ok_def replay_append)

lemma run_other_order:
  assumes "set names \<inter> set others = {}" "in_order others s"
  shows "in_order others (snd (run f s))"
proof -
  obtain new where n: "md_done (snd (run f s)) = md_done s @ new" "set new \<subseteq> set names"
    using extends [of f s "fst (run f s)" "snd (run f s)"] by auto
  have "filter (\<lambda>x. x \<in> set others) new = []" using n(2) assms(1) by (auto simp: filter_empty_conv)
  then show ?thesis using assms(2) n(1) by (simp add: in_order_def)
qed

lemma run_own_order: "in_order names s \<Longrightarrow> in_order names (snd (run f s))"
  using ordered [of f s "fst (run f s)" "snd (run f s)"] by simp

lemma settled:
  assumes "set names \<subseteq> set (md_done s)"
  shows "md_done (snd (run f s)) = md_done s" "md_schema (snd (run f s)) = md_schema s"
proof -
  obtain new where n: "md_done (snd (run f s)) = md_done s @ new" "set new \<subseteq> set names - set (md_done s)"
    "replay sql new (md_schema s) = Some (md_schema (snd (run f s)))"
    using extends [of f s "fst (run f s)" "snd (run f s)"] by auto
  have "x \<notin> set new" for x using n(2) assms by blast
  then have "new = []" by (cases new) auto
  then show "md_done (snd (run f s)) = md_done s" "md_schema (snd (run f s)) = md_schema s" using n by simp_all
qed

lemma grows: "set (md_done s) \<subseteq> set (md_done (snd (run f s)))"
  using extends [of f s "fst (run f s)" "snd (run f s)"] by auto

end

section \<open>The loop keeps the contract\<close>

lemma run_script_cases:
  assumes "run_script f sql n s = (r, t)"
  shows "t = s \<and> (r = Inr () \<longrightarrow> n \<in> set (md_done s))
    \<or> (\<exists>d. r = Inr () \<and> n \<notin> set (md_done s) \<and> sql n (md_schema s) = Inr d \<and> t = s\<lparr>md_done := md_done s @ [n], md_schema := d\<rparr>)"
  using assms by (auto simp: run_script_def split: if_splits sum.splits)

lemma run_scripts_extends:
  assumes "run_scripts f sql ns s = (r, t)"
  shows "\<exists>new. md_done t = md_done s @ new \<and> distinct new \<and> set new \<subseteq> set ns - set (md_done s)
    \<and> replay sql new (md_schema s) = Some (md_schema t)"
  using assms
proof (induction ns arbitrary: s)
  case (Cons n ns)
  obtain r1 s1 where one: "run_script f sql n s = (r1, s1)" by fastforce
  show ?case
  proof (cases r1)
    case (Inl e)
    then have "t = s" using Cons.prems one run_script_cases [OF one] by auto
    then show ?thesis by auto
  next
    case (Inr u)
    then have "run_scripts f sql ns s1 = (r, t)" using Cons.prems one by simp
    from Cons.IH [OF this] obtain new where new: "md_done t = md_done s1 @ new" "distinct new" "set new \<subseteq> set ns - set (md_done s1)"
      "replay sql new (md_schema s1) = Some (md_schema t)" by blast
    from run_script_cases [OF one] show ?thesis
    proof
      assume "s1 = s \<and> (r1 = Inr () \<longrightarrow> n \<in> set (md_done s))"
      then show ?thesis using new by auto
    next
      assume "\<exists>d. r1 = Inr () \<and> n \<notin> set (md_done s) \<and> sql n (md_schema s) = Inr d
        \<and> s1 = s\<lparr>md_done := md_done s @ [n], md_schema := d\<rparr>"
      then show ?thesis using new by (intro exI [of _ "n # new"]) auto
    qed
  qed
qed simp

lemma run_scripts_complete:
  assumes "run_scripts f sql ns s = (Inr (), t)"
  shows "set ns \<subseteq> set (md_done t)"
  using assms
proof (induction ns arbitrary: s)
  case (Cons n ns)
  obtain r1 s1 where one: "run_script f sql n s = (r1, s1)" by fastforce
  then have rest: "run_scripts f sql ns s1 = (Inr (), t)" and "r1 = Inr ()" using Cons.prems by (cases r1; auto)+
  then have "n \<in> set (md_done s1)" using run_script_cases [OF one] by auto
  then show ?case using Cons.IH [OF rest] run_scripts_extends [OF rest] by auto
qed simp

lemma run_scripts_order:
  assumes "run_scripts f sql ns s = (r, t)" "distinct (pre @ ns)" "filter (\<lambda>n. n \<in> set (pre @ ns)) (md_done s) = pre @ took" "prefix took ns"
  shows "in_order (pre @ ns) t"
  using assms
proof (induction ns arbitrary: s pre took)
  case Nil
  then show ?case by (simp add: in_order_def)
next
  case (Cons n ns)
  obtain r1 s1 where one: "run_script f sql n s = (r1, s1)" by fastforce
  have stay: "in_order (pre @ n # ns) s" using Cons.prems(3,4) by (simp add: in_order_def)
  show ?case
  proof (cases r1)
    case (Inl e)
    then have "t = s" using Cons.prems(1) one run_script_cases [OF one] by auto
    then show ?thesis using stay by simp
  next
    case (Inr u)
    then have rest: "run_scripts f sql ns s1 = (r, t)" using Cons.prems(1) one by simp
    have d: "distinct ((pre @ [n]) @ ns)" using Cons.prems(2) by simp
    have e: "(pre @ [n]) @ ns = pre @ n # ns" by simp
    have "\<exists>took'. filter (\<lambda>x. x \<in> set ((pre @ [n]) @ ns)) (md_done s1) = (pre @ [n]) @ took' \<and> prefix took' ns"
    proof (cases took)
      case Nil
      then have "n \<notin> set (md_done s)" using Cons.prems(2,3) by (auto simp: filter_eq_Cons_iff dest!: arg_cong [where f = set])
      then have "md_done s1 = md_done s @ [n]" using run_script_cases [OF one] Inr by auto
      then show ?thesis using Cons.prems(3) Nil by simp
    next
      case (Cons x xs)
      then have x: "x = n" "prefix xs ns" using Cons.prems(4) by simp_all
      have "n \<in> set (filter (\<lambda>y. y \<in> set (pre @ n # ns)) (md_done s))" using Cons.prems(3) Cons x by simp
      then have "s1 = s" using run_script_cases [OF one] by auto
      then show ?thesis using Cons.prems(3) Cons x by simp
    qed
    then obtain took' where "filter (\<lambda>x. x \<in> set ((pre @ [n]) @ ns)) (md_done s1) = (pre @ [n]) @ took'" "prefix took' ns" by blast
    from Cons.IH [OF rest d this] show ?thesis unfolding e .
  qed
qed

lemma run_scripts_in_order:
  assumes "run_scripts f sql ns s = (r, t)" "distinct ns" "in_order ns s"
  shows "in_order ns t"
  using run_scripts_order [of f sql ns s r t "[]"] assms by (simp add: in_order_def)

lemma same_order: "md_done t = md_done s \<Longrightarrow> in_order ns t = in_order ns s"
  by (simp add: in_order_def)

lemma names_distinct: "distinct files \<Longrightarrow> distinct (sorted_names files)"
  by (simp add: sorted_names_def)

lemma module_migrator:
  assumes "distinct files"
  shows "migrator sql (sorted_names files) (\<lambda>f. module_migrate f sql files)"
proof
  fix f :: faults and s t :: "'a database" and r
  assume run: "module_migrate f sql files s = (r, t)"
  consider "t = s" "r \<noteq> Inr ()" | "run_scripts f sql (sorted_names files) s = (r, t)"
    using run by (auto simp: module_migrate_def split: if_splits)
  note cases = this
  show "\<exists>new. md_done t = md_done s @ new \<and> distinct new \<and> set new \<subseteq> set (sorted_names files) - set (md_done s)
      \<and> replay sql new (md_schema s) = Some (md_schema t)"
    using run_scripts_extends by (cases rule: cases) auto
  show "in_order (sorted_names files) s \<Longrightarrow> in_order (sorted_names files) t"
    using run_scripts_in_order [OF _ names_distinct [OF assms]] by (cases rule: cases) auto
next
  fix f :: faults and s t :: "'a database"
  assume "module_migrate f sql files s = (Inr (), t)"
  then show "set (sorted_names files) \<subseteq> set (md_done t)"
    using run_scripts_complete [of f sql "sorted_names files" s t] by (simp add: module_migrate_def split: if_splits)
qed

lemma safety_snapshot_keeps:
  "md_done (snd (safety_snapshot f now c s)) = md_done s" "md_schema (snd (safety_snapshot f now c s)) = md_schema s"
  "md_version (snd (safety_snapshot f now c s)) = md_version s"
  by (simp_all add: safety_snapshot_def split: prod.splits sum.splits)

lemma record_version_keeps:
  "md_done (snd (record_version f v s)) = md_done s" "md_schema (snd (record_version f v s)) = md_schema s"
  by (simp_all add: record_version_def)

text \<open>A run of the core either leaves scripts and schema alone and fails, or is a run of the loop.\<close>

lemma migrate_files_cases:
  assumes "migrate_files f now sql files s = (r, t)"
  shows "md_done t = md_done s \<and> md_schema t = md_schema s \<and> (r = Inr () \<longrightarrow> sorted_names files = [])
    \<or> (\<exists>s1 s2 r2. md_done s1 = md_done s \<and> md_schema s1 = md_schema s \<and> run_scripts f sql (sorted_names files) s1 = (r2, s2)
        \<and> md_done t = md_done s2 \<and> md_schema t = md_schema s2 \<and> (r = Inr () \<longrightarrow> r2 = Inr ()))"
proof -
  let ?names = "sorted_names files"
  show ?thesis
  proof (cases "\<exists>c. count_scripts f ?names s = Inr c \<and> \<not> f ''create schema_migrations'' \<and> ?names \<noteq> []
      \<and> \<not> f ''create core_schema_version'' \<and> \<not> text_before (last ?names) (schema_version f s)")
    case False
    then show ?thesis using assms by (auto simp: migrate_files_def Let_def split: if_splits sum.splits)
  next
    case True
    then obtain c where c: "count_scripts f ?names s = Inr c" by blast
    obtain r1 s1 where sn: "safety_snapshot f now c s = (r1, s1)" by fastforce
    have keeps: "md_done s1 = md_done s" "md_schema s1 = md_schema s" using safety_snapshot_keeps [of f now c s] sn by simp_all
    obtain r2 s2 where rs: "run_scripts f sql ?names s1 = (r2, s2)" by fastforce
    have "and_then (r1, s1) (\<lambda>_ s1. and_then (run_scripts f sql ?names s1) (\<lambda>_ s2. record_version f (last ?names) s2)) = (r, t)"
      using assms True c sn by (simp add: migrate_files_def Let_def)
    then show ?thesis using keeps rs record_version_keeps [of f "last ?names" s2]
      by (cases r1; cases r2) auto
  qed
qed

lemma core_migrator:
  assumes "distinct files"
  shows "migrator sql (sorted_names files) (\<lambda>f. migrate_files f now sql files)"
proof
  fix f :: faults and s t :: "'a database" and r
  assume run: "migrate_files f now sql files s = (r, t)"
  note cases = migrate_files_cases [OF run]
  show "\<exists>new. md_done t = md_done s @ new \<and> distinct new \<and> set new \<subseteq> set (sorted_names files) - set (md_done s)
      \<and> replay sql new (md_schema s) = Some (md_schema t)"
    using cases
  proof
    assume "\<exists>s1 s2 r2. md_done s1 = md_done s \<and> md_schema s1 = md_schema s \<and> run_scripts f sql (sorted_names files) s1 = (r2, s2)
        \<and> md_done t = md_done s2 \<and> md_schema t = md_schema s2 \<and> (r = Inr () \<longrightarrow> r2 = Inr ())"
    then obtain s1 s2 r2 where x: "md_done s1 = md_done s" "md_schema s1 = md_schema s"
        "run_scripts f sql (sorted_names files) s1 = (r2, s2)" "md_done t = md_done s2" "md_schema t = md_schema s2" by blast
    show ?thesis using run_scripts_extends [OF x(3)] unfolding x(1,2,4,5) .
  qed auto
  show "in_order (sorted_names files) s \<Longrightarrow> in_order (sorted_names files) t"
    using cases
  proof
    assume o: "in_order (sorted_names files) s" and "\<exists>s1 s2 r2. md_done s1 = md_done s \<and> md_schema s1 = md_schema s
        \<and> run_scripts f sql (sorted_names files) s1 = (r2, s2)
        \<and> md_done t = md_done s2 \<and> md_schema t = md_schema s2 \<and> (r = Inr () \<longrightarrow> r2 = Inr ())"
    then obtain s1 s2 r2 where x: "md_done s1 = md_done s" "run_scripts f sql (sorted_names files) s1 = (r2, s2)" "md_done t = md_done s2"
      by blast
    have "in_order (sorted_names files) s2"
      by (rule run_scripts_in_order [OF x(2)]) (use names_distinct [OF assms] o same_order [OF x(1)] in simp_all)
    then show ?thesis using same_order [OF x(3)] by simp
  qed (use same_order [of t s] in auto)
next
  fix f :: faults and s t :: "'a database"
  assume run: "migrate_files f now sql files s = (Inr (), t)"
  show "set (sorted_names files) \<subseteq> set (md_done t)"
  proof (cases "sorted_names files = []")
    case False
    then obtain s1 s2 where x: "run_scripts f sql (sorted_names files) s1 = (Inr (), s2)" "md_done t = md_done s2"
      using migrate_files_cases [OF run] by auto
    show ?thesis using run_scripts_complete [OF x(1)] unfolding x(2) .
  qed simp
qed

lemma files_distinct: "distinct core_files" "distinct chat_files" "distinct wiki_files" "distinct voip_files"
  by (simp_all add: core_files_def chat_files_def wiki_files_def voip_files_def)

interpretation core_updates: migrator sql "sorted_names core_files" "\<lambda>f. core_migrate f now sql" for sql now
  unfolding core_migrate_def by (rule core_migrator) (rule files_distinct)

interpretation chat_updates: migrator sql "sorted_names chat_files" "\<lambda>f. chat_migrate f sql" for sql
  unfolding chat_migrate_def by (rule module_migrator) (rule files_distinct)

interpretation wiki_updates: migrator sql "sorted_names wiki_files" "\<lambda>f. wiki_migrate f sql" for sql
  unfolding wiki_migrate_def by (rule module_migrator) (rule files_distinct)

interpretation voip_updates: migrator sql "sorted_names voip_files" "\<lambda>f. voip_migrate f sql" for sql
  unfolding voip_migrate_def by (rule module_migrator) (rule files_distinct)

section \<open>Starts of the platform\<close>

text \<open>The core and the modules start and stop as they like; every start brings its own part up to date, or fails.\<close>

datatype start = Core_start nat | Chat_start | Wiki_start | Voip_start

fun start_component :: "faults \<Rightarrow> 's scripts \<Rightarrow> start \<Rightarrow> 's database \<Rightarrow> (string + unit) \<times> 's database" where
  "start_component f sql (Core_start now) = core_migrate f now sql"
| "start_component f sql Chat_start = chat_migrate f sql"
| "start_component f sql Wiki_start = wiki_migrate f sql"
| "start_component f sql Voip_start = voip_migrate f sql"

definition starts :: "'s scripts \<Rightarrow> (faults \<times> start) list \<Rightarrow> 's database \<Rightarrow> 's database" where
  "starts sql xs s = fold (\<lambda>(f, c) s. snd (start_component f sql c s)) xs s"

definition new_database :: "'s \<Rightarrow> 's database" where
  "new_database d0 = \<lparr>md_done = [], md_version = None, md_schema = d0, md_dumps = []\<rparr>"

definition migrations_ok :: "'s scripts \<Rightarrow> 's \<Rightarrow> 's database \<Rightarrow> bool" where
  "migrations_ok sql d0 s \<longleftrightarrow> history_ok sql d0 s \<and> in_order (sorted_names core_files) s \<and> in_order (sorted_names chat_files) s
     \<and> in_order (sorted_names wiki_files) s \<and> in_order (sorted_names voip_files) s"

lemma set_sorted_names [simp]: "set (sorted_names xs) = set xs"
  by (simp add: sorted_names_def)

lemma files_disjoint:
  "set core_files \<inter> set chat_files = {}" "set core_files \<inter> set wiki_files = {}" "set core_files \<inter> set voip_files = {}"
  "set chat_files \<inter> set wiki_files = {}" "set chat_files \<inter> set voip_files = {}" "set wiki_files \<inter> set voip_files = {}"
  by (simp_all add: core_files_def chat_files_def wiki_files_def voip_files_def)

lemmas run_orders = core_updates.run_other_order chat_updates.run_other_order wiki_updates.run_other_order voip_updates.run_other_order
  core_updates.run_own_order chat_updates.run_own_order wiki_updates.run_own_order voip_updates.run_own_order

lemmas run_histories = core_updates.run_history chat_updates.run_history wiki_updates.run_history voip_updates.run_history

lemma start_ok: "migrations_ok sql d0 s \<Longrightarrow> migrations_ok sql d0 (snd (start_component f sql c s))"
  unfolding migrations_ok_def using files_disjoint
  by (cases c) (simp_all add: run_orders run_histories Int_commute)

lemma starts_ok: "migrations_ok sql d0 s \<Longrightarrow> migrations_ok sql d0 (starts sql xs s)"
  unfolding starts_def by (induction xs arbitrary: s) (auto simp: start_ok)

lemma new_ok: "migrations_ok sql d0 (new_database d0)"
  by (simp add: migrations_ok_def history_ok_def in_order_def new_database_def)

text \<open>C22: However often the core and the feature modules are started, in any order, and wherever each start fails, the
  database is what its own record says: no script ran twice, what it holds is the result of the recorded scripts in the
  recorded order, and the scripts of each component that ran are the first ones of its list.\<close>

theorem schema_is_its_history:
  "let s = starts sql xs (new_database d0) in
     distinct (md_done s) \<and> replay sql (md_done s) d0 = Some (md_schema s)
     \<and> in_order (sorted_names core_files) s \<and> in_order (sorted_names chat_files) s
     \<and> in_order (sorted_names wiki_files) s \<and> in_order (sorted_names voip_files) s"
proof -
  have "migrations_ok sql d0 (starts sql xs (new_database d0))" by (intro starts_ok new_ok)
  then show ?thesis by (simp add: migrations_ok_def history_ok_def Let_def)
qed

section \<open>Upgrades\<close>

definition files_of :: "start \<Rightarrow> string list" where
  "files_of c = (case c of Core_start _ \<Rightarrow> core_files | Chat_start \<Rightarrow> chat_files | Wiki_start \<Rightarrow> wiki_files | Voip_start \<Rightarrow> voip_files)"

text \<open>A start that succeeded leaves nothing to do: every script of the component ran, and no later start of it, failing
  or not, changes what the database holds.\<close>

theorem start_settles:
  assumes "start_component f sql c s = (Inr (), t)"
  shows "set (files_of c) \<subseteq> set (md_done t) \<and> md_schema (snd (start_component f' sql c t)) = md_schema t
    \<and> md_done (snd (start_component f' sql c t)) = md_done t"
proof (cases c)
  case (Core_start now)
  with assms have "core_migrate f now sql s = (Inr (), t)" by simp
  from core_updates.complete [OF this] have all: "set (sorted_names core_files) \<subseteq> set (md_done t)" .
  show ?thesis using Core_start core_updates.settled [OF all] all by (simp add: files_of_def)
next
  case Chat_start
  with assms have "chat_migrate f sql s = (Inr (), t)" by simp
  from chat_updates.complete [OF this] have all: "set (sorted_names chat_files) \<subseteq> set (md_done t)" .
  show ?thesis using Chat_start chat_updates.settled [OF all] all by (simp add: files_of_def)
next
  case Wiki_start
  with assms have "wiki_migrate f sql s = (Inr (), t)" by simp
  from wiki_updates.complete [OF this] have all: "set (sorted_names wiki_files) \<subseteq> set (md_done t)" .
  show ?thesis using Wiki_start wiki_updates.settled [OF all] all by (simp add: files_of_def)
next
  case Voip_start
  with assms have "voip_migrate f sql s = (Inr (), t)" by simp
  from voip_updates.complete [OF this] have all: "set (sorted_names voip_files) \<subseteq> set (md_done t)" .
  show ?thesis using Voip_start voip_updates.settled [OF all] all by (simp add: files_of_def)
qed

lemma run_scripts_dumps: "md_dumps (snd (run_scripts f sql ns s)) = md_dumps s"
proof (induction ns arbitrary: s)
  case (Cons n ns)
  obtain r1 s1 where one: "run_script f sql n s = (r1, s1)" by fastforce
  then have "md_dumps s1 = md_dumps s" using run_script_cases [OF one] by auto
  then show ?case using Cons.IH [of s1] one by (cases r1) simp_all
qed simp

lemma counted:
  assumes "count_scripts f ns s = Inr (p, a)"
  shows "p = length (filter (\<lambda>n. n \<notin> set (md_done s)) ns)" "a = length (filter (\<lambda>n. n \<in> set (md_done s)) ns)"
  using assms by (induction ns arbitrary: p a) (fastforce split: if_splits sum.splits)+

text \<open>The core changes an existing database only from a safety copy, and never one that a newer version wrote: if a start
  of the core ran any script although scripts of the core had run before, then a dump named after this upgrade was
  written first, and the version recorded before was not newer than this one.\<close>

theorem upgrade_from_snapshot:
  assumes "core_migrate f now sql s = (r, t)" "md_done t \<noteq> md_done s"
    and "set core_files \<inter> set (md_done s) \<noteq> {}" "\<not> f ''read schema version''" "md_version s = Some v"
  shows "\<exists>ds. db_snapshot f now ''before-upgrade'' (md_dumps s) = (Inr (file_stamp now @ ''-before-upgrade.dump''), ds) \<and> md_dumps t = ds
    \<and> \<not> text_before (last (sorted_names core_files)) v"
proof -
  let ?names = "sorted_names core_files"
  have open': "?names \<noteq> []" "\<not> text_before (last ?names) (schema_version f s)" "\<exists>c. count_scripts f ?names s = Inr c"
    "\<not> f ''create schema_migrations''" "\<not> f ''create core_schema_version''"
    using assms(1,2) by (auto simp: core_migrate_def migrate_files_def Let_def split: if_splits sum.splits)
  then obtain p a where c: "count_scripts f ?names s = Inr (p, a)" by auto
  obtain r1 s1 where sn: "safety_snapshot f now (p, a) s = (r1, s1)" by fastforce
  have keeps: "md_done s1 = md_done s" using safety_snapshot_keeps(1) [of f now "(p, a)" s] sn by simp
  obtain r2 s2 where rs: "run_scripts f sql ?names s1 = (r2, s2)" by fastforce
  have run: "and_then (r1, s1) (\<lambda>_ s1. and_then (run_scripts f sql ?names s1) (\<lambda>_ s2. record_version f (last ?names) s2)) = (r, t)"
    using assms(1) open' c sn by (simp add: core_migrate_def migrate_files_def Let_def)
  then have r1: "r1 = Inr ()" using assms(2) keeps by (cases r1) auto
  have fin: "md_done t = md_done s2" "md_dumps t = md_dumps s2"
    using run r1 rs record_version_keeps [of f "last ?names" s2] by (cases r2; auto simp: record_version_def split: if_splits)+
  obtain new where new: "md_done s2 = md_done s1 @ new" "set new \<subseteq> set ?names - set (md_done s1)"
    using run_scripts_extends [OF rs] by blast
  have "new \<noteq> []" using assms(2) fin(1) new(1) keeps by auto
  then obtain n where "n \<in> set core_files" "n \<notin> set (md_done s)" using new(2) keeps by (cases new) auto
  then have "filter (\<lambda>n. n \<notin> set (md_done s)) ?names \<noteq> []" by (auto simp: filter_empty_conv)
  then have p: "0 < p" using counted(1) [OF c] by simp
  obtain m where "m \<in> set core_files" "m \<in> set (md_done s)" using assms(3) by blast
  then have "filter (\<lambda>n. n \<in> set (md_done s)) ?names \<noteq> []" by (auto simp: filter_empty_conv)
  then have a: "0 < a" using counted(2) [OF c] by simp
  have snap: "fst (db_snapshot f now ''before-upgrade'' (md_dumps s)) = Inr (file_stamp now @ ''-before-upgrade.dump'')"
    "md_dumps s1 = snd (db_snapshot f now ''before-upgrade'' (md_dumps s))"
    using sn r1 p a by (auto simp: safety_snapshot_def db_snapshot_def Let_def split: if_splits)
  have "\<not> text_before (last ?names) v" using open'(2) assms(4,5) by (simp add: schema_version_def)
  then show ?thesis using snap fin(2) run_scripts_dumps [of f sql ?names s1] rs by (metis prod.collapse snd_conv)
qed

section \<open>A small database\<close>

definition log_scripts :: "string list scripts" where "log_scripts n d = Inr (d @ [n])"

text \<open>A database the version before wrote.\<close>

definition older_database :: "string list database" where
  "older_database = \<lparr>md_done = butlast core_files @ wiki_files, md_version = Some ''0022_health_samples.sql'', md_schema = [], md_dumps = []\<rparr>"

lemma core_sorted: "sorted_names core_files = core_files"
  by code_simp

definition upgraded :: "(string + unit) \<times> string list database" where
  "upgraded = core_migrate no_faults 0 log_scripts older_database"

lemma run_scripts_skip: "set ns \<subseteq> set (md_done s) \<Longrightarrow> run_scripts no_faults sql ns s = (Inr (), s)"
  by (induction ns) (simp_all add: run_script_def)

lemma run_scripts_append:
  "run_scripts f sql (xs @ ys) s = (case run_scripts f sql xs s of (Inl e, t) \<Rightarrow> (Inl e, t) | (Inr _, t) \<Rightarrow> run_scripts f sql ys t)"
  by (induction xs arbitrary: s) (auto split: sum.splits prod.splits)

lemma count_no_faults: "\<exists>c. count_scripts no_faults ns s = Inr c"
  by (induction ns) (auto split: prod.splits)

lemma core_split: "core_files = butlast core_files @ [''0023_licence.sql'']"
  by (simp add: core_files_def)

lemma upgraded_runs: "fst upgraded = Inr ()" "md_done (snd upgraded) \<noteq> md_done older_database" "md_schema (snd upgraded) = [''0023_licence.sql'']"
proof -
  let ?t = "\<lambda>s. s\<lparr>md_done := md_done s @ [''0023_licence.sql''], md_schema := md_schema s @ [''0023_licence.sql'']\<rparr>"
  obtain c where c: "count_scripts no_faults core_files older_database = Inr c" using count_no_faults by blast
  obtain s1 where s1: "safety_snapshot no_faults 0 c older_database = (Inr (), s1)"
    by (cases "0 < fst c \<and> 0 < snd c") (simp_all add: safety_snapshot_def db_snapshot_def Let_def)
  have keeps: "md_done s1 = md_done older_database" "md_schema s1 = []"
    using safety_snapshot_keeps [of no_faults 0 c older_database] s1 by (simp_all add: older_database_def)
  have "''0023_licence.sql'' \<notin> set (md_done s1)" unfolding keeps by (simp add: older_database_def core_files_def wiki_files_def)
  moreover have "set (butlast core_files) \<subseteq> set (md_done s1)" unfolding keeps by (simp add: older_database_def)
  ultimately have run: "run_scripts no_faults log_scripts core_files s1 = (Inr (), ?t s1)"
    by (subst core_split) (simp add: run_scripts_append run_scripts_skip run_script_def log_scripts_def)
  have "schema_version no_faults older_database = ''0022_health_samples.sql''" by (simp add: schema_version_def older_database_def)
  moreover have "\<not> text_before ''0023_licence.sql'' ''0022_health_samples.sql''" by code_simp
  moreover have "last core_files = ''0023_licence.sql''" "core_files \<noteq> []" by (subst core_split, simp) (simp add: core_files_def)
  ultimately have "upgraded = (Inr (), (?t s1)\<lparr>md_version := Some ''0023_licence.sql''\<rparr>)"
    by (simp add: upgraded_def core_migrate_def migrate_files_def core_sorted Let_def c s1 run record_version_def)
  note u = this
  show "fst upgraded = Inr ()" "md_done (snd upgraded) \<noteq> md_done older_database" "md_schema (snd upgraded) = [''0023_licence.sql'']"
    unfolding u by (simp_all add: keeps)
qed

theorem upgrade_from_snapshot_witness:
  "md_schema (snd upgraded) = [''0023_licence.sql''] \<and> \<not> text_before (last (sorted_names core_files)) ''0022_health_samples.sql''"
proof
  have "core_migrate no_faults 0 log_scripts older_database = (fst upgraded, snd upgraded)" by (simp add: upgraded_def)
  from upgrade_from_snapshot [OF this upgraded_runs(2)]
  have "set core_files \<inter> set (md_done older_database) \<noteq> {} \<Longrightarrow> md_version older_database = Some ''0022_health_samples.sql''
      \<Longrightarrow> \<not> text_before (last (sorted_names core_files)) ''0022_health_samples.sql''" by auto
  then show "\<not> text_before (last (sorted_names core_files)) ''0022_health_samples.sql''"
    by (simp add: older_database_def core_files_def)
qed (rule upgraded_runs(3))

theorem start_settles_witness:
  "md_schema (snd (start_component (\<lambda>_. True) log_scripts (Core_start 9) (snd upgraded))) = [''0023_licence.sql'']"
proof -
  have "start_component no_faults log_scripts (Core_start 0) older_database = (Inr (), snd upgraded)"
    using upgraded_runs(1) by (simp add: upgraded_def prod_eq_iff)
  from start_settles [OF this, of "\<lambda>_. True"] show ?thesis using upgraded_runs(3) by (simp add: core_migrate_def migrate_files_def)
qed

end
