(* ===== verification/LogApi.thy ===== *)
theory LogApi
  imports Login
begin

text \<open>
  The two logs of the administrator's panel.  The system log (\<open>backend/internal/syslog/syslog.go\<close>) with its pages
  (\<open>backend/internal/api/systemlog.go\<close>), the pages of the audit log and the middleware that writes it
  (\<open>backend/internal/api/audit.go\<close>), and what they use of Go's \<open>encoding/csv\<close> and \<open>net/http\<close>.  The order the
  database sorts text in is a parameter.
\<close>

section \<open>Dates of a filter\<close>

text \<open>\<open>time.Parse("2006-01-02", v)\<close>: year, month and day.\<close>

definition parse_date :: "string \<Rightarrow> (nat \<times> nat \<times> nat) option" where
  "parse_date v =
     (let ds = take 4 v @ take 2 (drop 5 v) @ drop 8 v;
          y = digits_val 0 (take 4 v); m = digits_val 0 (take 2 (drop 5 v)); d = digits_val 0 (drop 8 v) in
      if length v = 10 \<and> list_all is_digit ds \<and> v ! 4 = CHR ''-'' \<and> v ! 7 = CHR ''-''
         \<and> 1 \<le> m \<and> m \<le> 12 \<and> 1 \<le> d \<and> d \<le> month_days y ! (m - 1)
      then Some (y, m, d) else None)"

text \<open>
  Midnight of a date, counted as the logs count time.  They hold nothing older than 1970, so that a comparison with
  an earlier date is one with 0.
\<close>

definition date_day :: "nat \<times> nat \<times> nat \<Rightarrow> nat" where
  "date_day ymd = (case ymd of (y, m, d) \<Rightarrow>
     sum_list (map year_days [1970..<y]) + days_before_month y m + (d - 1))"

definition from_instant :: "nat \<times> nat \<times> nat \<Rightarrow> nat option" where
  "from_instant ymd =
     (if ymd = (1, 1, 1) then None
      else if fst ymd < 1970 then Some 0 else Some (date_day ymd * us_per_day))"

definition to_instant :: "nat \<times> nat \<times> nat \<Rightarrow> nat option" where
  "to_instant ymd =
     (if ymd = (0, 12, 31) then None
      else if fst ymd < 1970 then Some 0 else Some ((date_day ymd + 1) * us_per_day))"

text \<open>The two dates of a request; the first one is read, and refused, first.\<close>

definition date_range :: "string \<Rightarrow> string \<Rightarrow> (nat option \<times> nat option) result" where
  "date_range from_s to_s =
     (case (if from_s = [] then Inr None
            else case parse_date from_s of
              None \<Rightarrow> Inl (HTTP 400 ''from must be a date like 2026-10-23'')
            | Some ymd \<Rightarrow> Inr (from_instant ymd)) of
        Inl e \<Rightarrow> Inl e
      | Inr f \<Rightarrow>
          if to_s = [] then Inr (f, None)
          else (case parse_date to_s of
                  None \<Rightarrow> Inl (HTTP 400 ''to must be a date like 2026-10-23'')
                | Some ymd \<Rightarrow> Inr (f, to_instant ymd)))"

section \<open>Comma separated values\<close>

definition field_needs_quotes :: "string \<Rightarrow> bool" where
  "field_needs_quotes s =
     (if s = [] then False
      else if s = [CHR 0x5C, CHR ''.''] then True
      else if list_ex (\<lambda>c. c \<in> {CHR 0x0A, CHR 0x0D, CHR 0x22, CHR '',''}) s then True
      else space_rune (fst (decode_rune s)))"

fun double_quotes :: "string \<Rightarrow> string" where
  "double_quotes [] = []"
| "double_quotes (c # cs) = (if c = CHR 0x22 then [c, c] else [c]) @ double_quotes cs"

definition csv_field :: "string \<Rightarrow> string" where
  "csv_field s = (if field_needs_quotes s then [CHR 0x22] @ double_quotes s @ [CHR 0x22] else s)"

definition csv_record :: "string list \<Rightarrow> string" where
  "csv_record fs = join '','' (map csv_field fs) @ [CHR 0x0A]"

definition csv_safe :: "string \<Rightarrow> string" where
  "csv_safe v = (if v \<noteq> [] \<and> hd v \<in> set ([CHR ''='', CHR ''+'', CHR ''-'', CHR ''@'', CHR 0x09, CHR 0x0D])
                 then CHR 0x27 # v else v)"

section \<open>The system log\<close>

record sys_event =
  se_id :: int
  se_at :: nat
  se_level :: string
  se_source :: string
  se_message :: string

record sys_log =
  sl_rows :: "sys_event list"
  sl_next :: int

definition sys_retention :: nat where
  "sys_retention = 90 * 24 * 3600 * us_per_sec"

text \<open>\<open>msg\<close> is the formatted message.  A helper called before the log is set up only writes to the process log.\<close>

definition sys_write :: "faults \<Rightarrow> nat \<Rightarrow> string \<Rightarrow> string \<Rightarrow> string \<Rightarrow> sys_log option \<Rightarrow> sys_log option" where
  "sys_write f now level source msg s =
     (let m = clip msg 2000 in
      case s of
        None \<Rightarrow> None
      | Some l \<Rightarrow>
          if f ''connect'' \<or> \<not> (pg_text level \<and> pg_text source \<and> pg_text m) then Some l
          else if f ''insert'' then Some (l\<lparr>sl_next := sl_next l + 1\<rparr>)
          else Some (l\<lparr>sl_rows := sl_rows l @
                 [\<lparr>se_id = sl_next l, se_at = now, se_level = level, se_source = source, se_message = m\<rparr>],
               sl_next := sl_next l + 1\<rparr>))"

definition sys_info :: "faults \<Rightarrow> nat \<Rightarrow> string \<Rightarrow> string \<Rightarrow> sys_log option \<Rightarrow> sys_log option" where
  "sys_info f now source msg s = sys_write f now ''info'' source msg s"

definition sys_warn :: "faults \<Rightarrow> nat \<Rightarrow> string \<Rightarrow> string \<Rightarrow> sys_log option \<Rightarrow> sys_log option" where
  "sys_warn f now source msg s = sys_write f now ''warn'' source msg s"

definition sys_error :: "faults \<Rightarrow> nat \<Rightarrow> string \<Rightarrow> string \<Rightarrow> sys_log option \<Rightarrow> sys_log option" where
  "sys_error f now source msg s = sys_write f now ''error'' source msg s"

record sys_filter =
  sf_level :: string
  sf_source :: string
  sf_search :: string
  sf_from :: "nat option"
  sf_to :: "nat option"
  sf_limit :: int
  sf_offset :: int

text \<open>\<open>Filter.where\<close>: the conditions in the order they are added, joined by \<open>AND\<close>.\<close>

definition sys_where :: "sys_filter \<Rightarrow> (sys_event \<Rightarrow> bool) list" where
  "sys_where f =
     (if sf_level f = ''warn'' then [\<lambda>e. se_level e \<in> {''warn'', ''error''}]
      else if sf_level f = ''error'' then [\<lambda>e. se_level e = ''error''] else []) @
     (if sf_source f \<noteq> [] then [\<lambda>e. se_source e = sf_source f] else []) @
     (if sf_search f \<noteq> [] then [\<lambda>e. ilike_sub (sf_search f) (se_message e)] else []) @
     (case sf_from f of None \<Rightarrow> [] | Some t \<Rightarrow> [\<lambda>e. t \<le> se_at e]) @
     (case sf_to f of None \<Rightarrow> [] | Some t \<Rightarrow> [\<lambda>e. se_at e < t])"

definition sys_matches :: "sys_filter \<Rightarrow> sys_event \<Rightarrow> bool" where
  "sys_matches f e = list_all (\<lambda>c. c e) (sys_where f)"

text \<open>The database refuses a search text that is not valid text.\<close>

definition sys_args_ok :: "sys_filter \<Rightarrow> bool" where
  "sys_args_ok f \<longleftrightarrow> pg_text (sf_source f) \<and> pg_text (sf_search f)"

definition sys_list :: "faults \<Rightarrow> sys_log \<Rightarrow> sys_filter \<Rightarrow> string + sys_event list \<times> nat" where
  "sys_list ft s f =
     (if ft ''count'' \<or> \<not> sys_args_ok f then Inl ''count''
      else let hits = filter (sys_matches f) (sl_rows s) in
      if ft ''query'' \<or> sf_offset f < 0 then Inl ''query''
      else Inr (take (page_limit (sf_limit f)) (drop (nat (sf_offset f)) (rev hits)), length hits))"

fun sys_each_loop :: "('b \<Rightarrow> sys_event \<Rightarrow> 'b) \<Rightarrow> 'b \<Rightarrow> sys_event list \<Rightarrow> 'b" where
  "sys_each_loop fn b [] = b"
| "sys_each_loop fn b (e # es) = sys_each_loop fn (fn b e) es"

text \<open>\<open>Each\<close> with a callback that adds to \<open>b\<close>; what was added before an error stays.\<close>

definition sys_each :: "faults \<Rightarrow> sys_log \<Rightarrow> sys_filter \<Rightarrow> ('b \<Rightarrow> sys_event \<Rightarrow> 'b) \<Rightarrow> 'b \<Rightarrow> (string + unit) \<times> 'b" where
  "sys_each ft s f fn b =
     (if ft ''query'' \<or> \<not> sys_args_ok f then (Inl ''query'', b)
      else (Inr (), sys_each_loop fn b (filter (sys_matches f) (sl_rows s))))"

definition sys_sources :: "(string list \<Rightarrow> string list) \<Rightarrow> faults \<Rightarrow> sys_log \<Rightarrow> string + string list" where
  "sys_sources coll ft s =
     (if ft ''sources'' then Inl ''sources'' else Inr (coll (remdups (map se_source (sl_rows s)))))"

definition sys_prune :: "faults \<Rightarrow> nat \<Rightarrow> sys_log \<Rightarrow> (string + unit) \<times> sys_log" where
  "sys_prune f now s =
     (if f ''delete'' then (Inl ''delete'', s)
      else (Inr (), s\<lparr>sl_rows := filter (\<lambda>e. \<not> se_at e < now - sys_retention) (sl_rows s)\<rparr>))"

section \<open>The pages of the system log\<close>

record system_log_input =
  si_token :: string
  si_level :: string
  si_source :: string
  si_search :: string
  si_from :: string
  si_to :: string
  si_limit :: int
  si_offset :: int

definition system_log_filter :: "system_log_input \<Rightarrow> sys_filter result" where
  "system_log_filter i =
     (case date_range (si_from i) (si_to i) of
        Inl e \<Rightarrow> Inl e
      | Inr (a, b) \<Rightarrow> Inr \<lparr>sf_level = si_level i, sf_source = si_source i, sf_search = si_search i, sf_from = a, sf_to = b,
                         sf_limit = si_limit i, sf_offset = si_offset i\<rparr>)"

definition list_system_log ::
  "(string list \<Rightarrow> string list) \<Rightarrow> faults \<Rightarrow> faults \<Rightarrow> time \<Rightarrow> platform \<Rightarrow> sys_log \<Rightarrow> system_log_input
     \<Rightarrow> (sys_event list \<times> nat \<times> string list) result" where
  "list_system_log coll f fl now pf s i =
     (case require_auth f now (pf_admin pf) (si_token i) of
        Inl e \<Rightarrow> Inl e
      | Inr _ \<Rightarrow>
     (case system_log_filter i of
        Inl e \<Rightarrow> Inl e
      | Inr q \<Rightarrow>
     (case sys_list fl s q of
        Inl _ \<Rightarrow> Inl (internal_error ''list system log'')
      | Inr (entries, n) \<Rightarrow>
     (case sys_sources coll fl s of
        Inl _ \<Rightarrow> Inl (internal_error ''list system log sources'')
      | Inr sources \<Rightarrow> Inr (entries, n, sources)))))"

definition system_log_header :: "string list" where
  "system_log_header = [''time'', ''level'', ''source'', ''message'']"

definition system_log_row :: "sys_event \<Rightarrow> string list" where
  "system_log_row e = [rfc3339 (se_at e), se_level e, csv_safe (se_source e), csv_safe (se_message e)]"

text \<open>The download is answered before the database is asked: an error there only leaves it without rows.\<close>

definition export_system_log ::
  "faults \<Rightarrow> faults \<Rightarrow> time \<Rightarrow> platform \<Rightarrow> sys_log \<Rightarrow> system_log_input \<Rightarrow> string result" where
  "export_system_log f fl now pf s i =
     (case require_auth f now (pf_admin pf) (si_token i) of
        Inl e \<Rightarrow> Inl e
      | Inr _ \<Rightarrow>
     (case system_log_filter i of
        Inl e \<Rightarrow> Inl e
      | Inr q \<Rightarrow>
          Inr (snd (sys_each fl s q (\<lambda>b e. b @ csv_record (system_log_row e)) (csv_record system_log_header)))))"

section \<open>The pages of the audit log\<close>

record audit_list_input =
  ai_token :: string
  ai_actor :: string
  ai_action :: string
  ai_from :: string
  ai_to :: string
  ai_limit :: int
  ai_offset :: int

definition audit_input_filter :: "audit_list_input \<Rightarrow> audit_filter result" where
  "audit_input_filter i =
     (case date_range (ai_from i) (ai_to i) of
        Inl e \<Rightarrow> Inl e
      | Inr (a, b) \<Rightarrow> Inr \<lparr>f_actor = ai_actor i, f_action = ai_action i, f_from = a, f_to = b,
                         f_limit = ai_limit i, f_offset = ai_offset i\<rparr>)"

definition list_audit_log ::
  "faults \<Rightarrow> faults \<Rightarrow> time \<Rightarrow> platform \<Rightarrow> audit_list_input \<Rightarrow> (audit_row list \<times> nat) result" where
  "list_audit_log f fa now pf i =
     (case require_auth f now (pf_admin pf) (ai_token i) of
        Inl e \<Rightarrow> Inl e
      | Inr _ \<Rightarrow>
     (case audit_input_filter i of
        Inl e \<Rightarrow> Inl e
      | Inr q \<Rightarrow>
     (case audit_list fa (pf_audit pf) q of
        Inl _ \<Rightarrow> Inl (internal_error ''list audit log'')
      | Inr page \<Rightarrow> Inr page)))"

definition verify_audit_log ::
  "(string \<Rightarrow> string) \<Rightarrow> faults \<Rightarrow> faults \<Rightarrow> time \<Rightarrow> platform \<Rightarrow> string \<Rightarrow> verify_result result" where
  "verify_audit_log H f fa now pf tok =
     (case require_auth f now (pf_admin pf) tok of
        Inl e \<Rightarrow> Inl e
      | Inr _ \<Rightarrow> if fa ''verify'' then Inl (internal_error ''verify audit log'')
                else Inr (verify H (log_rows (pf_audit pf))))"

definition audit_log_header :: "string list" where
  "audit_log_header = [''time'', ''who'', ''kind'', ''action'', ''target'', ''ip'', ''status'', ''detail'']"

definition audit_log_row :: "audit_row \<Rightarrow> string list" where
  "audit_log_row e =
     [rfc3339 (e_at e), csv_safe (e_actor e), e_kind e, e_action e, csv_safe (e_target e), e_ip e,
      int_str (e_status e), csv_safe (e_detail e)]"

definition export_audit_log ::
  "faults \<Rightarrow> faults \<Rightarrow> time \<Rightarrow> platform \<Rightarrow> audit_list_input \<Rightarrow> string result" where
  "export_audit_log f fa now pf i =
     (case require_auth f now (pf_admin pf) (ai_token i) of
        Inl e \<Rightarrow> Inl e
      | Inr _ \<Rightarrow>
     (case audit_input_filter i of
        Inl e \<Rightarrow> Inl e
      | Inr q \<Rightarrow>
          (let head = csv_record audit_log_header in
           Inr (case audit_each fa (pf_audit pf) q (\<lambda>b e. Inr (b @ csv_record (audit_log_row e))) head of
                  Inl _ \<Rightarrow> head
                | Inr body \<Rightarrow> body))))"

section \<open>The middleware\<close>

text \<open>Reading a cookie of the request header, as \<open>http.Request.Cookie\<close> does for one name.\<close>

definition http_space :: "char \<Rightarrow> bool" where
  "http_space c \<longleftrightarrow> c \<in> {CHR '' '', CHR 0x09, CHR 0x0A, CHR 0x0D}"

definition http_trim :: "string \<Rightarrow> string" where
  "http_trim s = rev (dropWhile http_space (rev (dropWhile http_space s)))"

definition cookie_value_byte :: "char \<Rightarrow> bool" where
  "cookie_value_byte c \<longleftrightarrow> 0x20 \<le> byte c \<and> byte c < 0x7F \<and> c \<notin> {CHR 0x22, CHR '';'', CHR 0x5C}"

definition cookie_value :: "string \<Rightarrow> string option" where
  "cookie_value raw =
     (let v = (if 1 < length raw \<and> hd raw = CHR 0x22 \<and> last raw = CHR 0x22 then butlast (tl raw) else raw) in
      if list_all cookie_value_byte v then Some v else None)"

definition cookie_part :: "string \<Rightarrow> string \<Rightarrow> string option" where
  "cookie_part name part =
     (case cut_chr CHR ''='' (http_trim part) of (n, v, _) \<Rightarrow>
        if http_trim part \<noteq> [] \<and> http_trim n = name then cookie_value v else None)"

definition request_cookie :: "string \<Rightarrow> string \<Rightarrow> string option" where
  "request_cookie header name =
     (case List.map_filter (cookie_part name) (split_chr CHR '';'' header) of [] \<Rightarrow> None | v # _ \<Rightarrow> Some v)"

record operation =
  op_id :: string
  op_path :: string

record http_request =
  rq_operation :: "operation option"
  rq_method :: string
  rq_params :: "string \<Rightarrow> string"
  rq_cookie :: string
  rq_real_ip :: string

definition audit_skip :: "string list" where
  "audit_skip = [''login'', ''portal-login'']"

definition audited_reads :: "string list" where
  "audited_reads = [''export-audit-log'', ''export-system-log'', ''module-logs'']"

text \<open>The names matched by \<open>\{([^}]+)\}\<close>, from left to right.\<close>

lemma cut_chr_rest_shorter: "length (fst (snd (cut_chr c s))) \<le> length s"
  by (induction s) (auto split: prod.splits)

lemma cut_chr_shorter: "(a, b, found) = cut_chr c s \<Longrightarrow> length b < Suc (length s)"
  using cut_chr_rest_shorter [of c s] by (metis fst_conv le_imp_less_Suc snd_conv)

function path_params :: "string \<Rightarrow> string list" where
  "path_params [] = []"
| "path_params (c # cs) =
     (if c = CHR 0x7B
      then (case cut_chr CHR 0x7D cs of (a, b, found) \<Rightarrow>
              if found \<and> a \<noteq> [] then a # path_params b else path_params cs)
      else path_params cs)"
  by pat_completeness auto
termination
  by (relation "measure length") (auto intro: cut_chr_shorter)

definition session_actor :: "faults \<Rightarrow> time \<Rightarrow> platform \<Rightarrow> http_request \<Rightarrow> string \<times> string" where
  "session_actor f now pf rq =
     (let employee_part =
        (case request_cookie (rq_cookie rq) ''itp_employee_session'' of
           None \<Rightarrow> ([], [])
         | Some tok \<Rightarrow>
             (case emp_validate f now (pf_emp pf) tok of Inl _ \<Rightarrow> ([], []) | Inr name \<Rightarrow> (name, ''employee''))) in
      case request_cookie (rq_cookie rq) ''itp_session'' of
        None \<Rightarrow> employee_part
      | Some tok \<Rightarrow>
          (case admin_validate f now (pf_admin pf) tok of Inl _ \<Rightarrow> employee_part | Inr email \<Rightarrow> (email, ''admin'')))"

definition is_read :: "string \<Rightarrow> bool" where
  "is_read m \<longleftrightarrow> m \<in> {''GET'', ''HEAD'', ''OPTIONS''}"

definition is_audited :: "http_request \<Rightarrow> bool" where
  "is_audited rq =
     (case rq_operation rq of
        None \<Rightarrow> False
      | Some oper \<Rightarrow> op_id oper \<notin> set audit_skip \<and> (\<not> is_read (rq_method rq) \<or> op_id oper \<in> set audited_reads))"

definition request_target :: "http_request \<Rightarrow> operation \<Rightarrow> string" where
  "request_target rq oper = join ''/'' (filter (\<lambda>v. v \<noteq> []) (map (rq_params rq) (path_params (op_path oper))))"

definition audit_entry :: "string \<times> string \<Rightarrow> http_request \<Rightarrow> operation \<Rightarrow> int \<Rightarrow> entry" where
  "audit_entry who rq oper status =
     \<lparr>eid = 0, e_at = 0, e_actor = fst who, e_kind = snd who, e_action = op_id oper, e_target = request_target rq oper,
      e_ip = rq_real_ip rq, e_status = status, e_detail = []\<rparr>"

text \<open>
  \<open>handler\<close> is the rest of the request: it gives the status of the answer and the platform after it.  \<open>now\<close> is the time
  at which the session is looked up, \<open>later\<close> the one at which the entry is written.
\<close>

definition audit_middleware ::
  "(string \<Rightarrow> string) \<Rightarrow> faults \<Rightarrow> faults \<Rightarrow> time \<Rightarrow> time \<Rightarrow> http_request \<Rightarrow> (platform \<Rightarrow> int \<times> platform)
     \<Rightarrow> platform \<Rightarrow> int \<times> platform" where
  "audit_middleware H f fa now later rq handler pf =
     (if \<not> is_audited rq then handler pf
      else (case rq_operation rq of
              None \<Rightarrow> handler pf
            | Some oper \<Rightarrow>
                (let who = session_actor f now pf rq; ran = handler pf in
                 (fst ran, audit_note H fa later (audit_entry who rq oper (fst ran)) (snd ran)))))"

section \<open>What a download says\<close>

text \<open>A reader of comma separated values as RFC 4180 describes them, with records that end in a line feed.\<close>

datatype csv_state = Field_start | Plain_field | Quoted_field | Quote_seen

fun csv_read :: "csv_state \<Rightarrow> string \<Rightarrow> string list \<Rightarrow> string \<Rightarrow> string list list option" where
  "csv_read st cur done_fields [] = (if st = Field_start \<and> done_fields = [] then Some [] else None)"
| "csv_read st cur done_fields (c # cs) =
     (if st = Quoted_field
      then (if c = CHR 0x22 then csv_read Quote_seen cur done_fields cs
            else csv_read Quoted_field (cur @ [c]) done_fields cs)
      else if c = CHR '','' then csv_read Field_start [] (done_fields @ [cur]) cs
      else if c = CHR 0x0A then map_option (Cons (done_fields @ [cur])) (csv_read Field_start [] [] cs)
      else if c = CHR 0x22
      then (case st of
              Field_start \<Rightarrow> csv_read Quoted_field [] done_fields cs
            | Quote_seen \<Rightarrow> csv_read Quoted_field (cur @ [c]) done_fields cs
            | _ \<Rightarrow> None)
      else if st = Quote_seen then None
      else csv_read Plain_field (cur @ [c]) done_fields cs)"

lemma csv_read_double_quotes:
  "csv_read Quoted_field cur fs (double_quotes s @ rest) = csv_read Quoted_field (cur @ s) fs rest"
  by (induction s arbitrary: cur) auto

definition field_end :: "char \<Rightarrow> bool" where
  "field_end c \<longleftrightarrow> c = CHR '','' \<or> c = CHR 0x0A"

lemma csv_read_plain:
  assumes "list_all (\<lambda>c. c \<noteq> CHR '','' \<and> c \<noteq> CHR 0x0A \<and> c \<noteq> CHR 0x22) s" "st = Field_start \<or> st = Plain_field"
    "field_end c"
  shows "csv_read st cur fs (s @ c # rest) = csv_read Plain_field (cur @ s) fs (c # rest)"
  using assms by (induction s arbitrary: st cur) (auto simp: field_end_def)

lemma not_quoted_plain:
  "\<not> field_needs_quotes s \<Longrightarrow> list_all (\<lambda>c. c \<noteq> CHR '','' \<and> c \<noteq> CHR 0x0A \<and> c \<noteq> CHR 0x22) s"
  by (auto simp: field_needs_quotes_def list_all_iff list_ex_iff split: if_splits)

lemma csv_read_field:
  assumes "field_end c"
  shows "csv_read Field_start [] fs (csv_field s @ c # rest) = csv_read Plain_field s fs (c # rest)"
proof (cases "field_needs_quotes s")
  case True
  have "csv_read Quote_seen s fs (c # rest) = csv_read Plain_field s fs (c # rest)"
    using assms by (auto simp: field_end_def)
  with True show ?thesis by (simp add: csv_field_def csv_read_double_quotes)
next
  case False
  from csv_read_plain [OF not_quoted_plain [OF this] _ assms, of Field_start "[]" fs rest] False
  show ?thesis by (simp add: csv_field_def)
qed

lemma csv_read_fields:
  "xs \<noteq> [] \<Longrightarrow> csv_read Field_start [] fs (join '','' (map csv_field xs) @ CHR 0x0A # rest)
     = map_option (Cons (fs @ xs)) (csv_read Field_start [] [] rest)"
proof (induction xs arbitrary: fs)
  case Nil
  then show ?case by simp
next
  case (Cons x xs)
  show ?case
  proof (cases xs)
    case Nil
    have "csv_read Field_start [] fs (csv_field x @ CHR 0x0A # rest)
        = csv_read Plain_field x fs (CHR 0x0A # rest)"
      by (rule csv_read_field) (simp add: field_end_def)
    with Nil show ?thesis by simp
  next
    case (Cons y ys)
    have "csv_read Field_start [] fs (csv_field x @ CHR '','' # join '','' (map csv_field xs) @ CHR 0x0A # rest)
        = csv_read Plain_field x fs (CHR '','' # join '','' (map csv_field xs) @ CHR 0x0A # rest)"
      by (rule csv_read_field) (simp add: field_end_def)
    also have "\<dots> = csv_read Field_start [] (fs @ [x]) (join '','' (map csv_field xs) @ CHR 0x0A # rest)" by simp
    also have "\<dots> = map_option (Cons ((fs @ [x]) @ xs)) (csv_read Field_start [] [] rest)"
      using Cons.IH [of "fs @ [x]"] Cons by simp
    finally show ?thesis using Cons by simp
  qed
qed

lemma csv_read_records:
  "list_all (\<lambda>r. r \<noteq> []) rs \<Longrightarrow> csv_read Field_start [] [] (concat (map csv_record rs)) = Some rs"
  by (induction rs) (simp_all add: csv_record_def csv_read_fields)

definition formula_cell :: "string \<Rightarrow> bool" where
  "formula_cell v \<longleftrightarrow> v \<noteq> [] \<and> hd v \<in> {CHR ''='', CHR ''+'', CHR ''-'', CHR ''@'', CHR 0x09, CHR 0x0D}"

lemma csv_safe_no_formula: "\<not> formula_cell (csv_safe v)"
  by (auto simp: formula_cell_def csv_safe_def)

lemma audit_each_records:
  "audit_each_loop (\<lambda>b e. Inr (b @ csv_record (audit_log_row e))) b es
     = Inr (b @ concat (map csv_record (map audit_log_row es)))"
  by (induction es arbitrary: b) simp_all

lemma sys_each_records:
  "sys_each_loop (\<lambda>b e. b @ csv_record (system_log_row e)) b es
     = b @ concat (map csv_record (map system_log_row es))"
  by (induction es arbitrary: b) simp_all

text \<open>The two exports, in which the rows are those of the list without its page.\<close>

lemma export_system_log_rows:
  assumes "export_system_log f fl now pf s i = Inr body"
  shows "\<exists>q. system_log_filter i = Inr q \<and>
    csv_read Field_start [] [] body = Some (system_log_header #
      (if fl ''query'' \<or> \<not> sys_args_ok q then [] else map system_log_row (filter (sys_matches q) (sl_rows s))))"
proof -
  obtain q where q: "system_log_filter i = Inr q"
    and b: "body = snd (sys_each fl s q (\<lambda>b e. b @ csv_record (system_log_row e)) (csv_record system_log_header))"
    using assms by (auto simp: export_system_log_def split: sum.splits)
  let ?rs = "if fl ''query'' \<or> \<not> sys_args_ok q then [] else map system_log_row (filter (sys_matches q) (sl_rows s))"
  have "body = concat (map csv_record (system_log_header # ?rs))"
    unfolding b sys_each_def by (auto simp: sys_each_records)
  moreover have "list_all (\<lambda>r. r \<noteq> []) (system_log_header # ?rs)"
    by (auto simp: list_all_iff system_log_row_def system_log_header_def)
  ultimately have "csv_read Field_start [] [] body = Some (system_log_header # ?rs)"
    using csv_read_records by metis
  with q show ?thesis by blast
qed

text \<open>The downloaded audit log says what the log says: a reader of comma separated values finds the header
  and, for every entry the filter matches and oldest first, its fields; and no cell with a name, a target or a
  detail starts a formula.\<close>

theorem audit_export_reads_back:
  assumes "export_audit_log f fa now pf i = Inr body" "\<not> fa ''query''" "pg_text (ai_actor i)" "pg_text (ai_action i)"
  shows "\<exists>q. audit_input_filter i = Inr q \<and>
    csv_read Field_start [] [] body =
      Some (audit_log_header # map audit_log_row (filter (where_holds q) (log_rows (pf_audit pf)))) \<and>
    list_all (\<lambda>e. list_all (\<lambda>n. \<not> formula_cell (audit_log_row e ! n)) [1, 4, 7]) (log_rows (pf_audit pf))"
proof -
  obtain q where q: "audit_input_filter i = Inr q"
    using assms(1) by (auto simp: export_audit_log_def split: sum.splits)
  let ?rs = "map audit_log_row (filter (where_holds q) (log_rows (pf_audit pf)))"
  have "filter_args_ok q"
    using q assms(3,4) by (auto simp: audit_input_filter_def filter_args_ok_def split: sum.splits prod.splits)
  with assms(1,2) q have "body = concat (map csv_record (audit_log_header # ?rs))"
    by (auto simp: export_audit_log_def audit_each_def audit_each_records Let_def split: sum.splits)
  moreover have "list_all (\<lambda>r. r \<noteq> []) (audit_log_header # ?rs)"
    by (auto simp: list_all_iff audit_log_row_def audit_log_header_def)
  ultimately have "csv_read Field_start [] [] body = Some (audit_log_header # ?rs)"
    using csv_read_records by metis
  moreover have "list_all (\<lambda>e. list_all (\<lambda>n. \<not> formula_cell (audit_log_row e ! n)) [1, 4, 7]) es" for es
    by (induction es) (simp_all add: audit_log_row_def csv_safe_no_formula)
  ultimately show ?thesis using q by blast
qed

section \<open>No change goes unrecorded\<close>


section \<open>A small platform\<close>

definition log_platform :: platform where
  "log_platform = example_platform\<lparr>pf_admin := (pf_admin example_platform)\<lparr>admin_sessions :=
     [\<lparr>as_token = ''t'', as_user = 1, as_expires = 100\<rparr>]\<rparr>, pf_audit := ex_log id\<rparr>"

lemma log_platform_session: "admin_validate no_faults 5 (pf_admin log_platform) ''t'' = Inr ''a@x''"
  by (simp add: log_platform_def example_platform_def admin_validate_def admin_row_def email_of_def)

definition whole_log :: audit_list_input where
  "whole_log = \<lparr>ai_token = ''t'', ai_actor = [], ai_action = [], ai_from = [], ai_to = [], ai_limit = 0, ai_offset = 0\<rparr>"

theorem audit_export_reads_back_witness:
  "\<exists>body. export_audit_log no_faults no_faults 5 log_platform whole_log = Inr body
    \<and> csv_read Field_start [] [] body =
        Some [audit_log_header, audit_log_row (ex_row1 id), audit_log_row (ex_row2 id), audit_log_row (ex_row3 id)]"
proof -
  have auth: "require_auth no_faults 5 (pf_admin log_platform) (ai_token whole_log) = Inr ''a@x''"
    using log_platform_session by (simp add: require_auth_def whole_log_def)
  have "audit_input_filter whole_log = Inr \<lparr>f_actor = [], f_action = [], f_from = None, f_to = None, f_limit = 0, f_offset = 0\<rparr>"
    by (simp add: audit_input_filter_def date_range_def whole_log_def)
  then have "\<exists>body. export_audit_log no_faults no_faults 5 log_platform whole_log = Inr body"
    using auth by (simp add: export_audit_log_def Let_def)
  then obtain body where body: "export_audit_log no_faults no_faults 5 log_platform whole_log = Inr body" by blast
  obtain q where q: "audit_input_filter whole_log = Inr q"
    and read: "csv_read Field_start [] [] body =
      Some (audit_log_header # map audit_log_row (filter (where_holds q) (log_rows (pf_audit log_platform))))"
    using audit_export_reads_back [OF body] by (auto simp: whole_log_def pg_text_def valid_utf8_def)
  have "where_holds q = (\<lambda>r. True)"
    using q by (auto simp: audit_input_filter_def date_range_def whole_log_def where_holds_iff)
  with read body show ?thesis by (simp add: log_platform_def ex_log_def)
qed

definition sign_out_request :: http_request where
  "sign_out_request =
     \<lparr>rq_operation = Some \<lparr>op_id = ''revoke'', op_path = ''/api/s/'' @ [CHR 0x7B] @ ''id'' @ [CHR 0x7D]\<rparr>,
      rq_method = ''POST'', rq_params = (\<lambda>_. ''7''), rq_cookie = ''a=b; itp_session=t'', rq_real_ip = ''1.2''\<rparr>"

definition sign_out :: "platform \<Rightarrow> int \<times> platform" where
  "sign_out pf = (204, snd (logout_handler no_faults pf [] ''t''))"

lemma sign_out_actor: "session_actor no_faults 5 log_platform sign_out_request = (''a@x'', ''admin'')"
proof -
  have "request_cookie (rq_cookie sign_out_request) ''itp_session'' = Some ''t''"
    by (simp add: request_cookie_def sign_out_request_def cookie_part_def http_trim_def http_space_def cookie_value_def
        cookie_value_byte_def byte_def List.map_filter_simps)
  then show ?thesis by (simp add: session_actor_def log_platform_session)
qed

lemma sign_out_target:
  "request_target sign_out_request \<lparr>op_id = ''revoke'', op_path = ''/api/s/'' @ [CHR 0x7B] @ ''id'' @ [CHR 0x7D]\<rparr> = ''7''"
  by (simp add: request_target_def sign_out_request_def)


end
