(* ===== verification/RegistryService.thy ===== *)
theory RegistryService
  imports GoUrl Sessions Installer
begin

text \<open>
  The module registry (\<open>registry/\<close>), a service of its own that hands the module index and the module bundles of a
  private GitHub repository to the servers of customers: their keys (\<open>internal/store\<close>), the two calls to GitHub
  (\<open>internal/github\<close>), the HTTP surface (\<open>internal/api\<close>) and the settings (\<open>internal/config\<close>).

  SHA-256, the random source, reading GitHub's JSON and what GitHub answers, on a state of any type \<open>'w\<close>, are parameters.
\<close>

section \<open>Settings\<close>

record reg_config =
  rg_listen :: string
  rg_db_path :: string
  rg_token :: string
  rg_owner :: string
  rg_repo :: string
  rg_base :: string
  rg_admin :: string

definition get_env :: "(string \<Rightarrow> string option) \<Rightarrow> string \<Rightarrow> string \<Rightarrow> string" where
  "get_env env key fallback = (case env key of None \<Rightarrow> fallback | Some v \<Rightarrow> if v = [] then fallback else v)"

definition load_reg_config :: "(string \<Rightarrow> string option) \<Rightarrow> string + reg_config" where
  "load_reg_config env =
     (let cfg = \<lparr>rg_listen = get_env env ''LISTEN_ADDR'' '':8090'', rg_db_path = get_env env ''DB_PATH'' ''./data/registry.db'',
            rg_token = get_env env ''GITHUB_TOKEN'' [], rg_owner = get_env env ''GITHUB_OWNER'' [],
            rg_repo = get_env env ''GITHUB_REPO'' [], rg_base = get_env env ''GITHUB_BASE_URL'' ''https://api.github.com'',
            rg_admin = get_env env ''ADMIN_TOKEN'' []\<rparr> in
      if rg_token cfg = [] \<or> rg_owner cfg = [] \<or> rg_repo cfg = []
      then Inl ''GITHUB_TOKEN, GITHUB_OWNER, and GITHUB_REPO are required''
      else if rg_admin cfg = [] then Inl ''ADMIN_TOKEN is required''
      else Inr cfg)"

section \<open>The keys of the customers\<close>

record reg_client =
  rk_id :: int
  rk_name :: string
  rk_hash :: string
  rk_created :: time
  rk_revoked :: "time option"

record reg_store =
  rs_clients :: "reg_client list"
  rs_next :: int

definition hash_key :: "(string \<Rightarrow> string) \<Rightarrow> string \<Rightarrow> string" where
  "hash_key H key = hex_encode (H key)"

text \<open>\<open>base64.RawURLEncoding\<close>: no padding, and two letters of its own.\<close>

definition url_letter :: "char \<Rightarrow> char" where
  "url_letter c = (if c = CHR 0x2B then CHR ''-'' else if c = CHR 0x2F then CHR ''_'' else c)"

definition base64_raw_url :: "string \<Rightarrow> string" where
  "base64_raw_url s = map url_letter (filter (\<lambda>c. c \<noteq> CHR ''='') (base64 s))"

definition new_key :: "string \<Rightarrow> string" where
  "new_key raw = ''reg_'' @ base64_raw_url raw"

text \<open>A row that was inserted stays although reading its id fails.\<close>

definition create_client ::
  "(string \<Rightarrow> string) \<Rightarrow> faults \<Rightarrow> time \<Rightarrow> string option \<Rightarrow> string \<Rightarrow> reg_store \<Rightarrow> (string + int \<times> string) \<times> reg_store" where
  "create_client H f now rnd name s =
     (case rnd of
        None \<Rightarrow> (Inl ''generate key'', s)
      | Some raw \<Rightarrow>
          (let key = new_key raw; h = hash_key H key in
           if f ''insert client'' \<or> h \<in> rk_hash ` set (rs_clients s) then (Inl ''insert client'', s)
           else (let s' = s\<lparr>rs_clients := rs_clients s @
                     [\<lparr>rk_id = rs_next s, rk_name = name, rk_hash = h, rk_created = now, rk_revoked = None\<rparr>],
                   rs_next := rs_next s + 1\<rparr> in
                 if f ''last insert id'' then (Inl ''last insert id'', s') else (Inr (rs_next s, key), s'))))"

datatype auth_error = Key_not_found | Key_revoked | Lookup_failed

definition authenticate :: "(string \<Rightarrow> string) \<Rightarrow> faults \<Rightarrow> reg_store \<Rightarrow> string \<Rightarrow> auth_error + reg_client" where
  "authenticate H f s key =
     (if f ''lookup client'' then Inl Lookup_failed
      else case find (\<lambda>c. rk_hash c = hash_key H key) (rs_clients s) of
        None \<Rightarrow> Inl Key_not_found
      | Some c \<Rightarrow> if rk_revoked c \<noteq> None then Inl Key_revoked else Inr c)"

text \<open>Newest first; of two created in the same second the older one comes first.\<close>

definition list_clients :: "faults \<Rightarrow> reg_store \<Rightarrow> string + reg_client list" where
  "list_clients f s =
     (if f ''list clients'' then Inl ''list clients''
      else Inr (order_by (\<lambda>a b. rk_created b < rk_created a) (rs_clients s)))"

definition revocable :: "int \<Rightarrow> reg_client \<Rightarrow> bool" where
  "revocable i c \<longleftrightarrow> rk_id c = i \<and> rk_revoked c = None"

definition revoke_rows :: "time \<Rightarrow> int \<Rightarrow> reg_client list \<Rightarrow> reg_client list" where
  "revoke_rows now i cs = map (\<lambda>c. if revocable i c then c\<lparr>rk_revoked := Some now\<rparr> else c) cs"

definition revoke_client :: "faults \<Rightarrow> time \<Rightarrow> int \<Rightarrow> reg_store \<Rightarrow> (string option + unit) \<times> reg_store" where
  "revoke_client f now i s =
     (if f ''revoke client'' then (Inl (Some ''revoke client''), s)
      else (let s' = s\<lparr>rs_clients := revoke_rows now i (rs_clients s)\<rparr> in
            if f ''rows affected'' then (Inl (Some ''rows affected''), s')
            else if \<not> list_ex (revocable i) (rs_clients s) then (Inl None, s')
            else (Inr (), s')))"

section \<open>GitHub\<close>

text \<open>
  An answer of GitHub: the status, what could be read of the body, and whether reading it came to an end.  A request is
  its address, the token and the accepted type.
\<close>

record gh_answer =
  ga_status :: nat
  ga_body :: string
  ga_whole :: bool

record 'w github =
  gh_do :: "string \<Rightarrow> string \<Rightarrow> string \<Rightarrow> 'w \<Rightarrow> (string + gh_answer) \<times> 'w"
  gh_contents :: "string \<Rightarrow> (string \<times> string) option"
  gh_release :: "string \<Rightarrow> (string \<times> string) list option"

text \<open>\<open>url.PathEscape\<close>.\<close>

definition upper_hex :: "nat \<Rightarrow> char" where
  "upper_hex v = ''0123456789ABCDEF'' ! v"

definition plain_segment_chr :: "char \<Rightarrow> bool" where
  "plain_segment_chr c \<longleftrightarrow> alnum c \<or> c \<in> set ''-_.~$&+:=@''"

definition path_escape :: "string \<Rightarrow> string" where
  "path_escape s = concat (map (\<lambda>c. if plain_segment_chr c then [c]
     else [CHR ''%'', upper_hex (byte c div 16), upper_hex (byte c mod 16)]) s)"

text \<open>\<open>authedRequest\<close> and the call: an address that cannot be parsed is refused before anything is sent.\<close>

definition authed_request :: "'w github \<Rightarrow> reg_config \<Rightarrow> string \<Rightarrow> string \<Rightarrow> 'w \<Rightarrow> (string + gh_answer) \<times> 'w" where
  "authed_request G cfg url accept w =
     (if url_parse url = None then (Inl ''new request'', w) else gh_do G url (''Bearer '' @ rg_token cfg) accept w)"

definition json_type :: string where "json_type = ''application/vnd.github+json''"
definition octet_type :: string where "octet_type = ''application/octet-stream''"

definition repo_url :: "reg_config \<Rightarrow> string" where
  "repo_url cfg = rg_base cfg @ ''/repos/'' @ path_escape (rg_owner cfg) @ ''/'' @ path_escape (rg_repo cfg)"

definition strip_whitespace :: "string \<Rightarrow> string" where
  "strip_whitespace s = filter (\<lambda>c. c \<noteq> CHR 0x0A \<and> c \<noteq> CHR 0x0D \<and> c \<noteq> CHR '' '') s"

text \<open>\<open>base64.StdEncoding.DecodeString\<close> of text without line ends.\<close>

definition b64_value :: "char \<Rightarrow> nat option" where
  "b64_value c =
     (if in_range 0x41 0x5A c then Some (byte c - 0x41)
      else if in_range 0x61 0x7A c then Some (byte c - 0x61 + 26)
      else if is_digit c then Some (byte c - 0x30 + 52)
      else if c = CHR 0x2B then Some 62 else if c = CHR 0x2F then Some 63 else None)"

definition b64_byte1 :: "nat \<Rightarrow> nat \<Rightarrow> char" where "b64_byte1 u v = char_of (u * 4 + v div 16)"
definition b64_byte2 :: "nat \<Rightarrow> nat \<Rightarrow> char" where "b64_byte2 v x = char_of (v mod 16 * 16 + x div 4)"
definition b64_byte3 :: "nat \<Rightarrow> nat \<Rightarrow> char" where "b64_byte3 x y = char_of (x mod 4 * 64 + y)"

fun base64_decode :: "string \<Rightarrow> string option" where
  "base64_decode [] = Some []"
| "base64_decode (a # b # c # d # r) =
     (case (b64_value a, b64_value b) of
        (Some u, Some v) \<Rightarrow>
          (if c = CHR ''='' then (if d = CHR ''='' \<and> r = [] then Some [b64_byte1 u v] else None)
           else case b64_value c of
             None \<Rightarrow> None
           | Some x \<Rightarrow>
               if d = CHR ''='' then (if r = [] then Some [b64_byte1 u v, b64_byte2 v x] else None)
               else (case (b64_value d, base64_decode r) of
                       (Some y, Some rest) \<Rightarrow> Some (b64_byte1 u v # b64_byte2 v x # b64_byte3 x y # rest)
                     | _ \<Rightarrow> None))
      | _ \<Rightarrow> None)"
| "base64_decode _ = None"

definition fetch_repo_index :: "'w github \<Rightarrow> reg_config \<Rightarrow> 'w \<Rightarrow> (string + string) \<times> 'w" where
  "fetch_repo_index G cfg w =
     (case authed_request G cfg (repo_url cfg @ ''/contents/index.json'') json_type w of
        (Inl e, w1) \<Rightarrow> (Inl ''fetch index'', w1)
      | (Inr a, w1) \<Rightarrow>
          (if \<not> ga_whole a then Inl ''read index response''
           else if ga_status a \<noteq> 200 then Inl ''fetch index: unexpected status''
           else case gh_contents G (ga_body a) of
             None \<Rightarrow> Inl ''parse index response''
           | Some (content, encoding) \<Rightarrow>
               if encoding \<noteq> ''base64'' then Inl ''fetch index: unexpected encoding''
               else (case base64_decode (strip_whitespace content) of
                       None \<Rightarrow> Inl ''decode index content'' | Some text' \<Rightarrow> Inr text'), w1))"

text \<open>The first asset of the name; a first one without address counts as none.\<close>

definition asset_url :: "string \<Rightarrow> (string \<times> string) list \<Rightarrow> string" where
  "asset_url name assets = (case find (\<lambda>a. fst a = name) assets of None \<Rightarrow> [] | Some a \<Rightarrow> snd a)"

definition fetch_bundle_asset :: "'w github \<Rightarrow> reg_config \<Rightarrow> string \<Rightarrow> string \<Rightarrow> 'w \<Rightarrow> (string + gh_answer) \<times> 'w" where
  "fetch_bundle_asset G cfg tag asset w =
     (case authed_request G cfg (repo_url cfg @ ''/releases/tags/'' @ path_escape tag) json_type w of
        (Inl e, w1) \<Rightarrow> (Inl ''fetch release'', w1)
      | (Inr a, w1) \<Rightarrow>
          if \<not> ga_whole a then (Inl ''read release response'', w1)
          else if ga_status a \<noteq> 200 then (Inl ''fetch release: unexpected status'', w1)
          else case gh_release G (ga_body a) of
            None \<Rightarrow> (Inl ''parse release response'', w1)
          | Some assets \<Rightarrow>
              (let url = asset_url asset assets in
               if url = [] then (Inl ''release has no such asset'', w1)
               else (case authed_request G cfg url octet_type w1 of
                       (Inl e, w2) \<Rightarrow> (Inl ''fetch asset'', w2)
                     | (Inr b, w2) \<Rightarrow>
                         (if ga_status b \<noteq> 200 then Inl ''fetch asset: unexpected status'' else Inr b, w2))))"

section \<open>The HTTP surface\<close>

record registry =
  rv_store :: reg_store
  rv_cache :: "(string \<times> time) option"

text \<open>A request: its route, with the \<open>name\<close> of a body that could be read, and its \<open>Authorization\<close> header.\<close>

datatype reg_route =
  R_health | R_index | R_bundle string string | R_list | R_create "string option" | R_revoke string

datatype reg_reply =
  R_error nat string | R_ok | R_text string | R_stream string | R_clients "reg_client list"
| R_created int string string | R_no_content

definition bearer_token :: "string \<Rightarrow> string" where
  "bearer_token h = (if 7 < length h \<and> take 7 h = ''Bearer '' then drop 7 h else [])"

definition index_cache_ttl :: time where "index_cache_ttl = 30 * second"

definition handle_index :: "'w github \<Rightarrow> reg_config \<Rightarrow> time \<Rightarrow> registry \<Rightarrow> 'w \<Rightarrow> reg_reply \<times> registry \<times> 'w" where
  "handle_index G cfg now s w =
     (if (case rv_cache s of None \<Rightarrow> False | Some (_, at) \<Rightarrow> now - at \<le> index_cache_ttl)
      then (R_text (fst (the (rv_cache s))), s, w)
      else case fetch_repo_index G cfg w of
        (Inl e, w1) \<Rightarrow>
          (case rv_cache s of
             None \<Rightarrow> (R_error 502 ''could not fetch module index'', s, w1)
           | Some (old, _) \<Rightarrow> (R_text old, s, w1))
      | (Inr fresh, w1) \<Rightarrow> (R_text fresh, s\<lparr>rv_cache := Some (fresh, now)\<rparr>, w1))"

definition id_first_chr :: "char \<Rightarrow> bool" where
  "id_first_chr c \<longleftrightarrow> in_range 0x61 0x7A c \<or> is_digit c"

definition module_id_ok :: "string \<Rightarrow> bool" where
  "module_id_ok s \<longleftrightarrow> s \<noteq> [] \<and> length s \<le> 64 \<and> id_first_chr (hd s) \<and> list_all (\<lambda>c. id_first_chr c \<or> c = CHR ''-'') (tl s)"

definition version_ok :: "string \<Rightarrow> bool" where
  "version_ok s \<longleftrightarrow> s \<noteq> [] \<and> length s \<le> 32 \<and> is_digit (hd s) \<and> list_all (\<lambda>c. alnum c \<or> c = CHR ''.'' \<or> c = CHR ''-'') (tl s)"

definition bundle_tag :: "string \<Rightarrow> string \<Rightarrow> string" where
  "bundle_tag mid version = mid @ ''-v'' @ version"

definition bundle_asset :: "string \<Rightarrow> string \<Rightarrow> string" where
  "bundle_asset mid version = mid @ ''-'' @ version @ ''.tar.gz''"

definition handle_bundle :: "'w github \<Rightarrow> reg_config \<Rightarrow> string \<Rightarrow> string \<Rightarrow> 'w \<Rightarrow> reg_reply \<times> 'w" where
  "handle_bundle G cfg mid version w =
     (if \<not> module_id_ok mid \<or> \<not> version_ok version then (R_error 400 ''invalid module id or version'', w)
      else case fetch_bundle_asset G cfg (bundle_tag mid version) (bundle_asset mid version) w of
        (Inl e, w1) \<Rightarrow> (R_error 502 ''could not fetch module bundle'', w1)
      | (Inr a, w1) \<Rightarrow> (R_stream (ga_body a), w1))"

definition on_store :: "registry \<Rightarrow> reg_reply \<times> reg_store \<Rightarrow> reg_reply \<times> registry" where
  "on_store s r = (fst r, s\<lparr>rv_store := snd r\<rparr>)"

definition handle_create ::
  "(string \<Rightarrow> string) \<Rightarrow> faults \<Rightarrow> time \<Rightarrow> string option \<Rightarrow> string option \<Rightarrow> reg_store \<Rightarrow> reg_reply \<times> reg_store" where
  "handle_create H f now rnd body s =
     (case body of
        None \<Rightarrow> (R_error 400 ''name is required'', s)
      | Some name \<Rightarrow>
          if name = [] then (R_error 400 ''name is required'', s)
          else (case create_client H f now rnd name s of
                  (Inl e, s1) \<Rightarrow> (R_error 500 ''internal error'', s1)
                | (Inr (i, key), s1) \<Rightarrow> (R_created i name key, s1)))"

definition handle_list :: "faults \<Rightarrow> reg_store \<Rightarrow> reg_reply" where
  "handle_list f s = (case list_clients f s of Inl e \<Rightarrow> R_error 500 ''internal error'' | Inr cs \<Rightarrow> R_clients cs)"

text \<open>\<open>strconv.ParseInt(s, 10, 64)\<close>.\<close>

definition parse_int64 :: "string \<Rightarrow> int option" where
  "parse_int64 s = (case atoi_opt s of None \<Rightarrow> None | Some v \<Rightarrow> if min_int \<le> v \<and> v \<le> max_int then Some v else None)"

definition handle_revoke :: "faults \<Rightarrow> time \<Rightarrow> string \<Rightarrow> reg_store \<Rightarrow> reg_reply \<times> reg_store" where
  "handle_revoke f now ids s =
     (case parse_int64 ids of
        None \<Rightarrow> (R_error 400 ''invalid id'', s)
      | Some i \<Rightarrow>
          (case revoke_client f now i s of
             (Inl None, s1) \<Rightarrow> (R_error 404 ''not found'', s1)
           | (Inl (Some e), s1) \<Rightarrow> (R_error 500 ''internal error'', s1)
           | (Inr _, s1) \<Rightarrow> (R_no_content, s1)))"

definition require_client_auth :: "(string \<Rightarrow> string) \<Rightarrow> faults \<Rightarrow> reg_store \<Rightarrow> string \<Rightarrow> reg_reply option" where
  "require_client_auth H f s header =
     (let key = bearer_token header in
      if key = [] then Some (R_error 401 ''missing bearer token'')
      else case authenticate H f s key of
        Inr _ \<Rightarrow> None
      | Inl Key_not_found \<Rightarrow> Some (R_error 401 ''invalid key'')
      | Inl Key_revoked \<Rightarrow> Some (R_error 403 ''key revoked'')
      | Inl Lookup_failed \<Rightarrow> Some (R_error 500 ''internal error''))"

definition require_admin_auth :: "reg_config \<Rightarrow> string \<Rightarrow> reg_reply option" where
  "require_admin_auth cfg header =
     (if rg_admin cfg = [] \<or> bearer_token header \<noteq> rg_admin cfg then Some (R_error 401 ''unauthorized'') else None)"

record reg_call =
  rc_route :: reg_route
  rc_header :: string
  rc_now :: time
  rc_faults :: faults
  rc_random :: "string option"

definition is_admin_route :: "reg_route \<Rightarrow> bool" where
  "is_admin_route r = (case r of R_list \<Rightarrow> True | R_create _ \<Rightarrow> True | R_revoke _ \<Rightarrow> True | _ \<Rightarrow> False)"

definition route_guard :: "(string \<Rightarrow> string) \<Rightarrow> reg_config \<Rightarrow> reg_call \<Rightarrow> registry \<Rightarrow> reg_reply option" where
  "route_guard H cfg c s =
     (if is_admin_route (rc_route c) then require_admin_auth cfg (rc_header c)
      else if rc_route c = R_health then None
      else require_client_auth H (rc_faults c) (rv_store s) (rc_header c))"

definition registry_handle ::
  "(string \<Rightarrow> string) \<Rightarrow> 'w github \<Rightarrow> reg_config \<Rightarrow> reg_call \<Rightarrow> registry \<Rightarrow> 'w \<Rightarrow> reg_reply \<times> registry \<times> 'w" where
  "registry_handle H G cfg c s w =
     (case route_guard H cfg c s of
        Some refusal \<Rightarrow> (refusal, s, w)
      | None \<Rightarrow>
          (case rc_route c of
             R_health \<Rightarrow> (R_ok, s, w)
           | R_index \<Rightarrow> handle_index G cfg (rc_now c) s w
           | R_bundle mid version \<Rightarrow> (case handle_bundle G cfg mid version w of (r, w1) \<Rightarrow> (r, s, w1))
           | R_list \<Rightarrow> (handle_list (rc_faults c) (rv_store s), s, w)
           | R_create body \<Rightarrow>
               (case on_store s (handle_create H (rc_faults c) (rc_now c) (rc_random c) body (rv_store s)) of
                  (r, s1) \<Rightarrow> (r, s1, w))
           | R_revoke ids \<Rightarrow>
               (case on_store s (handle_revoke (rc_faults c) (rc_now c) ids (rv_store s)) of (r, s1) \<Rightarrow> (r, s1, w))))"

section \<open>Who is let in\<close>

definition empty_registry :: registry where
  "empty_registry = \<lparr>rv_store = \<lparr>rs_clients = [], rs_next = 1\<rparr>, rv_cache = None\<rparr>"

text \<open>A run of the service from an empty database: the replies in order, the service and the world after it.\<close>

definition serve ::
  "(string \<Rightarrow> string) \<Rightarrow> 'w github \<Rightarrow> reg_config \<Rightarrow> reg_reply list \<times> registry \<times> 'w \<Rightarrow> reg_call
     \<Rightarrow> reg_reply list \<times> registry \<times> 'w" where
  "serve H G cfg st c = (case st of (rs, s, w) \<Rightarrow> (case registry_handle H G cfg c s w of (r, s1, w1) \<Rightarrow> (rs @ [r], s1, w1)))"

definition registry_run ::
  "(string \<Rightarrow> string) \<Rightarrow> 'w github \<Rightarrow> reg_config \<Rightarrow> reg_call list \<Rightarrow> 'w \<Rightarrow> reg_reply list \<times> registry \<times> 'w" where
  "registry_run H G cfg calls w = foldl (serve H G cfg) ([], empty_registry, w) calls"

text \<open>The random bytes of keys made for the administrator, and the clients whose revocation was asked for and confirmed.\<close>

definition made_keys :: "reg_config \<Rightarrow> reg_call list \<Rightarrow> string set" where
  "made_keys cfg calls = {raw. \<exists>c \<in> set calls. require_admin_auth cfg (rc_header c) = None \<and> rc_random c = Some raw
     \<and> (case rc_route c of R_create _ \<Rightarrow> True | _ \<Rightarrow> False)}"

definition revoke_target :: "reg_call \<Rightarrow> int option" where
  "revoke_target c = (case rc_route c of R_revoke ids \<Rightarrow> parse_int64 ids | _ \<Rightarrow> None)"

definition revoked_ids :: "reg_call list \<Rightarrow> reg_reply list \<Rightarrow> int set" where
  "revoked_ids calls rs = {i. \<exists>(c, r) \<in> set (zip calls rs). revoke_target c = Some i \<and> r = R_no_content}"

definition store_ok :: "reg_store \<Rightarrow> bool" where
  "store_ok s \<longleftrightarrow> distinct (map rk_hash (rs_clients s)) \<and> distinct (map rk_id (rs_clients s))
     \<and> list_all (\<lambda>c. rk_id c < rs_next s) (rs_clients s)"

definition client_step :: "(string \<Rightarrow> string) \<Rightarrow> reg_config \<Rightarrow> reg_call \<Rightarrow> reg_reply \<Rightarrow> reg_store \<Rightarrow> reg_store \<Rightarrow> bool" where
  "client_step H cfg c r s s' \<longleftrightarrow>
     (s' = s \<and> (\<forall>i n k. r \<noteq> R_created i n k) \<and> r \<noteq> R_no_content) \<or>
     (\<exists>raw new. made_keys cfg [c] = {raw} \<and> rk_hash new = hash_key H (new_key raw) \<and> rk_hash new \<notin> rk_hash ` set (rs_clients s)
        \<and> rk_id new = rs_next s \<and> rk_revoked new = None \<and> rs_clients s' = rs_clients s @ [new]
        \<and> rs_next s' = rs_next s + 1 \<and> r \<noteq> R_no_content
        \<and> (\<forall>i n k. r = R_created i n k \<longrightarrow> i = rs_next s \<and> k = new_key raw)) \<or>
     (\<exists>i now. revoke_target c = Some i \<and> s' = s\<lparr>rs_clients := revoke_rows now i (rs_clients s)\<rparr>
        \<and> (r = R_no_content \<longrightarrow> list_ex (revocable i) (rs_clients s)) \<and> (\<forall>i n k. r \<noteq> R_created i n k))"

lemma made_keys_one:
  "made_keys cfg [c] = (case rc_random c of None \<Rightarrow> {} | Some raw \<Rightarrow>
     (if require_admin_auth cfg (rc_header c) = None \<and> (case rc_route c of R_create _ \<Rightarrow> True | _ \<Rightarrow> False) then {raw} else {}))"
  by (auto simp: made_keys_def split: option.splits)

lemma create_step:
  assumes "rc_route c = R_create body" "require_admin_auth cfg (rc_header c) = None"
    and "handle_create H f now (rc_random c) body s = (r, s')"
  shows "client_step H cfg c r s s'"
proof (cases "\<exists>name raw. body = Some name \<and> name \<noteq> [] \<and> rc_random c = Some raw \<and> \<not> f ''insert client''
    \<and> hash_key H (new_key raw) \<notin> rk_hash ` set (rs_clients s)")
  case False
  then have "s' = s \<and> (\<exists>n m. r = R_error n m)"
    using assms(3) by (auto simp: handle_create_def create_client_def Let_def split: option.splits if_splits)
  then show ?thesis by (auto simp: client_step_def)
next
  case True
  then obtain name raw where b: "body = Some name" "name \<noteq> []" "rc_random c = Some raw" "\<not> f ''insert client''"
    and fresh: "hash_key H (new_key raw) \<notin> rk_hash ` set (rs_clients s)" by blast
  let ?new = "\<lparr>rk_id = rs_next s, rk_name = name, rk_hash = hash_key H (new_key raw), rk_created = now, rk_revoked = None\<rparr>"
  have s': "s' = s\<lparr>rs_clients := rs_clients s @ [?new], rs_next := rs_next s + 1\<rparr>"
    and r: "r = R_error 500 ''internal error'' \<or> r = R_created (rs_next s) name (new_key raw)"
    using assms(3) b fresh by (auto simp: handle_create_def create_client_def Let_def split: if_splits)
  have "made_keys cfg [c] = {raw}" using assms(1,2) b by (simp add: made_keys_one)
  with fresh s' r show ?thesis
    unfolding client_step_def by (intro disjI2 disjI1 exI [of _ raw] exI [of _ ?new]) auto
qed

lemma revoke_step:
  assumes "rc_route c = R_revoke ids" "handle_revoke f now ids s = (r, s')"
  shows "client_step H cfg c r s s'"
proof (cases "parse_int64 ids")
  case None
  then show ?thesis using assms by (auto simp: handle_revoke_def client_step_def)
next
  case (Some i)
  have t: "revoke_target c = Some i" using assms(1) Some by (simp add: revoke_target_def)
  show ?thesis
  proof (cases "f ''revoke client''")
    case True
    then show ?thesis using assms Some by (auto simp: handle_revoke_def revoke_client_def client_step_def)
  next
    case False
    then have "s' = s\<lparr>rs_clients := revoke_rows now i (rs_clients s)\<rparr>"
      "r = R_no_content \<longrightarrow> list_ex (revocable i) (rs_clients s)" "\<forall>i n k. r \<noteq> R_created i n k"
      using assms Some by (auto simp: handle_revoke_def revoke_client_def Let_def split: if_splits)
    with t show ?thesis unfolding client_step_def by blast
  qed
qed

lemma registry_step:
  assumes "registry_handle H G cfg c s w = (r, s', w')"
  shows "client_step H cfg c r (rv_store s) (rv_store s')"
proof (cases "route_guard H cfg c s")
  case (Some refusal)
  then have "r = refusal" "s' = s" using assms by (simp_all add: registry_handle_def)
  moreover have "(\<forall>i n k. refusal \<noteq> R_created i n k) \<and> refusal \<noteq> R_no_content"
    using Some by (auto simp: route_guard_def require_client_auth_def require_admin_auth_def Let_def
        split: if_splits sum.splits auth_error.splits)
  ultimately show ?thesis by (simp add: client_step_def)
next
  case None
  show ?thesis
  proof (cases "rc_route c")
    case R_health
    then show ?thesis using assms None by (auto simp: registry_handle_def client_step_def)
  next
    case R_index
    then show ?thesis using assms None
      by (auto simp: registry_handle_def client_step_def handle_index_def split: if_splits prod.splits sum.splits option.splits)
  next
    case (R_bundle mid version)
    then show ?thesis using assms None
      by (auto simp: registry_handle_def client_step_def handle_bundle_def split: if_splits prod.splits sum.splits)
  next
    case R_list
    then show ?thesis using assms None
      by (auto simp: registry_handle_def client_step_def handle_list_def split: sum.splits)
  next
    case (R_create body)
    then have "require_admin_auth cfg (rc_header c) = None" using None by (simp add: route_guard_def is_admin_route_def)
    moreover have "handle_create H (rc_faults c) (rc_now c) (rc_random c) body (rv_store s) = (r, rv_store s')"
      using assms None R_create by (auto simp: registry_handle_def on_store_def split: prod.splits)
    ultimately show ?thesis using create_step [OF R_create] by blast
  next
    case (R_revoke ids)
    have "handle_revoke (rc_faults c) (rc_now c) ids (rv_store s) = (r, rv_store s')"
      using assms None R_revoke by (auto simp: registry_handle_def on_store_def split: prod.splits)
    then show ?thesis using revoke_step [OF R_revoke] by blast
  qed
qed

text \<open>What holds of the clients after a run.\<close>

definition clients_ok ::
  "(string \<Rightarrow> string) \<Rightarrow> reg_config \<Rightarrow> reg_call list \<Rightarrow> reg_reply list \<Rightarrow> reg_store \<Rightarrow> bool" where
  "clients_ok H cfg calls rs s \<longleftrightarrow> length rs = length calls \<and> store_ok s
     \<and> (\<forall>c \<in> set (rs_clients s). \<exists>raw \<in> made_keys cfg calls. rk_hash c = hash_key H (new_key raw))
     \<and> (\<forall>i \<in> revoked_ids calls rs. i < rs_next s \<and> (\<forall>c \<in> set (rs_clients s). rk_id c = i \<longrightarrow> rk_revoked c \<noteq> None))
     \<and> (\<forall>i n k. R_created i n k \<in> set rs \<longrightarrow> (\<exists>c \<in> set (rs_clients s). rk_id c = i \<and> rk_hash c = hash_key H k
          \<and> (rk_revoked c \<noteq> None \<longrightarrow> Some i \<in> revoke_target ` set calls) \<and> (\<exists>raw. k = new_key raw)))"

lemma revoke_rows_simps [simp]:
  "map rk_hash (revoke_rows now i cs) = map rk_hash cs" "map rk_id (revoke_rows now i cs) = map rk_id cs"
  by (simp_all add: revoke_rows_def)

lemma revoke_rows_in:
  "c' \<in> set (revoke_rows now i cs) \<longleftrightarrow>
     (\<exists>c \<in> set cs. c' = (if revocable i c then c\<lparr>rk_revoked := Some now\<rparr> else c))"
  by (auto simp: revoke_rows_def)

lemma made_keys_snoc: "made_keys cfg (calls @ [c]) = made_keys cfg calls \<union> made_keys cfg [c]"
  by (auto simp: made_keys_def)

lemma revoked_ids_snoc:
  "length rs = length calls \<Longrightarrow> revoked_ids (calls @ [c]) (rs @ [r]) =
     revoked_ids calls rs \<union> (if r = R_no_content then set_option (revoke_target c) else {})"
  by (auto simp: revoked_ids_def)

lemma store_ok_step:
  assumes "store_ok s" "client_step H cfg c r s s'"
  shows "store_ok s'"
proof -
  consider (same) "s' = s"
    | (new) new :: reg_client where "rk_hash new \<notin> rk_hash ` set (rs_clients s)" "rk_id new = rs_next s"
        "rs_clients s' = rs_clients s @ [new]" "rs_next s' = rs_next s + 1"
    | (rev) i now where "s' = s\<lparr>rs_clients := revoke_rows now i (rs_clients s)\<rparr>"
    using assms(2) unfolding client_step_def by blast
  then show ?thesis
  proof cases
    case same
    with assms(1) show ?thesis by simp
  next
    case new
    have old: "distinct (map rk_hash (rs_clients s))" "distinct (map rk_id (rs_clients s))"
      "list_all (\<lambda>c. rk_id c < rs_next s) (rs_clients s)"
      using assms(1) by (simp_all add: store_ok_def)
    have "list_all (\<lambda>c. rk_id c < rs_next s + 1) (rs_clients s)"
      by (rule list.pred_mono_strong [OF old(3)]) simp
    moreover have "rs_next s \<notin> rk_id ` set (rs_clients s)" using old(3) unfolding list_all_iff by (metis imageE less_irrefl)
    moreover have "map rk_hash (rs_clients s') = map rk_hash (rs_clients s) @ [rk_hash new]"
      "map rk_id (rs_clients s') = map rk_id (rs_clients s) @ [rs_next s]"
      by (simp_all only: new(2,3) map_append list.map)
    ultimately show ?thesis
      using old(1,2) new(1) unfolding store_ok_def by (simp only: distinct_append new(2-4) list_all_append) simp
  next
    case rev
    have "list_all (\<lambda>c. rk_id c < rs_next s) (revoke_rows now i (rs_clients s))"
      using assms(1) unfolding store_ok_def revoke_rows_def list.pred_map by (auto simp: list_all_iff)
    with assms(1) rev show ?thesis by (simp add: store_ok_def)
  qed
qed

lemma clients_ok_step:
  assumes ok: "clients_ok H cfg calls rs s" and step: "client_step H cfg c r s s'"
  shows "clients_ok H cfg (calls @ [c]) (rs @ [r]) s'"
proof -
  have len: "length rs = length calls" and st: "store_ok s"
    and made: "\<forall>c \<in> set (rs_clients s). \<exists>raw \<in> made_keys cfg calls. rk_hash c = hash_key H (new_key raw)"
    and gone: "\<forall>i \<in> revoked_ids calls rs. i < rs_next s \<and> (\<forall>c \<in> set (rs_clients s). rk_id c = i \<longrightarrow> rk_revoked c \<noteq> None)"
    and issued: "\<forall>i n k. R_created i n k \<in> set rs \<longrightarrow> (\<exists>c \<in> set (rs_clients s). rk_id c = i \<and> rk_hash c = hash_key H k
          \<and> (rk_revoked c \<noteq> None \<longrightarrow> Some i \<in> revoke_target ` set calls) \<and> (\<exists>raw. k = new_key raw))"
    using ok unfolding clients_ok_def by blast+
  note st' = store_ok_step [OF st step]
  have below: "rk_id x < rs_next s" if "x \<in> set (rs_clients s)" for x
    using st that by (auto simp: store_ok_def list_all_iff)
  consider (same) "s' = s" "\<forall>i n k. r \<noteq> R_created i n k" "r \<noteq> R_no_content"
    | (new) raw new where "made_keys cfg [c] = {raw}" "rk_hash new = hash_key H (new_key raw)" "rk_id new = rs_next s"
        "rk_revoked new = None" "rs_clients s' = rs_clients s @ [new]" "rs_next s' = rs_next s + 1" "r \<noteq> R_no_content"
        "\<forall>i n k. r = R_created i n k \<longrightarrow> i = rs_next s \<and> k = new_key raw"
    | (rev) i now where "revoke_target c = Some i" "s' = s\<lparr>rs_clients := revoke_rows now i (rs_clients s)\<rparr>"
        "r = R_no_content \<longrightarrow> list_ex (revocable i) (rs_clients s)" "\<forall>i n k. r \<noteq> R_created i n k"
    using step unfolding client_step_def by blast
  then show ?thesis
  proof cases
    case same
    have m: "\<forall>x \<in> set (rs_clients s). \<exists>raw \<in> made_keys cfg calls \<union> made_keys cfg [c]. rk_hash x = hash_key H (new_key raw)"
      using made by blast
    have i: "\<exists>x \<in> set (rs_clients s). rk_id x = i \<and> rk_hash x = hash_key H k
          \<and> (rk_revoked x \<noteq> None \<longrightarrow> Some i \<in> revoke_target ` set (calls @ [c])) \<and> (\<exists>raw. k = new_key raw)"
      if "R_created i n k \<in> set (rs @ [r])" for i n k
    proof -
      have "R_created i n k \<in> set rs" using that same(2) by auto
      with issued show ?thesis by fastforce
    qed
    show ?thesis
      unfolding clients_ok_def revoked_ids_snoc [OF len] made_keys_snoc same(1) using len st gone m i same(3) by simp
  next
    case new
    have g: "\<forall>i \<in> revoked_ids calls rs. i < rs_next s' \<and> (\<forall>c \<in> set (rs_clients s'). rk_id c = i \<longrightarrow> rk_revoked c \<noteq> None)"
      using gone new(3,5,6) by fastforce
    have m: "\<forall>x \<in> set (rs_clients s'). \<exists>raw \<in> made_keys cfg calls \<union> made_keys cfg [c]. rk_hash x = hash_key H (new_key raw)"
      using made new(1,2,5) by auto
    have i: "\<exists>x \<in> set (rs_clients s'). rk_id x = i \<and> rk_hash x = hash_key H k
          \<and> (rk_revoked x \<noteq> None \<longrightarrow> Some i \<in> revoke_target ` set (calls @ [c])) \<and> (\<exists>raw. k = new_key raw)"
      if "R_created i n k \<in> set (rs @ [r])" for i n k
    proof (cases "R_created i n k \<in> set rs")
      case True
      with issued new(5) show ?thesis by fastforce
    next
      case False
      with that have "i = rs_next s" "k = new_key raw" using new(8) by auto
      with new show ?thesis by auto
    qed
    show ?thesis
      unfolding clients_ok_def revoked_ids_snoc [OF len] made_keys_snoc using len st' g m i new(7) by simp
  next
    case rev
    have rows: "rs_clients s' = revoke_rows now i (rs_clients s)" "rs_next s' = rs_next s" using rev(2) by simp_all
    have g1: "j < rs_next s' \<and> (\<forall>x \<in> set (rs_clients s'). rk_id x = j \<longrightarrow> rk_revoked x \<noteq> None)"
      if "j \<in> revoked_ids calls rs" for j
    proof -
      have old: "j < rs_next s" "\<forall>c \<in> set (rs_clients s). rk_id c = j \<longrightarrow> rk_revoked c \<noteq> None" using gone that by blast+
      have "rk_revoked x \<noteq> None" if here: "x \<in> set (rs_clients s')" and idx: "rk_id x = j" for x
      proof -
        obtain y where "y \<in> set (rs_clients s)" "x = (if revocable i y then y\<lparr>rk_revoked := Some now\<rparr> else y)"
          using here unfolding rows revoke_rows_in by blast
        with old(2) idx show ?thesis by (cases "revocable i y") auto
      qed
      with old(1) rows(2) show ?thesis by simp
    qed
    have g2: "i < rs_next s' \<and> (\<forall>x \<in> set (rs_clients s'). rk_id x = i \<longrightarrow> rk_revoked x \<noteq> None)" if told: "r = R_no_content"
    proof -
      obtain x where "x \<in> set (rs_clients s)" "rk_id x = i" using rev(3) told by (auto simp: list_ex_iff revocable_def)
      then show ?thesis using below unfolding rows by (auto simp: revoke_rows_in revocable_def)
    qed
    have m: "\<forall>x \<in> set (rs_clients s'). \<exists>raw \<in> made_keys cfg calls \<union> made_keys cfg [c]. rk_hash x = hash_key H (new_key raw)"
    proof
      fix x assume "x \<in> set (rs_clients s')"
      then obtain y where "y \<in> set (rs_clients s)" "x = (if revocable i y then y\<lparr>rk_revoked := Some now\<rparr> else y)"
        unfolding rows revoke_rows_in by blast
      moreover from this(2) have "rk_hash x = rk_hash y" by (cases "revocable i y") simp_all
      ultimately show "\<exists>raw \<in> made_keys cfg calls \<union> made_keys cfg [c]. rk_hash x = hash_key H (new_key raw)"
        using made by (metis UnI1)
    qed
    have iss: "\<exists>x \<in> set (rs_clients s'). rk_id x = j \<and> rk_hash x = hash_key H k
          \<and> (rk_revoked x \<noteq> None \<longrightarrow> Some j \<in> revoke_target ` set (calls @ [c])) \<and> (\<exists>raw. k = new_key raw)"
      if "R_created j n k \<in> set (rs @ [r])" for j n k
    proof -
      have "R_created j n k \<in> set rs" using that rev(4) by auto
      then obtain x where x: "x \<in> set (rs_clients s)" "rk_id x = j" "rk_hash x = hash_key H k" "\<exists>raw. k = new_key raw"
        "rk_revoked x \<noteq> None \<longrightarrow> Some j \<in> revoke_target ` set calls" using issued by blast
      let ?x = "if revocable i x then x\<lparr>rk_revoked := Some now\<rparr> else x"
      have "?x \<in> set (rs_clients s')" using x(1) unfolding rows revoke_rows_in by blast
      moreover have "Some j \<in> revoke_target ` set (calls @ [c])" if "revocable i x"
        using that rev(1) x(2) by (force simp: revocable_def)
      ultimately show ?thesis using x(2-5) by (intro bexI [of _ ?x]) auto
    qed
    show ?thesis
      unfolding clients_ok_def revoked_ids_snoc [OF len] made_keys_snoc using len st' g1 g2 m iss rev(1) by auto
  qed
qed

lemma registry_run_ok:
  "registry_run H G cfg calls w = (rs, s, w') \<Longrightarrow> clients_ok H cfg calls rs (rv_store s)"
proof (induction calls arbitrary: rs s w' rule: rev_induct)
  case Nil
  then show ?case by (auto simp: registry_run_def empty_registry_def clients_ok_def store_ok_def revoked_ids_def)
next
  case (snoc c calls)
  obtain rs0 s0 w0 where before: "registry_run H G cfg calls w = (rs0, s0, w0)" by (rule prod_cases3)
  obtain r s1 w1 where h: "registry_handle H G cfg c s0 w0 = (r, s1, w1)" by (rule prod_cases3)
  have "rs = rs0 @ [r]" "s = s1"
    using snoc.prems before h by (simp_all add: registry_run_def serve_def)
  then show ?case using clients_ok_step [OF snoc.IH [OF before] registry_step [OF h]] by simp
qed

text \<open>C24: Who gets the catalog: after any history of requests, however they fail, a request passes only with a key (up to
  collisions of the hash) that was made for the administrator's token and whose client was not revoked; and a key that
  was handed out passes as long as nobody asked to revoke its client.\<close>

theorem registry_admits:
  assumes "registry_run H G cfg calls w = (rs, s, w')"
  shows "(require_client_auth H f (rv_store s) header = None \<longrightarrow>
      (\<exists>c \<in> set (rs_clients (rv_store s)). rk_hash c = hash_key H (bearer_token header) \<and> rk_id c \<notin> revoked_ids calls rs
        \<and> hash_key H (bearer_token header) \<in> (\<lambda>raw. hash_key H (new_key raw)) ` made_keys cfg calls))
    \<and> (R_created i name key \<in> set rs \<and> Some i \<notin> revoke_target ` set calls \<longrightarrow>
        require_client_auth H no_faults (rv_store s) (''Bearer '' @ key) = None)"
proof -
  let ?s = "rv_store s"
  note ok = registry_run_ok [OF assms, unfolded clients_ok_def]
  show ?thesis
  proof (intro conjI impI)
    assume "require_client_auth H f ?s header = None"
    then obtain c where c: "find (\<lambda>c. rk_hash c = hash_key H (bearer_token header)) (rs_clients ?s) = Some c" "rk_revoked c = None"
      by (auto simp: require_client_auth_def authenticate_def Let_def split: if_splits option.splits sum.splits auth_error.splits)
    from find_Some_set [OF c(1)] have in_s: "c \<in> set (rs_clients ?s)" "rk_hash c = hash_key H (bearer_token header)" by simp_all
    moreover from ok in_s(1) c(2) have "rk_id c \<notin> revoked_ids calls rs" by blast
    moreover from ok in_s(1) obtain raw where "raw \<in> made_keys cfg calls" "rk_hash c = hash_key H (new_key raw)" by blast
    ultimately show "\<exists>c \<in> set (rs_clients ?s). rk_hash c = hash_key H (bearer_token header) \<and> rk_id c \<notin> revoked_ids calls rs
        \<and> hash_key H (bearer_token header) \<in> (\<lambda>raw. hash_key H (new_key raw)) ` made_keys cfg calls"
      by (intro bexI [of _ c] conjI image_eqI [of _ _ raw]) simp_all
  next
    assume a: "R_created i name key \<in> set rs \<and> Some i \<notin> revoke_target ` set calls"
    then obtain c raw where c: "c \<in> set (rs_clients ?s)" "rk_hash c = hash_key H key" "rk_revoked c = None" "key = new_key raw"
      using ok by blast
    have "find (\<lambda>x. rk_hash x = hash_key H key) (rs_clients ?s) = Some c"
    proof -
      have "inj_on rk_hash (set (rs_clients ?s))" using ok by (simp add: store_ok_def distinct_map)
      then show ?thesis using c(1,2)
        by (cases "find (\<lambda>x. rk_hash x = hash_key H key) (rs_clients ?s)")
          (auto dest!: find_Some_set simp: find_None_set inj_on_def)
    qed
    moreover have "bearer_token (''Bearer '' @ key) = key" "key \<noteq> []" using c(4) by (simp_all add: bearer_token_def new_key_def)
    ultimately show "require_client_auth H no_faults ?s (''Bearer '' @ key) = None"
      using c(3) by (simp add: require_client_auth_def authenticate_def)
  qed
qed

section \<open>What the index says\<close>

lemma b64_letter_round: "v < 64 \<Longrightarrow> b64_value (b64_chr v) = Some v \<and> b64_chr v \<noteq> CHR ''=''"
proof -
  have "list_all (\<lambda>v. b64_value (b64_chr v) = Some v \<and> b64_chr v \<noteq> CHR ''='') [0..<64]" by code_simp
  then show "v < 64 \<Longrightarrow> ?thesis" by (simp add: list_all_iff)
qed

lemma byte_split:
  "byte c div 4 < 64" "byte c mod 4 * 16 + byte d div 16 < 64" "byte c mod 16 * 4 + byte d div 64 < 64" "byte c mod 64 < 64"
  "byte c mod 4 * 16 < 64" "byte c mod 16 * 4 < 64"
proof -
  have "byte c < 256" "byte d div 16 < 16" "byte d div 64 < 4" "byte c mod 4 < 4" "byte c mod 16 < 16"
    using byte_less [of c] byte_less [of d] by auto
  then show "byte c div 4 < 64" "byte c mod 4 * 16 + byte d div 16 < 64" "byte c mod 16 * 4 + byte d div 64 < 64"
    "byte c mod 64 < 64" "byte c mod 4 * 16 < 64" "byte c mod 16 * 4 < 64" by linarith+
qed

lemma b64_bytes:
  "b64_byte1 (byte a div 4) (byte a mod 4 * 16) = a"
  "b64_byte1 (byte a div 4) (byte a mod 4 * 16 + byte b div 16) = a"
  "b64_byte2 (byte a mod 4 * 16 + byte b div 16) (byte b mod 16 * 4) = b"
  "b64_byte2 (byte a mod 4 * 16 + byte b div 16) (byte b mod 16 * 4 + byte c div 64) = b"
  "b64_byte3 (byte b mod 16 * 4 + byte c div 64) (byte c mod 64) = c"
proof -
  have small: "byte b div 16 < 16" "byte c div 64 < 4" using byte_less [of b] byte_less [of c] by auto
  have "(byte a mod 4 * 16 + byte b div 16) div 16 = byte a mod 4" "(byte a mod 4 * 16 + byte b div 16) mod 16 = byte b div 16"
    "(byte b mod 16 * 4 + byte c div 64) div 4 = byte b mod 16" "(byte b mod 16 * 4 + byte c div 64) mod 4 = byte c div 64"
    using small by simp_all
  moreover have "char_of (byte x) = x" for x by (simp add: byte_def)
  ultimately show "b64_byte1 (byte a div 4) (byte a mod 4 * 16) = a"
    "b64_byte1 (byte a div 4) (byte a mod 4 * 16 + byte b div 16) = a"
    "b64_byte2 (byte a mod 4 * 16 + byte b div 16) (byte b mod 16 * 4) = b"
    "b64_byte2 (byte a mod 4 * 16 + byte b div 16) (byte b mod 16 * 4 + byte c div 64) = b"
    "b64_byte3 (byte b mod 16 * 4 + byte c div 64) (byte c mod 64) = c"
    by (simp_all add: b64_byte1_def b64_byte2_def b64_byte3_def)
qed

lemma base64_round: "base64_decode (base64 s) = Some s"
  by (induction s rule: base64.induct) (simp_all add: b64_letter_round byte_split b64_bytes)

lemma strip_base64: "strip_whitespace (base64 s) = base64 s"
proof -
  have "list_all (\<lambda>v. b64_chr v \<notin> {CHR 0x0A, CHR 0x0D, CHR '' ''}) [0..<64]" by code_simp
  then have "b64_chr v \<notin> {CHR 0x0A, CHR 0x0D, CHR '' ''}" if "v < 64" for v using that by (simp add: list_all_iff)
  then have "list_all (\<lambda>c. c \<noteq> CHR 0x0A \<and> c \<noteq> CHR 0x0D \<and> c \<noteq> CHR '' '') (base64 s)"
    by (induction s rule: base64.induct) (simp_all add: byte_split)
  then show ?thesis by (simp add: strip_whitespace_def list_all_iff)
qed

text \<open>The index reaches the customers as it was published: when GitHub answers with the text in base64, broken into
  lines in any way, a request with nothing fresh in the cache is answered with that very text, and so is every request of
  the next thirty seconds without asking GitHub again.\<close>

theorem index_as_published:
  assumes "rv_cache s = None \<or> (\<exists>old at. rv_cache s = Some (old, at) \<and> index_cache_ttl < now - at)"
    and "url_parse (repo_url cfg @ ''/contents/index.json'') \<noteq> None"
    and "gh_do G (repo_url cfg @ ''/contents/index.json'') (''Bearer '' @ rg_token cfg) json_type w
      = (Inr \<lparr>ga_status = 200, ga_body = body, ga_whole = True\<rparr>, w1)"
    and "gh_contents G body = Some (content, ''base64'')" "strip_whitespace content = base64 text'"
  shows "fst (handle_index G cfg now s w) = R_text text'
    \<and> (\<forall>later \<le> now + 30 * second. handle_index G cfg later (fst (snd (handle_index G cfg now s w))) w2
         = (R_text text', fst (snd (handle_index G cfg now s w)), w2))"
proof -
  have "fetch_repo_index G cfg w = (Inr text', w1)"
    using assms(2-5) by (simp add: fetch_repo_index_def authed_request_def base64_round)
  then have "handle_index G cfg now s w = (R_text text', s\<lparr>rv_cache := Some (text', now)\<rparr>, w1)"
    using assms(1) by (auto simp: handle_index_def)
  then show ?thesis by (simp add: handle_index_def index_cache_ttl_def)
qed

text \<open>While GitHub cannot be reached the old index is served, but its age is not renewed: every request asks again.\<close>

lemma outage_asks_again:
  assumes "rv_cache s = Some (old, at)" "index_cache_ttl < now - at" "fetch_repo_index G cfg w = (Inl e, w1)"
  shows "handle_index G cfg now s w = (R_text old, s, w1)"
  using assms by (simp add: handle_index_def)

section \<open>A small registry\<close>

definition small_config :: reg_config where
  "small_config = \<lparr>rg_listen = [], rg_db_path = [], rg_token = ''t'', rg_owner = ''o'', rg_repo = ''r'', rg_base = ''http://g'',
     rg_admin = ''boss''\<rparr>"

definition small_github :: "unit github" where
  "small_github = \<lparr>gh_do = (\<lambda>_ _ _ w. (Inr \<lparr>ga_status = 200, ga_body = [], ga_whole = True\<rparr>, w)),
     gh_contents = (\<lambda>_. Some (base64 ''hi'' @ [CHR 0x0A], ''base64'')), gh_release = (\<lambda>_. None)\<rparr>"

definition small_call :: "reg_route \<Rightarrow> string option \<Rightarrow> reg_call" where
  "small_call route rnd = \<lparr>rc_route = route, rc_header = ''Bearer boss'', rc_now = 0, rc_faults = no_faults, rc_random = rnd\<rparr>"

definition small_calls :: "reg_call list" where
  "small_calls = [small_call (R_create (Some ''ann'')) (Some ''x''), small_call (R_create (Some ''bob'')) (Some ''y''),
     small_call (R_revoke ''2'') None]"

lemma small_run:
  "\<exists>s. registry_run id small_github small_config small_calls () =
     ([R_created 1 ''ann'' ''reg_eA'', R_created 2 ''bob'' ''reg_eQ'', R_no_content], s, ())
   \<and> map rk_revoked (rs_clients (rv_store s)) = [None, Some 0]"
proof -
  have k: "new_key ''x'' = ''reg_eA''" "new_key ''y'' = ''reg_eQ''" by code_simp+
  have p: "parse_int64 ''2'' = Some 2" by code_simp
  have h: "bearer_token ''Bearer boss'' = ''boss''" by code_simp
  show ?thesis
    by (simp add: registry_run_def small_calls_def serve_def registry_handle_def route_guard_def is_admin_route_def
        small_call_def require_admin_auth_def small_config_def h handle_create_def create_client_def k hash_key_def
        handle_revoke_def p revoke_client_def on_store_def empty_registry_def revoke_rows_def revocable_def Let_def)
qed

theorem registry_admits_witness:
  "\<exists>rs s. registry_run id small_github small_config small_calls () = (rs, s, ())
    \<and> require_client_auth id no_faults (rv_store s) ''Bearer reg_eA'' = None
    \<and> map rk_revoked (rs_clients (rv_store s)) = [None, Some 0]"
proof -
  from small_run obtain s where both: "registry_run id small_github small_config small_calls () =
     ([R_created 1 ''ann'' ''reg_eA'', R_created 2 ''bob'' ''reg_eQ'', R_no_content], s, ())
   \<and> map rk_revoked (rs_clients (rv_store s)) = [None, Some 0]" by (rule exE)
  note run = conjunct1 [OF both] and rows = conjunct2 [OF both]
  have "parse_int64 ''2'' = Some 2" by code_simp
  then have "Some 1 \<notin> revoke_target ` set small_calls"
    by (simp add: small_calls_def small_call_def revoke_target_def)
  then have "require_client_auth id no_faults (rv_store s) (''Bearer '' @ ''reg_eA'') = None"
    using registry_admits [where i = 1 and name = "''ann''" and key = "''reg_eA''", OF run] by simp
  then have "require_client_auth id no_faults (rv_store s) ''Bearer reg_eA'' = None" by simp
  with run rows show ?thesis by (intro exI conjI)
qed

theorem index_as_published_witness:
  "fst (handle_index small_github small_config 0 empty_registry ()) = R_text ''hi''"
proof -
  have url: "url_parse (repo_url small_config @ ''/contents/index.json'') \<noteq> None" by code_simp
  have strip: "strip_whitespace (base64 ''hi'' @ [CHR 0x0A]) = base64 ''hi''" by code_simp
  have "rv_cache empty_registry = None" by (simp add: empty_registry_def)
  then show ?thesis
    using index_as_published [where G = small_github and cfg = small_config and s = empty_registry and w = "()" and ?w1.0 = "()"
        and now = 0 and body = "[]" and text' = "''hi''", OF _ url _ _ strip]
    by (simp add: small_github_def)
qed

end
