(* ===== verification/ModuleApi.thy ===== *)
theory ModuleApi
  imports ModuleUpdateExamples Docker LogApi
begin

text \<open>
  The module store of the administrator's panel (\<open>backend/internal/api/modules.go\<close>), the settings page
  (\<open>settings.go\<close>) and the logs of a module with what is masked in them (\<open>modulelogs.go\<close>).  The state is that of the
  module manager and its updates; a job started beside the answer is named by what it does.
\<close>

section \<open>Which settings are shown\<close>

definition sensitive_hints :: "string list" where
  "sensitive_hints = [''password'', ''secret'', ''token'', ''_key'', ''apikey'', ''database_url'']"

definition looks_sensitive :: "(string \<Rightarrow> string) \<Rightarrow> string \<Rightarrow> bool" where
  "looks_sensitive other key = list_ex (contains_text (to_lower other key)) sensitive_hints"

definition redacted_keys :: "manifest \<Rightarrow> string list" where
  "redacted_keys mf = map cf_key (filter (\<lambda>fd. cf_hidden fd \<or> has_prefix (cf_type fd) ''secret'') (mf_schema mf))"

definition redact_secret_config :: "(string \<Rightarrow> string) \<Rightarrow> manifest \<Rightarrow> config \<Rightarrow> config" where
  "redact_secret_config other mf cfg =
     filter (\<lambda>(k, v). \<not> (k \<in> set (redacted_keys mf) \<or> looks_sensitive other k)) cfg"

section \<open>The handlers of the module store\<close>

definition admin_only ::
  "faults \<Rightarrow> time \<Rightarrow> admin_db \<Rightarrow> string \<Rightarrow> ('s \<Rightarrow> 'a result \<times> 's) \<Rightarrow> 's \<Rightarrow> 'a result \<times> 's" where
  "admin_only f now db tok k s = (case require_auth f now db tok of Inl e \<Rightarrow> (Inl e, s) | Inr _ \<Rightarrow> k s)"

text \<open>An operation of the manager, whose error becomes a 400.\<close>

definition manager_op :: "string \<Rightarrow> (manager \<Rightarrow> (string + 'a) \<times> manager) \<Rightarrow> upd_state \<Rightarrow> 'a result \<times> upd_state" where
  "manager_op what g s =
     (case g (us_mgr s) of
        (Inl e, m) \<Rightarrow> (Inl (HTTP 400 what), s\<lparr>us_mgr := m\<rparr>)
      | (Inr x, m) \<Rightarrow> (Inr x, s\<lparr>us_mgr := m\<rparr>))"

record module_page =
  mp_catalog :: "manifest list"
  mp_statuses :: "mod_status list"
  mp_links :: "(string \<times> (string \<times> string) list) list"
  mp_updates :: "(string \<times> upd_info) list"

definition redact_status :: "(string \<Rightarrow> string) \<Rightarrow> manager \<Rightarrow> mod_status \<Rightarrow> mod_status" where
  "redact_status other m st =
     (case in_catalog m (ms_id st) of
        None \<Rightarrow> st
      | Some mf \<Rightarrow> st\<lparr>ms_config := redact_secret_config other mf (ms_config st)\<rparr>)"

definition module_links :: "manager \<Rightarrow> manifest \<Rightarrow> string \<times> (string \<times> string) list" where
  "module_links m mf = (mf_id mf, map (\<lambda>r. (xr_name r, host_name (mg_domain m) (mf_id mf) (xr_name r))) (mf_routes mf))"

definition list_modules ::
  "(string \<Rightarrow> string) \<Rightarrow> faults \<Rightarrow> faults \<Rightarrow> time \<Rightarrow> admin_db \<Rightarrow> string \<Rightarrow> upd_state \<Rightarrow> module_page result \<times> upd_state" where
  "list_modules other f fm now db tok = admin_only f now db tok (\<lambda>s.
     (case list_statuses fm (us_mgr s) of
        Inl e \<Rightarrow> (Inl (internal_error ''list statuses''), s)
      | Inr sts \<Rightarrow>
          (Inr \<lparr>mp_catalog = catalog_list (us_mgr s), mp_statuses = map (redact_status other (us_mgr s)) sts,
                mp_links = filter (\<lambda>l. snd l \<noteq> []) (map (module_links (us_mgr s)) (catalog_list (us_mgr s))),
                mp_updates = updates_snapshot s\<rparr>, s)))"

text \<open>What runs beside the installation, each waiting for the module to come up.\<close>

datatype set_up_job = Set_up_vpn | Set_up_mesh | Set_up_calendar | Set_up_share

definition set_up_jobs :: "string \<Rightarrow> set_up_job list" where
  "set_up_jobs mid =
     (if mid = ''vpn-netbird'' then [Set_up_vpn] else []) @
     (if mid = ''compute-mesh'' then [Set_up_mesh] else []) @
     (if mid = ''calendar-radicale'' then [Set_up_calendar] else []) @
     (if mid = ''fileshare-webdav'' then [Set_up_share] else [])"

definition install_module ::
  "faults \<Rightarrow> time \<Rightarrow> admin_db \<Rightarrow> lc_env \<Rightarrow> string \<Rightarrow> string \<Rightarrow> config \<Rightarrow> upd_state
     \<Rightarrow> ((manifest \<times> config) \<times> set_up_job list) result \<times> upd_state" where
  "install_module f now db env tok mid body = admin_only f now db tok (\<lambda>s.
     (case manager_op ''install failed'' (\<lambda>m. install env m mid body) s of
        (Inl e, s1) \<Rightarrow> (Inl e, s1)
      | (Inr job, s1) \<Rightarrow> (Inr (job, set_up_jobs mid), s1)))"

definition enable_module ::
  "faults \<Rightarrow> time \<Rightarrow> admin_db \<Rightarrow> lc_env \<Rightarrow> string \<Rightarrow> string \<Rightarrow> upd_state \<Rightarrow> unit result \<times> upd_state" where
  "enable_module f now db env tok mid = admin_only f now db tok (manager_op ''enable failed'' (\<lambda>m. enable env m mid))"

definition disable_module ::
  "faults \<Rightarrow> time \<Rightarrow> admin_db \<Rightarrow> lc_env \<Rightarrow> string \<Rightarrow> string \<Rightarrow> upd_state \<Rightarrow> unit result \<times> upd_state" where
  "disable_module f now db env tok mid = admin_only f now db tok (manager_op ''disable failed'' (\<lambda>m. disable env m mid))"

definition set_module_visibility ::
  "faults \<Rightarrow> faults \<Rightarrow> time \<Rightarrow> admin_db \<Rightarrow> string \<Rightarrow> string \<Rightarrow> string \<Rightarrow> upd_state \<Rightarrow> unit result \<times> upd_state" where
  "set_module_visibility f fm now db tok mid v =
     admin_only f now db tok (manager_op ''set visibility failed'' (\<lambda>m. set_visibility fm m mid v))"

definition uninstall_module ::
  "faults \<Rightarrow> time \<Rightarrow> admin_db \<Rightarrow> lc_env \<Rightarrow> string \<Rightarrow> string \<Rightarrow> upd_state \<Rightarrow> unit result \<times> upd_state" where
  "uninstall_module f now db env tok mid =
     admin_only f now db tok (manager_op ''uninstall failed'' (\<lambda>m. uninstall env m mid))"

definition check_module_updates ::
  "faults \<Rightarrow> time \<Rightarrow> admin_db \<Rightarrow> repo_env \<Rightarrow> string \<Rightarrow> upd_state \<Rightarrow> upd_info list result \<times> upd_state" where
  "check_module_updates f now db repo tok = admin_only f now db tok (\<lambda>s.
     (case check_for_updates repo s of
        (Inl e, s1) \<Rightarrow> (Inl (HTTP 502 ''could not reach the module registry''), s1)
      | (Inr us, s1) \<Rightarrow> (Inr us, s1)))"

definition update_module ::
  "faults \<Rightarrow> time \<Rightarrow> admin_db \<Rightarrow> string \<Rightarrow> string \<Rightarrow> upd_state \<Rightarrow> index_entry result \<times> upd_state" where
  "update_module f now db tok mid = admin_only f now db tok (\<lambda>s.
     (case apply_update s mid of
        (Inl e, s1) \<Rightarrow> (Inl (HTTP 400 ''update failed''), s1)
      | (Inr entry, s1) \<Rightarrow> (Inr entry, s1)))"

section \<open>Settings\<close>

record settings_out =
  so_domain :: string
  so_theme :: string
  so_version :: string

definition get_platform_settings ::
  "string \<Rightarrow> faults \<Rightarrow> time \<Rightarrow> admin_db \<Rightarrow> string \<Rightarrow> manager \<Rightarrow> settings_out result \<times> manager" where
  "get_platform_settings version f now db tok = admin_only f now db tok (\<lambda>m.
     (Inr \<lparr>so_domain = mg_domain m, so_theme = mg_theme m, so_version = version\<rparr>, m))"

definition bad_domain_chr :: "char \<Rightarrow> bool" where
  "bad_domain_chr c \<longleftrightarrow> c = CHR '' '' \<or> c = CHR ''/'' \<or> c = CHR '':'' \<or> c = CHR 0x5C"

definition update_settings ::
  "(string \<Rightarrow> string) \<Rightarrow> string \<Rightarrow> faults \<Rightarrow> faults \<Rightarrow> time \<Rightarrow> admin_db \<Rightarrow> string \<Rightarrow> string \<Rightarrow> string \<Rightarrow> manager
     \<Rightarrow> settings_out result \<times> manager" where
  "update_settings other version f fm now db tok base_domain theme = admin_only f now db tok (\<lambda>m.
     (let domain = to_lower other (trim_space base_domain) in
      if domain = [] then (Inl (HTTP 400 ''domain can't be empty''), m)
      else if list_ex bad_domain_chr domain then (Inl (HTTP 400 ''just the domain''), m)
      else if theme \<noteq> ''slate'' \<and> theme \<noteq> ''stone'' then (Inl (HTTP 400 ''theme must be slate or stone''), m)
      else (case set_base_domain fm domain m of
         (Inl e, m1) \<Rightarrow> (Inl (internal_error ''save domain''), m1)
       | (Inr _, m1) \<Rightarrow>
           (case set_theme fm theme m1 of
              (Inl e, m2) \<Rightarrow> (Inl (internal_error ''save theme''), m2)
            | (Inr _, m2) \<Rightarrow> (Inr \<lparr>so_domain = domain, so_theme = theme, so_version = version\<rparr>, m2)))))"

definition get_theme :: "manager \<Rightarrow> string" where
  "get_theme m = mg_theme m"

section \<open>Masking\<close>

text \<open>
  \<open>ReplaceAllString\<close>: at each position, from left to right, the matcher is given the byte before and the text from there
  on; a match gives what replaces it and the text behind it.  Letters that only Unicode folds to ASCII ones are left out.
\<close>

type_synonym matcher = "char option \<Rightarrow> string \<Rightarrow> (string \<times> string) option"

function replace_all :: "matcher \<Rightarrow> char option \<Rightarrow> string \<Rightarrow> string" where
  "replace_all mt prev [] = []"
| "replace_all mt prev (c # cs) =
     (case mt prev (c # cs) of
        None \<Rightarrow> c # replace_all mt (Some c) cs
      | Some (out, rest) \<Rightarrow>
          if length rest \<le> length cs
          then out @ replace_all mt (Some (last (take (length (c # cs) - length rest) (c # cs)))) rest
          else c # replace_all mt (Some c) cs)"
  by pat_completeness auto
termination
  by (relation "measure (\<lambda>(_, _, s). length s)") auto

definition re_space :: "char \<Rightarrow> bool" where
  "re_space c \<longleftrightarrow> c \<in> {CHR 0x09, CHR 0x0A, CHR 0x0C, CHR 0x0D, CHR '' ''}"

definition re_letter :: "char \<Rightarrow> bool" where
  "re_letter c \<longleftrightarrow> in_range 0x41 0x5A c \<or> in_range 0x61 0x7A c"

definition re_word :: "char \<Rightarrow> bool" where
  "re_word c \<longleftrightarrow> re_letter c \<or> is_digit c \<or> c = CHR ''_''"

text \<open>The text behind a literal, in letters of either case.\<close>

definition after_literal :: "string \<Rightarrow> string \<Rightarrow> string option" where
  "after_literal p s = (if has_prefix (map lower_chr s) p then Some (drop (length p) s) else None)"

definition hidden_mark :: string where "hidden_mark = ''[hidden]''"

definition token_chr :: "char \<Rightarrow> bool" where
  "token_chr c \<longleftrightarrow> re_letter c \<or> is_digit c \<or> c \<in> set ''._~+/=-''"

definition bearer_match :: matcher where
  "bearer_match prev s =
     (if (case prev of None \<Rightarrow> False | Some c \<Rightarrow> re_word c) then None
      else case (case after_literal ''bearer'' s of Some r \<Rightarrow> Some r | None \<Rightarrow> after_literal ''basic'' s) of
        None \<Rightarrow> None
      | Some r \<Rightarrow>
          (let v = dropWhile re_space r in
           if length v = length r \<or> length (takeWhile token_chr v) < 6 then None
           else Some (take (length s - length r) s @ '' '' @ hidden_mark, dropWhile token_chr v)))"

fun first_literal :: "string list \<Rightarrow> string \<Rightarrow> string option" where
  "first_literal [] s = None"
| "first_literal (p # ps) s = (case after_literal p s of Some r \<Rightarrow> Some r | None \<Rightarrow> first_literal ps s)"

definition pair_names :: "string list" where
  "pair_names = [''password'', ''passwd'', ''pass'', ''secret'', ''token'', ''api_key'', ''api-key'', ''apikey'',
     ''access_key'', ''access-key'', ''accesskey'', ''private_key'', ''private-key'', ''privatekey'',
     ''setup_key'', ''setup-key'', ''setupkey'', ''authorization'']"

definition quote_chr :: "char \<Rightarrow> bool" where
  "quote_chr c \<longleftrightarrow> c = CHR 0x22 \<or> c = CHR 0x27"

definition plain_value_chr :: "char \<Rightarrow> bool" where
  "plain_value_chr c \<longleftrightarrow> \<not> re_space c \<and> \<not> quote_chr c \<and> c \<notin> {CHR '','', CHR '';'', CHR ''&''}"

text \<open>The text behind a value: in quotes up to the closing one, else a run of other characters.\<close>

definition after_value :: "string \<Rightarrow> string option" where
  "after_value s =
     (case s of
        [] \<Rightarrow> None
      | c # cs \<Rightarrow>
          if quote_chr c then (case cut_chr c cs of (_, rest, found) \<Rightarrow> if found then Some rest else None)
          else if plain_value_chr c then Some (dropWhile plain_value_chr cs) else None)"

definition pair_match :: matcher where
  "pair_match prev s =
     (case first_literal pair_names s of
        None \<Rightarrow> None
      | Some r \<Rightarrow>
          (let r1 = (if r \<noteq> [] \<and> quote_chr (hd r) then tl r else r); r2 = dropWhile re_space r1 in
           if r2 = [] \<or> hd r2 \<notin> {CHR '':'', CHR ''=''} then None
           else (let v = dropWhile re_space (tl r2) in
                 map_option (\<lambda>rest. (take (length s - length v) s @ hidden_mark, rest)) (after_value v))))"

definition flag_match :: matcher where
  "flag_match prev s =
     (if \<not> has_prefix s ''--'' then None
      else (let run = takeWhile (\<lambda>c. re_letter c \<or> c = CHR ''-'') (drop 2 s); r = drop (2 + length run) s;
                v = dropWhile re_space r in
            if \<not> list_ex (contains_text (map lower_chr run)) [''pass'', ''secret'', ''token'', ''key''] then None
            else if length v = length r \<or> v = [] then None
            else Some (take (length s - length v) s @ hidden_mark, dropWhile (\<lambda>c. \<not> re_space c) v)))"

definition redact :: "string \<Rightarrow> string" where
  "redact s = replace_all flag_match None (replace_all pair_match None (replace_all bearer_match None s))"

section \<open>The logs of a module\<close>

definition log_lines :: "int \<Rightarrow> nat" where
  "log_lines lines = (if lines \<le> 0 then 300 else if 5000 < lines then 5000 else nat lines)"

definition module_logs ::
  "'s docker \<Rightarrow> string \<Rightarrow> faults \<Rightarrow> time \<Rightarrow> admin_db \<Rightarrow> manager \<Rightarrow> string \<Rightarrow> string \<Rightarrow> int \<Rightarrow> 's \<Rightarrow> string result \<times> 's" where
  "module_logs D host f now db m tok mid lines = admin_only f now db tok (\<lambda>s.
     (let n = log_lines lines in
      if mid \<noteq> ''platform'' \<and> in_catalog m mid = None then (Inl (HTTP 404 ''no such module''), s)
      else (case (if mid = ''platform'' then dk_self_logs D host n s else dk_project_logs D (project_name mid) n s) of
              (Inl e, s1) \<Rightarrow> (Inl (internal_error ''read module logs''), s1)
            | (Inr txt, s1) \<Rightarrow>
                (let out = redact txt in
                 (Inr (if trim_space out = [] then ''(nothing logged yet)'' @ [CHR 0x0A] else out), s1)))))"

section \<open>What is shown and what is not\<close>

lemma listed_status:
  assumes "list_statuses f m = Inr sts" "st \<in> set sts" "find_mod (mg_db m) (ms_id st) = Some r"
  shows "ms_config st = in_config r"
proof -
  let ?status = "\<lambda>mf. case find_mod (mg_db m) (mf_id mf) of
      Some r \<Rightarrow> status_of_row (mg_db m) r
    | None \<Rightarrow> \<lparr>ms_id = mf_id mf, ms_status = ''not_installed'', ms_config = [], ms_error = None, ms_vis = [], ms_port = None\<rparr>"
  have "sts = map ?status (catalog_list m)"
    using assms(1) by (simp add: list_statuses_def split: if_splits)
  with assms(2) have "st \<in> ?status ` set (catalog_list m)" by simp
  then obtain mf :: manifest where st: "st = ?status mf" by (rule imageE)
  show ?thesis
  proof (cases "find_mod (mg_db m) (mf_id mf)")
    case None
    with st assms(3) show ?thesis by simp
  next
    case (Some r')
    then have "in_id r' = mf_id mf" unfolding find_mod_def using find_Some_set by fastforce
    with Some st assms(3) show ?thesis by (simp add: status_of_row_def)
  qed
qed

text \<open>C29: The list of modules shows no secret: whatever is stored, a setting in it belongs to no field its module's manifest
  declares hidden or secret and its name hints at no secret, while every other stored setting is there unchanged.\<close>

theorem secrets_not_listed:
  assumes "list_modules other f fm now db tok s = (Inr page, s')" "st \<in> set (mp_statuses page)"
    and "find_mod (mg_db (us_mgr s)) (ms_id st) = Some r" "in_catalog (us_mgr s) (ms_id st) = Some mf"
  shows "(k, v) \<in> set (ms_config st) \<longleftrightarrow> (k, v) \<in> set (in_config r) \<and> \<not> looks_sensitive other k \<and>
    \<not> list_ex (\<lambda>fd. cf_key fd = k \<and> (cf_hidden fd \<or> has_prefix (cf_type fd) ''secret'')) (mf_schema mf)"
proof -
  obtain sts where sts: "list_statuses fm (us_mgr s) = Inr sts" and page: "mp_statuses page = map (redact_status other (us_mgr s)) sts"
    using assms(1) by (auto simp: list_modules_def admin_only_def split: sum.splits)
  then obtain st0 where st0: "st0 \<in> set sts" "st = redact_status other (us_mgr s) st0" using assms(2) by auto
  have id: "ms_id st = ms_id st0" using st0(2) by (simp add: redact_status_def split: option.splits)
  then have conf: "ms_config st = redact_secret_config other mf (ms_config st0)"
    using st0(2) assms(4) by (simp add: redact_status_def)
  have "ms_config st0 = in_config r" using listed_status [OF sts st0(1)] assms(3) id by simp
  then show ?thesis
    unfolding conf redact_secret_config_def redacted_keys_def list_ex_iff by auto
qed

definition shop_row :: inst_row where
  "shop_row = \<lparr>in_id = ''files'', in_status = ''running'', in_config = [(''PW'', ''s3cret''), (''color'', ''blue'')],
     in_error = None, in_vis = ''private''\<rparr>"

definition shop :: upd_state where
  "shop = ex_upd\<lparr>us_mgr := ex_manager\<lparr>mg_db := mgr_db\<lparr>cd_mods := [shop_row]\<rparr>\<rparr>\<rparr>"

theorem secrets_not_listed_witness:
  "\<exists>page st. list_modules id no_faults no_faults 5 (pf_admin log_platform) ''t'' shop = (Inr page, shop)
    \<and> st \<in> set (mp_statuses page) \<and> ms_id st = ''files''
    \<and> (''PW'', ''s3cret'') \<notin> set (ms_config st) \<and> (''color'', ''blue'') \<in> set (ms_config st)"
proof -
  have auth: "require_auth no_faults 5 (pf_admin log_platform) ''t'' = Inr ''a@x''"
    by (simp add: require_auth_def log_platform_session)
  have row: "find_mod (mg_db (us_mgr shop)) ''files'' = Some shop_row" by code_simp
  have cat: "catalog_list (us_mgr shop) = [ex_module]" "mf_id ex_module = ''files''" by code_simp+
  have found: "in_catalog (us_mgr shop) ''files'' = Some ex_module" by code_simp
  let ?st = "redact_status id (us_mgr shop) (status_of_row (mg_db (us_mgr shop)) shop_row)"
  have "list_statuses no_faults (us_mgr shop) = Inr [status_of_row (mg_db (us_mgr shop)) shop_row]"
    by (simp add: list_statuses_def cat row)
  then obtain page where page: "list_modules id no_faults no_faults 5 (pf_admin log_platform) ''t'' shop = (Inr page, shop)"
    "mp_statuses page = [?st]"
    using auth by (simp add: list_modules_def admin_only_def)
  have id: "ms_id ?st = ''files''"
    by (simp add: redact_status_def status_of_row_def shop_row_def split: option.splits)
  have "?st \<in> set (mp_statuses page)" using page(2) by simp
  note shown = secrets_not_listed [OF page(1) this row [folded id] found [folded id]]
  have "looks_sensitive id ''color'' = False" "\<not> list_ex (\<lambda>fd. cf_key fd = ''color'' \<and> (cf_hidden fd \<or> has_prefix (cf_type fd) ''secret'')) (mf_schema ex_module)"
    "list_ex (\<lambda>fd. cf_key fd = ''PW'' \<and> (cf_hidden fd \<or> has_prefix (cf_type fd) ''secret'')) (mf_schema ex_module)"
    by code_simp+
  then have "(''color'', ''blue'') \<in> set (ms_config ?st)" "(''PW'', ''s3cret'') \<notin> set (ms_config ?st)"
    unfolding shown by (simp_all add: shop_row_def)
  with page id show ?thesis by auto
qed

section \<open>Masked values\<close>

lemma after_literal_self: "map lower_chr p = p \<Longrightarrow> after_literal p (p @ r) = Some r"
proof -
  assume "map lower_chr p = p"
  moreover have "has_prefix (q @ t) q" for q t :: string by (induction q) auto
  ultimately show ?thesis by (simp add: after_literal_def)
qed

lemma replace_all_match:
  assumes "mt prev s = Some (out, rest)" "length rest < length s"
  shows "replace_all mt prev s = out @ replace_all mt (Some (last (take (length s - length rest) s))) rest"
proof (cases s)
  case (Cons c cs)
  have "length rest \<le> length cs" using assms(2) Cons by simp
  with assms(1) show ?thesis unfolding Cons replace_all.simps(2) by simp
qed (use assms(2) in simp)

text \<open>The value behind \<open>password=\<close> is gone, and masking goes on behind it.\<close>

lemma password_masked:
  assumes "v \<noteq> []" "list_all plain_value_chr v" "\<not> plain_value_chr c"
  shows "replace_all pair_match prev (''password='' @ v @ c # rest)
    = ''password='' @ hidden_mark @ replace_all pair_match (Some (last v)) (c # rest)"
proof -
  have name: "first_literal pair_names (''password='' @ v @ c # rest) = Some (''='' @ v @ c # rest)"
    using after_literal_self [of "''password''" "''='' @ v @ c # rest"]
    by (simp add: pair_names_def lower_chr_def byte_def)
  obtain x xs where v: "v = x # xs" using assms(1) by (cases v) auto
  then have x: "\<not> re_space x" "\<not> quote_chr x" "plain_value_chr x" using assms(2) by (simp_all add: plain_value_chr_def)
  have rest: "dropWhile plain_value_chr (xs @ c # rest) = c # rest"
    using assms(2,3) v by (simp add: list_all_iff dropWhile_append3)
  have "pair_match prev (''password='' @ v @ c # rest) = Some (''password='' @ hidden_mark, c # rest)"
    using x rest unfolding pair_match_def name
    by (simp add: quote_chr_def re_space_def v after_value_def byte_def)
  moreover have "last (take (length (''password='' @ v @ c # rest) - length (c # rest)) (''password='' @ v @ c # rest)) = last v"
  proof -
    have "last (take (length (p @ v @ r) - length r) (p @ v @ r)) = last v" for p r :: string
      using assms(1) by simp
    then show ?thesis .
  qed
  ultimately show ?thesis
    using replace_all_match [where mt = pair_match and s = "''password='' @ v @ c # rest"] by (simp del: replace_all.simps take.simps take_Suc_Cons take_append)
qed

end
