(* ===== verification/Monitor.thy ===== *)
theory Monitor
  imports Complex_Main Backup LogApi GoUrl ModuleApi
begin

text \<open>
  Watching over the installation (\<open>backend/internal/api/healthreport.go\<close>, \<open>monitor.go\<close>, \<open>watch.go\<close>, \<open>updatewatch.go\<close>,
  \<open>report.go\<close>): the health list, the samples of it, the entries of the system log when it changes, and the reports to
  the vendor with the licence they need.

  The numbers are rational: of \<open>float64\<close> the rounding of the last bit is left out.  Reading a number
  (\<open>strconv.ParseFloat\<close>, the value and whether there was no error), the precision of a column of type \<open>REAL\<close>, what the
  containers of a project are doing, the files of \<open>/proc\<close> and the answer of the vendor are parameters.
\<close>

section \<open>The machine\<close>

text \<open>One reading of the machine; of the disk the number of blocks, their size and the free ones.\<close>

record machine =
  hv_meminfo :: "string + string"
  hv_loadavg :: "string + string"
  hv_stat :: "string + string"
  hv_uptime :: "string + string"
  hv_disk :: "string + nat \<times> nat \<times> nat"

type_synonym float_reader = "string \<Rightarrow> rat \<times> bool"

definition mem_line :: "float_reader \<Rightarrow> rat \<times> rat \<Rightarrow> string \<Rightarrow> rat \<times> rat" where
  "mem_line pf acc line =
     (let f = GoStd.fields line in
      if length f < 2 then acc
      else if f ! 0 = ''MemTotal:'' then (fst (pf (f ! 1)), snd acc)
      else if f ! 0 = ''MemAvailable:'' then (fst acc, fst (pf (f ! 1)))
      else acc)"

definition mem_used_pct :: "float_reader \<Rightarrow> machine \<Rightarrow> string + rat" where
  "mem_used_pct pf h =
     (case hv_meminfo h of
        Inl e \<Rightarrow> Inl e
      | Inr raw \<Rightarrow>
          (case fold (\<lambda>line acc. mem_line pf acc line) (split_chr newline raw) (0, 0) of
             (total_mem, avail) \<Rightarrow>
               if total_mem = 0 then Inl ''no MemTotal in /proc/meminfo'' else Inr ((1 - avail / total_mem) * 100)))"

definition load1 :: "float_reader \<Rightarrow> machine \<Rightarrow> string + rat" where
  "load1 pf h =
     (case hv_loadavg h of
        Inl e \<Rightarrow> Inl e
      | Inr raw \<Rightarrow>
          (case GoStd.fields raw of
             [] \<Rightarrow> Inl ''empty /proc/loadavg''
           | v # _ \<Rightarrow> if snd (pf v) then Inr (fst (pf v)) else Inl ''parse load''))"

definition disk_used_pct :: "machine \<Rightarrow> string + rat" where
  "disk_used_pct h =
     (case hv_disk h of
        Inl e \<Rightarrow> Inl e
      | Inr (blocks, bsize, avail) \<Rightarrow>
          if blocks = 0 then Inl ''no blocks'' else Inr ((1 - of_nat avail / of_nat blocks) * 100))"

definition disk_free_gb :: "machine \<Rightarrow> string + rat" where
  "disk_free_gb h =
     (case hv_disk h of Inl e \<Rightarrow> Inl e | Inr (blocks, bsize, avail) \<Rightarrow> Inr (of_nat avail * of_nat bsize / 1000000000))"

text \<open>\<open>%.0f\<close> and \<open>%.1f\<close>: the nearest decimal, a tie to the even one.\<close>

definition round_even :: "rat \<Rightarrow> int" where
  "round_even x =
     (let n = \<lfloor>x\<rfloor>; r = x - of_int n in
      if r < 1 / 2 then n else if 1 / 2 < r then n + 1 else if even n then n else n + 1)"

definition fmt_fixed :: "nat \<Rightarrow> rat \<Rightarrow> string" where
  "fmt_fixed d x =
     (let n = nat (round_even (\<bar>x\<bar> * 10 ^ d)); frac = nat_str (n mod 10 ^ d) in
      (if x < 0 then ''-'' else []) @ nat_str (n div 10 ^ d)
      @ (if d = 0 then [] else ''.'' @ replicate (d - length frac) CHR ''0'' @ frac))"

section \<open>The health list\<close>

record health_check =
  hc_name :: string
  hc_status :: string
  hc_detail :: string

definition check_of :: "string \<Rightarrow> string \<Rightarrow> string \<Rightarrow> health_check" where
  "check_of name status detail = \<lparr>hc_name = name, hc_status = status, hc_detail = detail\<rparr>"

definition module_health :: "string + container list \<Rightarrow> string \<Rightarrow> health_check" where
  "module_health containers name =
     (case health containers of
        Inl e \<Rightarrow> check_of name ''warn'' (''Couldn't check: '' @ e)
      | Inr (ok, detail) \<Rightarrow>
          if \<not> ok \<and> detail = ''no containers'' then check_of name ''bad'' ''Not running''
          else if \<not> ok then check_of name ''bad'' detail
          else check_of name ''ok'' ''Running'')"

definition disk_health :: "machine \<Rightarrow> health_check" where
  "disk_health h =
     (case hv_disk h of
        Inl e \<Rightarrow> check_of ''Disk space'' ''warn'' (''Couldn't check: '' @ e)
      | Inr (blocks, bsize, avail) \<Rightarrow>
          (let total_space = (of_nat blocks * of_nat bsize :: rat); free = of_nat avail * of_nat bsize in
           if total_space = 0 then check_of ''Disk space'' ''warn'' ''Couldn't check''
           else (let used = (1 - free / total_space) * 100 in
                 check_of ''Disk space'' (if 90 \<le> used then ''bad'' else if 80 \<le> used then ''warn'' else ''ok'')
                   (fmt_fixed 0 used @ ''% used, '' @ fmt_fixed 1 (free / 1000000000) @ '' GB free''))))"

definition memory_health :: "float_reader \<Rightarrow> machine \<Rightarrow> health_check" where
  "memory_health pf h =
     (case mem_used_pct pf h of
        Inl e \<Rightarrow> check_of ''Memory'' ''warn'' (''Couldn't check: '' @ e)
      | Inr pct \<Rightarrow>
          check_of ''Memory'' (if 95 \<le> pct then ''bad'' else if 85 \<le> pct then ''warn'' else ''ok'')
            (fmt_fixed 0 pct @ ''% used''))"

text \<open>The newest backup; any error of the query reads as if there were none.\<close>

definition newest_backup :: "faults \<Rightarrow> backup_run list \<Rightarrow> backup_run option" where
  "newest_backup f runs =
     (if f ''last backup'' then None
      else case order_by (\<lambda>a b. br_started b < br_started a) (filter (\<lambda>r. br_kind r = ''backup'') runs) of
        [] \<Rightarrow> None | r # _ \<Rightarrow> Some r)"

definition hours_of :: "int \<Rightarrow> rat" where
  "hours_of us = of_int us / of_nat (3600 * us_per_sec)"

definition backup_ago :: "int \<Rightarrow> string" where
  "backup_ago age =
     (if int (48 * 3600 * us_per_sec) < age then fmt_fixed 0 (hours_of age / 24) @ '' days ago''
      else fmt_fixed 0 (hours_of age) @ '' hours ago'')"

definition backup_health :: "faults \<Rightarrow> nat \<Rightarrow> ('w, 'd, 'n) backups \<Rightarrow> health_check" where
  "backup_health f now s =
     (let schedule = bc_schedule (get_backup_config f s) in
      case newest_backup f (bs_runs s) of
        None \<Rightarrow> check_of ''Backup'' ''warn'' ''No backup has ever run''
      | Some r \<Rightarrow>
          (let age = int now - int (br_started r); ago = backup_ago age in
           if br_status r = ''error'' then check_of ''Backup'' ''bad'' (''The last backup failed ('' @ ago @ '')'')
           else if schedule = ''off''
           then check_of ''Backup'' ''warn'' (''Last backup '' @ ago @ ''; automatic backups are off'')
           else if (int (2 * 24 * 3600 * us_per_sec) < age \<and> schedule = ''daily'') \<or> int (2 * 7 * 24 * 3600 * us_per_sec) < age
           then check_of ''Backup'' ''warn'' (''Last backup '' @ ago @ '' '' @ em_dash @ '' overdue'')
           else check_of ''Backup'' ''ok'' (''Last backup '' @ ago)))"

definition status_check ::
  "manager \<Rightarrow> (string \<Rightarrow> string + container list) \<Rightarrow> mod_status \<Rightarrow> health_check option" where
  "status_check m containers st =
     (if ms_status st = ''not_installed'' \<or> ms_status st = ''stopped'' then None
      else let name = (case in_catalog m (ms_id st) of None \<Rightarrow> ms_id st | Some mf \<Rightarrow> mf_name mf) in
      if ms_status st = ''installing'' then Some (check_of name ''warn'' ''Still installing'')
      else if ms_status st = ''error'' then Some (check_of name ''bad'' ''Install or start failed'')
      else Some (module_health (containers (project_name (ms_id st))) name))"

record mon_env =
  me_faults :: faults
  me_now :: nat
  me_host :: machine
  me_float :: float_reader
  me_real :: "rat \<Rightarrow> rat"
  me_containers :: "string \<Rightarrow> string + container list"

definition health_checks :: "mon_env \<Rightarrow> ('w, 'd, 'n) backups \<Rightarrow> string + health_check list" where
  "health_checks env s =
     (case list_statuses (me_faults env) (bs_mgr s) of
        Inl e \<Rightarrow> Inl e
      | Inr sts \<Rightarrow>
          Inr (List.map_filter (status_check (bs_mgr s) (me_containers env)) sts
            @ [disk_health (me_host env), memory_health (me_float env) (me_host env),
               backup_health (me_faults env) (me_now env) s]))"

definition health_report ::
  "faults \<Rightarrow> time \<Rightarrow> admin_db \<Rightarrow> string \<Rightarrow> mon_env \<Rightarrow> ('w, 'd, 'n) backups \<Rightarrow> health_check list result" where
  "health_report f now db tok env s =
     (case require_auth f now db tok of
        Inl e \<Rightarrow> Inl e
      | Inr _ \<Rightarrow> (case health_checks env s of Inl e \<Rightarrow> Inl (internal_error ''list modules'') | Inr cs \<Rightarrow> Inr cs))"

text \<open>\<open>GET /api/health\<close>: whether the container engine answers.\<close>

definition health_handler :: "(string + unit) \<Rightarrow> string \<times> bool" where
  "health_handler ping = (''ok'', ping = Inr ())"

section \<open>Samples\<close>

record health_sample =
  hs_ts :: nat
  hs_disk :: rat
  hs_mem :: rat
  hs_load :: rat
  hs_bad :: nat
  hs_warn :: nat

definition sample_keep :: nat where "sample_keep = 30 * 24 * 3600 * us_per_sec"
definition history_window :: nat where "history_window = 7 * 24 * 3600 * us_per_sec"

definition count_status :: "string \<Rightarrow> health_check list \<Rightarrow> nat" where
  "count_status st cs = length (filter (\<lambda>c. hc_status c = st) cs)"

definition insert_sample :: "faults \<Rightarrow> health_sample \<Rightarrow> health_sample list \<Rightarrow> health_sample list" where
  "insert_sample f x xs = (if f ''insert sample'' \<or> hs_ts x \<in> hs_ts ` set xs then xs else xs @ [x])"

definition delete_samples :: "faults \<Rightarrow> nat \<Rightarrow> health_sample list \<Rightarrow> health_sample list" where
  "delete_samples f now xs =
     (if f ''delete samples'' then xs else filter (\<lambda>x. \<not> hs_ts x < now - sample_keep) xs)"

definition sample_once :: "mon_env \<Rightarrow> ('w, 'd, 'n) backups \<Rightarrow> health_sample list \<Rightarrow> health_sample list" where
  "sample_once env s xs =
     (case (disk_used_pct (me_host env), mem_used_pct (me_float env) (me_host env), load1 (me_float env) (me_host env)) of
        (Inr disk, Inr mem, Inr load) \<Rightarrow>
          (let cs = (case health_checks env s of Inl e \<Rightarrow> [] | Inr cs \<Rightarrow> cs) in
           delete_samples (me_faults env) (me_now env)
             (insert_sample (me_faults env)
               \<lparr>hs_ts = me_now env, hs_disk = me_real env disk, hs_mem = me_real env mem, hs_load = me_real env load,
                hs_bad = count_status ''bad'' cs, hs_warn = count_status ''warn'' cs\<rparr> xs))
      | _ \<Rightarrow> xs)"

text \<open>The points of the page: the time to the second and the rest of the row.\<close>

definition health_history ::
  "faults \<Rightarrow> faults \<Rightarrow> time \<Rightarrow> nat \<Rightarrow> admin_db \<Rightarrow> string \<Rightarrow> health_sample list \<Rightarrow> (string \<times> health_sample) list result" where
  "health_history f fs now now_us db tok xs =
     (case require_auth f now db tok of
        Inl e \<Rightarrow> Inl e
      | Inr _ \<Rightarrow>
          if fs ''read health history'' then Inl (internal_error ''read health history'')
          else Inr (map (\<lambda>x. (rfc3339 (hs_ts x), x))
            (order_by (\<lambda>a b. hs_ts a < hs_ts b) (filter (\<lambda>x. now_us - history_window < hs_ts x) xs))))"

section \<open>Changes of the health list\<close>

definition change_entry :: "string option \<Rightarrow> health_check \<Rightarrow> (string \<times> string) option" where
  "change_entry prev c =
     (if prev = Some (hc_status c) then None
      else if hc_status c = ''bad'' then Some (''error'', hc_name c @ '': '' @ hc_detail c)
      else if hc_status c = ''warn'' \<and> hc_detail c \<noteq> ''Still installing'' then Some (''warn'', hc_name c @ '': '' @ hc_detail c)
      else if hc_status c = ''ok'' \<and> prev = Some ''bad'' then Some (''info'', hc_name c @ '' is back to normal'')
      else None)"

text \<open>One round over the list: the statuses seen last, and the entries written.\<close>

fun log_changes ::
  "faults \<Rightarrow> nat \<Rightarrow> health_check list \<Rightarrow> (string \<times> string) list \<times> sys_log option \<Rightarrow> (string \<times> string) list \<times> sys_log option" where
  "log_changes f now [] st = st"
| "log_changes f now (c # cs) (seen, l) =
     (let l1 = (case change_entry (map_of seen (hc_name c)) c of
            None \<Rightarrow> l | Some (level, msg) \<Rightarrow> sys_write f now level ''platform'' msg l) in
      log_changes f now cs (AList.update (hc_name c) (hc_status c) seen, l1))"

definition watch_once ::
  "mon_env \<Rightarrow> ('w, 'd, 'n) backups \<Rightarrow> (string \<times> string) list \<times> sys_log option \<Rightarrow> (string \<times> string) list \<times> sys_log option" where
  "watch_once env s st =
     (case health_checks env s of Inl e \<Rightarrow> st | Inr cs \<Rightarrow> log_changes (me_faults env) (me_now env) cs st)"

section \<open>Updates of modules\<close>

definition update_note :: "upd_info \<Rightarrow> string \<times> string" where
  "update_note u =
     (if ui_severity u = ''security'' \<or> ui_severity u = ''recommended'' then ''warn'' else ''info'',
      ''Update available for '' @ ui_name u @ '': '' @ ui_current u @ '' to '' @ ui_latest u @ '' ('' @ ui_severity u
        @ ''). Open the Module Store to install it.'')"

text \<open>Nothing is written again whose text is in the log already.\<close>

definition note_update :: "faults \<Rightarrow> nat \<Rightarrow> upd_info \<Rightarrow> sys_log \<Rightarrow> sys_log" where
  "note_update f now u l =
     (if ui_new u then l
      else case update_note u of (level, msg) \<Rightarrow>
        if f ''seen'' \<or> \<not> pg_text msg \<or> list_ex (\<lambda>e. se_source e = ''platform'' \<and> se_message e = msg) (sl_rows l) then l
        else the (sys_write f now level ''platform'' msg (Some l)))"

definition watch_updates_once :: "faults \<Rightarrow> nat \<Rightarrow> repo_env \<Rightarrow> upd_state \<Rightarrow> sys_log \<Rightarrow> upd_state \<times> sys_log" where
  "watch_updates_once f now repo s l =
     (case check_for_updates repo s of
        (Inl e, s1) \<Rightarrow> (s1, l)
      | (Inr us, s1) \<Rightarrow> (s1, fold (note_update f now) us l))"

section \<open>What the watch writes\<close>

lemma update_unchanged: "map_of al k = Some v \<Longrightarrow> AList.update k v al = al"
  by (induction al) (auto split: if_splits)

lemma unchanged_silent:
  "list_all (\<lambda>c. map_of seen (hc_name c) = Some (hc_status c)) cs \<Longrightarrow> log_changes f now cs (seen, l) = (seen, l)"
  by (induction cs) (simp_all add: change_entry_def update_unchanged)

lemma log_changes_other:
  "k \<notin> hc_name ` set cs \<Longrightarrow> map_of (fst (log_changes f now cs (seen, l))) k = map_of seen k"
  by (induction cs arbitrary: seen l) (auto simp: Let_def update_conv')

lemma log_changes_seen:
  "distinct (map hc_name cs) \<Longrightarrow>
   list_all (\<lambda>c. map_of (fst (log_changes f now cs (seen, l))) (hc_name c) = Some (hc_status c)) cs"
proof (induction cs arbitrary: seen l)
  case (Cons c cs)
  let ?l = "case change_entry (map_of seen (hc_name c)) c of None \<Rightarrow> l | Some (level, msg) \<Rightarrow> sys_write f now level ''platform'' msg l"
  have r: "log_changes f now (c # cs) (seen, l) = log_changes f now cs (AList.update (hc_name c) (hc_status c) seen, ?l)"
    by (simp add: Let_def)
  have "hc_name c \<notin> hc_name ` set cs" using Cons.prems by simp
  then have "map_of (fst (log_changes f now (c # cs) (seen, l))) (hc_name c) = Some (hc_status c)"
    unfolding r by (simp add: log_changes_other update_conv')
  moreover have "list_all (\<lambda>c. map_of (fst (log_changes f now cs (AList.update (hc_name c') (hc_status c') seen, ?l))) (hc_name c)
      = Some (hc_status c)) cs" for c'
    using Cons by simp
  ultimately show ?case unfolding r list.pred_inject by blast
qed simp

text \<open>A list that stays as it is is written about at most once, when its checks have names of their own.\<close>

lemma same_list_silent:
  assumes "distinct (map hc_name cs)"
  shows "log_changes f' now' cs (log_changes f now cs (seen, l)) = log_changes f now cs (seen, l)"
  using unchanged_silent [OF log_changes_seen [OF assms, of f now seen l]]
  by (metis prod.collapse)

text \<open>
  The names are those of the manifests.  Of two modules with one name, one down and one running, each round writes both
  changes again; and a check that was down, could then not be made and is fine again is never said to be back.
\<close>

lemma same_name_flaps:
  assumes "hc_name a = hc_name b" "hc_status a = ''bad''" "hc_status b = ''ok''"
  shows "log_changes f now [a, b] ([(hc_name a, ''ok'')], l) =
    ([(hc_name a, ''ok'')], sys_write f now ''info'' ''platform'' (hc_name b @ '' is back to normal'')
      (sys_write f now ''error'' ''platform'' (hc_name a @ '': '' @ hc_detail a) l))"
  using assms by (simp add: change_entry_def)

lemma recovery_unnoticed:
  assumes "hc_status c = ''ok''"
  shows "change_entry (Some ''warn'') c = None"
  using assms by (simp add: change_entry_def)

end
