(* ===== verification/Report.thy ===== *)
theory Report
  imports Monitor BackupProps
begin

text \<open>
  Reports to the vendor (\<open>backend/internal/api/report.go\<close>): the licence they need, what they contain, when they are sent and
  how far the system log has been reported.  The vendor's server, on a state of any type \<open>'v\<close>, is a parameter: its answer to
  a report is a status, or an error when it cannot be reached.
\<close>

section \<open>The licence\<close>

record licence =
  lc_install :: string
  lc_key :: string
  lc_send :: bool
  lc_last_log :: int
  lc_last_sent :: "nat option"
  lc_last_error :: string

definition licence_valid :: "string \<Rightarrow> bool" where
  "licence_valid key \<longleftrightarrow> key \<noteq> []"

definition monitor_enabled :: "string \<Rightarrow> licence \<Rightarrow> bool" where
  "monitor_enabled url l \<longleftrightarrow> url \<noteq> [] \<and> url \<noteq> ''off'' \<and> licence_valid (lc_key l) \<and> lc_send l"

definition get_licence :: "faults \<Rightarrow> licence \<Rightarrow> string + licence" where
  "get_licence f l = (if f ''get licence'' then Inl ''get licence'' else Inr l)"

section \<open>Addresses in log lines\<close>

definition local_chr :: "char \<Rightarrow> bool" where
  "local_chr c \<longleftrightarrow> alnum c \<or> c \<in> set ''._%+-''"

definition domain_chr :: "char \<Rightarrow> bool" where
  "domain_chr c \<longleftrightarrow> alnum c \<or> c \<in> set ''.-''"

text \<open>
  The last dot in the domain that has a character before it and two letters after it ends the greedy match; the result is the
  text behind the letters.  The first argument says whether there was a character of the domain yet.
\<close>

fun after_domain :: "bool \<Rightarrow> string \<Rightarrow> string option" where
  "after_domain some [] = None"
| "after_domain some (c # cs) =
     (if \<not> domain_chr c then None
      else case after_domain True cs of
        Some r \<Rightarrow> Some r
      | None \<Rightarrow>
          if some \<and> c = CHR ''.'' \<and> 2 \<le> length (takeWhile re_letter cs) then Some (dropWhile re_letter cs) else None)"

definition email_match :: matcher where
  "email_match prev s =
     (let user = takeWhile local_chr s; r = dropWhile local_chr s in
      if user = [] \<or> r = [] \<or> hd r \<noteq> CHR ''@'' then None
      else map_option (\<lambda>rest. (''[email]'', rest)) (after_domain False (tl r)))"

definition scrub :: "string \<Rightarrow> string" where
  "scrub msg = replace_all email_match None msg"

section \<open>Building a report\<close>

text \<open>Busy time since the call before: the state is the last reading of busy and total time.\<close>

definition cpu_reading :: "float_reader \<Rightarrow> string \<Rightarrow> (rat \<times> rat) option" where
  "cpu_reading pf raw =
     (let f = GoStd.fields (fst (cut_chr newline raw)) in
      if length f < 6 \<or> f ! 0 \<noteq> ''cpu'' then None
      else (let vs = map (\<lambda>v. fst (pf v)) (take 8 (tl f)); all_time = sum_list vs; idle = vs ! 3 + vs ! 4 in
            Some (all_time - idle, all_time)))"

definition cpu_pct :: "float_reader \<Rightarrow> machine \<Rightarrow> rat \<times> rat \<Rightarrow> rat \<times> (rat \<times> rat)" where
  "cpu_pct pf h prev =
     (case hv_stat h of
        Inl e \<Rightarrow> (0, prev)
      | Inr raw \<Rightarrow>
          (case cpu_reading pf raw of
             None \<Rightarrow> (0, prev)
           | Some (busy, all_time) \<Rightarrow>
               (if snd prev = 0 \<or> all_time \<le> snd prev then 0 else (busy - fst prev) / (all_time - snd prev) * 100,
                (busy, all_time))))"

text \<open>The conversion to \<open>int64\<close> drops the fraction.\<close>

definition truncate_rat :: "rat \<Rightarrow> int" where
  "truncate_rat x = (if x < 0 then \<lceil>x\<rceil> else \<lfloor>x\<rfloor>)"

definition uptime_secs :: "float_reader \<Rightarrow> machine \<Rightarrow> int" where
  "uptime_secs pf h =
     (case hv_uptime h of
        Inl e \<Rightarrow> 0
      | Inr raw \<Rightarrow> (case GoStd.fields raw of [] \<Rightarrow> 0 | v # _ \<Rightarrow> truncate_rat (fst (pf v))))"

record report_log =
  rl_id :: int
  rl_at :: string
  rl_level :: string
  rl_source :: string
  rl_message :: string

record report =
  rp_install :: string
  rp_version :: string
  rp_sent :: string
  rp_cpu :: rat
  rp_mem :: rat
  rp_disk :: rat
  rp_free :: rat
  rp_load :: rat
  rp_uptime :: int
  rp_checks :: "health_check list"
  rp_modules :: "(string \<times> string \<times> string) list"
  rp_logs :: "report_log list"

definition or_zero :: "string + rat \<Rightarrow> rat" where
  "or_zero r = (case r of Inl _ \<Rightarrow> 0 | Inr x \<Rightarrow> x)"

definition report_max_logs :: nat where "report_max_logs = 200"
definition report_log_age :: nat where "report_log_age = 7 * 24 * 3600 * us_per_sec"

definition reportable :: "int \<Rightarrow> nat \<Rightarrow> sys_event \<Rightarrow> bool" where
  "reportable last_log now e \<longleftrightarrow> last_log < se_id e \<and> now - report_log_age < se_at e \<and> se_level e \<in> {''warn'', ''error''}"

definition report_log_of :: "sys_event \<Rightarrow> report_log" where
  "report_log_of e = \<lparr>rl_id = se_id e, rl_at = rfc3339 (se_at e), rl_level = se_level e, rl_source = se_source e,
     rl_message = scrub (se_message e)\<rparr>"

definition report_logs :: "int \<Rightarrow> nat \<Rightarrow> sys_log \<Rightarrow> report_log list" where
  "report_logs last_log now l = map report_log_of (take report_max_logs (filter (reportable last_log now) (sl_rows l)))"

definition report_module :: "manager \<Rightarrow> mod_status \<Rightarrow> string \<times> string \<times> string" where
  "report_module m st = (ms_id st, case in_catalog m (ms_id st) of None \<Rightarrow> [] | Some mf \<Rightarrow> mf_version mf, ms_status st)"

record ('w, 'd, 'n, 'v) reporter =
  ry_licence :: licence
  ry_cpu :: "rat \<times> rat"
  ry_log :: sys_log
  ry_backups :: "('w, 'd, 'n) backups"
  ry_vendor :: 'v

record ('v) report_env =
  re_mon :: mon_env
  re_url :: string
  re_version :: string
  re_post :: "string \<Rightarrow> string \<Rightarrow> string \<Rightarrow> report \<Rightarrow> 'v \<Rightarrow> (string + int) \<times> 'v"

definition build_report ::
  "'v report_env \<Rightarrow> licence \<Rightarrow> ('w, 'd, 'n, 'v) reporter \<Rightarrow> (string + report) \<times> ('w, 'd, 'n, 'v) reporter" where
  "build_report env lic s =
     (let mon = re_mon env; h = me_host mon; pf = me_float mon; b = ry_backups s; m = bs_mgr b;
          (cpu, prev) = cpu_pct pf h (ry_cpu s); s1 = s\<lparr>ry_cpu := prev\<rparr> in
      if me_faults mon ''report logs'' then (Inl ''report logs'', s1)
      else (Inr \<lparr>rp_install = lc_install lic, rp_version = re_version env, rp_sent = rfc3339 (me_now mon),
             rp_cpu = cpu, rp_mem = or_zero (mem_used_pct pf h), rp_disk = or_zero (disk_used_pct h),
             rp_free = or_zero (disk_free_gb h), rp_load = or_zero (load1 pf h), rp_uptime = uptime_secs pf h,
             rp_checks = (case health_checks mon b of Inl _ \<Rightarrow> [] | Inr cs \<Rightarrow> cs),
             rp_modules = (case list_statuses (me_faults mon) m of
                 Inl _ \<Rightarrow> []
               | Inr sts \<Rightarrow> map (report_module m) (filter (\<lambda>st. ms_status st \<noteq> ''not_installed'') sts)),
             rp_logs = report_logs (lc_last_log lic) (me_now mon) (ry_log s)\<rparr>, s1))"

section \<open>Sending\<close>

definition trim_right_chr :: "char \<Rightarrow> string \<Rightarrow> string" where
  "trim_right_chr c s = rev (dropWhile (\<lambda>x. x = c) (rev s))"

definition post_outcome :: "string + int \<Rightarrow> string + unit" where
  "post_outcome ans =
     (case ans of
        Inl e \<Rightarrow> Inl (''couldn't reach the monitoring server: '' @ e)
      | Inr status \<Rightarrow>
          if status = 401 \<or> status = 403 then Inl ''the monitoring server rejected the licence''
          else if status div 100 \<noteq> 2 then Inl (''the monitoring server answered '' @ int_str status)
          else Inr ())"

definition post_report :: "'v report_env \<Rightarrow> licence \<Rightarrow> report \<Rightarrow> 'v \<Rightarrow> (string + unit) \<times> 'v" where
  "post_report env lic r v =
     (let url = trim_right_chr CHR ''/'' (re_url env) @ ''/api/report'' in
      if url_parse url = None then (Inl ''new request'', v)
      else case re_post env url (''Bearer '' @ lc_key lic) (lc_install lic) r v of (ans, v1) \<Rightarrow> (post_outcome ans, v1))"

text \<open>A cut message that is no valid text is refused by the database; the outcome of these statements is not looked at.\<close>

definition note_report_failure :: "faults \<Rightarrow> string \<Rightarrow> licence \<Rightarrow> licence" where
  "note_report_failure f e lic =
     (let msg = clip e 300 in if f ''save last error'' \<or> \<not> pg_text msg then lic else lic\<lparr>lc_last_error := msg\<rparr>)"

definition note_sent :: "faults \<Rightarrow> nat \<Rightarrow> report_log list \<Rightarrow> int \<Rightarrow> licence \<Rightarrow> licence" where
  "note_sent f now logs cursor lic =
     (if f ''save last sent'' then lic
      else lic\<lparr>lc_last_log := (if logs = [] then cursor else rl_id (last logs)), lc_last_sent := Some now, lc_last_error := []\<rparr>)"

definition send_report :: "'v report_env \<Rightarrow> ('w, 'd, 'n, 'v) reporter \<Rightarrow> (string + unit) \<times> ('w, 'd, 'n, 'v) reporter" where
  "send_report env s =
     (let f = me_faults (re_mon env) in
      case get_licence f (ry_licence s) of
        Inl e \<Rightarrow> (Inl e, s)
      | Inr lic \<Rightarrow>
          if \<not> monitor_enabled (re_url env) lic then (Inl ''monitoring reports are not enabled'', s)
          else (case build_report env lic s of
             (Inl e, s1) \<Rightarrow> (Inl e, s1)
           | (Inr r, s1) \<Rightarrow>
               (case post_report env lic r (ry_vendor s1) of
                  (Inl e, v) \<Rightarrow> (Inl e, s1\<lparr>ry_vendor := v, ry_licence := note_report_failure f e (ry_licence s1)\<rparr>)
                | (Inr _, v) \<Rightarrow>
                    (Inr (), s1\<lparr>ry_vendor := v,
                       ry_licence := note_sent f (me_now (re_mon env)) (rp_logs r) (lc_last_log lic) (ry_licence s1)\<rparr>))))"

text \<open>One round of \<open>startReporter\<close>.\<close>

definition reporter_round :: "'v report_env \<Rightarrow> ('w, 'd, 'n, 'v) reporter \<Rightarrow> ('w, 'd, 'n, 'v) reporter" where
  "reporter_round env s =
     (case get_licence (me_faults (re_mon env)) (ry_licence s) of
        Inl e \<Rightarrow> s
      | Inr lic \<Rightarrow> if monitor_enabled (re_url env) lic then snd (send_report env s) else s)"

section \<open>The handlers\<close>

record licence_body =
  lb_install :: string
  lb_key :: string
  lb_licensed :: bool
  lb_send :: bool
  lb_url :: string
  lb_sending :: bool
  lb_last_sent :: string
  lb_last_error :: string

definition licence_body_of :: "string \<Rightarrow> licence \<Rightarrow> licence_body" where
  "licence_body_of url l = \<lparr>lb_install = lc_install l, lb_key = lc_key l, lb_licensed = licence_valid (lc_key l),
     lb_send = lc_send l, lb_url = url, lb_sending = monitor_enabled url l,
     lb_last_sent = (case lc_last_sent l of None \<Rightarrow> [] | Some t \<Rightarrow> rfc3339 t), lb_last_error = lc_last_error l\<rparr>"

definition shown_licence :: "'v report_env \<Rightarrow> ('w, 'd, 'n, 'v) reporter \<Rightarrow> licence_body result" where
  "shown_licence env s =
     (case get_licence (me_faults (re_mon env)) (ry_licence s) of
        Inl e \<Rightarrow> Inl (internal_error ''read licence'')
      | Inr l \<Rightarrow> Inr (licence_body_of (re_url env) l))"

definition get_licence_handler ::
  "faults \<Rightarrow> time \<Rightarrow> admin_db \<Rightarrow> string \<Rightarrow> 'v report_env \<Rightarrow> ('w, 'd, 'n, 'v) reporter
     \<Rightarrow> licence_body result \<times> ('w, 'd, 'n, 'v) reporter" where
  "get_licence_handler f now db tok env = admin_only f now db tok (\<lambda>s. (shown_licence env s, s))"

definition set_licence_handler ::
  "faults \<Rightarrow> time \<Rightarrow> admin_db \<Rightarrow> string \<Rightarrow> 'v report_env \<Rightarrow> string \<Rightarrow> bool \<Rightarrow> ('w, 'd, 'n, 'v) reporter
     \<Rightarrow> licence_body result \<times> ('w, 'd, 'n, 'v) reporter" where
  "set_licence_handler f now db tok env licence_key send = admin_only f now db tok (\<lambda>s.
     (let key = trim_space licence_key in
      if 200 < length key \<or> list_ex (\<lambda>c. c \<in> {CHR '' '', CHR 0x09, CHR 0x0D, CHR 0x0A}) key
      then (Inl (HTTP 400 ''that doesn't look like a licence key''), s)
      else if me_faults (re_mon env) ''save licence'' \<or> \<not> pg_text key then (Inl (internal_error ''save licence''), s)
      else (let s1 = s\<lparr>ry_licence := (ry_licence s)\<lparr>lc_key := key, lc_send := send, lc_last_error := []\<rparr>\<rparr> in
            (shown_licence env s1, s1))))"

definition licence_preview ::
  "faults \<Rightarrow> time \<Rightarrow> admin_db \<Rightarrow> string \<Rightarrow> 'v report_env \<Rightarrow> ('w, 'd, 'n, 'v) reporter
     \<Rightarrow> report result \<times> ('w, 'd, 'n, 'v) reporter" where
  "licence_preview f now db tok env = admin_only f now db tok (\<lambda>s.
     (case get_licence (me_faults (re_mon env)) (ry_licence s) of
        Inl e \<Rightarrow> (Inl (internal_error ''read licence''), s)
      | Inr l \<Rightarrow>
          (case build_report env l s of
             (Inl e, s1) \<Rightarrow> (Inl (internal_error ''build report''), s1)
           | (Inr r, s1) \<Rightarrow> (Inr r, s1))))"

definition licence_send_now ::
  "faults \<Rightarrow> time \<Rightarrow> admin_db \<Rightarrow> string \<Rightarrow> 'v report_env \<Rightarrow> ('w, 'd, 'n, 'v) reporter
     \<Rightarrow> licence_body result \<times> ('w, 'd, 'n, 'v) reporter" where
  "licence_send_now f now db tok env = admin_only f now db tok (\<lambda>s.
     (case send_report env s of
        (Inl e, s1) \<Rightarrow> (Inl (HTTP 502 e), s1)
      | (Inr _, s1) \<Rightarrow> (shown_licence env s1, s1)))"

section \<open>No address leaves\<close>

text \<open>A text that begins with an address.\<close>

definition begins_address :: "string \<Rightarrow> bool" where
  "begins_address s \<longleftrightarrow> (\<exists>u d l r. s = u @ CHR ''@'' # d @ CHR ''.'' # l @ r \<and> u \<noteq> [] \<and> list_all local_chr u
     \<and> d \<noteq> [] \<and> list_all domain_chr d \<and> length l = 2 \<and> list_all re_letter l)"

lemma after_domain_shorter: "after_domain some s = Some r \<Longrightarrow> length r \<le> length s"
proof (induction s arbitrary: some)
  case (Cons c cs)
  show ?case
  proof (cases "after_domain True cs")
    case None
    with Cons.prems have "r = dropWhile re_letter cs" by (auto split: if_splits)
    then show ?thesis by (simp add: length_dropWhile_le le_SucI)
  next
    case (Some r')
    with Cons show ?thesis by (auto split: if_splits simp: le_SucI)
  qed
qed simp

lemma after_domain_iff:
  "after_domain some s \<noteq> None \<longleftrightarrow> (\<exists>d l r. s = d @ CHR ''.'' # l @ r \<and> (some \<or> d \<noteq> []) \<and> list_all domain_chr d
     \<and> length l = 2 \<and> list_all re_letter l)"
proof (induction s arbitrary: some)
  case Nil
  show ?case by simp
next
  case (Cons c cs)
  have letters: "2 \<le> length (takeWhile re_letter cs) \<longleftrightarrow> (\<exists>l r. cs = l @ r \<and> length l = 2 \<and> list_all re_letter l)"
  proof
    assume "2 \<le> length (takeWhile re_letter cs)"
    then have "cs = take 2 (takeWhile re_letter cs) @ drop 2 (takeWhile re_letter cs) @ dropWhile re_letter cs"
      "length (take 2 (takeWhile re_letter cs)) = 2"
      by (simp_all add: append_assoc [symmetric] del: append_assoc)
    moreover have "list_all re_letter (take 2 (takeWhile re_letter cs))"
      by (auto simp: list_all_iff dest!: in_set_takeD set_takeWhileD)
    ultimately show "\<exists>l r. cs = l @ r \<and> length l = 2 \<and> list_all re_letter l" by blast
  next
    assume "\<exists>l r. cs = l @ r \<and> length l = 2 \<and> list_all re_letter l"
    then obtain l r where "cs = l @ r" "length l = 2" "list_all re_letter l" by blast
    then show "2 \<le> length (takeWhile re_letter cs)" by (simp add: takeWhile_append2 list_all_iff)
  qed
  have dot: "domain_chr CHR ''.''" by code_simp
  let ?here = "some \<and> c = CHR ''.'' \<and> 2 \<le> length (takeWhile re_letter cs)"
  have "after_domain some (c # cs) \<noteq> None \<longleftrightarrow> domain_chr c \<and> (after_domain True cs \<noteq> None \<or> ?here)"
    by (auto split: option.splits)
  also have "\<dots> \<longleftrightarrow> (\<exists>d l r. c # cs = d @ CHR ''.'' # l @ r \<and> (some \<or> d \<noteq> []) \<and> list_all domain_chr d
     \<and> length l = 2 \<and> list_all re_letter l)" (is "?L \<longleftrightarrow> (\<exists>d l r. ?R d l r)")
  proof
    assume L: ?L
    show "\<exists>d l r. ?R d l r"
    proof (cases "after_domain True cs \<noteq> None")
      case True
      then obtain d l r where "cs = d @ CHR ''.'' # l @ r" "list_all domain_chr d" "length l = 2" "list_all re_letter l"
        using Cons.IH by blast
      with L have "?R (c # d) l r" by simp
      then show ?thesis by blast
    next
      case False
      with L letters obtain l r where "cs = l @ r" "length l = 2" "list_all re_letter l" "some" "c = CHR ''.''" by blast
      then have "?R [] l r" by simp
      then show ?thesis by blast
    qed
  next
    assume "\<exists>d l r. ?R d l r"
    then obtain d l r where R: "?R d l r" by blast
    show ?L
    proof (cases d)
      case Nil
      with R have "some" "c = CHR ''.''" "cs = l @ r" by simp_all
      with R letters dot show ?thesis by blast
    next
      case (Cons x d')
      with R have "x = c" "cs = d' @ CHR ''.'' # l @ r" "domain_chr c" "list_all domain_chr d'" by simp_all
      with R Cons.IH [of True] show ?thesis by blast
    qed
  qed
  finally show ?case .
qed

lemma at_sign: "\<not> local_chr CHR ''@''" "\<not> local_chr CHR ''[''" "\<not> domain_chr CHR ''[''" "\<not> re_letter CHR ''[''"
  by code_simp+

lemma email_match_iff: "email_match p s \<noteq> None \<longleftrightarrow> begins_address s"
proof
  assume "email_match p s \<noteq> None"
  then have m: "takeWhile local_chr s \<noteq> []" "dropWhile local_chr s \<noteq> []" "hd (dropWhile local_chr s) = CHR ''@''"
    "after_domain False (tl (dropWhile local_chr s)) \<noteq> None"
    by (auto simp: email_match_def Let_def split: if_splits)
  from m(4) obtain d l r where d: "tl (dropWhile local_chr s) = d @ CHR ''.'' # l @ r" "d \<noteq> []" "list_all domain_chr d"
    "length l = 2" "list_all re_letter l"
    using after_domain_iff [of False] by blast
  have "s = takeWhile local_chr s @ CHR ''@'' # d @ CHR ''.'' # l @ r"
    using m(2,3) d(1) by (metis list.collapse takeWhile_dropWhile_id)
  moreover have "list_all local_chr (takeWhile local_chr s)" by (auto simp: list_all_iff dest: set_takeWhileD)
  ultimately show "begins_address s" using m(1) d(2-5) unfolding begins_address_def by blast
next
  assume "begins_address s"
  then obtain u d l r where s: "s = u @ CHR ''@'' # d @ CHR ''.'' # l @ r" "u \<noteq> []" "list_all local_chr u"
    "d \<noteq> []" "list_all domain_chr d" "length l = 2" "list_all re_letter l"
    unfolding begins_address_def by blast
  have "takeWhile local_chr s = u" "dropWhile local_chr s = CHR ''@'' # d @ CHR ''.'' # l @ r"
    using s(3) at_sign(1) by (simp_all add: s(1) takeWhile_append2 dropWhile_append2 list_all_iff)
  moreover have "after_domain False (d @ CHR ''.'' # l @ r) \<noteq> None" using s(4-7) after_domain_iff [of False] by blast
  ultimately show "email_match p s \<noteq> None" using s(2) by (auto simp: email_match_def Let_def)
qed

lemma email_match_shape:
  assumes "email_match p (c # cs) = Some (out, rest)"
  shows "out = ''[email]'' \<and> length rest \<le> length cs"
proof -
  let ?r = "dropWhile local_chr (c # cs)"
  have out: "out = ''[email]''" "after_domain False (tl ?r) = Some rest" "takeWhile local_chr (c # cs) \<noteq> []"
    using assms unfolding email_match_def Let_def by (auto split: if_splits)
  then have "local_chr c" by (auto split: if_splits)
  then have "length (tl ?r) \<le> length cs" by (simp add: le_diff_conv length_dropWhile_le le_SucI)
  with out(1) after_domain_shorter [OF out(2)] show ?thesis by simp
qed

text \<open>Up to the first bracket the result is the text itself.\<close>

lemma scrubbed_prefix:
  "replace_all email_match p s = w @ x \<Longrightarrow> CHR ''['' \<notin> set w \<Longrightarrow> \<exists>y. s = w @ y"
proof (induction email_match p s arbitrary: w rule: replace_all.induct)
  case (1 p)
  then show ?case by simp
next
  case (2 p c cs)
  show ?case
  proof (cases "email_match p (c # cs)")
    case None
    with 2(4) have r: "c # replace_all email_match (Some c) cs = w @ x" by simp
    show ?thesis
    proof (cases w)
      case (Cons a w')
      from r [unfolded Cons append_Cons list.inject] have "replace_all email_match (Some c) cs = w' @ x" "a = c" by blast+
      moreover have "CHR ''['' \<notin> set w'" using 2(5) Cons by simp
      ultimately show ?thesis using 2(1) [OF None] Cons by simp
    qed simp
  next
    case (Some m)
    obtain out rest where m: "m = (out, rest)" by fastforce
    from email_match_shape [OF Some [unfolded m]] have "out = ''[email]''" "length rest \<le> length cs" by simp_all
    with 2(4) Some m have "\<exists>z. CHR ''['' # z = w @ x" by auto
    with 2(5) have "w = []" by (cases w) auto
    then show ?thesis by simp
  qed
qed

lemma address_in_prefix:
  assumes "begins_address s"
  shows "\<exists>w x. s = w @ x \<and> CHR ''['' \<notin> set w \<and> (\<forall>y. begins_address (w @ y))"
proof -
  obtain u d l r where s: "s = u @ CHR ''@'' # d @ CHR ''.'' # l @ r" "u \<noteq> []" "list_all local_chr u"
    "d \<noteq> []" "list_all domain_chr d" "length l = 2" "list_all re_letter l"
    using assms unfolding begins_address_def by blast
  let ?w = "u @ CHR ''@'' # d @ CHR ''.'' # l"
  have "CHR ''['' \<notin> set ?w" using s(3,5,7) at_sign(2-4) by (auto simp: list_all_iff)
  moreover have "begins_address (?w @ y)" for y
    unfolding begins_address_def by (rule exI [of _ u], rule exI [of _ d], rule exI [of _ l], rule exI [of _ y]) (use s in simp)
  ultimately show ?thesis using s(1) by (intro exI [of _ ?w] exI [of _ r]) simp
qed

lemma mark_letters:
  "local_chr CHR ''e''" "local_chr CHR ''m''" "local_chr CHR ''a''" "local_chr CHR ''i''" "local_chr CHR ''l''" "\<not> local_chr CHR '']''"
  by code_simp+

lemma mark_no_address:
  assumes "n < 7"
  shows "\<not> begins_address (drop n ''[email]'' @ t)"
proof -
  consider "n = 0" | "n = 1" | "n = 2" | "n = 3" | "n = 4" | "n = 5" | "n = 6" using assms by linarith
  then have "email_match None (drop n ''[email]'' @ t) = None"
    by cases (simp_all add: email_match_def Let_def mark_letters at_sign)
  then show ?thesis using email_match_iff [of None "drop n ''[email]'' @ t"] by metis
qed

lemma scrubbed_clean: "replace_all email_match p s = a @ b \<Longrightarrow> \<not> begins_address b"
proof (induction email_match p s arbitrary: a rule: replace_all.induct)
  case (1 p)
  then show ?case by (simp add: begins_address_def)
next
  case (2 p c cs)
  show ?case
  proof (cases "email_match p (c # cs)")
    case None
    with 2(4) have r: "c # replace_all email_match (Some c) cs = a @ b" by simp
    show ?thesis
    proof (cases a)
      case Nil
      show ?thesis
      proof
        assume "begins_address b"
        then obtain w x where w: "b = w @ x" "CHR ''['' \<notin> set w" "\<forall>y. begins_address (w @ y)" using address_in_prefix by blast
        have "replace_all email_match p (c # cs) = w @ x" using 2(4) Nil w(1) by simp
        then obtain y where "c # cs = w @ y" using scrubbed_prefix w(2) by blast
        with w(3) None email_match_iff show False by metis
      qed
    next
      case (Cons x a')
      from r [unfolded Cons append_Cons list.inject] have "replace_all email_match (Some c) cs = a' @ b" by blast
      then show ?thesis by (rule 2(1) [OF None])
    qed
  next
    case (Some m)
    obtain out rest where m: "m = (out, rest)" by fastforce
    have shape: "out = ''[email]''" "length rest \<le> length cs" using email_match_shape [OF Some [unfolded m]] by simp_all
    let ?q = "Some (last (take (length (c # cs) - length rest) (c # cs)))"
    have r: "''[email]'' @ replace_all email_match ?q rest = a @ b"
      using 2(4) Some m shape by simp
    show ?thesis
    proof (cases "length a < 7")
      case True
      have "b = drop (length a) (a @ b)" by simp
      also have "\<dots> = drop (length a) ''[email]'' @ replace_all email_match ?q rest"
        unfolding r [symmetric] using True by (simp only: drop_append) simp
      finally show ?thesis using mark_no_address [OF True] by simp
    next
      case False
      have "replace_all email_match ?q rest = drop 7 (''[email]'' @ replace_all email_match ?q rest)" by simp
      also have "\<dots> = drop 7 a @ b" unfolding r using False by simp
      finally have "replace_all email_match ?q rest = drop 7 a @ b" .
      then show ?thesis by (rule 2(2) [OF Some m [symmetric] shape(2)])
    qed
  qed
qed

text \<open>C31: No address leaves the building in a log line: wherever one cuts the message of a log line in a report, what
  follows does not begin with an e-mail address.\<close>

theorem no_address_leaves:
  assumes "build_report env lic s = (Inr r, s')" "x \<in> set (rp_logs r)" "rl_message x = a @ b"
  shows "\<not> begins_address b"
proof -
  have "rp_logs r = report_logs (lc_last_log lic) (me_now (re_mon env)) (ry_log s)"
    using assms(1) by (auto simp: build_report_def Let_def split: prod.splits if_splits)
  then obtain e :: sys_event where "rl_message x = scrub (se_message e)"
    using assms(2) by (auto simp: report_logs_def report_log_of_def)
  with assms(3) show ?thesis using scrubbed_clean by (simp add: scrub_def)
qed

section \<open>Every line once\<close>

text \<open>
  What changes the system log and the licence over time: rounds of the reporter, entries, pruning.  The vendor is the list of
  reports it took; that it keeps what it answers with a success, and nothing else, is the law \<open>vendor_keeps\<close>.
\<close>

definition vendor_keeps :: "report list report_env \<Rightarrow> bool" where
  "vendor_keeps env \<longleftrightarrow> (\<forall>url key i r v.
     (case re_post env url key i r v of
        (Inl e, v') \<Rightarrow> v' = v
      | (Inr status, v') \<Rightarrow> v' = (if status div 100 = 2 then v @ [r] else v)))"

datatype rep_step = Send_round "report list report_env" | Log_entry faults nat string string string | Prune_log faults nat

fun rep_run ::
  "rep_step list \<Rightarrow> ('w, 'd, 'n, report list) reporter \<Rightarrow> ('w, 'd, 'n, report list) reporter" where
  "rep_run [] s = s"
| "rep_run (Send_round env # xs) s = rep_run xs (reporter_round env s)"
| "rep_run (Log_entry f now level src msg # xs) s =
     rep_run xs (s\<lparr>ry_log := the (sys_write f now level src msg (Some (ry_log s)))\<rparr>)"
| "rep_run (Prune_log f now # xs) s = rep_run xs (s\<lparr>ry_log := snd (sys_prune f now (ry_log s))\<rparr>)"

definition round_ok :: "rep_step \<Rightarrow> bool" where
  "round_ok x = (case x of Send_round env \<Rightarrow> vendor_keeps env \<and> \<not> me_faults (re_mon env) ''save last sent'' | _ \<Rightarrow> True)"

definition sent_ids :: "('w, 'd, 'n, report list) reporter \<Rightarrow> int list" where
  "sent_ids s = map rl_id (concat (map rp_logs (ry_vendor s)))"

definition log_ids_ok :: "sys_log \<Rightarrow> bool" where
  "log_ids_ok l \<longleftrightarrow> sorted_wrt (<) (map se_id (sl_rows l)) \<and> list_all (\<lambda>e. se_id e < sl_next l) (sl_rows l)"

definition reports_ok :: "('w, 'd, 'n, report list) reporter \<Rightarrow> bool" where
  "reports_ok s \<longleftrightarrow> log_ids_ok (ry_log s) \<and> sorted_wrt (<) (sent_ids s)
     \<and> list_all (\<lambda>i. i \<le> lc_last_log (ry_licence s)) (sent_ids s)"

lemma sys_write_ids: "log_ids_ok l \<Longrightarrow> log_ids_ok (the (sys_write f now level src msg (Some l)))"
  by (auto simp: log_ids_ok_def sys_write_def Let_def sorted_wrt_append list_all_iff)

lemma sys_prune_ids: "log_ids_ok l \<Longrightarrow> log_ids_ok (snd (sys_prune f now l))"
  by (auto simp: log_ids_ok_def sys_prune_def list_all_iff sorted_wrt_map intro: sorted_wrt_filter)

lemma report_logs_ids:
  assumes "log_ids_ok l"
  shows "sorted_wrt (<) (map rl_id (report_logs cur now l))" "list_all (\<lambda>x. cur < rl_id x) (report_logs cur now l)"
proof -
  let ?es = "take report_max_logs (filter (reportable cur now) (sl_rows l))"
  have "sorted_wrt (\<lambda>x y. se_id x < se_id y) (sl_rows l)" using assms by (simp add: log_ids_ok_def sorted_wrt_map)
  then have "sorted_wrt (\<lambda>x y. se_id x < se_id y) ?es" by (intro sorted_wrt_take sorted_wrt_filter)
  then show "sorted_wrt (<) (map rl_id (report_logs cur now l))"
    by (simp add: report_logs_def sorted_wrt_map report_log_of_def)
  show "list_all (\<lambda>x. cur < rl_id x) (report_logs cur now l)"
    by (auto simp: report_logs_def report_log_of_def list_all_iff reportable_def dest!: in_set_takeD)
qed

lemma last_is_greatest:
  assumes "sorted_wrt (<) (map f xs)" "x \<in> set xs"
  shows "f x \<le> (f (last xs) :: int)"
  using assms by (induction xs) (auto split: if_splits intro: less_imp_le)

lemma post_keeps:
  assumes "vendor_keeps env" "post_report env lic r v = (res, v')"
  shows "v' = (case res of Inl _ \<Rightarrow> v | Inr _ \<Rightarrow> v @ [r])"
proof -
  let ?url = "trim_right_chr CHR ''/'' (re_url env) @ ''/api/report''"
  obtain ans v1 where post: "re_post env ?url (''Bearer '' @ lc_key lic) (lc_install lic) r v = (ans, v1)" by (rule prod.exhaust)
  have law: "case (ans, v1) of (Inl e, v') \<Rightarrow> v' = v | (Inr status, v') \<Rightarrow> v' = (if status div 100 = 2 then v @ [r] else v)"
    using assms(1) [unfolded vendor_keeps_def, rule_format, where url = ?url and key = "''Bearer '' @ lc_key lic" and i = "lc_install lic" and r = r and v = v]
    unfolding post .
  have "v1 = (case post_outcome ans of Inl _ \<Rightarrow> v | Inr _ \<Rightarrow> v @ [r])"
    using law by (cases ans) (auto simp: post_outcome_def)
  moreover have "(if url_parse ?url = None then (Inl ''new request'', v) else (post_outcome ans, v1)) = (res, v')"
    using assms(2) by (simp only: post_report_def Let_def post prod.case)
  ultimately show ?thesis by (cases "url_parse ?url = None") auto
qed

lemma build_keeps:
  assumes "build_report env lic s = (res, s1)"
  shows "ry_licence s1 = ry_licence s" "ry_log s1 = ry_log s" "ry_vendor s1 = ry_vendor s"
    "res = Inr r \<Longrightarrow> rp_logs r = report_logs (lc_last_log lic) (me_now (re_mon env)) (ry_log s)"
  using assms by (auto simp: build_report_def Let_def split: prod.splits if_splits)

lemma reports_ok_same:
  "ry_log s' = ry_log s \<Longrightarrow> ry_vendor s' = ry_vendor s \<Longrightarrow> lc_last_log (ry_licence s') = lc_last_log (ry_licence s)
     \<Longrightarrow> reports_ok s' = reports_ok s"
  by (simp add: reports_ok_def sent_ids_def)

lemma sent_report_ok:
  assumes ok: "reports_ok s" and s': "ry_log s' = ry_log s" "ry_vendor s' = ry_vendor s @ [r]"
    and r: "rp_logs r = report_logs (lc_last_log (ry_licence s)) now (ry_log s)"
    and cur: "lc_last_log (ry_licence s') = (if rp_logs r = [] then lc_last_log (ry_licence s) else rl_id (last (rp_logs r)))"
  shows "reports_ok s'"
proof -
  let ?c = "lc_last_log (ry_licence s)" and ?logs = "rp_logs r"
  have old: "log_ids_ok (ry_log s)" "sorted_wrt (<) (sent_ids s)" "\<forall>i \<in> set (sent_ids s). i \<le> ?c"
    using ok by (simp_all add: reports_ok_def list_all_iff)
  have new: "sorted_wrt (<) (map rl_id ?logs)" "\<forall>x \<in> set ?logs. ?c < rl_id x"
    using report_logs_ids [OF old(1)] unfolding r by (simp_all add: list_all_iff)
  have ids: "sent_ids s' = sent_ids s @ map rl_id ?logs" by (simp add: sent_ids_def s'(2))
  have "?c \<le> lc_last_log (ry_licence s')"
    using new(2) unfolding cur by (cases "?logs = []") (auto simp: less_imp_le)
  moreover have "\<forall>x \<in> set ?logs. rl_id x \<le> lc_last_log (ry_licence s')"
    using last_is_greatest [OF new(1)] unfolding cur by auto
  ultimately have "\<forall>i \<in> set (sent_ids s'). i \<le> lc_last_log (ry_licence s')"
    using old(3) unfolding ids by force
  moreover have "sorted_wrt (<) (sent_ids s')"
    using old(2,3) new unfolding ids by (fastforce simp: sorted_wrt_append)
  ultimately show ?thesis using old(1) s'(1) by (simp add: reports_ok_def list_all_iff)
qed

lemma send_round_ok:
  assumes ok: "reports_ok s" and law: "vendor_keeps env" "\<not> me_faults (re_mon env) ''save last sent''"
  shows "reports_ok (reporter_round env s)"
proof (cases "me_faults (re_mon env) ''get licence'' \<or> \<not> monitor_enabled (re_url env) (ry_licence s)")
  case True
  then show ?thesis using ok by (auto simp: reporter_round_def get_licence_def)
next
  case False
  let ?lic = "ry_licence s"
  obtain res s1 where b: "build_report env ?lic s = (res, s1)" by fastforce
  note k = build_keeps [OF b]
  have round: "reporter_round env s = snd (send_report env s)"
    using False by (simp add: reporter_round_def get_licence_def)
  show ?thesis
  proof (cases res)
    case (Inl e)
    then have "reporter_round env s = s1" using False b by (simp add: round send_report_def get_licence_def Let_def)
    with ok reports_ok_same [OF k(2,3)] k(1) show ?thesis by simp
  next
    case (Inr r)
    obtain ans v where p: "post_report env ?lic r (ry_vendor s1) = (ans, v)" by fastforce
    note v = post_keeps [OF law(1) p]
    show ?thesis
    proof (cases ans)
      case (Inl e)
      then have r1: "reporter_round env s = s1\<lparr>ry_vendor := v, ry_licence := note_report_failure (me_faults (re_mon env)) e (ry_licence s1)\<rparr>"
        using False b Inr p by (simp add: round send_report_def get_licence_def Let_def)
      have "lc_last_log (note_report_failure f e l) = lc_last_log l" for f l by (simp add: note_report_failure_def Let_def)
      then have "reports_ok (reporter_round env s) = reports_ok s"
        unfolding r1 using v Inl k by (intro reports_ok_same) simp_all
      with ok show ?thesis by simp
    next
      case inner: (Inr u)
      then have r1: "reporter_round env s = s1\<lparr>ry_vendor := v, ry_licence := note_sent (me_faults (re_mon env)) (me_now (re_mon env))
          (rp_logs r) (lc_last_log ?lic) (ry_licence s1)\<rparr>"
        using False b Inr p by (simp add: round send_report_def get_licence_def Let_def)
      show ?thesis
        by (rule sent_report_ok [OF ok, where r = r and now = "me_now (re_mon env)"])
          (use r1 v inner k(1-3) k(4) [OF Inr] law(2) in \<open>simp_all add: note_sent_def\<close>)
    qed
  qed
qed


section \<open>A small installation\<close>

definition blind_machine :: machine where
  "blind_machine = \<lparr>hv_meminfo = Inl [], hv_loadavg = Inl [], hv_stat = Inl [], hv_uptime = Inl [], hv_disk = Inl []\<rparr>"

definition small_mon :: mon_env where
  "small_mon = \<lparr>me_faults = no_faults, me_now = 10, me_host = blind_machine, me_float = (\<lambda>_. (0, True)), me_real = (\<lambda>x. x),
     me_containers = (\<lambda>_. Inr [])\<rparr>"

definition small_report_env :: "report list report_env" where
  "small_report_env = \<lparr>re_mon = small_mon, re_url = ''h:'', re_version = ''1'', re_post = (\<lambda>_ _ _ r v. (Inr 200, v @ [r]))\<rparr>"

definition small_sys_log :: sys_log where
  "small_sys_log = \<lparr>sl_rows =
     [\<lparr>se_id = 1, se_at = 5, se_level = ''info'', se_source = ''p'', se_message = ''up''\<rparr>,
      \<lparr>se_id = 2, se_at = 6, se_level = ''warn'', se_source = ''p'', se_message = ''no a@b.co''\<rparr>], sl_next = 3\<rparr>"

definition small_reporter :: "(small_world, small_dir, unit, report list) reporter" where
  "small_reporter = \<lparr>ry_licence = \<lparr>lc_install = ''i'', lc_key = ''k'', lc_send = True, lc_last_log = 0, lc_last_sent = None,
       lc_last_error = []\<rparr>, ry_cpu = (0, 0), ry_log = small_sys_log, ry_backups = small_machine, ry_vendor = []\<rparr>"

lemma small_log_lines: "map rl_message (report_logs 0 10 small_sys_log) = [''no [email]''] \<and> map rl_id (report_logs 0 10 small_sys_log) = [2]"
proof -
  have "scrub ''no a@b.co'' = ''no [email]''" by code_simp
  then show ?thesis
    by (simp add: report_logs_def small_sys_log_def reportable_def report_log_age_def us_per_sec_def report_max_logs_def report_log_of_def)
qed

lemma small_build:
  "\<exists>r s'. build_report small_report_env (ry_licence small_reporter) small_reporter = (Inr r, s')
     \<and> rp_logs r = report_logs 0 10 small_sys_log"
  by (simp add: build_report_def small_report_env_def small_mon_def blind_machine_def cpu_pct_def small_reporter_def Let_def)

theorem no_address_leaves_witness:
  "\<exists>r s' x. build_report small_report_env (ry_licence small_reporter) small_reporter = (Inr r, s') \<and> x \<in> set (rp_logs r)
     \<and> rl_message x = ''no [email]'' \<and> \<not> begins_address (rl_message x)"
proof -
  obtain r s' where r: "build_report small_report_env (ry_licence small_reporter) small_reporter = (Inr r, s')"
    "rp_logs r = report_logs 0 10 small_sys_log" using small_build by blast
  obtain x where x: "x \<in> set (rp_logs r)" "rl_message x = ''no [email]''"
    using small_log_lines unfolding r(2) by (auto simp: map_eq_Cons_conv)
  have "\<not> begins_address (rl_message x)" using no_address_leaves [OF r(1) x(1), of "[]"] by simp
  with r(1) x show ?thesis by blast
qed

definition small_steps :: "rep_step list" where
  "small_steps = [Send_round small_report_env, Log_entry no_faults 7 ''error'' ''p'' ''x'', Send_round small_report_env]"

lemma small_steps_ok: "list_all round_ok small_steps"
  by (simp add: small_steps_def round_ok_def vendor_keeps_def small_report_env_def small_mon_def)

lemma small_reporter_ok: "reports_ok small_reporter"
  by (simp add: reports_ok_def small_reporter_def log_ids_ok_def small_sys_log_def sent_ids_def)

lemma small_round:
  assumes "lc_key (ry_licence s) = ''k''" "lc_send (ry_licence s)"
  shows "\<exists>r s'. reporter_round small_report_env s = s' \<and> ry_vendor s' = ry_vendor s @ [r] \<and> ry_log s' = ry_log s
    \<and> rp_logs r = report_logs (lc_last_log (ry_licence s)) 10 (ry_log s)
    \<and> lc_key (ry_licence s') = ''k'' \<and> lc_send (ry_licence s')
    \<and> lc_last_log (ry_licence s') = (if rp_logs r = [] then lc_last_log (ry_licence s) else rl_id (last (rp_logs r)))"
proof -
  have url: "url_parse (trim_right_chr CHR ''/'' ''h:'' @ ''/api/report'') \<noteq> None" by code_simp
  obtain r s1 where b: "build_report small_report_env (ry_licence s) s = (Inr r, s1)" "rp_logs r = report_logs (lc_last_log (ry_licence s)) 10 (ry_log s)"
    by (simp add: build_report_def small_report_env_def small_mon_def blind_machine_def cpu_pct_def Let_def)
  have p: "post_report small_report_env (ry_licence s) r (ry_vendor s1) = (Inr (), ry_vendor s1 @ [r])"
    using url by (simp add: post_report_def small_report_env_def post_outcome_def Let_def)
  have e: "monitor_enabled (re_url small_report_env) (ry_licence s)" "get_licence (me_faults (re_mon small_report_env)) l = Inr l"
    "me_faults (re_mon small_report_env) = no_faults" for l
    using assms by (simp_all add: monitor_enabled_def licence_valid_def small_report_env_def small_mon_def get_licence_def)
  show ?thesis
    using assms b p build_keeps [OF b(1)]
    by (simp add: reporter_round_def send_report_def e(1,2) Let_def) (simp add: e(3) note_sent_def)
qed

lemma small_sent: "sent_ids (rep_run small_steps small_reporter) = [2, 3]"
proof -
  have lic: "lc_key (ry_licence small_reporter) = ''k''" "lc_send (ry_licence small_reporter)"
    "lc_last_log (ry_licence small_reporter) = 0" "ry_log small_reporter = small_sys_log" "ry_vendor small_reporter = []"
    by (simp_all add: small_reporter_def)
  obtain r1 s1 where s1: "reporter_round small_report_env small_reporter = s1" "ry_vendor s1 = [] @ [r1]" "ry_log s1 = small_sys_log"
    "rp_logs r1 = report_logs 0 10 small_sys_log" "lc_key (ry_licence s1) = ''k''" "lc_send (ry_licence s1)"
    "lc_last_log (ry_licence s1) = (if rp_logs r1 = [] then 0 else rl_id (last (rp_logs r1)))"
    using small_round [OF lic(1,2), unfolded lic] by (elim exE conjE) (rule that)
  have one: "map rl_id (rp_logs r1) = [2]" using small_log_lines s1(4) by simp
  then have "lc_last_log (ry_licence s1) = 2" using s1(7) by (cases "rp_logs r1") auto
  define s2 where "s2 = s1\<lparr>ry_log := the (sys_write no_faults 7 ''error'' ''p'' ''x'' (Some (ry_log s1)))\<rparr>"
  have "pg_text ''error''" "pg_text ''p''" "pg_text ''x''" by (simp_all add: pg_text_def valid_utf8_def byte_def)
  then have log2: "ry_log s2 = small_sys_log\<lparr>sl_rows := sl_rows small_sys_log @ [\<lparr>se_id = 3, se_at = 7, se_level = ''error'',
      se_source = ''p'', se_message = ''x''\<rparr>], sl_next := 4\<rparr>"
    by (simp add: s2_def s1(3) sys_write_def clip_def small_sys_log_def Let_def)
  have two: "map rl_id (report_logs 2 10 (ry_log s2)) = [3]"
    by (simp add: log2 report_logs_def small_sys_log_def reportable_def report_log_age_def us_per_sec_def report_max_logs_def report_log_of_def)
  have lic2: "lc_key (ry_licence s2) = ''k''" "lc_send (ry_licence s2)" "lc_last_log (ry_licence s2) = 2" "ry_vendor s2 = [r1]"
    using s1 \<open>lc_last_log (ry_licence s1) = 2\<close> by (simp_all add: s2_def)
  obtain r2 s3 where s3: "reporter_round small_report_env s2 = s3" "ry_vendor s3 = [r1] @ [r2]" "rp_logs r2 = report_logs 2 10 (ry_log s2)"
    using small_round [OF lic2(1,2), unfolded lic2] by (elim exE conjE) (rule that)
  have "rep_run small_steps small_reporter = s3"
    by (simp add: small_steps_def s1(1) s2_def [symmetric] s3(1))
  then show ?thesis using s3(2,3) one two by (simp add: sent_ids_def)
qed


end
