(* ===== verification/GoIp.thy ===== *)
theory GoIp
  imports OfficeNet
begin

text \<open>
  What the sources use of Go's \<open>net.ParseIP\<close> and of the name check of \<open>crypto/x509\<close>.  An address is the list of its eight
  fields of sixteen bits; an IPv4 address is the mapped one, as \<open>net.IP\<close> compares them.
\<close>

section \<open>Addresses\<close>

type_synonym ip = "nat list"

definition v4_fields :: "ipv4 \<Rightarrow> nat list" where
  "v4_fields a = [unat (drop_bit 16 a), unat a mod 0x10000]"

definition v4_mapped :: "ipv4 \<Rightarrow> ip" where
  "v4_mapped a = [0, 0, 0, 0, 0, 0xFFFF] @ v4_fields a"

definition hex_val :: "char \<Rightarrow> nat option" where
  "hex_val c =
     (if in_range 0x30 0x39 c then Some (byte c - 0x30)
      else if in_range 0x61 0x66 c then Some (byte c - 0x61 + 10)
      else if in_range 0x41 0x46 c then Some (byte c - 0x41 + 10)
      else None)"

definition hex_number :: "string \<Rightarrow> nat" where
  "hex_number ds = fold (\<lambda>c n. 16 * n + (case hex_val c of None \<Rightarrow> 0 | Some d \<Rightarrow> d)) ds 0"

text \<open>
  The loop of \<open>netip.parseIPv6\<close>: the fields read so far and the place of \<open>::\<close> among them.  A dotted IPv4 address may take
  the place of the last two fields.
\<close>

function v6_fields :: "nat list \<Rightarrow> nat option \<Rightarrow> string \<Rightarrow> (nat list \<times> nat option) option" where
  "v6_fields acc ell s =
     (if 8 \<le> length acc then (if s = [] then Some (acc, ell) else None)
      else (let ds = takeWhile (\<lambda>c. hex_val c \<noteq> None) s; rest = dropWhile (\<lambda>c. hex_val c \<noteq> None) s;
                acc1 = acc @ [hex_number ds] in
        if ds = [] \<or> 4 < length ds then None
        else if rest = [] then Some (acc1, ell)
        else if hd rest = CHR ''.'' then
          (if (ell = None \<and> length acc \<noteq> 6) \<or> 8 < length acc + 2 then None
           else case parse_ipv4 s of None \<Rightarrow> None | Some a \<Rightarrow> Some (acc @ v4_fields a, ell))
        else if hd rest \<noteq> CHR '':'' \<or> length rest = 1 then None
        else if hd (tl rest) \<noteq> CHR '':'' then v6_fields acc1 ell (tl rest)
        else if ell \<noteq> None then None
        else if tl (tl rest) = [] then Some (acc1, Some (length acc1))
        else v6_fields acc1 (Some (length acc1)) (tl (tl rest))))"
  by pat_completeness auto

termination by (relation "measure (\<lambda>(acc, _, _). 8 - length acc)") auto

declare v6_fields.simps [simp del]

definition v6_expand :: "nat list \<times> nat option \<Rightarrow> ip option" where
  "v6_expand r =
     (case r of
        (acc, None) \<Rightarrow> if length acc < 8 then None else Some acc
      | (acc, Some e) \<Rightarrow>
          if length acc < 8 then Some (take e acc @ replicate (8 - length acc) 0 @ drop e acc) else None)"

definition parse_ipv6 :: "string \<Rightarrow> ip option" where
  "parse_ipv6 s =
     (if s = ''::'' then Some (replicate 8 0)
      else case (if has_prefix s ''::'' then v6_fields [] (Some 0) (drop 2 s) else v6_fields [] None s) of
        None \<Rightarrow> None
      | Some r \<Rightarrow> v6_expand r)"

text \<open>The first of the three characters decides which kind of address it is; zones are refused.\<close>

definition parse_ip :: "string \<Rightarrow> ip option" where
  "parse_ip s =
     (case dropWhile (\<lambda>c. c \<notin> {CHR ''.'', CHR '':'', CHR ''%''}) s of
        [] \<Rightarrow> None
      | c # _ \<Rightarrow>
          if c = CHR ''.'' then map_option v4_mapped (parse_ipv4 s)
          else if c = CHR '':'' \<and> CHR ''%'' \<notin> set s then parse_ipv6 s
          else None)"

lemma ip_examples:
  "parse_ip ''::1'' = Some [0, 0, 0, 0, 0, 0, 0, 1]"
  "parse_ip ''1:2:3:4:5:6:7::'' = Some [1, 2, 3, 4, 5, 6, 7, 0]"
  "parse_ip ''1::2::3'' = None" "parse_ip ''fe80::1%eth0'' = None" "parse_ip ''1:2:3:4:5:6:7:8::'' = None"
  by (simp_all add: parse_ip_def parse_ipv6_def v6_fields.simps hex_val_def in_range_def byte_def hex_number_def v6_expand_def Let_def)
    (simp add: numeral_eq_Suc)

section \<open>Names of certificates\<close>

definition to_lower_ascii :: "string \<Rightarrow> string" where
  "to_lower_ascii s = map lower_chr s"

definition label_ok :: "string \<Rightarrow> bool" where
  "label_ok part \<longleftrightarrow> part \<noteq> [] \<and> hd part \<noteq> CHR ''-'' \<and>
     list_all (\<lambda>c. in_range 0x61 0x7A c \<or> in_range 0x30 0x39 c \<or> in_range 0x41 0x5A c \<or> c = CHR ''-'' \<or> c = CHR ''_'') part"

definition trim_dot :: "string \<Rightarrow> string" where
  "trim_dot s = (if s \<noteq> [] \<and> last s = CHR ''.'' then butlast s else s)"

definition valid_hostname :: "bool \<Rightarrow> string \<Rightarrow> bool" where
  "valid_hostname is_pattern host \<longleftrightarrow>
     (let h = (if is_pattern then host else trim_dot host) in
      h \<noteq> [] \<and> h \<noteq> ''*'' \<and>
      (case split_chr (CHR ''.'') h of
         [] \<Rightarrow> False
       | p # ps \<Rightarrow> (label_ok p \<or> (is_pattern \<and> p = ''*'')) \<and> list_all label_ok ps))"

definition match_exactly :: "string \<Rightarrow> string \<Rightarrow> bool" where
  "match_exactly a b \<longleftrightarrow> a \<noteq> [] \<and> a \<noteq> ''.'' \<and> b \<noteq> [] \<and> b \<noteq> ''.'' \<and> to_lower_ascii a = to_lower_ascii b"

definition match_hostnames :: "string \<Rightarrow> string \<Rightarrow> bool" where
  "match_hostnames pattern host \<longleftrightarrow>
     (let p = to_lower_ascii pattern; h = to_lower_ascii (trim_dot host) in
      p \<noteq> [] \<and> h \<noteq> [] \<and>
      (let ps = split_chr (CHR ''.'') p; hs = split_chr (CHR ''.'') h in
       length ps = length hs \<and> (hd ps = ''*'' \<or> hd ps = hd hs) \<and> tl ps = tl hs))"

text \<open>\<open>VerifyHostname\<close> of a certificate with these names and addresses.\<close>

definition verify_hostname :: "string list \<Rightarrow> ip list \<Rightarrow> string \<Rightarrow> bool" where
  "verify_hostname names ips h \<longleftrightarrow>
     (let bare = (if 3 \<le> length h \<and> hd h = CHR ''['' \<and> last h = CHR '']'' then butlast (tl h) else h) in
      case parse_ip bare of
        Some a \<Rightarrow> a \<in> set ips
      | None \<Rightarrow>
          (let c = to_lower_ascii h in
           list_ex (\<lambda>m. if valid_hostname False c \<and> valid_hostname True m then match_hostnames m c else match_exactly m c) names))"

lemma lower_chr_twice [simp]: "lower_chr (lower_chr c) = lower_chr c"
proof (cases "65 \<le> byte c \<and> byte c \<le> 90")
  case True
  then have "byte (char_of (byte c + 32)) = byte c + 32" by (simp add: byte_def)
  then show ?thesis using True by (simp add: lower_chr_def)
qed (auto simp: lower_chr_def)

lemma to_lower_twice [simp]: "to_lower_ascii (to_lower_ascii s) = to_lower_ascii s"
  by (simp add: to_lower_ascii_def)

lemma byte_lower_chr: "byte (lower_chr c) = (if 65 \<le> byte c \<and> byte c \<le> 90 then byte c + 32 else byte c)"
  by (simp add: lower_chr_def byte_def)

lemma lower_chr_dot: "lower_chr c = CHR ''.'' \<Longrightarrow> c = CHR ''.''"
proof -
  assume a: "lower_chr c = CHR ''.''"
  then have "byte (lower_chr c) = 46" by (simp add: byte_def)
  then have "\<not> (65 \<le> byte c \<and> byte c \<le> 90)" by (simp add: byte_lower_chr split: if_splits)
  then show ?thesis using a by (auto simp: lower_chr_def)
qed

end
