(* ===== verification/ComputeMesh.thy ===== *)
theory ComputeMesh
  imports GoIp NetBird Installer Company
begin

text \<open>
  Remote power control of the company's computers (\<open>backend/internal/api/computemesh.go\<close>,
  \<open>backend/internal/meshcentral/client.go\<close>): the client of MeshCentral's control socket, the set-up after the module
  has started, and the handlers.  The MeshCentral server is not part of the program: its state is of any type \<open>'m\<close>, and
  what it sends on a connection on which one action was written is the parameter \<open>'m mesh_server\<close>; messages are JSON
  trees, as in \<open>NetBird\<close>.  The order of a list by name is the one of the database and a parameter as well.

  The theorem is about the comment in the source that a power command must not reach the wrong computer.
\<close>

section \<open>The client\<close>

text \<open>
  The address, the value of the header \<open>x-meshauth\<close> and the action; the answer is either an error of connecting or
  sending, or the messages that arrive until the connection ends.
\<close>

type_synonym 'm mesh_server = "string \<Rightarrow> string \<Rightarrow> json \<Rightarrow> 'm \<Rightarrow> (string + json list) \<times> 'm"

record mesh_login =
  ml_addr :: string
  ml_user :: string
  ml_password :: string

definition mesh_auth :: "mesh_login \<Rightarrow> string" where
  "mesh_auth c = base64 (ml_user c) @ '','' @ base64 (ml_password c)"

text \<open>Messages that do not answer the request are skipped; one that is no object cannot be read.\<close>

fun await_reply :: "json list \<Rightarrow> string + (string \<times> json) list" where
  "await_reply [] = Inl ''read''"
| "await_reply (msg # msgs) =
     (case dec_fields msg of
        None \<Rightarrow> Inl ''read''
      | Some o1 \<Rightarrow> if map_of o1 ''responseid'' = Some (J_str ''req'') then Inr o1 else await_reply msgs)"

definition mesh_request :: "(string \<times> json) list \<Rightarrow> json" where
  "mesh_request action = J_obj (action @ [(''responseid'', J_str ''req'')])"

definition mesh_call ::
  "'m mesh_server \<Rightarrow> mesh_login \<Rightarrow> (string \<times> json) list \<Rightarrow> 'm \<Rightarrow> (string + (string \<times> json) list) \<times> 'm" where
  "mesh_call sv c action m =
     (case sv (ml_addr c) (mesh_auth c) (mesh_request action) m of
        (Inl e, m1) \<Rightarrow> (Inl e, m1)
      | (Inr msgs, m1) \<Rightarrow> (await_reply msgs, m1))"

definition text_of :: "json option \<Rightarrow> string" where
  "text_of v = (case v of Some (J_str s) \<Rightarrow> s | _ \<Rightarrow> [])"

definition result_ok :: "(string \<times> json) list \<Rightarrow> bool" where
  "result_ok msg \<longleftrightarrow> text_of (map_of msg ''result'') = ''ok''"

text \<open>A call of which only the result counts.\<close>

definition mesh_do :: "'m mesh_server \<Rightarrow> mesh_login \<Rightarrow> (string \<times> json) list \<Rightarrow> 'm \<Rightarrow> (string + unit) \<times> 'm" where
  "mesh_do sv c action m =
     (case mesh_call sv c action m of
        (Inl e, m1) \<Rightarrow> (Inl e, m1)
      | (Inr msg, m1) \<Rightarrow> (if result_ok msg then Inr () else Inl ''meshcentral'', m1))"

definition create_action :: "string \<Rightarrow> (string \<times> json) list" where
  "create_action name = [(''action'', J_str ''createmesh''), (''meshname'', J_str name), (''meshtype'', J_num 1)]"

definition create_mesh :: "'m mesh_server \<Rightarrow> mesh_login \<Rightarrow> string \<Rightarrow> 'm \<Rightarrow> (string + string) \<times> 'm" where
  "create_mesh sv c name m =
     (case mesh_call sv c (create_action name) m of
        (Inl e, m1) \<Rightarrow> (Inl e, m1)
      | (Inr msg, m1) \<Rightarrow>
          (if result_ok msg then Inr (text_of (map_of msg ''meshid'')) else Inl ''meshcentral'', m1))"

record device_form =
  df_name :: string
  df_host :: string
  df_user :: string
  df_password :: string

definition add_action :: "string \<Rightarrow> device_form \<Rightarrow> (string \<times> json) list" where
  "add_action mesh d = [(''action'', J_str ''addamtdevice''), (''meshid'', J_str mesh), (''devicename'', J_str (df_name d)),
     (''hostname'', J_str (df_host d)), (''amtusername'', J_str (df_user d)), (''amtpassword'', J_str (df_password d)),
     (''amttls'', J_num 1)]"

definition add_amt_device :: "'m mesh_server \<Rightarrow> mesh_login \<Rightarrow> string \<Rightarrow> device_form \<Rightarrow> 'm \<Rightarrow> (string + unit) \<times> 'm" where
  "add_amt_device sv c mesh d m = mesh_do sv c (add_action mesh d) m"

definition node_entry :: "json \<Rightarrow> (string \<times> string) option" where
  "node_entry raw =
     (case raw of
        J_obj node \<Rightarrow>
          (let name = text_of (map_of node ''name''); did = text_of (map_of node ''_id'') in
           if name \<noteq> [] \<and> did \<noteq> [] then Some (name, did) else None)
      | _ \<Rightarrow> None)"

definition nodes_action :: "string \<Rightarrow> (string \<times> json) list" where
  "nodes_action mesh = [(''action'', J_str ''nodes''), (''meshid'', J_str mesh)]"

definition listed_nodes :: "string \<Rightarrow> (string \<times> json) list \<Rightarrow> json list" where
  "listed_nodes mesh msg =
     (case map_of msg ''nodes'' of
        Some (J_obj by_mesh) \<Rightarrow> (case map_of by_mesh mesh of Some (J_list xs) \<Rightarrow> xs | _ \<Rightarrow> [])
      | _ \<Rightarrow> [])"

text \<open>The names as a map: of two nodes with one name the later one stays.\<close>

definition nodes_map :: "json list \<Rightarrow> string \<Rightarrow> string option" where
  "nodes_map xs = map_of (rev (List.map_filter node_entry xs))"

definition mesh_nodes ::
  "'m mesh_server \<Rightarrow> mesh_login \<Rightarrow> string \<Rightarrow> 'm \<Rightarrow> (string + (string \<Rightarrow> string option)) \<times> 'm" where
  "mesh_nodes sv c mesh m =
     (case mesh_call sv c (nodes_action mesh) m of
        (Inl e, m1) \<Rightarrow> (Inl e, m1)
      | (Inr msg, m1) \<Rightarrow> (Inr (nodes_map (listed_nodes mesh msg)), m1))"

definition remove_action :: "string \<Rightarrow> (string \<times> json) list" where
  "remove_action node = [(''action'', J_str ''removedevices''), (''nodeids'', J_list [J_str node])]"

definition remove_node :: "'m mesh_server \<Rightarrow> mesh_login \<Rightarrow> string \<Rightarrow> 'm \<Rightarrow> (string + unit) \<times> 'm" where
  "remove_node sv c node m = mesh_do sv c (remove_action node) m"

definition power_action_msg :: "string list \<Rightarrow> int \<Rightarrow> (string \<times> json) list" where
  "power_action_msg nodes kind =
     [(''action'', J_str ''poweraction''), (''nodeids'', J_list (map J_str nodes)), (''actiontype'', J_num kind)]"

definition power_action :: "'m mesh_server \<Rightarrow> mesh_login \<Rightarrow> string list \<Rightarrow> int \<Rightarrow> 'm \<Rightarrow> (string + unit) \<times> 'm" where
  "power_action sv c nodes kind m = mesh_do sv c (power_action_msg nodes kind) m"

section \<open>State and set-up\<close>

record mesh_device =
  dv_id :: nat
  dv_name :: string
  dv_node :: string

record 'm mesh_platform =
  cm_admin :: admin_db
  cm_db :: core_db
  cm_devices :: "mesh_device list"
  cm_next :: nat
  cm_server :: 'm

record 'm mesh_env =
  cb_faults :: faults
  cb_now :: time
  cb_server :: "'m mesh_server"
  cb_before :: "string \<Rightarrow> string \<Rightarrow> bool"

definition mesh_login_of :: "config \<Rightarrow> mesh_login" where
  "mesh_login_of cfg = \<lparr>ml_addr = upstream_of ''compute-mesh'' ''meshcentral'' 443, ml_user = ''api'',
     ml_password = config_value cfg ''api_password''\<rparr>"

fun create_tries :: "nat \<Rightarrow> 'm mesh_server \<Rightarrow> mesh_login \<Rightarrow> 'm \<Rightarrow> string \<times> 'm" where
  "create_tries 0 sv c m = ([], m)"
| "create_tries (Suc n) sv c m =
     (case create_mesh sv c ''Devices'' m of (Inr mesh, m1) \<Rightarrow> (mesh, m1) | (Inl _, m1) \<Rightarrow> create_tries n sv c m1)"

text \<open>
  After a start of the module: what each look at the module saw, and how many attempts to create the device group are
  left before the two minutes are over.
\<close>

definition bootstrap_mesh ::
  "'m mesh_env \<Rightarrow> config option list \<Rightarrow> nat \<Rightarrow> 'm mesh_platform \<Rightarrow> (string + unit) \<times> 'm mesh_platform" where
  "bootstrap_mesh env looks tries s =
     (case List.map_filter (\<lambda>x. x) looks of
        [] \<Rightarrow> (Inl ''module never reached running'', s)
      | cfg # _ \<Rightarrow>
          (case create_tries tries (cb_server env) (mesh_login_of cfg) (cm_server s) of
             (mesh, m1) \<Rightarrow>
               (let s1 = s\<lparr>cm_server := m1\<rparr> in
                if mesh = [] then (Inl ''create device group never succeeded'', s1)
                else if cb_faults env ''persist mesh id'' then (Inl ''persist mesh id'', s1)
                else (Inr (), s1\<lparr>cm_db := update_mod ''compute-mesh''
                  (\<lambda>r. r\<lparr>in_config := merge_config (in_config r) [(''mesh_id'', mesh)]\<rparr>) (cm_db s1)\<rparr>))))"

definition mesh_client :: "faults \<Rightarrow> core_db \<Rightarrow> string + (mesh_login \<times> string) option" where
  "mesh_client f db =
     (case running_config f db ''compute-mesh'' of
        Inl e \<Rightarrow> Inl e
      | Inr None \<Rightarrow> Inr None
      | Inr (Some cfg) \<Rightarrow>
          (let mesh = config_value cfg ''mesh_id'' in
           if mesh = [] \<or> config_value cfg ''api_password'' = [] then Inr None else Inr (Some (mesh_login_of cfg, mesh))))"

section \<open>Host names\<close>

definition host_alnum :: "char \<Rightarrow> bool" where
  "host_alnum c \<longleftrightarrow> in_range 0x30 0x39 c \<or> in_range 0x41 0x5A c \<or> in_range 0x61 0x7A c"

definition device_host_name :: "string \<Rightarrow> bool" where
  "device_host_name h \<longleftrightarrow> h \<noteq> [] \<and> host_alnum (hd h) \<and> host_alnum (last h) \<and> length h \<le> 253
     \<and> list_all (\<lambda>c. host_alnum c \<or> c = CHR ''.'' \<or> c = CHR ''-'') h"

definition valid_device_host :: "string \<Rightarrow> bool" where
  "valid_device_host h \<longleftrightarrow> parse_ip h \<noteq> None \<or> device_host_name h"

section \<open>Handlers\<close>

definition list_mesh_devices ::
  "'m mesh_env \<Rightarrow> string \<Rightarrow> 'm mesh_platform \<Rightarrow> (bool \<times> (nat \<times> string) list) result \<times> 'm mesh_platform" where
  "list_mesh_devices env tok s =
     (let f = cb_faults env in
      case require_auth f (cb_now env) (cm_admin s) tok of
        Inl e \<Rightarrow> (Inl e, s)
      | Inr _ \<Rightarrow>
          (case mesh_client f (cm_db s) of
             Inl _ \<Rightarrow> (Inl (internal_error ''check compute mesh module''), s)
           | Inr None \<Rightarrow> (Inr (False, []), s)
           | Inr (Some _) \<Rightarrow>
               if f ''list devices'' then (Inl (internal_error ''list devices''), s)
               else if f ''scan device'' \<and> cm_devices s \<noteq> [] then (Inl (internal_error ''scan device''), s)
               else (Inr (True, map (\<lambda>d. (dv_id d, dv_name d))
                 (order_by (\<lambda>a b. cb_before env (dv_name a) (dv_name b)) (cm_devices s))), s)))"

text \<open>The checks before a device is registered, and the registration itself.\<close>

definition admit_device ::
  "'m mesh_env \<Rightarrow> device_form \<Rightarrow> 'm mesh_platform \<Rightarrow> (mesh_login \<times> string \<times> device_form) result" where
  "admit_device env form s =
     (let f = cb_faults env in
      case mesh_client f (cm_db s) of
        Inl _ \<Rightarrow> Inl (internal_error ''check compute mesh module'')
      | Inr None \<Rightarrow> Inl (HTTP 400 ''install the Compute Mesh module first'')
      | Inr (Some (c, mesh)) \<Rightarrow>
          if df_name form = [] \<or> df_host form = [] \<or> df_user form = [] \<or> df_password form = []
          then Inl (HTTP 400 ''name, host, AMT username, and AMT password are all required'')
          else (let d = form\<lparr>df_name := trim_space (df_name form), df_host := trim_space (df_host form)\<rparr> in
            if 64 < length (df_name d) \<or> list_ex (\<lambda>ch. ch \<in> {CHR 0x0D, CHR 0x0A, CHR 0x09}) (df_name d)
            then Inl (HTTP 400 ''the name must be 64 characters or fewer, on one line'')
            else if \<not> valid_device_host (df_host d) then Inl (HTTP 400 ''host must be an IP address or a computer name'')
            else if f ''check name'' \<or> \<not> pg_text (df_name d) then Inl (internal_error ''check name'')
            else if list_ex (\<lambda>x. dv_name x = df_name d) (cm_devices s)
            then Inl (HTTP 400 ''a computer with that name is already registered'')
            else Inr (c, mesh, d)))"

definition register_device ::
  "'m mesh_env \<Rightarrow> mesh_login \<Rightarrow> string \<Rightarrow> device_form \<Rightarrow> 'm mesh_platform \<Rightarrow> unit result \<times> 'm mesh_platform" where
  "register_device env c mesh d s =
     (case add_amt_device (cb_server env) c mesh d (cm_server s) of
        (Inl _, m1) \<Rightarrow> (Inl (HTTP 400 ''could not register device''), s\<lparr>cm_server := m1\<rparr>)
      | (Inr _, m1) \<Rightarrow>
          (case mesh_nodes (cb_server env) c mesh m1 of
             (Inl _, m2) \<Rightarrow> (Inl (internal_error ''look up registered device''), s\<lparr>cm_server := m2\<rparr>)
           | (Inr nodes, m2) \<Rightarrow>
               (case nodes (df_name d) of
                  None \<Rightarrow> (Inl (internal_error ''registered device not found afterward''), s\<lparr>cm_server := m2\<rparr>)
                | Some node \<Rightarrow>
                    if cb_faults env ''save device'' \<or> \<not> pg_text node then (Inl (internal_error ''save device''), s\<lparr>cm_server := m2\<rparr>)
                    else (Inr (), s\<lparr>cm_server := m2, cm_next := Suc (cm_next s),
                      cm_devices := cm_devices s @ [\<lparr>dv_id = cm_next s, dv_name = df_name d, dv_node = node\<rparr>]\<rparr>))))"

definition add_mesh_device ::
  "'m mesh_env \<Rightarrow> string \<Rightarrow> device_form \<Rightarrow> 'm mesh_platform \<Rightarrow> unit result \<times> 'm mesh_platform" where
  "add_mesh_device env tok form s =
     (case require_auth (cb_faults env) (cb_now env) (cm_admin s) tok of
        Inl e \<Rightarrow> (Inl e, s)
      | Inr _ \<Rightarrow>
          (case admit_device env form s of
             Inl e \<Rightarrow> (Inl e, s)
           | Inr (c, mesh, d) \<Rightarrow> register_device env c mesh d s))"

definition device_node :: "faults \<Rightarrow> nat \<Rightarrow> mesh_device list \<Rightarrow> string result" where
  "device_node f did ds =
     (if f ''read device'' then Inl (HTTP 404 ''no such device'')
      else case find (\<lambda>d. dv_id d = did) ds of
        None \<Rightarrow> Inl (HTTP 404 ''no such device'')
      | Some d \<Rightarrow> Inr (dv_node d))"

definition remove_mesh_device ::
  "'m mesh_env \<Rightarrow> string \<Rightarrow> nat \<Rightarrow> 'm mesh_platform \<Rightarrow> unit result \<times> 'm mesh_platform" where
  "remove_mesh_device env tok did s =
     (let f = cb_faults env;
          drop_row = (\<lambda>s1. if f ''delete device'' then (Inl (internal_error ''delete device''), s1)
            else (Inr (), s1\<lparr>cm_devices := filter (\<lambda>d. dv_id d \<noteq> did) (cm_devices s1)\<rparr>)) in
      case require_auth f (cb_now env) (cm_admin s) tok of
        Inl e \<Rightarrow> (Inl e, s)
      | Inr _ \<Rightarrow>
          (case device_node f did (cm_devices s) of
             Inl e \<Rightarrow> (Inl e, s)
           | Inr node \<Rightarrow>
               (case mesh_client f (cm_db s) of
                  Inl _ \<Rightarrow> (Inl (internal_error ''check compute mesh module''), s)
                | Inr None \<Rightarrow> drop_row s
                | Inr (Some (c, mesh)) \<Rightarrow>
                    (case remove_node (cb_server env) c node (cm_server s) of
                       (Inl _, m1) \<Rightarrow> (Inl (internal_error ''remove device from compute mesh''), s\<lparr>cm_server := m1\<rparr>)
                     | (Inr _, m1) \<Rightarrow> drop_row (s\<lparr>cm_server := m1\<rparr>)))))"

definition power_code :: "string \<Rightarrow> int option" where
  "power_code action =
     (if action = ''on'' then Some 302 else if action = ''off'' then Some 308
      else if action = ''cycle'' then Some 310 else None)"

definition mesh_device_power ::
  "'m mesh_env \<Rightarrow> string \<Rightarrow> nat \<Rightarrow> string \<Rightarrow> 'm mesh_platform \<Rightarrow> unit result \<times> 'm mesh_platform" where
  "mesh_device_power env tok did action s =
     (let f = cb_faults env in
      case require_auth f (cb_now env) (cm_admin s) tok of
        Inl e \<Rightarrow> (Inl e, s)
      | Inr _ \<Rightarrow>
          (case power_code action of
             None \<Rightarrow> (Inl (HTTP 400 ''action must be on, off, or cycle''), s)
           | Some kind \<Rightarrow>
               (case device_node f did (cm_devices s) of
                  Inl e \<Rightarrow> (Inl e, s)
                | Inr node \<Rightarrow>
                    (case mesh_client f (cm_db s) of
                       Inl _ \<Rightarrow> (Inl (internal_error ''check compute mesh module''), s)
                     | Inr None \<Rightarrow> (Inl (HTTP 400 ''the Compute Mesh module is not available''), s)
                     | Inr (Some (c, mesh)) \<Rightarrow>
                         (case power_action (cb_server env) c [node] kind (cm_server s) of
                            (Inl _, m1) \<Rightarrow> (Inl (internal_error ''power action failed''), s\<lparr>cm_server := m1\<rparr>)
                          | (Inr _, m1) \<Rightarrow> (Inr (), s\<lparr>cm_server := m1\<rparr>))))))"

section \<open>The laws of the server\<close>

text \<open>What matters of the server's state: the registered computers, every identifier ever given, the commands sent.\<close>

record mesh_node =
  nn_id :: string
  nn_mesh :: string
  nn_name :: string
  nn_host :: string

record mesh_view =
  mv_nodes :: "mesh_node list"
  mv_ever :: "string list"
  mv_cmds :: "(string \<times> int) list"

definition acknowledged :: "string + json list \<Rightarrow> bool" where
  "acknowledged rep =
     (case rep of
        Inl _ \<Rightarrow> False
      | Inr msgs \<Rightarrow> (case await_reply msgs of Inl _ \<Rightarrow> False | Inr msg \<Rightarrow> result_ok msg))"

definition with_node :: "string \<Rightarrow> string \<Rightarrow> device_form \<Rightarrow> mesh_view \<Rightarrow> mesh_view" where
  "with_node i mesh d v = v\<lparr>mv_nodes := mv_nodes v @ [\<lparr>nn_id = i, nn_mesh = mesh, nn_name = df_name d, nn_host = df_host d\<rparr>],
     mv_ever := i # mv_ever v\<rparr>"

definition without_node :: "string \<Rightarrow> mesh_view \<Rightarrow> mesh_view" where
  "without_node i v = v\<lparr>mv_nodes := filter (\<lambda>n. nn_id n \<noteq> i) (mv_nodes v)\<rparr>"

definition commanded :: "string \<Rightarrow> int \<Rightarrow> mesh_view \<Rightarrow> (string \<times> int) list" where
  "commanded i kind v = map (\<lambda>n. (nn_host n, kind)) (filter (\<lambda>n. nn_id n = i) (mv_nodes v))"

definition named_nodes :: "string \<Rightarrow> mesh_view \<Rightarrow> (string \<times> string) list" where
  "named_nodes mesh v =
     map (\<lambda>n. (nn_name n, nn_id n)) (filter (\<lambda>n. nn_mesh n = mesh \<and> nn_name n \<noteq> [] \<and> nn_id n \<noteq> []) (mv_nodes v))"

text \<open>
  An action is carried out when it is acknowledged; when the answer is lost it may have been.  New identifiers were
  never used before.  A list of nodes that arrives is complete, in any order.
\<close>

definition mesh_laws :: "'m mesh_server \<Rightarrow> ('m \<Rightarrow> mesh_view) \<Rightarrow> bool" where
  "mesh_laws sv view \<longleftrightarrow>
     (\<forall>a h mesh d m rep m'. sv a h (mesh_request (add_action mesh d)) m = (rep, m') \<longrightarrow>
        (view m' = view m \<and> \<not> acknowledged rep)
        \<or> (\<exists>i. i \<noteq> [] \<and> i \<notin> set (mv_ever (view m)) \<and> view m' = with_node i mesh d (view m))) \<and>
     (\<forall>a h mesh m rep m'. sv a h (mesh_request (nodes_action mesh)) m = (rep, m') \<longrightarrow> view m' = view m \<and>
        (\<forall>msgs msg. rep = Inr msgs \<longrightarrow> await_reply msgs = Inr msg \<longrightarrow>
          set (List.map_filter node_entry (listed_nodes mesh msg)) = set (named_nodes mesh (view m)))) \<and>
     (\<forall>a h i m rep m'. sv a h (mesh_request (remove_action i)) m = (rep, m') \<longrightarrow>
        (view m' = view m \<and> \<not> acknowledged rep) \<or> view m' = without_node i (view m)) \<and>
     (\<forall>a h i kind m rep m'. sv a h (mesh_request (power_action_msg [i] kind)) m = (rep, m') \<longrightarrow>
        (view m' = view m \<and> \<not> acknowledged rep)
        \<or> view m' = (view m)\<lparr>mv_cmds := mv_cmds (view m) @ commanded i kind (view m)\<rparr>) \<and>
     (\<forall>a h name m. view (snd (sv a h (mesh_request (create_action name)) m)) = view m)"

lemma mesh_do_answer:
  assumes "mesh_do sv c action m = (r, m')"
  obtains rep where "sv (ml_addr c) (mesh_auth c) (mesh_request action) m = (rep, m')" "r = Inr () \<longleftrightarrow> acknowledged rep"
proof -
  obtain rep m1 where a: "sv (ml_addr c) (mesh_auth c) (mesh_request action) m = (rep, m1)"
    by (cases "sv (ml_addr c) (mesh_auth c) (mesh_request action) m")
  have "m1 = m'" "r = Inr () \<longleftrightarrow> acknowledged rep"
    using assms a by (auto simp: mesh_do_def mesh_call_def acknowledged_def split: sum.splits if_splits)
  with a show thesis by (intro that) simp_all
qed

lemma add_device_law:
  assumes "mesh_laws sv view" "add_amt_device sv c mesh d m = (r, m')"
  shows "(view m' = view m \<and> r \<noteq> Inr ())
    \<or> (\<exists>i. i \<noteq> [] \<and> i \<notin> set (mv_ever (view m)) \<and> view m' = with_node i mesh d (view m))"
proof -
  obtain rep where rep: "sv (ml_addr c) (mesh_auth c) (mesh_request (add_action mesh d)) m = (rep, m')"
    "r = Inr () \<longleftrightarrow> acknowledged rep"
    using assms(2) unfolding add_amt_device_def by (rule mesh_do_answer)
  show ?thesis unfolding rep(2) using assms(1)[unfolded mesh_laws_def, THEN conjunct1] rep(1) by blast
qed

lemma nodes_law:
  assumes "mesh_laws sv view" "mesh_nodes sv c mesh m = (r, m')"
  shows "view m' = view m"
    and "r = Inr found \<Longrightarrow> found name = Some i \<Longrightarrow>
      \<exists>n \<in> set (mv_nodes (view m)). nn_mesh n = mesh \<and> nn_name n = name \<and> nn_id n = i"
proof -
  obtain rep m1 where a: "sv (ml_addr c) (mesh_auth c) (mesh_request (nodes_action mesh)) m = (rep, m1)"
    by (cases "sv (ml_addr c) (mesh_auth c) (mesh_request (nodes_action mesh)) m")
  have law: "view m1 = view m \<and> (\<forall>msgs msg. rep = Inr msgs \<longrightarrow> await_reply msgs = Inr msg \<longrightarrow>
      set (List.map_filter node_entry (listed_nodes mesh msg)) = set (named_nodes mesh (view m)))"
    using assms(1)[unfolded mesh_laws_def, THEN conjunct2, THEN conjunct1] a by blast
  have m1: "m1 = m'" using assms(2) a by (auto simp: mesh_nodes_def mesh_call_def split: sum.splits)
  show "view m' = view m" using law m1 by simp
  assume r: "r = Inr found" "found name = Some i"
  then obtain msgs msg where msg: "rep = Inr msgs" "await_reply msgs = Inr msg" "found = nodes_map (listed_nodes mesh msg)"
    using assms(2) a by (auto simp: mesh_nodes_def mesh_call_def split: sum.splits)
  have "(name, i) \<in> set (List.map_filter node_entry (listed_nodes mesh msg))"
    using r(2) map_of_SomeD unfolding msg(3) nodes_map_def by fastforce
  then have "(name, i) \<in> set (named_nodes mesh (view m))" using law msg(1,2) by blast
  then show "\<exists>n \<in> set (mv_nodes (view m)). nn_mesh n = mesh \<and> nn_name n = name \<and> nn_id n = i"
    by (auto simp: named_nodes_def)
qed

lemma remove_device_law:
  assumes "mesh_laws sv view" "remove_node sv c i m = (r, m')"
  shows "view m' = view m \<or> view m' = without_node i (view m)"
proof -
  obtain rep where "sv (ml_addr c) (mesh_auth c) (mesh_request (remove_action i)) m = (rep, m')"
    using assms(2) unfolding remove_node_def by (rule mesh_do_answer)
  then show ?thesis using assms(1)[unfolded mesh_laws_def, THEN conjunct2, THEN conjunct2, THEN conjunct1] by blast
qed

lemma power_device_law:
  assumes "mesh_laws sv view" "power_action sv c [i] kind m = (r, m')"
  shows "(view m' = view m \<and> r \<noteq> Inr ()) \<or> view m' = (view m)\<lparr>mv_cmds := mv_cmds (view m) @ commanded i kind (view m)\<rparr>"
proof -
  obtain rep where rep: "sv (ml_addr c) (mesh_auth c) (mesh_request (power_action_msg [i] kind)) m = (rep, m')"
    "r = Inr () \<longleftrightarrow> acknowledged rep"
    using assms(2) unfolding power_action_def by (rule mesh_do_answer)
  show ?thesis unfolding rep(2)
    using assms(1)[unfolded mesh_laws_def, THEN conjunct2, THEN conjunct2, THEN conjunct2, THEN conjunct1] rep(1) by blast
qed

lemma create_tries_view:
  assumes "mesh_laws sv view"
  shows "view (snd (create_tries n sv c m)) = view m"
proof (induction n arbitrary: m)
  case (Suc n)
  have law: "view (snd (sv a h (mesh_request (create_action name)) m)) = view m" for a h name m
    using assms[unfolded mesh_laws_def] by blast
  have "view (snd (create_mesh sv c ''Devices'' m)) = view m"
    using law [of "ml_addr c" "mesh_auth c" "''Devices''" m]
    by (auto simp: create_mesh_def mesh_call_def split: prod.splits sum.splits)
  then show ?case using Suc by (auto split: prod.splits sum.splits)
qed simp

section \<open>A command reaches the machine it is meant for\<close>

text \<open>
  What may happen: requests, each with its own failing statements and time, the set-up after a start, and changes of the
  modules and of the administrators by the rest of the core.  Beside the state the run remembers, for every row that was
  created, the host that was typed; the program itself keeps only the name.
\<close>

datatype mesh_op =
  Add_step faults time string device_form
| Remove_step faults time string nat
| Power_step faults time string nat string
| Boot_step faults "config option list" nat
| Modules_step core_db
| Admins_step admin_db

definition at_env :: "'m mesh_env \<Rightarrow> faults \<Rightarrow> time \<Rightarrow> 'm mesh_env" where
  "at_env env f now = env\<lparr>cb_faults := f, cb_now := now\<rparr>"

fun mesh_step :: "'m mesh_env \<Rightarrow> mesh_op \<Rightarrow> 'm mesh_platform \<times> (nat \<Rightarrow> string option)
    \<Rightarrow> 'm mesh_platform \<times> (nat \<Rightarrow> string option)" where
  "mesh_step env (Add_step f now tok form) (s, typed) =
     (case add_mesh_device (at_env env f now) tok form s of
        (Inl _, s1) \<Rightarrow> (s1, typed)
      | (Inr _, s1) \<Rightarrow> (s1, typed(cm_next s \<mapsto> trim_space (df_host form))))"
| "mesh_step env (Remove_step f now tok i) (s, typed) = (snd (remove_mesh_device (at_env env f now) tok i s), typed)"
| "mesh_step env (Power_step f now tok i action) (s, typed) = (snd (mesh_device_power (at_env env f now) tok i action s), typed)"
| "mesh_step env (Boot_step f looks tries) (s, typed) = (snd (bootstrap_mesh (at_env env f (cb_now env)) looks tries s), typed)"
| "mesh_step env (Modules_step db) (s, typed) = (s\<lparr>cm_db := db\<rparr>, typed)"
| "mesh_step env (Admins_step db) (s, typed) = (s\<lparr>cm_admin := db\<rparr>, typed)"

fun mesh_run :: "'m mesh_env \<Rightarrow> mesh_op list \<Rightarrow> 'm mesh_platform \<times> (nat \<Rightarrow> string option)
    \<Rightarrow> 'm mesh_platform \<times> (nat \<Rightarrow> string option)" where
  "mesh_run env [] st = st"
| "mesh_run env (x # xs) st = mesh_run env xs (mesh_step env x st)"

text \<open>The server knows no other computer by the name that is about to be registered.\<close>

definition name_is_new :: "('m \<Rightarrow> mesh_view) \<Rightarrow> faults \<Rightarrow> device_form \<Rightarrow> 'm mesh_platform \<Rightarrow> bool" where
  "name_is_new view f form s =
     (case mesh_client f (cm_db s) of
        Inr (Some (_, mesh)) \<Rightarrow>
          list_all (\<lambda>n. nn_mesh n \<noteq> mesh \<or> nn_name n \<noteq> trim_space (df_name form)) (mv_nodes (view (cm_server s)))
      | _ \<Rightarrow> True)"

fun names_new :: "('m \<Rightarrow> mesh_view) \<Rightarrow> 'm mesh_env \<Rightarrow> mesh_op list \<Rightarrow> 'm mesh_platform \<times> (nat \<Rightarrow> string option) \<Rightarrow> bool" where
  "names_new view env [] st = True"
| "names_new view env (x # xs) st =
     ((case x of Add_step f _ _ form \<Rightarrow> name_is_new view f form (fst st) | _ \<Rightarrow> True)
      \<and> names_new view env xs (mesh_step env x st))"

definition mesh_view_ok :: "mesh_view \<Rightarrow> bool" where
  "mesh_view_ok v \<longleftrightarrow> list_all (\<lambda>n. nn_id n \<in> set (mv_ever v)) (mv_nodes v) \<and> distinct (map nn_id (mv_nodes v))"

definition device_ok :: "mesh_view \<Rightarrow> nat \<Rightarrow> (nat \<Rightarrow> string option) \<Rightarrow> mesh_device \<Rightarrow> bool" where
  "device_ok v next_id typed d \<longleftrightarrow> dv_id d < next_id \<and> dv_node d \<in> set (mv_ever v) \<and>
     (\<exists>h. typed (dv_id d) = Some h \<and> list_all (\<lambda>n. nn_id n = dv_node d \<longrightarrow> nn_host n = h) (mv_nodes v))"

definition mesh_inv :: "('m \<Rightarrow> mesh_view) \<Rightarrow> 'm mesh_platform \<Rightarrow> (nat \<Rightarrow> string option) \<Rightarrow> bool" where
  "mesh_inv view s typed \<longleftrightarrow> mesh_view_ok (view (cm_server s)) \<and>
     list_all (device_ok (view (cm_server s)) (cm_next s) typed) (cm_devices s)"

lemma mesh_view_ok_with_node: "mesh_view_ok v \<Longrightarrow> i \<notin> set (mv_ever v) \<Longrightarrow> mesh_view_ok (with_node i mesh d v)"
  by (auto simp: mesh_view_ok_def with_node_def list_all_iff)

lemma mesh_view_ok_without_node: "mesh_view_ok v \<Longrightarrow> mesh_view_ok (without_node i v)"
  by (auto simp: mesh_view_ok_def without_node_def list_all_iff distinct_map_filter)

lemma mesh_view_ok_commands [simp]: "mesh_view_ok (v\<lparr>mv_cmds := cs\<rparr>) = mesh_view_ok v"
  by (simp add: mesh_view_ok_def)

lemma device_ok_commands [simp]: "device_ok (v\<lparr>mv_cmds := cs\<rparr>) = device_ok v"
  by (simp add: device_ok_def fun_eq_iff)

lemma device_ok_with_node: "device_ok v k typed x \<Longrightarrow> i \<notin> set (mv_ever v) \<Longrightarrow> device_ok (with_node i mesh d v) k typed x"
  by (auto simp: device_ok_def with_node_def)

lemma device_ok_without_node: "device_ok v k typed x \<Longrightarrow> device_ok (without_node i v) k typed x"
  by (auto simp: device_ok_def without_node_def list_all_iff)

lemma device_ok_next: "device_ok v k typed x \<Longrightarrow> device_ok v (Suc k) (typed(k \<mapsto> h)) x"
  by (auto simp: device_ok_def)

lemma mesh_inv_server:
  assumes "mesh_inv view s typed" and
    "view m = view (cm_server s) \<or> (\<exists>i mesh d. i \<notin> set (mv_ever (view (cm_server s))) \<and> view m = with_node i mesh d (view (cm_server s)))
      \<or> (\<exists>i. view m = without_node i (view (cm_server s))) \<or> (\<exists>cs. view m = (view (cm_server s))\<lparr>mv_cmds := cs\<rparr>)"
  shows "mesh_inv view (s\<lparr>cm_server := m\<rparr>) typed"
  using assms(2)
proof (elim disjE exE conjE)
  assume "view m = view (cm_server s)"
  with assms(1) show ?thesis by (simp add: mesh_inv_def)
next
  fix i mesh d assume "i \<notin> set (mv_ever (view (cm_server s)))" "view m = with_node i mesh d (view (cm_server s))"
  with assms(1) show ?thesis by (simp add: mesh_inv_def mesh_view_ok_with_node list_all_iff device_ok_with_node)
next
  fix i assume "view m = without_node i (view (cm_server s))"
  with assms(1) show ?thesis by (simp add: mesh_inv_def mesh_view_ok_without_node list_all_iff device_ok_without_node)
next
  fix cs assume "view m = (view (cm_server s))\<lparr>mv_cmds := cs\<rparr>"
  with assms(1) show ?thesis by (simp add: mesh_inv_def)
qed

lemma mesh_inv_rows:
  "mesh_inv view s typed \<Longrightarrow> set ds \<subseteq> set (cm_devices s) \<Longrightarrow> mesh_inv view (s\<lparr>cm_devices := ds\<rparr>) typed"
  by (auto simp: mesh_inv_def list_all_iff)

lemma mesh_inv_other [simp]:
  "mesh_inv view (s\<lparr>cm_db := db\<rparr>) typed = mesh_inv view s typed"
  "mesh_inv view (s\<lparr>cm_admin := adm\<rparr>) typed = mesh_inv view s typed"
  by (simp_all add: mesh_inv_def)

lemma register_device_inv:
  assumes "mesh_laws (cb_server env) view" "mesh_inv view s typed"
    and new: "list_all (\<lambda>n. nn_mesh n \<noteq> mesh \<or> nn_name n \<noteq> df_name d) (mv_nodes (view (cm_server s)))"
    and reg: "register_device env c mesh d s = (r, s')"
  shows "r \<noteq> Inr () \<Longrightarrow> mesh_inv view s' typed"
    and "r = Inr () \<Longrightarrow> mesh_inv view s' (typed(cm_next s \<mapsto> df_host d))"
proof -
  let ?v = "view (cm_server s)"
  obtain r1 m1 where add: "add_amt_device (cb_server env) c mesh d (cm_server s) = (r1, m1)"
    by (cases "add_amt_device (cb_server env) c mesh d (cm_server s)")
  obtain r2 m2 where nodes: "mesh_nodes (cb_server env) c mesh m1 = (r2, m2)" by (cases "mesh_nodes (cb_server env) c mesh m1")
  have l1: "(view m1 = ?v \<and> r1 \<noteq> Inr ()) \<or> (\<exists>i. i \<noteq> [] \<and> i \<notin> set (mv_ever ?v) \<and> view m1 = with_node i mesh d ?v)"
    by (rule add_device_law [OF assms(1) add])
  have l2: "view m2 = view m1" by (rule nodes_law(1) [OF assms(1) nodes])
  have inv1: "mesh_inv view (s\<lparr>cm_server := m1\<rparr>) typed" using l1 by (intro mesh_inv_server [OF assms(2)]) blast
  have inv2: "mesh_inv view (s\<lparr>cm_server := m2\<rparr>) typed" using l1 unfolding l2 [symmetric] by (intro mesh_inv_server [OF assms(2)]) blast
  show "mesh_inv view s' typed" if "r \<noteq> Inr ()"
    using reg that inv1 inv2 by (auto simp: register_device_def add nodes split: sum.splits option.splits if_splits)
  assume ok: "r = Inr ()"
  then obtain found node where f: "r1 = Inr ()" "r2 = Inr found" "found (df_name d) = Some node"
    and s': "s' = s\<lparr>cm_server := m2, cm_next := Suc (cm_next s),
       cm_devices := cm_devices s @ [\<lparr>dv_id = cm_next s, dv_name = df_name d, dv_node = node\<rparr>]\<rparr>"
    using reg by (auto simp: register_device_def add nodes split: sum.splits option.splits if_splits)
  obtain i where i: "i \<notin> set (mv_ever ?v)" "view m1 = with_node i mesh d ?v" using l1 f(1) by blast
  obtain n where n: "n \<in> set (mv_nodes (view m1))" "nn_mesh n = mesh" "nn_name n = df_name d" "nn_id n = node"
    using nodes_law(2) [OF assms(1) nodes f(2,3)] by blast
  have "n \<notin> set (mv_nodes ?v)" using new n(2,3) by (auto simp: list_all_iff)
  then have node: "node = i" using n(1,4) unfolding i(2) with_node_def by auto
  have old: "list_all (\<lambda>n. nn_id n \<noteq> i) (mv_nodes ?v)"
    using assms(2) i(1) by (auto simp: mesh_inv_def mesh_view_ok_def list_all_iff)
  have "device_ok (view m1) (Suc (cm_next s)) (typed(cm_next s \<mapsto> df_host d)) \<lparr>dv_id = cm_next s, dv_name = df_name d, dv_node = node\<rparr>"
    using old unfolding node i(2) by (auto simp: device_ok_def with_node_def list_all_iff)
  moreover have "list_all (device_ok (view m1) (Suc (cm_next s)) (typed(cm_next s \<mapsto> df_host d))) (cm_devices s)" "mesh_view_ok (view m1)"
    using inv1 by (auto simp: mesh_inv_def list_all_iff intro: device_ok_next)
  ultimately show "mesh_inv view s' (typed(cm_next s \<mapsto> df_host d))"
    unfolding s' by (simp add: mesh_inv_def l2)
qed

lemma admitted_form:
  assumes "admit_device env form s = Inr (c, mesh, d)"
  shows "mesh_client (cb_faults env) (cm_db s) = Inr (Some (c, mesh))" "df_name d = trim_space (df_name form)"
    "df_host d = trim_space (df_host form)" "list_all (\<lambda>x. dv_name x \<noteq> df_name d) (cm_devices s)"
  using assms by (auto simp: admit_device_def Let_def list_all_iff list_ex_iff split: sum.splits option.splits if_splits)

lemma add_step_inv:
  assumes "mesh_laws (cb_server env) view" "mesh_inv view s typed" "name_is_new view (cb_faults env) form s"
    and "add_mesh_device env tok form s = (r, s')"
  shows "r \<noteq> Inr () \<Longrightarrow> mesh_inv view s' typed"
    and "r = Inr () \<Longrightarrow> mesh_inv view s' (typed(cm_next s \<mapsto> trim_space (df_host form)))"
proof -
  have cases: "(r \<noteq> Inr () \<and> s' = s) \<or> (\<exists>c mesh d. admit_device env form s = Inr (c, mesh, d) \<and> register_device env c mesh d s = (r, s'))"
    using assms(4) by (auto simp: add_mesh_device_def split: sum.splits)
  have reg: "(r \<noteq> Inr () \<longrightarrow> mesh_inv view s' typed) \<and> (r = Inr () \<longrightarrow> mesh_inv view s' (typed(cm_next s \<mapsto> trim_space (df_host form))))"
    if a: "admit_device env form s = Inr (c, mesh, d)" "register_device env c mesh d s = (r, s')" for c mesh d
  proof -
    have "list_all (\<lambda>n. nn_mesh n \<noteq> mesh \<or> nn_name n \<noteq> df_name d) (mv_nodes (view (cm_server s)))"
      using assms(3) admitted_form [OF a(1)] by (simp add: name_is_new_def)
    then show ?thesis using register_device_inv [OF assms(1,2) _ a(2)] admitted_form(3) [OF a(1)] by simp
  qed
  show "mesh_inv view s' typed" if "r \<noteq> Inr ()" using cases reg that assms(2) by blast
  show "mesh_inv view s' (typed(cm_next s \<mapsto> trim_space (df_host form)))" if "r = Inr ()" using cases reg that by blast
qed

lemma remove_step_inv:
  assumes "mesh_laws (cb_server env) view" "mesh_inv view s typed"
  shows "mesh_inv view (snd (remove_mesh_device env tok i s)) typed"
proof -
  have drop: "mesh_inv view (s1\<lparr>cm_devices := filter (\<lambda>d. dv_id d \<noteq> i) (cm_devices s1)\<rparr>) typed" if "mesh_inv view s1 typed" for s1
    using that by (rule mesh_inv_rows) auto
  have server: "mesh_inv view (s\<lparr>cm_server := m1\<rparr>) typed" if "remove_node (cb_server env) c node (cm_server s) = (r, m1)" for c node r m1
    using remove_device_law [OF assms(1) that] by (intro mesh_inv_server [OF assms(2)]) blast
  have both: "mesh_inv view (s\<lparr>cm_server := m1, cm_devices := filter (\<lambda>d. dv_id d \<noteq> i) (cm_devices s)\<rparr>) typed"
    if "remove_node (cb_server env) c node (cm_server s) = (r, m1)" for c node r m1
    using drop [OF server [OF that]] by simp
  show ?thesis
    using assms(2) drop server both by (auto simp: remove_mesh_device_def Let_def split: sum.splits option.splits prod.splits)
qed

lemma power_cases:
  assumes "mesh_device_power env tok i action s = (r, s')"
  shows "(r \<noteq> Inr () \<and> s' = s) \<or> (\<exists>kind d c mesh r1 m1. power_code action = Some kind
    \<and> find (\<lambda>d. dv_id d = i) (cm_devices s) = Some d \<and> mesh_client (cb_faults env) (cm_db s) = Inr (Some (c, mesh))
    \<and> power_action (cb_server env) c [dv_node d] kind (cm_server s) = (r1, m1) \<and> s' = s\<lparr>cm_server := m1\<rparr>
    \<and> (r = Inr () \<longleftrightarrow> r1 = Inr ()))"
  using assms by (auto simp: mesh_device_power_def device_node_def Let_def split: sum.splits option.splits prod.splits if_splits)

lemma power_step_inv:
  assumes "mesh_laws (cb_server env) view" "mesh_inv view s typed"
  shows "mesh_inv view (snd (mesh_device_power env tok i action s)) typed"
proof -
  obtain r s' where p: "mesh_device_power env tok i action s = (r, s')" by (cases "mesh_device_power env tok i action s")
  show ?thesis using power_cases [OF p]
  proof (elim disjE exE conjE)
    assume "s' = s" then show ?thesis using assms(2) p by simp
  next
    fix kind d c mesh r1 m1
    assume a: "power_action (cb_server env) c [dv_node d] kind (cm_server s) = (r1, m1)" "s' = s\<lparr>cm_server := m1\<rparr>"
    have "mesh_inv view (s\<lparr>cm_server := m1\<rparr>) typed"
      using power_device_law [OF assms(1) a(1)] by (intro mesh_inv_server [OF assms(2)]) blast
    then show ?thesis using p a(2) by simp
  qed
qed

lemma boot_step_inv:
  assumes "mesh_laws (cb_server env) view" "mesh_inv view s typed"
  shows "mesh_inv view (snd (bootstrap_mesh env looks tries s)) typed"
proof -
  have server: "mesh_inv view (s\<lparr>cm_server := m1\<rparr>) typed" if "create_tries tries (cb_server env) c (cm_server s) = (mesh, m1)" for c mesh m1
    using create_tries_view [OF assms(1), of tries c "cm_server s"] that by (intro mesh_inv_server [OF assms(2)]) simp
  show ?thesis using assms(2) server by (auto simp: bootstrap_mesh_def Let_def split: list.splits prod.splits)
qed

lemma at_env_simps [simp]:
  "cb_server (at_env env f now) = cb_server env" "cb_faults (at_env env f now) = f" "cb_now (at_env env f now) = now"
  by (simp_all add: at_env_def)

lemma mesh_step_inv:
  assumes "mesh_laws (cb_server env) view" "mesh_inv view s typed"
    and "case x of Add_step f _ _ form \<Rightarrow> name_is_new view f form s | _ \<Rightarrow> True"
    and "mesh_step env x (s, typed) = (s', typed')"
  shows "mesh_inv view s' typed'"
proof (cases x)
  case (Add_step f now tok form)
  obtain r s1 where a: "add_mesh_device (at_env env f now) tok form s = (r, s1)" by (cases "add_mesh_device (at_env env f now) tok form s")
  have "name_is_new view (cb_faults (at_env env f now)) form s" "mesh_laws (cb_server (at_env env f now)) view"
    using assms(1,3) Add_step by simp_all
  note inv = add_step_inv [OF this(2) assms(2) this(1) a]
  show ?thesis using inv assms(4) unfolding Add_step by (cases r) (auto simp: a)
next
  case (Remove_step f now tok i)
  then show ?thesis using assms(4) remove_step_inv [of "at_env env f now", OF _ assms(2)] assms(1) by auto
next
  case (Power_step f now tok i action)
  then show ?thesis using assms(4) power_step_inv [of "at_env env f now", OF _ assms(2)] assms(1) by auto
next
  case (Boot_step f looks tries)
  then show ?thesis using assms(4) boot_step_inv [of "at_env env f (cb_now env)", OF _ assms(2)] assms(1) by auto
qed (use assms in auto)

lemma mesh_run_inv:
  assumes "mesh_laws (cb_server env) view"
  shows "mesh_inv view (fst st) (snd st) \<Longrightarrow> names_new view env steps st \<Longrightarrow>
    mesh_inv view (fst (mesh_run env steps st)) (snd (mesh_run env steps st))"
proof (induction steps arbitrary: st)
  case (Cons x xs)
  obtain s typed where st: "st = (s, typed)" by (cases st)
  obtain s' typed' where step: "mesh_step env x st = (s', typed')" by (cases "mesh_step env x st")
  have "case x of Add_step f _ _ form \<Rightarrow> name_is_new view f form s | _ \<Rightarrow> True" using Cons.prems(2) unfolding st by (cases x) simp_all
  then have "mesh_inv view s' typed'"
    using mesh_step_inv [OF assms, of s typed x s' typed'] Cons.prems(1) step unfolding st by simp
  then show ?case using Cons.IH [of "(s', typed')"] Cons.prems(2) by (simp add: step)
qed simp

lemma at_most_one: "distinct (map f xs) \<Longrightarrow> length (filter (\<lambda>x. f x = y) xs) \<le> 1"
proof (induction xs)
  case (Cons x xs)
  have "filter (\<lambda>z. f z = y) xs = []" if "f x = y" using Cons.prems that by (simp add: filter_empty_conv) (metis image_eqI)
  then show ?case using Cons by auto
qed simp

text \<open>C33: A power command reaches the machine it is meant for: whatever requests, restarts and failures came before, and
  provided every computer was registered under a name the server did not know yet, a power request for a computer of the
  list makes the server send at most one command, of the kind that was asked for, and only to the host that was typed
  when this entry was created; after a success exactly one command was sent, unless the server has lost the computer.\<close>

theorem power_reaches_machine:
  assumes "mesh_laws (cb_server env) view" "mesh_view_ok (view (cm_server s0))" "cm_devices s0 = []"
    and "names_new view env steps (s0, \<lambda>_. None)" "mesh_run env steps (s0, \<lambda>_. None) = (s, typed)"
    and "mesh_device_power (at_env env f now) tok i action s = (r, s')"
  shows "\<exists>cmds. mv_cmds (view (cm_server s')) = mv_cmds (view (cm_server s)) @ cmds \<and> length cmds \<le> 1
    \<and> list_all (\<lambda>(host, kind). typed i = Some host \<and> power_code action = Some kind) cmds
    \<and> (r = Inr () \<longrightarrow> cmds \<noteq> [] \<or> (\<exists>d. d \<in> set (cm_devices s) \<and> dv_id d = i \<and> dv_node d \<notin> nn_id ` set (mv_nodes (view (cm_server s)))))"
proof -
  have "mesh_inv view s0 (\<lambda>_. None)" using assms(2,3) by (simp add: mesh_inv_def)
  then have inv: "mesh_inv view s typed"
    using mesh_run_inv [OF assms(1), of "(s0, \<lambda>_. None)" steps] assms(4,5) by simp
  show ?thesis using power_cases [OF assms(6)]
  proof (elim disjE exE conjE)
    assume "r \<noteq> Inr ()" "s' = s" then show ?thesis by (intro exI [of _ "[]"]) simp
  next
    fix kind d c mesh r1 m1
    assume kind: "power_code action = Some kind" and d: "find (\<lambda>d. dv_id d = i) (cm_devices s) = Some d"
      and p: "power_action (cb_server (at_env env f now)) c [dv_node d] kind (cm_server s) = (r1, m1)"
      and s': "s' = s\<lparr>cm_server := m1\<rparr>" and r: "r = Inr () \<longleftrightarrow> r1 = Inr ()"
    let ?v = "view (cm_server s)"
    have row: "d \<in> set (cm_devices s)" "dv_id d = i" using find_Some_set [OF d] by auto
    obtain h where h: "typed i = Some h" "list_all (\<lambda>n. nn_id n = dv_node d \<longrightarrow> nn_host n = h) (mv_nodes ?v)" and ok: "mesh_view_ok ?v"
      using inv row by (auto simp: mesh_inv_def device_ok_def list_all_iff)
    have law: "(view m1 = ?v \<and> r1 \<noteq> Inr ()) \<or> view m1 = ?v\<lparr>mv_cmds := mv_cmds ?v @ commanded (dv_node d) kind ?v\<rparr>"
      using power_device_law [OF assms(1)] p by simp
    have one: "length (commanded (dv_node d) kind ?v) \<le> 1" using ok at_most_one [of nn_id "mv_nodes ?v"] by (simp add: commanded_def mesh_view_ok_def)
    have all: "list_all (\<lambda>(host, k). typed i = Some host \<and> power_code action = Some k) (commanded (dv_node d) kind ?v)"
      using h kind by (auto simp: commanded_def list_all_iff)
    have lost: "commanded (dv_node d) kind ?v = [] \<Longrightarrow> dv_node d \<notin> nn_id ` set (mv_nodes ?v)"
      by (auto simp: commanded_def filter_empty_conv)
    show ?thesis
    proof (cases "view m1 = ?v \<and> r1 \<noteq> Inr ()")
      case True
      then show ?thesis using r s' by (intro exI [of _ "[]"]) simp
    next
      case False
      then have "view m1 = ?v\<lparr>mv_cmds := mv_cmds ?v @ commanded (dv_node d) kind ?v\<rparr>" using law by blast
      then show ?thesis using one all lost row s' by (intro exI [of _ "commanded (dv_node d) kind ?v"]) auto
    qed
  qed
qed

section \<open>A small server\<close>

text \<open>It lists the computers newest first.  The second message of every answer is the one waited for.\<close>

definition new_node_id :: "mesh_view \<Rightarrow> string" where
  "new_node_id v = CHR ''n'' # concat (mv_ever v)"

definition node_json :: "mesh_node \<Rightarrow> json" where
  "node_json n = J_obj [(''name'', J_str (nn_name n)), (''_id'', J_str (nn_id n))]"

definition small_answer :: "(string \<times> json) list \<Rightarrow> string + json list" where
  "small_answer fs = Inr [J_obj [(''action'', J_str ''event'')], J_obj ((''responseid'', J_str ''req'') # (''result'', J_str ''ok'') # fs)]"

definition first_text :: "json option \<Rightarrow> string" where
  "first_text v = (case v of Some (J_list (J_str x # _)) \<Rightarrow> x | _ \<Rightarrow> [])"

definition number_of :: "json option \<Rightarrow> int" where
  "number_of v = (case v of Some (J_num n) \<Rightarrow> n | _ \<Rightarrow> 0)"

definition small_mesh :: "mesh_view mesh_server" where
  "small_mesh a h act v =
     (case act of
        J_obj fs \<Rightarrow>
          (let what = text_of (map_of fs ''action''); mesh = text_of (map_of fs ''meshid''); i = first_text (map_of fs ''nodeids'') in
           if what = ''addamtdevice'' then
             (small_answer [], with_node (new_node_id v) mesh \<lparr>df_name = text_of (map_of fs ''devicename''),
                df_host = text_of (map_of fs ''hostname''), df_user = [], df_password = []\<rparr> v)
           else if what = ''nodes'' then
             (small_answer [(''nodes'', J_obj [(mesh, J_list (map node_json (rev (filter (\<lambda>n. nn_mesh n = mesh) (mv_nodes v)))))])], v)
           else if what = ''removedevices'' then (small_answer [], without_node i v)
           else if what = ''poweraction'' then
             (small_answer [], v\<lparr>mv_cmds := mv_cmds v @ commanded i (number_of (map_of fs ''actiontype'')) v\<rparr>)
           else if what = ''createmesh'' then (small_answer [(''meshid'', J_str ''m'')], v)
           else (Inl ''closed'', v))
      | _ \<Rightarrow> (Inl ''closed'', v))"

lemma new_node_id_new: "new_node_id v \<notin> set (mv_ever v)"
proof
  assume "new_node_id v \<in> set (mv_ever v)"
  then obtain xs ys where "mv_ever v = xs @ new_node_id v # ys" by (auto dest: split_list)
  then have "length (concat (mv_ever v)) \<ge> length (new_node_id v)" by (metis concat.simps(2) concat_append le_add1 le_add2 length_append le_trans)
  then show False by (simp add: new_node_id_def)
qed

lemma await_small: "small_answer fs = Inr msgs \<Longrightarrow> await_reply msgs = Inr ((''responseid'', J_str ''req'') # (''result'', J_str ''ok'') # fs)"
  by (auto simp: small_answer_def)

lemma ack_small: "acknowledged (small_answer fs)"
  by (simp add: acknowledged_def small_answer_def result_ok_def text_of_def)

lemma entry_of_json: "node_entry (node_json n) = (if nn_name n \<noteq> [] \<and> nn_id n \<noteq> [] then Some (nn_name n, nn_id n) else None)"
  by (simp add: node_entry_def node_json_def text_of_def)

lemma small_listing:
  "List.map_filter node_entry (map node_json ns)
     = map (\<lambda>n. (nn_name n, nn_id n)) (filter (\<lambda>n. nn_name n \<noteq> [] \<and> nn_id n \<noteq> []) ns)"
  by (induction ns) (simp_all add: entry_of_json)

lemma small_mesh_simps:
  "small_mesh a h (mesh_request (add_action mesh d)) v = (small_answer [], with_node (new_node_id v) mesh d v)"
  "small_mesh a h (mesh_request (nodes_action mesh)) v =
     (small_answer [(''nodes'', J_obj [(mesh, J_list (map node_json (rev (filter (\<lambda>n. nn_mesh n = mesh) (mv_nodes v)))))])], v)"
  "small_mesh a h (mesh_request (remove_action i)) v = (small_answer [], without_node i v)"
  "small_mesh a h (mesh_request (power_action_msg [i] kind)) v = (small_answer [], v\<lparr>mv_cmds := mv_cmds v @ commanded i kind v\<rparr>)"
  "small_mesh a h (mesh_request (create_action name)) v = (small_answer [(''meshid'', J_str ''m'')], v)"
  by (simp_all add: small_mesh_def mesh_request_def add_action_def nodes_action_def remove_action_def power_action_msg_def
      create_action_def text_of_def first_text_def number_of_def with_node_def)

lemma small_mesh_laws: "mesh_laws small_mesh (\<lambda>v. v)"
  unfolding mesh_laws_def small_mesh_simps
proof (intro conjI allI impI)
  fix mesh rep and m m' :: mesh_view and d :: device_form
  assume "(small_answer [], with_node (new_node_id m) mesh d m) = (rep, m')"
  then show "m' = m \<and> \<not> acknowledged rep \<or> (\<exists>i. i \<noteq> [] \<and> i \<notin> set (mv_ever m) \<and> m' = with_node i mesh d m)"
    using new_node_id_new [of m] by (intro disjI2 exI [of _ "new_node_id m"]) (simp add: new_node_id_def)
next
  fix mesh rep msgs msg and m m' :: mesh_view
  assume a: "(small_answer [(''nodes'', J_obj [(mesh, J_list (map node_json (rev (filter (\<lambda>n. nn_mesh n = mesh) (mv_nodes m)))))])], m) = (rep, m')"
  assume "rep = Inr msgs" "await_reply msgs = Inr msg"
  then have "listed_nodes mesh msg = map node_json (rev (filter (\<lambda>n. nn_mesh n = mesh) (mv_nodes m)))"
    using a await_small by (auto simp: listed_nodes_def)
  then show "set (List.map_filter node_entry (listed_nodes mesh msg)) = set (named_nodes mesh m)"
    by (simp only: small_listing) (auto simp: named_nodes_def)
qed auto

section \<open>A small run\<close>

definition small_mesh_admin :: admin_db where
  "small_mesh_admin = (pf_admin example_platform)\<lparr>admin_sessions := [\<lparr>as_token = ''t'', as_user = 1, as_expires = 100\<rparr>]\<rparr>"

definition small_mesh_db :: core_db where
  "small_mesh_db = \<lparr>cd_mods = [\<lparr>in_id = ''compute-mesh'', in_status = ''running'', in_config = [(''api_password'', ''p'')],
     in_error = None, in_vis = ''private''\<rparr>], cd_archive = [], cd_ports = [], cd_settings = None\<rparr>"

definition small_mesh_env :: "mesh_view mesh_env" where
  "small_mesh_env = \<lparr>cb_faults = no_faults, cb_now = 5, cb_server = small_mesh, cb_before = (\<lambda>_ _. False)\<rparr>"

definition small_mesh_state :: "mesh_view mesh_platform" where
  "small_mesh_state = \<lparr>cm_admin = small_mesh_admin, cm_db = small_mesh_db, cm_devices = [], cm_next = 1,
     cm_server = \<lparr>mv_nodes = [], mv_ever = [], mv_cmds = []\<rparr>\<rparr>"

definition small_device :: "string \<Rightarrow> string \<Rightarrow> device_form" where
  "small_device name host = \<lparr>df_name = name, df_host = host, df_user = ''a'', df_password = ''b''\<rparr>"

definition booted :: "mesh_view mesh_platform" where
  "booted = small_mesh_state\<lparr>cm_db := update_mod ''compute-mesh''
     (\<lambda>r. r\<lparr>in_config := merge_config (in_config r) [(''mesh_id'', ''m'')]\<rparr>) small_mesh_db\<rparr>"

lemma small_mesh_auth: "\<not> f ''select'' \<Longrightarrow> require_auth f 5 small_mesh_admin ''t'' = Inr ''a@x''"
  by (simp add: require_auth_def small_mesh_admin_def example_platform_def admin_validate_def admin_row_def email_of_def)

lemma booted_client: "\<not> f ''query installed_modules'' \<Longrightarrow> mesh_client f (cm_db booted) =
    Inr (Some (mesh_login_of [(''api_password'', ''p''), (''mesh_id'', ''m'')], ''m''))"
  by (simp add: mesh_client_def running_config_def get_installed_def status_of_row_def find_mod_def booted_def
      small_mesh_state_def small_mesh_db_def update_mod_def merge_config_def config_value_def Let_def)

lemma small_boot: "bootstrap_mesh small_mesh_env [None, Some [(''api_password'', ''p'')]] 3 small_mesh_state = (Inr (), booted)"
  by (simp add: bootstrap_mesh_def numeral_3_eq_3 create_mesh_def mesh_call_def small_mesh_env_def small_mesh_simps small_answer_def
      result_ok_def text_of_def small_mesh_state_def booted_def map_filter_def)

lemma small_texts:
  "trim_space ''pc'' = ''pc''" "trim_space ''10.0.0.5'' = ''10.0.0.5''" "trim_space ''10.0.0.6'' = ''10.0.0.6''"
  "valid_device_host ''10.0.0.5''" "valid_device_host ''10.0.0.6''"
  by (subst trim_space_ascii; simp add: ascii_def space_rune_def byte_def)+
    (simp_all add: valid_device_host_def device_host_name_def host_alnum_def in_range_def byte_def)


lemma small_pg_texts: "pg_text ''pc''" "pg_text ''n''"
  by (simp_all add: pg_text_def valid_utf8_def byte_def)

definition save_fails :: faults where
  "save_fails l \<longleftrightarrow> l = ''save device''"

definition pc_at_5 :: mesh_node where
  "pc_at_5 = \<lparr>nn_id = ''n'', nn_mesh = ''m'', nn_name = ''pc'', nn_host = ''10.0.0.5''\<rparr>"

definition registered :: "mesh_view mesh_platform" where
  "registered = booted\<lparr>cm_server := \<lparr>mv_nodes = [pc_at_5], mv_ever = [''n''], mv_cmds = []\<rparr>, cm_next := 2,
     cm_devices := [\<lparr>dv_id = 1, dv_name = ''pc'', dv_node = ''n''\<rparr>]\<rparr>"

lemmas small_run_defs = small_pg_texts add_mesh_device_def admit_device_def small_mesh_auth booted_client small_device_def small_texts Let_def
  register_device_def add_amt_device_def mesh_do_def mesh_call_def mesh_nodes_def small_mesh_simps small_answer_def result_ok_def
  text_of_def with_node_def new_node_id_def listed_nodes_def nodes_map_def small_listing at_env_def small_mesh_env_def

lemma small_add: "add_mesh_device (at_env small_mesh_env no_faults 5) ''t'' (small_device ''pc'' ''10.0.0.5'') booted = (Inr (), registered)"
proof -
  have "cm_admin booted = small_mesh_admin" "cm_devices booted = []" "cm_server booted = \<lparr>mv_nodes = [], mv_ever = [], mv_cmds = []\<rparr>" "cm_next booted = 1"
    by (simp_all add: booted_def small_mesh_state_def)
  then show ?thesis by (simp add: small_run_defs registered_def pc_at_5_def)
qed

definition small_boot_step :: mesh_op where
  "small_boot_step = Boot_step no_faults [None, Some [(''api_password'', ''p'')]] 3"

lemma server_set: "cm_server (s\<lparr>cm_server := v\<rparr>) = v"
  by simp

lemma small_boot_run [simp]: "mesh_step small_mesh_env small_boot_step (small_mesh_state, typed) = (booted, typed)"
proof -
  have "at_env small_mesh_env no_faults (cb_now small_mesh_env) = small_mesh_env" by (simp add: at_env_def small_mesh_env_def)
  then show ?thesis using small_boot by (simp add: small_boot_step_def)
qed

definition small_mesh_steps :: "mesh_op list" where
  "small_mesh_steps = [small_boot_step, Add_step no_faults 5 ''t'' (small_device ''pc'' ''10.0.0.5'')]"

lemma cm_next_booted [simp]: "cm_next booted = 1"
  by (simp add: booted_def small_mesh_state_def)

lemma small_mesh_run: "mesh_run small_mesh_env small_mesh_steps (small_mesh_state, \<lambda>_. None) = (registered, [1 \<mapsto> ''10.0.0.5''])"
  by (simp add: small_mesh_steps_def small_add) (simp add: small_device_def small_texts)

lemma small_power: "mesh_device_power (at_env small_mesh_env no_faults 5) ''t'' 1 ''cycle'' registered =
    (Inr (), registered\<lparr>cm_server := (cm_server registered)\<lparr>mv_cmds := [(''10.0.0.5'', 310)]\<rparr>\<rparr>)"
proof -
  have "cm_admin registered = small_mesh_admin" "cm_db registered = cm_db booted"
    "cm_devices registered = [\<lparr>dv_id = 1, dv_name = ''pc'', dv_node = ''n''\<rparr>]"
    "cm_server registered = \<lparr>mv_nodes = [pc_at_5], mv_ever = [''n''], mv_cmds = []\<rparr>"
    by (simp_all add: registered_def booted_def small_mesh_state_def)
  then show ?thesis
    by (simp add: small_run_defs mesh_device_power_def power_code_def device_node_def power_action_def commanded_def pc_at_5_def)
qed

theorem power_reaches_machine_witness:
  "\<exists>s'. mesh_device_power (at_env small_mesh_env no_faults 5) ''t'' 1 ''cycle'' registered = (Inr (), s') \<and>
    mv_cmds (cm_server s') = [(''10.0.0.5'', 310)] \<and> length (mv_cmds (cm_server s')) \<le> 1"
proof -
  have laws: "mesh_laws (cb_server small_mesh_env) (\<lambda>v. v)" using small_mesh_laws by (simp add: small_mesh_env_def)
  have start: "mesh_view_ok (cm_server small_mesh_state)" "cm_devices small_mesh_state = []"
    by (simp_all add: small_mesh_state_def mesh_view_ok_def)
  have boot: "mv_nodes (cm_server booted) = []" by (simp add: booted_def small_mesh_state_def)
  have new: "names_new (\<lambda>v. v) small_mesh_env small_mesh_steps (small_mesh_state, \<lambda>_. None)"
    by (simp add: small_mesh_steps_def name_is_new_def booted_client boot) (simp add: small_boot_step_def)
  obtain cmds where "mv_cmds (cm_server (registered\<lparr>cm_server := (cm_server registered)\<lparr>mv_cmds := [(''10.0.0.5'', 310)]\<rparr>\<rparr>))
      = mv_cmds (cm_server registered) @ cmds" "length cmds \<le> 1"
    using power_reaches_machine [OF laws start new small_mesh_run small_power] by blast
  moreover have "mv_cmds (cm_server registered) = []" by (simp add: registered_def)
  moreover have "mv_cmds (cm_server (registered\<lparr>cm_server := (cm_server registered)\<lparr>mv_cmds := cs\<rparr>\<rparr>)) = cs" for cs
    by (subst server_set) simp
  ultimately show ?thesis using small_power by simp
qed

section \<open>When a registration is lost\<close>

text \<open>
  The row is written after the server was told; when that fails, or the row is removed while the module does not answer,
  the computer stays on the server.  A later one of the same name may then be given the identifier of the first.
\<close>

definition orphaned :: "mesh_view mesh_platform" where
  "orphaned = booted\<lparr>cm_server := \<lparr>mv_nodes = [pc_at_5], mv_ever = [''n''], mv_cmds = []\<rparr>\<rparr>"

definition readded :: "mesh_view mesh_platform" where
  "readded = orphaned\<lparr>cm_server := \<lparr>mv_nodes = [pc_at_5, \<lparr>nn_id = ''nn'', nn_mesh = ''m'', nn_name = ''pc'', nn_host = ''10.0.0.6''\<rparr>],
     mv_ever = [''nn'', ''n''], mv_cmds = []\<rparr>, cm_next := 2, cm_devices := [\<lparr>dv_id = 1, dv_name = ''pc'', dv_node = ''n''\<rparr>]\<rparr>"

lemma small_add_lost: "add_mesh_device (at_env small_mesh_env save_fails 5) ''t'' (small_device ''pc'' ''10.0.0.5'') booted =
    (Inl (internal_error ''save device''), orphaned)"
proof -
  have "cm_admin booted = small_mesh_admin" "cm_devices booted = []" "cm_server booted = \<lparr>mv_nodes = [], mv_ever = [], mv_cmds = []\<rparr>"
    by (simp_all add: booted_def small_mesh_state_def)
  then show ?thesis by (simp add: small_run_defs orphaned_def pc_at_5_def save_fails_def)
qed

lemma small_add_again:
  obtains s where "add_mesh_device (at_env small_mesh_env no_faults 5) ''t'' (small_device ''pc'' ''10.0.0.6'') orphaned = (Inr (), s)"
    "cm_devices s = [\<lparr>dv_id = 1, dv_name = ''pc'', dv_node = ''n''\<rparr>]" "cm_admin s = small_mesh_admin" "cm_db s = cm_db booted"
    "cm_server s = \<lparr>mv_nodes = [pc_at_5, \<lparr>nn_id = ''nn'', nn_mesh = ''m'', nn_name = ''pc'', nn_host = ''10.0.0.6''\<rparr>],
      mv_ever = [''nn'', ''n''], mv_cmds = []\<rparr>"
proof -
  have "cm_admin orphaned = small_mesh_admin" "cm_devices orphaned = []" "cm_db orphaned = cm_db booted" "cm_next orphaned = 1"
    "cm_server orphaned = \<lparr>mv_nodes = [pc_at_5], mv_ever = [''n''], mv_cmds = []\<rparr>"
    by (simp_all add: orphaned_def booted_def small_mesh_state_def)
  then have "add_mesh_device (at_env small_mesh_env no_faults 5) ''t'' (small_device ''pc'' ''10.0.0.6'') orphaned = (Inr (), readded)"
    by (simp add: small_run_defs pc_at_5_def readded_def)
  then show thesis by (rule that) (simp_all add: readded_def orphaned_def booted_def small_mesh_state_def)
qed

lemma lost_registration_misdirects:
  "\<exists>s typed s'. mesh_run small_mesh_env [small_boot_step, Add_step save_fails 5 ''t'' (small_device ''pc'' ''10.0.0.5''),
       Add_step no_faults 5 ''t'' (small_device ''pc'' ''10.0.0.6'')] (small_mesh_state, \<lambda>_. None) = (s, typed)
     \<and> typed 1 = Some ''10.0.0.6'' \<and> mesh_device_power (at_env small_mesh_env no_faults 5) ''t'' 1 ''off'' s = (Inr (), s')
     \<and> mv_cmds (cm_server s') = [(''10.0.0.5'', 308)]"
proof -
  obtain s where s: "add_mesh_device (at_env small_mesh_env no_faults 5) ''t'' (small_device ''pc'' ''10.0.0.6'') orphaned = (Inr (), s)"
    "cm_devices s = [\<lparr>dv_id = 1, dv_name = ''pc'', dv_node = ''n''\<rparr>]" "cm_admin s = small_mesh_admin" "cm_db s = cm_db booted"
    "cm_server s = \<lparr>mv_nodes = [pc_at_5, \<lparr>nn_id = ''nn'', nn_mesh = ''m'', nn_name = ''pc'', nn_host = ''10.0.0.6''\<rparr>],
      mv_ever = [''nn'', ''n''], mv_cmds = []\<rparr>"
    by (rule small_add_again)
  have "cm_next orphaned = 1" by (simp add: orphaned_def)
  then have run: "mesh_run small_mesh_env [small_boot_step, Add_step save_fails 5 ''t'' (small_device ''pc'' ''10.0.0.5''),
       Add_step no_faults 5 ''t'' (small_device ''pc'' ''10.0.0.6'')] (small_mesh_state, \<lambda>_. None) = (s, [1 \<mapsto> ''10.0.0.6''])"
    by (simp add: small_add_lost s(1)) (simp add: small_device_def small_texts)
  have "mesh_device_power (at_env small_mesh_env no_faults 5) ''t'' 1 ''off'' s =
      (Inr (), s\<lparr>cm_server := (cm_server s)\<lparr>mv_cmds := [(''10.0.0.5'', 308)]\<rparr>\<rparr>)"
    using s(2-5) by (simp add: small_run_defs mesh_device_power_def power_code_def device_node_def power_action_def
        commanded_def pc_at_5_def)
  moreover have "mv_cmds (cm_server (s\<lparr>cm_server := (cm_server s)\<lparr>mv_cmds := cs\<rparr>\<rparr>)) = cs" for cs
    by (subst server_set) simp
  ultimately show ?thesis using run
    by (intro exI [of _ s] exI [of _ "[1 \<mapsto> ''10.0.0.6'']"] exI [of _ "s\<lparr>cm_server := (cm_server s)\<lparr>mv_cmds := [(''10.0.0.5'', 308)]\<rparr>\<rparr>"] conjI)
      (simp_all only: fun_upd_same)
qed

text \<open>The check of the name and the registration are two steps: two requests that pass the check together both register.\<close>

lemma simultaneous_adds_share_name:
  assumes "admit_device env form1 s = Inr (c1, mesh1, d1)" "admit_device env form2 s = Inr (c2, mesh2, d2)" "df_name form1 = df_name form2"
    and "register_device env c1 mesh1 d1 s = (Inr (), s1)" "register_device env c2 mesh2 d2 s1 = (Inr (), s2)"
  shows "\<exists>a b xs. cm_devices s2 = xs @ [a, b] \<and> dv_name a = dv_name b"
proof -
  have row: "\<exists>a. cm_devices u' = cm_devices u @ [a] \<and> dv_name a = df_name d"
    if "register_device env c mesh d u = (Inr (), u')" for c mesh d u u'
    using that by (auto simp: register_device_def split: prod.splits sum.splits option.splits if_splits)
  obtain a b where "cm_devices s1 = cm_devices s @ [a]" "cm_devices s2 = cm_devices s1 @ [b]" "dv_name a = df_name d1" "dv_name b = df_name d2"
    using row [OF assms(4)] row [OF assms(5)] by blast
  then show ?thesis using admitted_form(2) [OF assms(1)] admitted_form(2) [OF assms(2)] assms(3) by simp
qed

text \<open>A name of blanks passes the check for an empty one and is trimmed afterwards: the computer is registered on the server
  and then not found by its empty name.\<close>

lemma no_empty_name: "nodes_map xs [] = None"
proof -
  have "([], i) \<notin> set (List.map_filter node_entry xs)" for i
    by (induction xs) (auto simp: node_entry_def Let_def map_filter_def split: json.splits if_splits)
  then show ?thesis unfolding nodes_map_def by (metis map_of_SomeD not_None_eq set_rev)
qed

lemma blank_name_never_saved:
  assumes "register_device env c mesh d s = (r, s')" "df_name d = []"
  shows "r \<noteq> Inr () \<and> cm_devices s' = cm_devices s"
  using assms by (auto simp: register_device_def mesh_nodes_def no_empty_name split: prod.splits sum.splits option.splits if_splits)

end
