(* ===== verification/EmptyLists.thy ===== *)
theory EmptyLists
  imports NetBird Installer
begin

text \<open>
  The transformer of every answer of the core (\<open>backend/internal/api/emptylists.go\<close>): a nil slice, which Go encodes as
  \<open>null\<close>, becomes an empty list.  It walks a value by reflection, so the model has Go's types and values as data: a value
  carries the types reflection reads from it, and \<open>typed\<close> says that they fit.  Named types are looked up in an
  environment, since a type may refer to itself; embedded fields are not represented.

  The reference is the encoding itself: \<open>json_of True\<close> is the encoding that writes a nil slice as an empty list.
\<close>

section \<open>Types and values\<close>

datatype go_type =
  T_basic | T_bytes | T_slice go_type | T_array go_type | T_ptr go_type | T_map go_type | T_iface
| T_struct "(bool \<times> go_type) list" | T_named string

type_synonym type_env = "string \<Rightarrow> go_type"

definition underlying :: "type_env \<Rightarrow> go_type \<Rightarrow> go_type" where
  "underlying te t = (case t of T_named n \<Rightarrow> te n | _ \<Rightarrow> t)"

text \<open>A field: whether it is exported, its name in JSON (none for the tag \<open>-\<close>), and whether empty values are omitted.\<close>

record go_field =
  gf_exported :: bool
  gf_key :: "string option"
  gf_omit :: bool

text \<open>\<open>V_nil\<close> is a nil pointer, map or interface; an interface that is not nil knows the type of what it holds.\<close>

datatype go_val =
  V_basic json
| V_bytes "string option"
| V_nil
| V_nil_slice go_type
| V_slice go_type "go_val list"
| V_array "go_val list"
| V_ptr go_val
| V_iface go_type go_val
| V_map go_type "(string \<times> go_val) list"
| V_struct "(go_field \<times> go_type \<times> go_val) list"

lemma size_elem: "x \<in> set xs \<Longrightarrow> size x < Suc (size_list size xs)"
  by (induction xs) auto

lemma size_entry: "(k, x) \<in> set m \<Longrightarrow> size x < Suc (size_list (size_prod (\<lambda>_. 0) size) m)"
  by (induction m) auto

lemma size_field: "(f, t, x) \<in> set fs \<Longrightarrow> size x < Suc (size_list (size_prod (\<lambda>_. 0) (size_prod (\<lambda>_. 0) size)) fs)"
  by (induction fs) auto

section \<open>The transformer\<close>

fun any_opt :: "('a \<Rightarrow> bool option) \<Rightarrow> 'a list \<Rightarrow> bool option" where
  "any_opt p [] = Some False"
| "any_opt p (x # xs) = (case p x of None \<Rightarrow> None | Some True \<Rightarrow> Some True | Some False \<Rightarrow> any_opt p xs)"

text \<open>The fuel is the depth of the recursion over types; without it a type that refers to itself is walked for ever.\<close>

fun needs_fix :: "nat \<Rightarrow> type_env \<Rightarrow> go_type \<Rightarrow> bool option" where
  "needs_fix 0 te t = None"
| "needs_fix (Suc n) te t =
     (case underlying te t of
        T_bytes \<Rightarrow> Some True
      | T_slice _ \<Rightarrow> Some True
      | T_ptr u \<Rightarrow> needs_fix n te u
      | T_map u \<Rightarrow> needs_fix n te u
      | T_iface \<Rightarrow> Some True
      | T_struct fs \<Rightarrow> any_opt (needs_fix n te) (map snd (filter fst fs))
      | _ \<Rightarrow> Some False)"

function fix_nil :: "nat \<Rightarrow> type_env \<Rightarrow> go_val \<Rightarrow> go_val option" where
  "fix_nil n te (V_basic j) = Some (V_basic j)"
| "fix_nil n te (V_bytes b) = Some (V_bytes b)"
| "fix_nil n te V_nil = Some V_nil"
| "fix_nil n te (V_nil_slice t) = Some (V_slice t [])"
| "fix_nil n te (V_slice t xs) =
     (case needs_fix n te t of
        None \<Rightarrow> None
      | Some False \<Rightarrow> Some (V_slice t xs)
      | Some True \<Rightarrow> map_option (V_slice t) (all_some (map (\<lambda>x. fix_nil n te x) xs)))"
| "fix_nil n te (V_array xs) = Some (V_array xs)"
| "fix_nil n te (V_ptr x) = map_option V_ptr (fix_nil n te x)"
| "fix_nil n te (V_iface t x) = map_option (V_iface t) (fix_nil n te x)"
| "fix_nil n te (V_map t m) =
     (case needs_fix n te t of
        None \<Rightarrow> None
      | Some False \<Rightarrow> Some (V_map t m)
      | Some True \<Rightarrow> map_option (V_map t) (all_some (map (\<lambda>(k, x). map_option (\<lambda>y. (k, y)) (fix_nil n te x)) m)))"
| "fix_nil n te (V_struct fs) =
     map_option V_struct (all_some (map (\<lambda>(f, t, x).
       if \<not> gf_exported f then Some (f, t, x)
       else case needs_fix n te t of
         None \<Rightarrow> None
       | Some False \<Rightarrow> Some (f, t, x)
       | Some True \<Rightarrow> map_option (\<lambda>y. (f, t, y)) (fix_nil n te x)) fs))"
  by pat_completeness auto

termination
  by (relation "measure (\<lambda>(_, _, v). size v)") (auto simp: size_elem size_entry size_field)

text \<open>\<open>emptyLists\<close> gets an interface value: nothing, or a value.\<close>

definition empty_lists :: "nat \<Rightarrow> type_env \<Rightarrow> go_val option \<Rightarrow> go_val option option" where
  "empty_lists n te v = (case v of None \<Rightarrow> Some None | Some x \<Rightarrow> map_option Some (fix_nil n te x))"

section \<open>The encoding\<close>

fun omitted :: "go_val \<Rightarrow> bool" where
  "omitted (V_basic j) \<longleftrightarrow> j = J_bool False \<or> j = J_num 0 \<or> j = J_str []"
| "omitted (V_bytes b) \<longleftrightarrow> b = None \<or> b = Some []"
| "omitted V_nil \<longleftrightarrow> True"
| "omitted (V_nil_slice _) \<longleftrightarrow> True"
| "omitted (V_slice _ xs) \<longleftrightarrow> xs = []"
| "omitted (V_array xs) \<longleftrightarrow> xs = []"
| "omitted (V_map _ m) \<longleftrightarrow> m = []"
| "omitted _ \<longleftrightarrow> False"

function json_of :: "bool \<Rightarrow> go_val \<Rightarrow> json" where
  "json_of e (V_basic j) = j"
| "json_of e (V_bytes b) = (case b of None \<Rightarrow> J_null | Some s \<Rightarrow> J_str (base64 s))"
| "json_of e V_nil = J_null"
| "json_of e (V_nil_slice _) = (if e then J_list [] else J_null)"
| "json_of e (V_slice _ xs) = J_list (map (\<lambda>x. json_of e x) xs)"
| "json_of e (V_array xs) = J_list (map (\<lambda>x. json_of e x) xs)"
| "json_of e (V_ptr x) = json_of e x"
| "json_of e (V_iface _ x) = json_of e x"
| "json_of e (V_map _ m) = J_obj (map (\<lambda>(k, x). (k, json_of e x)) m)"
| "json_of e (V_struct fs) = J_obj (concat (map (\<lambda>(f, _, x).
     (case gf_key f of
        None \<Rightarrow> []
      | Some k \<Rightarrow> if \<not> gf_exported f \<or> (gf_omit f \<and> omitted x) then [] else [(k, json_of e x)])) fs))"
  by pat_completeness auto

termination
  by (relation "measure (\<lambda>(_, v). size v)") (auto simp: size_elem size_entry size_field)

section \<open>Well-typed values\<close>

function typed :: "type_env \<Rightarrow> go_val \<Rightarrow> go_type \<Rightarrow> bool" where
  "typed te (V_basic j) t \<longleftrightarrow> underlying te t = T_basic"
| "typed te (V_bytes b) t \<longleftrightarrow> underlying te t = T_bytes"
| "typed te V_nil t \<longleftrightarrow> (case underlying te t of T_ptr _ \<Rightarrow> True | T_map _ \<Rightarrow> True | T_iface \<Rightarrow> True | _ \<Rightarrow> False)"
| "typed te (V_nil_slice u) t \<longleftrightarrow> underlying te t = T_slice u"
| "typed te (V_slice u xs) t \<longleftrightarrow> underlying te t = T_slice u \<and> list_all (\<lambda>x. typed te x u) xs"
| "typed te (V_array xs) t \<longleftrightarrow> (case underlying te t of T_array u \<Rightarrow> list_all (\<lambda>x. typed te x u) xs | _ \<Rightarrow> False)"
| "typed te (V_ptr x) t \<longleftrightarrow> (case underlying te t of T_ptr u \<Rightarrow> typed te x u | _ \<Rightarrow> False)"
| "typed te (V_iface u x) t \<longleftrightarrow> underlying te t = T_iface \<and> typed te x u"
| "typed te (V_map u m) t \<longleftrightarrow> underlying te t = T_map u \<and> list_all (\<lambda>(k, x). typed te x u) m"
| "typed te (V_struct fs) t \<longleftrightarrow> underlying te t = T_struct (map (\<lambda>(f, u, _). (gf_exported f, u)) fs) \<and>
     list_all (\<lambda>(f, u, x). typed te x u) fs"
  by pat_completeness auto

termination
  by (relation "measure (\<lambda>(_, v, _). size v)") (auto simp: size_elem size_entry size_field)

section \<open>No list is ever null\<close>

text \<open>A type on which the walk ends with the given depth.\<close>

fun finite_type :: "nat \<Rightarrow> type_env \<Rightarrow> go_type \<Rightarrow> bool" where
  "finite_type 0 te t \<longleftrightarrow> False"
| "finite_type (Suc n) te t \<longleftrightarrow>
     (case underlying te t of
        T_ptr u \<Rightarrow> finite_type n te u
      | T_map u \<Rightarrow> finite_type n te u
      | T_struct fs \<Rightarrow> list_all (finite_type n te) (map snd (filter fst fs))
      | _ \<Rightarrow> True)"

text \<open>Without Go's fixed-size arrays, which the transformer does not enter, and with finite types.\<close>

function plain_value :: "nat \<Rightarrow> type_env \<Rightarrow> go_val \<Rightarrow> bool" where
  "plain_value n te (V_basic j) \<longleftrightarrow> True"
| "plain_value n te (V_bytes b) \<longleftrightarrow> True"
| "plain_value n te V_nil \<longleftrightarrow> True"
| "plain_value n te (V_nil_slice t) \<longleftrightarrow> True"
| "plain_value n te (V_slice t xs) \<longleftrightarrow> finite_type n te t \<and> list_all (\<lambda>x. plain_value n te x) xs"
| "plain_value n te (V_array xs) \<longleftrightarrow> False"
| "plain_value n te (V_ptr x) \<longleftrightarrow> plain_value n te x"
| "plain_value n te (V_iface t x) \<longleftrightarrow> plain_value n te x"
| "plain_value n te (V_map t m) \<longleftrightarrow> finite_type n te t \<and> list_all (\<lambda>(k, x). plain_value n te x) m"
| "plain_value n te (V_struct fs) \<longleftrightarrow>
     list_all (\<lambda>(f, t, x). gf_exported f \<longrightarrow> finite_type n te t \<and> plain_value n te x) fs"
  by pat_completeness auto

termination
  by (relation "measure (\<lambda>(_, _, v). size v)") (auto simp: size_elem size_entry size_field)

lemma any_opt_total: "list_all (\<lambda>x. p x \<noteq> None) xs \<Longrightarrow> any_opt p xs \<noteq> None"
  by (induction xs) (auto split: option.splits bool.splits)

lemma any_opt_False: "any_opt p xs = Some False \<Longrightarrow> list_all (\<lambda>x. p x = Some False) xs"
  by (induction xs) (auto split: option.splits bool.splits)

lemma needs_fix_total: "finite_type n te t \<Longrightarrow> needs_fix n te t \<noteq> None"
proof (induction n arbitrary: t)
  case (Suc n)
  have "any_opt (needs_fix n te) (map snd (filter fst fs)) \<noteq> None" if "underlying te t = T_struct fs" for fs
    using Suc that by (intro any_opt_total) (auto simp: list_all_iff)
  then show ?case using Suc by (auto split: go_type.splits)
qed simp

lemma struct_field_type:
  "needs_fix n te t = Some False \<Longrightarrow> typed te (V_struct fs) t \<Longrightarrow> (f, u, x) \<in> set fs \<Longrightarrow> gf_exported f
     \<Longrightarrow> \<exists>m. needs_fix m te u = Some False"
proof -
  assume a: "needs_fix n te t = Some False" "typed te (V_struct fs) t" "(f, u, x) \<in> set fs" "gf_exported f"
  obtain m where n: "n = Suc m" using a(1) by (cases n) auto
  have "any_opt (needs_fix m te) (map snd (filter fst (map (\<lambda>(f, u, _). (gf_exported f, u)) fs))) = Some False"
    using a(1,2) by (simp add: n)
  from any_opt_False [OF this] show ?thesis using a(3,4) by (force simp: list_all_iff)
qed

lemma nothing_to_fix:
  "typed te v t \<Longrightarrow> needs_fix n te t = Some False \<Longrightarrow> plain_value k te v \<Longrightarrow> json_of False v = json_of True v"
proof (induction v arbitrary: t n rule: measure_induct_rule [of size])
  case (less v)
  obtain m where n: "n = Suc m" using less.prems(2) by (cases n) auto
  show ?case
  proof (cases v)
    case (V_ptr x)
    then obtain u where "typed te x u" "needs_fix m te u = Some False" "plain_value k te x"
      using less.prems by (auto simp: n split: go_type.splits)
    then show ?thesis using less.IH [of x u m] V_ptr by simp
  next
    case (V_map u xs)
    have "json_of False x = json_of True x" if "(key, x) \<in> set xs" for key x
      using less.IH [of x u m] less.prems that size_entry [OF that] by (auto simp: V_map n list_all_iff)
    then show ?thesis by (auto simp: V_map)
  next
    case (V_struct fs)
    have same: "json_of False x = json_of True x" if x: "(f, u, x) \<in> set fs" "gf_exported f" for f u x
    proof -
      obtain l where "needs_fix l te u = Some False"
        using struct_field_type [OF less.prems(2) _ x] less.prems(1) V_struct by auto
      moreover have "typed te x u" using less.prems(1) x(1) by (force simp: V_struct list_all_iff)
      moreover have "plain_value k te x" using less.prems(3) x by (force simp: V_struct list_all_iff)
      moreover have "size x < size v" using size_field [OF x(1)] by (simp add: V_struct)
      ultimately show ?thesis using less.IH by blast
    qed
    show ?thesis unfolding V_struct json_of.simps
      by (intro arg_cong [where f = "\<lambda>xs. J_obj (concat xs)"] map_cong refl) (auto simp: same split: option.splits)
  qed (use less.prems in \<open>auto simp: n\<close>)
qed

lemma all_some_Some: "all_some ys = Some zs \<longleftrightarrow> ys = map Some zs"
proof (induction ys arbitrary: zs)
  case (Cons y ys)
  then show ?case by (cases y; cases zs) auto
qed auto

lemma all_some_None: "all_some ys = None \<longleftrightarrow> None \<in> set ys"
proof (induction ys)
  case (Cons y ys)
  then show ?case by (cases y) auto
qed simp

lemma all_some_total: "(\<And>e. e \<in> set xs \<Longrightarrow> g e \<noteq> None) \<Longrightarrow> all_some (map g xs) \<noteq> None"
  unfolding all_some_None by force

lemma fix_nil_ends: "plain_value n te v \<Longrightarrow> fix_nil n te v \<noteq> None"
proof (induction v rule: measure_induct_rule [of size])
  case (less v)
  show ?case
  proof (cases v)
    case (V_slice t xs)
    have "fix_nil n te x \<noteq> None" if "x \<in> set xs" for x
      using less.IH [of x] less.prems that size_elem [OF that] by (auto simp: V_slice list_all_iff)
    then have "all_some (map (\<lambda>x. fix_nil n te x) xs) \<noteq> None" by (rule all_some_total)
    moreover have "needs_fix n te t \<noteq> None" using less.prems V_slice by (intro needs_fix_total) simp
    ultimately show ?thesis unfolding V_slice by (auto split: option.splits bool.splits)
  next
    case (V_map t m)
    have "fix_nil n te x \<noteq> None" if "(k, x) \<in> set m" for k x
      using less.IH [of x] less.prems that size_entry [OF that] by (auto simp: V_map list_all_iff)
    then have "all_some (map (\<lambda>(k, x). map_option (\<lambda>y. (k, y)) (fix_nil n te x)) m) \<noteq> None"
      by (intro all_some_total) auto
    moreover have "needs_fix n te t \<noteq> None" using less.prems V_map by (intro needs_fix_total) simp
    ultimately show ?thesis unfolding V_map by (auto split: option.splits bool.splits)
  next
    case (V_struct fs)
    let ?g = "\<lambda>(f, t, x). if \<not> gf_exported f then Some (f, t, x)
       else case needs_fix n te t of None \<Rightarrow> None | Some False \<Rightarrow> Some (f, t, x)
         | Some True \<Rightarrow> map_option (\<lambda>y. (f, t, y)) (fix_nil n te x)"
    have "?g e \<noteq> None" if "e \<in> set fs" for e
    proof -
      obtain f t x where e: "e = (f, t, x)" by (cases e)
      have "gf_exported f \<Longrightarrow> fix_nil n te x \<noteq> None" "gf_exported f \<Longrightarrow> needs_fix n te t \<noteq> None"
        using less.IH [of x] less.prems that size_field [of f t x fs] needs_fix_total by (auto simp: e V_struct list_all_iff)
      then show ?thesis unfolding e by (auto split: option.splits bool.splits)
    qed
    then have "all_some (map ?g fs) \<noteq> None" by (rule all_some_total)
    then show ?thesis unfolding V_struct fix_nil.simps by simp
  qed (use less in auto)
qed

text \<open>What a value is fixed to, by a relation between the lists before and after.\<close>

lemma fixed_slice:
  assumes "fix_nil n te (V_slice t xs) = Some v'" "needs_fix n te t = Some True"
  shows "\<exists>ys. v' = V_slice t ys \<and> list_all2 (\<lambda>x y. fix_nil n te x = Some y) xs ys"
  using assms by (auto simp: all_some_Some list_all2_conv_all_nth list_eq_iff_nth_eq)

lemma fixed_map:
  assumes "fix_nil n te (V_map t m) = Some v'" "needs_fix n te t = Some True"
  shows "\<exists>ys. v' = V_map t ys \<and> list_all2 (\<lambda>(k, x) (l, y). l = k \<and> fix_nil n te x = Some y) m ys"
proof -
  obtain ys where ys: "v' = V_map t ys" "map (\<lambda>(k, x). map_option (\<lambda>y. (k, y)) (fix_nil n te x)) m = map Some ys"
    using assms by (auto simp: all_some_Some)
  have "list_all2 (\<lambda>(k, x) (l, y). l = k \<and> fix_nil n te x = Some y) m ys"
    using ys(2)
  proof (induction m arbitrary: ys)
    case (Cons e m)
    then show ?case by (cases e; cases ys) auto
  qed simp
  with ys(1) show ?thesis by blast
qed

lemma fixed_struct:
  assumes "fix_nil n te (V_struct fs) = Some v'"
  shows "\<exists>gs. v' = V_struct gs \<and> list_all2 (\<lambda>(f, t, x) (g, u, y). g = f \<and> u = t \<and>
    (gf_exported f \<longrightarrow> (needs_fix n te t = Some False \<and> y = x) \<or> (needs_fix n te t = Some True \<and> fix_nil n te x = Some y))) fs gs"
proof -
  let ?g = "\<lambda>(f, t, x). if \<not> gf_exported f then Some (f, t, x)
       else case needs_fix n te t of None \<Rightarrow> None | Some False \<Rightarrow> Some (f, t, x)
         | Some True \<Rightarrow> map_option (\<lambda>y. (f, t, y)) (fix_nil n te x)"
  obtain gs where gs: "v' = V_struct gs" "map ?g fs = map Some gs"
    using assms by (auto simp: all_some_Some)
  have "list_all2 (\<lambda>(f, t, x) (g, u, y). g = f \<and> u = t \<and>
    (gf_exported f \<longrightarrow> (needs_fix n te t = Some False \<and> y = x) \<or> (needs_fix n te t = Some True \<and> fix_nil n te x = Some y))) fs gs"
    using gs(2)
  proof (induction fs arbitrary: gs)
    case (Cons e fs)
    obtain f t x where e: "e = (f, t, x)" by (cases e)
    from Cons show ?case unfolding e by (cases gs) (auto split: if_splits option.splits bool.splits)
  qed simp
  with gs(1) show ?thesis by blast
qed

lemma fixed_omitted: "fix_nil n te x = Some y \<Longrightarrow> omitted y = omitted x"
proof (cases x)
  case (V_slice t xs)
  assume "fix_nil n te x = Some y"
  then show ?thesis unfolding V_slice by (auto simp: all_some_Some split: option.splits bool.splits)
next
  case (V_map t xs)
  assume "fix_nil n te x = Some y"
  then show ?thesis unfolding V_map by (auto simp: all_some_Some split: option.splits bool.splits)
next
  case (V_struct fs)
  assume "fix_nil n te x = Some y"
  then show ?thesis unfolding V_struct by (auto dest!: fixed_struct)
qed auto

lemma map_list_all2: "list_all2 P xs ys \<Longrightarrow> (\<And>x y. x \<in> set xs \<Longrightarrow> P x y \<Longrightarrow> f x = g y) \<Longrightarrow> map f xs = map g ys"
  by (induction rule: list_all2_induct) auto

definition shown_field :: "bool \<Rightarrow> go_field \<times> go_type \<times> go_val \<Rightarrow> (string \<times> json) list" where
  "shown_field e = (\<lambda>(f, _, x). (case gf_key f of
       None \<Rightarrow> []
     | Some k \<Rightarrow> if \<not> gf_exported f \<or> (gf_omit f \<and> omitted x) then [] else [(k, json_of e x)]))"

lemma json_of_struct: "json_of e (V_struct fs) = J_obj (concat (map (shown_field e) fs))"
  by (simp add: shown_field_def)

lemma fixed_encoding:
  "typed te v t \<Longrightarrow> plain_value n te v \<Longrightarrow> fix_nil n te v = Some v' \<Longrightarrow> json_of False v' = json_of True v"
proof (induction v arbitrary: t v' rule: measure_induct_rule [of size])
  case (less v)
  show ?case
  proof (cases v)
    case (V_slice u xs)
    have part: "typed te x u" "plain_value n te x" "size x < size v" if "x \<in> set xs" for x
      using less.prems(1,2) that size_elem [OF that] by (auto simp: V_slice list_all_iff)
    show ?thesis
    proof (cases "needs_fix n te u = Some True")
      case True
      obtain ys where ys: "v' = V_slice u ys" "list_all2 (\<lambda>x y. fix_nil n te x = Some y) xs ys"
        using fixed_slice [OF _ True] less.prems(3) V_slice by blast
      have "map (\<lambda>x. json_of True x) xs = map (\<lambda>x. json_of False x) ys"
        by (rule map_list_all2 [OF ys(2)]) (metis less.IH part)
      then show ?thesis by (simp add: ys(1) V_slice)
    next
      case False
      then have no: "needs_fix n te u = Some False" "v' = v" using less.prems(3) by (auto simp: V_slice split: option.splits bool.splits)
      have "json_of False x = json_of True x" if "x \<in> set xs" for x by (rule nothing_to_fix [OF part(1) [OF that] no(1) part(2) [OF that]])
      then show ?thesis unfolding no(2) V_slice by simp
    qed
  next
    case (V_map u m)
    have part: "typed te x u" "plain_value n te x" "size x < size v" if "(k, x) \<in> set m" for k x
      using less.prems(1,2) that size_entry [OF that] by (auto simp: V_map list_all_iff)
    show ?thesis
    proof (cases "needs_fix n te u = Some True")
      case True
      obtain ys where ys: "v' = V_map u ys" "list_all2 (\<lambda>(k, x) (l, y). l = k \<and> fix_nil n te x = Some y) m ys"
        using fixed_map [OF _ True] less.prems(3) V_map by blast
      have "map (\<lambda>(k, x). (k, json_of True x)) m = map (\<lambda>(k, x). (k, json_of False x)) ys"
        by (rule map_list_all2 [OF ys(2)]) (auto, metis less.IH part)
      then show ?thesis by (simp add: ys(1) V_map)
    next
      case False
      then have no: "needs_fix n te u = Some False" "v' = v" using less.prems(3) by (auto simp: V_map split: option.splits bool.splits)
      have "json_of False x = json_of True x" if "(k, x) \<in> set m" for k x by (rule nothing_to_fix [OF part(1) [OF that] no(1) part(2) [OF that]])
      then show ?thesis unfolding no(2) V_map by auto
    qed
  next
    case (V_struct fs)
    have part: "typed te x u" "gf_exported f \<Longrightarrow> plain_value n te x" "size x < size v" if x: "(f, u, x) \<in> set fs" for f u x
    proof -
      show "typed te x u" using less.prems(1) x by (force simp: V_struct list_all_iff)
      show "plain_value n te x" if "gf_exported f" using less.prems(2) x that by (force simp: V_struct list_all_iff)
      show "size x < size v" using size_field [OF x] by (simp add: V_struct)
    qed
    obtain gs where gs: "v' = V_struct gs" "list_all2 (\<lambda>(f, t, x) (g, u, y). g = f \<and> u = t \<and>
      (gf_exported f \<longrightarrow> (needs_fix n te t = Some False \<and> y = x) \<or> (needs_fix n te t = Some True \<and> fix_nil n te x = Some y))) fs gs"
      using fixed_struct less.prems(3) V_struct by blast
    have same: "json_of False y = json_of True x \<and> omitted y = omitted x"
      if x: "(f, u, x) \<in> set fs" "gf_exported f"
        and y: "(needs_fix n te u = Some False \<and> y = x) \<or> (needs_fix n te u = Some True \<and> fix_nil n te x = Some y)" for f u x y
      using y
    proof (elim disjE conjE)
      assume "needs_fix n te u = Some False" "y = x"
      then show ?thesis using nothing_to_fix [OF part(1) [OF x(1)] _ part(2) [OF x]] by simp
    next
      assume "fix_nil n te x = Some y"
      then show ?thesis using less.IH [OF part(3) [OF x(1)] part(1) [OF x(1)] part(2) [OF x]] fixed_omitted by blast
    qed
    have "map (shown_field True) fs = map (shown_field False) gs"
    proof (rule map_list_all2 [OF gs(2)])
      fix a b
      assume a: "a \<in> set fs" and b: "(\<lambda>(f, t, x) (g, u, y). g = f \<and> u = t \<and>
        (gf_exported f \<longrightarrow> (needs_fix n te t = Some False \<and> y = x) \<or> (needs_fix n te t = Some True \<and> fix_nil n te x = Some y))) a b"
      obtain f u x where x: "a = (f, u, x)" by (cases a)
      obtain y where y: "b = (f, u, y)" "gf_exported f \<Longrightarrow> (needs_fix n te u = Some False \<and> y = x) \<or> (needs_fix n te u = Some True \<and> fix_nil n te x = Some y)"
        using b x by (cases b) auto
      show "shown_field True a = shown_field False b"
      proof (cases "gf_exported f")
        case True
        then have "json_of False y = json_of True x \<and> omitted y = omitted x" using same [of f u x y] a x y(2) by blast
        then show ?thesis by (cases "gf_key f") (auto simp: x y(1) shown_field_def)
      qed (simp add: x y(1) shown_field_def split: option.splits)
    qed
    then show ?thesis unfolding gs(1) V_struct json_of_struct by simp
  next
    case (V_ptr x)
    then show ?thesis using less.prems less.IH [of x] by (auto split: go_type.splits)
  next
    case (V_iface u x)
    then show ?thesis using less.prems less.IH [of x u] by auto
  qed (use less.prems in auto)
qed

text \<open>C30: No list of an answer is ever null: the transformer of every answer ends, and what it returns is encoded exactly
  as the answer would be if nil lists were written as empty ones; nothing else of the encoding changes.  The value has
  to be well-typed, without fixed-size arrays, and of types that do not contain themselves.\<close>

theorem lists_never_null:
  assumes "typed te v t" "plain_value n te v"
  shows "\<exists>v'. empty_lists n te (Some v) = Some (Some v') \<and> json_of False v' = json_of True v"
proof -
  obtain v' where v': "fix_nil n te v = Some v'" using fix_nil_ends [OF assms(2)] by auto
  then show ?thesis using fixed_encoding [OF assms v'] by (simp add: empty_lists_def)
qed

section \<open>Examples\<close>

text \<open>An answer like the list of computers: a body with a flag and a list, the list nil.\<close>

definition small_types :: type_env where
  "small_types n = (if n = ''Body'' then T_struct [(True, T_basic), (True, T_slice T_basic)]
     else if n = ''Tree'' then T_struct [(True, T_basic), (True, T_ptr (T_named ''Tree''))] else T_basic)"

definition small_field :: "string \<Rightarrow> go_field" where
  "small_field k = \<lparr>gf_exported = True, gf_key = Some k, gf_omit = False\<rparr>"

definition small_answer_value :: go_val where
  "small_answer_value = V_ptr (V_struct [(small_field ''available'', T_basic, V_basic (J_bool True)),
     (small_field ''devices'', T_slice T_basic, V_nil_slice T_basic)])"

theorem lists_never_null_witness:
  "\<exists>v'. empty_lists 3 small_types (Some small_answer_value) = Some (Some v') \<and>
    json_of False v' = J_obj [(''available'', J_bool True), (''devices'', J_list [])]"
proof -
  have t: "typed small_types small_answer_value (T_ptr (T_named ''Body''))"
    by (simp add: small_answer_value_def small_types_def small_field_def underlying_def)
  have p: "plain_value 3 small_types small_answer_value"
    by (simp add: small_answer_value_def small_types_def small_field_def underlying_def numeral_3_eq_3)
  have "json_of True small_answer_value = J_obj [(''available'', J_bool True), (''devices'', J_list [])]"
    by (simp add: small_answer_value_def small_field_def)
  then show ?thesis using lists_never_null [OF t p] by simp
qed

text \<open>Two limits of the transformer: it does not enter arrays, and a type that refers to itself and has no list before
  that makes it walk for ever.\<close>

lemma array_keeps_null: "fix_nil n te (V_array [V_nil_slice t]) = Some v' \<Longrightarrow> json_of False v' = J_list [J_null]"
  by auto

lemma recursive_type_never_ends: "needs_fix n small_types (T_named ''Tree'') = None"
proof (induction n rule: less_induct)
  case (less n)
  show ?case
  proof (cases n)
    case (Suc m)
    have "needs_fix m small_types (T_ptr (T_named ''Tree'')) = None"
    proof (cases m)
      case (Suc k)
      then show ?thesis using less.IH [of k] \<open>n = Suc m\<close> by (simp add: underlying_def)
    qed simp
    moreover have "needs_fix m small_types T_basic = Some False \<or> needs_fix m small_types T_basic = None"
      by (cases m) (auto simp: underlying_def)
    moreover have "underlying small_types (T_named ''Tree'') = T_struct [(True, T_basic), (True, T_ptr (T_named ''Tree''))]"
      by (simp add: underlying_def small_types_def)
    ultimately show ?thesis by (auto simp: Suc)
  qed simp
qed

end
