(* ===== verification/Startup.thy ===== *)
theory Startup
  imports GoIp Migrations LogApi Lifecycle Phone
begin

text \<open>
  Starting the programs: the settings from the environment (\<open>backend/internal/config/config.go\<close>), the order in which the
  core brings itself up (\<open>backend/cmd/server/main.go\<close>), and the same for the feature modules (\<open>modules/*/service/main.go\<close>).
  The environment of the process and what is found in the folder of the modules are parameters; a start ends with an
  error or in the state in which the server begins to listen.
\<close>

section \<open>Settings\<close>

type_synonym environ = "string \<Rightarrow> string option"

definition lookup_env :: "environ \<Rightarrow> string \<Rightarrow> string \<Rightarrow> string" where
  "lookup_env e key fallback = (case e key of Some v \<Rightarrow> if v \<noteq> [] then v else fallback | None \<Rightarrow> fallback)"

record core_config =
  kf_listen :: string
  kf_database :: string
  kf_modules :: string
  kf_data :: string
  kf_snapshots :: string
  kf_email :: string
  kf_password :: string
  kf_domain :: string
  kf_nginx_dir :: string
  kf_nginx :: string
  kf_gateway :: string
  kf_repo :: string
  kf_monitor :: string

definition load_config :: "environ \<Rightarrow> string + core_config" where
  "load_config e =
     (let c = \<lparr>kf_listen = lookup_env e ''LISTEN_ADDR'' '':8080'',
        kf_database = lookup_env e ''DATABASE_URL'' '''',
        kf_modules = lookup_env e ''MODULES_DIR'' ''./modules'',
        kf_data = lookup_env e ''DATA_DIR'' ''./data/modules'',
        kf_snapshots = lookup_env e ''SNAPSHOT_DIR'' ''./data/snapshots'',
        kf_email = lookup_env e ''ADMIN_EMAIL'' '''',
        kf_password = lookup_env e ''ADMIN_PASSWORD'' '''',
        kf_domain = lookup_env e ''BASE_DOMAIN'' ''localhost'',
        kf_nginx_dir = lookup_env e ''NGINX_CONF_DIR'' ''./nginx/conf.d'',
        kf_nginx = lookup_env e ''NGINX_CONTAINER_NAME'' ''itplatform-nginx'',
        kf_gateway = lookup_env e ''GATEWAY_CONTAINER_NAME'' ''itplatform-internal-gateway'',
        kf_repo = lookup_env e ''MODULE_UPDATE_REPO'' ''majid6611/itbox'',
        kf_monitor = lookup_env e ''MONITOR_URL'' ''https://itboxmonitor.yycit.net''\<rparr> in
      if kf_database c = [] then Inl ''DATABASE_URL is required'' else Inr c)"

section \<open>The core\<close>

record 's boot =
  bo_db :: "'s database"
  bo_admin :: admin_db
  bo_core :: core_db
  bo_proxy :: proxy_state
  bo_log :: sys_log

definition start_platform ::
  "(string \<Rightarrow> string option) \<Rightarrow> faults \<Rightarrow> nat \<Rightarrow> 's scripts \<Rightarrow> environ \<Rightarrow> (string \<Rightarrow> string + manifest list) \<Rightarrow> 's boot
     \<Rightarrow> (string + core_config \<times> manager) \<times> 's boot" where
  "start_platform gen f now sql e catalog s =
     (case load_config e of
        Inl err \<Rightarrow> (Inl err, s)
      | Inr c \<Rightarrow>
          (case db_connect f of
             Inl err \<Rightarrow> (Inl err, s)
           | Inr _ \<Rightarrow>
               (case core_migrate f now sql (bo_db s) of
                  (Inl err, d) \<Rightarrow> (Inl err, s\<lparr>bo_db := d\<rparr>)
                | (Inr _, d) \<Rightarrow>
                    (case ensure_admin gen f (bo_admin s) (kf_email c) (kf_password c) of
                       (Inl err, a) \<Rightarrow> (Inl err, s\<lparr>bo_db := d, bo_admin := a\<rparr>)
                     | (Inr _, a) \<Rightarrow>
                         (let s1 = s\<lparr>bo_db := d, bo_admin := a\<rparr> in
                          case catalog (kf_modules c) of
                            Inl err \<Rightarrow> (Inl err, s1)
                          | Inr mods \<Rightarrow>
                              (case new_manager f (bo_core s) mods (bo_proxy s) (kf_domain c) of
                                 Inl err \<Rightarrow> (Inl err, s1)
                               | Inr m \<Rightarrow> (Inr (c, m), s1\<lparr>bo_core := mg_db m,
                                   bo_log := the (sys_write f now ''info'' ''platform''
                                     ''Platform started (version 1.0.0)'' (Some (bo_log s)))\<rparr>)))))))"

section \<open>The modules\<close>

definition env_or :: "environ \<Rightarrow> string \<Rightarrow> string \<Rightarrow> string" where
  "env_or e key fallback = (let v = (case e key of None \<Rightarrow> [] | Some v \<Rightarrow> v) in if v \<noteq> [] then v else fallback)"

text \<open>Chat and wiki: the address to listen at, after connecting and migrating; the line \<open>Started\<close> of the system log is left out.\<close>

definition start_module ::
  "faults \<Rightarrow> 's scripts \<Rightarrow> string list \<Rightarrow> environ \<Rightarrow> 's database \<Rightarrow> (string + string) \<times> 's database" where
  "start_module f sql files e s =
     (if env_or e ''DATABASE_URL'' '''' = [] then (Inl ''DATABASE_URL is required'', s)
      else case db_connect f of
        Inl err \<Rightarrow> (Inl err, s)
      | Inr _ \<Rightarrow>
          (case module_migrate f sql files s of
             (Inl err, s1) \<Rightarrow> (Inl err, s1)
           | (Inr _, s1) \<Rightarrow> (Inr (env_or e ''LISTEN_ADDR'' '':8080''), s1)))"

text \<open>\<open>/proc/net/route\<close>: the gateway of the line with destination zero, four bytes in hexadecimal, the last one first.\<close>

fun hex_decode :: "string \<Rightarrow> nat list option" where
  "hex_decode [] = Some []"
| "hex_decode [c] = None"
| "hex_decode (a # b # r) =
     (case (hex_val a, hex_val b, hex_decode r) of (Some x, Some y, Some zs) \<Rightarrow> Some ((16 * x + y) # zs) | _ \<Rightarrow> None)"

definition route_gateway :: "string \<Rightarrow> string option" where
  "route_gateway line =
     (let f = GoStd.fields line in
      if length f < 3 \<or> f ! 1 \<noteq> ''00000000'' then None
      else case hex_decode (f ! 2) of
        Some [a, b, c, d] \<Rightarrow> Some (join ''.'' (map nat_str [d, c, b, a]))
      | _ \<Rightarrow> None)"

definition default_gateway :: "string + string \<Rightarrow> string + string" where
  "default_gateway route =
     (case route of
        Inl e \<Rightarrow> Inl e
      | Inr text \<Rightarrow>
          (case List.map_filter route_gateway (tl (split_chr newline text)) of
             [] \<Rightarrow> Inl ''no default route''
           | g # _ \<Rightarrow> Inr g))"

text \<open>The phone system also needs the way to Asterisk, and writes Asterisk's files before it listens.\<close>

definition start_voip ::
  "faults \<Rightarrow> 's scripts \<Rightarrow> environ \<Rightarrow> string + string \<Rightarrow> voip_env \<Rightarrow> 's database \<times> voip_srv
     \<Rightarrow> (string + string) \<times> 's database \<times> voip_srv" where
  "start_voip f sql e route env st =
     (case st of (d, v) \<Rightarrow>
        if env_or e ''DATABASE_URL'' '''' = [] then (Inl ''DATABASE_URL is required'', d, v)
        else if env_or e ''AMI_SECRET'' '''' = [] then (Inl ''AMI_SECRET is required'', d, v)
        else case (let a = env_or e ''AMI_ADDR'' '''' in
            if a \<noteq> [] then Inr a else case default_gateway route of Inl err \<Rightarrow> Inl err | Inr g \<Rightarrow> Inr (g @ '':5038'')) of
          Inl err \<Rightarrow> (Inl err, d, v)
        | Inr ami \<Rightarrow>
            (case db_connect f of
               Inl err \<Rightarrow> (Inl err, d, v)
             | Inr _ \<Rightarrow>
                 (case voip_migrate f sql d of
                    (Inl err, d1) \<Rightarrow> (Inl err, d1, v)
                  | (Inr _, d1) \<Rightarrow>
                      (case apply_conf env (voip_log ''Started'' v) of
                         (Inl err, v1) \<Rightarrow> (Inl ''write asterisk config'', d1, voip_log ''could not write the config'' v1)
                       | (Inr _, v1) \<Rightarrow> (Inr ami, d1, v1)))))"

lemma gateway_bytes: "hex_decode ''010011AC'' = Some [1, 0, 17, 172]"
  by code_simp

section \<open>What a start leaves behind\<close>

lemma start_parts:
  assumes "start_platform gen f now sql e catalog s = (Inr (c, m), s')"
  shows "load_config e = Inr c" "core_migrate f now sql (bo_db s) = (Inr (), bo_db s')"
    "ensure_admin gen f (bo_admin s) (kf_email c) (kf_password c) = (Inr (), bo_admin s')"
    "\<exists>mods. catalog (kf_modules c) = Inr mods \<and> new_manager f (bo_core s) mods (bo_proxy s) (kf_domain c) = Inr m"
    "bo_core s' = mg_db m" "bo_proxy s' = bo_proxy s"
  using assms by (auto simp: start_platform_def Let_def split: sum.splits prod.splits)

text \<open>A core that listens has its whole schema, an administrator if one was configured, and the domain that was stored.\<close>

lemma started_ready:
  assumes "start_platform gen f now sql e catalog s = (Inr (c, m), s')"
  shows "set core_files \<subseteq> set (md_done (bo_db s'))"
    and "admins (bo_admin s) \<noteq> [] \<Longrightarrow> bo_admin s' = bo_admin s"
    and "admins (bo_admin s) = [] \<Longrightarrow> kf_email c \<noteq> [] \<Longrightarrow> kf_password c \<noteq> [] \<Longrightarrow>
      \<exists>a h. admins (bo_admin s') = [a] \<and> au_email a = kf_email c \<and> gen (kf_password c) = Some h \<and> au_hash a = h"
    and "mg_domain m = (case cd_settings (bo_core s) of None \<Rightarrow> kf_domain c | Some (d, _) \<Rightarrow> d)"
    and "mg_busy m = []"
proof -
  note p = start_parts [OF assms]
  show "set core_files \<subseteq> set (md_done (bo_db s'))" using core_updates.complete [OF p(2)] by simp
  show "bo_admin s' = bo_admin s" if "admins (bo_admin s) \<noteq> []"
    using p(3) that by (auto simp: ensure_admin_def split: if_splits)
  show "\<exists>a h. admins (bo_admin s') = [a] \<and> au_email a = kf_email c \<and> gen (kf_password c) = Some h \<and> au_hash a = h"
    if "admins (bo_admin s) = []" "kf_email c \<noteq> []" "kf_password c \<noteq> []"
  proof -
    have "bo_admin s' = snd (ensure_admin gen f (bo_admin s) (kf_email c) (kf_password c))" using p(3) by simp
    then show ?thesis using p(3) that by (auto simp: ensure_admin_def split: if_splits option.splits)
  qed
  show "mg_domain m = (case cd_settings (bo_core s) of None \<Rightarrow> kf_domain c | Some (d, _) \<Rightarrow> d)" "mg_busy m = []"
    using p(4) by (auto simp: new_manager_def Let_def split: if_splits option.splits)
qed

text \<open>
  Starting again with the same environment changes nothing but the system log: no script runs, no administrator is added
  or changed, and the settings stay.
\<close>

lemma restart_changes_nothing:
  assumes first: "start_platform gen f now sql e catalog s = (Inr (c, m), s1)"
    and again: "start_platform gen g now2 sql e catalog s1 = (Inr (c2, m2), s2)"
  shows "c2 = c" "md_done (bo_db s2) = md_done (bo_db s1)" "md_schema (bo_db s2) = md_schema (bo_db s1)"
    "bo_admin s2 = bo_admin s1" "bo_core s2 = bo_core s1" "m2 = m"
proof -
  note p = start_parts [OF first] and q = start_parts [OF again]
  show c: "c2 = c" using p(1) q(1) by simp
  have "set (sorted_names core_files) \<subseteq> set (md_done (bo_db s1))" using core_updates.complete [OF p(2)] .
  then have "md_done (snd (core_migrate g now2 sql (bo_db s1))) = md_done (bo_db s1)"
    "md_schema (snd (core_migrate g now2 sql (bo_db s1))) = md_schema (bo_db s1)"
    by (rule core_updates.settled)+
  then show "md_done (bo_db s2) = md_done (bo_db s1)" "md_schema (bo_db s2) = md_schema (bo_db s1)"
    using q(2) by simp_all
  show "bo_admin s2 = bo_admin s1"
  proof (cases "kf_email c = [] \<or> kf_password c = []")
    case True
    then show ?thesis using q(3) unfolding c by (auto simp: ensure_admin_def)
  next
    case False
    then have "admins (bo_admin s1) \<noteq> []" using started_ready(2,3) [OF first] by (cases "admins (bo_admin s) = []") auto
    then show ?thesis by (rule started_ready(2) [OF again])
  qed
  obtain mods where mods: "catalog (kf_modules c) = Inr mods" "new_manager f (bo_core s) mods (bo_proxy s) (kf_domain c) = Inr m"
    "new_manager g (bo_core s1) mods (bo_proxy s1) (kf_domain c) = Inr m2"
    using p(4) q(4) unfolding c by auto
  have "cd_settings (bo_core s1) = Some (mg_domain m, mg_theme m)" "bo_proxy s1 = bo_proxy s"
    using mods(2) p(5,6) by (auto simp: new_manager_def Let_def split: if_splits option.splits)
  then have "m2 = m"
    using mods(2,3) p(5) by (auto simp: new_manager_def Let_def split: if_splits option.splits)
  then show "m2 = m" "bo_core s2 = bo_core s1" using p(5) q(5) by simp_all
qed

text \<open>A phone system that listens has the files its tables determine.\<close>

lemma voip_started:
  assumes "start_voip f sql e route env (d, v) = (Inr a, d1, v1)"
  shows "set voip_files \<subseteq> set (md_done d1)" "\<exists>u. apply_conf env (voip_log ''Started'' v) = (Inr u, v1)"
proof -
  have "voip_migrate f sql d = (Inr (), d1)" "\<exists>u. apply_conf env (voip_log ''Started'' v) = (Inr u, v1)"
    using assms by (auto simp: start_voip_def Let_def split: if_splits sum.splits prod.splits)
  then show "set voip_files \<subseteq> set (md_done d1)" "\<exists>u. apply_conf env (voip_log ''Started'' v) = (Inr u, v1)"
    using voip_updates.complete by fastforce+
qed

end
