(* ===== verification/Certificates.thy ===== *)
theory Certificates
  imports GoIp GoTime Prelude Versions
begin

text \<open>
  The certificates of modules that need TLS (\<open>backend/internal/proxy/tls.go\<close>): one pair of files per module, made once and
  again when it does not fit the host name or has ended.  A file holds a certificate, a private key, or something that
  does not parse, as after an interrupted write.  Keys are numbers that the random source gives; times of certificates
  are whole seconds, as in the encoding.
\<close>

record x509 =
  xc_names :: "string list"
  xc_ips :: "ip list"
  xc_from :: nat
  xc_to :: nat
  xc_key :: nat

datatype tls_file = Cert_file x509 | Key_file nat | Broken_file

type_synonym tls_files = "(string \<times> tls_file) list"

definition tls_dir :: "string \<Rightarrow> string \<Rightarrow> string" where
  "tls_dir conf_dir module_id = path_clean (conf_dir @ ''/tls/'' @ module_id)"

text \<open>The day ten years later: February 29th becomes March 1st.\<close>

definition ten_years :: "nat \<Rightarrow> nat" where
  "ten_years day =
     (case civil day of (y, m, d) \<Rightarrow>
        day + 3650 + length (filter leap_year (if m \<le> 2 then [y..<y + 10] else [Suc y..<y + 11])))"

definition in_ten_years :: "nat \<Rightarrow> nat" where
  "in_ten_years t = ten_years (t div us_per_day) * us_per_day + t mod us_per_day"

text \<open>\<open>tls.LoadX509KeyPair\<close>.\<close>

definition load_pair :: "tls_files \<Rightarrow> string \<Rightarrow> string \<Rightarrow> x509 option" where
  "load_pair files cert key =
     (case (map_of files cert, map_of files key) of
        (Some (Cert_file c), Some (Key_file k)) \<Rightarrow> if xc_key c = k then Some c else None
      | _ \<Rightarrow> None)"

definition cert_matches :: "tls_files \<Rightarrow> nat \<Rightarrow> string \<Rightarrow> string \<Rightarrow> bool" where
  "cert_matches files now dir hostname \<longleftrightarrow>
     (case load_pair files (dir @ ''/cert.pem'') (dir @ ''/key.pem'') of
        None \<Rightarrow> False
      | Some c \<Rightarrow> verify_hostname (xc_names c) (xc_ips c) hostname \<and> now < xc_to c * us_per_sec)"

definition cert_for :: "nat \<Rightarrow> nat \<Rightarrow> string \<Rightarrow> x509" where
  "cert_for now key hostname =
     \<lparr>xc_names = (if parse_ip hostname = None then [hostname] else []),
      xc_ips = (case parse_ip hostname of None \<Rightarrow> [] | Some a \<Rightarrow> [a]),
      xc_from = (now - 3600 * us_per_sec) div us_per_sec, xc_to = in_ten_years now div us_per_sec, xc_key = key\<rparr>"

text \<open>A name that is not ASCII cannot be put into a certificate.\<close>

definition ensure_cert ::
  "faults \<Rightarrow> nat \<Rightarrow> nat \<Rightarrow> string \<Rightarrow> string \<Rightarrow> tls_files \<Rightarrow> (string + string \<times> string) \<times> tls_files" where
  "ensure_cert f now key dir hostname files =
     (let cp = dir @ ''/cert.pem''; kp = dir @ ''/key.pem'' in
      if cert_matches files now dir hostname then (Inr (cp, kp), files)
      else if f ''create tls dir'' then (Inl ''create tls dir'', files)
      else if f ''generate tls key'' then (Inl ''generate tls key'', files)
      else if f ''generate tls serial'' then (Inl ''generate tls serial'', files)
      else if f ''create tls cert'' \<or> (parse_ip hostname = None \<and> \<not> ascii hostname) then (Inl ''create tls cert'', files)
      else if f ''write tls cert'' then (Inl ''write tls cert'', files)
      else if f ''encode tls cert'' then (Inl ''encode tls cert'', AList.update cp Broken_file files)
      else (let files1 = AList.update cp (Cert_file (cert_for now key hostname)) files in
        if f ''write tls key'' then (Inl ''write tls key'', files1)
        else if f ''encode tls key'' then (Inl ''encode tls key'', AList.update kp Broken_file files1)
        else (Inr (cp, kp), AList.update kp (Key_file key) files1)))"

section \<open>A new certificate fits\<close>

definition usable_host :: "string \<Rightarrow> bool" where
  "usable_host h \<longleftrightarrow> h \<noteq> [] \<and> h \<noteq> ''.'' \<and> hd h \<noteq> CHR ''[''"

lemma split_last: "split_chr c (s @ [c]) = split_chr c s @ [[]]"
  by (induction s) (auto split: list.splits)

lemma valid_name_no_dot: "valid_hostname True h \<Longrightarrow> last h \<noteq> CHR ''.''"
proof
  assume v: "valid_hostname True h" and l: "last h = CHR ''.''"
  then have ne: "h \<noteq> []" by (simp add: valid_hostname_def Let_def)
  then have "split_chr (CHR ''.'') h = split_chr (CHR ''.'') (butlast h) @ [[]]"
    using l split_last [of "CHR ''.''" "butlast h"] by (metis append_butlast_last_id)
  moreover obtain p ps where "split_chr (CHR ''.'') (butlast h) = p # ps" by (metis list.exhaust split_chr_nonempty)
  ultimately have "split_chr (CHR ''.'') h = p # ps @ [[]]" by simp
  then show False using v by (simp add: valid_hostname_def Let_def label_ok_def)
qed

lemma own_name_fits: "usable_host h \<Longrightarrow> verify_hostname (xc_names (cert_for now key h)) (xc_ips (cert_for now key h)) h"
proof -
  assume h: "usable_host h"
  then have bare: "(if 3 \<le> length h \<and> hd h = CHR ''['' \<and> last h = CHR '']'' then butlast (tl h) else h) = h"
    by (simp add: usable_host_def)
  show ?thesis
  proof (cases "parse_ip h")
    case None
    let ?c = "to_lower_ascii h"
    have ne: "?c \<noteq> []" using h by (simp add: usable_host_def to_lower_ascii_def)
    have dot: "?c \<noteq> ''.''"
    proof
      assume "?c = ''.''"
      then obtain x where "h = [x]" "lower_chr x = CHR ''.''" by (auto simp: to_lower_ascii_def map_eq_Cons_conv)
      then show False using h lower_chr_dot by (simp add: usable_host_def)
    qed
    have "match_hostnames h ?c" if v: "valid_hostname True h"
    proof -
      have "last ?c = lower_chr (last h)" using h by (simp add: usable_host_def to_lower_ascii_def last_map)
      then have "last ?c \<noteq> CHR ''.''" using valid_name_no_dot [OF v] lower_chr_dot by metis
      then have "trim_dot ?c = ?c" by (simp add: trim_dot_def)
      then show ?thesis using ne by (simp add: match_hostnames_def Let_def)
    qed
    moreover have "match_exactly h ?c" using h ne dot by (simp add: match_exactly_def usable_host_def)
    ultimately show ?thesis using None unfolding verify_hostname_def bare cert_for_def by (simp add: Let_def)
  next
    case (Some a)
    then show ?thesis unfolding verify_hostname_def bare cert_for_def by (simp add: Let_def)
  qed
qed

lemma lasts_ten_years: "t + 3649 * us_per_day \<le> in_ten_years t"
proof -
  have "t div us_per_day + 3650 \<le> ten_years (t div us_per_day)" by (simp add: ten_years_def split: prod.splits)
  then have "(t div us_per_day + 3650) * us_per_day \<le> ten_years (t div us_per_day) * us_per_day" by (rule mult_le_mono1)
  moreover have "t = t div us_per_day * us_per_day + t mod us_per_day" by simp
  ultimately show ?thesis unfolding in_ten_years_def add_mult_distrib by linarith
qed

text \<open>
  After a success the files hold a pair that fits the host name at that moment, and it is kept: asked again for the same
  host the function changes nothing, for a new certificate at least for the next 3649 days.
\<close>

lemma certificate_made_once:
  assumes "ensure_cert f now key dir h files = (Inr p, files')" "usable_host h"
  shows "cert_matches files' now dir h"
    and "\<not> cert_matches files now dir h \<Longrightarrow> later < now + 3648 * us_per_day \<Longrightarrow> cert_matches files' later dir h"
    and "cert_matches files' later dir h \<Longrightarrow> ensure_cert g later k2 dir h files' = (Inr p, files')"
proof -
  have paths: "p = (dir @ ''/cert.pem'', dir @ ''/key.pem'')"
    using assms(1) by (auto simp: ensure_cert_def Let_def split: if_splits)
  have new: "files' = AList.update (dir @ ''/key.pem'') (Key_file key)
      (AList.update (dir @ ''/cert.pem'') (Cert_file (cert_for now key h)) files)" if "\<not> cert_matches files now dir h"
    using assms(1) that by (auto simp: ensure_cert_def Let_def split: if_splits)
  have pair: "load_pair files' (dir @ ''/cert.pem'') (dir @ ''/key.pem'') = Some (cert_for now key h)" if "\<not> cert_matches files now dir h"
    unfolding new [OF that] by (simp add: load_pair_def update_conv' cert_for_def)
  have bound: "later < in_ten_years now div us_per_sec * us_per_sec" if "later < now + 3648 * us_per_day" for later
  proof -
    have "in_ten_years now < in_ten_years now div us_per_sec * us_per_sec + us_per_sec"
      by (simp add: us_per_sec_def) 
    moreover have "us_per_sec < us_per_day" by (simp add: us_per_day_def us_per_sec_def)
    ultimately show ?thesis using lasts_ten_years [of now] that by linarith
  qed
  show later: "cert_matches files' later dir h" if "\<not> cert_matches files now dir h" "later < now + 3648 * us_per_day" for later
    using pair [OF that(1)] own_name_fits [OF assms(2)] bound [OF that(2)] by (simp add: cert_matches_def cert_for_def)
  show "cert_matches files' now dir h"
  proof (cases "cert_matches files now dir h")
    case True
    then show ?thesis using assms(1) by (auto simp: ensure_cert_def Let_def)
  next
    case False
    then show ?thesis using later [of now] by (simp add: us_per_day_def us_per_sec_def)
  qed
  show "ensure_cert g later k2 dir h files' = (Inr p, files')" if "cert_matches files' later dir h"
    using that paths by (simp add: ensure_cert_def Let_def)
qed

text \<open>The certificate is replaced before the new key is written: when that fails, the files on disk no longer fit together,
  and nginx, which reads both, has no pair.\<close>

lemma failed_key_breaks_pair:
  assumes "load_pair files (dir @ ''/cert.pem'') (dir @ ''/key.pem'') = Some old" "xc_key old \<noteq> key"
    and "ensure_cert f now key dir h files = (Inl e, files')" "f ''write tls key''" "\<not> f ''write tls cert''" "\<not> f ''encode tls cert''"
      "e = ''write tls key''"
  shows "load_pair files' (dir @ ''/cert.pem'') (dir @ ''/key.pem'') = None"
proof -
  have "files' = AList.update (dir @ ''/cert.pem'') (Cert_file (cert_for now key h)) files"
    using assms(3-7) by (auto simp: ensure_cert_def Let_def split: if_splits)
  moreover have "map_of files (dir @ ''/key.pem'') = Some (Key_file (xc_key old))"
    using assms(1) by (auto simp: load_pair_def split: option.splits tls_file.splits if_splits)
  ultimately show ?thesis using assms(2) by (auto simp: load_pair_def update_conv' cert_for_def)
qed

end
