(* ===== verification/Spec2Isabelle.thy ===== *)
theory Spec2Isabelle
  imports Login ChatProps WikiHistory ModuleExamples ModuleUpdateExamples PhoneExamples BackupProps VpnProps CalendarProps Migrations LogApi RegistryService Report ComputeMesh EmptyLists Startup Certificates
begin

text \<open>
  A verification library for the office platform: its core server (\<open>backend/\<close>) and the feature modules
  chat, wiki and telephony (\<open>modules/*/service/\<close>), all written in Go.

  \<^bold>\<open>The program.\<close>  The core server has an administrator's panel and an employee portal behind one HTTP
  API.  It keeps its own tables in PostgreSQL, creates people and groups in an LDAP directory, installs and
  updates feature modules as compose projects of Docker, writes the configuration of the edge proxy, drives
  a NetBird server for VPN access, a MeshCentral server for remote power control, a file share and a calendar server, and makes backups.  A feature module
  is a server of its own on the same database; it accepts the core's sessions and reads the core's directory.

  \<^bold>\<open>The style.\<close>  A handler \<open>func(ctx, in) (out, error)\<close> is a function from the state and the input to
  \<open>error + out\<close> and the new state: every early return of the source is a branch.  A database statement is
  named by a label and fails when the oracle \<open>faults\<close> of the request says so; a table is the list of its
  rows in the order of their ids.  Strings are lists of bytes, as in Go.  Time, random bytes and whatever is
  not code of this repository are arguments; what a theorem needs to know about them is a named hypothesis
  (such as the laws of the LDAP or the NetBird server), and each such theorem is applied to a small concrete
  server by its witness.

  \<^bold>\<open>Shared theories.\<close>
  \<^item> \<open>Prelude\<close>: result type, fault oracle, durations, lemmas on lists; \<open>GoStd\<close>, \<open>GoText\<close>, \<open>GoTime\<close>,
    \<open>GoUrl\<close>, \<open>GoIp\<close>: what the sources use of Go's \<open>strings\<close>, \<open>strconv\<close>, \<open>unicode/utf8\<close>, \<open>path\<close>, \<open>time\<close>, \<open>net\<close>,
    \<open>net/url\<close> and the host names of \<open>crypto/x509\<close>.

  \<^bold>\<open>Identity and audit (\<open>backend/internal/auth\<close>, \<open>employee\<close>, \<open>ratelimit\<close>, \<open>audit\<close>, \<open>api/auth.go\<close>).\<close>
  \<^item> \<open>AuditLog\<close>: the hash chain that \<open>Record\<close> extends, \<open>Verify\<close>, \<open>List\<close>, \<open>Prune\<close>.  Every reachable log verifies,
    and a log that still verifies after an edit is unchanged or shows a collision of the hash.
  \<^item> \<open>RateLimit\<close>: the login limiter, chat's message limiter and the once-a-minute throttle of the modules'
    system log, over the locale \<open>sliding_window\<close>; the limiter refines a log of all failures.
  \<^item> \<open>Sessions\<close>: the tables of administrators' and employees' sessions, both interpretations of the locale
    \<open>session_store\<close>, and the modules' read-only check of them.  A revoked session stays out.
  \<^item> \<open>Login\<close>: the login, logout and who-am-I handlers with the middleware.  A login needs the password, ten
    failures within fifteen minutes shut the door and it opens again.
  \<^item> \<open>LogApi\<close>: the system log, the pages of both logs with their downloads, and the middleware that makes sure that
    every change is in the audit log.

  \<^bold>\<open>Chat (\<open>modules/chat/service/internal\<close>).\<close>
  \<^item> \<open>ChatDirectory\<close>, \<open>Chat\<close>, \<open>ChatWrite\<close>, \<open>ChatGroups\<close>: the cached directory, the tables and every handler;
    \<open>ChatHub\<close>: connections, bounded outboxes and presence as interleaved steps.
  \<^item> \<open>ChatChanges\<close> lists once what a request may change (the inductive relation \<open>change\<close>); \<open>ChatProps\<close> proves on
    the changes alone the invariant of the tables, who may rewrite a message, who receives and finds what,
    and that scrolling back shows every message once.

  \<^bold>\<open>Wiki (\<open>modules/wiki/service/internal\<close>).\<close>
  \<^item> \<open>Wiki\<close> (tables, access rules, readers), \<open>WikiWrite\<close> (writers), \<open>WikiProps\<close> (the relation \<open>wiki_change\<close>, the
    invariant and who may write), \<open>WikiHistory\<close> (no lost update, what readers see).

  \<^bold>\<open>Telephony (\<open>modules/voip/service/internal\<close>).\<close>
  \<^item> \<open>Pbx\<close> generates Asterisk's files line by line, \<open>Phone\<close> and \<open>PhoneWatch\<close> hold the handlers, the watch over
    failed sign-ins, the call list and the messages of the manager interface; \<open>PhoneProps\<close>, \<open>PhoneFiles\<close> and
    \<open>PhoneExamples\<close> show that no stored value becomes syntax of a file and that files and tables agree.

  \<^bold>\<open>Modules (\<open>backend/internal/modules\<close>, \<open>docker\<close>, \<open>proxy\<close>, \<open>registryclient\<close>, \<open>db\<close>).\<close>
  \<^item> \<open>Versions\<close> (comparing versions, cleaning paths), \<open>Docker\<close> (command lines and their output), \<open>Proxy\<close> (vhosts and
    snippets), \<open>Lifecycle\<close> and \<open>Installer\<close> (the module manager), \<open>ModuleUpdate\<close> (finding, fetching and applying
    updates with their safety copy and the rollback).
  \<^item> \<open>LifecycleProps\<close>, \<open>ModuleSecrets\<close>, \<open>ModuleUpdateProps\<close>: one operation per module at a time, private modules
    stay private, secrets survive a reinstallation, the wait for health ends, no change without a copy, a
    failed update brings everything back, a bundle cannot leave its folder.  \<open>ModuleExamples\<close> and
    \<open>ModuleUpdateExamples\<close> are small runs.
  \<^item> \<open>Migrations\<close>: the scripts of the core and of the modules, one table of what ran; the locale \<open>migrator\<close>
    has the loop of each of the four programs as an interpretation.
  \<^item> \<open>ModuleApi\<close> (\<open>api/modules.go\<close>, \<open>modulelogs.go\<close>, \<open>settings.go\<close>): the administrator's handlers around the manager; which
    stored settings a page may show, and the masking of passwords in logs.
  \<^item> \<open>EmptyLists\<close> (\<open>api/emptylists.go\<close>): the transformer of every answer, on Go's types and values as data; its result
    against the encoding that writes nil lists as empty ones.

  \<^item> \<open>Certificates\<close> (\<open>proxy/tls.go\<close>): the self-signed certificates of modules with TLS, made once per host name.
  \<^item> \<open>Startup\<close> (\<open>cmd/server/main.go\<close>, \<open>config\<close>, \<open>modules/*/service/main.go\<close>): how the parts are brought up in order;
    what a program that listens has behind it, and that starting again changes nothing.

  \<^bold>\<open>Watching the installation (\<open>api/healthreport.go\<close>, \<open>monitor.go\<close>, \<open>watch.go\<close>, \<open>updatewatch.go\<close>, \<open>report.go\<close>).\<close>
  \<^item> \<open>Monitor\<close>: the readings of processor, memory and disk, the checks made of them, the samples kept, and what is written
    to the system log when a check changes.
  \<^item> \<open>Report\<close>: the licence, and the reports to the vendor: what leaves the building, and that a line leaves it once.
    The interleaving of reporter, new entries and pruning is a list of steps.

  \<^bold>\<open>The module registry (\<open>registry/internal\<close>).\<close>
  \<^item> \<open>RegistryService\<close>: a service of its own that hands the module index and the bundles of a private GitHub repository to
    the installations: customers' keys, the two calls to GitHub, the HTTP surface.  Who is let in after any history of
    requests, and that the index arrives as published.

  \<^bold>\<open>Company services (\<open>backend/internal/api\<close>, \<open>directory\<close>, \<open>netbird\<close>, \<open>webdavfs\<close>, \<open>radicalefs\<close>, \<open>caldavclient\<close>).\<close>
  \<^item> \<open>Company\<close> is the state these handlers share.  \<open>Directory\<close> is the LDAP client, \<open>People\<close> the handlers of users and
    groups, \<open>PeopleProps\<close> what disabling and moving a person achieve, and where a refused move leaves one.
  \<^item> \<open>FileShare\<close> and \<open>ShareProps\<close>: the login file and the folder rules of the share, the logins of the calendar.
  \<^item> \<open>NetBird\<close> (the client), \<open>OfficeNet\<close> (subnets and ports on 32-bit words), \<open>Gateway\<close>, \<open>Vpn\<close>, \<open>VpnProps\<close>: keys,
    approval and revoking of devices, and that a revoked person's devices are gone.
  \<^item> \<open>Backup\<close>, \<open>BackupProps\<close>: runs, their history, restoring; what a recorded success is worth.
  \<^item> \<open>ComputeMesh\<close> (\<open>api/computemesh.go\<close>, \<open>meshcentral\<close>): switching computers on and off through a MeshCentral server;
    which machine a command reaches, and how a registration that was lost sends it to the wrong one.
  \<^item> \<open>Calendar\<close>, \<open>CalendarProps\<close>: the portal's calendar, its settings and its client.

  \<^bold>\<open>Bounds.\<close>  Loops over data are structural.  Loops that wait for another program take the list of what each
  look saw, or the number of attempts the source's deadline allows; after the last one the model takes the
  source's time-out branch, so that no theorem depends on fuel.  Where the source waits until a deadline
  (for a module to become healthy), the number of looks is bounded by the deadline over the pause between looks.  Bounded
  text parsers (net/url, versions, paths) recurse on the text itself.

  \<^bold>\<open>Not modelled.\<close>
  \<^item> The wording of messages to people and of log lines: an error is its kind and, where it matters, its code.
  \<^item> JSON text, YAML, gzip, tar, CSV of Asterisk, iCalendar, HTML cleaning, bcrypt, SHA-256, LDAP, ffmpeg,
    full-text search and the object stores: parameters.  File modes and owners are left out.
  \<^item> Background jobs run as one step between requests; tickers are calls of the function they call; the two
    ends of a pipe run one after the other.  Mutexes make an operation one step.
  \<^item> Route tables, listening, the socket loops of chat, the clients of the object stores.
  \<^item> Floating point: loads and percentages are exact rationals.
  \<^item> The user interface, shell scripts and compose files, which are not Go.
\<close>

end
